(* ===== verification/Nrf_Prelude.thy ===== *)
theory Nrf_Prelude
  imports Main "HOL-Library.Word" "HOL-Library.Monad_Syntax"
begin

text \<open>
  Shared vocabulary of the development: the machine integer types of the C code, checked
  array accesses, the little and big endian accessors of \<^verbatim>\<open>bluez/util.h\<close>, how
  undefined behaviour is modelled, and the generic facts on lists, words and
  options that the component theories use. The collection \<open>codec_simps\<close> holds the width and
  round-trip facts of the byte accessors, \<open>word_facts\<close> the facts that move a machine integer
  to \<open>nat\<close>.
\<close>

unbundle bit_operations_syntax

section \<open>Machine integers\<close>

type_synonym byte = "8 word"
type_synonym u16 = "16 word"
type_synonym u32 = "32 word"
type_synonym u64 = "64 word"
type_synonym bytes = "byte list"

named_theorems codec_simps
named_theorems word_facts

lemma unat_u8_lt [word_facts]: "unat (b :: byte) < 256"
  using unsigned_less [of b] by simp

lemma unat_u16_lt [word_facts]: "unat (w :: u16) < 65536"
  using unsigned_less [of w] by simp

lemma unat_u32_lt [word_facts]: "unat (w :: u32) < 4294967296"
  using unsigned_less [of w] by simp

lemma unat_word_of_nat_64 [word_facts]: "n < 2 ^ 64 \<Longrightarrow> unat (word_of_nat n :: u64) = n"
  by (simp add: unat_of_nat take_bit_nat_eq_self)

lemma unat_word_of_nat_32 [word_facts]: "n < 2 ^ 32 \<Longrightarrow> unat (word_of_nat n :: u32) = n"
  by (simp add: unat_of_nat take_bit_nat_eq_self)

lemma word_of_nat_less_64:
  "a < 2 ^ 64 \<Longrightarrow> b < 2 ^ 64 \<Longrightarrow> (word_of_nat a :: u64) < word_of_nat b \<longleftrightarrow> a < b"
  by (simp add: word_less_nat_alt unat_word_of_nat_64)

lemma word_of_nat_min_64:
  "a < 2 ^ 64 \<Longrightarrow> b < 2 ^ 64 \<Longrightarrow>
     (if (word_of_nat a :: u64) > word_of_nat b then word_of_nat b else word_of_nat a)
       = (word_of_nat (min a b) :: u64)"
  by (simp add: word_of_nat_less_64 min_def)

lemma ucast_64_of_nat: "(ucast (w :: u32) :: u64) = word_of_nat (unat w)"
  by (simp add: of_nat_unat)

lemma unat_ucast_64 [word_facts]: "unat (ucast (w :: u32) :: u64) = unat w"
  using unat_u32_lt [of w] by (simp add: unsigned_ucast_eq take_bit_nat_eq_self)

lemma ucast_of_nat_32: "n < 2 ^ 64 \<Longrightarrow> (ucast (word_of_nat n :: u64) :: u32) = word_of_nat n"
  by (rule word_unat_eq_iff [THEN iffD2])
    (simp add: unsigned_ucast_eq unat_of_nat take_bit_nat_eq_self take_bit_eq_mod)

lemma unat_diff_32 [word_facts]: "unat (b :: u32) \<le> unat a \<Longrightarrow> unat (a - b) = unat a - unat b"
  by (simp add: unat_sub word_le_nat_alt)

lemma unat_add_32 [word_facts]: "unat (a :: u32) + unat b < 2 ^ 32 \<Longrightarrow> unat (a + b) = unat a + unat b"
  by (simp add: unat_word_ariths)

section \<open>Error numbers\<close>

definition EIO :: int where "EIO = 5"
definition ENXIO :: int where "ENXIO = 6"
definition ENOMEM :: int where "ENOMEM = 12"
definition EINVAL :: int where "EINVAL = 22"

lemmas errno_defs = EIO_def ENXIO_def ENOMEM_def EINVAL_def

section \<open>Undefined behaviour\<close>

text \<open>
  A C function that can run into undefined behaviour (a dangling or null pointer, an access out
  of bounds, a division by zero) or that may wait forever is modelled with a result of type
  \<open>'a option\<close>: \<open>Some\<close> is a call that returns normally, \<open>None\<close> is anything else. A theorem
  \<open>f x = Some y\<close> therefore says that the call is safe, that it returns, and what it returns.
\<close>

lemma bind_Some_iff: "(Option.bind m f = Some y) = (\<exists>x. m = Some x \<and> f x = Some y)"
  by (cases m) simp_all

text \<open>
  A property of the result of such a call, if it returns. The rules follow the structure of a
  program; \<open>holds_bind\<close> names what the first part establishes, \<open>holds_bind_any\<close> only keeps the
  equation.
\<close>

definition holds :: "('a \<Rightarrow> bool) \<Rightarrow> 'a option \<Rightarrow> bool" where
  "holds P m \<longleftrightarrow> (\<forall>x. m = Some x \<longrightarrow> P x)"

named_theorems holds_rules

lemma holds_Some [holds_rules]: "P x \<Longrightarrow> holds P (Some x)"
  by (simp add: holds_def)

lemma holds_None [holds_rules]: "holds P None"
  by (simp add: holds_def)

lemma holds_bind: "holds Q m \<Longrightarrow> (\<And>x. Q x \<Longrightarrow> holds P (f x)) \<Longrightarrow> holds P (Option.bind m f)"
  by (auto simp: holds_def bind_Some_iff)

lemma holds_bind_any [holds_rules]: "(\<And>x. m = Some x \<Longrightarrow> holds P (f x)) \<Longrightarrow> holds P (Option.bind m f)"
  by (auto simp: holds_def bind_Some_iff)

lemma holds_if [holds_rules]: "(b \<Longrightarrow> holds P x) \<Longrightarrow> (\<not> b \<Longrightarrow> holds P y) \<Longrightarrow> holds P (if b then x else y)"
  by simp

lemma holds_let [holds_rules]: "(\<And>x. x = e \<Longrightarrow> holds P (f x)) \<Longrightarrow> holds P (Let e f)"
  by simp

lemma holds_option [holds_rules]:
  "(x = None \<Longrightarrow> holds P a) \<Longrightarrow> (\<And>y. x = Some y \<Longrightarrow> holds P (f y)) \<Longrightarrow> holds P (case x of None \<Rightarrow> a | Some y \<Rightarrow> f y)"
  by (cases x) auto

lemma holds_prod [holds_rules]: "(\<And>a b. x = (a, b) \<Longrightarrow> holds P (f a b)) \<Longrightarrow> holds P (case x of (a, b) \<Rightarrow> f a b)"
  by (cases x) auto

lemma holds_sum [holds_rules]:
  "(\<And>a. x = Inl a \<Longrightarrow> holds P (f a)) \<Longrightarrow> (\<And>b. x = Inr b \<Longrightarrow> holds P (g b)) \<Longrightarrow>
     holds P (case x of Inl a \<Rightarrow> f a | Inr b \<Rightarrow> g b)"
  by (cases x) auto

lemma holdsD: "holds P m \<Longrightarrow> m = Some x \<Longrightarrow> P x"
  by (simp add: holds_def)

section \<open>Checked array accesses\<close>

definition array_get :: "'a list \<Rightarrow> nat \<Rightarrow> 'a option" where
  "array_get xs i = (if i < length xs then Some (xs ! i) else None)"

definition array_set :: "'a list \<Rightarrow> nat \<Rightarrow> 'a \<Rightarrow> 'a list option" where
  "array_set xs i v = (if i < length xs then Some (xs[i := v]) else None)"

definition array_slice :: "'a list \<Rightarrow> nat \<Rightarrow> nat \<Rightarrow> 'a list option" where
  "array_slice xs i n = (if i + n \<le> length xs then Some (take n (drop i xs)) else None)"

lemma array_get_simps [simp]:
  "i < length xs \<Longrightarrow> array_get xs i = Some (xs ! i)"
  "length xs \<le> i \<Longrightarrow> array_get xs i = None"
  by (simp_all add: array_get_def)

lemma array_get_eq_Some: "array_get xs i = Some v \<longleftrightarrow> i < length xs \<and> xs ! i = v"
  by (auto simp: array_get_def)

lemma array_slice_simps [simp]:
  "i + n \<le> length xs \<Longrightarrow> array_slice xs i n = Some (take n (drop i xs))"
  "length xs < i + n \<Longrightarrow> array_slice xs i n = None"
  by (simp_all add: array_slice_def)

lemma array_slice_eq_Some:
  "array_slice xs i n = Some ys \<longleftrightarrow> i + n \<le> length xs \<and> ys = take n (drop i xs)"
  by (auto simp: array_slice_def)

lemma take_append_slice: "take i xs @ take n (drop i xs) = take (i + n) xs"
  by (simp add: take_add)

lemma take_drop_append_slice:
  "take m (drop i xs) @ take n (drop (i + m) xs) = take (m + n) (drop i xs)"
  by (metis add.commute drop_drop take_add)

section \<open>Little and big endian accessors\<close>

text \<open>
  \<^verbatim>\<open>put_le16\<close>, \<^verbatim>\<open>get_le16\<close> and their kin read and write through an unaligned pointer; the
  value is swapped on a host of the other byte order, so on every host the bytes are the ones
  below. A short buffer is outside what the accessors define; the model returns \<open>None\<close>.
\<close>

definition put_le16 :: "u16 \<Rightarrow> bytes" where
  "put_le16 v = [ucast v, ucast (drop_bit 8 v)]"

definition put_be16 :: "u16 \<Rightarrow> bytes" where
  "put_be16 v = [ucast (drop_bit 8 v), ucast v]"

definition put_le32 :: "u32 \<Rightarrow> bytes" where
  "put_le32 v = [ucast v, ucast (drop_bit 8 v), ucast (drop_bit 16 v), ucast (drop_bit 24 v)]"

definition put_be32 :: "u32 \<Rightarrow> bytes" where
  "put_be32 v = [ucast (drop_bit 24 v), ucast (drop_bit 16 v), ucast (drop_bit 8 v), ucast v]"

fun get_le16 :: "bytes \<Rightarrow> u16 option" where
  "get_le16 (a # b # _) = Some (ucast a OR push_bit 8 (ucast b))"
| "get_le16 _ = None"

fun get_be16 :: "bytes \<Rightarrow> u16 option" where
  "get_be16 (a # b # _) = Some (ucast b OR push_bit 8 (ucast a))"
| "get_be16 _ = None"

fun get_le32 :: "bytes \<Rightarrow> u32 option" where
  "get_le32 (a # b # c # d # _) =
     Some (ucast a OR push_bit 8 (ucast b) OR push_bit 16 (ucast c) OR push_bit 24 (ucast d))"
| "get_le32 _ = None"

fun get_be32 :: "bytes \<Rightarrow> u32 option" where
  "get_be32 (a # b # c # d # _) =
     Some (ucast d OR push_bit 8 (ucast c) OR push_bit 16 (ucast b) OR push_bit 24 (ucast a))"
| "get_be32 _ = None"

text \<open>
  The interface every fixed-width field of a PDU offers: the encoder writes \<open>width\<close> bytes, the
  decoder reads them back whatever follows, and needs no more than them.
\<close>

locale field_codec =
  fixes put :: "'v \<Rightarrow> bytes"
    and get :: "bytes \<Rightarrow> 'v option"
    and width :: nat
  assumes put_width: "length (put v) = width"
    and get_put: "get (put v @ rest) = Some v"
    and get_short: "length bs < width \<Longrightarrow> get bs = None"
    and put_get: "get bs = Some v \<Longrightarrow> take width bs = put v"
begin

lemma get_put_only: "get (put v) = Some v"
  using get_put [of v "[]"] by simp

lemma put_inject: "put v = put w \<longleftrightarrow> v = w"
  by (metis get_put_only option.inject)

lemma put_append_inject: "put v @ r = put w @ s \<longleftrightarrow> v = w \<and> r = s"
  using put_inject by (auto simp: append_eq_append_conv put_width)

lemma get_at: "length pre = n \<Longrightarrow> get (drop n (pre @ put v @ rest)) = Some v"
  by (simp add: get_put)

lemma get_take: "get bs = Some v \<Longrightarrow> get (take width bs) = Some v"
  by (simp add: put_get get_put_only)

end

text \<open>Reading a value back bit by bit.\<close>

lemma bit_ucast_drop_byte:
  "bit (ucast (drop_bit k w :: 'a::len word) :: byte) n \<longleftrightarrow> n < 8 \<and> bit w (k + n)"
  by (auto simp: bit_simps dest: bit_imp_le_length)

lemma bit_byte_beyond:
  "\<not> bit (b :: byte) (8 + n)" "\<not> bit (b :: byte) (16 + n)" "\<not> bit (b :: byte) (24 + n)"
  by (auto dest: bit_imp_le_length)

interpretation le16: field_codec put_le16 get_le16 2
proof
  show "length (put_le16 v) = 2" for v by (simp add: put_le16_def)
  show "get_le16 (put_le16 v @ rest) = Some v" for v rest
    by (auto simp: put_le16_def bit_simps intro!: bit_word_eqI dest: bit_imp_le_length)
  show "get_le16 bs = None" if "length bs < 2" for bs
    using that by (cases bs rule: get_le16.cases) auto
  show "take 2 bs = put_le16 v" if "get_le16 bs = Some v" for bs v
    using that by (cases bs rule: get_le16.cases)
      (auto simp: put_le16_def bit_simps bit_byte_beyond intro!: bit_word_eqI)
qed

interpretation be16: field_codec put_be16 get_be16 2
proof
  show "length (put_be16 v) = 2" for v by (simp add: put_be16_def)
  show "get_be16 (put_be16 v @ rest) = Some v" for v rest
    by (auto simp: put_be16_def bit_simps intro!: bit_word_eqI dest: bit_imp_le_length)
  show "get_be16 bs = None" if "length bs < 2" for bs
    using that by (cases bs rule: get_be16.cases) auto
  show "take 2 bs = put_be16 v" if "get_be16 bs = Some v" for bs v
    using that by (cases bs rule: get_be16.cases)
      (auto simp: put_be16_def bit_simps bit_byte_beyond intro!: bit_word_eqI)
qed

lemma byte_index_cases:
  assumes "n < (32::nat)"
  obtains "n < 8" | m where "n = 8 + m" "m < 8" | m where "n = 16 + m" "m < 8"
    | m where "n = 24 + m" "m < 8"
proof -
  consider "n < 8" | "8 \<le> n" "n < 16" | "16 \<le> n" "n < 24" | "24 \<le> n" using assms by linarith
  then show thesis
  proof cases
    case 1 then show thesis by (rule that(1))
  next
    case 2 then show thesis using that(2) [of "n - 8"] by simp
  next
    case 3 then show thesis using that(3) [of "n - 16"] by simp
  next
    case 4 then show thesis using that(4) [of "n - 24"] assms by simp
  qed
qed

lemma join_bytes_split:
  "ucast (ucast v :: byte) OR push_bit 8 (ucast (ucast (drop_bit 8 v) :: byte)) OR
   push_bit 16 (ucast (ucast (drop_bit 16 v) :: byte)) OR
   push_bit 24 (ucast (ucast (drop_bit 24 v) :: byte)) = (v :: u32)"
proof (rule bit_word_eqI)
  fix n assume "n < LENGTH(32)"
  then have "n < 32" by simp
  then show "bit (ucast (ucast v :: byte) OR push_bit 8 (ucast (ucast (drop_bit 8 v) :: byte)) OR
      push_bit 16 (ucast (ucast (drop_bit 16 v) :: byte)) OR
      push_bit 24 (ucast (ucast (drop_bit 24 v) :: byte)) :: u32) n = bit v n"
    by (cases rule: byte_index_cases) (auto simp: bit_simps)
qed

lemma split_join_bytes:
  fixes a b c d :: byte
  defines "v \<equiv> ucast a OR push_bit 8 (ucast b) OR push_bit 16 (ucast c) OR push_bit 24 (ucast d) :: u32"
  shows "ucast v = a" "ucast (drop_bit 8 v) = b" "ucast (drop_bit 16 v) = c"
    "ucast (drop_bit 24 v) = d"
  by (auto simp: v_def bit_simps bit_byte_beyond intro!: bit_word_eqI dest: bit_imp_le_length)

interpretation le32: field_codec put_le32 get_le32 4
proof
  show "length (put_le32 v) = 4" for v by (simp add: put_le32_def)
  show "get_le32 (put_le32 v @ rest) = Some v" for v rest
    by (simp add: put_le32_def join_bytes_split)
  show "get_le32 bs = None" if "length bs < 4" for bs
    using that by (cases bs rule: get_le32.cases) auto
  show "take 4 bs = put_le32 v" if "get_le32 bs = Some v" for bs v
    using that by (cases bs rule: get_le32.cases) (auto simp: put_le32_def split_join_bytes simp del: drop_bit_or)
qed

lemma join_bytes_swap:
  "(w OR x OR y OR z :: u32) = z OR y OR x OR w"
  by (simp add: ac_simps)

interpretation be32: field_codec put_be32 get_be32 4
proof
  show "length (put_be32 v) = 4" for v by (simp add: put_be32_def)
  show "get_be32 (put_be32 v @ rest) = Some v" for v rest
    by (simp add: put_be32_def join_bytes_split)
  show "get_be32 bs = None" if "length bs < 4" for bs
    using that by (cases bs rule: get_be32.cases) auto
  show "take 4 bs = put_be32 v" if "get_be32 bs = Some v" for bs v
    using that by (cases bs rule: get_be32.cases) (auto simp: put_be32_def split_join_bytes simp del: drop_bit_or)
qed

lemmas put_widths [codec_simps] = le16.put_width be16.put_width le32.put_width be32.put_width
lemmas get_puts [codec_simps] = le16.get_put be16.get_put le32.get_put be32.get_put
  le16.get_put_only be16.get_put_only le32.get_put_only be32.get_put_only

end
