(* ===== verification/Queue.thy ===== *)
theory Queue
  imports Nrf_Prelude
begin

text \<open>
  \<^verbatim>\<open>bluez/queue.c\<close>: the reference counted linked list behind every table of the ATT and GATT code.
  The model keeps the memory explicit: a heap of queue headers and entries at addresses, so that
  freeing an entry that is still used is visible (the call is \<open>None\<close>). Null pointers are \<open>None\<close> of
  the pointer type; the stored \<^verbatim>\<open>void *\<close> is \<open>'d option\<close>. \<open>queue_rep\<close> relates a heap to the list
  of entries it stores, and the lemmas show that each function performs the list operation.
\<close>

section \<open>Memory\<close>

type_synonym addr = nat

record 'd queue_entry =
  e_ref :: int
  e_data :: "'d option"
  e_next :: "addr option"

record queue =
  q_ref :: int
  q_head :: "addr option"
  q_tail :: "addr option"
  q_entries :: u32

text \<open>
  \<open>brk\<close> is the next address \<^verbatim>\<open>calloc\<close> hands out and \<open>alloc_ok\<close> says which of its calls succeed
  (the allocator is outside the program; every pattern of failures is allowed).
\<close>

record 'd heap =
  ents :: "addr \<rightharpoonup> 'd queue_entry"
  queues :: "addr \<rightharpoonup> queue"
  brk :: addr
  alloc_ok :: "addr \<Rightarrow> bool"

definition heap_alloc :: "'d heap \<Rightarrow> addr option \<times> 'd heap" where
  "heap_alloc h = (if alloc_ok h (brk h) then Some (brk h) else None, h\<lparr>brk := Suc (brk h)\<rparr>)"

definition upd_queue :: "'d heap \<Rightarrow> addr \<Rightarrow> (queue \<Rightarrow> queue) \<Rightarrow> 'd heap option" where
  "upd_queue h p f = do { q \<leftarrow> queues h p; Some (h\<lparr>queues := (queues h)(p \<mapsto> f q)\<rparr>) }"

definition upd_entry ::
  "'d heap \<Rightarrow> addr \<Rightarrow> ('d queue_entry \<Rightarrow> 'd queue_entry) \<Rightarrow> 'd heap option" where
  "upd_entry h a f = do { e \<leftarrow> ents h a; Some (h\<lparr>ents := (ents h)(a \<mapsto> f e)\<rparr>) }"

section \<open>Reference counts, creation and destruction\<close>

definition queue_ref :: "'d heap \<Rightarrow> addr \<Rightarrow> 'd heap option" where
  "queue_ref h p = upd_queue h p (\<lambda>q. q\<lparr>q_ref := q_ref q + 1\<rparr>)"

definition queue_unref :: "'d heap \<Rightarrow> addr \<Rightarrow> 'd heap option" where
  "queue_unref h p = do {
     h \<leftarrow> upd_queue h p (\<lambda>q. q\<lparr>q_ref := q_ref q - 1\<rparr>);
     q \<leftarrow> queues h p;
     Some (if q_ref q \<noteq> 0 then h else h\<lparr>queues := (queues h)(p := None)\<rparr>) }"

definition queue_new :: "'d heap \<Rightarrow> (addr option \<times> 'd heap) option" where
  "queue_new h =
     (case heap_alloc h of
        (None, h) \<Rightarrow> Some (None, h)
      | (Some p, h) \<Rightarrow> do {
          h \<leftarrow> queue_ref (h\<lparr>queues := (queues h)(p \<mapsto>
                 \<lparr>q_ref = 0, q_head = None, q_tail = None, q_entries = 0\<rparr>)\<rparr>) p;
          Some (Some p, h) })"

definition queue_entry_ref :: "'d heap \<Rightarrow> addr \<Rightarrow> 'd heap option" where
  "queue_entry_ref h a = upd_entry h a (\<lambda>e. e\<lparr>e_ref := e_ref e + 1\<rparr>)"

definition queue_entry_unref :: "'d heap \<Rightarrow> addr \<Rightarrow> 'd heap option" where
  "queue_entry_unref h a = do {
     h \<leftarrow> upd_entry h a (\<lambda>e. e\<lparr>e_ref := e_ref e - 1\<rparr>);
     e \<leftarrow> ents h a;
     Some (if e_ref e \<noteq> 0 then h else h\<lparr>ents := (ents h)(a := None)\<rparr>) }"

definition queue_entry_new :: "'d heap \<Rightarrow> 'd option \<Rightarrow> (addr option \<times> 'd heap) option" where
  "queue_entry_new h d =
     (case heap_alloc h of
        (None, h) \<Rightarrow> Some (None, h)
      | (Some a, h) \<Rightarrow> do {
          h \<leftarrow> queue_entry_ref (h\<lparr>ents := (ents h)(a \<mapsto>
                 \<lparr>e_ref = 0, e_data = d, e_next = None\<rparr>)\<rparr>) a;
          Some (Some a, h) })"

section \<open>Insertion and removal at the ends\<close>

definition queue_push_tail ::
  "'d heap \<Rightarrow> addr option \<Rightarrow> 'd option \<Rightarrow> (bool \<times> 'd heap) option" where
  "queue_push_tail h queue d =
     (case queue of None \<Rightarrow> Some (False, h) | Some p \<Rightarrow> do {
        (entry, h) \<leftarrow> queue_entry_new h d;
        case entry of None \<Rightarrow> Some (False, h) | Some e \<Rightarrow> do {
          q \<leftarrow> queues h p;
          h \<leftarrow> (case q_tail q of
                 Some t \<Rightarrow> upd_entry h t (\<lambda>x. x\<lparr>e_next := Some e\<rparr>)
               | None \<Rightarrow> Some h);
          h \<leftarrow> upd_queue h p (\<lambda>q. q\<lparr>q_tail := Some e,
                 q_head := (if q_head q = None then Some e else q_head q),
                 q_entries := q_entries q + 1\<rparr>);
          Some (True, h) } })"

definition queue_push_head ::
  "'d heap \<Rightarrow> addr option \<Rightarrow> 'd option \<Rightarrow> (bool \<times> 'd heap) option" where
  "queue_push_head h queue d =
     (case queue of None \<Rightarrow> Some (False, h) | Some p \<Rightarrow> do {
        (entry, h) \<leftarrow> queue_entry_new h d;
        case entry of None \<Rightarrow> Some (False, h) | Some e \<Rightarrow> do {
          q \<leftarrow> queues h p;
          h \<leftarrow> upd_entry h e (\<lambda>x. x\<lparr>e_next := q_head q\<rparr>);
          h \<leftarrow> upd_queue h p (\<lambda>q. q\<lparr>q_head := Some e,
                 q_tail := (if q_tail q = None then Some e else q_tail q),
                 q_entries := q_entries q + 1\<rparr>);
          Some (True, h) } })"

text \<open>The search loop of \<^verbatim>\<open>queue_push_after\<close>: the first entry that stores the given pointer.\<close>

partial_function (option) entry_of ::
  "'d heap \<Rightarrow> 'd option \<Rightarrow> addr option \<Rightarrow> addr option option" where
  [code]: "entry_of h d tmp =
     (case tmp of None \<Rightarrow> Some None
      | Some a \<Rightarrow> do { x \<leftarrow> ents h a;
                       if e_data x = d then Some (Some a) else entry_of h d (e_next x) })"

definition queue_push_after ::
  "'d heap \<Rightarrow> addr option \<Rightarrow> 'd option \<Rightarrow> 'd option \<Rightarrow> (bool \<times> 'd heap) option" where
  "queue_push_after h queue entry d =
     (case queue of None \<Rightarrow> Some (False, h) | Some p \<Rightarrow> do {
        q \<leftarrow> queues h p;
        qentry \<leftarrow> entry_of h entry (q_head q);
        case qentry of None \<Rightarrow> Some (False, h) | Some a \<Rightarrow> do {
          (new_entry, h) \<leftarrow> queue_entry_new h d;
          case new_entry of None \<Rightarrow> Some (False, h) | Some n \<Rightarrow> do {
            x \<leftarrow> ents h a;
            h \<leftarrow> upd_entry h n (\<lambda>y. y\<lparr>e_next := e_next x\<rparr>);
            h \<leftarrow> (if e_next x = None then upd_queue h p (\<lambda>q. q\<lparr>q_tail := Some n\<rparr>) else Some h);
            h \<leftarrow> upd_entry h a (\<lambda>y. y\<lparr>e_next := Some n\<rparr>);
            h \<leftarrow> upd_queue h p (\<lambda>q. q\<lparr>q_entries := q_entries q + 1\<rparr>);
            Some (True, h) } } })"

definition queue_pop_head ::
  "'d heap \<Rightarrow> addr option \<Rightarrow> ('d option \<times> 'd heap) option" where
  "queue_pop_head h queue =
     (case queue of None \<Rightarrow> Some (None, h) | Some p \<Rightarrow> do {
        q \<leftarrow> queues h p;
        case q_head q of None \<Rightarrow> Some (None, h) | Some a \<Rightarrow> do {
          e \<leftarrow> ents h a;
          h \<leftarrow> (if e_next e = None
                then upd_queue h p (\<lambda>q. q\<lparr>q_head := None, q_tail := None\<rparr>)
                else upd_queue h p (\<lambda>q. q\<lparr>q_head := e_next e\<rparr>));
          h \<leftarrow> queue_entry_unref h a;
          h \<leftarrow> upd_queue h p (\<lambda>q. q\<lparr>q_entries := q_entries q - 1\<rparr>);
          Some (e_data e, h) } })"

definition queue_peek_head :: "'d heap \<Rightarrow> addr option \<Rightarrow> 'd option option" where
  "queue_peek_head h queue =
     (case queue of None \<Rightarrow> Some None | Some p \<Rightarrow> do {
        q \<leftarrow> queues h p;
        case q_head q of None \<Rightarrow> Some None | Some a \<Rightarrow> map_option e_data (ents h a) })"

definition queue_peek_tail :: "'d heap \<Rightarrow> addr option \<Rightarrow> 'd option option" where
  "queue_peek_tail h queue =
     (case queue of None \<Rightarrow> Some None | Some p \<Rightarrow> do {
        q \<leftarrow> queues h p;
        case q_tail q of None \<Rightarrow> Some None | Some a \<Rightarrow> map_option e_data (ents h a) })"

section \<open>Iteration, search, removal\<close>

text \<open>
  A callback may change the heap (a callback of the program may remove entries) and a state of its
  own; it takes the place of the function pointer and its \<^verbatim>\<open>user_data\<close>.
\<close>

type_synonym ('d, 'u) callback = "'d option \<Rightarrow> 'd heap \<times> 'u \<Rightarrow> ('d heap \<times> 'u) option"

partial_function (option) foreach_loop ::
  "('d, 'u) callback \<Rightarrow> addr \<Rightarrow> addr option \<Rightarrow> 'd heap \<times> 'u \<Rightarrow> ('d heap \<times> 'u) option" where
  [code]: "foreach_loop f p entry s =
     (case entry of None \<Rightarrow> Some s | Some a \<Rightarrow> do {
        q \<leftarrow> queues (fst s) p;
        if q_head q \<noteq> None \<and> q_ref q > 1 then do {
          h \<leftarrow> queue_entry_ref (fst s) a;
          x \<leftarrow> ents h a;
          s \<leftarrow> f (e_data x) (h, snd s);
          x \<leftarrow> ents (fst s) a;
          h \<leftarrow> queue_entry_unref (fst s) a;
          foreach_loop f p (e_next x) (h, snd s) }
        else Some s })"

definition queue_foreach ::
  "addr option \<Rightarrow> ('d, 'u) callback option \<Rightarrow> 'd heap \<times> 'u \<Rightarrow> ('d heap \<times> 'u) option" where
  "queue_foreach queue func s =
     (case (queue, func) of
        (Some p, Some f) \<Rightarrow> do {
          q \<leftarrow> queues (fst s) p;
          if q_head q = None then Some s else do {
            h \<leftarrow> queue_ref (fst s) p;
            s \<leftarrow> foreach_loop f p (q_head q) (h, snd s);
            h \<leftarrow> queue_unref (fst s) p;
            Some (h, snd s) } }
      | _ \<Rightarrow> Some s)"

partial_function (option) find_loop ::
  "('d option \<Rightarrow> bool) \<Rightarrow> 'd heap \<Rightarrow> addr option \<Rightarrow> 'd option option" where
  [code]: "find_loop f h entry =
     (case entry of None \<Rightarrow> Some None
      | Some a \<Rightarrow> do { x \<leftarrow> ents h a;
                       if f (e_data x) then Some (e_data x) else find_loop f h (e_next x) })"

text \<open>A null \<open>func\<close> stands for \<^verbatim>\<open>direct_match\<close>, pointer equality with the match data.\<close>

definition queue_find ::
  "'d heap \<Rightarrow> addr option \<Rightarrow> ('d option \<Rightarrow> 'd option \<Rightarrow> bool) option \<Rightarrow> 'd option
     \<Rightarrow> 'd option option" where
  "queue_find h queue func match_data =
     (case queue of None \<Rightarrow> Some None | Some p \<Rightarrow> do {
        q \<leftarrow> queues h p;
        find_loop (\<lambda>d. (case func of None \<Rightarrow> (\<lambda>a b. a = b) | Some f \<Rightarrow> f) d match_data) h (q_head q) })"

text \<open>Unlinking an entry whose predecessor is known, as \<^verbatim>\<open>queue_remove\<close> and
  \<^verbatim>\<open>queue_remove_if\<close> do.\<close>

definition unlink_entry ::
  "'d heap \<Rightarrow> addr \<Rightarrow> addr option \<Rightarrow> addr \<Rightarrow> 'd heap option" where
  "unlink_entry h p prev a = do {
     e \<leftarrow> ents h a;
     h \<leftarrow> (case prev of
            Some b \<Rightarrow> upd_entry h b (\<lambda>x. x\<lparr>e_next := e_next e\<rparr>)
          | None \<Rightarrow> upd_queue h p (\<lambda>q. q\<lparr>q_head := e_next e\<rparr>));
     h \<leftarrow> (if e_next e = None then upd_queue h p (\<lambda>q. q\<lparr>q_tail := prev\<rparr>) else Some h);
     h \<leftarrow> queue_entry_unref h a;
     upd_queue h p (\<lambda>q. q\<lparr>q_entries := q_entries q - 1\<rparr>) }"

text \<open>The result is the entry's data and the new heap, or nothing when no entry matches.\<close>

partial_function (option) remove_loop ::
  "('d option \<Rightarrow> bool) \<Rightarrow> 'd heap \<Rightarrow> addr \<Rightarrow> addr option \<Rightarrow> addr option
     \<Rightarrow> ('d option \<times> 'd heap) option option" where
  [code]: "remove_loop f h p prev entry =
     (case entry of None \<Rightarrow> Some None
      | Some a \<Rightarrow> do {
          x \<leftarrow> ents h a;
          if f (e_data x)
          then do { h \<leftarrow> unlink_entry h p prev a; Some (Some (e_data x, h)) }
          else remove_loop f h p (Some a) (e_next x) })"

definition queue_remove :: "'d heap \<Rightarrow> addr option \<Rightarrow> 'd option \<Rightarrow> (bool \<times> 'd heap) option" where
  "queue_remove h queue d =
     (case queue of None \<Rightarrow> Some (False, h) | Some p \<Rightarrow> do {
        q \<leftarrow> queues h p;
        r \<leftarrow> remove_loop (\<lambda>x. x = d) h p None (q_head q);
        Some (case r of None \<Rightarrow> (False, h) | Some (_, h) \<Rightarrow> (True, h)) })"

definition queue_remove_if ::
  "'d heap \<Rightarrow> addr option \<Rightarrow> ('d option \<Rightarrow> bool) option \<Rightarrow> ('d option \<times> 'd heap) option" where
  "queue_remove_if h queue func =
     (case (queue, func) of
        (Some p, Some f) \<Rightarrow> do {
          q \<leftarrow> queues h p;
          r \<leftarrow> remove_loop f h p None (q_head q);
          Some (case r of None \<Rightarrow> (None, h) | Some (d, h) \<Rightarrow> (d, h)) }
      | _ \<Rightarrow> Some (None, h))"

definition call_destroy ::
  "('d, 'u) callback option \<Rightarrow> 'd option \<Rightarrow> 'd heap \<times> 'u \<Rightarrow> ('d heap \<times> 'u) option" where
  "call_destroy destroy d s = (case destroy of None \<Rightarrow> Some s | Some f \<Rightarrow> f d s)"

partial_function (option) remove_matching_loop ::
  "('d option \<Rightarrow> bool) \<Rightarrow> ('d, 'u) callback option \<Rightarrow> addr \<Rightarrow> u32 \<Rightarrow> 'd heap \<times> 'u
     \<Rightarrow> (u32 \<times> 'd heap \<times> 'u) option" where
  [code]: "remove_matching_loop f destroy p count s = do {
     q \<leftarrow> queues (fst s) p;
     (d, h) \<leftarrow> queue_remove_if (fst s) (Some p) (Some f);
     q' \<leftarrow> queues h p;
     if q_entries q' = q_entries q then Some (count, h, snd s)
     else do {
       s \<leftarrow> call_destroy destroy d (h, snd s);
       remove_matching_loop f destroy p (count + 1) s } }"

partial_function (option) drain_loop ::
  "('d, 'u) callback option \<Rightarrow> u32 \<Rightarrow> addr option \<Rightarrow> 'd heap \<times> 'u
     \<Rightarrow> (u32 \<times> 'd heap \<times> 'u) option" where
  [code]: "drain_loop destroy count entry s =
     (case entry of None \<Rightarrow> Some (count, s)
      | Some a \<Rightarrow> do {
          x \<leftarrow> ents (fst s) a;
          s \<leftarrow> call_destroy destroy (e_data x) s;
          h \<leftarrow> queue_entry_unref (fst s) a;
          drain_loop destroy (count + 1) (e_next x) (h, snd s) })"

definition queue_remove_all ::
  "addr option \<Rightarrow> ('d option \<Rightarrow> bool) option \<Rightarrow> ('d, 'u) callback option \<Rightarrow> 'd heap \<times> 'u
     \<Rightarrow> (u32 \<times> 'd heap \<times> 'u) option" where
  "queue_remove_all queue func destroy s =
     (case queue of None \<Rightarrow> Some (0, s) | Some p \<Rightarrow> do {
        q \<leftarrow> queues (fst s) p;
        case func of
          Some f \<Rightarrow> if q_head q = None then Some (0, s)
                    else remove_matching_loop f destroy p 0 s
        | None \<Rightarrow> do {
            h \<leftarrow> upd_queue (fst s) p (\<lambda>q. q\<lparr>q_head := None, q_tail := None, q_entries := 0\<rparr>);
            drain_loop destroy 0 (q_head q) (h, snd s) } })"

definition queue_destroy ::
  "addr option \<Rightarrow> ('d, 'u) callback option \<Rightarrow> 'd heap \<times> 'u \<Rightarrow> ('d heap \<times> 'u) option" where
  "queue_destroy queue destroy s =
     (case queue of None \<Rightarrow> Some s | Some p \<Rightarrow> do {
        (_, s) \<leftarrow> queue_remove_all (Some p) None destroy s;
        h \<leftarrow> queue_unref (fst s) p;
        Some (h, snd s) })"

definition queue_get_entries :: "'d heap \<Rightarrow> addr option \<Rightarrow> addr option option" where
  "queue_get_entries h queue =
     (case queue of None \<Rightarrow> Some None | Some p \<Rightarrow> map_option q_head (queues h p))"

definition queue_length :: "'d heap \<Rightarrow> addr option \<Rightarrow> u32 option" where
  "queue_length h queue =
     (case queue of None \<Rightarrow> Some 0 | Some p \<Rightarrow> map_option q_entries (queues h p))"

definition queue_isempty :: "'d heap \<Rightarrow> addr option \<Rightarrow> bool option" where
  "queue_isempty h queue =
     (case queue of None \<Rightarrow> Some True | Some p \<Rightarrow> map_option (\<lambda>q. q_entries q = 0) (queues h p))"

section \<open>The list a queue stores\<close>

text \<open>A linked segment from pointer \<open>x\<close> to pointer \<open>y\<close>, given by address and data of its cells.\<close>

type_synonym 'd cells = "(addr \<times> 'd option) list"

fun chain :: "(addr \<rightharpoonup> 'd queue_entry) \<Rightarrow> addr option \<Rightarrow> 'd cells \<Rightarrow> addr option \<Rightarrow> bool" where
  "chain m x [] y \<longleftrightarrow> x = y"
| "chain m x ((a, d) # cs) y \<longleftrightarrow>
     x = Some a \<and> (\<exists>n. m a = Some \<lparr>e_ref = 1, e_data = d, e_next = n\<rparr> \<and> chain m n cs y)"

abbreviation cell_addrs :: "'d cells \<Rightarrow> addr set" where
  "cell_addrs cs \<equiv> fst ` set cs"

lemma chain_append: "chain m x (cs @ ds) y \<longleftrightarrow> (\<exists>z. chain m x cs z \<and> chain m z ds y)"
  by (induction m x cs y rule: chain.induct) auto

lemma chain_upd [simp]: "a \<notin> cell_addrs cs \<Longrightarrow> chain (m(a := v)) x cs y = chain m x cs y"
  by (induction m x cs y rule: chain.induct) auto

lemma chain_cong:
  "(\<And>a. a \<in> cell_addrs cs \<Longrightarrow> m a = m' a) \<Longrightarrow> chain m x cs y = chain m' x cs y"
  by (induction m x cs y rule: chain.induct) auto

lemma chain_dom: "chain m x cs y \<Longrightarrow> cell_addrs cs \<subseteq> dom m"
  by (induction m x cs y rule: chain.induct) auto

lemma chain_None_iff: "chain m None cs None \<longleftrightarrow> cs = []"
  by (cases cs) auto

lemma chain_head: "chain m x cs None \<Longrightarrow> x = (case cs of [] \<Rightarrow> None | c # _ \<Rightarrow> Some (fst c))"
  by (cases cs) auto

lemma chain_snoc:
  "chain m x (cs @ [(a, d)]) y \<longleftrightarrow>
     chain m x cs (Some a) \<and> m a = Some \<lparr>e_ref = 1, e_data = d, e_next = y\<rparr>"
  by (auto simp: chain_append)

text \<open>Redirecting the last cell of a segment extends it.\<close>

lemma chain_redirect:
  assumes "chain m x (cs @ [(a, d)]) y" "a \<notin> cell_addrs cs"
  shows "chain (m(a \<mapsto> \<lparr>e_ref = 1, e_data = d, e_next = z\<rparr>)) x (cs @ [(a, d)]) z"
  using assms by (simp add: chain_snoc)

definition queue_rep :: "int \<Rightarrow> 'd heap \<Rightarrow> addr \<Rightarrow> 'd cells \<Rightarrow> bool" where
  "queue_rep r h p cs \<longleftrightarrow>
     (\<exists>x. queues h p = Some \<lparr>q_ref = r, q_head = x,
            q_tail = (if cs = [] then None else Some (fst (last cs))),
            q_entries = word_of_nat (length cs)\<rparr> \<and> chain (ents h) x cs None) \<and>
     distinct (map fst cs) \<and> r \<ge> 1"

definition heap_ok :: "'d heap \<Rightarrow> bool" where
  "heap_ok h \<longleftrightarrow> (\<forall>a e. ents h a = Some e \<longrightarrow> a < brk h) \<and> (\<forall>p q. queues h p = Some q \<longrightarrow> p < brk h)"

named_theorems queue_defs

lemmas upd_simps [queue_defs] = upd_queue_def upd_entry_def queue_ref_def queue_unref_def
  queue_entry_ref_def queue_entry_unref_def

lemma heap_ok_fresh:
  assumes "heap_ok h"
  shows "ents h (brk h) = None" "queues h (brk h) = None"
  using assms less_irrefl unfolding heap_ok_def by (metis not_None_eq)+

lemma queue_rep_fresh: "heap_ok h \<Longrightarrow> queue_rep r h p cs \<Longrightarrow> brk h \<notin> cell_addrs cs"
  using chain_dom heap_ok_fresh unfolding queue_rep_def by (metis domIff subsetD)

lemma queue_entry_new_ok:
  "alloc_ok h (brk h) \<Longrightarrow> queue_entry_new h d =
     Some (Some (brk h), h\<lparr>brk := Suc (brk h),
       ents := (ents h)(brk h \<mapsto> \<lparr>e_ref = 1, e_data = d, e_next = None\<rparr>)\<rparr>)"
  by (simp add: queue_entry_new_def heap_alloc_def upd_simps)

lemma queue_entry_new_fails:
  "\<not> alloc_ok h (brk h) \<Longrightarrow> queue_entry_new h d = Some (None, h\<lparr>brk := Suc (brk h)\<rparr>)"
  by (simp add: queue_entry_new_def heap_alloc_def)

section \<open>Every function performs its list operation\<close>

lemma heap_okD:
  "heap_ok h \<Longrightarrow> ents h a = Some e \<Longrightarrow> a < brk h"
  "heap_ok h \<Longrightarrow> queues h p = Some q \<Longrightarrow> p < brk h"
  by (auto simp: heap_ok_def)

lemma queue_new_ok:
  assumes "heap_ok h" "alloc_ok h (brk h)"
  shows "\<exists>h'. queue_new h = Some (Some (brk h), h') \<and> queue_rep 1 h' (brk h) [] \<and> heap_ok h' \<and>
    alloc_ok h' = alloc_ok h"
  using assms
  by (auto simp: queue_new_def heap_alloc_def upd_simps queue_rep_def heap_ok_def less_Suc_eq)

lemma queue_push_tail_ok:
  assumes rep: "queue_rep r h p cs" and ok: "heap_ok h" and mem: "alloc_ok h (brk h)"
  shows "\<exists>h'. queue_push_tail h (Some p) d = Some (True, h') \<and>
    queue_rep r h' p (cs @ [(brk h, d)]) \<and> heap_ok h' \<and> alloc_ok h' = alloc_ok h"
proof -
  note fresh = queue_rep_fresh [OF ok rep]
  show ?thesis
  proof (cases cs rule: rev_cases)
    case Nil
    with rep ok show ?thesis
      by (auto simp: queue_push_tail_def queue_entry_new_ok [of h d, OF mem] upd_simps
          queue_rep_def heap_ok_def less_Suc_eq)
  next
    case (snoc cs' c)
    obtain t d' where c: "c = (t, d')" by (cases c)
    from rep obtain x where q: "queues h p = Some \<lparr>q_ref = r, q_head = x, q_tail = Some t,
        q_entries = word_of_nat (length cs)\<rparr>"
      and ch: "chain (ents h) x cs' (Some t)" and t: "ents h t = Some \<lparr>e_ref = 1, e_data = d', e_next = None\<rparr>"
      and dist: "distinct (map fst cs)" and r: "r \<ge> 1"
      by (auto simp: queue_rep_def snoc c chain_snoc)
    from ch obtain y where x: "x = Some y" by (cases cs') auto
    have "t \<notin> cell_addrs cs'" "brk h \<noteq> t" "brk h \<notin> cell_addrs cs'"
      using dist fresh by (auto simp: snoc c)
    then show ?thesis
      using ch t r dist fresh heap_okD(2) [OF ok q] ok x
      by (simp add: queue_push_tail_def queue_entry_new_ok [of h d, OF mem] upd_simps q
          queue_rep_def snoc c chain_append heap_ok_def less_Suc_eq add.commute)
  qed
qed

lemma queue_push_head_ok:
  assumes rep: "queue_rep r h p cs" and ok: "heap_ok h" and mem: "alloc_ok h (brk h)"
  shows "\<exists>h'. queue_push_head h (Some p) d = Some (True, h') \<and>
    queue_rep r h' p ((brk h, d) # cs) \<and> heap_ok h' \<and> alloc_ok h' = alloc_ok h"
proof -
  note fresh = queue_rep_fresh [OF ok rep]
  from rep obtain x where q: "queues h p = Some \<lparr>q_ref = r, q_head = x,
      q_tail = (if cs = [] then None else Some (fst (last cs))), q_entries = word_of_nat (length cs)\<rparr>"
    and ch: "chain (ents h) x cs None" and dist: "distinct (map fst cs)" and r: "r \<ge> 1"
    by (auto simp: queue_rep_def)
  show ?thesis
    using ch r dist fresh heap_okD(2) [OF ok q] ok
    by (auto simp: queue_push_head_def queue_entry_new_ok [of h d, OF mem] upd_simps q
        queue_rep_def heap_ok_def less_Suc_eq add.commute)
qed

lemma queue_pop_head_ok:
  assumes rep: "queue_rep r h p ((a, d) # cs)" and ok: "heap_ok h"
  shows "\<exists>h'. queue_pop_head h (Some p) = Some (d, h') \<and> queue_rep r h' p cs \<and> heap_ok h' \<and>
    alloc_ok h' = alloc_ok h \<and> ents h' a = None"
proof -
  from rep obtain n where q: "queues h p = Some \<lparr>q_ref = r, q_head = Some a,
      q_tail = Some (fst (last ((a, d) # cs))), q_entries = word_of_nat (Suc (length cs))\<rparr>"
    and a: "ents h a = Some \<lparr>e_ref = 1, e_data = d, e_next = n\<rparr>"
    and ch: "chain (ents h) n cs None" and dist: "distinct (map fst cs)" "a \<notin> cell_addrs cs"
    and r: "r \<ge> 1"
    by (auto simp: queue_rep_def)
  from ch have n: "n = None \<longleftrightarrow> cs = []" by (cases cs) auto
  show ?thesis
  proof (cases "cs = []")
    case True
    then show ?thesis
      using r ok heap_okD(2) [OF ok q] n by (auto simp: queue_pop_head_def upd_simps q a queue_rep_def heap_ok_def)
  next
    case False
    then show ?thesis
      using r ok heap_okD(2) [OF ok q] n ch dist
      by (auto simp: queue_pop_head_def upd_simps q a queue_rep_def heap_ok_def)
  qed
qed

lemma queue_pop_head_empty: "queue_rep r h p [] \<Longrightarrow> queue_pop_head h (Some p) = Some (None, h)"
  by (auto simp: queue_rep_def queue_pop_head_def)

lemma queue_peek_ok:
  assumes "queue_rep r h p cs"
  shows "queue_peek_head h (Some p) = Some (if cs = [] then None else snd (hd cs))"
    and "queue_peek_tail h (Some p) = Some (if cs = [] then None else snd (last cs))"
proof -
  show "queue_peek_head h (Some p) = Some (if cs = [] then None else snd (hd cs))"
    using assms by (cases cs) (auto simp: queue_rep_def queue_peek_head_def)
  show "queue_peek_tail h (Some p) = Some (if cs = [] then None else snd (last cs))"
    using assms by (cases cs rule: rev_cases)
      (auto simp: queue_rep_def queue_peek_tail_def chain_append)
qed

lemma queue_length_ok: "queue_rep r h p cs \<Longrightarrow> queue_length h (Some p) = Some (word_of_nat (length cs))"
  by (auto simp: queue_rep_def queue_length_def)

lemma queue_isempty_ok:
  "queue_rep r h p cs \<Longrightarrow> length cs < 2 ^ 32 \<Longrightarrow> queue_isempty h (Some p) = Some (cs = [])"
  using dvd_imp_le [of "2 ^ 32" "length cs"]
  by (cases "cs = []") (auto simp: queue_rep_def queue_isempty_def word_of_nat_eq_0_iff)

lemma find_loop_ok:
  "chain (ents h) x cs None \<Longrightarrow>
     find_loop f h x = Some (case find (\<lambda>c. f (snd c)) cs of None \<Rightarrow> None | Some c \<Rightarrow> snd c)"
proof (induction cs arbitrary: x)
  case Nil
  then show ?case by (simp add: find_loop.simps)
next
  case (Cons c cs)
  obtain a d where "c = (a, d)" by (cases c)
  with Cons show ?case by (auto simp: find_loop.simps [of f h "Some a"])
qed

lemma queue_find_ok:
  "queue_rep r h p cs \<Longrightarrow>
     queue_find h (Some p) (Some f) m =
       Some (case find (\<lambda>c. f (snd c) m) cs of None \<Rightarrow> None | Some c \<Rightarrow> snd c)"
  by (auto simp: queue_rep_def queue_find_def find_loop_ok)

lemma unlink_entry_ok:
  assumes rep: "queue_rep r h p (pre @ (a, d) # vs)" and ok: "heap_ok h"
    and prev: "prev = (if pre = [] then None else Some (fst (last pre)))"
  shows "\<exists>h'. unlink_entry h p prev a = Some h' \<and> queue_rep r h' p (pre @ vs) \<and> heap_ok h' \<and>
    alloc_ok h' = alloc_ok h \<and> ents h' a = None"
proof -
  from rep obtain x n where q: "queues h p = Some \<lparr>q_ref = r, q_head = x,
      q_tail = Some (fst (last ((a, d) # vs))), q_entries = word_of_nat (Suc (length pre + length vs))\<rparr>"
    and pre: "chain (ents h) x pre (Some a)"
    and a: "ents h a = Some \<lparr>e_ref = 1, e_data = d, e_next = n\<rparr>"
    and vs: "chain (ents h) n vs None" and r: "r \<ge> 1"
    and dist: "distinct (map fst pre)" "distinct (map fst vs)" "a \<notin> cell_addrs vs"
      "a \<notin> cell_addrs pre" "cell_addrs pre \<inter> cell_addrs vs = {}"
    by (auto simp: queue_rep_def chain_append)
  from vs have n: "n = None \<longleftrightarrow> vs = []" by (cases vs) auto
  show ?thesis
  proof (cases pre rule: rev_cases)
    case Nil
    then show ?thesis
      using r ok heap_okD(2) [OF ok q] n vs dist pre
      by (auto simp: unlink_entry_def prev upd_simps q a queue_rep_def heap_ok_def)
  next
    case (snoc pre' c)
    obtain b d' where c: "c = (b, d')" by (cases c)
    from pre have pre': "chain (ents h) x pre' (Some b)"
      and b: "ents h b = Some \<lparr>e_ref = 1, e_data = d', e_next = Some a\<rparr>"
      by (auto simp: snoc c chain_snoc)
    have distb: "b \<noteq> a" "b \<notin> cell_addrs pre'" "b \<notin> cell_addrs vs" "a \<notin> cell_addrs pre'"
      using dist by (auto simp: snoc c)
    show ?thesis
      using r ok heap_okD(2) [OF ok q] heap_okD(1) [OF ok b] n vs dist pre' b distb
      by (auto simp: unlink_entry_def prev upd_simps q a queue_rep_def heap_ok_def snoc c chain_append)
  qed
qed

text \<open>The first cell that matches, and the cells without it.\<close>

definition first_match :: "('d option \<Rightarrow> bool) \<Rightarrow> 'd cells \<Rightarrow> (addr \<times> 'd option) option" where
  "first_match f cs = find (\<lambda>c. f (snd c)) cs"

definition drop_match :: "('d option \<Rightarrow> bool) \<Rightarrow> 'd cells \<Rightarrow> 'd cells" where
  "drop_match f cs = takeWhile (\<lambda>c. \<not> f (snd c)) cs @ tl (dropWhile (\<lambda>c. \<not> f (snd c)) cs)"

lemma drop_match_simps [simp]:
  "drop_match f [] = []"
  "drop_match f (c # cs) = (if f (snd c) then cs else c # drop_match f cs)"
  by (simp_all add: drop_match_def)

lemma first_match_simps [simp]:
  "first_match f [] = None"
  "first_match f (c # cs) = (if f (snd c) then Some c else first_match f cs)"
  by (simp_all add: first_match_def)

lemma first_match_None: "first_match f cs = None \<longleftrightarrow> (\<forall>c \<in> set cs. \<not> f (snd c))"
  by (induction cs) auto

lemma first_match_Some: "first_match f cs = Some c \<Longrightarrow> c \<in> set cs \<and> f (snd c)"
  by (induction cs) (auto split: if_splits)

lemma drop_match_None: "first_match f cs = None \<Longrightarrow> drop_match f cs = cs"
  by (induction cs) (auto split: if_splits)

lemma filter_drop_match:
  "first_match f cs \<noteq> None \<Longrightarrow>
     filter (\<lambda>c. \<not> f (snd c)) (drop_match f cs) = filter (\<lambda>c. \<not> f (snd c)) cs \<and>
     map snd (filter (\<lambda>c. f (snd c)) cs)
       = snd (the (first_match f cs)) # map snd (filter (\<lambda>c. f (snd c)) (drop_match f cs)) \<and>
     length cs = Suc (length (drop_match f cs))"
  by (induction cs) auto

lemma remove_loop_ok:
  assumes "queue_rep r h p (pre @ cs)" and ok: "heap_ok h"
    and "prev = (if pre = [] then None else Some (fst (last pre)))"
    and "entry = (case cs of [] \<Rightarrow> None | c # _ \<Rightarrow> Some (fst c))"
  shows "case first_match f cs of
      None \<Rightarrow> remove_loop f h p prev entry = Some None
    | Some c \<Rightarrow> \<exists>h'. remove_loop f h p prev entry = Some (Some (snd c, h')) \<and>
        queue_rep r h' p (pre @ drop_match f cs) \<and> heap_ok h' \<and> alloc_ok h' = alloc_ok h \<and>
        ents h' (fst c) = None"
  using assms
proof (induction cs arbitrary: pre prev entry)
  case Nil
  then show ?case by (simp add: remove_loop.simps)
next
  case (Cons c cs)
  obtain a d where c: "c = (a, d)" by (cases c)
  from Cons.prems(1) obtain n where a: "ents h a = Some \<lparr>e_ref = 1, e_data = d, e_next = n\<rparr>"
    and cs: "chain (ents h) n cs None"
    by (auto simp: queue_rep_def chain_append c)
  have step: "remove_loop f h p prev entry =
      (if f d then Option.bind (unlink_entry h p prev a) (\<lambda>h. Some (Some (d, h)))
       else remove_loop f h p (Some a) n)"
    using Cons.prems(4) by (simp add: remove_loop.simps [of f h p prev "Some a"] a c)
  show ?case
  proof (cases "f d")
    case True
    with unlink_entry_ok [OF Cons.prems(1) [unfolded c] ok Cons.prems(3)] show ?thesis
      by (auto simp: step c)
  next
    case False
    have n: "n = (case cs of [] \<Rightarrow> None | c # _ \<Rightarrow> Some (fst c))"
      using cs by (rule chain_head)
    from Cons.IH [of "pre @ [c]" "Some a" n] Cons.prems(1) ok n False show ?thesis
      by (auto simp: step c split: option.splits)
  qed
qed

lemma queue_rep_entry:
  "queue_rep r h p cs \<Longrightarrow> \<exists>q. queues h p = Some q \<and> q_ref q = r \<and>
     q_head q = (case cs of [] \<Rightarrow> None | c # _ \<Rightarrow> Some (fst c)) \<and> q_entries q = word_of_nat (length cs)"
  by (auto simp: queue_rep_def chain_head)

lemma queue_remove_if_ok:
  assumes rep: "queue_rep r h p cs" and ok: "heap_ok h"
  shows "\<exists>h'. queue_remove_if h (Some p) (Some f) =
      Some (case first_match f cs of None \<Rightarrow> None | Some c \<Rightarrow> snd c, h') \<and>
    queue_rep r h' p (drop_match f cs) \<and> heap_ok h' \<and> alloc_ok h' = alloc_ok h"
proof -
  from queue_rep_entry [OF rep] obtain q where q: "queues h p = Some q"
    "q_head q = (case cs of [] \<Rightarrow> None | c # _ \<Rightarrow> Some (fst c))" by blast
  have "queue_rep r h p ([] @ cs)" using rep by simp
  from remove_loop_ok [OF this ok refl q(2), of f] rep ok show ?thesis
    by (auto simp: queue_remove_if_def q drop_match_None split: option.splits)
qed

lemma queue_remove_ok:
  assumes rep: "queue_rep r h p cs" and ok: "heap_ok h"
  shows "\<exists>h'. queue_remove h (Some p) d = Some (d \<in> snd ` set cs, h') \<and>
    queue_rep r h' p (drop_match (\<lambda>x. x = d) cs) \<and> heap_ok h' \<and> alloc_ok h' = alloc_ok h"
proof -
  from queue_rep_entry [OF rep] obtain q where q: "queues h p = Some q"
    "q_head q = (case cs of [] \<Rightarrow> None | c # _ \<Rightarrow> Some (fst c))" by blast
  have "queue_rep r h p ([] @ cs)" using rep by simp
  from remove_loop_ok [OF this ok refl q(2), of "\<lambda>x. x = d"] rep ok show ?thesis
    by (auto simp: queue_remove_def q drop_match_None first_match_None
        dest!: first_match_Some split: option.splits) (force+)
qed

section \<open>Iteration\<close>

text \<open>A callback that leaves the heap alone.\<close>

definition pure_callback :: "('d option \<Rightarrow> 'u \<Rightarrow> 'u) \<Rightarrow> ('d, 'u) callback" where
  "pure_callback g = (\<lambda>d s. Some (fst s, g d (snd s)))"

lemma foreach_loop_pure:
  assumes "queues h p = Some q" "q_head q \<noteq> None" "q_ref q > 1"
  shows "chain (ents h) x cs None \<Longrightarrow>
    foreach_loop (pure_callback g) p x (h, u) = Some (h, fold g (map snd cs) u)"
proof (induction cs arbitrary: x u)
  case Nil
  then show ?case by (simp add: foreach_loop.simps)
next
  case (Cons c cs)
  obtain a d where c: "c = (a, d)" by (cases c)
  with Cons.prems obtain n where a: "ents h a = Some \<lparr>e_ref = 1, e_data = d, e_next = n\<rparr>"
    and x: "x = Some a" and n: "chain (ents h) n cs None" by auto
  have same: "(ents h)(a \<mapsto> \<lparr>e_ref = 1, e_data = d, e_next = n\<rparr>) = ents h"
    using a by (simp add: fun_upd_idem)
  show ?case
    using Cons.IH [OF n] assms
    by (simp add: foreach_loop.simps [of _ p "Some a"] x upd_simps a pure_callback_def c same)
qed

lemma queue_foreach_pure:
  assumes rep: "queue_rep 1 h p cs"
  shows "queue_foreach (Some p) (Some (pure_callback g)) (h, u) = Some (h, fold g (map snd cs) u)"
proof -
  from rep obtain q where q: "queues h p = Some q" "q_ref q = 1" and ch: "chain (ents h) (q_head q) cs None"
    by (auto simp: queue_rep_def)
  show ?thesis
  proof (cases "cs = []")
    case True
    then show ?thesis using ch by (simp add: queue_foreach_def q)
  next
    case False
    then obtain y where head: "q_head q = Some y" using ch by (cases cs) auto
    let ?h = "h\<lparr>queues := (queues h)(p \<mapsto> q\<lparr>q_ref := 2\<rparr>)\<rparr>"
    have "foreach_loop (pure_callback g) p (q_head q) (?h, u) = Some (?h, fold g (map snd cs) u)"
      by (rule foreach_loop_pure [where q = "q\<lparr>q_ref := 2\<rparr>"]) (use head ch in auto)
    then show ?thesis
      using head q by (simp add: queue_foreach_def upd_simps fun_upd_idem)
  qed
qed

text \<open>A callback that removes the entry it is called for, and logs it.\<close>

definition removing_callback :: "addr \<Rightarrow> ('d, 'd option list) callback" where
  "removing_callback p = (\<lambda>d s. do { (_, h) \<leftarrow> queue_remove (fst s) (Some p) d; Some (h, snd s @ [d]) })"

lemma foreach_loop_removing:
  assumes "queue_rep 2 h p cs" "heap_ok h"
    and "x = (case cs of [] \<Rightarrow> None | c # _ \<Rightarrow> Some (fst c))"
  shows "\<exists>h'. foreach_loop (removing_callback p) p x (h, u) = Some (h', u @ map snd cs) \<and>
    queue_rep 2 h' p [] \<and> heap_ok h' \<and> (\<forall>a \<in> cell_addrs cs. ents h' a = None)
    \<and> (\<forall>a. ents h a = None \<longrightarrow> ents h' a = None)"
  using assms
proof (induction cs arbitrary: h x u)
  case Nil
  then show ?case by (auto simp: foreach_loop.simps)
next
  case (Cons c cs)
  obtain a d where c: "c = (a, d)" by (cases c)
  from Cons.prems(1) obtain n where q: "queues h p = Some \<lparr>q_ref = 2, q_head = Some a,
      q_tail = Some (fst (last ((a, d) # cs))), q_entries = word_of_nat (Suc (length cs))\<rparr>"
    and a: "ents h a = Some \<lparr>e_ref = 1, e_data = d, e_next = n\<rparr>"
    and ch: "chain (ents h) n cs None" and dist: "distinct (map fst cs)" "a \<notin> cell_addrs cs"
    by (auto simp: queue_rep_def c)
  have n: "n = (case cs of [] \<Rightarrow> None | c # _ \<Rightarrow> Some (fst c))" using ch by (rule chain_head)
  define h' where "h' = h\<lparr>queues := (queues h)(p \<mapsto> \<lparr>q_ref = 2,
      q_head = n, q_tail = (if cs = [] then None else Some (fst (last cs))),
      q_entries = word_of_nat (length cs)\<rparr>), ents := (ents h)(a := None)\<rparr>"
  have rep': "queue_rep 2 h' p cs" using ch dist by (simp add: queue_rep_def h'_def)
  have ok': "heap_ok h'" using Cons.prems(2) heap_okD(2) [OF Cons.prems(2) q]
    by (auto simp: heap_ok_def h'_def)
  have step: "foreach_loop (removing_callback p) p x (h, u) =
      foreach_loop (removing_callback p) p n (h', u @ [d])"
    using Cons.prems(3) n
    by (cases cs) (auto simp: foreach_loop.simps [of _ p "Some a"] c q a upd_simps removing_callback_def
        queue_remove_def remove_loop.simps [of _ _ p None "Some a"] unlink_entry_def h'_def)
  from Cons.IH [OF rep' ok' n, of "u @ [d]"] obtain h2 where
    "foreach_loop (removing_callback p) p n (h', u @ [d]) = Some (h2, (u @ [d]) @ map snd cs)"
    "queue_rep 2 h2 p []" "heap_ok h2" "\<forall>a \<in> cell_addrs cs. ents h2 a = None"
    "\<forall>a. ents h' a = None \<longrightarrow> ents h2 a = None" by blast
  then show ?case by (auto simp: step c h'_def)
qed

section \<open>Bulk removal\<close>

lemma drain_loop_pure:
  assumes "chain (ents h) x cs None" "distinct (map fst cs)"
  shows "\<exists>h'. drain_loop (Some (pure_callback g)) n x (h, u) =
      Some (n + word_of_nat (length cs), h', fold g (map snd cs) u) \<and> queues h' = queues h \<and>
    brk h' = brk h \<and> alloc_ok h' = alloc_ok h \<and>
    (\<forall>a. ents h' a = (if a \<in> cell_addrs cs then None else ents h a))"
  using assms
proof (induction cs arbitrary: h x n u)
  case Nil
  then show ?case by (simp add: drain_loop.simps)
next
  case (Cons c cs)
  obtain a d where c: "c = (a, d)" by (cases c)
  with Cons.prems obtain m where a: "ents h a = Some \<lparr>e_ref = 1, e_data = d, e_next = m\<rparr>"
    and x: "x = Some a" and m: "chain (ents h) m cs None" and fresh: "a \<notin> cell_addrs cs"
    and dist: "distinct (map fst cs)" by auto
  let ?h = "h\<lparr>ents := (ents h)(a := None)\<rparr>"
  have m': "chain (ents ?h) m cs None" using m fresh by simp
  from Cons.IH [OF m' dist, of "n + 1" "g d u"] obtain h' where
    "drain_loop (Some (pure_callback g)) (n + 1) m (?h, g d u) =
      Some (n + 1 + word_of_nat (length cs), h', fold g (map snd cs) (g d u))"
    "queues h' = queues h" "brk h' = brk h" "alloc_ok h' = alloc_ok h"
    "\<forall>b. ents h' b = (if b \<in> cell_addrs cs then None else ents ?h b)"
    by auto
  then show ?case
    by (auto simp: drain_loop.simps [of _ _ "Some a"] x a upd_simps pure_callback_def
        call_destroy_def c add.assoc)
qed

lemma queue_remove_all_ok:
  assumes rep: "queue_rep r h p cs" and ok: "heap_ok h"
  shows "\<exists>h'. queue_remove_all (Some p) None (Some (pure_callback g)) (h, u) =
      Some (word_of_nat (length cs), h', fold g (map snd cs) u) \<and> queue_rep r h' p [] \<and> heap_ok h' \<and>
    alloc_ok h' = alloc_ok h \<and> (\<forall>a \<in> cell_addrs cs. ents h' a = None)"
proof -
  from rep obtain q where q: "queues h p = Some q" "q_ref q = r"
    and ch: "chain (ents h) (q_head q) cs None" and dist: "distinct (map fst cs)" and r: "r \<ge> 1"
    by (auto simp: queue_rep_def)
  let ?q = "q\<lparr>q_head := None, q_tail := None, q_entries := 0\<rparr>"
  let ?h = "h\<lparr>queues := (queues h)(p \<mapsto> ?q)\<rparr>"
  from drain_loop_pure [of ?h "q_head q" cs g 0 u] ch dist obtain h' where
    "drain_loop (Some (pure_callback g)) 0 (q_head q) (?h, u) =
      Some (word_of_nat (length cs), h', fold g (map snd cs) u)" "queues h' = queues ?h"
    "brk h' = brk ?h" "alloc_ok h' = alloc_ok ?h"
    "\<forall>a. ents h' a = (if a \<in> cell_addrs cs then None else ents h a)" by auto
  moreover from this ok heap_okD(2) [OF ok q(1)] have "heap_ok h'"
    by (auto simp: heap_ok_def split: if_splits)
  ultimately show ?thesis
    using q r by (auto simp: queue_remove_all_def upd_simps queue_rep_def)
qed

lemma filter_no_match: "first_match f cs = None \<Longrightarrow>
    filter (\<lambda>c. \<not> f (snd c)) cs = cs \<and> filter (\<lambda>c. f (snd c)) cs = []"
  by (simp add: first_match_None)

lemma remove_matching_loop_pure:
  assumes "queue_rep r h p cs" "heap_ok h"
  shows "\<exists>h'. remove_matching_loop f (Some (pure_callback g)) p n (h, u) =
      Some (n + word_of_nat (length (filter (\<lambda>c. f (snd c)) cs)), h',
        fold g (map snd (filter (\<lambda>c. f (snd c)) cs)) u) \<and>
    queue_rep r h' p (filter (\<lambda>c. \<not> f (snd c)) cs) \<and> heap_ok h' \<and> alloc_ok h' = alloc_ok h"
  using assms
proof (induction "length cs" arbitrary: cs h n u rule: less_induct)
  case less
  from queue_remove_if_ok [OF less.prems, of f] obtain h' where
    h': "queue_remove_if h (Some p) (Some f) =
      Some (case first_match f cs of None \<Rightarrow> None | Some c \<Rightarrow> snd c, h')"
    "queue_rep r h' p (drop_match f cs)" "heap_ok h'" "alloc_ok h' = alloc_ok h" by blast
  from queue_rep_entry [OF less.prems(1)] queue_rep_entry [OF h'(2)] obtain q q' where
    q: "queues h p = Some q" "q_entries q = word_of_nat (length cs)"
    "queues h' p = Some q'" "q_entries q' = word_of_nat (length (drop_match f cs))" by blast
  note step = remove_matching_loop.simps [of f _ p n "(h, u)"]
  show ?case
  proof (cases "first_match f cs")
    case None
    then show ?thesis
      using h' q by (auto simp: step drop_match_None filter_no_match)
  next
    case (Some c)
    note fd = filter_drop_match [of f cs, unfolded Some]
    have len: "length (drop_match f cs) < length cs" using fd by simp
    from less.hyps [OF len h'(2,3), of "n + 1" "g (snd c) u"] obtain h2 where
      h2: "remove_matching_loop f (Some (pure_callback g)) p (n + 1) (h', g (snd c) u) =
        Some (n + 1 + word_of_nat (length (filter (\<lambda>c. f (snd c)) (drop_match f cs))), h2,
          fold g (map snd (filter (\<lambda>c. f (snd c)) (drop_match f cs))) (g (snd c) u))"
      "queue_rep r h2 p (filter (\<lambda>c. \<not> f (snd c)) (drop_match f cs))" "heap_ok h2"
      "alloc_ok h2 = alloc_ok h'" by blast
    have ne: "q_entries q' \<noteq> q_entries q" using fd by (simp add: q)
    have hits: "length (filter (\<lambda>c. f (snd c)) cs) = Suc (length (filter (\<lambda>c. f (snd c)) (drop_match f cs)))"
      using fd by (metis length_Cons length_map option.discI)
    show ?thesis
      using h2 h' ne fd hits Some
      by (simp add: step q call_destroy_def pure_callback_def add.assoc)
  qed
qed

lemma queue_remove_matching_ok:
  assumes rep: "queue_rep r h p cs" and ok: "heap_ok h"
  shows "\<exists>h'. queue_remove_all (Some p) (Some f) (Some (pure_callback g)) (h, u) =
      Some (word_of_nat (length (filter (\<lambda>c. f (snd c)) cs)), h',
        fold g (map snd (filter (\<lambda>c. f (snd c)) cs)) u) \<and>
    queue_rep r h' p (filter (\<lambda>c. \<not> f (snd c)) cs) \<and> heap_ok h' \<and> alloc_ok h' = alloc_ok h"
proof -
  from queue_rep_entry [OF rep] obtain q where q: "queues h p = Some q"
    "q_head q = (case cs of [] \<Rightarrow> None | c # _ \<Rightarrow> Some (fst c))" by blast
  show ?thesis
  proof (cases cs)
    case Nil
    with rep ok q show ?thesis by (simp add: queue_remove_all_def)
  next
    case (Cons c cs')
    with remove_matching_loop_pure [OF assms, of f g 0 u] q show ?thesis
      by (simp add: queue_remove_all_def)
  qed
qed

lemma queue_destroy_ok:
  assumes rep: "queue_rep 1 h p cs" and ok: "heap_ok h"
  shows "\<exists>h'. queue_destroy (Some p) (Some (pure_callback g)) (h, u) = Some (h', fold g (map snd cs) u) \<and>
    queues h' p = None \<and> (\<forall>a \<in> cell_addrs cs. ents h' a = None)"
proof -
  from queue_remove_all_ok [OF assms, of g u] obtain h' where h':
    "queue_remove_all (Some p) None (Some (pure_callback g)) (h, u) =
      Some (word_of_nat (length cs), h', fold g (map snd cs) u)" "queue_rep 1 h' p []"
    "\<forall>a \<in> cell_addrs cs. ents h' a = None" by blast
  from h'(2) obtain q where "queues h' p = Some q" "q_ref q = 1" by (auto simp: queue_rep_def)
  with h'(1,3) show ?thesis by (simp add: queue_destroy_def upd_simps)
qed

lemma entry_of_ok:
  "chain (ents h) x cs None \<Longrightarrow>
     entry_of h d x = Some (map_option fst (find (\<lambda>c. snd c = d) cs))"
proof (induction cs arbitrary: x)
  case Nil
  then show ?case by (simp add: entry_of.simps)
next
  case (Cons c cs)
  obtain a e where "c = (a, e)" by (cases c)
  with Cons show ?case by (auto simp: entry_of.simps [of h d "Some a"])
qed

lemma find_first_split: "\<forall>c \<in> set pre. \<not> P c \<Longrightarrow> P c \<Longrightarrow> find P (pre @ c # post) = Some c"
  by (induction pre) auto

lemma queue_push_after_ok:
  assumes rep: "queue_rep r h p (pre @ (a, d) # post)" and ok: "heap_ok h" and mem: "alloc_ok h (brk h)"
    and first: "\<forall>c \<in> set pre. snd c \<noteq> d"
  shows "\<exists>h'. queue_push_after h (Some p) d v = Some (True, h') \<and>
    queue_rep r h' p (pre @ (a, d) # (brk h, v) # post) \<and> heap_ok h' \<and> alloc_ok h' = alloc_ok h"
proof -
  note fresh = queue_rep_fresh [OF ok rep]
  from rep obtain x n where q: "queues h p = Some \<lparr>q_ref = r, q_head = x,
      q_tail = Some (fst (last ((a, d) # post))), q_entries = word_of_nat (Suc (length pre + length post))\<rparr>"
    and pre: "chain (ents h) x pre (Some a)"
    and a: "ents h a = Some \<lparr>e_ref = 1, e_data = d, e_next = n\<rparr>"
    and post: "chain (ents h) n post None" and r: "r \<ge> 1"
    and dist: "distinct (map fst pre)" "distinct (map fst post)" "a \<notin> cell_addrs post"
      "a \<notin> cell_addrs pre" "cell_addrs pre \<inter> cell_addrs post = {}"
    by (auto simp: queue_rep_def chain_append)
  have "chain (ents h) x (pre @ (a, d) # post) None" using pre a post by (simp add: chain_append)
  then have entry: "entry_of h d x = Some (Some a)"
    using first by (simp add: entry_of_ok find_first_split)
  have new: "brk h \<noteq> a" "brk h \<notin> cell_addrs pre" "brk h \<notin> cell_addrs post" using fresh by auto
  have n: "n = None \<longleftrightarrow> post = []" using post by (cases post) auto
  show ?thesis
  proof (cases "post = []")
    case True
    then show ?thesis
      using r ok heap_okD(2) [OF ok q] heap_okD(1) [OF ok a] n pre dist new
      by (auto simp: queue_push_after_def q entry queue_entry_new_ok [of h v, OF mem] upd_simps a
          queue_rep_def heap_ok_def chain_append less_Suc_eq add.commute)
  next
    case False
    then show ?thesis
      using r ok heap_okD(2) [OF ok q] heap_okD(1) [OF ok a] n pre post dist new
      by (auto simp: queue_push_after_def q entry queue_entry_new_ok [of h v, OF mem] upd_simps a
          queue_rep_def heap_ok_def chain_append less_Suc_eq add.commute)
  qed
qed

section \<open>The container interface its clients rely on\<close>

text \<open>Filling and emptying any container with two operations.\<close>

fun put_all :: "('h \<Rightarrow> 'd \<Rightarrow> (bool \<times> 'h) option) \<Rightarrow> 'h \<Rightarrow> 'd list \<Rightarrow> 'h option" where
  "put_all put h [] = Some h"
| "put_all put h (d # ds) = do { (_, h) \<leftarrow> put h d; put_all put h ds }"

fun take_all :: "('h \<Rightarrow> ('d \<times> 'h) option) \<Rightarrow> 'h \<Rightarrow> nat \<Rightarrow> ('d list \<times> 'h) option" where
  "take_all get h 0 = Some ([], h)"
| "take_all get h (Suc n) = do { (d, h) \<leftarrow> get h; (ds, h) \<leftarrow> take_all get h n; Some (d # ds, h) }"

locale fifo_container =
  fixes rep :: "'h \<Rightarrow> 'd list \<Rightarrow> bool"
    and put :: "'h \<Rightarrow> 'd \<Rightarrow> (bool \<times> 'h) option"
    and get :: "'h \<Rightarrow> ('d \<times> 'h) option"
  assumes put_ok: "rep h ds \<Longrightarrow> \<exists>h'. put h d = Some (True, h') \<and> rep h' (ds @ [d])"
    and get_ok: "rep h (d # ds) \<Longrightarrow> \<exists>h'. get h = Some (d, h') \<and> rep h' ds"
begin

lemma put_all_ok: "rep h es \<Longrightarrow> \<exists>h'. put_all put h ds = Some h' \<and> rep h' (es @ ds)"
proof (induction ds arbitrary: h es)
  case (Cons d ds)
  from put_ok [OF Cons.prems, of d] obtain h1 where h1: "put h d = Some (True, h1)" "rep h1 (es @ [d])"
    by blast
  from Cons.IH [OF h1(2)] h1(1) show ?case by auto
qed simp

lemma take_all_ok: "rep h (ds @ es) \<Longrightarrow> \<exists>h'. take_all get h (length ds) = Some (ds, h') \<and> rep h' es"
proof (induction ds arbitrary: h)
  case (Cons d ds)
  from get_ok [of h d "ds @ es"] Cons.prems obtain h1 where
    h1: "get h = Some (d, h1)" "rep h1 (ds @ es)" by auto
  from Cons.IH [OF h1(2)] h1(1) show ?case by auto
qed simp

lemma first_in_first_out:
  assumes "rep h es"
  shows "\<exists>h1 h2. put_all put h ds = Some h1 \<and> take_all get h1 (length (es @ ds)) = Some (es @ ds, h2)
    \<and> rep h2 []"
  using put_all_ok [OF assms, of ds] take_all_ok [of _ "es @ ds" "[]"] by (metis append_Nil2)

end

locale searchable_container = fifo_container rep put get
  for rep :: "'h \<Rightarrow> 'd list \<Rightarrow> bool" and put get +
  fixes search :: "('d \<Rightarrow> bool) \<Rightarrow> 'h \<Rightarrow> 'd option option"
    and pick :: "('d \<Rightarrow> bool) \<Rightarrow> 'h \<Rightarrow> ('d option \<times> 'h) option"
  assumes search_ok: "rep h ds \<Longrightarrow> search f h = Some (find f ds)"
    and pick_ok: "rep h ds \<Longrightarrow> \<exists>h'. pick f h = Some (find f ds, h') \<and>
      rep h' (takeWhile (\<lambda>d. \<not> f d) ds @ tl (dropWhile (\<lambda>d. \<not> f d) ds))"
begin

lemma search_after_put:
  assumes "rep h ds" "find f ds = None" "f d"
  shows "\<exists>h'. put h d = Some (True, h') \<and> search f h' = Some (Some d)"
proof -
  from put_ok [OF assms(1), of d] obtain h' where h': "put h d = Some (True, h')" "rep h' (ds @ [d])"
    by blast
  have "find f (ds @ [d]) = Some d" using assms(2,3) by (induction ds) (auto split: if_splits)
  with search_ok [OF h'(2), of f] h'(1) show ?thesis by simp
qed

lemma pick_inserted:
  assumes "rep h ds" "find f ds = None" "f d"
  shows "\<exists>h1 h2. put h d = Some (True, h1) \<and> pick f h1 = Some (Some d, h2) \<and> rep h2 ds"
proof -
  from put_ok [OF assms(1), of d] obtain h' where h': "put h d = Some (True, h')" "rep h' (ds @ [d])"
    by blast
  have "find f (ds @ [d]) = Some d \<and> takeWhile (\<lambda>d. \<not> f d) (ds @ [d]) = ds \<and>
      dropWhile (\<lambda>d. \<not> f d) (ds @ [d]) = [d]"
    using assms(2,3) by (induction ds) (auto split: if_splits)
  with pick_ok [OF h'(2), of f] h'(1) show ?thesis by auto
qed

end

text \<open>The heap stores a list of non-null pointers in the queue at \<open>p\<close>, and memory is available.\<close>

definition stores :: "addr \<Rightarrow> 'd heap \<Rightarrow> 'd list \<Rightarrow> bool" where
  "stores p h ds \<longleftrightarrow> (\<exists>cs. queue_rep 1 h p cs \<and> map snd cs = map Some ds) \<and> heap_ok h \<and>
     (\<forall>a. alloc_ok h a)"

definition push_ptr :: "addr \<Rightarrow> 'd heap \<Rightarrow> 'd \<Rightarrow> (bool \<times> 'd heap) option" where
  "push_ptr p h d = queue_push_tail h (Some p) (Some d)"

definition pop_ptr :: "addr \<Rightarrow> 'd heap \<Rightarrow> ('d \<times> 'd heap) option" where
  "pop_ptr p h = do { (d, h) \<leftarrow> queue_pop_head h (Some p); map_option (\<lambda>d. (d, h)) d }"

definition find_ptr :: "addr \<Rightarrow> ('d \<Rightarrow> bool) \<Rightarrow> 'd heap \<Rightarrow> 'd option option" where
  "find_ptr p f h = queue_find h (Some p) (Some (\<lambda>d _. case d of None \<Rightarrow> False | Some x \<Rightarrow> f x)) None"

definition pick_ptr :: "addr \<Rightarrow> ('d \<Rightarrow> bool) \<Rightarrow> 'd heap \<Rightarrow> ('d option \<times> 'd heap) option" where
  "pick_ptr p f h = queue_remove_if h (Some p) (Some (\<lambda>d. case d of None \<Rightarrow> False | Some x \<Rightarrow> f x))"

lemma find_ptrs:
  "map snd cs = map Some ds \<Longrightarrow>
     (case find (\<lambda>c. case snd c of None \<Rightarrow> False | Some x \<Rightarrow> f x) cs of None \<Rightarrow> None | Some c \<Rightarrow> snd c)
       = find f ds \<and>
     map snd (drop_match (\<lambda>d. case d of None \<Rightarrow> False | Some x \<Rightarrow> f x) cs)
       = map Some (takeWhile (\<lambda>d. \<not> f d) ds @ tl (dropWhile (\<lambda>d. \<not> f d) ds))"
  by (induction cs arbitrary: ds) auto

interpretation queue: searchable_container "stores p" "push_ptr p" "pop_ptr p" "find_ptr p" "pick_ptr p"
  for p :: addr
proof
  fix h :: "'d heap" and ds :: "'d list" and d :: 'd and f :: "'d \<Rightarrow> bool"
  show "\<exists>h'. push_ptr p h d = Some (True, h') \<and> stores p h' (ds @ [d])" if "stores p h ds"
    using that queue_push_tail_ok [of 1 h p _ "Some d"]
    by (fastforce simp: stores_def push_ptr_def)
  show "\<exists>h'. pop_ptr p h = Some (d, h') \<and> stores p h' ds" if "stores p h (d # ds)"
    using that queue_pop_head_ok [of 1 h p _ "Some d"]
    by (fastforce simp: stores_def pop_ptr_def map_eq_Cons_conv)
  show "find_ptr p f h = Some (find f ds)" if "stores p h ds"
    using that find_ptrs [of _ ds f] by (auto simp: stores_def find_ptr_def queue_find_ok)
  show "\<exists>h'. pick_ptr p f h = Some (find f ds, h') \<and>
      stores p h' (takeWhile (\<lambda>d. \<not> f d) ds @ tl (dropWhile (\<lambda>d. \<not> f d) ds))" if stored: "stores p h ds"
  proof -
    from stored obtain cs where cs: "queue_rep 1 h p cs" "map snd cs = map Some ds" "heap_ok h"
      "\<forall>a. alloc_ok h a" by (auto simp: stores_def)
    let ?f = "\<lambda>d. case d of None \<Rightarrow> False | Some x \<Rightarrow> f x"
    from queue_remove_if_ok [OF cs(1,3), of ?f] obtain h' where
      "queue_remove_if h (Some p) (Some ?f) = Some (find f ds, h')"
      "queue_rep 1 h' p (drop_match ?f cs)" "heap_ok h'" "alloc_ok h' = alloc_ok h"
      using find_ptrs [OF cs(2), of f] by (auto simp: first_match_def)
    with find_ptrs [OF cs(2), of f] cs(4) show ?thesis
      unfolding stores_def pick_ptr_def by auto
  qed
qed

section \<open>Properties\<close>

text \<open>A concrete memory with one queue at address 1, holding 10 and 20 in cells 2 and 3.\<close>

definition demo_heap :: "nat heap" where
  "demo_heap = \<lparr>
     ents = [2 \<mapsto> \<lparr>e_ref = 1, e_data = Some 10, e_next = Some 3\<rparr>,
             3 \<mapsto> \<lparr>e_ref = 1, e_data = Some 20, e_next = None\<rparr>],
     queues = [1 \<mapsto> \<lparr>q_ref = 1, q_head = Some 2, q_tail = Some 3, q_entries = 2\<rparr>],
     brk = 4, alloc_ok = (\<lambda>_. True)\<rparr>"

lemma demo_rep: "queue_rep 1 demo_heap 1 [(2, Some 10), (3, Some 20)]"
  by (simp add: demo_heap_def queue_rep_def)

lemma demo_ok: "heap_ok demo_heap"
  by (auto simp: demo_heap_def heap_ok_def split: if_splits)

lemma demo_stores: "stores 1 demo_heap [10, 20]"
  using demo_rep demo_ok unfolding stores_def by (auto simp: demo_heap_def intro!: exI)

text \<open>C25 A queue is first in, first out: pushing any pointers at the tail of a queue and then popping
  as many times as it has elements returns the stored pointers in order and leaves it empty.\<close>

theorem queue_fifo:
  assumes "stores p h es"
  shows "\<exists>h1 h2. put_all (push_ptr p) h ds = Some h1 \<and>
    take_all (pop_ptr p) h1 (length (es @ ds)) = Some (es @ ds, h2) \<and> stores p h2 []"
  using assms by (rule queue.first_in_first_out)

theorem queue_fifo_witness:
  "\<exists>h1 h2. put_all (push_ptr 1) demo_heap [30, 40] = Some h1 \<and>
    take_all (pop_ptr 1) h1 (length ([10, 20] @ [30, 40 :: nat])) = Some ([10, 20] @ [30, 40], h2) \<and>
    stores 1 h2 []"
  using queue_fifo [OF demo_stores] .

text \<open>\<^verbatim>\<open>queue_push_after\<close> inserts the new pointer right behind the first entry that stores the
  given one, moving the tail when that entry is the last.\<close>

theorem queue_push_after_inserts:
  assumes "queue_rep r h p (pre @ (a, d) # post)" "heap_ok h" "alloc_ok h (brk h)"
    and "\<forall>c \<in> set pre. snd c \<noteq> d"
  shows "\<exists>h'. queue_push_after h (Some p) d v = Some (True, h') \<and>
    queue_rep r h' p (pre @ (a, d) # (brk h, v) # post) \<and> heap_ok h'"
  using queue_push_after_ok [OF assms] by blast

theorem queue_push_after_inserts_witness:
  "\<exists>h'. queue_push_after demo_heap (Some 1) (Some 20) (Some 30) = Some (True, h') \<and>
    queue_rep 1 h' 1 ([(2, Some 10)] @ (3, Some 20) # (brk demo_heap, Some 30) # []) \<and> heap_ok h'"
  by (rule queue_push_after_inserts) (use demo_rep demo_ok in \<open>auto simp: demo_heap_def\<close>)

text \<open>\<^verbatim>\<open>queue_remove_if\<close> returns the first matching pointer, unlinks exactly that entry, and keeps
  head, tail and entry count consistent; with no match it changes nothing.\<close>

theorem queue_remove_if_first_match:
  assumes "queue_rep r h p cs" "heap_ok h"
  shows "\<exists>h'. queue_remove_if h (Some p) (Some f) =
      Some (case first_match f cs of None \<Rightarrow> None | Some c \<Rightarrow> snd c, h') \<and>
    queue_rep r h' p (drop_match f cs) \<and> heap_ok h'"
  using queue_remove_if_ok [OF assms, of f] by blast

theorem queue_remove_if_first_match_witness:
  "\<exists>h'. queue_remove_if demo_heap (Some 1) (Some (\<lambda>d. d = Some 20)) = Some (Some 20, h') \<and>
    queue_rep 1 h' 1 [(2, Some 10)] \<and> heap_ok h'"
  using queue_remove_if_first_match [OF demo_rep demo_ok, of "\<lambda>d. d = Some 20"] by simp

text \<open>\<^verbatim>\<open>queue_remove_all\<close> with a match function returns, for every queue: it removes and destroys
  exactly the matching entries, in order, keeps the others, and returns how many it removed.\<close>

theorem queue_remove_all_matching:
  assumes "queue_rep r h p cs" "heap_ok h"
  shows "\<exists>h'. queue_remove_all (Some p) (Some f) (Some (pure_callback g)) (h, u) =
      Some (word_of_nat (length (filter (\<lambda>c. f (snd c)) cs)), h',
        fold g (map snd (filter (\<lambda>c. f (snd c)) cs)) u) \<and>
    queue_rep r h' p (filter (\<lambda>c. \<not> f (snd c)) cs) \<and> heap_ok h'"
  using queue_remove_matching_ok [OF assms, of f g u] by blast

theorem queue_remove_all_matching_witness:
  "\<exists>h'. queue_remove_all (Some 1) (Some (\<lambda>d. d = Some 10)) (Some (pure_callback (\<lambda>d u. u @ [d])))
      (demo_heap, []) = Some (1, h', [Some 10]) \<and>
    queue_rep 1 h' 1 [(3, Some 20)] \<and> heap_ok h'"
  using queue_remove_all_matching [OF demo_rep demo_ok, of "\<lambda>d. d = Some 10" "\<lambda>d u. u @ [d]" "[]"] by simp

text \<open>C26 Iterating with a callback that removes the very entry it is called for is safe: every entry
  is visited once, in order, the queue ends empty, and every entry is freed once the loop has left it
  (this is what the reference count of an entry is for).\<close>

theorem queue_foreach_removing_safe:
  assumes "queue_rep 1 h p cs" "heap_ok h"
  shows "\<exists>h'. queue_foreach (Some p) (Some (removing_callback p)) (h, u) = Some (h', u @ map snd cs) \<and>
    queue_rep 1 h' p [] \<and> (\<forall>a \<in> cell_addrs cs. ents h' a = None)"
proof -
  from assms(1) obtain q where q: "queues h p = Some q" "q_ref q = 1"
    "q_head q = (case cs of [] \<Rightarrow> None | c # _ \<Rightarrow> Some (fst c))"
    using queue_rep_entry by blast
  let ?h = "h\<lparr>queues := (queues h)(p \<mapsto> q\<lparr>q_ref := 2\<rparr>)\<rparr>"
  have ref: "queue_ref h p = Some ?h" by (simp add: upd_simps q)
  have "queue_rep 2 ?h p cs" "heap_ok ?h"
    using assms q(1) by (auto simp: queue_rep_def heap_ok_def)
  from foreach_loop_removing [OF this q(3), of u] obtain h2 where h2:
    "foreach_loop (removing_callback p) p (q_head q) (?h, u) = Some (h2, u @ map snd cs)"
    "queue_rep 2 h2 p []" "\<forall>a \<in> cell_addrs cs. ents h2 a = None" by blast
  from h2(2) obtain x where x: "queues h2 p = Some \<lparr>q_ref = 2, q_head = x, q_tail = None, q_entries = 0\<rparr>"
    "chain (ents h2) x [] None" by (auto simp: queue_rep_def)
  show ?thesis
  proof (cases cs)
    case Nil
    with q assms(1) show ?thesis by (simp add: queue_foreach_def)
  next
    case (Cons c cs')
    with q h2 x ref show ?thesis
      by (auto simp: queue_foreach_def queue_unref_def upd_queue_def queue_rep_def)
  qed
qed

theorem queue_foreach_removing_safe_witness:
  "\<exists>h'. queue_foreach (Some 1) (Some (removing_callback 1)) (demo_heap, []) = Some (h', [Some 10, Some 20]) \<and>
    queue_rep 1 h' 1 [] \<and> ents h' 2 = None \<and> ents h' 3 = None"
  using queue_foreach_removing_safe [OF demo_rep demo_ok, of "[]"] by simp

end
