(* ===== verification/Mainloop.thy ===== *)
theory Mainloop
  imports Nrf_Prelude
begin

text \<open>
  \<^verbatim>\<open>bluez/mainloop.c\<close>: the flags of the event loop and \<^verbatim>\<open>mainloop_run\<close>. The loop is generic in what
  an event is: \<open>poll\<close> stands for \<^verbatim>\<open>epoll_wait\<close> (\<open>None\<close> when it would wait for ever, no events when
  it returns an error) and \<open>dispatch\<close> for the callback of an event, which may change the flags.
  Here \<^verbatim>\<open>signal_data\<close> is null, as always in this program; theory \<open>Signals\<close> adds it.
\<close>

section \<open>The flags\<close>

record loop_flags =
  epoll_terminate :: bool
  exit_status :: int
  fatal_error :: bool

definition EXIT_SUCCESS :: int where "EXIT_SUCCESS = 0"
definition EXIT_FAILURE :: int where "EXIT_FAILURE = 1"

definition mainloop_reset_flags :: "'a loop_flags_scheme \<Rightarrow> 'a loop_flags_scheme" where
  "mainloop_reset_flags w = w\<lparr>epoll_terminate := False, fatal_error := False\<rparr>"

definition mainloop_quit :: "'a loop_flags_scheme \<Rightarrow> 'a loop_flags_scheme" where
  "mainloop_quit w = w\<lparr>epoll_terminate := True\<rparr>"

definition mainloop_exit_success :: "'a loop_flags_scheme \<Rightarrow> 'a loop_flags_scheme" where
  "mainloop_exit_success w = w\<lparr>exit_status := EXIT_SUCCESS, epoll_terminate := True\<rparr>"

definition mainloop_exit_failure :: "'a loop_flags_scheme \<Rightarrow> 'a loop_flags_scheme" where
  "mainloop_exit_failure w = w\<lparr>exit_status := EXIT_FAILURE, epoll_terminate := True, fatal_error := True\<rparr>"

section \<open>The loop\<close>

text \<open>The \<^verbatim>\<open>for\<close> loop over one batch of events: the flags are not looked at inside a batch.\<close>

fun dispatch_all :: "('ev \<Rightarrow> 'w \<Rightarrow> 'w option) \<Rightarrow> 'ev list \<Rightarrow> 'w \<Rightarrow> 'w option" where
  "dispatch_all dispatch [] w = Some w"
| "dispatch_all dispatch (ev # evs) w = do { w \<leftarrow> dispatch ev w; dispatch_all dispatch evs w }"

partial_function (option) run_loop ::
  "('a loop_flags_scheme \<Rightarrow> ('ev list \<times> 'a loop_flags_scheme) option) \<Rightarrow>
   ('ev \<Rightarrow> 'a loop_flags_scheme \<Rightarrow> 'a loop_flags_scheme option) \<Rightarrow>
   'a loop_flags_scheme \<Rightarrow> 'a loop_flags_scheme option" where
  [code]: "run_loop poll dispatch w =
     (if \<not> epoll_terminate w \<and> \<not> fatal_error w
      then do {
        (evs, w) \<leftarrow> poll w;
        w \<leftarrow> dispatch_all dispatch evs w;
        run_loop poll dispatch w }
      else Some w)"

definition mainloop_run ::
  "('a loop_flags_scheme \<Rightarrow> ('ev list \<times> 'a loop_flags_scheme) option) \<Rightarrow>
   ('ev \<Rightarrow> 'a loop_flags_scheme \<Rightarrow> 'a loop_flags_scheme option) \<Rightarrow>
   'a loop_flags_scheme \<Rightarrow> (int \<times> 'a loop_flags_scheme) option" where
  "mainloop_run poll dispatch w = do {
     w \<leftarrow> run_loop poll dispatch (w\<lparr>exit_status := EXIT_SUCCESS\<rparr>);
     Some (exit_status w, w\<lparr>epoll_terminate := False\<rparr>) }"

section \<open>Facts about every run\<close>

lemma dispatch_all_append:
  "dispatch_all d (xs @ ys) w = Option.bind (dispatch_all d xs w) (dispatch_all d ys)"
  by (induction xs arbitrary: w) (auto simp: bind_assoc split: Option.bind_splits)

text \<open>The loop stops only when a callback asked for it, or at once when a flag was already set.\<close>

lemma run_loop_stopped: "epoll_terminate w \<or> fatal_error w \<Longrightarrow> run_loop poll dispatch w = Some w"
  by (auto simp: run_loop.simps)

lemma run_loop_step:
  "\<not> epoll_terminate w \<Longrightarrow> \<not> fatal_error w \<Longrightarrow>
     run_loop poll dispatch w = do {
       (evs, w) \<leftarrow> poll w; w \<leftarrow> dispatch_all dispatch evs w; run_loop poll dispatch w }"
  by (subst run_loop.simps) simp

lemma run_loop_post:
  assumes "run_loop poll dispatch w = Some w'"
  shows "epoll_terminate w' \<or> fatal_error w'"
proof -
  have "\<And>w w'. run_loop poll dispatch w = Some w' \<Longrightarrow> epoll_terminate w' \<or> fatal_error w'"
    by (rule run_loop.raw_induct [where P = "\<lambda>p d w w'. epoll_terminate w' \<or> fatal_error w'"])
      (auto simp: bind_Some_iff split: if_splits)
  with assms show ?thesis by blast
qed

text \<open>A property that polling and every callback keep is kept by the whole loop.\<close>

locale loop_invariant =
  fixes inv :: "'a loop_flags_scheme \<Rightarrow> bool"
    and poll :: "'a loop_flags_scheme \<Rightarrow> ('ev list \<times> 'a loop_flags_scheme) option"
    and dispatch :: "'ev \<Rightarrow> 'a loop_flags_scheme \<Rightarrow> 'a loop_flags_scheme option"
  assumes inv_poll: "inv w \<Longrightarrow> poll w = Some (evs, w') \<Longrightarrow> inv w'"
    and inv_dispatch: "inv w \<Longrightarrow> dispatch ev w = Some w' \<Longrightarrow> inv w'"
    and inv_flags: "inv w \<Longrightarrow> inv (w\<lparr>exit_status := s\<rparr>)" "inv w \<Longrightarrow> inv (w\<lparr>epoll_terminate := b\<rparr>)"
begin

lemma inv_dispatch_all: "inv w \<Longrightarrow> dispatch_all dispatch evs w = Some w' \<Longrightarrow> inv w'"
  by (induction evs arbitrary: w) (auto simp: bind_Some_iff dest: inv_dispatch)

lemma inv_run_loop: "run_loop poll dispatch w = Some w' \<Longrightarrow> inv w \<Longrightarrow> inv w'"
proof (rule run_loop.raw_induct [where P = "\<lambda>p d w w'. p = poll \<longrightarrow> d = dispatch \<longrightarrow> inv w \<longrightarrow> inv w'",
      rule_format])
  fix f :: "('a loop_flags_scheme \<Rightarrow> ('ev list \<times> 'a loop_flags_scheme) option) \<Rightarrow>
    ('ev \<Rightarrow> 'a loop_flags_scheme \<Rightarrow> 'a loop_flags_scheme option) \<Rightarrow>
    'a loop_flags_scheme \<Rightarrow> 'a loop_flags_scheme option"
  fix p d w w'
  assume IH: "\<And>p d w w'. f p d w = Some w' \<Longrightarrow> p = poll \<Longrightarrow> d = dispatch \<Longrightarrow> inv w \<Longrightarrow> inv w'"
    and eq: "(if \<not> epoll_terminate w \<and> \<not> fatal_error w
      then p w \<bind> (\<lambda>(evs, w). dispatch_all d evs w \<bind> f p d) else Some w) = Some w'"
    and "p = poll" "d = dispatch" "inv w"
  then show "inv w'"
    by (auto simp: bind_Some_iff split: if_splits) (meson inv_poll inv_dispatch_all)+
qed auto

lemma inv_mainloop_run: "mainloop_run poll dispatch w = Some (s, w') \<Longrightarrow> inv w \<Longrightarrow> inv w'"
  by (auto simp: mainloop_run_def bind_Some_iff intro!: inv_flags(2) dest!: inv_run_loop
      intro: inv_flags(1))

end

end
