(* ===== verification/Uuid.thy ===== *)
theory Uuid
  imports Nrf_Prelude
begin

text \<open>
  \<^verbatim>\<open>bluez/uuid.c\<close>: Bluetooth UUIDs of 16, 32 and 128 bits, their expansion to 128 bits over the
  Bluetooth base UUID, comparison, printing and parsing. \<^verbatim>\<open>bt_uuid_t\<close> is a tagged union, here a
  datatype; the 128-bit value is the byte array of the C type. \<^verbatim>\<open>sscanf\<close> and \<^verbatim>\<open>strtol\<close> are
  modelled as far as the formats of this file use them. \<open>bswap_128\<close> is the byte reversal that
  \<^verbatim>\<open>bluetooth.h\<close> provides beside \<^verbatim>\<open>htobs\<close>.
\<close>

section \<open>The type\<close>

datatype bt_uuid = BT_UUID_UNSPEC | BT_UUID16 u16 | BT_UUID32 u32 | BT_UUID128 bytes

fun uuid_ok :: "bt_uuid \<Rightarrow> bool" where
  "uuid_ok (BT_UUID128 d) \<longleftrightarrow> length d = 16"
| "uuid_ok BT_UUID_UNSPEC \<longleftrightarrow> False"
| "uuid_ok _ \<longleftrightarrow> True"

text \<open>The tag is the width in bits.\<close>

fun uuid_type :: "bt_uuid \<Rightarrow> nat" where
  "uuid_type BT_UUID_UNSPEC = 0"
| "uuid_type (BT_UUID16 _) = 16"
| "uuid_type (BT_UUID32 _) = 32"
| "uuid_type (BT_UUID128 _) = 128"

definition bt_uuid_len :: "bt_uuid \<Rightarrow> nat" where
  "bt_uuid_len u = uuid_type u div 8"

section \<open>Expansion and comparison\<close>

definition bluetooth_base_uuid :: bytes where
  "bluetooth_base_uuid = [0x00, 0x00, 0x00, 0x00, 0x00, 0x00, 0x10, 0x00,
     0x80, 0x00, 0x00, 0x80, 0x5F, 0x9B, 0x34, 0xFB]"

definition BASE_UUID16_OFFSET :: nat where "BASE_UUID16_OFFSET = 2"
definition BASE_UUID32_OFFSET :: nat where "BASE_UUID32_OFFSET = 0"

text \<open>\<^verbatim>\<open>memcpy\<close> into an array at an offset.\<close>

definition overwrite :: "nat \<Rightarrow> 'a list \<Rightarrow> 'a list \<Rightarrow> 'a list" where
  "overwrite i src dst = take i dst @ src @ drop (i + length src) dst"

definition bt_uuid16_to_uuid128 :: "u16 \<Rightarrow> bytes" where
  "bt_uuid16_to_uuid128 v = overwrite BASE_UUID16_OFFSET (put_be16 v) bluetooth_base_uuid"

definition bt_uuid32_to_uuid128 :: "u32 \<Rightarrow> bytes" where
  "bt_uuid32_to_uuid128 v = overwrite BASE_UUID32_OFFSET (put_be32 v) bluetooth_base_uuid"

text \<open>The destination is left as it was for an unspecified UUID.\<close>

fun bt_uuid_to_uuid128 :: "bt_uuid \<Rightarrow> bt_uuid option" where
  "bt_uuid_to_uuid128 (BT_UUID128 d) = Some (BT_UUID128 d)"
| "bt_uuid_to_uuid128 (BT_UUID32 v) = Some (BT_UUID128 (bt_uuid32_to_uuid128 v))"
| "bt_uuid_to_uuid128 (BT_UUID16 v) = Some (BT_UUID128 (bt_uuid16_to_uuid128 v))"
| "bt_uuid_to_uuid128 BT_UUID_UNSPEC = None"

definition bt_uuid16_create :: "u16 \<Rightarrow> bt_uuid" where "bt_uuid16_create v = BT_UUID16 v"
definition bt_uuid32_create :: "u32 \<Rightarrow> bt_uuid" where "bt_uuid32_create v = BT_UUID32 v"
definition bt_uuid128_create :: "bytes \<Rightarrow> bt_uuid" where "bt_uuid128_create d = BT_UUID128 d"

fun memcmp :: "bytes \<Rightarrow> bytes \<Rightarrow> int" where
  "memcmp (a # as) (b # bs) = (if a < b then -1 else if a > b then 1 else memcmp as bs)"
| "memcmp _ _ = 0"

text \<open>Comparing an unspecified UUID reads a local variable that was never set.\<close>

fun bt_uuid128_cmp :: "bt_uuid \<Rightarrow> bt_uuid \<Rightarrow> int option" where
  "bt_uuid128_cmp (BT_UUID128 a) (BT_UUID128 b) = Some (memcmp a b)"
| "bt_uuid128_cmp _ _ = None"

definition bt_uuid_cmp :: "bt_uuid \<Rightarrow> bt_uuid \<Rightarrow> int option" where
  "bt_uuid_cmp uuid1 uuid2 = do {
     u1 \<leftarrow> bt_uuid_to_uuid128 uuid1;
     u2 \<leftarrow> bt_uuid_to_uuid128 uuid2;
     bt_uuid128_cmp u1 u2 }"

section \<open>Wire format\<close>

definition bswap_128 :: "bytes \<Rightarrow> bytes" where "bswap_128 d = rev d"

text \<open>
  The bytes of the union: a 16 or 32-bit value is in host order, little endian here, in front of
  the zeros that the constructors put there.
\<close>

fun value_bytes :: "bt_uuid \<Rightarrow> bytes" where
  "value_bytes BT_UUID_UNSPEC = replicate 16 0"
| "value_bytes (BT_UUID16 v) = put_le16 v @ replicate 14 0"
| "value_bytes (BT_UUID32 v) = put_le32 v @ replicate 12 0"
| "value_bytes (BT_UUID128 d) = d"

text \<open>For a 32-bit UUID the code converts into a local variable and then swaps the source.\<close>

fun bt_uuid_to_le :: "bt_uuid \<Rightarrow> int + bytes" where
  "bt_uuid_to_le (BT_UUID16 v) = Inr (put_le16 v)"
| "bt_uuid_to_le (BT_UUID32 v) = Inr (bswap_128 (value_bytes (BT_UUID32 v)))"
| "bt_uuid_to_le (BT_UUID128 d) = Inr (bswap_128 d)"
| "bt_uuid_to_le BT_UUID_UNSPEC = Inl (- EINVAL)"

section \<open>Printing\<close>

definition hex_digits :: string where "hex_digits = ''0123456789abcdef''"

text \<open>\<^verbatim>\<open>%.nx\<close> of a value of at most \<open>n\<close> hexadecimal digits.\<close>

fun print_hex :: "nat \<Rightarrow> int \<Rightarrow> string" where
  "print_hex 0 v = []"
| "print_hex (Suc n) v = print_hex n (v div 16) @ [hex_digits ! nat (v mod 16)]"

definition snprintf :: "nat \<Rightarrow> string \<Rightarrow> string" where
  "snprintf n s = take (n - 1) s"

definition MAX_LEN_UUID_STR :: nat where "MAX_LEN_UUID_STR = 37"

fun be_value :: "bytes \<Rightarrow> int" where
  "be_value [] = 0"
| "be_value (b # bs) = uint b * 256 ^ length bs + be_value bs"

definition print_uuid128 :: "bytes \<Rightarrow> string" where
  "print_uuid128 d =
     print_hex 8 (be_value (take 4 d)) @ ''-'' @ print_hex 4 (be_value (take 2 (drop 4 d))) @ ''-'' @
     print_hex 4 (be_value (take 2 (drop 6 d))) @ ''-'' @ print_hex 4 (be_value (take 2 (drop 8 d))) @ ''-'' @
     print_hex 8 (be_value (take 4 (drop 10 d))) @ print_hex 4 (be_value (take 2 (drop 14 d)))"

text \<open>The argument is \<open>None\<close> for a null pointer; the result is the return code and the string.\<close>

fun bt_uuid_to_string :: "bt_uuid option \<Rightarrow> nat \<Rightarrow> int \<times> string" where
  "bt_uuid_to_string None n = (- EINVAL, snprintf n ''NULL'')"
| "bt_uuid_to_string (Some (BT_UUID16 v)) n = (0, snprintf n (print_hex 4 (uint v)))"
| "bt_uuid_to_string (Some (BT_UUID32 v)) n = (0, snprintf n (print_hex 8 (uint v)))"
| "bt_uuid_to_string (Some (BT_UUID128 d)) n = (0, snprintf n (print_uuid128 d))"
| "bt_uuid_to_string (Some BT_UUID_UNSPEC) n = (- EINVAL, snprintf n ''Type of UUID (0) unknown.'')"

section \<open>Parsing\<close>

definition char_code :: "char \<Rightarrow> nat" where "char_code c = of_char c"

definition hex_val :: "char \<Rightarrow> int option" where
  "hex_val c =
     (let k = char_code c in
        if 48 \<le> k \<and> k \<le> 57 then Some (int k - 48)
        else if 65 \<le> k \<and> k \<le> 70 then Some (int k - 55)
        else if 97 \<le> k \<and> k \<le> 102 then Some (int k - 87)
        else None)"

definition is_space :: "char \<Rightarrow> bool" where
  "is_space c \<longleftrightarrow> char_code c = 32 \<or> (9 \<le> char_code c \<and> char_code c \<le> 13)"

text \<open>The digits at the head of a string, at most \<open>w\<close> of them: how many, their value, the rest.\<close>

fun read_digits :: "nat \<Rightarrow> int \<Rightarrow> string \<Rightarrow> nat \<Rightarrow> nat \<times> int \<times> string" where
  "read_digits 0 acc s k = (k, acc, s)"
| "read_digits (Suc w) acc [] k = (k, acc, [])"
| "read_digits (Suc w) acc (c # cs) k =
     (case hex_val c of Some d \<Rightarrow> read_digits w (16 * acc + d) cs (Suc k) | None \<Rightarrow> (k, acc, c # cs))"

text \<open>A sign, and the prefix of base 16. Both count for a field width.\<close>

fun read_sign :: "nat \<Rightarrow> string \<Rightarrow> int \<times> nat \<times> string" where
  "read_sign (Suc w) (c # cs) =
     (if c = CHR ''-'' then (-1, w, cs) else if c = CHR ''+'' then (1, w, cs) else (1, Suc w, c # cs))"
| "read_sign w s = (1, w, s)"

fun read_prefix :: "nat \<Rightarrow> string \<Rightarrow> nat \<times> string" where
  "read_prefix w (c # x # cs) =
     (if 2 \<le> w \<and> c = CHR ''0'' \<and> (x = CHR ''x'' \<or> x = CHR ''X'') then (w - 2, cs) else (w, c # x # cs))"
| "read_prefix w s = (w, s)"

text \<open>A conversion \<^verbatim>\<open>%0wx\<close>: the value, or \<open>None\<close> for a matching failure.\<close>

definition scan_hex :: "nat \<Rightarrow> string \<Rightarrow> (int \<times> string) option" where
  "scan_hex w s =
     (let (sg, w1, s1) = read_sign w (dropWhile is_space s);
          (w2, s2) = read_prefix w1 s1;
          (k, v, s3) = read_digits w2 0 s2 0
      in if k = 0 then None else Some (sg * v, s3))"

text \<open>A literal of the format, and \<^verbatim>\<open>%1[...]\<close>.\<close>

fun scan_literal :: "string \<Rightarrow> string \<Rightarrow> string option" where
  "scan_literal [] s = Some s"
| "scan_literal (c # cs) (d # ds) = (if c = d then scan_literal cs ds else None)"
| "scan_literal (c # cs) [] = None"

fun scan_set1 :: "char list \<Rightarrow> string \<Rightarrow> string option" where
  "scan_set1 cs (d # ds) = (if d \<in> set cs then Some ds else None)"
| "scan_set1 cs [] = None"

text \<open>\<^verbatim>\<open>strtol\<close> in base 16: the value and the end pointer; without digits it consumes nothing, and
  a prefix without digits is the number 0.\<close>

definition strtol16 :: "string \<Rightarrow> int \<times> string" where
  "strtol16 s =
     (let n = length s;
          (sg, _, s1) = read_sign n (dropWhile is_space s);
          (_, s2) = read_prefix n s1;
          (k, v, s3) = read_digits n 0 s2 0;
          (k', v', s3') = read_digits n 0 s1 0
      in if k \<noteq> 0 then (sg * v, s3)
         else if k' \<noteq> 0 then (sg * v', s3')
         else (0, s))"

definition is_uuid128 :: "string \<Rightarrow> bool" where
  "is_uuid128 s \<longleftrightarrow> length s = 36 \<and> s ! 8 = CHR ''-'' \<and> s ! 13 = CHR ''-'' \<and> s ! 18 = CHR ''-'' \<and>
     s ! 23 = CHR ''-''"

definition is_base_uuid128 :: "string \<Rightarrow> bool" where
  "is_base_uuid128 s \<longleftrightarrow> is_uuid128 s \<and>
     (do { s \<leftarrow> scan_literal ''0000'' s;
           (_, s) \<leftarrow> scan_hex 4 s;
           s \<leftarrow> scan_literal ''-0000-1000-8000-00805'' s;
           s \<leftarrow> scan_set1 ''fF'' s;
           s \<leftarrow> scan_literal ''9'' s;
           s \<leftarrow> scan_set1 ''bB'' s;
           s \<leftarrow> scan_literal ''34'' s;
           s \<leftarrow> scan_set1 ''fF'' s;
           scan_set1 ''bB'' s }) \<noteq> None"

definition is_uuid32 :: "string \<Rightarrow> bool" where "is_uuid32 s \<longleftrightarrow> length s = 8 \<or> length s = 10"
definition is_uuid16 :: "string \<Rightarrow> bool" where "is_uuid16 s \<longleftrightarrow> length s = 4 \<or> length s = 6"

text \<open>The parsers: \<open>Inl\<close> a negative error code, \<open>Inr\<close> the UUID.\<close>

definition bt_string_to_uuid16 :: "string \<Rightarrow> int + bt_uuid" where
  "bt_string_to_uuid16 s =
     (case strtol16 s of (v, endptr) \<Rightarrow>
        if endptr = [] \<or> hd endptr = CHR ''-'' then Inr (bt_uuid16_create (word_of_int v))
        else Inl (- EINVAL))"

definition bt_string_to_uuid32 :: "string \<Rightarrow> int + bt_uuid" where
  "bt_string_to_uuid32 s =
     (case strtol16 s of (v, endptr) \<Rightarrow>
        if endptr = [] then Inr (bt_uuid32_create (word_of_int v)) else Inl (- EINVAL))"

definition scan_uuid128 :: "string \<Rightarrow> bytes option" where
  "scan_uuid128 s = do {
     (data0, s) \<leftarrow> scan_hex 8 s; s \<leftarrow> scan_literal ''-'' s;
     (data1, s) \<leftarrow> scan_hex 4 s; s \<leftarrow> scan_literal ''-'' s;
     (data2, s) \<leftarrow> scan_hex 4 s; s \<leftarrow> scan_literal ''-'' s;
     (data3, s) \<leftarrow> scan_hex 4 s; s \<leftarrow> scan_literal ''-'' s;
     (data4, s) \<leftarrow> scan_hex 8 s;
     (data5, s) \<leftarrow> scan_hex 4 s;
     Some (put_be32 (word_of_int data0) @ put_be16 (word_of_int data1) @ put_be16 (word_of_int data2) @
           put_be16 (word_of_int data3) @ put_be32 (word_of_int data4) @ put_be16 (word_of_int data5)) }"

definition bt_string_to_uuid128 :: "string \<Rightarrow> int + bt_uuid" where
  "bt_string_to_uuid128 s =
     (case scan_uuid128 s of None \<Rightarrow> Inl (- EINVAL) | Some u128 \<Rightarrow> Inr (bt_uuid128_create u128))"

definition bt_string_to_uuid :: "string \<Rightarrow> int + bt_uuid" where
  "bt_string_to_uuid s =
     (if is_base_uuid128 s then bt_string_to_uuid16 (drop 4 s)
      else if is_uuid128 s then bt_string_to_uuid128 s
      else if is_uuid32 s then bt_string_to_uuid32 s
      else if is_uuid16 s then bt_string_to_uuid16 s
      else Inl (- EINVAL))"

definition to_lower :: "char \<Rightarrow> nat" where
  "to_lower c = (let k = char_code c in if 65 \<le> k \<and> k \<le> 90 then k + 32 else k)"

fun strcasecmp :: "string \<Rightarrow> string \<Rightarrow> int" where
  "strcasecmp [] [] = 0"
| "strcasecmp [] (b # bs) = - int (to_lower b)"
| "strcasecmp (a # as) [] = int (to_lower a)"
| "strcasecmp (a # as) (b # bs) =
     (if to_lower a \<noteq> to_lower b then int (to_lower a) - int (to_lower b) else strcasecmp as bs)"

definition bt_uuid_strcmp :: "string \<Rightarrow> string \<Rightarrow> int" where
  "bt_uuid_strcmp a b = strcasecmp a b"

section \<open>Printed digits and the scanner\<close>

lemma nat_below_16: "n < 16 \<Longrightarrow> n \<in> {0, 1, 2, 3, 4, 5, 6, 7, 8, 9, 10, 11, 12, 13, 14, 15 :: nat}"
  by (simp add: numeral_eq_Suc less_Suc_eq)

lemma hex_digit:
  assumes "n < 16"
  shows "hex_val (hex_digits ! n) = Some (int n)" "\<not> is_space (hex_digits ! n)"
    "hex_digits ! n \<notin> set ''-+xXFB''" "hex_digits ! n \<in> set hex_digits"
  using nat_below_16 [OF assms]
  by (auto simp: hex_digits_def hex_val_def char_code_def is_space_def Let_def)

definition is_digit :: "char \<Rightarrow> bool" where
  "is_digit c \<longleftrightarrow> (\<exists>n < 16. c = hex_digits ! n)"

lemma length_print_hex [simp]: "length (print_hex n v) = n"
  by (induction n arbitrary: v) auto

lemma print_hex_digits: "c \<in> set (print_hex n v) \<Longrightarrow> is_digit c"
  by (induction n arbitrary: v) (auto simp: is_digit_def, metis nat_less_iff pos_mod_bound pos_mod_sign zero_less_numeral of_nat_numeral)

lemma is_digit_facts:
  assumes "is_digit c"
  shows "\<not> is_space c" "c \<noteq> CHR ''-''" "c \<noteq> CHR ''+''" "c \<noteq> CHR ''x''" "c \<noteq> CHR ''X''"
    "c \<noteq> CHR ''F''" "c \<noteq> CHR ''B''"
  using assms hex_digit(2,3) by (auto simp: is_digit_def)

lemma print_hex_add: "0 \<le> v \<Longrightarrow> print_hex (m + n) v = print_hex m (v div 16 ^ n) @ print_hex n (v mod 16 ^ n)"
proof (induction n arbitrary: v)
  case (Suc n)
  have "v div 16 mod 16 ^ n = v mod 16 ^ Suc n div 16"
    using Suc.prems zmod_zmult2_eq [of "16 ^ n" v 16] by simp
  moreover have "v mod 16 ^ Suc n mod 16 = v mod 16" by (simp add: mod_mod_cancel)
  ultimately show ?case using Suc by (simp add: zdiv_zmult2_eq)
qed simp

lemma read_digits_print:
  assumes "0 \<le> v" "v < 16 ^ n"
  shows "read_digits (n + w) acc (print_hex n v @ s) k = read_digits w (16 ^ n * acc + v) s (k + n)"
  using assms
proof (induction n arbitrary: v w s)
  case (Suc n)
  have "nat (v mod 16) < 16" by simp
  note d = hex_digit(1) [OF this]
  have "v div 16 < 16 ^ n" "0 \<le> v div 16" using Suc.prems by (simp_all add: div_less_iff_less_mult)
  from Suc.IH [OF this(2,1), of "Suc w" "hex_digits ! nat (v mod 16) # s"]
  have "read_digits (Suc n + w) acc (print_hex (Suc n) v @ s) k =
      read_digits (Suc w) (16 ^ n * acc + v div 16) (hex_digits ! nat (v mod 16) # s) (k + n)" by simp
  also have "\<dots> = read_digits w (16 * (16 ^ n * acc + v div 16) + v mod 16) s (Suc (k + n))"
    by (simp add: d)
  also have "16 * (16 ^ n * acc + v div 16) + v mod 16 = 16 ^ Suc n * acc + v" by simp
  finally show ?case by simp
next
  case 0
  then have "v = 0" by simp
  then show ?case by simp
qed

lemma print_hex_head:
  assumes "2 \<le> n"
  obtains a b r where "print_hex n v = a # b # r" "is_digit a" "is_digit b"
proof -
  from assms length_print_hex [of n v] obtain a b r where r: "print_hex n v = a # b # r"
    by (cases "print_hex n v" rule: list.exhaust; cases "tl (print_hex n v)") auto
  with print_hex_digits [of _ n v] that show ?thesis by auto
qed

lemma read_print_start:
  assumes "2 \<le> n" "0 < w"
  shows "dropWhile is_space (print_hex n v @ s) = print_hex n v @ s"
    "read_sign w (print_hex n v @ s) = (1, w, print_hex n v @ s)"
    "read_prefix w (print_hex n v @ s) = (w, print_hex n v @ s)"
proof -
  obtain a b r where r: "print_hex n v = a # b # r" "is_digit a" "is_digit b"
    by (rule print_hex_head [OF assms(1)])
  note facts = is_digit_facts [OF r(2)] is_digit_facts [OF r(3)]
  from assms(2) obtain w' where "w = Suc w'" by (cases w) auto
  with r(1) facts show "dropWhile is_space (print_hex n v @ s) = print_hex n v @ s"
    "read_sign w (print_hex n v @ s) = (1, w, print_hex n v @ s)"
    "read_prefix w (print_hex n v @ s) = (w, print_hex n v @ s)" by auto
qed

lemma scan_hex_print:
  assumes "2 \<le> n" "0 \<le> v" "v < 16 ^ n"
  shows "scan_hex n (print_hex n v @ s) = Some (v, s)"
  using assms read_print_start [of n n v s] read_digits_print [of v n 0 0 s 0]
  by (simp add: scan_hex_def)

lemma strtol16_print:
  assumes "2 \<le> n" "0 \<le> v" "v < 16 ^ n" and s: "s = [] \<or> hex_val (hd s) = None"
  shows "strtol16 (print_hex n v @ s) = (v, s)"
proof -
  have stop: "read_digits w acc s k = (k, acc, s)" for w acc k using s by (cases w; cases s) auto
  have "read_digits (n + length s) 0 (print_hex n v @ s) 0 = (n, v, s)"
    using read_digits_print [OF assms(2,3), of "length s" 0 s 0] by (simp add: stop)
  with assms(1) show ?thesis
    using read_print_start [of n "n + length s" v s] by (simp add: strtol16_def)
qed

lemma scan_literal_append [simp]: "scan_literal l (l @ s) = Some s"
  by (induction l) auto

lemma scan_literal_eq: "scan_literal l s = Some r \<longleftrightarrow> s = l @ r"
  by (induction l s rule: scan_literal.induct) auto

lemma scan_set1_eq: "scan_set1 cs s = Some r \<longleftrightarrow> (\<exists>c \<in> set cs. s = c # r)"
  by (cases s) auto

section \<open>Values of byte groups\<close>

lemma uint_byte: "0 \<le> uint (b :: byte)" "uint (b :: byte) < 256"
  using uint_lt2p [of b] by simp_all

lemma be_value_bounds: "0 \<le> be_value bs" "be_value bs < 256 ^ length bs"
proof -
  show "0 \<le> be_value bs" by (induction bs) auto
  show "be_value bs < 256 ^ length bs"
  proof (induction bs)
    case (Cons b bs)
    have "uint b * 256 ^ length bs \<le> 255 * 256 ^ length bs"
      using uint_byte(2) [of b] by (intro mult_right_mono) auto
    moreover have "(256 :: int) ^ length (b # bs) = 255 * 256 ^ length bs + 256 ^ length bs" by simp
    ultimately show ?case using Cons by (simp only: be_value.simps)
  qed simp
qed

lemma byte_of_word:
  "k + 8 \<le> LENGTH('a) \<Longrightarrow>
     ucast (drop_bit k (word_of_int x :: 'a :: len word)) = (word_of_int (drop_bit k x) :: byte)"
  by (auto intro!: bit_word_eqI simp: bit_simps)

lemma byte_wrap: "(word_of_int (256 * q + uint b) :: byte) = b"
proof -
  have "(word_of_int (256 * q + uint b) :: byte) = word_of_int (uint b)"
    by (rule word_of_int_eq_iff [THEN iffD2]) (simp add: take_bit_eq_mod)
  then show ?thesis by (simp only: word_of_int_uint)
qed

lemma drop_low_byte: "drop_bit 8 (256 * q + uint (b :: byte)) = q"
  using uint_byte [of b] by (simp add: drop_bit_eq_div)

lemma drop_low_bytes: "drop_bit 16 x = drop_bit 8 (drop_bit 8 (x :: int))"
  "drop_bit 24 x = drop_bit 8 (drop_bit 8 (drop_bit 8 (x :: int)))"
  by (simp_all add: drop_bit_drop_bit)

lemma put_be16_value: "put_be16 (word_of_int (be_value [a, b])) = [a, b]"
proof -
  let ?v = "256 * uint a + uint b"
  have v: "be_value [a, b] = ?v" by simp
  have "drop_bit 8 ?v = uint a" by (simp only: drop_low_byte)
  then have "ucast (drop_bit 8 (word_of_int ?v :: u16)) = a" "ucast (word_of_int ?v :: u16) = b"
    using byte_of_word [where 'a = 16, of 8 ?v] byte_of_word [where 'a = 16, of 0 ?v]
    by (simp_all only: byte_wrap drop_bit_0 id_apply word_of_int_uint) simp_all
  then show ?thesis unfolding v put_be16_def by simp
qed

lemma put_be32_value: "put_be32 (word_of_int (be_value [a, b, c, d])) = [a, b, c, d]"
proof -
  let ?v = "256 * (256 * (256 * uint a + uint b) + uint c) + uint d"
  have v: "be_value [a, b, c, d] = ?v" by simp
  have "drop_bit 24 ?v = uint a" "drop_bit 16 ?v = 256 * uint a + uint b"
    "drop_bit 8 ?v = 256 * (256 * uint a + uint b) + uint c"
    by (simp_all only: drop_low_bytes drop_low_byte)
  then have "ucast (drop_bit 24 (word_of_int ?v :: u32)) = a" "ucast (drop_bit 16 (word_of_int ?v :: u32)) = b"
    "ucast (drop_bit 8 (word_of_int ?v :: u32)) = c" "ucast (word_of_int ?v :: u32) = d"
    using byte_of_word [where 'a = 32, of 24 ?v] byte_of_word [where 'a = 32, of 16 ?v]
      byte_of_word [where 'a = 32, of 8 ?v] byte_of_word [where 'a = 32, of 0 ?v]
    by (simp_all only: byte_wrap drop_bit_0 id_apply word_of_int_uint) simp_all
  then show ?thesis unfolding v put_be32_def by simp
qed

lemma be_value_put_be16: "be_value (put_be16 v) = uint v"
proof -
  obtain a b where ab: "put_be16 v = [a, b]" by (simp add: put_be16_def)
  have "put_be16 v = put_be16 (word_of_int (be_value (put_be16 v)))" by (simp only: ab put_be16_value)
  then have "v = word_of_int (be_value (put_be16 v))" using be16.get_put_only by (metis option.inject)
  then have "uint v = be_value (put_be16 v) mod 2 ^ 16"
    using uint_word_of_int [where 'a = 16, of "be_value (put_be16 v)"] by (simp only: len_of_numeral_defs) simp
  then show ?thesis using be_value_bounds [of "put_be16 v"] by (simp add: ab)
qed

section \<open>Printing and parsing\<close>

lemma put_be_value:
  "length bs = 2 \<Longrightarrow> put_be16 (word_of_int (be_value bs)) = bs"
  "length bs = 4 \<Longrightarrow> put_be32 (word_of_int (be_value bs)) = bs"
  by (auto simp: length_Suc_conv numeral_eq_Suc put_be16_value put_be32_value simp del: be_value.simps)

lemma uuid128_groups:
  assumes "length d = 16"
  shows "take 4 d @ take 2 (drop 4 d) @ take 2 (drop 6 d) @ take 2 (drop 8 d) @ take 4 (drop 10 d) @
    take 2 (drop 14 d) = d"
proof -
  have step: "take n (drop i d) @ drop (n + i) d = drop i d" for n i
    by (metis append_take_drop_id drop_drop)
  have "take 2 (drop 14 d) = drop 14 d" using assms by simp
  then show ?thesis
    using step [of 4 0] step [of 2 4] step [of 2 6] step [of 2 8] step [of 4 10] by simp
qed

lemma be_value_range:
  "length bs = 2 \<Longrightarrow> be_value bs < 16 ^ 4" "length bs = 4 \<Longrightarrow> be_value bs < 16 ^ 8"
  using be_value_bounds(2) [of bs] by simp_all

lemma scan_print_uuid128:
  assumes "length d = 16"
  shows "scan_uuid128 (print_uuid128 d) = Some d"
proof -
  note s8 = scan_hex_print [of 8, OF _ be_value_bounds(1) be_value_range(2)]
    and s4 = scan_hex_print [of 4, OF _ be_value_bounds(1) be_value_range(1)]
  have s4': "length bs = 2 \<Longrightarrow> scan_hex 4 (print_hex 4 (be_value bs)) = Some (be_value bs, [])" for bs
    using s4 [of bs "[]"] by simp
  have "take 2 (drop 14 d) = drop 14 d" using assms by simp
  with uuid128_groups [OF assms] have groups: "take 4 d @ take 2 (drop 4 d) @ take 2 (drop 6 d) @
      take 2 (drop 8 d) @ take 4 (drop 10 d) @ drop 14 d = d" by simp
  show ?thesis
    using assms unfolding scan_uuid128_def print_uuid128_def by (simp add: s8 s4 s4' put_be_value groups)
qed

lemma print_uuid128_inj: "length a = 16 \<Longrightarrow> length b = 16 \<Longrightarrow> print_uuid128 a = print_uuid128 b \<Longrightarrow> a = b"
  by (metis scan_print_uuid128 option.inject)

lemma is_uuid128_print: "is_uuid128 (print_uuid128 d)"
  by (simp add: is_uuid128_def print_uuid128_def nth_append)

lemma length_print_uuid128 [simp]: "length (print_uuid128 d) = 36"
  by (simp add: print_uuid128_def)

lemma print_base_uuid:
  "print_uuid128 (bt_uuid16_to_uuid128 v) = ''0000'' @ print_hex 4 (uint v) @ ''-0000-1000-8000-00805f9b34fb''"
proof -
  obtain a b where ab: "put_be16 v = [a, b]" by (simp add: put_be16_def)
  have v: "be_value [0, 0, a, b] = uint v" using be_value_put_be16 [of v] by (simp add: ab)
  have "print_hex (4 + 4) (uint v) = print_hex 4 0 @ print_hex 4 (uint v)"
    using uint_lt2p [of v] by (subst print_hex_add) simp_all
  moreover have "print_hex 4 0 = ''0000''" by (simp add: numeral_eq_Suc hex_digits_def)
  ultimately have "print_hex 8 (uint v) = ''0000'' @ print_hex 4 (uint v)" by simp
  moreover have "bt_uuid16_to_uuid128 v = [0, 0, a, b, 0x00, 0x00, 0x10, 0x00, 0x80, 0x00, 0x00, 0x80, 0x5F, 0x9B, 0x34, 0xFB]"
    by (simp add: bt_uuid16_to_uuid128_def overwrite_def BASE_UUID16_OFFSET_def bluetooth_base_uuid_def ab)
  moreover have "print_hex 4 0 = ''0000''" "print_hex 4 0x1000 = ''1000''" "print_hex 4 0x8000 = ''8000''"
    "print_hex 8 0x00805F9B = ''00805f9b''" "print_hex 4 0x34FB = ''34fb''"
    by (simp_all add: numeral_eq_Suc hex_digits_def)
  ultimately show ?thesis
    unfolding print_uuid128_def using v by simp
qed

lemma memcmp_eq_0: "length a = length b \<Longrightarrow> memcmp a b = 0 \<longleftrightarrow> a = b"
  by (induction a b rule: list_induct2) auto

lemma memcmp_refl [simp]: "memcmp a a = 0"
  by (induction a) auto

lemma length_uuid128 [simp]:
  "length (bt_uuid16_to_uuid128 v) = 16" "length (bt_uuid32_to_uuid128 w) = 16"
  by (simp_all add: bt_uuid16_to_uuid128_def bt_uuid32_to_uuid128_def overwrite_def bluetooth_base_uuid_def
      BASE_UUID16_OFFSET_def BASE_UUID32_OFFSET_def codec_simps)

definition expand :: "bt_uuid \<Rightarrow> bytes" where
  "expand u = (case bt_uuid_to_uuid128 u of Some (BT_UUID128 d) \<Rightarrow> d | _ \<Rightarrow> [])"

lemma expand_simps [simp]:
  "expand (BT_UUID128 d) = d" "expand (BT_UUID16 v) = bt_uuid16_to_uuid128 v"
  "expand (BT_UUID32 w) = bt_uuid32_to_uuid128 w"
  by (simp_all add: expand_def)

lemma bt_uuid_to_uuid128_expand: "uuid_ok u \<Longrightarrow> bt_uuid_to_uuid128 u = Some (BT_UUID128 (expand u))"
  by (cases u) auto

lemma length_expand [simp]: "uuid_ok u \<Longrightarrow> length (expand u) = 16"
  by (cases u) auto

lemma bt_uuid_cmp_expand:
  "uuid_ok u \<Longrightarrow> uuid_ok v \<Longrightarrow> bt_uuid_cmp u v = Some (memcmp (expand u) (expand v))"
  by (simp add: bt_uuid_cmp_def bt_uuid_to_uuid128_expand)

lemma bt_uuid_cmp_eq_0: "uuid_ok u \<Longrightarrow> uuid_ok v \<Longrightarrow> bt_uuid_cmp u v = Some 0 \<longleftrightarrow> expand u = expand v"
  by (simp add: bt_uuid_cmp_expand memcmp_eq_0)

lemma put_be16_inj: "put_be16 a = put_be16 b \<longleftrightarrow> a = b"
  using be16.get_put_only by (metis option.inject)

lemma bt_uuid16_to_uuid128_inj: "bt_uuid16_to_uuid128 a = bt_uuid16_to_uuid128 b \<longleftrightarrow> a = b"
  using put_be16_inj [of a b]
  by (simp add: bt_uuid16_to_uuid128_def overwrite_def bluetooth_base_uuid_def BASE_UUID16_OFFSET_def codec_simps)

lemma bt_uuid32_to_uuid128_zero_extended: "bt_uuid32_to_uuid128 (ucast v) = bt_uuid16_to_uuid128 v"
proof -
  have "put_be32 (ucast (v :: u16)) = [0, 0] @ put_be16 v"
  proof -
    have "\<not> bit v (24 + n)" "\<not> bit v (16 + n)" for n by (auto dest!: bit_imp_le_length)
    then show ?thesis by (auto simp: put_be32_def put_be16_def intro!: bit_word_eqI simp: bit_simps)
  qed
  then show ?thesis
    by (simp add: bt_uuid32_to_uuid128_def bt_uuid16_to_uuid128_def overwrite_def bluetooth_base_uuid_def
        BASE_UUID16_OFFSET_def BASE_UUID32_OFFSET_def codec_simps)
qed

text \<open>A printed 128-bit UUID is taken for a 16-bit one exactly when it expands one.\<close>

lemma is_base_uuid128_print:
  assumes "length d = 16" "is_base_uuid128 (print_uuid128 d)"
  shows "\<exists>v. d = bt_uuid16_to_uuid128 v"
proof -
  let ?v = "be_value (take 4 d)" and ?s = "print_uuid128 d"
  let ?hi = "print_hex 4 (?v div 16 ^ 4)" and ?lo = "print_hex 4 (?v mod 16 ^ 4)"
  let ?t = "drop 8 ?s"
  have v: "0 \<le> ?v" by (rule be_value_bounds)
  have "print_hex 8 ?v = ?hi @ ?lo" using print_hex_add [OF v, of 4 4] by simp
  then have s: "?s = ?hi @ ?lo @ ?t" by (simp add: print_uuid128_def)
  have lo: "scan_hex 4 (?lo @ ?t) = Some (?v mod 16 ^ 4, ?t)" by (rule scan_hex_print) simp_all
  from assms(2) obtain s1 where s1: "?s = ''0000'' @ s1"
    unfolding is_base_uuid128_def by (auto simp: bind_eq_None_conv scan_literal_eq split: option.splits)
  with s have "?hi = ''0000''" "s1 = ?lo @ ?t"
    using append_eq_append_conv [of ?hi "''0000''" "?lo @ ?t" s1] by auto
  with s have s': "?s = ''0000'' @ ?lo @ ?t" by simp
  have "is_base_uuid128 ?s \<longleftrightarrow> (do { s \<leftarrow> scan_literal ''-0000-1000-8000-00805'' ?t;
      s \<leftarrow> scan_set1 ''fF'' s; s \<leftarrow> scan_literal ''9'' s; s \<leftarrow> scan_set1 ''bB'' s;
      s \<leftarrow> scan_literal ''34'' s; s \<leftarrow> scan_set1 ''fF'' s; scan_set1 ''bB'' s }) \<noteq> None"
    unfolding is_base_uuid128_def by (subst s', subst scan_literal_append) (simp add: lo [simplified] is_uuid128_print)
  with assms(2) obtain r where "do { s \<leftarrow> scan_literal ''-0000-1000-8000-00805'' ?t;
      s \<leftarrow> scan_set1 ''fF'' s; s \<leftarrow> scan_literal ''9'' s; s \<leftarrow> scan_set1 ''bB'' s;
      s \<leftarrow> scan_literal ''34'' s; s \<leftarrow> scan_set1 ''fF'' s; scan_set1 ''bB'' s } = Some r" by auto
  then obtain f1 b1 f2 b2 where t: "?t = ''-0000-1000-8000-00805'' @ [f1] @ ''9'' @ [b1] @ ''34'' @ [f2, b2] @ r"
    and fb: "f1 \<in> set ''fF''" "b1 \<in> set ''bB''" "f2 \<in> set ''fF''" "b2 \<in> set ''bB''"
    unfolding bind_Some_iff scan_literal_eq scan_set1_eq
    by (elim exE bexE conjE) (simp only: append_Cons append_Nil)
  have "length ?t = 28" by simp
  with t have r: "r = []" by simp
  have lower: "c \<noteq> CHR ''F'' \<and> c \<noteq> CHR ''B''" if "c \<in> set ?s" for c
  proof -
    have "CHR ''F'' \<notin> set (print_hex n v)" "CHR ''B'' \<notin> set (print_hex n v)" for n v
      using print_hex_digits is_digit_facts(6,7) by blast+
    with that show ?thesis by (auto simp: print_uuid128_def)
  qed
  have "set ?t \<subseteq> set ?s" by (rule set_drop_subset)
  with t lower fb have "f1 = CHR ''f''" "b1 = CHR ''b''" "f2 = CHR ''f''" "b2 = CHR ''b''" by auto
  with t r have t: "?t = ''-0000-1000-8000-00805f9b34fb''" by simp
  let ?u = "word_of_int (?v mod 16 ^ 4) :: u16"
  have "uint ?u = ?v mod 16 ^ 4" by (simp add: uint_word_of_int)
  then have "?s = print_uuid128 (bt_uuid16_to_uuid128 ?u)"
    using s t \<open>?hi = ''0000''\<close> by (simp add: print_base_uuid)
  then have "d = bt_uuid16_to_uuid128 ?u" by (intro print_uuid128_inj assms(1)) simp_all
  then show ?thesis by blast
qed

lemma bt_string_to_uuid_base:
  "is_base_uuid128 (print_uuid128 (bt_uuid16_to_uuid128 v)) \<Longrightarrow>
     bt_string_to_uuid (print_uuid128 (bt_uuid16_to_uuid128 v)) = Inr (BT_UUID16 v)"
  using strtol16_print [of 4 "uint v" "''-0000-1000-8000-00805f9b34fb''"] uint_lt2p [of v]
  by (simp add: bt_string_to_uuid_def print_base_uuid bt_string_to_uuid16_def bt_uuid16_create_def
      hex_val_def char_code_def Let_def)

lemma not_base_short: "length s \<noteq> 36 \<Longrightarrow> \<not> is_base_uuid128 s" "length s \<noteq> 36 \<Longrightarrow> \<not> is_uuid128 s"
  by (simp_all add: is_base_uuid128_def is_uuid128_def)

text \<open>C35 Printing a UUID into a buffer of \<^verbatim>\<open>MAX_LEN_UUID_STR\<close> bytes and parsing the string gives a
  UUID that compares equal: 16 and 32-bit UUIDs come back as they were, a 128-bit UUID that expands
  a 16-bit one comes back as the short one.\<close>

theorem uuid_string_round_trip:
  assumes "uuid_ok u"
  shows "\<exists>s v. bt_uuid_to_string (Some u) MAX_LEN_UUID_STR = (0, s) \<and> bt_string_to_uuid s = Inr v \<and>
    uuid_ok v \<and> bt_uuid_cmp u v = Some 0"
proof (cases u)
  case (BT_UUID16 v)
  have "bt_string_to_uuid (print_hex 4 (uint v)) = Inr (BT_UUID16 v)"
    using strtol16_print [of 4 "uint v" "[]"] uint_lt2p [of v]
    by (simp add: bt_string_to_uuid_def not_base_short is_uuid32_def is_uuid16_def bt_string_to_uuid16_def
        bt_uuid16_create_def)
  with BT_UUID16 show ?thesis by (simp add: snprintf_def MAX_LEN_UUID_STR_def bt_uuid_cmp_eq_0)
next
  case (BT_UUID32 w)
  have "bt_string_to_uuid (print_hex 8 (uint w)) = Inr (BT_UUID32 w)"
    using strtol16_print [of 8 "uint w" "[]"] uint_lt2p [of w]
    by (simp add: bt_string_to_uuid_def not_base_short is_uuid32_def bt_string_to_uuid32_def bt_uuid32_create_def)
  with BT_UUID32 show ?thesis by (simp add: snprintf_def MAX_LEN_UUID_STR_def bt_uuid_cmp_eq_0)
next
  case (BT_UUID128 d)
  with assms have d: "length d = 16" by simp
  have str: "bt_uuid_to_string (Some u) MAX_LEN_UUID_STR = (0, print_uuid128 d)"
    by (simp add: BT_UUID128 snprintf_def MAX_LEN_UUID_STR_def)
  show ?thesis
  proof (cases "is_base_uuid128 (print_uuid128 d)")
    case True
    then obtain v where v: "d = bt_uuid16_to_uuid128 v" using is_base_uuid128_print [OF d] by blast
    from bt_string_to_uuid_base [of v] True have "bt_string_to_uuid (print_uuid128 d) = Inr (BT_UUID16 v)"
      by (simp add: v)
    moreover have "bt_uuid_cmp u (BT_UUID16 v) = Some 0" by (simp add: BT_UUID128 v bt_uuid_cmp_eq_0)
    ultimately show ?thesis using str by fastforce
  next
    case False
    then have "bt_string_to_uuid (print_uuid128 d) = Inr (BT_UUID128 d)"
      by (simp add: bt_string_to_uuid_def is_uuid128_print bt_string_to_uuid128_def scan_print_uuid128 d
          bt_uuid128_create_def)
    with str d show ?thesis by (simp add: BT_UUID128 bt_uuid_cmp_eq_0)
  qed
qed (use assms in simp)

theorem uuid_string_round_trip_witness:
  "\<exists>s v. bt_uuid_to_string (Some (BT_UUID128 (replicate 16 0xAB))) MAX_LEN_UUID_STR = (0, s) \<and>
    bt_string_to_uuid s = Inr v \<and> uuid_ok v \<and> bt_uuid_cmp (BT_UUID128 (replicate 16 0xAB)) v = Some 0"
  by (rule uuid_string_round_trip) simp

text \<open>C36 Comparison identifies UUIDs with the same 128-bit expansion: it is reflexive, symmetric and
  transitive, a 16-bit UUID equals the 32-bit one with the same value, and two 16-bit UUIDs are
  equal only if they are the same.\<close>

theorem uuid_cmp_is_equality_of_expansions:
  assumes "uuid_ok u" "uuid_ok v" "uuid_ok w"
  shows "(bt_uuid_cmp u v = Some 0) = (bt_uuid_to_uuid128 u = bt_uuid_to_uuid128 v) \<and>
    bt_uuid_cmp u u = Some 0 \<and> (bt_uuid_cmp u v = Some 0) = (bt_uuid_cmp v u = Some 0) \<and>
    bt_uuid_cmp (BT_UUID16 a) (BT_UUID32 (ucast a)) = Some 0 \<and>
    (bt_uuid_cmp (BT_UUID16 a) (BT_UUID16 b) = Some 0) = (a = b) \<and>
    \<not> (bt_uuid_cmp u v = Some 0 \<and> bt_uuid_cmp v w = Some 0 \<and> bt_uuid_cmp u w \<noteq> Some 0)"
  using assms by (auto simp: bt_uuid_cmp_eq_0 bt_uuid_to_uuid128_expand bt_uuid32_to_uuid128_zero_extended
      bt_uuid16_to_uuid128_inj)

theorem uuid_cmp_is_equality_of_expansions_witness:
  "(bt_uuid_cmp (BT_UUID16 0x2902) (BT_UUID32 0x2902) = Some 0) =
     (bt_uuid_to_uuid128 (BT_UUID16 0x2902) = bt_uuid_to_uuid128 (BT_UUID32 0x2902))"
  using uuid_cmp_is_equality_of_expansions [of "BT_UUID16 0x2902" "BT_UUID32 0x2902" "BT_UUID16 0" 0 0]
  by (simp del: bt_uuid_to_uuid128.simps)

text \<open>The wire format: a 16-bit UUID is its two bytes and a 128-bit one is reversed, so both can
  be read back; for a 32-bit UUID the code writes the reversed union instead of the reversed
  expansion, which is never the wire format of the UUID.\<close>

theorem uuid_to_le_wire_format:
  "bt_uuid_to_le (BT_UUID16 v) = Inr (put_le16 v) \<and> bt_uuid_to_le (BT_UUID128 d) = Inr (rev d) \<and>
   bt_uuid_to_le (BT_UUID32 w) \<noteq> Inr (rev (bt_uuid32_to_uuid128 w))"
proof (intro conjI)
  have "bt_uuid32_to_uuid128 w ! 15 = 0xFB" "value_bytes (BT_UUID32 w) ! 15 = 0"
    by (simp_all add: bt_uuid32_to_uuid128_def overwrite_def bluetooth_base_uuid_def BASE_UUID32_OFFSET_def
        nth_append codec_simps)
  then have "value_bytes (BT_UUID32 w) \<noteq> bt_uuid32_to_uuid128 w" by auto
  then show "bt_uuid_to_le (BT_UUID32 w) \<noteq> Inr (rev (bt_uuid32_to_uuid128 w))"
    by (simp add: bswap_128_def del: value_bytes.simps)
qed (simp_all add: bswap_128_def)

end
