(* ===== verification/GattDb.thy ===== *)
theory GattDb
  imports Uuid
begin

text \<open>
  \<^verbatim>\<open>bluez/gatt-db.c\<close>: the attribute database. A \<^verbatim>\<open>struct gatt_db\<close> is the list of its services in
  queue order (the queue itself is the subject of \<^verbatim>\<open>Queue.thy\<close>), and a service is its array of
  attributes. Pointers are names: a service is named by a number that is never used again, an
  attribute by its service and its index, so a name that is no longer found is a dangling pointer
  and using it is \<open>None\<close>. A null pointer argument or result is the option \<open>None\<close> inside. Calls out
  of the database (notifications, read and write handlers, their completions, timeouts) are
  appended to \<open>calls\<close> in the order in which they are made; the callbacks do not change the
  database. Allocations succeed.
\<close>

section \<open>State\<close>

definition primary_service_uuid :: bt_uuid where "primary_service_uuid = BT_UUID16 0x2800"
definition secondary_service_uuid :: bt_uuid where "secondary_service_uuid = BT_UUID16 0x2801"
definition included_service_uuid :: bt_uuid where "included_service_uuid = BT_UUID16 0x2802"
definition characteristic_uuid :: bt_uuid where "characteristic_uuid = BT_UUID16 0x2803"

definition ATTRIBUTE_TIMEOUT :: nat where "ATTRIBUTE_TIMEOUT = 5000"
definition BT_ATT_ERROR_INVALID_OFFSET :: int where "BT_ATT_ERROR_INVALID_OFFSET = 0x07"
definition ECANCELED :: int where "ECANCELED = 125"
definition ETIMEDOUT :: int where "ETIMEDOUT = 110"

type_synonym attr_ref = "nat \<times> nat"

record pending =
  pend_id :: u32
  pend_timeout_id :: u32
  pend_func :: nat

record gatt_db_attribute =
  at_handle :: u16
  at_uuid :: bt_uuid
  at_permissions :: u32
  at_value_len :: u16
  at_value :: "bytes option"
  at_read_func :: bool
  at_write_func :: bool
  at_read_id :: u32
  at_pending_reads :: "pending list"
  at_write_id :: u32
  at_pending_writes :: "pending list"

record gatt_db_service =
  sv_id :: nat
  sv_active :: bool
  sv_claimed :: bool
  sv_num_handles :: u16
  sv_attributes :: "gatt_db_attribute option list"

record notify =
  nt_id :: u32
  nt_added :: bool
  nt_removed :: bool

datatype db_call =
    ServiceAdded u32 attr_ref
  | ServiceRemoved u32 attr_ref
  | NotifyDestroy u32
  | ReadFunc attr_ref u32 u16 byte
  | ReadDone nat attr_ref int bytes
  | WriteFunc attr_ref u32 u16 bytes byte
  | WriteDone nat attr_ref int
  | TimeoutAdd nat
  | TimeoutRemove u32

record gatt_db =
  next_handle :: u16
  db_services :: "gatt_db_service list"
  notify_list :: "notify list"
  next_notify_id :: u32
  next_sv :: nat
  db_calls :: "db_call list"

section \<open>Names and pointers\<close>

definition call :: "db_call list \<Rightarrow> gatt_db \<Rightarrow> gatt_db" where
  "call cs db = db\<lparr>db_calls := db_calls db @ cs\<rparr>"

definition get_service :: "gatt_db \<Rightarrow> nat \<Rightarrow> gatt_db_service option" where
  "get_service db s = find (\<lambda>sv. sv_id sv = s) (db_services db)"

definition set_service :: "gatt_db \<Rightarrow> gatt_db_service \<Rightarrow> gatt_db" where
  "set_service db sv =
     db\<lparr>db_services := map (\<lambda>v. if sv_id v = sv_id sv then sv else v) (db_services db)\<rparr>"

text \<open>An entry of the attribute array; outside the array, or a null entry dereferenced, is \<open>None\<close>.\<close>

definition attr_at :: "gatt_db_service \<Rightarrow> nat \<Rightarrow> gatt_db_attribute option" where
  "attr_at sv i = do { a \<leftarrow> array_get (sv_attributes sv) i; a }"

definition set_attr :: "gatt_db_service \<Rightarrow> nat \<Rightarrow> gatt_db_attribute \<Rightarrow> gatt_db_service option" where
  "set_attr sv i a = do {
     as \<leftarrow> array_set (sv_attributes sv) i (Some a);
     Some (sv\<lparr>sv_attributes := as\<rparr>) }"

definition get_attr :: "gatt_db \<Rightarrow> attr_ref \<Rightarrow> gatt_db_attribute option" where
  "get_attr db r = do { sv \<leftarrow> get_service db (fst r); attr_at sv (snd r) }"

definition upd_attr ::
  "gatt_db \<Rightarrow> attr_ref \<Rightarrow> (gatt_db_attribute \<Rightarrow> gatt_db_attribute) \<Rightarrow> gatt_db option" where
  "upd_attr db r f = do {
     sv \<leftarrow> get_service db (fst r);
     a \<leftarrow> attr_at sv (snd r);
     sv \<leftarrow> set_attr sv (snd r) (f a);
     Some (set_service db sv) }"

section \<open>Pending reads and writes\<close>

definition pending_read_result :: "attr_ref \<Rightarrow> pending \<Rightarrow> int \<Rightarrow> bytes \<Rightarrow> db_call list" where
  "pending_read_result r p err data =
     (if pend_timeout_id p > 0 then [TimeoutRemove (pend_timeout_id p)] else []) @
     [ReadDone (pend_func p) r err data]"

definition pending_read_free :: "attr_ref \<Rightarrow> pending \<Rightarrow> db_call list" where
  "pending_read_free r p = pending_read_result r p (- ECANCELED) []"

definition pending_write_result :: "attr_ref \<Rightarrow> pending \<Rightarrow> int \<Rightarrow> db_call list" where
  "pending_write_result r p err =
     (if pend_timeout_id p > 0 then [TimeoutRemove (pend_timeout_id p)] else []) @
     [WriteDone (pend_func p) r err]"

definition pending_write_free :: "attr_ref \<Rightarrow> pending \<Rightarrow> db_call list" where
  "pending_write_free r p = pending_write_result r p (- ECANCELED)"

definition attribute_destroy :: "attr_ref \<Rightarrow> gatt_db_attribute option \<Rightarrow> db_call list" where
  "attribute_destroy r attribute =
     (case attribute of None \<Rightarrow> []
      | Some a \<Rightarrow> concat (map (pending_read_free r) (at_pending_reads a)) @
                 concat (map (pending_write_free r) (at_pending_writes a)))"

definition new_attribute :: "bt_uuid \<Rightarrow> bytes \<Rightarrow> gatt_db_attribute" where
  "new_attribute type val =
     \<lparr>at_handle = 0, at_uuid = type, at_permissions = 0, at_value_len = word_of_nat (length val),
      at_value = (if val = [] then None else Some val), at_read_func = False, at_write_func = False,
      at_read_id = 0, at_pending_reads = [], at_write_id = 0, at_pending_writes = []\<rparr>"

section \<open>Notifications and life cycle\<close>

definition gatt_db_new :: gatt_db where
  "gatt_db_new = \<lparr>next_handle = 0x0001, db_services = [], notify_list = [], next_notify_id = 0,
     next_sv = 0, db_calls = []\<rparr>"

text \<open>A registration may have only one of its two callbacks; the other is called all the same.\<close>

definition handle_notify :: "attr_ref \<Rightarrow> bool \<Rightarrow> notify \<Rightarrow> db_call option" where
  "handle_notify r added n =
     (if added then if nt_added n then Some (ServiceAdded (nt_id n) r) else None
      else if nt_removed n then Some (ServiceRemoved (nt_id n) r) else None)"

definition notify_service_changed :: "gatt_db_service \<Rightarrow> bool \<Rightarrow> gatt_db \<Rightarrow> gatt_db option" where
  "notify_service_changed sv added db = do {
     cs \<leftarrow> those (map (handle_notify (sv_id sv, 0) added) (notify_list db));
     Some (call cs db) }"

definition gatt_db_service_destroy :: "gatt_db_service \<Rightarrow> gatt_db \<Rightarrow> gatt_db option" where
  "gatt_db_service_destroy sv db = do {
     db \<leftarrow> (if sv_active sv then notify_service_changed sv False db else Some db);
     Some (call (concat (map (\<lambda>(i, a). attribute_destroy (sv_id sv, i) a)
       (enumerate 0 (take (unat (sv_num_handles sv)) (sv_attributes sv))))) db) }"

fun destroy_services :: "gatt_db_service list \<Rightarrow> gatt_db \<Rightarrow> gatt_db option" where
  "destroy_services [] db = Some db"
| "destroy_services (sv # svs) db = do { db \<leftarrow> gatt_db_service_destroy sv db; destroy_services svs db }"

text \<open>The notification list is emptied first, so the services are destroyed silently.\<close>

definition gatt_db_destroy :: "gatt_db \<Rightarrow> gatt_db option" where
  "gatt_db_destroy db =
     (let db = call (map (NotifyDestroy \<circ> nt_id) (notify_list db)) (db\<lparr>notify_list := []\<rparr>)
      in do {
        db' \<leftarrow> destroy_services (db_services db) db;
        Some (db'\<lparr>db_services := []\<rparr>) })"

definition gatt_db_isempty :: "gatt_db \<Rightarrow> bool" where
  "gatt_db_isempty db \<longleftrightarrow> db_services db = []"

section \<open>Service declarations\<close>

text \<open>The value of a declaration: two bytes for a 16-bit UUID, otherwise the reversed expansion.\<close>

definition uuid_to_le :: "bt_uuid \<Rightarrow> bytes option" where
  "uuid_to_le uuid =
     (case uuid of BT_UUID16 v \<Rightarrow> Some (put_le16 v)
      | _ \<Rightarrow> do {
          u \<leftarrow> bt_uuid_to_uuid128 uuid;
          case u of BT_UUID128 d \<Rightarrow> Some (bswap_128 d) | _ \<Rightarrow> None })"

text \<open>\<open>None\<close> is a read past the source, the inner \<open>None\<close> the result \<^verbatim>\<open>false\<close>.\<close>

definition le_to_uuid :: "bytes \<Rightarrow> bt_uuid option option" where
  "le_to_uuid src =
     (if length src = 2 then do { v \<leftarrow> get_le16 src; Some (Some (bt_uuid16_create v)) }
      else if length src = 4 then do { v \<leftarrow> get_le32 src; Some (Some (bt_uuid32_create v)) }
      else if length src \<noteq> 16 then Some None
      else Some (Some (bt_uuid128_create (bswap_128 src))))"

text \<open>The service is created with \<open>num_handles\<close> entries but records the number only when it is
  inserted. The result is \<open>Some None\<close> for a null pointer.\<close>

definition gatt_db_service_create :: "nat \<Rightarrow> bt_uuid \<Rightarrow> bool \<Rightarrow> u16 \<Rightarrow> gatt_db_service option option" where
  "gatt_db_service_create s uuid primary num_handles =
     (if num_handles < 1 then Some None
      else do {
        val \<leftarrow> uuid_to_le uuid;
        let type = (if primary then primary_service_uuid else secondary_service_uuid);
        Some (Some \<lparr>sv_id = s, sv_active = False, sv_claimed = False, sv_num_handles = 0,
          sv_attributes = Some (new_attribute type val) # replicate (unat num_handles - 1) None\<rparr>) })"

definition gatt_db_service_get_handles :: "gatt_db_service \<Rightarrow> (u16 \<times> u16) option" where
  "gatt_db_service_get_handles sv = do {
     a \<leftarrow> attr_at sv 0;
     Some (at_handle a, at_handle a + sv_num_handles sv - 1) }"

section \<open>Removing services\<close>

definition gatt_db_remove_service :: "gatt_db \<Rightarrow> attr_ref option \<Rightarrow> (bool \<times> gatt_db) option" where
  "gatt_db_remove_service db attrib =
     (case attrib of None \<Rightarrow> Some (False, db)
      | Some r \<Rightarrow> do {
          sv \<leftarrow> get_service db (fst r);
          let db = db\<lparr>db_services := filter (\<lambda>v. sv_id v \<noteq> sv_id sv) (db_services db)\<rparr>;
          db \<leftarrow> gatt_db_service_destroy sv db;
          Some (True, db) })"

definition gatt_db_clear :: "gatt_db \<Rightarrow> (bool \<times> gatt_db) option" where
  "gatt_db_clear db = do {
     db' \<leftarrow> destroy_services (db_services db) (db\<lparr>db_services := []\<rparr>);
     Some (True, db'\<lparr>next_handle := 0\<rparr>) }"

definition match_range :: "u16 \<Rightarrow> u16 \<Rightarrow> gatt_db_service \<Rightarrow> bool option" where
  "match_range start_handle end_handle sv = do {
     (svc_start, svc_end) \<leftarrow> gatt_db_service_get_handles sv;
     Some (svc_start \<le> end_handle \<and> svc_end \<ge> start_handle) }"

fun clear_matching :: "u16 \<Rightarrow> u16 \<Rightarrow> gatt_db_service list \<Rightarrow> gatt_db \<Rightarrow> gatt_db option" where
  "clear_matching s e [] db = Some db"
| "clear_matching s e (sv # svs) db = do {
     m \<leftarrow> match_range s e sv;
     if m then do {
       db \<leftarrow> gatt_db_service_destroy sv (db\<lparr>db_services := filter (\<lambda>v. sv_id v \<noteq> sv_id sv) (db_services db)\<rparr>);
       clear_matching s e svs db }
     else clear_matching s e svs db }"

definition gatt_db_clear_range :: "gatt_db \<Rightarrow> u16 \<Rightarrow> u16 \<Rightarrow> (bool \<times> gatt_db) option" where
  "gatt_db_clear_range db start_handle end_handle =
     (if start_handle > end_handle then Some (False, db)
      else do { db \<leftarrow> clear_matching start_handle end_handle (db_services db) db; Some (True, db) })"

section \<open>Inserting services\<close>

text \<open>The result is whether the range may be inserted, and the service to insert it after.\<close>

fun find_insert_loc ::
  "gatt_db_service list \<Rightarrow> u16 \<Rightarrow> u16 \<Rightarrow> nat option \<Rightarrow> (bool \<times> nat option) option" where
  "find_insert_loc [] start_h end_h after = Some (True, after)"
| "find_insert_loc (sv # svs) start_h end_h after = do {
     (cur_start, cur_end) \<leftarrow> gatt_db_service_get_handles sv;
     if start_h \<ge> cur_start \<and> start_h \<le> cur_end then Some (False, after)
     else if end_h \<ge> cur_start \<and> end_h \<le> cur_end then Some (False, after)
     else if end_h < cur_start then Some (True, after)
     else find_insert_loc svs start_h end_h (Some (sv_id sv)) }"

text \<open>\<^verbatim>\<open>queue_push_after\<close> on the list of services; it fails when the service is not found.\<close>

fun push_after :: "nat \<Rightarrow> gatt_db_service \<Rightarrow> gatt_db_service list \<Rightarrow> gatt_db_service list option" where
  "push_after s x [] = None"
| "push_after s x (v # vs) = (if sv_id v = s then Some (v # x # vs) else map_option ((#) v) (push_after s x vs))"

definition set_declaration_handle :: "u16 \<Rightarrow> u16 \<Rightarrow> gatt_db_service \<Rightarrow> gatt_db_service option" where
  "set_declaration_handle h n sv = do {
     a \<leftarrow> attr_at sv 0;
     sv \<leftarrow> set_attr sv 0 (a\<lparr>at_handle := h\<rparr>);
     Some (sv\<lparr>sv_num_handles := n\<rparr>) }"

text \<open>\<open>MAX\<close> is taken of integers and the result is stored in 16 bits.\<close>

definition forwarded_handle :: "u16 \<Rightarrow> u16 \<Rightarrow> u16 \<Rightarrow> u16" where
  "forwarded_handle h n nx = word_of_nat (max (unat h + unat n) (unat nx))"

definition gatt_db_insert_service ::
  "gatt_db \<Rightarrow> u16 \<Rightarrow> bt_uuid \<Rightarrow> bool \<Rightarrow> u16 \<Rightarrow> (attr_ref option \<times> gatt_db) option" where
  "gatt_db_insert_service db h uuid primary num_handles =
     (if h < 1 then Some (None, db)
      else if num_handles < 1 \<or> unat h + unat num_handles - 1 > 65535 then Some (None, db)
      else do {
        (fits, after) \<leftarrow> find_insert_loc (db_services db) h (h + num_handles - 1) None;
        if \<not> fits then Some (None, db)
        else do {
          created \<leftarrow> gatt_db_service_create (next_sv db) uuid primary num_handles;
          case created of None \<Rightarrow> Some (None, db) | Some sv \<Rightarrow> do {
            sv' \<leftarrow> set_declaration_handle h num_handles sv;
            let db = db\<lparr>next_sv := Suc (next_sv db)\<rparr>;
            case (case after of Some s \<Rightarrow> push_after s sv' (db_services db)
                  | None \<Rightarrow> Some (sv' # db_services db)) of
              None \<Rightarrow> do { db \<leftarrow> gatt_db_service_destroy sv db; Some (None, db) }
            | Some svs \<Rightarrow>
                Some (Some (sv_id sv', 0),
                      db\<lparr>db_services := svs,
                         next_handle := forwarded_handle h num_handles (next_handle db)\<rparr>) } } })"

definition gatt_db_add_service ::
  "gatt_db \<Rightarrow> bt_uuid \<Rightarrow> bool \<Rightarrow> u16 \<Rightarrow> (attr_ref option \<times> gatt_db) option" where
  "gatt_db_add_service db uuid primary num_handles =
     gatt_db_insert_service db (next_handle db) uuid primary num_handles"

section \<open>Registrations\<close>

definition gatt_db_register :: "gatt_db \<Rightarrow> bool \<Rightarrow> bool \<Rightarrow> u32 \<times> gatt_db" where
  "gatt_db_register db service_added service_removed =
     (if \<not> (service_added \<or> service_removed) then (0, db)
      else let nid = (if next_notify_id db < 1 then 1 else next_notify_id db);
               n = \<lparr>nt_id = nid, nt_added = service_added, nt_removed = service_removed\<rparr>
           in (nid, db\<lparr>next_notify_id := nid + 1, notify_list := notify_list db @ [n]\<rparr>))"

definition match_notify_id :: "u32 \<Rightarrow> notify \<Rightarrow> bool" where
  "match_notify_id i n \<longleftrightarrow> nt_id n = i"

definition gatt_db_unregister :: "gatt_db \<Rightarrow> u32 \<Rightarrow> bool \<times> gatt_db" where
  "gatt_db_unregister db i =
     (if i = 0 then (False, db)
      else case find (match_notify_id i) (notify_list db) of None \<Rightarrow> (False, db)
        | Some n \<Rightarrow> (True, call [NotifyDestroy (nt_id n)] (db\<lparr>notify_list := remove1 n (notify_list db)\<rparr>)))"

section \<open>Adding attributes\<close>

text \<open>The first free index below \<open>num_handles - end_offset\<close>, 0 when there is none.\<close>

function scan_free :: "gatt_db_service \<Rightarrow> int \<Rightarrow> nat \<Rightarrow> nat option" where
  "scan_free sv bound i =
     (if int i < bound then do {
        a \<leftarrow> array_get (sv_attributes sv) i;
        if a \<noteq> None then scan_free sv bound (Suc i) else Some i }
      else Some i)"
  by pat_completeness auto
termination by (relation "measure (\<lambda>(sv, bound, i). nat (bound - int i))") auto

definition get_attribute_index :: "gatt_db_service \<Rightarrow> nat \<Rightarrow> nat option" where
  "get_attribute_index sv end_offset = do {
     let bound = int (unat (sv_num_handles sv)) - int end_offset;
     i \<leftarrow> scan_free sv bound 0;
     Some (if int i = bound then 0 else i) }"

definition get_handle_at_index :: "gatt_db_service \<Rightarrow> nat \<Rightarrow> u16 option" where
  "get_handle_at_index sv i = map_option at_handle (attr_at sv i)"

text \<open>Store an attribute at an index, then give it the handle after the one before it.\<close>

definition attribute_update :: "gatt_db_service \<Rightarrow> nat \<Rightarrow> gatt_db_service option" where
  "attribute_update sv i = do {
     previous_handle \<leftarrow> get_handle_at_index sv (i - 1);
     a \<leftarrow> attr_at sv i;
     set_attr sv i (a\<lparr>at_handle := previous_handle + 1\<rparr>) }"

definition set_attribute_data :: "bool \<Rightarrow> bool \<Rightarrow> u32 \<Rightarrow> gatt_db_attribute \<Rightarrow> gatt_db_attribute" where
  "set_attribute_data read_func write_func perms a =
     a\<lparr>at_permissions := perms, at_read_func := read_func, at_write_func := write_func\<rparr>"

definition put_attribute :: "gatt_db_service \<Rightarrow> nat \<Rightarrow> gatt_db_attribute \<Rightarrow> gatt_db_service option" where
  "put_attribute sv i a = do { sv \<leftarrow> set_attr sv i a; attribute_update sv i }"

definition gatt_db_service_add_characteristic ::
  "gatt_db \<Rightarrow> attr_ref option \<Rightarrow> bt_uuid \<Rightarrow> u32 \<Rightarrow> byte \<Rightarrow> bool \<Rightarrow> bool \<Rightarrow> (attr_ref option \<times> gatt_db) option" where
  "gatt_db_service_add_characteristic db attrib uuid perms properties read_func write_func =
     (case attrib of None \<Rightarrow> Some (None, db)
      | Some r \<Rightarrow> do {
          sv \<leftarrow> get_service db (fst r);
          i \<leftarrow> get_attribute_index sv 1;
          if i = 0 then Some (None, db)
          else do {
            h \<leftarrow> get_handle_at_index sv (i - 1);
            u \<leftarrow> uuid_to_le uuid;
            let decl = new_attribute characteristic_uuid ([properties] @ put_le16 (h + 2) @ u);
            sv \<leftarrow> put_attribute sv i decl;
            sv \<leftarrow> put_attribute sv (i + 1)
                   (set_attribute_data read_func write_func perms (new_attribute uuid []));
            Some (Some (fst r, i + 1), set_service db sv) } })"

definition gatt_db_service_add_descriptor ::
  "gatt_db \<Rightarrow> attr_ref option \<Rightarrow> bt_uuid \<Rightarrow> u32 \<Rightarrow> bool \<Rightarrow> bool \<Rightarrow> (attr_ref option \<times> gatt_db) option" where
  "gatt_db_service_add_descriptor db attrib uuid perms read_func write_func =
     (case attrib of None \<Rightarrow> Some (None, db)
      | Some r \<Rightarrow> do {
          sv \<leftarrow> get_service db (fst r);
          i \<leftarrow> get_attribute_index sv 0;
          if i = 0 then Some (None, db)
          else do {
            sv \<leftarrow> put_attribute sv i (set_attribute_data read_func write_func perms (new_attribute uuid []));
            Some (Some (fst r, i), set_service db sv) } })"

definition included_value :: "gatt_db_service \<Rightarrow> gatt_db_attribute \<Rightarrow> bytes option" where
  "included_value included include =
     (let range = put_le16 (at_handle include) @ put_le16 (at_handle include + sv_num_handles included - 1)
      in if at_value_len include = 2 then do {
           v \<leftarrow> at_value include;
           u \<leftarrow> array_slice v 0 2;
           Some (range @ u) }
         else Some range)"

definition gatt_db_service_add_included ::
  "gatt_db \<Rightarrow> attr_ref option \<Rightarrow> attr_ref option \<Rightarrow> (attr_ref option \<times> gatt_db) option" where
  "gatt_db_service_add_included db attrib include =
     (case (attrib, include) of
        (Some r, Some q) \<Rightarrow> do {
          sv \<leftarrow> get_service db (fst r);
          included \<leftarrow> get_service db (fst q);
          decl \<leftarrow> attr_at included 0;
          val \<leftarrow> included_value included decl;
          i \<leftarrow> get_attribute_index sv 0;
          if i = 0 then Some (None, db)
          else do {
            sv \<leftarrow> put_attribute sv i (set_attribute_data False False 0 (new_attribute included_service_uuid val));
            Some (Some (fst r, i), set_service db sv) } }
      | _ \<Rightarrow> Some (None, db))"

section \<open>Flags of a service\<close>

definition gatt_db_service_set_active :: "gatt_db \<Rightarrow> attr_ref option \<Rightarrow> bool \<Rightarrow> (bool \<times> gatt_db) option" where
  "gatt_db_service_set_active db attrib active =
     (case attrib of None \<Rightarrow> Some (False, db)
      | Some r \<Rightarrow> do {
          sv \<leftarrow> get_service db (fst r);
          if sv_active sv = active then Some (True, db)
          else do {
            let sv = sv\<lparr>sv_active := active\<rparr>;
            db \<leftarrow> notify_service_changed sv active (set_service db sv);
            Some (True, db) } })"

definition gatt_db_service_get_active :: "gatt_db \<Rightarrow> attr_ref option \<Rightarrow> bool option" where
  "gatt_db_service_get_active db attrib =
     (case attrib of None \<Rightarrow> Some False | Some r \<Rightarrow> map_option sv_active (get_service db (fst r)))"

definition gatt_db_service_set_claimed :: "gatt_db \<Rightarrow> attr_ref option \<Rightarrow> bool \<Rightarrow> (bool \<times> gatt_db) option" where
  "gatt_db_service_set_claimed db attrib claimed =
     (case attrib of None \<Rightarrow> Some (False, db)
      | Some r \<Rightarrow> do {
          sv \<leftarrow> get_service db (fst r);
          Some (True, set_service db (sv\<lparr>sv_claimed := claimed\<rparr>)) })"

definition gatt_db_service_get_claimed :: "gatt_db \<Rightarrow> attr_ref option \<Rightarrow> bool option" where
  "gatt_db_service_get_claimed db attrib =
     (case attrib of None \<Rightarrow> Some False | Some r \<Rightarrow> map_option sv_claimed (get_service db (fst r)))"

section \<open>Data of an attribute\<close>

definition gatt_db_attribute_get_type :: "gatt_db \<Rightarrow> attr_ref option \<Rightarrow> bt_uuid option option" where
  "gatt_db_attribute_get_type db attrib =
     (case attrib of None \<Rightarrow> Some None | Some r \<Rightarrow> map_option (Some \<circ> at_uuid) (get_attr db r))"

definition gatt_db_attribute_get_handle :: "gatt_db \<Rightarrow> attr_ref option \<Rightarrow> u16 option" where
  "gatt_db_attribute_get_handle db attrib =
     (case attrib of None \<Rightarrow> Some 0 | Some r \<Rightarrow> map_option at_handle (get_attr db r))"

definition gatt_db_attribute_get_permissions :: "gatt_db \<Rightarrow> attr_ref option \<Rightarrow> u32 option" where
  "gatt_db_attribute_get_permissions db attrib =
     (case attrib of None \<Rightarrow> Some 0 | Some r \<Rightarrow> map_option at_permissions (get_attr db r))"

text \<open>The inner \<open>None\<close> is the result \<^verbatim>\<open>false\<close>, with the UUID untouched.\<close>

definition service_uuid :: "gatt_db_service \<Rightarrow> bt_uuid option option" where
  "service_uuid sv = do {
     decl \<leftarrow> attr_at sv 0;
     if at_value_len decl = 2 then do {
       v \<leftarrow> at_value decl;
       x \<leftarrow> get_le16 v;
       Some (Some (bt_uuid16_create x)) }
     else if at_value_len decl = 16 then do {
       v \<leftarrow> at_value decl;
       d \<leftarrow> array_slice v 0 16;
       Some (Some (bt_uuid128_create (bswap_128 d))) }
     else Some None }"

definition gatt_db_attribute_get_service_uuid :: "gatt_db \<Rightarrow> attr_ref option \<Rightarrow> bt_uuid option option" where
  "gatt_db_attribute_get_service_uuid db attrib =
     (case attrib of None \<Rightarrow> Some None
      | Some r \<Rightarrow> do { sv \<leftarrow> get_service db (fst r); service_uuid sv })"

definition gatt_db_attribute_get_service_handles ::
  "gatt_db \<Rightarrow> attr_ref option \<Rightarrow> (u16 \<times> u16) option option" where
  "gatt_db_attribute_get_service_handles db attrib =
     (case attrib of None \<Rightarrow> Some None
      | Some r \<Rightarrow> do { sv \<leftarrow> get_service db (fst r); map_option Some (gatt_db_service_get_handles sv) })"

definition uuid_differs :: "bt_uuid \<Rightarrow> bt_uuid \<Rightarrow> bool option" where
  "uuid_differs u v = map_option (\<lambda>c. c \<noteq> 0) (bt_uuid_cmp u v)"

text \<open>Start and end handle, whether the service is primary, and the UUID if it can be read.\<close>

definition gatt_db_attribute_get_service_data ::
  "gatt_db \<Rightarrow> attr_ref option \<Rightarrow> (u16 \<times> u16 \<times> bool \<times> bt_uuid option) option option" where
  "gatt_db_attribute_get_service_data db attrib =
     (case attrib of None \<Rightarrow> Some None
      | Some r \<Rightarrow> do {
          sv \<leftarrow> get_service db (fst r);
          decl \<leftarrow> attr_at sv 0;
          (s, e) \<leftarrow> gatt_db_service_get_handles sv;
          primary \<leftarrow> uuid_differs (at_uuid decl) secondary_service_uuid;
          src \<leftarrow> (case at_value decl of Some v \<Rightarrow> array_slice v 0 (unat (at_value_len decl))
                   | None \<Rightarrow> if at_value_len decl = 0 then Some [] else None);
          u \<leftarrow> le_to_uuid src;
          Some (Some (s, e, primary, u)) })"

text \<open>Declaration handle, value handle, properties and UUID of a characteristic.\<close>

definition char_data :: "gatt_db_attribute \<Rightarrow> (u16 \<times> u16 \<times> byte \<times> bt_uuid option) option option" where
  "char_data a = do {
     differs \<leftarrow> uuid_differs characteristic_uuid (at_uuid a);
     if differs then Some None
     else case at_value a of None \<Rightarrow> Some None
       | Some v \<Rightarrow>
           if at_value_len a \<noteq> 5 \<and> at_value_len a \<noteq> 19 then Some None
           else do {
             properties \<leftarrow> array_get v 0;
             value_handle \<leftarrow> get_le16 (drop 1 v);
             src \<leftarrow> array_slice v 3 (unat (at_value_len a) - 3);
             u \<leftarrow> le_to_uuid src;
             Some (Some (at_handle a, value_handle, properties, u)) } }"

definition gatt_db_attribute_get_char_data ::
  "gatt_db \<Rightarrow> attr_ref option \<Rightarrow> (u16 \<times> u16 \<times> byte \<times> bt_uuid option) option option" where
  "gatt_db_attribute_get_char_data db attrib =
     (case attrib of None \<Rightarrow> Some None | Some r \<Rightarrow> do { a \<leftarrow> get_attr db r; char_data a })"

definition gatt_db_attribute_get_incl_data ::
  "gatt_db \<Rightarrow> attr_ref option \<Rightarrow> (u16 \<times> u16 \<times> u16) option option" where
  "gatt_db_attribute_get_incl_data db attrib =
     (case attrib of None \<Rightarrow> Some None
      | Some r \<Rightarrow> do {
          a \<leftarrow> get_attr db r;
          differs \<leftarrow> uuid_differs included_service_uuid (at_uuid a);
          if differs then Some None
          else case at_value a of None \<Rightarrow> Some None
            | Some v \<Rightarrow>
                if at_value_len a < 4 \<or> at_value_len a > 6 then Some None
                else do {
                  s \<leftarrow> get_le16 v;
                  e \<leftarrow> get_le16 (drop 2 v);
                  Some (Some (at_handle a, s, e)) } })"

section \<open>Lookups and walks\<close>

text \<open>The walks call a function for attributes; here it works on an accumulator of the caller.\<close>

fun walk :: "('b \<Rightarrow> 'a \<Rightarrow> 'a option) \<Rightarrow> 'b list \<Rightarrow> 'a \<Rightarrow> 'a option" where
  "walk f [] acc = Some acc"
| "walk f (x # xs) acc = do { acc \<leftarrow> f x acc; walk f xs acc }"

definition foreach_service_in_range ::
  "u16 \<Rightarrow> u16 \<Rightarrow> bt_uuid option \<Rightarrow> (attr_ref \<Rightarrow> 'a \<Rightarrow> 'a option) \<Rightarrow> gatt_db_service \<Rightarrow> 'a \<Rightarrow> 'a option" where
  "foreach_service_in_range start_h end_h uuid func sv acc = do {
     svc_start \<leftarrow> get_handle_at_index sv 0;
     if svc_start > end_h \<or> svc_start < start_h then Some acc
     else case uuid of None \<Rightarrow> func (sv_id sv, 0) acc
       | Some u \<Rightarrow> do {
           found \<leftarrow> service_uuid sv;
           v \<leftarrow> found;
           differs \<leftarrow> uuid_differs v u;
           if differs then Some acc else func (sv_id sv, 0) acc } }"

definition gatt_db_foreach_service_in_range ::
  "gatt_db \<Rightarrow> bt_uuid option \<Rightarrow> (attr_ref \<Rightarrow> 'a \<Rightarrow> 'a option) \<Rightarrow> u16 \<Rightarrow> u16 \<Rightarrow> 'a \<Rightarrow> 'a option" where
  "gatt_db_foreach_service_in_range db uuid func start_handle end_handle acc =
     (if start_handle > end_handle then Some acc
      else walk (foreach_service_in_range start_handle end_handle uuid func) (db_services db) acc)"

definition gatt_db_foreach_service ::
  "gatt_db \<Rightarrow> bt_uuid option \<Rightarrow> (attr_ref \<Rightarrow> 'a \<Rightarrow> 'a option) \<Rightarrow> 'a \<Rightarrow> 'a option" where
  "gatt_db_foreach_service db uuid func acc =
     gatt_db_foreach_service_in_range db uuid func 0x0001 0xffff acc"

text \<open>The indices the \<^verbatim>\<open>for\<close> loops over an attribute array run through.\<close>

definition indices_from :: "nat \<Rightarrow> gatt_db_service \<Rightarrow> nat list" where
  "indices_from i sv = [i ..< unat (sv_num_handles sv)]"

definition gatt_db_service_foreach ::
  "gatt_db \<Rightarrow> attr_ref option \<Rightarrow> bt_uuid option \<Rightarrow> (attr_ref \<Rightarrow> 'a \<Rightarrow> 'a option) \<Rightarrow> 'a \<Rightarrow> 'a option" where
  "gatt_db_service_foreach db attrib uuid func acc =
     (case attrib of None \<Rightarrow> Some acc
      | Some r \<Rightarrow> do {
          sv \<leftarrow> get_service db (fst r);
          walk (\<lambda>i acc. do {
              entry \<leftarrow> array_get (sv_attributes sv) i;
              case entry of None \<Rightarrow> Some acc
              | Some attr \<Rightarrow>
                  (case uuid of None \<Rightarrow> func (fst r, i) acc
                   | Some u \<Rightarrow> do {
                       differs \<leftarrow> uuid_differs u (at_uuid attr);
                       if differs then Some acc else func (fst r, i) acc }) })
            (indices_from 0 sv) acc })"

definition gatt_db_service_foreach_char ::
  "gatt_db \<Rightarrow> attr_ref option \<Rightarrow> (attr_ref \<Rightarrow> 'a \<Rightarrow> 'a option) \<Rightarrow> 'a \<Rightarrow> 'a option" where
  "gatt_db_service_foreach_char db attrib func acc =
     gatt_db_service_foreach db attrib (Some characteristic_uuid) func acc"

definition gatt_db_service_foreach_incl ::
  "gatt_db \<Rightarrow> attr_ref option \<Rightarrow> (attr_ref \<Rightarrow> 'a \<Rightarrow> 'a option) \<Rightarrow> 'a \<Rightarrow> 'a option" where
  "gatt_db_service_foreach_incl db attrib func acc =
     gatt_db_service_foreach db attrib (Some included_service_uuid) func acc"

text \<open>Descriptors run from behind the value to the next declaration.\<close>

fun foreach_desc_loop ::
  "nat \<Rightarrow> gatt_db_service \<Rightarrow> (attr_ref \<Rightarrow> 'a \<Rightarrow> 'a option) \<Rightarrow> nat list \<Rightarrow> 'a \<Rightarrow> 'a option" where
  "foreach_desc_loop s sv func [] acc = Some acc"
| "foreach_desc_loop s sv func (i # is) acc = do {
     entry \<leftarrow> array_get (sv_attributes sv) i;
     case entry of None \<Rightarrow> foreach_desc_loop s sv func is acc
     | Some attr \<Rightarrow> do {
         not_char \<leftarrow> uuid_differs characteristic_uuid (at_uuid attr);
         not_incl \<leftarrow> uuid_differs included_service_uuid (at_uuid attr);
         if \<not> not_char \<or> \<not> not_incl then Some acc
         else do { acc \<leftarrow> func (s, i) acc; foreach_desc_loop s sv func is acc } } }"

definition gatt_db_service_foreach_desc ::
  "gatt_db \<Rightarrow> attr_ref option \<Rightarrow> (attr_ref \<Rightarrow> 'a \<Rightarrow> 'a option) \<Rightarrow> 'a \<Rightarrow> 'a option" where
  "gatt_db_service_foreach_desc db attrib func acc =
     (case attrib of None \<Rightarrow> Some acc
      | Some r \<Rightarrow> do {
          a \<leftarrow> get_attr db r;
          differs \<leftarrow> uuid_differs characteristic_uuid (at_uuid a);
          if differs then Some acc
          else do {
            sv \<leftarrow> get_service db (fst r);
            h0 \<leftarrow> get_handle_at_index sv 0;
            foreach_desc_loop (fst r) sv func (indices_from (unat (at_handle a - h0 + 2)) sv) acc } })"

definition find_service_for_handle :: "u16 \<Rightarrow> gatt_db_service \<Rightarrow> bool option" where
  "find_service_for_handle h sv = do {
     (s, e) \<leftarrow> gatt_db_service_get_handles sv;
     Some (s \<le> h \<and> h \<le> e) }"

fun find_sv :: "(gatt_db_service \<Rightarrow> bool option) \<Rightarrow> gatt_db_service list \<Rightarrow> gatt_db_service option option" where
  "find_sv P [] = Some None"
| "find_sv P (sv # svs) = do { b \<leftarrow> P sv; if b then Some (Some sv) else find_sv P svs }"

text \<open>The outer \<open>None\<close> is an access out of bounds, the inner one the null pointer.\<close>

definition gatt_db_get_attribute :: "gatt_db \<Rightarrow> u16 \<Rightarrow> attr_ref option option" where
  "gatt_db_get_attribute db h =
     (if h = 0 then Some None
      else do {
        found \<leftarrow> find_sv (find_service_for_handle h) (db_services db);
        case found of None \<Rightarrow> Some None
        | Some sv \<Rightarrow> do {
            service_handle \<leftarrow> get_handle_at_index sv 0;
            entry \<leftarrow> array_get (sv_attributes sv) (unat h - unat service_handle);
            Some (map_option (\<lambda>_. (sv_id sv, unat h - unat service_handle)) entry) } })"

definition find_service_with_uuid :: "bt_uuid \<Rightarrow> gatt_db_service \<Rightarrow> bool option" where
  "find_service_with_uuid uuid sv = do {
     found \<leftarrow> service_uuid sv;
     v \<leftarrow> found;
     differs \<leftarrow> uuid_differs uuid v;
     Some (\<not> differs) }"

definition gatt_db_get_service_with_uuid :: "gatt_db \<Rightarrow> bt_uuid option \<Rightarrow> attr_ref option option" where
  "gatt_db_get_service_with_uuid db uuid =
     (case uuid of None \<Rightarrow> Some None
      | Some u \<Rightarrow> do {
          found \<leftarrow> find_sv (find_service_with_uuid u) (db_services db);
          Some (map_option (\<lambda>sv. (sv_id sv, 0)) found) })"

section \<open>Searches for the requests of a client\<close>

fun read_group_loop ::
  "u16 \<Rightarrow> u16 \<Rightarrow> bt_uuid \<Rightarrow> gatt_db_service list \<Rightarrow> u16 \<Rightarrow> attr_ref list \<Rightarrow> attr_ref list option" where
  "read_group_loop s e type [] uuid_size queue = Some queue"
| "read_group_loop s e type (sv # svs) uuid_size queue =
     (if \<not> sv_active sv then read_group_loop s e type svs uuid_size queue
      else do {
        decl \<leftarrow> attr_at sv 0;
        differs \<leftarrow> uuid_differs type (at_uuid decl);
        if differs then read_group_loop s e type svs uuid_size queue
        else let grp_start = at_handle decl; grp_end = grp_start + sv_num_handles sv - 1 in
          if grp_end < s \<or> grp_start > e then read_group_loop s e type svs uuid_size queue
          else if grp_start < s \<or> grp_start > e then read_group_loop s e type svs uuid_size queue
          else if uuid_size = 0
          then read_group_loop s e type svs (at_value_len decl) (queue @ [(sv_id sv, 0)])
          else if uuid_size \<noteq> at_value_len decl then Some queue
          else read_group_loop s e type svs uuid_size (queue @ [(sv_id sv, 0)]) })"

definition gatt_db_read_by_group_type ::
  "gatt_db \<Rightarrow> u16 \<Rightarrow> u16 \<Rightarrow> bt_uuid \<Rightarrow> attr_ref list \<Rightarrow> attr_ref list option" where
  "gatt_db_read_by_group_type db start_handle end_handle type queue =
     read_group_loop start_handle end_handle type (db_services db) 0 queue"

text \<open>The comparison reads as many bytes of the attribute as the searched value has.\<close>

definition value_differs :: "gatt_db_attribute \<Rightarrow> bytes option \<Rightarrow> bool option" where
  "value_differs a val =
     (case val of None \<Rightarrow> Some False
      | Some v \<Rightarrow> do {
          stored \<leftarrow> at_value a;
          d \<leftarrow> array_slice stored 0 (length v);
          Some (memcmp d v \<noteq> 0) })"

definition find_by_type ::
  "u16 \<Rightarrow> u16 \<Rightarrow> bt_uuid \<Rightarrow> bytes option \<Rightarrow> (attr_ref \<Rightarrow> 'a \<Rightarrow> 'a option) \<Rightarrow> gatt_db_service
     \<Rightarrow> u32 \<times> 'a \<Rightarrow> (u32 \<times> 'a) option" where
  "find_by_type s e uuid val func sv st =
     (if \<not> sv_active sv then Some st
      else walk (\<lambda>i (num_of_res, acc). do {
          entry \<leftarrow> array_get (sv_attributes sv) i;
          case entry of None \<Rightarrow> Some (num_of_res, acc)
          | Some a \<Rightarrow>
              if at_handle a < s \<or> at_handle a > e then Some (num_of_res, acc)
              else do {
                differs \<leftarrow> uuid_differs uuid (at_uuid a);
                if differs then Some (num_of_res, acc)
                else do {
                  vd \<leftarrow> value_differs a val;
                  if vd then Some (num_of_res, acc)
                  else do { acc \<leftarrow> func (sv_id sv, i) acc; Some (num_of_res + 1, acc) } } } })
        (indices_from 0 sv) st)"

definition gatt_db_find_by_type ::
  "gatt_db \<Rightarrow> u16 \<Rightarrow> u16 \<Rightarrow> bt_uuid \<Rightarrow> (attr_ref \<Rightarrow> 'a \<Rightarrow> 'a option) \<Rightarrow> 'a \<Rightarrow> (u32 \<times> 'a) option" where
  "gatt_db_find_by_type db start_handle end_handle type func acc =
     walk (find_by_type start_handle end_handle type None func) (db_services db) (0, acc)"

text \<open>Here the counter is not initialised: it starts with what \<open>stale\<close> the stack holds.\<close>

definition gatt_db_find_by_type_value ::
  "u32 \<Rightarrow> gatt_db \<Rightarrow> u16 \<Rightarrow> u16 \<Rightarrow> bt_uuid \<Rightarrow> bytes option \<Rightarrow> (attr_ref \<Rightarrow> 'a \<Rightarrow> 'a option) \<Rightarrow> 'a
     \<Rightarrow> (u32 \<times> 'a) option" where
  "gatt_db_find_by_type_value stale db start_handle end_handle type val func acc =
     walk (find_by_type start_handle end_handle type val func) (db_services db) (stale, acc)"

text \<open>The two searches that collect attributes stop inside a service at the end of the range.\<close>

fun collect_loop ::
  "nat \<Rightarrow> gatt_db_service \<Rightarrow> u16 \<Rightarrow> u16 \<Rightarrow> bt_uuid option \<Rightarrow> nat list \<Rightarrow> attr_ref list \<Rightarrow> attr_ref list option" where
  "collect_loop sid sv s e uuid [] queue = Some queue"
| "collect_loop sid sv s e uuid (i # is) queue = do {
     entry \<leftarrow> array_get (sv_attributes sv) i;
     case entry of None \<Rightarrow> collect_loop sid sv s e uuid is queue
     | Some a \<Rightarrow>
         if at_handle a < s then collect_loop sid sv s e uuid is queue
         else if at_handle a > e then Some queue
         else do {
           differs \<leftarrow> (case uuid of None \<Rightarrow> Some False | Some u \<Rightarrow> uuid_differs u (at_uuid a));
           if differs then collect_loop sid sv s e uuid is queue
           else collect_loop sid sv s e uuid is (queue @ [(sid, i)]) } }"

definition read_by_type ::
  "u16 \<Rightarrow> u16 \<Rightarrow> bt_uuid \<Rightarrow> gatt_db_service \<Rightarrow> attr_ref list \<Rightarrow> attr_ref list option" where
  "read_by_type s e uuid sv queue =
     (if \<not> sv_active sv then Some queue
      else collect_loop (sv_id sv) sv s e (Some uuid) (indices_from 0 sv) queue)"

definition gatt_db_read_by_type ::
  "gatt_db \<Rightarrow> u16 \<Rightarrow> u16 \<Rightarrow> bt_uuid \<Rightarrow> attr_ref list \<Rightarrow> attr_ref list option" where
  "gatt_db_read_by_type db start_handle end_handle type queue =
     walk (read_by_type start_handle end_handle type) (db_services db) queue"

definition find_information :: "u16 \<Rightarrow> u16 \<Rightarrow> gatt_db_service \<Rightarrow> attr_ref list \<Rightarrow> attr_ref list option" where
  "find_information s e sv queue =
     (if \<not> sv_active sv then Some queue
      else do {
        decl \<leftarrow> attr_at sv 0;
        if unat (at_handle decl) + unat (sv_num_handles sv) - 1 < unat s then Some queue
        else collect_loop (sv_id sv) sv s e None (indices_from 0 sv) queue })"

definition gatt_db_find_information ::
  "gatt_db \<Rightarrow> u16 \<Rightarrow> u16 \<Rightarrow> attr_ref list \<Rightarrow> attr_ref list option" where
  "gatt_db_find_information db start_handle end_handle queue =
     walk (find_information start_handle end_handle) (db_services db) queue"

section \<open>Reading and writing values\<close>

definition find_pending :: "u32 \<Rightarrow> pending \<Rightarrow> bool" where
  "find_pending i p \<longleftrightarrow> pend_id p = i"

text \<open>\<open>tid\<close> is what \<^verbatim>\<open>timeout_add\<close> returns, \<open>func\<close> names the completion.\<close>

definition gatt_db_attribute_read ::
  "gatt_db \<Rightarrow> attr_ref option \<Rightarrow> u16 \<Rightarrow> byte \<Rightarrow> u32 \<Rightarrow> nat \<Rightarrow> (bool \<times> gatt_db) option" where
  "gatt_db_attribute_read db attrib offset opcode tid func =
     (case attrib of None \<Rightarrow> Some (False, db)
      | Some r \<Rightarrow> do {
          a \<leftarrow> get_attr db r;
          if at_read_func a then do {
            let p = \<lparr>pend_id = at_read_id a + 1, pend_timeout_id = tid, pend_func = func\<rparr>;
            db \<leftarrow> upd_attr db r (\<lambda>a. a\<lparr>at_read_id := at_read_id a + 1,
                    at_pending_reads := at_pending_reads a @ [p]\<rparr>);
            Some (True, call [TimeoutAdd ATTRIBUTE_TIMEOUT, ReadFunc r (pend_id p) offset opcode] db) }
          else if offset > at_value_len a
          then Some (True, call [ReadDone func r BT_ATT_ERROR_INVALID_OFFSET []] db)
          else do {
            d \<leftarrow> (if offset = at_value_len a then Some []
                  else do { v \<leftarrow> at_value a; array_slice v (unat offset) (unat (at_value_len a - offset)) });
            Some (True, call [ReadDone func r 0 d] db) } })"

definition gatt_db_attribute_read_result ::
  "gatt_db \<Rightarrow> attr_ref option \<Rightarrow> u32 \<Rightarrow> int \<Rightarrow> bytes \<Rightarrow> (bool \<times> gatt_db) option" where
  "gatt_db_attribute_read_result db attrib i err val =
     (case attrib of None \<Rightarrow> Some (False, db)
      | Some r \<Rightarrow>
          if i = 0 then Some (False, db)
          else do {
            a \<leftarrow> get_attr db r;
            case find (find_pending i) (at_pending_reads a) of None \<Rightarrow> Some (False, db)
            | Some p \<Rightarrow> do {
                db \<leftarrow> upd_attr db r (\<lambda>a. a\<lparr>at_pending_reads := remove1 p (at_pending_reads a)\<rparr>);
                Some (True, call (pending_read_result r p err val) db) } })"

definition read_timeout :: "gatt_db \<Rightarrow> attr_ref \<Rightarrow> pending \<Rightarrow> (bool \<times> gatt_db) option" where
  "read_timeout db r p = do {
     db \<leftarrow> upd_attr db r (\<lambda>a. a\<lparr>at_pending_reads := remove1 p (at_pending_reads a)\<rparr>);
     Some (False, call (pending_read_result r (p\<lparr>pend_timeout_id := 0\<rparr>) (- ETIMEDOUT) []) db) }"

text \<open>\<open>junk\<close> is what the new part of a reallocated value holds; the length is stored in 16 bits.\<close>

definition stored_value :: "(nat \<Rightarrow> byte) \<Rightarrow> gatt_db_attribute \<Rightarrow> u16 \<Rightarrow> bytes \<Rightarrow> gatt_db_attribute option" where
  "stored_value junk a offset val =
     (let n = length val + unat offset;
          old = (case at_value a of None \<Rightarrow> [] | Some v \<Rightarrow> v)
      in do {
        a \<leftarrow> (if at_value a = None \<or> offset \<ge> at_value_len a \<or>
                 length val > unat (at_value_len a - offset)
              then let buf = take n old @ map junk [length old ..< n];
                       buf = (if at_value_len a = 0 then replicate (unat offset) 0 @ drop (unat offset) buf else buf)
                   in Some (a\<lparr>at_value := Some buf, at_value_len := word_of_nat n\<rparr>)
              else Some a);
        v \<leftarrow> at_value a;
        (if unat offset + length val \<le> length v
         then Some (a\<lparr>at_value := Some (overwrite (unat offset) val v)\<rparr>) else None) })"

definition gatt_db_attribute_write ::
  "(nat \<Rightarrow> byte) \<Rightarrow> gatt_db \<Rightarrow> attr_ref option \<Rightarrow> u16 \<Rightarrow> bytes \<Rightarrow> byte \<Rightarrow> u32 \<Rightarrow> nat \<Rightarrow> (bool \<times> gatt_db) option" where
  "gatt_db_attribute_write junk db attrib offset val opcode tid func =
     (case attrib of None \<Rightarrow> Some (False, db)
      | Some r \<Rightarrow> do {
          a \<leftarrow> get_attr db r;
          if at_write_func a then do {
            let p = \<lparr>pend_id = at_write_id a + 1, pend_timeout_id = tid, pend_func = func\<rparr>;
            db \<leftarrow> upd_attr db r (\<lambda>a. a\<lparr>at_write_id := at_write_id a + 1,
                    at_pending_writes := at_pending_writes a @ [p]\<rparr>);
            Some (True, call [TimeoutAdd ATTRIBUTE_TIMEOUT, WriteFunc r (pend_id p) offset val opcode] db) }
          else if val = [] then Some (True, call [WriteDone func r 0] db)
          else do {
            a' \<leftarrow> stored_value junk a offset val;
            db \<leftarrow> upd_attr db r (\<lambda>_. a');
            Some (True, call [WriteDone func r 0] db) } })"

definition gatt_db_attribute_write_result ::
  "gatt_db \<Rightarrow> attr_ref option \<Rightarrow> u32 \<Rightarrow> int \<Rightarrow> (bool \<times> gatt_db) option" where
  "gatt_db_attribute_write_result db attrib i err =
     (case attrib of None \<Rightarrow> Some (False, db)
      | Some r \<Rightarrow>
          if i = 0 then Some (False, db)
          else do {
            a \<leftarrow> get_attr db r;
            case find (find_pending i) (at_pending_writes a) of None \<Rightarrow> Some (False, db)
            | Some p \<Rightarrow> do {
                db \<leftarrow> upd_attr db r (\<lambda>a. a\<lparr>at_pending_writes := remove1 p (at_pending_writes a)\<rparr>);
                Some (True, call (pending_write_result r p err) db) } })"

definition write_timeout :: "gatt_db \<Rightarrow> attr_ref \<Rightarrow> pending \<Rightarrow> (bool \<times> gatt_db) option" where
  "write_timeout db r p = do {
     db \<leftarrow> upd_attr db r (\<lambda>a. a\<lparr>at_pending_writes := remove1 p (at_pending_writes a)\<rparr>);
     Some (False, call (pending_write_result r (p\<lparr>pend_timeout_id := 0\<rparr>) (- ETIMEDOUT)) db) }"

definition gatt_db_attribute_reset :: "gatt_db \<Rightarrow> attr_ref option \<Rightarrow> (bool \<times> gatt_db) option" where
  "gatt_db_attribute_reset db attrib =
     (case attrib of None \<Rightarrow> Some (False, db)
      | Some r \<Rightarrow> do {
          a \<leftarrow> get_attr db r;
          if at_value a = None \<or> at_value_len a = 0 then Some (True, db)
          else do {
            db \<leftarrow> upd_attr db r (\<lambda>a. a\<lparr>at_value := None, at_value_len := 0\<rparr>);
            Some (True, db) } })"

section \<open>Well-formed services\<close>

definition sv_start :: "gatt_db_service \<Rightarrow> nat" where
  "sv_start sv = (case attr_at sv 0 of Some a \<Rightarrow> unat (at_handle a) | None \<Rightarrow> 0)"

definition sv_len :: "gatt_db_service \<Rightarrow> nat" where
  "sv_len sv = unat (sv_num_handles sv)"

definition filled :: "gatt_db_service \<Rightarrow> nat" where
  "filled sv = length (takeWhile (\<lambda>a. a \<noteq> None) (sv_attributes sv))"

text \<open>A service occupies \<open>sv_len\<close> consecutive handles from \<open>sv_start\<close>; the attributes that were added
  are a prefix of the array, and each has the handle of its place.\<close>

definition service_ok :: "gatt_db_service \<Rightarrow> bool" where
  "service_ok sv \<longleftrightarrow>
     length (sv_attributes sv) = sv_len sv \<and> 0 < filled sv \<and>
     (\<forall>i < sv_len sv. sv_attributes sv ! i \<noteq> None \<longrightarrow> i < filled sv) \<and>
     (\<forall>i < filled sv. \<exists>a. sv_attributes sv ! i = Some a \<and> unat (at_handle a) = sv_start sv + i) \<and>
     0 < sv_start sv \<and> sv_start sv + sv_len sv \<le> 65536"

definition before :: "gatt_db_service \<Rightarrow> gatt_db_service \<Rightarrow> bool" where
  "before a b \<longleftrightarrow> sv_start a + sv_len a \<le> sv_start b"

definition db_ok :: "gatt_db \<Rightarrow> bool" where
  "db_ok db \<longleftrightarrow>
     (\<forall>sv \<in> set (db_services db). service_ok sv \<and> sv_id sv < next_sv db) \<and>
     sorted_wrt before (db_services db) \<and> distinct (map sv_id (db_services db))"

lemma filled_le: "filled sv \<le> length (sv_attributes sv)"
  by (simp add: filled_def length_takeWhile_le)

lemma service_ok_facts:
  assumes "service_ok sv"
  shows "0 < sv_len sv" "filled sv \<le> sv_len sv" "length (sv_attributes sv) = sv_len sv"
    "0 < sv_start sv" "sv_start sv + sv_len sv \<le> 65536" "0 < filled sv"
  using assms filled_le [of sv] by (auto simp: service_ok_def)

lemma service_attr:
  assumes "service_ok sv" "i < filled sv"
  obtains a where "attr_at sv i = Some a" "sv_attributes sv ! i = Some a" "unat (at_handle a) = sv_start sv + i"
proof -
  from assms obtain a where a: "sv_attributes sv ! i = Some a" "unat (at_handle a) = sv_start sv + i"
    by (auto simp: service_ok_def)
  with assms filled_le [of sv] have "attr_at sv i = Some a" by (simp add: attr_at_def bind_Some_iff)
  with a that show ?thesis by blast
qed

lemma service_empty:
  "service_ok sv \<Longrightarrow> filled sv \<le> i \<Longrightarrow> i < sv_len sv \<Longrightarrow> sv_attributes sv ! i = None"
  unfolding service_ok_def by (meson not_less)

lemma u16_of_nat: "n < 65536 \<Longrightarrow> unat (word_of_nat n :: u16) = n"
  by (simp add: unat_of_nat take_bit_nat_eq_self)

lemma u16_eq_of_nat: "unat (w :: u16) = n \<Longrightarrow> w = word_of_nat n"
  by auto

lemma get_handles_ok:
  assumes "service_ok sv"
  shows "gatt_db_service_get_handles sv =
    Some (word_of_nat (sv_start sv), word_of_nat (sv_start sv + sv_len sv - 1))"
proof -
  note f = service_ok_facts [OF assms]
  obtain a where a: "attr_at sv 0 = Some a" "unat (at_handle a) = sv_start sv + 0"
    using service_attr [OF assms f(6)] by metis
  have h: "at_handle a = word_of_nat (sv_start sv)" using a(2) by (intro u16_eq_of_nat) simp
  have "sv_num_handles sv = word_of_nat (sv_len sv)" by (simp add: sv_len_def)
  then have "at_handle a + sv_num_handles sv - 1 = word_of_nat (sv_start sv + sv_len sv - 1)"
    using f(1,4) by (simp add: h of_nat_diff)
  then show ?thesis by (simp only: gatt_db_service_get_handles_def a(1) h bind.simps)
qed

lemma find_unique:
  "distinct (map f xs) \<Longrightarrow> x \<in> set xs \<Longrightarrow> find (\<lambda>y. f y = f x) xs = Some x"
  by (induction xs) (auto simp: image_iff)

lemma get_service_in: "db_ok db \<Longrightarrow> sv \<in> set (db_services db) \<Longrightarrow> get_service db (sv_id sv) = Some sv"
  unfolding get_service_def by (rule find_unique) (simp_all add: db_ok_def)

lemma get_service_Some: "get_service db s = Some sv \<Longrightarrow> sv \<in> set (db_services db) \<and> sv_id sv = s"
  by (auto simp: get_service_def find_Some_iff)

section \<open>Inserting keeps the database sorted\<close>

definition apart :: "nat \<Rightarrow> nat \<Rightarrow> gatt_db_service \<Rightarrow> bool" where
  "apart h n sv \<longleftrightarrow> h + n \<le> sv_start sv \<or> sv_start sv + sv_len sv \<le> h"

lemma find_insert_loc_apart:
  assumes "\<forall>sv \<in> set svs. service_ok sv \<and> apart h n sv" "sorted_wrt before svs"
    and h: "0 < h" "0 < n" "h + n \<le> 65536"
  shows "find_insert_loc svs (word_of_nat h) (word_of_nat (h + n - 1)) after =
    Some (True, case takeWhile (\<lambda>sv. sv_start sv < h) svs of [] \<Rightarrow> after
      | pre \<Rightarrow> Some (sv_id (last pre)))"
  using assms(1,2)
proof (induction svs arbitrary: after)
  case (Cons sv svs)
  then have ok: "service_ok sv" and ap: "apart h n sv" by auto
  note f = service_ok_facts [OF ok]
  have le: "(word_of_nat a :: u16) \<le> word_of_nat b \<longleftrightarrow> a \<le> b" if "a < 65536" "b < 65536" for a b
    using that by (simp add: word_le_nat_alt u16_of_nat)
  have less: "(word_of_nat a :: u16) < word_of_nat b \<longleftrightarrow> a < b" if "a < 65536" "b < 65536" for a b
    using that by (simp add: word_less_nat_alt u16_of_nat)
  have bounds: "sv_start sv < 65536" "sv_start sv + sv_len sv - 1 < 65536" "h < 65536" "h + n - 1 < 65536"
    using f(1,5) h by auto
  show ?case
  proof (cases "sv_start sv < h")
    case True
    with ap h(2) have "sv_start sv + sv_len sv \<le> h" by (auto simp: apart_def)
    then have "find_insert_loc (sv # svs) (word_of_nat h) (word_of_nat (h + n - 1)) after =
        find_insert_loc svs (word_of_nat h) (word_of_nat (h + n - 1)) (Some (sv_id sv))"
      using f(1) h(2) by (simp only: find_insert_loc.simps get_handles_ok [OF ok] bind.simps prod.case
          le [OF bounds(1,3)] le [OF bounds(3,2)] le [OF bounds(1,4)] le [OF bounds(4,2)] less [OF bounds(4,1)])
        auto
    with Cons True show ?thesis by (auto split: list.splits)
  next
    case False
    with ap f(1) have "h + n \<le> sv_start sv" by (auto simp: apart_def)
    then have "find_insert_loc (sv # svs) (word_of_nat h) (word_of_nat (h + n - 1)) after = Some (True, after)"
      using f(1) h(2) by (simp only: find_insert_loc.simps get_handles_ok [OF ok] bind.simps prod.case
          le [OF bounds(1,3)] le [OF bounds(3,2)] le [OF bounds(1,4)] le [OF bounds(4,2)] less [OF bounds(4,1)])
        auto
    with False show ?thesis by simp
  qed
qed simp

lemma push_after_last:
  "pre \<noteq> [] \<Longrightarrow> distinct (map sv_id (pre @ post)) \<Longrightarrow>
     push_after (sv_id (last pre)) x (pre @ post) = Some (pre @ x # post)"
proof (induction pre)
  case (Cons v pre)
  show ?case
  proof (cases pre)
    case Nil
    then show ?thesis by simp
  next
    case (Cons w ws)
    then have "sv_id (last pre) \<in> sv_id ` set pre" by (metis imageI last_in_set list.distinct(1))
    with Cons.prems(2) have "sv_id v \<noteq> sv_id (last pre)" by auto
    with Cons Cons.IH Cons.prems show ?thesis by auto
  qed
qed simp

lemma uuid_to_le_expand:
  assumes "uuid_ok u"
  shows "\<exists>v. uuid_to_le u = Some v \<and> (length v = 2 \<or> length v = 16) \<and>
    (\<exists>u'. le_to_uuid v = Some (Some u') \<and> uuid_ok u' \<and> bt_uuid_cmp u u' = Some 0)"
proof (cases u)
  case (BT_UUID16 x)
  then have "uuid_to_le u = Some (put_le16 x)" "le_to_uuid (put_le16 x) = Some (Some (BT_UUID16 x))"
    by (simp_all add: uuid_to_le_def le_to_uuid_def bt_uuid16_create_def codec_simps)
  with BT_UUID16 show ?thesis by (intro exI [of _ "put_le16 x"]) (simp add: codec_simps bt_uuid_cmp_eq_0)
next
  case (BT_UUID32 x)
  then have "uuid_to_le u = Some (rev (expand u))"
    by (simp add: uuid_to_le_def bswap_128_def)
  moreover have "le_to_uuid (rev (expand u)) = Some (Some (BT_UUID128 (expand u)))"
    using assms by (simp add: le_to_uuid_def bt_uuid128_create_def bswap_128_def)
  ultimately show ?thesis using assms by (intro exI [of _ "rev (expand u)"]) (simp add: bt_uuid_cmp_eq_0)
next
  case (BT_UUID128 d)
  then have "uuid_to_le u = Some (rev (expand u))"
    by (simp add: uuid_to_le_def bswap_128_def)
  moreover have "le_to_uuid (rev (expand u)) = Some (Some (BT_UUID128 (expand u)))"
    using assms by (simp add: le_to_uuid_def bt_uuid128_create_def bswap_128_def)
  ultimately show ?thesis using assms by (intro exI [of _ "rev (expand u)"]) (simp add: bt_uuid_cmp_eq_0)
qed (use assms in simp)

text \<open>The service that an insertion creates.\<close>

definition declared_service :: "nat \<Rightarrow> nat \<Rightarrow> nat \<Rightarrow> bool \<Rightarrow> bytes \<Rightarrow> gatt_db_service" where
  "declared_service s h n primary val =
     \<lparr>sv_id = s, sv_active = False, sv_claimed = False, sv_num_handles = word_of_nat n,
      sv_attributes = Some ((new_attribute (if primary then primary_service_uuid else secondary_service_uuid) val)
          \<lparr>at_handle := word_of_nat h\<rparr>) # replicate (n - 1) None\<rparr>"

lemma declared_service_facts:
  assumes "0 < h" "0 < n" "h + n \<le> 65536"
  shows "sv_start (declared_service s h n p v) = h" "sv_len (declared_service s h n p v) = n"
    "service_ok (declared_service s h n p v)" "sv_id (declared_service s h n p v) = s"
proof -
  let ?sv = "declared_service s h n p v"
  show start: "sv_start ?sv = h" "sv_len ?sv = n"
    using assms by (simp_all add: sv_start_def sv_len_def declared_service_def attr_at_def u16_of_nat)
  have fill: "filled ?sv = 1" by (cases "n - 1") (simp_all add: filled_def declared_service_def)
  have "sv_attributes ?sv ! i \<noteq> None \<longrightarrow> i < 1" if "i < n" for i
    using that by (cases i) (auto simp: declared_service_def)
  then show "service_ok ?sv"
    unfolding service_ok_def fill start using assms
    by (auto simp: declared_service_def u16_of_nat)
qed (simp add: declared_service_def)

lemma service_create_declared:
  assumes "0 < n" "n < 65536" "uuid_to_le u = Some v"
  shows "\<exists>sv. gatt_db_service_create s u primary (word_of_nat n) = Some (Some sv) \<and>
    set_declaration_handle (word_of_nat h) (word_of_nat n) sv = Some (declared_service s h n primary v)"
proof -
  have "\<not> (word_of_nat n :: u16) < 1" using assms(1,2) by (simp add: word_less_nat_alt u16_of_nat)
  then show ?thesis
    using assms by (simp add: gatt_db_service_create_def u16_of_nat set_declaration_handle_def attr_at_def
        set_attr_def array_get_def array_set_def declared_service_def)
qed

definition insert_sorted_service :: "nat \<Rightarrow> gatt_db_service \<Rightarrow> gatt_db_service list \<Rightarrow> gatt_db_service list" where
  "insert_sorted_service h sv svs =
     takeWhile (\<lambda>v. sv_start v < h) svs @ sv # dropWhile (\<lambda>v. sv_start v < h) svs"

lemma sorted_wrt_takeWhile_before:
  "sorted_wrt before svs \<Longrightarrow> \<forall>sv \<in> set svs. 0 < sv_len sv \<Longrightarrow> sv \<in> set (dropWhile (\<lambda>v. sv_start v < h) svs) \<Longrightarrow>
     h \<le> sv_start sv"
proof (induction svs)
  case (Cons v svs)
  then show ?case
    by (cases "sv_start v < h") (auto simp: before_def intro: order_trans [of h "sv_start v"] add_leE)
qed simp

lemma insert_sorted_ok:
  assumes "db_ok db" "service_ok sv" "sv_start sv = h" "sv_len sv = n" "sv_id sv = next_sv db"
    and "\<forall>v \<in> set (db_services db). apart h n v"
  shows "db_ok (db\<lparr>next_sv := Suc (next_sv db), db_services := insert_sorted_service h sv (db_services db),
      next_handle := x\<rparr>)"
proof -
  let ?svs = "db_services db" and ?P = "\<lambda>v. sv_start v < h"
  have ok: "\<forall>v \<in> set ?svs. service_ok v \<and> sv_id v < next_sv db" "sorted_wrt before ?svs" "distinct (map sv_id ?svs)"
    using assms(1) by (auto simp: db_ok_def)
  have split: "takeWhile ?P ?svs @ dropWhile ?P ?svs = ?svs" by simp
  have s: "sorted_wrt before (takeWhile ?P ?svs)" "sorted_wrt before (dropWhile ?P ?svs)"
    "\<forall>a \<in> set (takeWhile ?P ?svs). \<forall>b \<in> set (dropWhile ?P ?svs). before a b"
    using ok(2) by (metis split sorted_wrt_append)+
  have tw: "before v sv" if "v \<in> set (takeWhile ?P ?svs)" for v
    using that assms(3,4,6) service_ok_facts(1) [OF assms(2)] by (auto dest!: set_takeWhileD simp: before_def apart_def)
  have dw: "before sv v" if "v \<in> set (dropWhile ?P ?svs)" for v
  proof -
    have "h \<le> sv_start v" using sorted_wrt_takeWhile_before [OF ok(2)] ok(1) service_ok_facts(1) that by blast
    moreover have "0 < sv_len v" "apart h n v"
      using ok(1) assms(6) that service_ok_facts(1) by (auto dest!: set_dropWhileD)
    ultimately show ?thesis using assms(3,4) by (auto simp: before_def apart_def)
  qed
  obtain pre post where pp: "takeWhile ?P ?svs = pre" "dropWhile ?P ?svs = post" by blast
  with split have "?svs = pre @ post" by simp
  then have parts: "\<forall>v \<in> set pre \<union> set post. service_ok v \<and> sv_id v < next_sv db \<and> sv_id v < Suc (next_sv db)"
    "distinct (map sv_id (pre @ post))"
    using ok(1,3) by (simp_all add: less_Suc_eq)
  show ?thesis
    unfolding db_ok_def insert_sorted_service_def
    using parts s [unfolded pp] tw [unfolded pp] dw [unfolded pp] assms(2,5)
    by (auto simp: pp sorted_wrt_append)
qed

lemma insert_service_apart:
  assumes db: "db_ok db" and h: "0 < h" "0 < n" "h + n \<le> 65536" and u: "uuid_to_le u = Some v"
    and ap: "\<forall>sv \<in> set (db_services db). apart h n sv"
  shows "gatt_db_insert_service db (word_of_nat h) u primary (word_of_nat n) =
    Some (Some (next_sv db, 0), db\<lparr>next_sv := Suc (next_sv db),
      db_services := insert_sorted_service h (declared_service (next_sv db) h n primary v) (db_services db),
      next_handle := word_of_nat (max (h + n) (unat (next_handle db)))\<rparr>)"
proof -
  let ?svs = "db_services db" and ?P = "\<lambda>v. sv_start v < h"
  have ok: "\<forall>sv \<in> set ?svs. service_ok sv \<and> apart h n sv" "sorted_wrt before ?svs" "distinct (map sv_id ?svs)"
    using db ap by (auto simp: db_ok_def)
  have n: "n < 65536" "h < 65536" using h by auto
  have guards: "\<not> (word_of_nat h :: u16) < 1" "\<not> (word_of_nat n :: u16) < 1"
    "\<not> unat (word_of_nat h :: u16) + unat (word_of_nat n :: u16) - 1 > 65535"
    using h n by (simp_all add: word_less_nat_alt u16_of_nat)
  have e: "(word_of_nat h :: u16) + word_of_nat n - 1 = word_of_nat (h + n - 1)" using h by (simp add: of_nat_diff)
  obtain sv where sv: "gatt_db_service_create (next_sv db) u primary (word_of_nat n) = Some (Some sv)"
    "set_declaration_handle (word_of_nat h) (word_of_nat n) sv = Some (declared_service (next_sv db) h n primary v)"
    using service_create_declared [OF h(2) n(1) u] by blast
  have loc: "find_insert_loc ?svs (word_of_nat h) (word_of_nat (h + n - 1)) None =
      Some (True, case takeWhile ?P ?svs of [] \<Rightarrow> None | pre \<Rightarrow> Some (sv_id (last pre)))"
    by (rule find_insert_loc_apart [OF ok(1,2) h])
  have push: "(case (case takeWhile ?P ?svs of [] \<Rightarrow> None | pre \<Rightarrow> Some (sv_id (last pre))) of
        Some s \<Rightarrow> push_after s x ?svs | None \<Rightarrow> Some (x # ?svs)) =
      Some (insert_sorted_service h x ?svs)" for x
  proof (cases "takeWhile ?P ?svs")
    case Nil
    then have "dropWhile ?P ?svs = ?svs" by (metis append_Nil takeWhile_dropWhile_id)
    with Nil show ?thesis by (simp add: insert_sorted_service_def)
  next
    case (Cons a as)
    obtain pre post where pp: "takeWhile ?P ?svs = pre" "dropWhile ?P ?svs = post" by blast
    then have svs: "?svs = pre @ post" by (metis takeWhile_dropWhile_id)
    have "push_after (sv_id (last pre)) x (pre @ post) = Some (pre @ x # post)"
      using ok(3) Cons [unfolded pp] unfolding svs by (intro push_after_last) simp_all
    then have "push_after (sv_id (last (takeWhile ?P ?svs))) x ?svs =
        Some (takeWhile ?P ?svs @ x # dropWhile ?P ?svs)" unfolding pp by (simp only: svs)
    with Cons show ?thesis by (simp add: insert_sorted_service_def)
  qed
  obtain after where after: "(case takeWhile ?P ?svs of [] \<Rightarrow> None | pre \<Rightarrow> Some (sv_id (last pre))) = after" by blast
  show ?thesis
    unfolding gatt_db_insert_service_def e loc after
    using guards sv push [of "declared_service (next_sv db) h n primary v", unfolded after] n
    by (cases after) (simp_all add: declared_service_facts(4) [OF h] forwarded_handle_def u16_of_nat Let_def del: unat_of_nat)
qed

section \<open>Adding attributes keeps a service well formed\<close>

declare scan_free.simps [simp del]

lemma scan_free_ok:
  assumes "service_ok sv" "b \<le> sv_len sv"
  shows "i \<le> min (filled sv) b \<Longrightarrow> scan_free sv (int b) i = Some (min (filled sv) b)"
proof (induction "min (filled sv) b - i" arbitrary: i)
  case 0
  then have i: "i = min (filled sv) b" by simp
  show ?case
  proof (cases "i < b")
    case True
    with i assms service_ok_facts(3) [OF assms(1)] service_empty [OF assms(1), of i] show ?thesis
      by (subst scan_free.simps) auto
  qed (use i in \<open>subst scan_free.simps, simp\<close>)
next
  case (Suc k)
  then have i: "i < filled sv" "i < b" by auto
  obtain a where "sv_attributes sv ! i = Some a" using service_attr [OF assms(1) i(1)] by metis
  with i assms(2) service_ok_facts(3) [OF assms(1)] have "scan_free sv (int b) i = scan_free sv (int b) (Suc i)"
    by (subst scan_free.simps) simp
  moreover have "scan_free sv (int b) (Suc i) = Some (min (filled sv) b)"
    by (rule Suc.hyps(1)) (use Suc.hyps(2) i in simp_all)
  ultimately show ?case by simp
qed

lemma get_attribute_index_ok:
  assumes "service_ok sv" "d \<le> 1"
  shows "get_attribute_index sv d = Some (if filled sv + d < sv_len sv then filled sv else 0)"
proof -
  note f = service_ok_facts [OF assms(1)]
  have b: "int (unat (sv_num_handles sv)) - int d = int (sv_len sv - d)" "sv_len sv - d \<le> sv_len sv"
    using f(1) assms(2) by (auto simp: sv_len_def of_nat_diff)
  show ?thesis
    unfolding get_attribute_index_def b(1) Let_def
    using f(1,2) assms(2) scan_free_ok [OF assms(1) b(2), of 0] by (auto simp: min_def)
qed

text \<open>The service after attribute \<open>a\<close> is stored at the first free place.\<close>

definition extended :: "gatt_db_service \<Rightarrow> gatt_db_attribute \<Rightarrow> gatt_db_service" where
  "extended sv a = sv\<lparr>sv_attributes :=
     (sv_attributes sv)[filled sv := Some (a\<lparr>at_handle := word_of_nat (sv_start sv + filled sv)\<rparr>)]\<rparr>"

lemma takeWhile_update_first:
  "length (takeWhile P xs) < length xs \<Longrightarrow> P x \<Longrightarrow>
     (\<forall>i < length xs. P (xs ! i) \<longrightarrow> i < length (takeWhile P xs)) \<Longrightarrow>
     length (takeWhile P (xs[length (takeWhile P xs) := x])) = Suc (length (takeWhile P xs))"
proof (induction xs)
  case (Cons y ys)
  show ?case
  proof (cases "P y")
    case True
    have "\<forall>i < length ys. P (ys ! i) \<longrightarrow> i < length (takeWhile P ys)"
      using Cons.prems(3) True by (auto dest: spec [of _ "Suc _"])
    with Cons True show ?thesis by simp
  next
    case False
    have np: "\<not> P (ys ! i)" if "i < length ys" for i
      using Cons.prems(3) False that by (auto dest: spec [of _ "Suc i"])
    have "takeWhile P ys = []" using np [of 0] by (cases ys) auto
    with False Cons.prems(2) show ?thesis by simp
  qed
qed simp

lemma extended_ok:
  assumes "service_ok sv" "filled sv < sv_len sv"
  shows "service_ok (extended sv a)" "filled (extended sv a) = Suc (filled sv)"
    "sv_start (extended sv a) = sv_start sv" "sv_len (extended sv a) = sv_len sv"
    "sv_id (extended sv a) = sv_id sv" "sv_num_handles (extended sv a) = sv_num_handles sv"
    "sv_active (extended sv a) = sv_active sv"
    "attr_at (extended sv a) (filled sv) = Some (a\<lparr>at_handle := word_of_nat (sv_start sv + filled sv)\<rparr>)"
    "i \<noteq> filled sv \<Longrightarrow> attr_at (extended sv a) i = attr_at sv i"
proof -
  note f = service_ok_facts [OF assms(1)]
  let ?b = "a\<lparr>at_handle := word_of_nat (sv_start sv + filled sv)\<rparr>"
  show fill: "filled (extended sv a) = Suc (filled sv)"
    using assms takeWhile_update_first [of "\<lambda>a. a \<noteq> None" "sv_attributes sv" "Some ?b"] f(3)
    by (simp add: filled_def extended_def service_ok_def)
  show start: "sv_start (extended sv a) = sv_start sv" "sv_len (extended sv a) = sv_len sv"
    using f(3,6) by (simp_all add: sv_start_def attr_at_def extended_def sv_len_def array_get_def)
  show "attr_at (extended sv a) (filled sv) = Some ?b" "i \<noteq> filled sv \<Longrightarrow> attr_at (extended sv a) i = attr_at sv i"
    using assms(2) f(3) by (simp_all add: attr_at_def extended_def array_get_def)
  have "unat (word_of_nat (sv_start sv + filled sv) :: u16) = sv_start sv + filled sv"
    using f(5) assms(2) by (intro u16_of_nat) simp
  moreover have "\<exists>c. sv_attributes (extended sv a) ! i = Some c \<and> unat (at_handle c) = sv_start sv + i"
    if "i < Suc (filled sv)" for i
  proof (cases "i = filled sv")
    case True
    with calculation assms(2) f(3) show ?thesis by (simp add: extended_def)
  next
    case False
    with that have "i < filled sv" by simp
    then obtain c where "sv_attributes sv ! i = Some c" "unat (at_handle c) = sv_start sv + i"
      by (rule service_attr [OF assms(1)])
    with False show ?thesis by (simp add: extended_def)
  qed
  moreover have "i < Suc (filled sv)" if "i < sv_len sv" "sv_attributes (extended sv a) ! i \<noteq> None" for i
  proof (cases "i = filled sv")
    case False
    with that have "sv_attributes sv ! i \<noteq> None" by (simp add: extended_def)
    with service_empty [OF assms(1), of i] that(1) show ?thesis by fastforce
  qed simp
  ultimately show "service_ok (extended sv a)"
    unfolding service_ok_def fill start using f by (auto simp: extended_def)
qed (simp_all add: extended_def)

lemma put_attribute_ok:
  assumes "service_ok sv" "filled sv < sv_len sv"
  shows "put_attribute sv (filled sv) a = Some (extended sv a)"
proof -
  note f = service_ok_facts [OF assms(1)]
  have "filled sv - 1 < filled sv" using f(6) by simp
  then obtain p where p: "attr_at sv (filled sv - 1) = Some p" "unat (at_handle p) = sv_start sv + (filled sv - 1)"
    by (rule service_attr [OF assms(1)])
  have ph: "at_handle p + 1 = word_of_nat (sv_start sv + filled sv)"
    using p(2) f(6) u16_eq_of_nat [OF p(2)] by (simp add: of_nat_diff)
  let ?sv = "sv\<lparr>sv_attributes := (sv_attributes sv)[filled sv := Some a]\<rparr>"
  have s1: "set_attr sv (filled sv) a = Some ?sv"
    using assms(2) f(3) by (simp add: set_attr_def array_set_def)
  have "attr_at ?sv (filled sv - 1) = Some p"
    using p(1) f(6) by (simp add: attr_at_def array_get_def split: if_splits)
  moreover have "attr_at ?sv (filled sv) = Some a"
    using assms(2) f(3) by (simp add: attr_at_def array_get_def)
  ultimately show ?thesis
    using assms(2) f(3)
    by (simp add: put_attribute_def s1 attribute_update_def get_handle_at_index_def ph set_attr_def array_set_def
        extended_def)
qed

lemma set_service_ok:
  assumes "db_ok db" "get_service db (sv_id sv) = Some v" "service_ok sv" "sv_start sv = sv_start v" "sv_len sv = sv_len v"
  shows "db_ok (set_service db sv)" "get_service (set_service db sv) (sv_id sv) = Some sv"
proof -
  let ?f = "\<lambda>u. if sv_id u = sv_id sv then sv else u"
  note v = get_service_Some [OF assms(2)]
  have only: "u = v" if "u \<in> set (db_services db)" "sv_id u = sv_id sv" for u
    using get_service_in [OF assms(1) that(1)] assms(2) that(2) by simp
  have same: "sv_start (?f u) = sv_start u \<and> sv_len (?f u) = sv_len u" if "u \<in> set (db_services db)" for u
    using only [OF that] assms(4,5) by auto
  have "sorted_wrt before (map ?f (db_services db))"
  proof -
    have "sorted_wrt (\<lambda>a b. before (?f a) (?f b)) (db_services db)"
    proof (rule sorted_wrt_mono_rel)
      show "sorted_wrt before (db_services db)" using assms(1) by (simp add: db_ok_def)
      show "before (?f a) (?f b)" if "a \<in> set (db_services db)" "b \<in> set (db_services db)" "before a b" for a b
        using that(3) unfolding before_def same [OF that(1), THEN conjunct1] same [OF that(1), THEN conjunct2]
          same [OF that(2), THEN conjunct1] .
    qed
    then show ?thesis by (simp add: sorted_wrt_map)
  qed
  moreover have ids: "map sv_id (map ?f (db_services db)) = map sv_id (db_services db)" by simp
  have "distinct (map sv_id (map ?f (db_services db)))"
    unfolding ids using assms(1) by (simp add: db_ok_def)
  moreover have "\<forall>u \<in> set (map ?f (db_services db)). service_ok u \<and> sv_id u < next_sv db"
    using assms(1,3) v by (auto simp: db_ok_def)
  ultimately show ok: "db_ok (set_service db sv)"
    unfolding db_ok_def set_service_def by (simp del: map_map list.set_map)
  have "sv \<in> set (db_services (set_service db sv))" using v by (force simp: set_service_def)
  from get_service_in [OF ok this] show "get_service (set_service db sv) (sv_id sv) = Some sv" .
qed

section \<open>Attributes in the database\<close>

lemma get_attr_service:
  "get_service db (sv_id sv) = Some sv \<Longrightarrow> get_attr db (sv_id sv, i) = attr_at sv i"
  by (simp add: get_attr_def)

text \<open>The attribute a handle names: its service is the one whose range has the handle.\<close>

lemma attr_at_Some:
  assumes "service_ok sv" "attr_at sv i = Some a"
  shows "i < filled sv" "unat (at_handle a) = sv_start sv + i"
proof -
  from assms(2) have i: "i < length (sv_attributes sv)" "sv_attributes sv ! i = Some a"
    by (auto simp: attr_at_def bind_Some_iff array_get_eq_Some)
  with service_empty [OF assms(1), of i] service_ok_facts(3) [OF assms(1)] show "i < filled sv"
    by (metis not_less option.distinct(1))
  then obtain c where "sv_attributes sv ! i = Some c" "unat (at_handle c) = sv_start sv + i"
    by (rule service_attr [OF assms(1)])
  with i show "unat (at_handle a) = sv_start sv + i" by simp
qed

lemma find_service_for_handle_ok:
  assumes "service_ok sv" "h < 65536"
  shows "find_service_for_handle (word_of_nat h) sv = Some (sv_start sv \<le> h \<and> h < sv_start sv + sv_len sv)"
proof -
  note f = service_ok_facts [OF assms(1)]
  have le: "(word_of_nat a :: u16) \<le> word_of_nat b \<longleftrightarrow> a \<le> b" if "a < 65536" "b < 65536" for a b
    using that by (simp add: word_le_nat_alt u16_of_nat)
  have bounds: "sv_start sv < 65536" "sv_start sv + sv_len sv - 1 < 65536" using f(1,5) by auto
  show ?thesis
    using f(1) by (simp only: find_service_for_handle_def get_handles_ok [OF assms(1)] bind.simps prod.case
        le [OF bounds(1) assms(2)] le [OF assms(2) bounds(2)]) auto
qed

lemma find_sv_find:
  "\<forall>sv \<in> set svs. P sv = Some (Q sv) \<Longrightarrow> find_sv P svs = Some (find Q svs)"
  by (induction svs) auto

lemma find_range_unique:
  assumes "sorted_wrt before svs" "\<forall>sv \<in> set svs. 0 < sv_len sv" "sv \<in> set svs"
    "sv_start sv \<le> h" "h < sv_start sv + sv_len sv"
  shows "find (\<lambda>sv. sv_start sv \<le> h \<and> h < sv_start sv + sv_len sv) svs = Some sv"
  using assms
proof (induction svs)
  case (Cons v svs)
  then show ?case by (auto simp: before_def dest: bspec)
qed simp

lemma get_attribute_by_handle:
  assumes db: "db_ok db" and h: "0 < h" "h < 65536"
  shows "gatt_db_get_attribute db (word_of_nat h) = Some (Some r) \<longleftrightarrow>
    (\<exists>a. get_attr db r = Some a \<and> unat (at_handle a) = h)"
    and "gatt_db_get_attribute db (word_of_nat h) \<noteq> None"
proof -
  let ?Q = "\<lambda>sv. sv_start sv \<le> h \<and> h < sv_start sv + sv_len sv"
  have ok: "\<forall>sv \<in> set (db_services db). service_ok sv" "sorted_wrt before (db_services db)"
    using db by (auto simp: db_ok_def)
  have nz: "(word_of_nat h :: u16) \<noteq> 0" using h by (metis u16_of_nat unsigned_0 less_numeral_extra(3))
  have found: "find_sv (find_service_for_handle (word_of_nat h)) (db_services db) = Some (find ?Q (db_services db))"
    by (rule find_sv_find) (use ok(1) find_service_for_handle_ok h(2) in blast)
  have hit: "gatt_db_get_attribute db (word_of_nat h) =
      Some (map_option (\<lambda>_. (sv_id sv, h - sv_start sv)) (sv_attributes sv ! (h - sv_start sv)))"
    if "sv \<in> set (db_services db)" "?Q sv" for sv
  proof -
    have sv: "service_ok sv" using ok(1) that(1) by blast
    note f = service_ok_facts [OF sv]
    have "find ?Q (db_services db) = Some sv"
      by (rule find_range_unique [OF ok(2) _ that(1)]) (use ok(1) service_ok_facts(1) that(2) in auto)
    moreover obtain a where "attr_at sv 0 = Some a" "unat (at_handle a) = sv_start sv + 0"
      using service_attr [OF sv f(6)] by metis
    then have "get_handle_at_index sv 0 = Some (word_of_nat (sv_start sv))"
      using u16_eq_of_nat by (fastforce simp: get_handle_at_index_def)
    moreover have "sv_start sv < 65536" using f(1,5) by simp
    moreover have "h - sv_start sv < length (sv_attributes sv)" using that(2) f(3) by auto
    ultimately show ?thesis
      using nz found h(2) by (simp add: gatt_db_get_attribute_def u16_of_nat)
  qed
  have miss: "gatt_db_get_attribute db (word_of_nat h) = Some None" if "\<forall>sv \<in> set (db_services db). \<not> ?Q sv"
  proof -
    have "find ?Q (db_services db) = None" using that by (auto simp: find_None_iff)
    then show ?thesis using nz found by (simp add: gatt_db_get_attribute_def)
  qed
  show "gatt_db_get_attribute db (word_of_nat h) \<noteq> None" using hit miss by (metis option.distinct(1))
  show "gatt_db_get_attribute db (word_of_nat h) = Some (Some r) \<longleftrightarrow>
      (\<exists>a. get_attr db r = Some a \<and> unat (at_handle a) = h)"
  proof
    assume l: "gatt_db_get_attribute db (word_of_nat h) = Some (Some r)"
    with miss obtain sv where sv: "sv \<in> set (db_services db)" "?Q sv" by auto
    then have svok: "service_ok sv" using ok(1) by blast
    from l hit [OF sv] obtain a where a: "sv_attributes sv ! (h - sv_start sv) = Some a" "r = (sv_id sv, h - sv_start sv)"
      by auto
    have "h - sv_start sv < length (sv_attributes sv)" using sv(2) service_ok_facts(3) [OF svok] by auto
    with a(1) have at: "attr_at sv (h - sv_start sv) = Some a" by (simp add: attr_at_def bind_Some_iff)
    with attr_at_Some(2) [OF svok at] sv(2) a(2) get_service_in [OF db sv(1)]
    show "\<exists>a. get_attr db r = Some a \<and> unat (at_handle a) = h" by (auto simp: get_attr_def)
  next
    assume "\<exists>a. get_attr db r = Some a \<and> unat (at_handle a) = h"
    then obtain a sv where a: "get_service db (fst r) = Some sv" "attr_at sv (snd r) = Some a" "unat (at_handle a) = h"
      by (auto simp: get_attr_def bind_Some_iff)
    note sv = get_service_Some [OF a(1)]
    have svok: "service_ok sv" using sv ok(1) by blast
    note at = attr_at_Some [OF svok a(2)]
    have Q: "?Q sv" using at a(3) service_ok_facts(2) [OF svok] by auto
    have "sv_attributes sv ! snd r = Some a" using a(2) by (auto simp: attr_at_def bind_Some_iff array_get_eq_Some)
    moreover have "h - sv_start sv = snd r" using at(2) a(3) by simp
    ultimately show "gatt_db_get_attribute db (word_of_nat h) = Some (Some r)"
      using hit [OF conjunct1 [OF sv] Q] sv by (metis option.simps(9) prod.collapse)
  qed
qed

section \<open>Properties\<close>

lemma uuid_to_le_length: "uuid_ok u \<Longrightarrow> uuid_to_le u = Some v \<Longrightarrow> length v = 2 \<or> length v = 16"
  using uuid_to_le_expand [of u] by auto

text \<open>A declaration's UUID read back from its value.\<close>

lemma service_uuid_declared:
  assumes "uuid_ok u" "uuid_to_le u = Some v"
  shows "\<exists>u'. service_uuid (declared_service s h n p v) = Some (Some u') \<and> uuid_ok u' \<and> bt_uuid_cmp u u' = Some 0"
proof -
  from uuid_to_le_expand [OF assms(1)] assms(2) obtain u' where
    v: "length v = 2 \<or> length v = 16" "le_to_uuid v = Some (Some u')" "uuid_ok u'" "bt_uuid_cmp u u' = Some 0" by auto
  have "v \<noteq> []" using v(1) by auto
  then have "service_uuid (declared_service s h n p v) = Some (Some u')"
    using v(1,2) by (auto simp: service_uuid_def declared_service_def attr_at_def new_attribute_def le_to_uuid_def
        bind_Some_iff)
  with v show ?thesis by blast
qed

lemma get_service_inserted:
  assumes "db_ok (db\<lparr>next_sv := x, db_services := insert_sorted_service h sv svs, next_handle := y\<rparr>)"
  shows "get_service (db\<lparr>next_sv := x, db_services := insert_sorted_service h sv svs, next_handle := y\<rparr>) (sv_id sv) = Some sv"
  using get_service_in [OF assms, of sv] by (simp add: insert_sorted_service_def)


lemma gatt_db_new_ok: "db_ok gatt_db_new"
  by (simp add: db_ok_def gatt_db_new_def)


text \<open>Overlap is only looked for at the two ends of the new range: a range that encloses an
  existing service on both sides is accepted, and the database then holds overlapping services.\<close>

theorem gatt_db_insert_enclosing_overlaps:
  assumes "db_ok db" "0 < h" "0 < n" "h + n \<le> 65536" "uuid_ok u" "db_services db = [sv]"
    and "h < sv_start sv" "sv_start sv + sv_len sv < h + n"
  shows "\<exists>r db'. gatt_db_insert_service db (word_of_nat h) u primary (word_of_nat n) = Some (Some r, db') \<and>
    length (db_services db') = 2 \<and> \<not> db_ok db'"
proof -
  obtain v where v: "uuid_to_le u = Some v" using uuid_to_le_expand [OF assms(5)] by blast
  have svok: "service_ok sv" using assms(1,6) by (simp add: db_ok_def)
  note f = service_ok_facts [OF svok]
  let ?new = "declared_service (next_sv db) h n primary v"
  note new = declared_service_facts [OF assms(2-4), of "next_sv db" primary v]
  have n: "n < 65536" "h < 65536" "h + n - 1 < 65536" "sv_start sv < 65536" "sv_start sv + sv_len sv - 1 < 65536"
    using assms(2-4) f(1,5) by auto
  have le: "(word_of_nat a :: u16) \<le> word_of_nat b \<longleftrightarrow> a \<le> b" if "a < 65536" "b < 65536" for a b
    using that by (simp add: word_le_nat_alt u16_of_nat)
  have less: "(word_of_nat a :: u16) < word_of_nat b \<longleftrightarrow> a < b" if "a < 65536" "b < 65536" for a b
    using that by (simp add: word_less_nat_alt u16_of_nat)
  have loc: "find_insert_loc [sv] (word_of_nat h) (word_of_nat (h + n - 1)) None = Some (True, Some (sv_id sv))"
    using assms(7,8) f(1) by (simp only: find_insert_loc.simps get_handles_ok [OF svok] bind.simps prod.case
        le [OF n(4,2)] le [OF n(2,5)] le [OF n(4,3)] le [OF n(3,5)] less [OF n(3,4)]) auto
  obtain sv0 where sv0: "gatt_db_service_create (next_sv db) u primary (word_of_nat n) = Some (Some sv0)"
    "set_declaration_handle (word_of_nat h) (word_of_nat n) sv0 = Some ?new"
    using service_create_declared [OF assms(3) n(1) v] by blast
  have guards: "\<not> (word_of_nat h :: u16) < 1" "\<not> (word_of_nat n :: u16) < 1"
    "\<not> unat (word_of_nat h :: u16) + unat (word_of_nat n :: u16) - 1 > 65535"
    using assms(2-4) n by (simp_all add: word_less_nat_alt u16_of_nat)
  have e: "(word_of_nat h :: u16) + word_of_nat n - 1 = word_of_nat (h + n - 1)" using assms(2) by (simp add: of_nat_diff)
  let ?db = "db\<lparr>next_sv := Suc (next_sv db), db_services := [sv, ?new],
      next_handle := forwarded_handle (word_of_nat h) (word_of_nat n) (next_handle db)\<rparr>"
  have "gatt_db_insert_service db (word_of_nat h) u primary (word_of_nat n) = Some (Some (next_sv db, 0), ?db)"
    unfolding gatt_db_insert_service_def e assms(6) loc
    using guards sv0 by (simp add: assms(6) new(4) Let_def)
  moreover have "\<not> before sv ?new" using assms(7,8) new f(1) by (simp add: before_def)
  then have "\<not> db_ok ?db" by (simp add: db_ok_def)
  ultimately show ?thesis by fastforce
qed

definition demo_db :: gatt_db where
  "demo_db = gatt_db_new\<lparr>db_services := [declared_service 0 20 4 True [0x01, 0x18]], next_sv := 1\<rparr>"

lemma demo_db_ok: "db_ok demo_db"
  using declared_service_facts [of 20 4 0 True "[0x01, 0x18]"] by (simp add: demo_db_def db_ok_def)

lemma demo_db_simps [simp]: "db_services demo_db = [declared_service 0 20 4 True [0x01, 0x18]]" "next_sv demo_db = 1"
  by (simp_all add: demo_db_def)

lemma demo_service [simp]:
  "sv_start (declared_service 0 20 4 True v) = 20" "sv_len (declared_service 0 20 4 True v) = 4"
  using declared_service_facts [of 20 4 0 True v] by simp_all

theorem gatt_db_insert_enclosing_overlaps_witness:
  "\<exists>r db'. gatt_db_insert_service demo_db (word_of_nat 10) (BT_UUID16 0xFE59) True (word_of_nat 30) = Some (Some r, db') \<and>
    length (db_services db') = 2 \<and> \<not> db_ok db'"
  by (rule gatt_db_insert_enclosing_overlaps [OF demo_db_ok, where sv = "declared_service 0 20 4 True [0x01, 0x18]"]) simp_all

text \<open>C31 Looking up a handle finds exactly the attribute that has it, in every well-formed database,
  and never reads outside the attribute array.\<close>

theorem gatt_db_get_attribute_exact:
  assumes "db_ok db" "0 < h" "h < 65536"
  shows "(gatt_db_get_attribute db (word_of_nat h) = Some (Some r)) =
      (gatt_db_attribute_get_handle db (Some r) = Some (word_of_nat h)) \<and>
    gatt_db_get_attribute db (word_of_nat h) \<noteq> None"
proof -
  have "unat a = h \<longleftrightarrow> a = word_of_nat h" for a :: u16
    using u16_of_nat [OF assms(3)] by auto
  then show ?thesis
    using get_attribute_by_handle(1) [OF assms, of r] get_attribute_by_handle(2) [OF assms]
    by (auto simp: gatt_db_attribute_get_handle_def)
qed

theorem gatt_db_get_attribute_exact_witness:
  "(gatt_db_get_attribute demo_db (word_of_nat 20) = Some (Some (0, 0))) =
      (gatt_db_attribute_get_handle demo_db (Some (0, 0)) = Some (word_of_nat 20)) \<and>
    gatt_db_get_attribute demo_db (word_of_nat 20) \<noteq> None"
  by (rule gatt_db_get_attribute_exact [OF demo_db_ok]) simp_all

section \<open>Properties of characteristics\<close>

lemma char_data_declaration:
  assumes "uuid_to_le u = Some v" "length v = 2 \<or> length v = 16" "le_to_uuid v = Some (Some u')"
  shows "char_data (new_attribute characteristic_uuid ([p] @ put_le16 vh @ v)\<lparr>at_handle := dh\<rparr>) =
    Some (Some (dh, vh, p, Some u'))"
proof -
  have "uuid_differs characteristic_uuid characteristic_uuid = Some False"
    by (simp add: uuid_differs_def bt_uuid_cmp_expand characteristic_uuid_def)
  moreover have "unat (word_of_nat (length v + 3) :: u16) = length v + 3" using assms(2) by (auto simp: u16_of_nat)
  moreover have "get_le16 (drop 1 (p # put_le16 vh @ v)) = Some vh" by (simp add: codec_simps)
  moreover have "array_slice (p # put_le16 vh @ v) 3 (length v) = Some v"
    by (simp add: codec_simps)
  ultimately show ?thesis
    using assms(2,3) by (auto simp: char_data_def new_attribute_def codec_simps numeral_eq_Suc array_get_def)
qed

text \<open>C32 A characteristic added to a service with two free places: the returned attribute is its value,
  reachable by its handle, with the handle behind the declaration; the declaration tells that
  value handle, the properties and an equal UUID; the database stays well formed.\<close>

theorem gatt_db_characteristic_round_trip:
  assumes "db_ok db" "get_service db s = Some sv" "filled sv + 1 < sv_len sv" "uuid_ok u"
  shows "\<exists>db' u'. gatt_db_service_add_characteristic db (Some (s, 0)) u perms p rd wr =
      Some (Some (s, filled sv + 1), db') \<and> db_ok db' \<and>
    gatt_db_attribute_get_char_data db' (Some (s, filled sv)) =
      Some (Some (word_of_nat (sv_start sv + filled sv), word_of_nat (sv_start sv + filled sv + 1), p, Some u')) \<and>
    bt_uuid_cmp u u' = Some 0 \<and>
    gatt_db_get_attribute db' (word_of_nat (sv_start sv + filled sv + 1)) = Some (Some (s, filled sv + 1)) \<and>
    gatt_db_attribute_get_type db' (Some (s, filled sv + 1)) = Some (Some u)"
proof -
  from get_service_Some [OF assms(2)] have sv: "sv \<in> set (db_services db)" "sv_id sv = s" by auto
  have ok: "service_ok sv" using assms(1) sv(1) by (simp add: db_ok_def)
  note f = service_ok_facts [OF ok]
  from uuid_to_le_expand [OF assms(4)] obtain v u' where
    v: "uuid_to_le u = Some v" "length v = 2 \<or> length v = 16" "le_to_uuid v = Some (Some u')" "bt_uuid_cmp u u' = Some 0"
    by blast
  have idx: "get_attribute_index sv 1 = Some (filled sv)"
    using get_attribute_index_ok [OF ok, of 1] assms(3) by simp
  have "filled sv - 1 < filled sv" using f(6) by simp
  then obtain q where q: "attr_at sv (filled sv - 1) = Some q" "unat (at_handle q) = sv_start sv + (filled sv - 1)"
    by (rule service_attr [OF ok])
  have vh: "at_handle q + 2 = word_of_nat (sv_start sv + filled sv + 1)"
    using u16_eq_of_nat [OF q(2)] f(6) by (simp add: of_nat_diff)
  let ?decl = "new_attribute characteristic_uuid ([p] @ put_le16 (at_handle q + 2) @ v)"
  let ?val = "set_attribute_data rd wr perms (new_attribute u [])"
  let ?sv1 = "extended sv ?decl" let ?sv2 = "extended ?sv1 ?val"
  have l1: "filled sv < sv_len sv" using assms(3) by simp
  note e1 = extended_ok [OF ok l1, where a = ?decl]
  have l2: "filled ?sv1 < sv_len ?sv1" using assms(3) e1 by simp
  note e2 = extended_ok [OF e1(1) l2, where a = ?val]
  let ?db = "set_service db ?sv2"
  have run: "gatt_db_service_add_characteristic db (Some (s, 0)) u perms p rd wr = Some (Some (s, filled sv + 1), ?db)"
    using f(6) assms(2) idx q(1) v(1) put_attribute_ok [OF ok l1, of ?decl] put_attribute_ok [OF e1(1) l2, of ?val, unfolded e1(2)]
    by (simp add: gatt_db_service_add_characteristic_def get_handle_at_index_def)
  have id2: "sv_id ?sv2 = s" using e1(5) e2(5) sv(2) by simp
  have get: "get_service db (sv_id ?sv2) = Some sv" using assms(2) id2 by simp
  have set_ok: "db_ok ?db" "get_service ?db s = Some ?sv2"
    using set_service_ok [OF assms(1) get e2(1)] e1(3,4) e2(3,4) id2 by simp_all
  have "attr_at ?sv2 (filled sv) = Some (?decl\<lparr>at_handle := word_of_nat (sv_start sv + filled sv)\<rparr>)"
    using e2(9) [where i = "filled sv"] e1(2,8) by simp
  then have cd: "gatt_db_attribute_get_char_data ?db (Some (s, filled sv)) =
      Some (Some (word_of_nat (sv_start sv + filled sv), word_of_nat (sv_start sv + filled sv + 1), p, Some u'))"
    using set_ok(2) char_data_declaration [OF v(1-3), where p = p and vh = "at_handle q + 2"]
    by (simp add: gatt_db_attribute_get_char_data_def get_attr_def vh del: append_Cons)
  have val: "get_attr ?db (s, filled sv + 1) = Some (?val\<lparr>at_handle := word_of_nat (sv_start sv + (filled sv + 1))\<rparr>)"
    using e2(8) e1(2,3) set_ok(2) by (simp add: get_attr_def)
  then have ty: "gatt_db_attribute_get_type ?db (Some (s, filled sv + 1)) = Some (Some u)"
    by (simp add: gatt_db_attribute_get_type_def set_attribute_data_def new_attribute_def)
  have range: "0 < sv_start sv + filled sv + 1" "sv_start sv + filled sv + 1 < 65536" using f assms(3) by auto
  have "gatt_db_get_attribute ?db (word_of_nat (sv_start sv + filled sv + 1)) = Some (Some (s, filled sv + 1))"
    using get_attribute_by_handle(1) [OF set_ok(1) range, of "(s, filled sv + 1)"] val u16_of_nat [OF range(2)]
    by (simp add: add.assoc)
  with run set_ok(1) cd ty v(4) show ?thesis by blast
qed

theorem gatt_db_characteristic_round_trip_witness:
  "\<exists>db' u'. gatt_db_service_add_characteristic demo_db (Some (0, 0)) (BT_UUID16 0x2A05) 0 0x20 False False =
      Some (Some (0, filled (declared_service 0 20 4 True [0x01, 0x18]) + 1), db') \<and> db_ok db' \<and>
    gatt_db_attribute_get_char_data db' (Some (0, filled (declared_service 0 20 4 True [0x01, 0x18]))) =
      Some (Some (word_of_nat (sv_start (declared_service 0 20 4 True [0x01, 0x18]) + filled (declared_service 0 20 4 True [0x01, 0x18])),
        word_of_nat (sv_start (declared_service 0 20 4 True [0x01, 0x18]) + filled (declared_service 0 20 4 True [0x01, 0x18]) + 1),
        0x20, Some u')) \<and>
    bt_uuid_cmp (BT_UUID16 0x2A05) u' = Some 0 \<and>
    gatt_db_get_attribute db' (word_of_nat (sv_start (declared_service 0 20 4 True [0x01, 0x18]) +
      filled (declared_service 0 20 4 True [0x01, 0x18]) + 1)) =
      Some (Some (0, filled (declared_service 0 20 4 True [0x01, 0x18]) + 1)) \<and>
    gatt_db_attribute_get_type db' (Some (0, filled (declared_service 0 20 4 True [0x01, 0x18]) + 1)) = Some (Some (BT_UUID16 0x2A05))"
proof (rule gatt_db_characteristic_round_trip [OF demo_db_ok])
  show "get_service demo_db 0 = Some (declared_service 0 20 4 True [0x01, 0x18])"
    using declared_service_facts(4) [of 20 4 0 True "[0x01, 0x18]"] by (simp add: get_service_def)
  have "filled (declared_service 0 20 4 True [0x01, 0x18]) = 1"
    by (simp add: filled_def declared_service_def numeral_eq_Suc)
  then show "filled (declared_service 0 20 4 True [0x01, 0x18]) + 1 < sv_len (declared_service 0 20 4 True [0x01, 0x18])"
    by simp
qed simp

section \<open>Properties of the handle counter and of stored values\<close>

text \<open>The counter for new services is 16 bits wide and 0 is no handle: once the last handle is used,
  or the database was cleared, no service can be added by \<^verbatim>\<open>gatt_db_add_service\<close> any more.\<close>

theorem gatt_db_add_service_exhausted:
  assumes "db_ok db" "0 < h" "0 < n" "h + n = 65536" "uuid_ok u"
    and "\<forall>sv \<in> set (db_services db). sv_start sv + sv_len sv \<le> h" "gatt_db_clear db2 = Some (b, db3)"
  shows "(\<exists>r db'. gatt_db_insert_service db (word_of_nat h) u primary (word_of_nat n) = Some (Some r, db') \<and>
      gatt_db_add_service db' v p2 k = Some (None, db')) \<and>
    gatt_db_add_service db3 v p2 k = Some (None, db3)"
proof
  obtain x where x: "uuid_to_le u = Some x" using uuid_to_le_expand [OF assms(5)] by blast
  have ap: "\<forall>sv \<in> set (db_services db). apart h n sv" using assms(6) by (simp add: apart_def)
  have "max (h + n) (unat (next_handle db)) = 65536" using assms(4) unat_u16_lt [of "next_handle db"] by simp
  moreover have "(word_of_nat 65536 :: u16) = 0" by simp
  ultimately show "\<exists>r db'. gatt_db_insert_service db (word_of_nat h) u primary (word_of_nat n) = Some (Some r, db') \<and>
      gatt_db_add_service db' v p2 k = Some (None, db')"
    using insert_service_apart [OF assms(1-3) _ x ap, of primary] assms(4)
    by (simp add: gatt_db_add_service_def gatt_db_insert_service_def)
  show "gatt_db_add_service db3 v p2 k = Some (None, db3)"
    using assms(7) by (auto simp: gatt_db_clear_def bind_Some_iff gatt_db_add_service_def gatt_db_insert_service_def)
qed

theorem gatt_db_add_service_exhausted_witness:
  "(\<exists>r db'. gatt_db_insert_service demo_db (word_of_nat 65000) (BT_UUID16 0x1800) True (word_of_nat 536) = Some (Some r, db') \<and>
      gatt_db_add_service db' (BT_UUID16 0x1801) True 1 = Some (None, db')) \<and>
    gatt_db_add_service (gatt_db_new\<lparr>next_handle := 0\<rparr>) (BT_UUID16 0x1801) True 1 = Some (None, gatt_db_new\<lparr>next_handle := 0\<rparr>)"
  by (rule gatt_db_add_service_exhausted [OF demo_db_ok, where ?db2.0 = gatt_db_new and b = True])
    (simp_all add: gatt_db_clear_def gatt_db_new_def)

text \<open>What the operations that call out of the database leave as it was.\<close>

lemma call_simps [simp]:
  "db_services (call cs db) = db_services db" "next_sv (call cs db) = next_sv db"
  "next_handle (call cs db) = next_handle db" "notify_list (call cs db) = notify_list db"
  by (simp_all add: call_def)

lemma db_ok_call [simp]: "db_ok (call cs db) \<longleftrightarrow> db_ok db"
  by (simp add: db_ok_def)

lemma gatt_db_service_destroy_services:
  "gatt_db_service_destroy sv db = Some db' \<Longrightarrow> db_services db' = db_services db \<and> next_sv db' = next_sv db"
  by (auto simp: gatt_db_service_destroy_def notify_service_changed_def bind_Some_iff split: if_splits)

lemma db_ok_filter:
  "db_ok db \<Longrightarrow> db_ok (db\<lparr>db_services := filter P (db_services db)\<rparr>)"
  by (auto simp: db_ok_def sorted_wrt_filter distinct_map_filter)

lemma db_ok_eq: "db_services a = db_services b \<Longrightarrow> next_sv a = next_sv b \<Longrightarrow> db_ok a = db_ok b"
  by (simp add: db_ok_def)

lemma service_ok_flags [simp]:
  "service_ok (sv\<lparr>sv_active := b\<rparr>) \<longleftrightarrow> service_ok sv" "service_ok (sv\<lparr>sv_claimed := b\<rparr>) \<longleftrightarrow> service_ok sv"
  "sv_start (sv\<lparr>sv_active := b\<rparr>) = sv_start sv" "sv_start (sv\<lparr>sv_claimed := b\<rparr>) = sv_start sv"
  "sv_len (sv\<lparr>sv_active := b\<rparr>) = sv_len sv" "sv_len (sv\<lparr>sv_claimed := b\<rparr>) = sv_len sv"
  by (simp_all add: service_ok_def sv_start_def sv_len_def filled_def attr_at_def)

lemma clear_matching_filter:
  assumes "distinct (map sv_id svs)" "\<forall>sv \<in> set svs. service_ok sv"
    and "clear_matching (word_of_nat s) (word_of_nat e) svs db = Some db'" "s < 65536" "e < 65536"
  shows "db_services db' = filter (\<lambda>v. \<not> (\<exists>sv \<in> set svs. sv_id sv = sv_id v \<and> sv_start sv \<le> e \<and> s < sv_start sv + sv_len sv))
      (db_services db) \<and> next_sv db' = next_sv db"
  using assms
proof (induction svs arbitrary: db)
  case (Cons sv svs)
  have ok: "service_ok sv" using Cons.prems(2) by simp
  note f = service_ok_facts [OF ok]
  have le: "(word_of_nat a :: u16) \<le> word_of_nat b \<longleftrightarrow> a \<le> b" if "a < 65536" "b < 65536" for a b
    using that by (simp add: word_le_nat_alt u16_of_nat)
  have bounds: "sv_start sv < 65536" "sv_start sv + sv_len sv - 1 < 65536" using f(1,5) by auto
  have m: "match_range (word_of_nat s) (word_of_nat e) sv = Some (sv_start sv \<le> e \<and> s < sv_start sv + sv_len sv)"
    using f(1) by (simp only: match_range_def get_handles_ok [OF ok] bind.simps prod.case
        le [OF bounds(1) Cons.prems(5)] le [OF Cons.prems(4) bounds(2)]) auto
  show ?case
  proof (cases "sv_start sv \<le> e \<and> s < sv_start sv + sv_len sv")
    case True
    let ?db = "db\<lparr>db_services := filter (\<lambda>v. sv_id v \<noteq> sv_id sv) (db_services db)\<rparr>"
    from Cons.prems(3) True m obtain db1 where db1: "gatt_db_service_destroy sv ?db = Some db1"
      "clear_matching (word_of_nat s) (word_of_nat e) svs db1 = Some db'"
      by (auto simp: bind_Some_iff)
    from gatt_db_service_destroy_services [OF db1(1)] Cons.IH [OF _ _ db1(2)] Cons.prems(1,2,4,5) True
    show ?thesis by (auto intro!: filter_cong)
  next
    case False
    with Cons.prems m have "clear_matching (word_of_nat s) (word_of_nat e) svs db = Some db'" by auto
    from Cons.IH [OF _ _ this] Cons.prems(1,2,4,5) False show ?thesis by (auto intro!: filter_cong)
  qed
qed simp

text \<open>Clearing a range removes exactly the services whose handle range meets it, and the database
  stays well formed.\<close>

theorem gatt_db_clear_range_exact:
  assumes "db_ok db" "s \<le> e" "e < 65536" "gatt_db_clear_range db (word_of_nat s) (word_of_nat e) = Some (b, db')"
  shows "b \<and> db_ok db' \<and>
    db_services db' = filter (\<lambda>sv. e < sv_start sv \<or> sv_start sv + sv_len sv \<le> s) (db_services db)"
proof -
  have "\<not> (word_of_nat s :: u16) > word_of_nat e"
    using assms(2,3) by (simp add: word_less_nat_alt u16_of_nat)
  with assms(4) have b: b and run: "clear_matching (word_of_nat s) (word_of_nat e) (db_services db) db = Some db'"
    by (auto simp: gatt_db_clear_range_def bind_Some_iff)
  have ok: "distinct (map sv_id (db_services db))" "\<forall>sv \<in> set (db_services db). service_ok sv"
    using assms(1) by (auto simp: db_ok_def)
  have same: "u = v" if "u \<in> set (db_services db)" "v \<in> set (db_services db)" "sv_id u = sv_id v" for u v
    using that ok(1) by (metis (no_types, lifting) distinct_map inj_on_def)
  have s: "s < 65536" using assms(2,3) by simp
  note cm = clear_matching_filter [OF ok run s assms(3)]
  have eq: "filter (\<lambda>v. \<not> (\<exists>sv \<in> set (db_services db). sv_id sv = sv_id v \<and> sv_start sv \<le> e \<and> s < sv_start sv + sv_len sv))
      (db_services db) = filter (\<lambda>sv. e < sv_start sv \<or> sv_start sv + sv_len sv \<le> s) (db_services db)"
    by (rule filter_cong [OF refl]) (use same in \<open>auto simp: not_less not_le\<close>)
  have "db_ok (db\<lparr>db_services := db_services db'\<rparr>)"
    using cm unfolding eq by (simp only: db_ok_filter [OF assms(1)])
  with cm have "db_ok db'" using db_ok_eq [of db' "db\<lparr>db_services := db_services db'\<rparr>"] by simp
  with b cm eq show ?thesis by simp
qed

theorem gatt_db_clear_range_exact_witness:
  "True \<and> db_ok (demo_db\<lparr>db_services := []\<rparr>) \<and>
    db_services (demo_db\<lparr>db_services := []\<rparr>) =
      filter (\<lambda>sv. 30 < sv_start sv \<or> sv_start sv + sv_len sv \<le> 22) (db_services demo_db)"
proof (rule gatt_db_clear_range_exact [OF demo_db_ok])
  have "match_range (word_of_nat 22) (word_of_nat 30) (declared_service 0 20 4 True [0x01, 0x18]) = Some True"
    by (simp add: match_range_def gatt_db_service_get_handles_def declared_service_def attr_at_def)
  then show "gatt_db_clear_range demo_db (word_of_nat 22) (word_of_nat 30) = Some (True, demo_db\<lparr>db_services := []\<rparr>)"
    by (simp add: gatt_db_clear_range_def gatt_db_service_destroy_def declared_service_def attribute_destroy_def
        new_attribute_def call_def demo_db_def gatt_db_new_def enumerate_Suc_eq numeral_3_eq_3)
qed simp_all

definition attr_value_ok :: "gatt_db_attribute \<Rightarrow> bool" where
  "attr_value_ok a \<longleftrightarrow> (case at_value a of None \<Rightarrow> at_value_len a = 0 | Some v \<Rightarrow> length v = unat (at_value_len a))"

lemma stored_value_ok:
  assumes "attr_value_ok a" "length val + unat offset < 65536" "val \<noteq> []"
  shows "\<exists>a' v. stored_value junk a offset val = Some a' \<and> attr_value_ok a' \<and> at_value a' = Some v \<and>
    take (length val) (drop (unat offset) v) = val \<and> unat offset + length val \<le> length v \<and>
    (\<forall>i < unat offset. v ! i = (case at_value a of
        Some old \<Rightarrow> if i < length old then old ! i else if old = [] then 0 else junk i | None \<Rightarrow> 0))"
proof -
  let ?n = "length val + unat offset" and ?old = "case at_value a of None \<Rightarrow> [] | Some v \<Rightarrow> v"
  have old: "length ?old = unat (at_value_len a)" using assms(1) by (auto simp: attr_value_ok_def split: option.splits)
  have n: "unat (word_of_nat ?n :: u16) = ?n" using assms(2) by (rule u16_of_nat)
  show ?thesis
  proof (cases "at_value a = None \<or> offset \<ge> at_value_len a \<or> length val > unat (at_value_len a - offset)")
    case True
    define buf where "buf = take ?n ?old @ map junk [length ?old ..< ?n]"
    define buf' where "buf' = (if at_value_len a = 0 then replicate (unat offset) 0 @ drop (unat offset) buf else buf)"
    have grow: "length ?old \<le> ?n"
      using True
    proof (elim disjE)
      assume d: "length val > unat (at_value_len a - offset)"
      show ?thesis
      proof (cases "offset \<le> at_value_len a")
        case True
        then have "unat (at_value_len a - offset) = unat (at_value_len a) - unat offset" by (rule unat_sub)
        with d show ?thesis unfolding old by linarith
      next
        case False
        then show ?thesis unfolding old by (simp add: word_le_nat_alt)
      qed
    qed (use old in \<open>auto simp: word_le_nat_alt split: option.splits\<close>)
    have lb: "length buf = ?n" using grow by (simp add: buf_def)
    then have len: "length buf = ?n" "length buf' = ?n" by (simp_all add: buf'_def)
    have run: "stored_value junk a offset val =
        Some (a\<lparr>at_value_len := word_of_nat ?n, at_value := Some (overwrite (unat offset) val buf')\<rparr>)"
      using True len by (simp add: stored_value_def buf_def [symmetric] Let_def) (simp add: buf'_def)
    have v: "length (overwrite (unat offset) val buf') = ?n" "take (unat offset) (overwrite (unat offset) val buf') = take (unat offset) buf'"
      "take (length val) (drop (unat offset) (overwrite (unat offset) val buf')) = val"
      using len by (simp_all add: overwrite_def)
    have low: "buf' ! i = (case at_value a of
        Some old \<Rightarrow> if i < length old then old ! i else if old = [] then 0 else junk i | None \<Rightarrow> 0)" if "i < unat offset" for i
    proof (cases "at_value_len a = 0")
      case True
      with that old show ?thesis by (auto simp: buf'_def nth_append split: option.splits)
    next
      case False
      then have "unat (at_value_len a) \<noteq> 0" by (simp only: unat_eq_0 simp_thms not_False_eq_True)
      then have "?old \<noteq> []" using old by (metis list.size(3))
      with that False grow show ?thesis
        by (auto simp: buf'_def buf_def nth_append split: option.splits)
    qed
    have "overwrite (unat offset) val buf' ! i = buf' ! i" if "i < unat offset" for i
      using that len by (simp add: overwrite_def nth_append)
    with run v low n show ?thesis by (auto simp: attr_value_ok_def)
  next
    case False
    then obtain v where v: "at_value a = Some v" "offset < at_value_len a" "length val \<le> unat (at_value_len a - offset)"
      by (auto simp: not_le)
    have lv: "length v = unat (at_value_len a)" using old v(1) by simp
    have "unat (at_value_len a - offset) = unat (at_value_len a) - unat offset"
      using v(2) by (simp add: unat_sub)
    then have fit: "unat offset + length val \<le> length v" using v(2,3) lv by (simp add: word_less_nat_alt)
    then have "stored_value junk a offset val = Some (a\<lparr>at_value := Some (overwrite (unat offset) val v)\<rparr>)"
      using False v(1) by (simp add: stored_value_def Let_def)
    with v(1) lv fit show ?thesis by (auto simp: attr_value_ok_def overwrite_def nth_append)
  qed
qed

lemma upd_attr_get:
  assumes "get_attr db r = Some a"
  shows "\<exists>db'. upd_attr db r f = Some db' \<and> get_attr db' r = Some (f a) \<and> db_calls db' = db_calls db"
proof -
  from assms obtain sv where sv: "get_service db (fst r) = Some sv" "attr_at sv (snd r) = Some a"
    by (auto simp: get_attr_def bind_Some_iff)
  from sv(2) have i: "snd r < length (sv_attributes sv)" by (auto simp: attr_at_def bind_Some_iff array_get_eq_Some)
  let ?sv = "sv\<lparr>sv_attributes := (sv_attributes sv)[snd r := Some (f a)]\<rparr>"
  have upd: "upd_attr db r f = Some (set_service db ?sv)"
    using sv i by (simp add: upd_attr_def set_attr_def array_set_def)
  have id: "sv_id sv = fst r" using get_service_Some [OF sv(1)] by simp
  have "find (\<lambda>s. sv_id s = fst r) svs = Some sv \<Longrightarrow>
      find (\<lambda>s. sv_id s = fst r) (map (\<lambda>v. if sv_id v = fst r then ?sv else v) svs) = Some ?sv" for svs
    by (induction svs) (auto simp: id split: if_splits)
  then have "get_service (set_service db ?sv) (fst r) = Some ?sv"
    using sv(1) by (simp add: get_service_def set_service_def id)
  moreover have "attr_at ?sv (snd r) = Some (f a)" using i by (simp add: attr_at_def array_get_def)
  ultimately show ?thesis using upd by (simp add: get_attr_def set_service_def)
qed

text \<open>C33 An attribute without a read handler, written and read back at the same offset: the bytes that
  were written start the answer, and no access leaves the buffer; a write that starts behind the
  old value of a non-empty attribute leaves the bytes in between as the allocator returned them.\<close>

theorem gatt_db_attribute_write_read:
  assumes "get_attr db r = Some a" "attr_value_ok a" "\<not> at_read_func a" "\<not> at_write_func a"
    and "length val + unat offset < 65536" "val \<noteq> []"
  shows "\<exists>db' d. gatt_db_attribute_write junk db (Some r) offset val op tid wfn = Some (True, db') \<and>
    gatt_db_attribute_read db' (Some r) offset op tid rf =
      Some (True, call [ReadDone rf r 0 d] db') \<and> take (length val) d = val \<and>
    (\<exists>v. gatt_db_attribute_read db' (Some r) 0 op tid rf = Some (True, call [ReadDone rf r 0 v] db') \<and>
      (\<forall>i < unat offset. v ! i = (case at_value a of
         Some old \<Rightarrow> if i < length old then old ! i else if old = [] then 0 else junk i | None \<Rightarrow> 0)))"
proof -
  from stored_value_ok [OF assms(2,5,6)] obtain a' v where
    a': "stored_value junk a offset val = Some a'" "attr_value_ok a'" "at_value a' = Some v"
      "take (length val) (drop (unat offset) v) = val" "unat offset + length val \<le> length v"
      "\<forall>i < unat offset. v ! i = (case at_value a of
        Some old \<Rightarrow> if i < length old then old ! i else if old = [] then 0 else junk i | None \<Rightarrow> 0)" by blast
  have keeps: "\<not> at_read_func a'"
    using a'(1) assms(3) by (auto simp: stored_value_def Let_def bind_Some_iff split: if_splits)
  obtain db1 where db1: "upd_attr db r (\<lambda>_. a') = Some db1" "get_attr db1 r = Some a'"
    using upd_attr_get [OF assms(1), of "\<lambda>_. a'"] by blast
  let ?db = "call [WriteDone wfn r 0] db1"
  have w: "gatt_db_attribute_write junk db (Some r) offset val op tid wfn = Some (True, ?db)"
    using assms(1,4,6) a'(1) db1(1) by (simp add: gatt_db_attribute_write_def)
  have get: "get_attr ?db r = Some a'" using db1(2) by (simp add: get_attr_def get_service_def)
  have lv: "length v = unat (at_value_len a')" using a'(2,3) by (simp add: attr_value_ok_def)
  have pos: "0 < length val" using assms(6) by simp
  have off: "offset < at_value_len a'" unfolding word_less_nat_alt using a'(5) lv pos by linarith
  have diff: "unat (at_value_len a' - offset) = unat (at_value_len a') - unat offset"
    using off by (simp add: unat_sub)
  have r1: "gatt_db_attribute_read ?db (Some r) offset op tid rf =
      Some (True, call [ReadDone rf r 0 (drop (unat offset) v)] ?db)"
    using get keeps off a'(3) lv a'(5) by (simp add: gatt_db_attribute_read_def diff)
  have r0: "gatt_db_attribute_read ?db (Some r) 0 op tid rf = Some (True, call [ReadDone rf r 0 v] ?db)"
    using get keeps off a'(3) lv by (auto simp: gatt_db_attribute_read_def)
  from w r1 r0 a'(4,6) show ?thesis by blast
qed

theorem gatt_db_attribute_write_read_witness:
  "\<exists>db' d. gatt_db_attribute_write (\<lambda>_. 0xAA) demo_db (Some (0, 0)) 4 [7, 8] 0x12 0 1 = Some (True, db') \<and>
    gatt_db_attribute_read db' (Some (0, 0)) 4 0x12 0 2 =
      Some (True, call [ReadDone 2 (0, 0) 0 d] db') \<and> take (length [7, 8 :: byte]) d = [7, 8] \<and>
    (\<exists>v. gatt_db_attribute_read db' (Some (0, 0)) 0 0x12 0 2 = Some (True, call [ReadDone 2 (0, 0) 0 v] db') \<and>
      (\<forall>i < unat (4 :: u16). v ! i = (case at_value ((new_attribute primary_service_uuid [0x01, 0x18])\<lparr>at_handle := 20\<rparr>) of
         Some old \<Rightarrow> if i < length old then old ! i else if old = [] then 0 else 0xAA | None \<Rightarrow> 0)))"
proof (rule gatt_db_attribute_write_read)
  show "get_attr demo_db (0, 0) = Some ((new_attribute primary_service_uuid [0x01, 0x18])\<lparr>at_handle := 20\<rparr>)"
    by (simp add: get_attr_def get_service_def declared_service_def attr_at_def)
qed (simp_all add: attr_value_ok_def new_attribute_def)

end
