(* ===== verification/Ble.thy ===== *)
theory Ble
  imports Mainloop GattDb
begin

text \<open>
  \<^verbatim>\<open>ble.c\<close>: the BLE connection of the DFU client. The state is the C \<open>struct ble\<close>, the flags of the
  main loop it waits in, the static variable of \<^verbatim>\<open>dfu.c\<close>, a trace of what the program sends or waits
  for, and the state \<open>env\<close> of everything behind the GATT client (the ATT bearer, the kernel, the
  peripheral). That environment is a parameter, the \<open>transport\<close>: what its calls return, which of
  the callbacks of \<^verbatim>\<open>ble.c\<close> they make at once, and which batch of callbacks the next \<^verbatim>\<open>epoll_wait\<close>
  leads to. All of them are arbitrary, so the theorems hold for every peripheral.
\<close>

section \<open>State\<close>

record ble =
  dst_addr :: bytes
  mtu :: u16
  notify_id :: u32
  cp_handle :: u16
  cccd_handle :: u16
  data_handle :: u16
  btnless_handle :: u16
  notify_waiting_for_op :: int
  notify_code :: int
  extended_notify_code :: int
  notify_pkts :: u64
  notify_waiting_for_pkts :: int
  last_notification_package_size :: nat
  last_notification_package :: bytes
  debug :: byte

definition BT_ATT_DEFAULT_LE_MTU :: nat where "BT_ATT_DEFAULT_LE_MTU = 23"
definition BT_ATT_MAX_LE_MTU :: nat where "BT_ATT_MAX_LE_MTU = 517"
definition GATT_HEADER_LEN :: nat where "GATT_HEADER_LEN = 3"

datatype action =
    WriteReq u16 bytes
  | WriteCmd u16 bytes
  | Subscribe u16
  | Sleep nat

datatype ble_event =
    NotifyCb u16 bytes
  | RegisterNotifyCb u16
  | WriteCb bool byte
  | ReadyCb bool byte
  | AttDisconnectCb int

record 'e world = loop_flags +
  ble :: ble
  dont_resume :: bool
  trace :: "action list"
  env :: 'e

text \<open>
  \<open>write_value\<close>, \<open>write_without_response\<close> and \<open>register_notify\<close> return the id of the request, 0 for
  a failure, and the callbacks they make before they return (a second registration completes at
  once). \<open>database\<close> is the attribute database the client has filled.
\<close>

record 'e transport =
  is_ready :: "'e \<Rightarrow> bool"
  write_value :: "u16 \<Rightarrow> bytes \<Rightarrow> 'e \<Rightarrow> u32 \<times> ble_event list \<times> 'e"
  write_without_response :: "u16 \<Rightarrow> bytes \<Rightarrow> 'e \<Rightarrow> u32 \<times> 'e"
  register_notify :: "u16 \<Rightarrow> 'e \<Rightarrow> u32 \<times> ble_event list \<times> 'e"
  poll_events :: "'e \<Rightarrow> (ble_event list \<times> 'e) option"
  database :: "'e \<Rightarrow> gatt_db"

definition upd_ble :: "(ble \<Rightarrow> ble) \<Rightarrow> 'e world \<Rightarrow> 'e world" where
  "upd_ble f w = w\<lparr>ble := f (ble w)\<rparr>"

definition emit :: "action \<Rightarrow> 'e world \<Rightarrow> 'e world" where
  "emit a w = w\<lparr>trace := trace w @ [a]\<rparr>"

section \<open>Callbacks\<close>

definition OP_CODE_CREATE :: byte where "OP_CODE_CREATE = 0x01"
definition OP_CODE_CALCULATE_CHECKSUM :: byte where "OP_CODE_CALCULATE_CHECKSUM = 0x03"
definition OP_CODE_EXECUTE :: byte where "OP_CODE_EXECUTE = 0x04"
definition OP_CODE_SELECT :: byte where "OP_CODE_SELECT = 0x06"
definition OP_CODE_RESPONSE_CODE :: byte where "OP_CODE_RESPONSE_CODE = 0x60"

text \<open>The guard of \<^verbatim>\<open>notify_cb\<close>: the response the caller is waiting for.\<close>

definition awaited_response :: "ble \<Rightarrow> u16 \<Rightarrow> bytes \<Rightarrow> bool" where
  "awaited_response b value_handle v \<longleftrightarrow>
     value_handle = cp_handle b \<and> length v \<ge> 3 \<and> v ! 0 = OP_CODE_RESPONSE_CODE \<and>
     int (unat (v ! 1)) = notify_waiting_for_op b"

definition store_response :: "bytes \<Rightarrow> ble \<Rightarrow> ble" where
  "store_response v b =
     (let n = min (length v) (length (last_notification_package b));
          code = int (unat (v ! 2))
      in b\<lparr>last_notification_package := take n v @ drop n (last_notification_package b),
           last_notification_package_size := n,
           notify_code := code,
           extended_notify_code := (if code = 0x0B \<and> n \<ge> 4 then int (unat (v ! 3)) else -1)\<rparr>)"

definition notify_cb :: "u16 \<Rightarrow> bytes \<Rightarrow> 'e world \<Rightarrow> 'e world" where
  "notify_cb value_handle v w =
     (if debug (ble w) \<noteq> 0 \<and> length v = 0 then w
      else if awaited_response (ble w) value_handle v
      then mainloop_quit (upd_ble (store_response v) w)
      else w)"

definition register_notify_cb :: "u16 \<Rightarrow> 'e world \<Rightarrow> 'e world" where
  "register_notify_cb att_ecode w =
     (if att_ecode \<noteq> 0 then mainloop_exit_failure w else mainloop_exit_success w)"

definition write_cb :: "bool \<Rightarrow> byte \<Rightarrow> 'e world \<Rightarrow> 'e world" where
  "write_cb success att_ecode w =
     (if success then mainloop_exit_success w else mainloop_exit_failure w)"

definition att_disconnect_cb :: "int \<Rightarrow> 'e world \<Rightarrow> 'e world" where
  "att_disconnect_cb err w = mainloop_exit_failure w"

section \<open>Discovery\<close>

text \<open>The UUIDs that \<^verbatim>\<open>ble_init\<close> parses; a static variable stays zero when the string is refused.\<close>

definition parsed_uuid :: "string \<Rightarrow> bt_uuid" where
  "parsed_uuid s = (case bt_string_to_uuid s of Inr u \<Rightarrow> u | Inl _ \<Rightarrow> BT_UUID_UNSPEC)"

definition fota_uuid :: bt_uuid where "fota_uuid = parsed_uuid ''0000fe59-0000-1000-8000-00805f9b34fb''"
definition cp_uuid :: bt_uuid where "cp_uuid = parsed_uuid ''8EC90001-F315-4F60-9FB8-838830DAEA50''"
definition data_uuid :: bt_uuid where "data_uuid = parsed_uuid ''8EC90002-F315-4F60-9FB8-838830DAEA50''"
definition btnless_uuid :: bt_uuid where "btnless_uuid = parsed_uuid ''8EC90003-F315-4F60-9FB8-838830DAEA50''"
definition expbtnl_uuid :: bt_uuid where "expbtnl_uuid = parsed_uuid ''8E400001-F315-4F60-9FB8-838830DAEA50''"
definition cccd_uuid :: bt_uuid where "cccd_uuid = parsed_uuid ''00002902-0000-1000-8000-00805f9b34fb''"

text \<open>The walks print what they find and record the handles of the characteristics they know.\<close>

definition scan_desc :: "gatt_db \<Rightarrow> attr_ref \<Rightarrow> ble \<Rightarrow> ble option" where
  "scan_desc db attr b = do {
     h \<leftarrow> gatt_db_attribute_get_handle db (Some attr);
     ty \<leftarrow> gatt_db_attribute_get_type db (Some attr);
     uuid \<leftarrow> ty;
     differs \<leftarrow> uuid_differs uuid cccd_uuid;
     Some (if \<not> differs then b\<lparr>cccd_handle := h\<rparr> else b) }"

text \<open>The buttonless characteristics are compared in order; the second is not looked at when the first is equal.\<close>

definition is_btnless :: "bt_uuid \<Rightarrow> bool option" where
  "is_btnless uuid = do {
     d1 \<leftarrow> uuid_differs uuid btnless_uuid;
     if \<not> d1 then Some True
     else do { d2 \<leftarrow> uuid_differs uuid expbtnl_uuid; Some (\<not> d2) } }"

definition scan_chrc :: "gatt_db \<Rightarrow> attr_ref \<Rightarrow> ble \<Rightarrow> ble option" where
  "scan_chrc db attr b = do {
     found \<leftarrow> gatt_db_attribute_get_char_data db (Some attr);
     case found of Some (_, value_handle, _, Some uuid) \<Rightarrow> do {
         not_data \<leftarrow> uuid_differs uuid data_uuid;
         let b = (if \<not> not_data then b\<lparr>data_handle := value_handle\<rparr> else b);
         not_cp \<leftarrow> uuid_differs uuid cp_uuid;
         b \<leftarrow> (if \<not> not_cp
              then gatt_db_service_foreach_desc db (Some attr) (scan_desc db) (b\<lparr>cp_handle := value_handle\<rparr>)
              else Some b);
         btnless \<leftarrow> is_btnless uuid;
         if btnless
         then gatt_db_service_foreach_desc db (Some attr) (scan_desc db) (b\<lparr>btnless_handle := value_handle\<rparr>)
         else Some b }
     | _ \<Rightarrow> Some b }"

definition scan_service :: "gatt_db \<Rightarrow> attr_ref \<Rightarrow> ble \<Rightarrow> ble option" where
  "scan_service db attr b = do {
     found \<leftarrow> gatt_db_attribute_get_service_data db (Some attr);
     case found of Some (_, _, _, Some _) \<Rightarrow> gatt_db_service_foreach_char db (Some attr) (scan_chrc db) b
     | _ \<Rightarrow> Some b }"

definition scan_database :: "gatt_db \<Rightarrow> ble \<Rightarrow> ble option" where
  "scan_database db b = do {
     b \<leftarrow> gatt_db_foreach_service db (Some fota_uuid) (scan_service db) b;
     gatt_db_foreach_service db (Some expbtnl_uuid) (scan_service db) b }"

definition ready_cb :: "('e \<Rightarrow> gatt_db) \<Rightarrow> bool \<Rightarrow> byte \<Rightarrow> 'e world \<Rightarrow> 'e world option" where
  "ready_cb db_of success att_ecode w =
     (if \<not> success then Some (mainloop_exit_failure w)
      else do {
        b \<leftarrow> scan_database (db_of (env w)) (ble w);
        let w = w\<lparr>ble := b\<rparr>;
        if cccd_handle b \<noteq> 0 \<and>
           ((cp_handle b \<noteq> 0 \<and> data_handle b \<noteq> 0) \<or> btnless_handle b \<noteq> 0)
        then Some (mainloop_exit_success w)
        else Some (mainloop_exit_failure w) })"

fun ble_dispatch :: "'e transport \<Rightarrow> ble_event \<Rightarrow> 'e world \<Rightarrow> 'e world option" where
  "ble_dispatch T (NotifyCb value_handle v) w = Some (notify_cb value_handle v w)"
| "ble_dispatch T (RegisterNotifyCb ecode) w = Some (register_notify_cb ecode w)"
| "ble_dispatch T (WriteCb success ecode) w = Some (write_cb success ecode w)"
| "ble_dispatch T (ReadyCb success ecode) w = ready_cb (database T) success ecode w"
| "ble_dispatch T (AttDisconnectCb err) w = Some (att_disconnect_cb err w)"

text \<open>Callbacks that are made before the call that causes them returns.\<close>

definition deliver :: "'e transport \<Rightarrow> ble_event list \<Rightarrow> 'e world \<Rightarrow> 'e world option" where
  "deliver T evs w = dispatch_all (ble_dispatch T) evs w"

section \<open>The event loop of the connection\<close>

definition ble_poll :: "'e transport \<Rightarrow> 'e world \<Rightarrow> (ble_event list \<times> 'e world) option" where
  "ble_poll T w = map_option (\<lambda>(evs, e). (evs, w\<lparr>env := e\<rparr>)) (poll_events T (env w))"

definition ble_mainloop_run :: "'e transport \<Rightarrow> 'e world \<Rightarrow> (int \<times> 'e world) option" where
  "ble_mainloop_run T = mainloop_run (ble_poll T) (ble_dispatch T)"

section \<open>Operations\<close>

definition ble_register_notify :: "'e transport \<Rightarrow> 'e world \<Rightarrow> (int \<times> 'e world) option" where
  "ble_register_notify T w =
     (if \<not> is_ready T (env w) then Some (EXIT_FAILURE, w)
      else case register_notify T (cp_handle (ble w)) (env w) of (rid, evs, e) \<Rightarrow>
        do {
          w \<leftarrow> deliver T evs (emit (Subscribe (cp_handle (ble w))) (w\<lparr>env := e\<rparr>));
          let w = upd_ble (\<lambda>b. b\<lparr>notify_id := rid\<rparr>) w;
          if rid = 0 then Some (EXIT_FAILURE, w) else ble_mainloop_run T w })"

text \<open>The length parameter of the GATT client is 16 bits wide.\<close>

definition gatt_payload_arg :: "bytes \<Rightarrow> bytes" where
  "gatt_payload_arg buf = take (length buf mod 2 ^ 16) buf"

definition start_write :: "'e transport \<Rightarrow> u16 \<Rightarrow> bytes \<Rightarrow> 'e world \<Rightarrow> (bool \<times> 'e world) option" where
  "start_write T h buf w =
     (case write_value T h (gatt_payload_arg buf) (env w) of (rid, evs, e) \<Rightarrow> do {
        w \<leftarrow> deliver T evs (emit (WriteReq h (gatt_payload_arg buf)) (w\<lparr>env := e\<rparr>));
        Some (rid \<noteq> 0, w) })"

definition ble_send_cp :: "'e transport \<Rightarrow> 'e world \<Rightarrow> bytes \<Rightarrow> (int \<times> 'e world) option" where
  "ble_send_cp T w buf =
     do {
       (ok, w) \<leftarrow> start_write T (cp_handle (ble w)) buf w;
       if \<not> ok then Some (EXIT_FAILURE, w) else ble_mainloop_run T w }"

definition ble_send_cp_noresp :: "'e transport \<Rightarrow> 'e world \<Rightarrow> bytes \<Rightarrow> (int \<times> 'e world) option" where
  "ble_send_cp_noresp T w buf =
     do {
       (ok, w) \<leftarrow> start_write T (cp_handle (ble w)) buf w;
       if \<not> ok then Some (EXIT_FAILURE, w)
       else do { (_, w) \<leftarrow> ble_mainloop_run T w; Some (EXIT_SUCCESS, w) } }"

definition ble_send_data :: "'e transport \<Rightarrow> 'e world \<Rightarrow> bytes \<Rightarrow> (int \<times> 'e world) option" where
  "ble_send_data T w buf =
     do {
       (ok, w) \<leftarrow> start_write T (data_handle (ble w)) buf w;
       if \<not> ok then Some (EXIT_FAILURE, w) else ble_mainloop_run T w }"

definition ble_send_data_noresp :: "'e transport \<Rightarrow> 'e world \<Rightarrow> bytes \<Rightarrow> int \<times> 'e world" where
  "ble_send_data_noresp T w buf =
     (case write_without_response T (data_handle (ble w)) (gatt_payload_arg buf) (env w) of (rid, e) \<Rightarrow>
        (if rid = 0 then EXIT_FAILURE else EXIT_SUCCESS,
         emit (WriteCmd (data_handle (ble w)) (gatt_payload_arg buf)) (w\<lparr>env := e\<rparr>)))"

definition ble_wait_setup :: "'e world \<Rightarrow> byte \<Rightarrow> 'e world" where
  "ble_wait_setup w op =
     upd_ble (\<lambda>b. b\<lparr>notify_waiting_for_op := int (unat op), notify_code := -1,
                   extended_notify_code := -1\<rparr>) w"

definition ble_wait_run :: "'e transport \<Rightarrow> 'e world \<Rightarrow> (int \<times> 'e world) option" where
  "ble_wait_run T w = do {
     (_, w) \<leftarrow> ble_mainloop_run T w;
     let w = upd_ble (\<lambda>b. b\<lparr>notify_waiting_for_op := -1\<rparr>) w;
     Some (notify_code (ble w), w) }"

definition ble_getNotifyCodes :: "'e world \<Rightarrow> int \<times> int" where
  "ble_getNotifyCodes w = (notify_code (ble w), extended_notify_code (ble w))"

definition ble_notify_pkts_start :: "'e world \<Rightarrow> 'e world" where
  "ble_notify_pkts_start = upd_ble (\<lambda>b. b\<lparr>notify_waiting_for_pkts := 1\<rparr>)"

definition ble_notify_pkts_stop :: "'e world \<Rightarrow> 'e world" where
  "ble_notify_pkts_stop = upd_ble (\<lambda>b. b\<lparr>notify_waiting_for_pkts := 0\<rparr>)"

definition ble_notify_get_pkts :: "'e transport \<Rightarrow> 'e world \<Rightarrow> (u64 \<times> 'e world) option" where
  "ble_notify_get_pkts T w = do {
     (_, w) \<leftarrow> ble_mainloop_run T w;
     Some (if notify_waiting_for_pkts (ble w) = 0 then notify_pkts (ble w) else 0,
           upd_ble (\<lambda>b. b\<lparr>notify_waiting_for_pkts := 1\<rparr>) w) }"

text \<open>The exchange every request of \<^verbatim>\<open>dfu.c\<close> makes: announce the awaited response, write the request
  to the control point, wait.\<close>

definition cp_request :: "'e transport \<Rightarrow> byte \<Rightarrow> bytes \<Rightarrow> 'e world \<Rightarrow> (int \<times> 'e world) option" where
  "cp_request T op buf w = do {
     (_, w) \<leftarrow> ble_send_cp T (ble_wait_setup w op) buf;
     ble_wait_run T w }"

section \<open>Running the loop of the connection\<close>

named_theorems ble_defs

lemmas [ble_defs] = upd_ble_def emit_def mainloop_quit_def mainloop_exit_success_def
  mainloop_exit_failure_def EXIT_SUCCESS_def EXIT_FAILURE_def

definition stopped :: "'e world \<Rightarrow> bool" where
  "stopped w \<longleftrightarrow> epoll_terminate w \<or> fatal_error w"

abbreviation ble_loop :: "'e transport \<Rightarrow> 'e world \<Rightarrow> 'e world option" where
  "ble_loop T \<equiv> run_loop (ble_poll T) (ble_dispatch T)"

lemma ble_loop_stopped: "stopped w \<Longrightarrow> ble_loop T w = Some w"
  by (simp add: stopped_def run_loop_stopped)

lemma ble_loop_step:
  assumes "\<not> stopped w" "poll_events T (env w) = Some (evs, e)"
  shows "ble_loop T w = Option.bind (deliver T evs (w\<lparr>env := e\<rparr>)) (ble_loop T)"
  using assms by (subst run_loop_step) (simp_all add: stopped_def ble_poll_def deliver_def)

lemma ble_loop_blocked:
  "\<not> stopped w \<Longrightarrow> poll_events T (env w) = None \<Longrightarrow> ble_loop T w = None"
  by (subst run_loop_step) (simp_all add: stopped_def ble_poll_def)

lemma ble_mainloop_run_eq:
  "ble_mainloop_run T w =
     map_option (\<lambda>w. (exit_status w, w\<lparr>epoll_terminate := False\<rparr>))
       (ble_loop T (w\<lparr>exit_status := EXIT_SUCCESS\<rparr>))"
  by (cases "ble_loop T (w\<lparr>exit_status := EXIT_SUCCESS\<rparr>)")
    (simp_all add: ble_mainloop_run_def mainloop_run_def)

text \<open>Once a callback has reported a fatal error the loop never waits again.\<close>

lemma ble_mainloop_run_fatal:
  "fatal_error w \<Longrightarrow> ble_mainloop_run T w =
     Some (EXIT_SUCCESS, w\<lparr>exit_status := EXIT_SUCCESS, epoll_terminate := False\<rparr>)"
  by (simp add: ble_mainloop_run_eq ble_loop_stopped stopped_def)

section \<open>The response buffer\<close>

text \<open>What every callback keeps: the response buffer has its declared size, the recorded length
  fits, and the codes are those of a byte or \<open>-1\<close>.\<close>

definition ble_ok :: "ble \<Rightarrow> bool" where
  "ble_ok b \<longleftrightarrow>
     length (last_notification_package b) = BT_ATT_DEFAULT_LE_MTU \<and>
     last_notification_package_size b \<le> BT_ATT_DEFAULT_LE_MTU \<and>
     notify_code b \<in> {-1..255} \<and> extended_notify_code b \<in> {-1..255}"

lemma byte_code: "uint (v :: byte) \<le> 255" "-1 \<le> uint (v :: byte)"
proof -
  show "uint v \<le> 255" using uint_lt2p [of v] by simp
  show "-1 \<le> uint v" by (rule order_trans [of _ 0]) simp_all
qed

lemma store_response_ok: "ble_ok b \<Longrightarrow> ble_ok (store_response v b)"
  using byte_code by (auto simp: ble_ok_def store_response_def Let_def)

text \<open>The walks of discovery only set handles.\<close>

lemma walk_ok: "(\<And>x b. ble_ok b \<Longrightarrow> holds ble_ok (f x b)) \<Longrightarrow> ble_ok b \<Longrightarrow> holds ble_ok (walk f xs b)"
  by (induction xs arbitrary: b) (auto intro: holds_Some holds_bind)

lemma foreach_desc_loop_ok:
  "(\<And>x b. ble_ok b \<Longrightarrow> holds ble_ok (f x b)) \<Longrightarrow> ble_ok b \<Longrightarrow> holds ble_ok (foreach_desc_loop s sv f is b)"
proof (induction "is" arbitrary: b)
  case (Cons i "is")
  have "holds ble_ok (f (s, i) b \<bind> foreach_desc_loop s sv f is)"
    by (rule holds_bind [where Q = ble_ok]) (use Cons in auto)
  with Cons.prems(2) show ?case
    by (auto intro!: holds_bind_any [where m = "array_get _ _"] holds_bind_any [where m = "uuid_differs _ _"]
        holds_option holds_if intro: holds_Some Cons.IH Cons.prems)
qed (simp add: holds_Some)

lemma scan_desc_ok: "ble_ok b \<Longrightarrow> holds ble_ok (scan_desc db r b)"
  unfolding scan_desc_def by (intro holds_rules) (auto simp: ble_ok_def)

lemma foreach_desc_ok: "ble_ok b \<Longrightarrow> holds ble_ok (gatt_db_service_foreach_desc db r (scan_desc db) b)"
  unfolding gatt_db_service_foreach_desc_def
  by (intro holds_rules foreach_desc_loop_ok scan_desc_ok) auto

lemma ble_ok_handles [simp]:
  "ble_ok (b\<lparr>data_handle := h\<rparr>) = ble_ok b" "ble_ok (b\<lparr>cp_handle := h\<rparr>) = ble_ok b"
  "ble_ok (b\<lparr>btnless_handle := h\<rparr>) = ble_ok b"
  by (simp_all add: ble_ok_def)

lemma scan_chrc_ok: "ble_ok b \<Longrightarrow> holds ble_ok (scan_chrc db r b)"
  unfolding scan_chrc_def
  by (intro holds_bind_any holds_option holds_prod holds_let holds_if holds_Some holds_bind [where Q = ble_ok]
      foreach_desc_ok) auto

lemma scan_service_ok: "ble_ok b \<Longrightarrow> holds ble_ok (scan_service db r b)"
  unfolding scan_service_def gatt_db_service_foreach_char_def gatt_db_service_foreach_def
  by (intro holds_rules walk_ok scan_chrc_ok)

lemma foreach_service_ok: "ble_ok b \<Longrightarrow> holds ble_ok (gatt_db_foreach_service db u (scan_service db) b)"
  unfolding gatt_db_foreach_service_def gatt_db_foreach_service_in_range_def foreach_service_in_range_def
  by (intro holds_rules walk_ok scan_service_ok)

lemma scan_database_ok: "ble_ok b \<Longrightarrow> holds ble_ok (scan_database db b)"
  unfolding scan_database_def by (rule holds_bind [where Q = ble_ok]) (simp_all add: foreach_service_ok)

lemma ble_dispatch_ok: "ble_dispatch T ev w = Some w' \<Longrightarrow> ble_ok (ble w) \<Longrightarrow> ble_ok (ble w')"
  by (cases ev) (auto simp: notify_cb_def register_notify_cb_def write_cb_def ready_cb_def bind_Some_iff
      att_disconnect_cb_def Let_def ble_defs store_response_ok
      dest: holdsD [OF scan_database_ok] split: if_splits)

interpretation response_buffer: loop_invariant "\<lambda>w. ble_ok (ble w)" "ble_poll T" "ble_dispatch T"
  for T :: "'e transport"
  by unfold_locales (auto simp: ble_poll_def ble_dispatch_ok)

lemma deliver_ok: "deliver T evs w = Some w' \<Longrightarrow> ble_ok (ble w) \<Longrightarrow> ble_ok (ble w')"
  unfolding deliver_def by (rule response_buffer.inv_dispatch_all)

lemma ble_mainloop_run_ok:
  "ble_mainloop_run T w = Some (s, w') \<Longrightarrow> ble_ok (ble w) \<Longrightarrow> ble_ok (ble w')"
  unfolding ble_mainloop_run_def by (rule response_buffer.inv_mainloop_run)

lemma ble_send_cp_ok:
  "ble_send_cp T w buf = Some (s, w') \<Longrightarrow> ble_ok (ble w) \<Longrightarrow> ble_ok (ble w')"
  by (auto simp: ble_send_cp_def start_write_def bind_Some_iff emit_def split: prod.splits if_splits
      dest!: ble_mainloop_run_ok deliver_ok)

lemma ble_wait_run_ok:
  "ble_wait_run T w = Some (s, w') \<Longrightarrow> ble_ok (ble w) \<Longrightarrow> ble_ok (ble w')"
  by (auto simp: ble_wait_run_def bind_Some_iff Let_def dest!: ble_mainloop_run_ok)
    (auto simp: ble_defs ble_ok_def)

lemma cp_request_ok:
  "ble_ok (ble w) \<Longrightarrow> cp_request T op buf w = Some (s, w') \<Longrightarrow> ble_ok (ble w')"
proof (auto simp: cp_request_def bind_Some_iff)
  fix c w1
  assume "ble_ok (ble w)" and s: "ble_send_cp T (ble_wait_setup w op) buf = Some (c, w1)" and r: "ble_wait_run T w1 = Some (s, w')"
  then have "ble_ok (ble (ble_wait_setup w op))" by (simp add: ble_wait_setup_def ble_defs ble_ok_def)
  then show "ble_ok (ble w')" using ble_send_cp_ok [OF s] ble_wait_run_ok [OF r] by blast
qed

section \<open>Requests and responses\<close>

text \<open>Successive polls from \<open>e\<close> lead to the given batches of callbacks and end in \<open>e'\<close>.\<close>

fun polls :: "'e transport \<Rightarrow> 'e \<Rightarrow> ble_event list list \<Rightarrow> 'e \<Rightarrow> bool" where
  "polls T e [] e' \<longleftrightarrow> e = e'"
| "polls T e (b # bs) e' \<longleftrightarrow> (\<exists>e1. poll_events T e = Some (b, e1) \<and> polls T e1 bs e')"

lemma polls_append: "polls T e (xs @ ys) e' \<longleftrightarrow> (\<exists>e1. polls T e xs e1 \<and> polls T e1 ys e')"
  by (induction xs arbitrary: e) auto

text \<open>A notification nobody waits for changes nothing.\<close>

definition stray :: "ble \<Rightarrow> ble_event \<Rightarrow> bool" where
  "stray b ev \<longleftrightarrow> (\<exists>h v. ev = NotifyCb h v \<and> \<not> awaited_response b h v)"

lemma deliver_stray: "\<forall>ev \<in> set evs. stray (ble w) ev \<Longrightarrow> deliver T evs w = Some w"
  unfolding deliver_def by (induction evs arbitrary: w) (auto simp: stray_def notify_cb_def)

lemma ble_loop_strays:
  "polls T (env w) bs e \<Longrightarrow> \<forall>b \<in> set bs. \<forall>ev \<in> set b. stray (ble w) ev \<Longrightarrow> \<not> stopped w \<Longrightarrow>
     ble_loop T w = ble_loop T (w\<lparr>env := e\<rparr>)"
proof (induction bs arbitrary: w)
  case (Cons b bs)
  then obtain e1 where e1: "poll_events T (env w) = Some (b, e1)" "polls T e1 bs e" by auto
  have "ble_loop T w = ble_loop T (w\<lparr>env := e1\<rparr>)"
    using ble_loop_step [OF Cons.prems(3) e1(1)] deliver_stray [of b "w\<lparr>env := e1\<rparr>"] Cons.prems(2) by simp
  also have "\<dots> = ble_loop T (w\<lparr>env := e\<rparr>)"
    using Cons.IH [of "w\<lparr>env := e1\<rparr>"] Cons.prems(2,3) e1(2) by (simp add: stopped_def)
  finally show ?case .
qed (metis polls.simps(1) world.surjective world.update_convs(4))

text \<open>The two events a request waits for: the response to the write and the notification.\<close>

lemma dispatch_write_ok:
  "ble_dispatch T (WriteCb True c) w = Some (w\<lparr>exit_status := EXIT_SUCCESS, epoll_terminate := True\<rparr>)"
  by (simp add: write_cb_def ble_defs)

lemma dispatch_awaited:
  "awaited_response (ble w) h v \<Longrightarrow>
     ble_dispatch T (NotifyCb h v) w = Some (w\<lparr>ble := store_response v (ble w), epoll_terminate := True\<rparr>)"
  by (auto simp: notify_cb_def ble_defs awaited_response_def)

lemma ble_mainloop_run_write:
  assumes "polls T (env w) (us @ [[WriteCb True c]]) e" "\<forall>b \<in> set us. \<forall>ev \<in> set b. stray (ble w) ev"
    and "\<not> stopped w"
  shows "ble_mainloop_run T w = Some (EXIT_SUCCESS, w\<lparr>exit_status := EXIT_SUCCESS, env := e\<rparr>)"
proof -
  let ?w = "w\<lparr>exit_status := EXIT_SUCCESS\<rparr>"
  from assms(1) obtain e1 where e1: "polls T (env w) us e1" "poll_events T e1 = Some ([WriteCb True c], e)"
    by (auto simp: polls_append)
  have "ble_loop T ?w = ble_loop T (?w\<lparr>env := e1\<rparr>)"
    using ble_loop_strays [of T ?w us e1] e1(1) assms(2,3) by (simp add: stopped_def)
  also have "\<dots> = Option.bind (deliver T [WriteCb True c] (?w\<lparr>env := e1, env := e\<rparr>)) (ble_loop T)"
    using assms(3) e1(2) by (subst ble_loop_step) (auto simp: stopped_def)
  also have "\<dots> = Some (?w\<lparr>env := e, exit_status := EXIT_SUCCESS, epoll_terminate := True\<rparr>)"
    by (simp add: deliver_def dispatch_write_ok ble_loop_stopped stopped_def del: ble_dispatch.simps)
  finally show ?thesis using assms(3) by (simp add: ble_mainloop_run_eq stopped_def)
qed

lemma ble_mainloop_run_notify:
  assumes "polls T (env w) (us @ [[NotifyCb h v]]) e" "\<forall>b \<in> set us. \<forall>ev \<in> set b. stray (ble w) ev"
    and "\<not> stopped w" "awaited_response (ble w) h v"
  shows "ble_mainloop_run T w =
    Some (EXIT_SUCCESS, w\<lparr>exit_status := EXIT_SUCCESS, ble := store_response v (ble w), env := e\<rparr>)"
proof -
  let ?w = "w\<lparr>exit_status := EXIT_SUCCESS\<rparr>"
  from assms(1) obtain e1 where e1: "polls T (env w) us e1" "poll_events T e1 = Some ([NotifyCb h v], e)"
    by (auto simp: polls_append)
  have "ble_loop T ?w = ble_loop T (?w\<lparr>env := e1\<rparr>)"
    using ble_loop_strays [of T ?w us e1] e1(1) assms(2,3) by (simp add: stopped_def)
  also have "\<dots> = Option.bind (deliver T [NotifyCb h v] (?w\<lparr>env := e1, env := e\<rparr>)) (ble_loop T)"
    using assms(3) e1(2) by (subst ble_loop_step) (auto simp: stopped_def)
  also have "\<dots> = Some (?w\<lparr>env := e, ble := store_response v (ble w), epoll_terminate := True\<rparr>)"
    using assms(4) by (simp add: deliver_def dispatch_awaited ble_loop_stopped stopped_def del: ble_dispatch.simps)
  finally show ?thesis using assms(3) by (simp add: ble_mainloop_run_eq stopped_def)
qed

section \<open>One request and its response\<close>

text \<open>Events that are not the response to opcode \<open>op\<close> on the control point.\<close>

definition response_for :: "byte \<Rightarrow> bytes \<Rightarrow> bool" where
  "response_for op v \<longleftrightarrow> length v \<ge> 3 \<and> v ! 0 = OP_CODE_RESPONSE_CODE \<and> v ! 1 = op"

definition irrelevant :: "u16 \<Rightarrow> byte \<Rightarrow> ble_event \<Rightarrow> bool" where
  "irrelevant cp op ev \<longleftrightarrow> (\<exists>h v. ev = NotifyCb h v \<and> \<not> (h = cp \<and> response_for op v))"

lemma awaited_response_iff:
  "notify_waiting_for_op b = int (unat op) \<Longrightarrow>
     awaited_response b h v \<longleftrightarrow> h = cp_handle b \<and> response_for op v"
  by (auto simp: awaited_response_def response_for_def word_uint_eq_iff)

lemma irrelevant_stray:
  "notify_waiting_for_op b = int (unat op) \<Longrightarrow> irrelevant (cp_handle b) op ev \<Longrightarrow> stray b ev"
  by (auto simp: irrelevant_def stray_def awaited_response_iff)

lemma store_response_simps [simp]:
  "cp_handle (store_response v b) = cp_handle b"
  "data_handle (store_response v b) = data_handle b"
  "mtu (store_response v b) = mtu b"
  "notify_waiting_for_op (store_response v b) = notify_waiting_for_op b"
  "notify_code (store_response v b) = int (unat (v ! 2))"
  by (simp_all add: store_response_def Let_def)

text \<open>The state after a request that was answered with \<open>v\<close>.\<close>

definition answered :: "byte \<Rightarrow> bytes \<Rightarrow> bytes \<Rightarrow> 'e \<Rightarrow> 'e world \<Rightarrow> 'e world" where
  "answered op buf v e w = w\<lparr>exit_status := EXIT_SUCCESS,
     ble := store_response v (ble w)\<lparr>notify_waiting_for_op := -1\<rparr>,
     trace := trace w @ [WriteReq (cp_handle (ble w)) buf], env := e\<rparr>"

lemma answered_simps [simp]:
  "env (answered op buf v e w) = e"
  "trace (answered op buf v e w) = trace w @ [WriteReq (cp_handle (ble w)) buf]"
  "dont_resume (answered op buf v e w) = dont_resume w"
  "stopped (answered op buf v e w) = stopped w"
  "cp_handle (ble (answered op buf v e w)) = cp_handle (ble w)"
  "data_handle (ble (answered op buf v e w)) = data_handle (ble w)"
  "mtu (ble (answered op buf v e w)) = mtu (ble w)"
  "notify_code (ble (answered op buf v e w)) = int (unat (v ! 2))"
  by (simp_all add: answered_def stopped_def)

text \<open>What \<open>store_response\<close> records does not depend on the codes the wait was set up with.\<close>

lemma store_response_setup:
  "(store_response v (b\<lparr>notify_waiting_for_op := n, notify_code := c, extended_notify_code := x\<rparr>))
     \<lparr>notify_waiting_for_op := m\<rparr> = store_response v b\<lparr>notify_waiting_for_op := m\<rparr>"
  by (simp add: store_response_def Let_def)

lemma cp_request_answered:
  assumes start: "write_value T (cp_handle (ble w)) buf (env w) = (rid, [], e0)" "rid \<noteq> 0"
    and small: "length buf < 2 ^ 16" and run: "\<not> stopped w" and resp: "response_for op v"
    and order: "(x = WriteCb True c \<and> y = NotifyCb (cp_handle (ble w)) v) \<or>
                (x = NotifyCb (cp_handle (ble w)) v \<and> y = WriteCb True c)"
    and polls: "polls T e0 (us @ [[x]] @ vs @ [[y]]) e"
    and noise: "\<forall>b \<in> set us \<union> set vs. \<forall>ev \<in> set b. irrelevant (cp_handle (ble w)) op ev"
  shows "cp_request T op buf w = Some (int (unat (v ! 2)), answered op buf v e w)"
proof -
  define w1 where "w1 = emit (WriteReq (cp_handle (ble w)) buf) ((ble_wait_setup w op)\<lparr>env := e0\<rparr>)"
  have w1 [simp]: "env w1 = e0" "cp_handle (ble w1) = cp_handle (ble w)"
    "notify_waiting_for_op (ble w1) = int (unat op)" "\<not> stopped w1"
    using run by (simp_all add: w1_def ble_wait_setup_def ble_defs stopped_def)
  have sent: "ble_send_cp T (ble_wait_setup w op) buf = ble_mainloop_run T w1"
    using start small
    by (simp add: ble_send_cp_def start_write_def gatt_payload_arg_def ble_wait_setup_def ble_defs
        deliver_def w1_def)
  have strays: "\<forall>b \<in> set us. \<forall>ev \<in> set b. stray bl ev" "\<forall>b \<in> set vs. \<forall>ev \<in> set b. stray bl ev"
    if "notify_waiting_for_op bl = int (unat op)" "cp_handle bl = cp_handle (ble w)" for bl
    using noise irrelevant_stray [OF that(1)] that(2) by auto
  from polls obtain e1 where e1: "polls T (env w1) (us @ [[x]]) e1" "polls T e1 (vs @ [[y]]) e"
    by (auto simp: polls_append)
  have aw: "awaited_response bl (cp_handle (ble w)) v"
    if "notify_waiting_for_op bl = int (unat op)" "cp_handle bl = cp_handle (ble w)" for bl
    using resp that by (simp add: awaited_response_iff [OF that(1)])
  have final: "answered op buf v e w =
      (upd_ble (\<lambda>b. b\<lparr>notify_waiting_for_op := -1\<rparr>)
        (w1\<lparr>exit_status := EXIT_SUCCESS, ble := store_response v (ble w1), env := e\<rparr>))"
    by (simp add: answered_def w1_def ble_wait_setup_def ble_defs store_response_setup)
  show ?thesis
  proof (cases "x = WriteCb True c")
    case True
    with order have y: "y = NotifyCb (cp_handle (ble w)) v" by auto
    let ?w2 = "w1\<lparr>exit_status := EXIT_SUCCESS, env := e1\<rparr>"
    have "ble_mainloop_run T w1 = Some (EXIT_SUCCESS, ?w2)"
      using ble_mainloop_run_write [of T w1 us c e1] e1(1) True strays [of "ble w1"] by simp
    moreover have "ble_mainloop_run T ?w2 = Some (EXIT_SUCCESS,
        w1\<lparr>exit_status := EXIT_SUCCESS, ble := store_response v (ble w1), env := e\<rparr>)"
      using ble_mainloop_run_notify [of T ?w2 vs "cp_handle (ble w)" v e] e1(2) y strays [of "ble w1"]
        aw [of "ble w1"] w1(4) by (simp add: stopped_def)
    ultimately show ?thesis
      by (simp add: cp_request_def sent ble_wait_run_def final) (simp add: ble_defs)
  next
    case False
    with order have xy: "x = NotifyCb (cp_handle (ble w)) v" "y = WriteCb True c" by auto
    let ?w2 = "w1\<lparr>exit_status := EXIT_SUCCESS, ble := store_response v (ble w1), env := e1\<rparr>"
    have "ble_mainloop_run T w1 = Some (EXIT_SUCCESS, ?w2)"
      using ble_mainloop_run_notify [of T w1 us "cp_handle (ble w)" v e1] e1(1) xy strays [of "ble w1"]
        aw [of "ble w1"] by simp
    moreover have "ble_mainloop_run T ?w2 = Some (EXIT_SUCCESS,
        w1\<lparr>exit_status := EXIT_SUCCESS, ble := store_response v (ble w1), env := e\<rparr>)"
      using ble_mainloop_run_write [of T ?w2 vs c e] e1(2) xy strays [of "store_response v (ble w1)"]
        w1(4) by (simp add: stopped_def)
    ultimately show ?thesis
      by (simp add: cp_request_def sent ble_wait_run_def final) (simp add: ble_defs)
  qed
qed

text \<open>After a fatal error no request can be answered any more.\<close>

lemma cp_request_fatal:
  assumes "fatal_error w" "\<And>h v e. fst (snd (write_value T h v e)) = []"
  shows "\<exists>w'. cp_request T op buf w = Some (-1, w') \<and> fatal_error w' \<and>
    dont_resume w' = dont_resume w"
proof -
  obtain rid e where start: "write_value T (cp_handle (ble w)) (gatt_payload_arg buf) (env w) = (rid, [], e)"
    using assms(2) by (metis prod.collapse)
  have st: "cp_handle (ble (ble_wait_setup w op)) = cp_handle (ble w)" "env (ble_wait_setup w op) = env w"
    by (simp_all add: ble_wait_setup_def ble_defs)
  have code: "notify_code (ble (ble_wait_setup w op)) = -1" "fatal_error (ble_wait_setup w op)"
    "dont_resume (ble_wait_setup w op) = dont_resume w"
    using assms(1) by (simp_all add: ble_wait_setup_def ble_defs)
  then show ?thesis
    by (auto simp: cp_request_def ble_send_cp_def start_write_def st start deliver_def emit_def
        ble_wait_run_def ble_mainloop_run_fatal upd_ble_def)
qed

section \<open>Discovery of the DFU service\<close>

lemma ble_uuids:
  "fota_uuid = BT_UUID16 0xFE59" "cccd_uuid = BT_UUID16 0x2902"
  "cp_uuid = BT_UUID128 [0x8E,0xC9,0,1,0xF3,0x15,0x4F,0x60,0x9F,0xB8,0x83,0x88,0x30,0xDA,0xEA,0x50]"
  "data_uuid = BT_UUID128 [0x8E,0xC9,0,2,0xF3,0x15,0x4F,0x60,0x9F,0xB8,0x83,0x88,0x30,0xDA,0xEA,0x50]"
  "btnless_uuid = BT_UUID128 [0x8E,0xC9,0,3,0xF3,0x15,0x4F,0x60,0x9F,0xB8,0x83,0x88,0x30,0xDA,0xEA,0x50]"
  "expbtnl_uuid = BT_UUID128 [0x8E,0x40,0,1,0xF3,0x15,0x4F,0x60,0x9F,0xB8,0x83,0x88,0x30,0xDA,0xEA,0x50]"
  by code_simp+

lemma uuid_table:
  "uuid_differs fota_uuid fota_uuid = Some False" "uuid_differs fota_uuid expbtnl_uuid = Some True"
  "uuid_differs data_uuid data_uuid = Some False" "uuid_differs cp_uuid data_uuid = Some True"
  "uuid_differs cp_uuid cp_uuid = Some False" "uuid_differs data_uuid cp_uuid = Some True"
  "is_btnless cp_uuid = Some False" "is_btnless data_uuid = Some False"
  "uuid_differs cccd_uuid cccd_uuid = Some False" 
  "uuid_differs characteristic_uuid characteristic_uuid = Some False"
  "uuid_differs characteristic_uuid primary_service_uuid = Some True"
  "uuid_differs characteristic_uuid data_uuid = Some True" "uuid_differs characteristic_uuid cp_uuid = Some True"
  "uuid_differs characteristic_uuid cccd_uuid = Some True" "uuid_differs included_service_uuid cccd_uuid = Some True"
  "uuid_differs primary_service_uuid secondary_service_uuid = Some True"
  by (simp_all add: ble_uuids is_btnless_def) code_simp+


text \<open>The DFU service as a bootloader declares it, from handle \<open>h\<close> on: the data characteristic, the
  control point and its configuration descriptor. Every other service is one the scan passes over.\<close>

definition dfu_attributes :: "u16 \<Rightarrow> gatt_db_attribute list" where
  "dfu_attributes h =
     [(new_attribute primary_service_uuid (put_le16 0xFE59))\<lparr>at_handle := h\<rparr>,
      (new_attribute characteristic_uuid ([0x04] @ put_le16 (h + 2) @ rev (expand data_uuid)))\<lparr>at_handle := h + 1\<rparr>,
      (new_attribute data_uuid [])\<lparr>at_handle := h + 2\<rparr>,
      (new_attribute characteristic_uuid ([0x18] @ put_le16 (h + 4) @ rev (expand cp_uuid)))\<lparr>at_handle := h + 3\<rparr>,
      (new_attribute cp_uuid [])\<lparr>at_handle := h + 4\<rparr>,
      (new_attribute cccd_uuid [])\<lparr>at_handle := h + 5\<rparr>]"

definition dfu_service :: "nat \<Rightarrow> u16 \<Rightarrow> gatt_db_service" where
  "dfu_service s h = \<lparr>sv_id = s, sv_active = True, sv_claimed = False, sv_num_handles = 6,
     sv_attributes = map Some (dfu_attributes h)\<rparr>"

definition passed_over :: "gatt_db_service \<Rightarrow> bool" where
  "passed_over sv \<longleftrightarrow> get_handle_at_index sv 0 \<noteq> None \<and>
     (\<exists>u. service_uuid sv = Some (Some u) \<and> uuid_differs u fota_uuid = Some True \<and>
        uuid_differs u expbtnl_uuid = Some True)"

lemma walk_append: "walk f (xs @ ys) acc = Option.bind (walk f xs acc) (walk f ys)"
  by (induction xs arbitrary: acc) (auto simp: bind_assoc split: Option.bind_splits)

lemma walk_skip: "\<forall>x \<in> set xs. f x acc = Some acc \<Longrightarrow> walk f xs acc = Some acc"
  by (induction xs) auto

lemma passed_over_skip:
  "passed_over sv \<Longrightarrow> u = fota_uuid \<or> u = expbtnl_uuid \<Longrightarrow>
     foreach_service_in_range s e (Some u) f sv acc = Some acc"
  by (auto simp: passed_over_def foreach_service_in_range_def)

lemma put_le16_nonempty: "put_le16 v \<noteq> []"
  by (simp add: put_le16_def)

lemma dfu_service_facts:
  "sv_id (dfu_service s h) = s"
  "service_uuid (dfu_service s h) = Some (Some fota_uuid)"
  "gatt_db_service_get_handles (dfu_service s h) = Some (h, h + 5)"
  "get_handle_at_index (dfu_service s h) 0 = Some h"
  "indices_from 0 (dfu_service s h) = [0, 1, 2, 3, 4, 5]"
  by (simp_all add: dfu_service_def dfu_attributes_def service_uuid_def attr_at_def new_attribute_def codec_simps
      gatt_db_service_get_handles_def get_handle_at_index_def bt_uuid16_create_def ble_uuids(1) indices_from_def
      upt_rec put_le16_nonempty)

lemma dfu_service_attrs:
  "sv_attributes (dfu_service s h) = map Some (dfu_attributes h)"
  "length (dfu_attributes h) = 6"
  by (simp_all add: dfu_service_def dfu_attributes_def)

lemma dfu_char_data:
  "char_data (dfu_attributes h ! 1) = Some (Some (h + 1, h + 2, 0x04, Some data_uuid))"
  "char_data (dfu_attributes h ! 3) = Some (Some (h + 3, h + 4, 0x18, Some cp_uuid))"
proof -
  have u: "uuid_to_le (BT_UUID128 d) = Some (rev d)" "le_to_uuid (rev d) = Some (Some (BT_UUID128 d))" if "length d = 16" for d
    using that by (simp_all add: uuid_to_le_def bswap_128_def le_to_uuid_def bt_uuid128_create_def)
  have d: "data_uuid = BT_UUID128 (expand data_uuid)" "cp_uuid = BT_UUID128 (expand cp_uuid)"
    "length (expand data_uuid) = 16" "length (expand cp_uuid) = 16" by (simp_all add: ble_uuids)
  show "char_data (dfu_attributes h ! 1) = Some (Some (h + 1, h + 2, 0x04, Some data_uuid))"
    using char_data_declaration [OF u(1) [OF d(3)] _ u(2) [OF d(3)], where p = "0x04" and vh = "h + 2" and dh = "h + 1"] d
    by (simp add: dfu_attributes_def)
  show "char_data (dfu_attributes h ! 3) = Some (Some (h + 3, h + 4, 0x18, Some cp_uuid))"
    using char_data_declaration [OF u(1) [OF d(4)] _ u(2) [OF d(4)], where p = "0x18" and vh = "h + 4" and dh = "h + 3"] d
    by (simp add: dfu_attributes_def)
qed


lemma dfu_attr_uuids:
  "map at_uuid (dfu_attributes h) =
     [primary_service_uuid, characteristic_uuid, data_uuid, characteristic_uuid, cp_uuid, cccd_uuid]"
  "map at_handle (dfu_attributes h) = [h, h + 1, h + 2, h + 3, h + 4, h + 5]"
  by (simp_all add: dfu_attributes_def new_attribute_def)

lemma scan_dfu_service:
  assumes "get_service db s = Some (dfu_service s h)"
  shows "scan_service db (s, 0) b =
    Some (b\<lparr>data_handle := h + 2, cp_handle := h + 4, cccd_handle := h + 5\<rparr>)"
proof -
  have at: "get_attr db (s, i) = Some (dfu_attributes h ! i)" if "i < 6" for i
    using that assms by (simp add: get_attr_def attr_at_def dfu_service_attrs)
  have uu: "at_uuid (dfu_attributes h ! i) = [primary_service_uuid, characteristic_uuid, data_uuid, characteristic_uuid, cp_uuid, cccd_uuid] ! i"
    and hh: "at_handle (dfu_attributes h ! i) = [h, h + 1, h + 2, h + 3, h + 4, h + 5] ! i" if "i < 6" for i
    using that dfu_attr_uuids [of h] by (metis nth_map dfu_service_attrs(2))+
  have data: "gatt_db_attribute_get_service_data db (Some (s, 0)) = Some (Some (h, h + 5, True, Some fota_uuid))"
    using assms
    by (simp add: gatt_db_attribute_get_service_data_def dfu_service_facts attr_at_def dfu_service_attrs)
      (simp add: dfu_attributes_def new_attribute_def uuid_table codec_simps put_le16_nonempty le_to_uuid_def
        bt_uuid16_create_def ble_uuids(1))
  have desc: "scan_desc db (s, 5) b = Some (b\<lparr>cccd_handle := h + 5\<rparr>)" for b
    by (simp add: scan_desc_def gatt_db_attribute_get_handle_def gatt_db_attribute_get_type_def at uu hh uuid_table)
  have c1: "scan_chrc db (s, 1) b = Some (b\<lparr>data_handle := h + 2\<rparr>)" for b
    by (simp add: scan_chrc_def gatt_db_attribute_get_char_data_def at dfu_char_data(1) [simplified] uuid_table)
  have descs: "gatt_db_service_foreach_desc db (Some (s, 3)) (scan_desc db) b = Some (b\<lparr>cccd_handle := h + 5\<rparr>)" for b
    using assms
    by (simp add: gatt_db_service_foreach_desc_def at uu hh uuid_table dfu_service_facts indices_from_def
        dfu_service_attrs) (simp add: dfu_service_def upt_rec uu uuid_table desc dfu_service_attrs(2))
  have c3: "scan_chrc db (s, 3) b = Some (b\<lparr>cp_handle := h + 4, cccd_handle := h + 5\<rparr>)" for b
    by (simp add: scan_chrc_def gatt_db_attribute_get_char_data_def at dfu_char_data(2) uuid_table descs)
  show ?thesis
    using assms
    by (simp add: scan_service_def data gatt_db_service_foreach_char_def gatt_db_service_foreach_def
        dfu_service_facts dfu_service_attrs uu uuid_table c1 [simplified] c3)
qed

lemma ready_cb_finds_dfu:
  assumes "db_services db = pre @ dfu_service s h # post" "\<forall>sv \<in> set pre \<union> set post. passed_over sv \<and> sv_id sv \<noteq> s"
    and "db_of (env w) = db" "0 < h" "h \<le> 0xfffa"
  shows "ready_cb db_of True e w = Some (mainloop_exit_success
    (w\<lparr>ble := (ble w)\<lparr>data_handle := h + 2, cp_handle := h + 4, cccd_handle := h + 5\<rparr>\<rparr>))"
proof -
  have get: "get_service db s = Some (dfu_service s h)"
  proof -
    have "find (\<lambda>sv. sv_id sv = s) (xs @ dfu_service s h # ys) = Some (dfu_service s h)"
      if "\<forall>sv \<in> set xs. sv_id sv \<noteq> s" for xs ys
      using that by (induction xs) (auto simp: dfu_service_facts)
    then show ?thesis using assms(1,2) by (simp add: get_service_def)
  qed
  have fota: "foreach_service_in_range 1 0xffff (Some fota_uuid) (scan_service db) (dfu_service s h) b =
      Some (b\<lparr>data_handle := h + 2, cp_handle := h + 4, cccd_handle := h + 5\<rparr>)" for b
  proof -
    have "\<not> 0xffff < h"
      using assms(5) by (simp add: word_less_nat_alt word_le_nat_alt)
    moreover have "\<not> h < 1" using assms(4) by (simp add: word_less_nat_alt)
    ultimately show ?thesis
      using scan_dfu_service [OF get] by (simp add: foreach_service_in_range_def dfu_service_facts uuid_table)
  qed
  have exp: "foreach_service_in_range 1 0xffff (Some expbtnl_uuid) (scan_service db) (dfu_service s h) b = Some b" for b
    by (simp add: foreach_service_in_range_def dfu_service_facts uuid_table)
  have skip: "walk (foreach_service_in_range 1 0xffff (Some u) f) pre b = Some b"
      "walk (foreach_service_in_range 1 0xffff (Some u) f) post b = Some b"
    if "u = fota_uuid \<or> u = expbtnl_uuid" for u f b
    using that assms(2) by (auto intro!: walk_skip passed_over_skip)
  have "gatt_db_foreach_service db (Some fota_uuid) (scan_service db) b =
      Some (b\<lparr>data_handle := h + 2, cp_handle := h + 4, cccd_handle := h + 5\<rparr>)" for b
    unfolding gatt_db_foreach_service_def gatt_db_foreach_service_in_range_def assms(1) walk_append
    by (simp add: skip fota)
  moreover have "gatt_db_foreach_service db (Some expbtnl_uuid) (scan_service db) b = Some b" for b
    unfolding gatt_db_foreach_service_def gatt_db_foreach_service_in_range_def assms(1) walk_append
    by (simp add: skip exp)
  ultimately have "scan_database db b = Some (b\<lparr>data_handle := h + 2, cp_handle := h + 4, cccd_handle := h + 5\<rparr>)" for b
    by (simp add: scan_database_def)
  moreover have "h + 5 \<noteq> 0" "h + 4 \<noteq> 0" "h + 2 \<noteq> 0"
    using assms(5) by (auto simp: eq_neg_iff_add_eq_0 [symmetric] word_le_nat_alt)
  ultimately show ?thesis using assms(3) by (simp add: ready_cb_def Let_def)
qed


text \<open>C34 Discovery of a peripheral that offers the DFU service records the handles of the data
  characteristic, of the control point and of its configuration descriptor, whatever other
  services it has, and reports success.\<close>

theorem discovery_finds_dfu_handles:
  assumes "db_services db = pre @ dfu_service s h # post" "\<forall>sv \<in> set pre \<union> set post. passed_over sv \<and> sv_id sv \<noteq> s"
    and "db_of (env w) = db" "0 < h" "h \<le> 0xfffa"
  shows "ready_cb db_of True e w = Some (mainloop_exit_success
    (w\<lparr>ble := (ble w)\<lparr>data_handle := h + 2, cp_handle := h + 4, cccd_handle := h + 5\<rparr>\<rparr>))"
  using assms by (rule ready_cb_finds_dfu)

text \<open>A generic access service in front of the DFU service, as a real peripheral has.\<close>

definition gap_service :: gatt_db_service where
  "gap_service = \<lparr>sv_id = 0, sv_active = True, sv_claimed = False, sv_num_handles = 1,
     sv_attributes = [Some ((new_attribute primary_service_uuid (put_le16 0x1800))\<lparr>at_handle := 1\<rparr>)]\<rparr>"

lemma gap_service_passed_over: "passed_over gap_service"
proof -
  have "uuid_differs (BT_UUID16 0x1800) fota_uuid = Some True \<and> uuid_differs (BT_UUID16 0x1800) expbtnl_uuid = Some True"
    by code_simp
  moreover have "service_uuid gap_service = Some (Some (BT_UUID16 0x1800))"
    by (simp add: gap_service_def new_attribute_def attr_at_def service_uuid_def codec_simps bt_uuid16_create_def put_le16_nonempty)
  moreover have "get_handle_at_index gap_service 0 = Some 1"
    by (simp add: gap_service_def new_attribute_def attr_at_def get_handle_at_index_def)
  ultimately show ?thesis
    by (auto simp: passed_over_def)
qed

theorem discovery_finds_dfu_handles_witness:
  "\<forall>w :: unit world. ready_cb (\<lambda>_. gatt_db_new\<lparr>db_services := [gap_service, dfu_service 1 0x0b]\<rparr>) True 0 w =
     Some (mainloop_exit_success
       (w\<lparr>ble := (ble w)\<lparr>data_handle := 0x0d, cp_handle := 0x0f, cccd_handle := 0x10\<rparr>\<rparr>))"
proof -
  have "passed_over gap_service" by (rule gap_service_passed_over)
  moreover have "sv_id gap_service \<noteq> 1"
    by (simp add: gap_service_def)
  ultimately show ?thesis
    using discovery_finds_dfu_handles [where db = "gatt_db_new\<lparr>db_services := [gap_service, dfu_service 1 0x0b]\<rparr>"
        and pre = "[gap_service]" and post = "[]" and s = 1 and h = "0x0b"
        and db_of = "\<lambda>_ :: unit. gatt_db_new\<lparr>db_services := [gap_service, dfu_service 1 0x0b]\<rparr>"]
    by simp
qed

end
