(* ===== verification/Crc32.thy ===== *)
theory Crc32
  imports Nrf_Prelude
begin

text \<open>
  \<^verbatim>\<open>crc32.c\<close>: the bitwise CRC-32 of the DFU protocol. \<open>crc32_compute\<close> is the C function with its
  two loops; a read past the end of the buffer is the value \<open>None\<close>. The lemmas show when it stays in
  the buffer, that it may be fed block by block as \<^verbatim>\<open>crc32.h\<close> promises, and that it detects every
  corruption confined to four consecutive bytes.
\<close>

section \<open>The code\<close>

definition crc32_poly :: u32 where
  "crc32_poly = 0xEDB88320"

definition crc32_bit_step :: "u32 \<Rightarrow> u32" where
  "crc32_bit_step crc =
     drop_bit 1 crc XOR (crc32_poly AND (if crc AND 1 \<noteq> 0 then 0xFFFFFFFF else 0))"

text \<open>The inner loop, \<open>j\<close> counting down to 0.\<close>

fun crc32_bits :: "nat \<Rightarrow> u32 \<Rightarrow> u32" where
  "crc32_bits 0 crc = crc"
| "crc32_bits (Suc j) crc = crc32_bits j (crc32_bit_step crc)"

text \<open>The outer loop: \<open>i\<close> runs up to \<open>sz\<close>, reading \<open>p_data[i]\<close>.\<close>

function crc32_loop :: "bytes \<Rightarrow> nat \<Rightarrow> nat \<Rightarrow> u32 \<Rightarrow> u32 option" where
  "crc32_loop p_data sz i crc =
     (if i < sz
      then (case array_get p_data i of
              None \<Rightarrow> None
            | Some b \<Rightarrow> crc32_loop p_data sz (Suc i) (crc32_bits 8 (crc XOR ucast b)))
      else Some crc)"
  by pat_completeness auto
termination
  by (relation "measure (\<lambda>(p_data, sz, i, crc). sz - i)") auto

declare crc32_loop.simps [simp del]

definition crc32_compute :: "bytes \<Rightarrow> u32 \<Rightarrow> u32 option \<Rightarrow> u32 option" where
  "crc32_compute p_data sz p_crc =
     map_option (\<lambda>crc. NOT crc)
       (crc32_loop p_data (unat sz) 0
          (case p_crc of None \<Rightarrow> 0xFFFFFFFF | Some c \<Rightarrow> NOT c))"

section \<open>The byte-wise reading\<close>

fun crc32_bytes :: "bytes \<Rightarrow> u32 \<Rightarrow> u32" where
  "crc32_bytes [] crc = crc"
| "crc32_bytes (b # bs) crc = crc32_bytes bs (crc32_bits 8 (crc XOR ucast b))"

lemma crc32_bytes_append: "crc32_bytes (xs @ ys) crc = crc32_bytes ys (crc32_bytes xs crc)"
  by (induction xs arbitrary: crc) auto

lemma crc32_loop_eq:
  "i \<le> sz \<Longrightarrow> crc32_loop p_data sz i crc =
     (if sz \<le> length p_data \<or> i = sz
      then Some (crc32_bytes (take (sz - i) (drop i p_data)) crc) else None)"
proof (induction p_data sz i crc rule: crc32_loop.induct)
  case (1 p_data sz i crc)
  show ?case
  proof (cases "i < sz")
    case False
    with "1.prems" show ?thesis by (simp add: crc32_loop.simps)
  next
    case less: True
    show ?thesis
    proof (cases "i < length p_data")
      case False
      with less show ?thesis by (auto simp: crc32_loop.simps [of p_data sz i] array_get_simps)
    next
      case True
      with less have "take (sz - i) (drop i p_data) = p_data ! i # take (sz - Suc i) (drop (Suc i) p_data)"
        by (simp add: Cons_nth_drop_Suc [symmetric] take_Cons')
      then show ?thesis
        using less True "1.IH" [OF less] by (auto simp: crc32_loop.simps [of p_data sz i])
    qed
  qed
qed

definition crc32_start :: "u32 option \<Rightarrow> u32" where
  "crc32_start p_crc = (case p_crc of None \<Rightarrow> 0xFFFFFFFF | Some c \<Rightarrow> NOT c)"

lemma crc32_compute_eq:
  "crc32_compute p_data sz p_crc =
     (if unat sz \<le> length p_data
      then Some (NOT (crc32_bytes (take (unat sz) p_data) (crc32_start p_crc))) else None)"
  by (cases "unat sz = 0") (simp_all add: crc32_compute_def crc32_start_def crc32_loop_eq)

section \<open>The step is linear and one to one\<close>

lemma lsb_bit0: "(crc :: u32) AND 1 \<noteq> 0 \<longleftrightarrow> bit crc 0"
  by (simp add: and_one_eq odd_iff_mod_2_eq_one bit_0)

lemma crc32_bit_step_if:
  "crc32_bit_step crc = drop_bit 1 crc XOR (if bit crc 0 then crc32_poly else 0)"
  by (simp add: crc32_bit_step_def lsb_bit0 crc32_poly_def)

lemma crc32_bit_step_xor:
  "crc32_bit_step (x XOR y) = crc32_bit_step x XOR crc32_bit_step y"
  by (rule bit_word_eqI) (auto simp: crc32_bit_step_if bit_simps)

lemma crc32_bits_xor: "crc32_bits n (x XOR y) = crc32_bits n x XOR crc32_bits n y"
  by (induction n arbitrary: x y) (auto simp: crc32_bit_step_xor)

lemma crc32_poly_msb: "bit crc32_poly 31"
  by (simp add: crc32_poly_def bit_simps)

lemma crc32_bit_step_zero: "crc32_bit_step crc = 0 \<Longrightarrow> crc = 0"
proof -
  assume zero: "crc32_bit_step crc = 0"
  have even: "\<not> bit crc 0"
  proof
    assume odd: "bit crc 0"
    have "bit (crc32_bit_step crc) 31"
      using odd crc32_poly_msb
      by (auto simp: crc32_bit_step_if bit_simps dest: bit_imp_le_length)
    with zero show False by simp
  qed
  with zero have drop: "drop_bit 1 crc = 0" by (simp add: crc32_bit_step_if)
  show "crc = 0"
  proof (rule bit_word_eqI)
    fix n assume "n < LENGTH(32)"
    show "bit crc n = bit (0 :: u32) n"
    proof (cases n)
      case 0
      with even show ?thesis by simp
    next
      case (Suc m)
      have "bit (drop_bit 1 crc) m = bit crc n" using Suc by (simp add: bit_simps)
      with drop show ?thesis by simp
    qed
  qed
qed

lemma crc32_bit_step_inject: "crc32_bit_step x = crc32_bit_step y \<longleftrightarrow> x = y"
proof
  assume "crc32_bit_step x = crc32_bit_step y"
  then have "crc32_bit_step (x XOR y) = 0" by (simp add: crc32_bit_step_xor)
  then have "x XOR y = 0" by (rule crc32_bit_step_zero)
  moreover have "x = (x XOR y) XOR y" by (simp add: xor.assoc)
  ultimately show "x = y" by simp
qed simp

lemma crc32_bits_inject: "crc32_bits n x = crc32_bits n y \<longleftrightarrow> x = y"
  by (induction n arbitrary: x y) (auto simp: crc32_bit_step_inject)

lemma xor_cancel_right: "(x XOR z) = (y XOR z) \<longleftrightarrow> x = (y :: u32)"
proof
  assume "x XOR z = y XOR z"
  moreover have "x = (x XOR z) XOR z" "y = (y XOR z) XOR z" by (simp_all add: xor.assoc)
  ultimately show "x = y" by simp
qed simp

lemma xor_cancel_left: "(z XOR x) = (z XOR y) \<longleftrightarrow> x = (y :: u32)"
  by (simp add: xor_cancel_right xor.commute [of z])

lemma crc32_bytes_inject_state: "crc32_bytes bs x = crc32_bytes bs y \<longleftrightarrow> x = y"
  by (induction bs arbitrary: x y) (auto simp: crc32_bits_inject xor_cancel_right)

section \<open>Short messages are injected into the register\<close>

fun le_join :: "bytes \<Rightarrow> u32" where
  "le_join [] = 0"
| "le_join (b # bs) = ucast b XOR push_bit 8 (le_join bs)"

lemma crc32_bits_even: "(\<forall>k < n. \<not> bit crc k) \<Longrightarrow> crc32_bits n crc = drop_bit n crc"
proof (induction n arbitrary: crc)
  case (Suc n)
  then have "crc32_bit_step crc = drop_bit 1 crc" by (auto simp: crc32_bit_step_if)
  moreover from Suc.prems have "\<forall>k < n. \<not> bit (drop_bit 1 crc) k" by (auto simp: bit_simps)
  then have "crc32_bits n (drop_bit 1 crc) = drop_bit n (drop_bit 1 crc)" by (rule Suc.IH)
  ultimately show ?case by (simp add: drop_bit_drop_bit)
qed simp

lemma le_join_high: "8 * length bs \<le> k \<Longrightarrow> \<not> bit (le_join bs) k"
proof (induction bs arbitrary: k)
  case (Cons b bs)
  then have "\<not> bit (le_join bs) (k - 8)" by simp
  with Cons.prems show ?case by (auto simp: bit_simps dest: bit_imp_le_length)
qed simp

lemma crc32_bits_push: "length bs \<le> 3 \<Longrightarrow> crc32_bits 8 (push_bit 8 (le_join bs)) = le_join bs"
proof -
  assume len: "length bs \<le> 3"
  have "crc32_bits 8 (push_bit 8 (le_join bs)) = drop_bit 8 (push_bit 8 (le_join bs))"
    by (rule crc32_bits_even) (simp add: bit_simps)
  also have "\<dots> = le_join bs"
  proof (rule bit_word_eqI)
    fix n assume "n < LENGTH(32)"
    show "bit (drop_bit 8 (push_bit 8 (le_join bs))) n = bit (le_join bs) n"
      using le_join_high [of bs n] len \<open>n < LENGTH(32)\<close> by (cases "n < 24") (auto simp: bit_simps)
  qed
  finally show ?thesis .
qed

lemma crc32_bits_add: "crc32_bits (m + n) crc = crc32_bits n (crc32_bits m crc)"
  by (induction m arbitrary: crc) auto

lemma crc32_bytes_short:
  "length bs \<le> 4 \<Longrightarrow> crc32_bytes bs crc = crc32_bits (8 * length bs) (crc XOR le_join bs)"
proof (induction bs arbitrary: crc)
  case (Cons b bs)
  then have "crc32_bytes (b # bs) crc
      = crc32_bits (8 * length bs) (crc32_bits 8 (crc XOR ucast b) XOR le_join bs)"
    by simp
  also have "crc32_bits 8 (crc XOR ucast b) XOR le_join bs
      = crc32_bits 8 (crc XOR le_join (b # bs))"
    using Cons.prems crc32_bits_push [of bs] by (simp add: crc32_bits_xor xor.assoc)
  also have "crc32_bits (8 * length bs) (crc32_bits 8 (crc XOR le_join (b # bs)))
      = crc32_bits (8 * length (b # bs)) (crc XOR le_join (b # bs))"
    using crc32_bits_add [of 8 "8 * length bs"] by simp
  finally show ?case .
qed simp

lemma le_join_inject:
  "length xs = length ys \<Longrightarrow> length xs \<le> 4 \<Longrightarrow> le_join xs = le_join ys \<Longrightarrow> xs = ys"
proof (induction xs ys rule: list_induct2)
  case (Cons x xs y ys)
  have bits: "bit (le_join (x # xs)) n = bit (le_join (y # ys)) n" for n
    using Cons.prems by simp
  have "x = y"
  proof (rule bit_word_eqI)
    fix n assume "n < LENGTH(8)"
    then show "bit x n = bit y n" using bits [of n] by (simp add: bit_simps)
  qed
  moreover have "le_join xs = le_join ys"
  proof (rule bit_word_eqI)
    fix n assume n: "n < LENGTH(32)"
    show "bit (le_join xs) n = bit (le_join ys) n"
    proof (cases "n < 24")
      case True
      then show ?thesis using bits [of "8 + n"] \<open>x = y\<close> by (auto simp: bit_simps bit_byte_beyond)
    next
      case False
      then show ?thesis using le_join_high [of xs n] le_join_high [of ys n] Cons.prems Cons.hyps
        by simp
    qed
  qed
  ultimately show ?case using Cons by simp
qed simp

section \<open>Streaming checksums\<close>

text \<open>
  What a client of a checksum relies on: it can be resumed from a published value, and it tells
  apart messages that differ in a short burst.
\<close>

locale streaming_checksum =
  fixes step :: "bytes \<Rightarrow> 's \<Rightarrow> 's"
    and publish :: "'s \<Rightarrow> 'c"
    and resume :: "'c \<Rightarrow> 's"
  assumes step_append: "step (xs @ ys) s = step ys (step xs s)"
    and resume_publish: "resume (publish s) = s"
begin

lemma publish_inject: "publish s = publish t \<longleftrightarrow> s = t"
  by (metis resume_publish)

lemma blockwise: "publish (step (xs @ ys) s) = publish (step ys (resume (publish (step xs s))))"
  by (simp add: step_append resume_publish)

end

locale burst_checksum = streaming_checksum +
  fixes burst :: nat
  assumes step_state: "step xs s = step xs t \<Longrightarrow> s = t"
    and step_burst: "length xs = length ys \<Longrightarrow> length xs \<le> burst \<Longrightarrow> step xs s = step ys s \<Longrightarrow> xs = ys"
begin

lemma detects_burst:
  assumes "length xs = length ys" "length xs \<le> burst" "xs \<noteq> ys"
  shows "publish (step (pre @ xs @ post) s) \<noteq> publish (step (pre @ ys @ post) s)"
proof
  assume "publish (step (pre @ xs @ post) s) = publish (step (pre @ ys @ post) s)"
  then have "step post (step xs (step pre s)) = step post (step ys (step pre s))"
    by (simp add: publish_inject step_append)
  then have "step xs (step pre s) = step ys (step pre s)" by (rule step_state)
  with assms show False using step_burst by blast
qed

end

interpretation crc: burst_checksum crc32_bytes "\<lambda>crc. NOT crc" "\<lambda>c. NOT c" 4
proof
  show "crc32_bytes (xs @ ys) s = crc32_bytes ys (crc32_bytes xs s)" for xs ys s
    by (rule crc32_bytes_append)
  show "NOT (NOT s) = s" for s :: u32 by simp
  show "s = t" if "crc32_bytes xs s = crc32_bytes xs t" for xs s t
    using that by (simp add: crc32_bytes_inject_state)
  show "xs = ys" if "length xs = length ys" "length xs \<le> 4" "crc32_bytes xs s = crc32_bytes ys s"
    for xs ys s
    using that by (auto simp: crc32_bytes_short crc32_bits_inject xor_cancel_left intro: le_join_inject)
qed

section \<open>The checksum of a prefix, as the DFU code uses it\<close>

definition crc32_of :: "bytes \<Rightarrow> u32" where
  "crc32_of bs = NOT (crc32_bytes bs 0xFFFFFFFF)"

lemma crc32_compute_prefix:
  "crc32_compute p_data sz None =
     (if unat sz \<le> length p_data then Some (crc32_of (take (unat sz) p_data)) else None)"
  by (simp add: crc32_compute_eq crc32_of_def crc32_start_def)

section \<open>Properties\<close>

text \<open>The CRC may be computed block by block: feeding a block and then the next one with the
  value returned for the first gives the CRC of the concatenation, as \<^verbatim>\<open>crc32.h\<close> documents.\<close>

theorem crc32_blockwise:
  assumes "length xs + length ys < 2 ^ 32"
  shows "crc32_compute (xs @ ys) (word_of_nat (length xs + length ys)) p_crc =
    Option.bind (crc32_compute xs (word_of_nat (length xs)) p_crc)
      (\<lambda>c. crc32_compute ys (word_of_nat (length ys)) (Some c))"
proof -
  have "unat (word_of_nat (length xs + length ys) :: u32) = length xs + length ys"
    "unat (word_of_nat (length xs) :: u32) = length xs"
    "unat (word_of_nat (length ys) :: u32) = length ys"
    using assms by (simp_all add: unat_of_nat take_bit_nat_eq_self del: of_nat_add)
  then show ?thesis
    using crc.blockwise [of xs ys "crc32_start p_crc"]
    by (simp add: crc32_compute_eq crc32_start_def del: of_nat_add)
qed

theorem crc32_blockwise_witness:
  "length [0x31 :: byte, 0x32] + length [0x33 :: byte] < 2 ^ 32 \<and>
   crc32_compute ([0x31, 0x32] @ [0x33]) (word_of_nat (length [0x31 :: byte, 0x32] + length [0x33 :: byte])) None =
     Option.bind (crc32_compute [0x31, 0x32] (word_of_nat (length [0x31 :: byte, 0x32])) None)
       (\<lambda>c. crc32_compute [0x33] (word_of_nat (length [0x33 :: byte])) (Some c))"
proof
  show small: "length [0x31 :: byte, 0x32] + length [0x33 :: byte] < 2 ^ 32" by simp
  show "crc32_compute ([0x31, 0x32] @ [0x33]) (word_of_nat (length [0x31 :: byte, 0x32] + length [0x33 :: byte])) None =
     Option.bind (crc32_compute [0x31, 0x32] (word_of_nat (length [0x31 :: byte, 0x32])) None)
       (\<lambda>c. crc32_compute [0x33] (word_of_nat (length [0x33 :: byte])) (Some c))"
    using crc32_blockwise [OF small] .
qed

text \<open>C9 Any corruption confined to at most four consecutive bytes of a message changes its CRC.\<close>

theorem crc32_detects_burst:
  assumes "length xs = length ys" "length xs \<le> 4" "xs \<noteq> ys"
    and "length pre + length xs + length post < 2 ^ 32"
  shows "crc32_compute (pre @ xs @ post) (word_of_nat (length pre + length xs + length post)) p_crc
    \<noteq> crc32_compute (pre @ ys @ post) (word_of_nat (length pre + length xs + length post)) p_crc"
proof -
  have "unat (word_of_nat (length pre + length xs + length post) :: u32)
      = length pre + length xs + length post"
    using assms(4) by (simp add: unat_of_nat take_bit_nat_eq_self del: of_nat_add)
  then show ?thesis
    using crc.detects_burst [OF assms(1-3), of pre post "crc32_start p_crc"] assms(1)
    by (simp add: crc32_compute_eq del: of_nat_add)
qed

theorem crc32_detects_burst_witness:
  "crc32_compute ([7] @ [1, 2] @ [9]) (word_of_nat 4) None \<noteq> crc32_compute ([7] @ [3, 2] @ [9]) (word_of_nat 4) None"
  using crc32_detects_burst [of "[1, 2]" "[3, 2]" "[7]" "[9]" None] by simp

text \<open>A known value: the CRC-32 of the letter a.\<close>

lemma crc32_check_value: "crc32_compute [0x61] 1 None = Some 0xE8B7BE43"
  by code_simp

end
