(* ===== verification/Dfu.thy ===== *)
theory Dfu
  imports Ble Crc32
begin

text \<open>
  \<^verbatim>\<open>dfu.c\<close>: the transfer of one package (\<^verbatim>\<open>dfuSendPackage\<close>), cut into the phases of the C function:
  selecting the object, resuming an earlier transfer, creating an object, sending one block in
  chunks, checking the CRC the peripheral reports, and the outer loop over blocks.
\<close>

section \<open>Error descriptions\<close>

text \<open>The tables without their terminating entry, which is the description of every other code.\<close>

definition errorDescriptions :: "(int \<times> string) list" where
  "errorDescriptions =
     [(0x00, ''Invalid code: The provided opcode was missing or malformed.''),
      (0x01, ''Success: The operation completed successfully.''),
      (0x02, ''Opcode not supported: The provided opcode was invalid.''),
      (0x03, ''Invalid parameter: A parameter for the opcode was missing.''),
      (0x04, ''Insufficient resources: There was not enough memory for the data object.''),
      (0x05, ''Invalid object: The data object did not match the firmware and hardware requirements, the signature was missing, or parsing the command failed.''),
      (0x07, ''Unsupported type: The provided object type was not valid for a Create or Read operation.''),
      (0x08, ''Operation not permitted: The state of the DFU process did not allow this operation.''),
      (0x0A, ''Operation failed: The operation failed.''),
      (0x0B, ''Extended error.''),
      (-1, ''Unknown code: ???'')]"

definition extendedErrorDescriptions :: "(int \<times> string) list" where
  "extendedErrorDescriptions =
     [(0x00, ''No extended error code has been set. This error indicates an implementation problem.''),
      (0x01, ''Invalid error code. This error code should  never be used outside of development.''),
      (0x02, ''The format of the command was incorrect. This error code is not used in the current implementation''),
      (0x03, ''The command was successfully parsed, but it is not supported or unknown.''),
      (0x04, ''The init command is invalid. The init packet either has an invalid update type or it is missing required fields for the update type''),
      (0x05, ''The firmware version is too low.''),
      (0x06, ''The hardware version of the device does not match the required hardware version for the update.''),
      (0x07, ''The array of supported SoftDevices for the update does not contain the FWID of the current SoftDevice''),
      (0x08, ''The init packet does not contain a signature. This error code is not used in the current implementation, because init packets without a signature are regarded as invalid.''),
      (0x09, ''The hash type that is specified by the init packet is not supported by the DFU bootloader.''),
      (0x0A, ''The hash of the firmware image cannot be calculated.''),
      (0x0B, ''The type of the signature is unknown or not supported by the DFU bootloader.''),
      (0x0C, ''The hash of the received firmware image does not match the hash in the init packet.''),
      (0x0D, ''The available space on the device is insufficient to hold the firmware.''),
      (-1, ''Unknown extended code: ???'')]"

text \<open>The loop over a table; \<open>None\<close> is a run past its end.\<close>

fun describe :: "(int \<times> string) list \<Rightarrow> int \<Rightarrow> string option" where
  "describe [] c = None"
| "describe ((code, text) # rest) c = (if code \<noteq> -1 \<and> code \<noteq> c then describe rest c else Some text)"

text \<open>The one or two lines that are printed, each a description and the code.\<close>

definition dfuPrintHumanReadableError :: "'e world \<Rightarrow> (string \<times> int) list option" where
  "dfuPrintHumanReadableError w =
     (let (notifyCode, extendedNotifyCode) = ble_getNotifyCodes w in do {
        d \<leftarrow> describe errorDescriptions notifyCode;
        if notifyCode = 0x0B then do {
          x \<leftarrow> describe extendedErrorDescriptions extendedNotifyCode;
          Some [(d, notifyCode), (x, extendedNotifyCode)] }
        else Some [(d, notifyCode)] })"

section \<open>Codes and packets\<close>

definition BLE_DFU_RESP_VAL_SUCCESS :: int where "BLE_DFU_RESP_VAL_SUCCESS = 0x01"
definition BLE_DFU_RESP_VAL_OPPERATION_NOT_PERMITTED :: int where
  "BLE_DFU_RESP_VAL_OPPERATION_NOT_PERMITTED = 0x08"
definition BLE_DFU_RESP_VAL_OPPERATION_FAILED :: int where
  "BLE_DFU_RESP_VAL_OPPERATION_FAILED = 0x0A"

datatype obj_type = BLE_OBJ_TYPE_COMMAND | BLE_OBJ_TYPE_DATA

fun obj_type_code :: "obj_type \<Rightarrow> byte" where
  "obj_type_code BLE_OBJ_TYPE_COMMAND = 0x01"
| "obj_type_code BLE_OBJ_TYPE_DATA = 0x02"

definition MAX_DFU_PAYLOAD :: nat where
  "MAX_DFU_PAYLOAD = BT_ATT_MAX_LE_MTU - GATT_HEADER_LEN"

text \<open>\<^verbatim>\<open>GATT_PAYLOAD\<close> is computed as an \<^verbatim>\<open>int\<close> and assigned to a \<^verbatim>\<open>size_t\<close>.\<close>

definition gatt_payload :: "u16 \<Rightarrow> u64" where
  "gatt_payload m = word_of_int (int (unat m) - int GATT_HEADER_LEN)"

definition create_packet :: "obj_type \<Rightarrow> u32 \<Rightarrow> bytes" where
  "create_packet ty transfer_size =
     [OP_CODE_CREATE, obj_type_code ty,
      ucast (drop_bit 0 transfer_size AND 0xFF), ucast (drop_bit 8 transfer_size AND 0xFF),
      ucast (drop_bit 16 transfer_size AND 0xFF), ucast (drop_bit 24 transfer_size AND 0xFF)]"

text \<open>A 32-bit field of the last notification, least significant byte first.\<close>

definition notified_u32 :: "ble \<Rightarrow> nat \<Rightarrow> u32 option" where
  "notified_u32 b off = get_le32 (drop off (last_notification_package b))"

definition notified_op :: "ble \<Rightarrow> byte \<Rightarrow> nat \<Rightarrow> bool" where
  "notified_op b op n \<longleftrightarrow>
     last_notification_package_size b = n \<and> array_get (last_notification_package b) 1 = Some op"

section \<open>Requests\<close>

definition request_select :: "'e transport \<Rightarrow> obj_type \<Rightarrow> 'e world \<Rightarrow> (int \<times> 'e world) option" where
  "request_select T ty w = cp_request T OP_CODE_SELECT [OP_CODE_SELECT, obj_type_code ty] w"

definition request_create ::
  "'e transport \<Rightarrow> obj_type \<Rightarrow> u32 \<Rightarrow> 'e world \<Rightarrow> (int \<times> 'e world) option" where
  "request_create T ty transfer_size w = cp_request T OP_CODE_CREATE (create_packet ty transfer_size) w"

definition request_checksum :: "'e transport \<Rightarrow> 'e world \<Rightarrow> (int \<times> 'e world) option" where
  "request_checksum T w = cp_request T OP_CODE_CALCULATE_CHECKSUM [OP_CODE_CALCULATE_CHECKSUM] w"

definition request_execute :: "'e transport \<Rightarrow> 'e world \<Rightarrow> (int \<times> 'e world) option" where
  "request_execute T w = cp_request T OP_CODE_EXECUTE [OP_CODE_EXECUTE] w"

section \<open>Resuming\<close>

text \<open>\<open>packageDataLength\<close> is a \<^verbatim>\<open>size_t\<close>; comparisons and differences with it are 64 bits wide.\<close>

definition size_of :: "bytes \<Rightarrow> u64" where
  "size_of data = word_of_nat (length data)"

definition remaining :: "bytes \<Rightarrow> u32 \<Rightarrow> u64" where
  "remaining data off = size_of data - ucast off"

text \<open>\<open>Inl code\<close> is an early return, \<open>Inr send\<close> goes on with \<open>send\<close> bytes already there.\<close>

definition resume_phase ::
  "'e transport \<Rightarrow> bytes \<Rightarrow> obj_type \<Rightarrow> u32 \<Rightarrow> u32 \<Rightarrow> u32 \<Rightarrow> 'e world
     \<Rightarrow> ((int + u32) \<times> 'e world) option" where
  "resume_phase T data ty block_size returned_offset returned_crc w =
     (if returned_offset > 0 then do {
        calculated \<leftarrow> crc32_compute data returned_offset None;
        if calculated = returned_crc then
          if ty = BLE_OBJ_TYPE_COMMAND \<and> dont_resume w then Some (Inr 0, w)
          else if block_size = 0 then None
          else if returned_offset mod block_size = 0 \<or> ucast returned_offset = size_of data then do {
            (code, w) \<leftarrow> request_execute T w;
            if code \<noteq> BLE_DFU_RESP_VAL_SUCCESS
            then Some (Inl code, w\<lparr>dont_resume := True\<rparr>)
            else Some (Inr returned_offset, w) }
          else Some (Inl BLE_DFU_RESP_VAL_OPPERATION_FAILED, w\<lparr>dont_resume := True\<rparr>)
        else if ty = BLE_OBJ_TYPE_DATA
        then Some (Inl BLE_DFU_RESP_VAL_OPPERATION_FAILED, w\<lparr>dont_resume := True\<rparr>)
        else Some (Inr 0, w) }
      else Some (Inr 0, w))"

text \<open>The object size to ask for: the block size, but not more than what is left.\<close>

definition initial_transfer_size :: "bytes \<Rightarrow> u32 \<Rightarrow> u32 \<Rightarrow> u32" where
  "initial_transfer_size data block_size send =
     (let t = word_of_nat (length data) :: u32;
          t = (if t > block_size then block_size else t)
      in if (ucast t :: u64) > remaining data send then ucast (remaining data send) else t)"

definition clamp_transfer_size :: "bytes \<Rightarrow> u32 \<Rightarrow> u32 \<Rightarrow> u32" where
  "clamp_transfer_size data t returned_offset =
     (if (ucast t :: u64) > remaining data returned_offset then ucast (remaining data returned_offset) else t)"

section \<open>Sending one block\<close>

definition chunk_length :: "u16 \<Rightarrow> bytes \<Rightarrow> u32 \<Rightarrow> u32 \<Rightarrow> u32 \<Rightarrow> u64" where
  "chunk_length m data block_size send cur =
     (let c = gatt_payload m;
          c = (if c > word_of_nat MAX_DFU_PAYLOAD then word_of_nat MAX_DFU_PAYLOAD else c);
          c = (if c > size_of data - ucast send - ucast cur then size_of data - ucast send - ucast cur else c)
      in if ucast cur + c > ucast block_size then ucast (block_size - cur) else c)"

text \<open>The result is the number of bytes of the block that were written, or \<open>None\<close> of it when a write
  could not be started.\<close>

partial_function (option) send_block ::
  "'e transport \<Rightarrow> bytes \<Rightarrow> u32 \<Rightarrow> u32 \<Rightarrow> u32 \<Rightarrow> 'e world \<Rightarrow> (u32 option \<times> 'e world) option" where
  [code]: "send_block T data block_size send cur w =
     (if ucast (send + cur) < size_of data \<and> cur < block_size then do {
        let c = chunk_length (mtu (ble w)) data block_size send cur;
        chunk \<leftarrow> array_slice data (unat send + unat cur) (unat c);
        let (status, w) = ble_send_data_noresp T w chunk;
        if status \<noteq> EXIT_SUCCESS then Some (None, w)
        else send_block T data block_size send (cur + ucast c) w }
      else Some (Some cur, w))"

section \<open>The outer loop\<close>

text \<open>
  After a block: the checksum of what the peripheral has, the acknowledgement, the next object.
  \<open>Inl code\<close> leaves the loop (with success when the last data is acknowledged), \<open>Inr\<close> goes on with
  a new \<open>send\<close> and transfer size.
\<close>

definition create_next ::
  "'e transport \<Rightarrow> bytes \<Rightarrow> obj_type \<Rightarrow> u32 \<Rightarrow> u32 \<Rightarrow> u32 \<Rightarrow> 'e world
     \<Rightarrow> ((int + u32 \<times> u32) \<times> 'e world) option" where
  "create_next T data ty transfer_size returned_offset send w = do {
     let t = clamp_transfer_size data transfer_size returned_offset;
     (code, w) \<leftarrow> request_create T ty t w;
     if code \<noteq> BLE_DFU_RESP_VAL_SUCCESS then Some (Inl code, w) else Some (Inr (send, t), w) }"

definition check_block ::
  "'e transport \<Rightarrow> bytes \<Rightarrow> obj_type \<Rightarrow> u32 \<Rightarrow> u32 \<Rightarrow> 'e world
     \<Rightarrow> ((int + u32 \<times> u32) \<times> 'e world) option" where
  "check_block T data ty send transfer_size w = do {
     (code, w) \<leftarrow> request_checksum T w;
     if code \<noteq> BLE_DFU_RESP_VAL_SUCCESS then Some (Inl code, w)
     else if \<not> notified_op (ble w) OP_CODE_CALCULATE_CHECKSUM 11
     then Some (Inl BLE_DFU_RESP_VAL_OPPERATION_FAILED, w)
     else do {
       returned_offset \<leftarrow> notified_u32 (ble w) 3;
       returned_crc \<leftarrow> notified_u32 (ble w) 7;
       if returned_offset = 0 then Some (Inl BLE_DFU_RESP_VAL_OPPERATION_FAILED, w)
       else do {
         calculated \<leftarrow> crc32_compute data returned_offset None;
         if calculated = returned_crc then do {
           (code, w) \<leftarrow> request_execute T w;
           if code \<noteq> BLE_DFU_RESP_VAL_SUCCESS then Some (Inl code, w)
           else if (ucast returned_offset :: u64) \<ge> size_of data
           then Some (Inl BLE_DFU_RESP_VAL_SUCCESS, w)
           else create_next T data ty transfer_size returned_offset returned_offset w }
         else create_next T data ty transfer_size returned_offset send w } } }"

definition pause_after_partial_block :: "u32 \<Rightarrow> u32 \<Rightarrow> 'e world \<Rightarrow> 'e world" where
  "pause_after_partial_block cur block_size w = (if cur < block_size then emit (Sleep 1) w else w)"

partial_function (option) send_blocks ::
  "'e transport \<Rightarrow> bytes \<Rightarrow> obj_type \<Rightarrow> u32 \<Rightarrow> u32 \<Rightarrow> u32 \<Rightarrow> 'e world \<Rightarrow> (int \<times> 'e world) option" where
  [code]: "send_blocks T data ty block_size send transfer_size w = do {
     (sent, w) \<leftarrow> send_block T data block_size send 0 w;
     case sent of None \<Rightarrow> Some (BLE_DFU_RESP_VAL_OPPERATION_FAILED, w) | Some cur \<Rightarrow> do {
       (r, w) \<leftarrow> check_block T data ty send transfer_size (pause_after_partial_block cur block_size w);
       case r of Inl code \<Rightarrow> Some (code, w)
       | Inr (send, t) \<Rightarrow> send_blocks T data ty block_size send t w } }"

section \<open>dfuSendPackage\<close>

text \<open>What is left of the package after the resume phase: the first object, then the loop.\<close>

definition start_transfer ::
  "'e transport \<Rightarrow> bytes \<Rightarrow> obj_type \<Rightarrow> u32 \<Rightarrow> u32 \<Rightarrow> 'e world \<Rightarrow> (int \<times> 'e world) option" where
  "start_transfer T data ty block_size send w =
     (let t = initial_transfer_size data block_size send
      in if t = 0 then Some (BLE_DFU_RESP_VAL_SUCCESS, w)
         else do {
           (code, w) \<leftarrow> request_create T ty t w;
           if code \<noteq> BLE_DFU_RESP_VAL_SUCCESS then Some (code, w)
           else send_blocks T data ty block_size send t w })"

definition dfuSendPackage ::
  "'e transport \<Rightarrow> 'e world \<Rightarrow> bytes \<Rightarrow> obj_type \<Rightarrow> (int \<times> 'e world) option" where
  "dfuSendPackage T w data ty = do {
     (code, w) \<leftarrow> request_select T ty w;
     if code \<noteq> BLE_DFU_RESP_VAL_SUCCESS then Some (code, w)
     else if \<not> notified_op (ble w) OP_CODE_SELECT 15
     then Some (BLE_DFU_RESP_VAL_OPPERATION_FAILED, w)
     else do {
       block_size \<leftarrow> notified_u32 (ble w) 3;
       returned_offset \<leftarrow> notified_u32 (ble w) 7;
       returned_crc \<leftarrow> notified_u32 (ble w) 11;
       (resumed, w) \<leftarrow> resume_phase T data ty block_size returned_offset returned_crc w;
       case resumed of
         Inl code \<Rightarrow> Some (code, w)
       | Inr send \<Rightarrow> start_transfer T data ty block_size send w } }"

section \<open>The chunk length in natural numbers\<close>

definition chunk_limit :: "u16 \<Rightarrow> nat" where
  "chunk_limit m = min (unat m - 3) 514"

lemma gatt_payload_nat: "3 \<le> unat m \<Longrightarrow> gatt_payload m = word_of_nat (unat m - 3)"
proof -
  assume "3 \<le> unat m"
  then have "int (unat m) - int GATT_HEADER_LEN = int (unat m - 3)" by (simp add: GATT_HEADER_LEN_def)
  then show ?thesis unfolding gatt_payload_def by (metis of_int_of_nat_eq)
qed

lemma left_over:
  assumes "a + b \<le> n"
  shows "(word_of_nat n :: u64) - word_of_nat a - word_of_nat b = word_of_nat (n - a - b)"
  using assms by (simp add: of_nat_diff)

lemma chunk_length_nat:
  assumes len: "length data < 2 ^ 32" and in_data: "unat send + unat cur \<le> length data"
    and in_block: "unat cur \<le> unat block_size" and m: "3 \<le> unat m"
  shows "chunk_length m data block_size send cur =
    word_of_nat (min (min (chunk_limit m) (length data - unat send - unat cur)) (unat block_size - unat cur))"
proof -
  let ?a = "unat m - 3" and ?L = "length data - unat send - unat cur"
  have bounds: "?a < 2 ^ 64" "(514 :: nat) < 2 ^ 64" "?L < 2 ^ 64" "min ?a 514 < 2 ^ 64"
    "min (min ?a 514) ?L < 2 ^ 64" "unat block_size - unat cur < 2 ^ 64" "unat block_size < 2 ^ 64"
    using len unat_u16_lt [of m] unat_u32_lt [of block_size] by auto
  have sum: "ucast cur + word_of_nat n > (ucast block_size :: u64) \<longleftrightarrow> n > unat block_size - unat cur"
    if "n \<le> 514" for n
  proof -
    have "ucast cur + word_of_nat n = (word_of_nat (unat cur + n) :: u64)"
      by (simp only: ucast_64_of_nat of_nat_add)
    moreover have "unat cur + n < 2 ^ 64" using that unat_u32_lt [of cur] by simp
    ultimately show ?thesis
      using bounds(7) in_block by (auto simp only: ucast_64_of_nat word_of_nat_less_64)
  qed
  have diff: "ucast (block_size - cur) = (word_of_nat (unat block_size - unat cur) :: u64)"
    using in_block by (simp only: ucast_64_of_nat unat_diff_32)
  have max: "word_of_nat MAX_DFU_PAYLOAD = (word_of_nat 514 :: u64)"
    by (simp add: MAX_DFU_PAYLOAD_def BT_ATT_MAX_LE_MTU_def GATT_HEADER_LEN_def)
  have L: "size_of data - ucast send - ucast cur = word_of_nat ?L"
    using in_data by (simp only: size_of_def ucast_64_of_nat left_over)
  have "chunk_length m data block_size send cur =
      (let c = word_of_nat (min (min ?a 514) ?L)
       in if ucast cur + c > ucast block_size then ucast (block_size - cur) else c)"
    unfolding chunk_length_def gatt_payload_nat [OF m] max L Let_def
    by (simp only: word_of_nat_min_64 bounds)
  also have "\<dots> = word_of_nat (min (min (min ?a 514) ?L) (unat block_size - unat cur))"
    unfolding Let_def diff by (subst sum) (auto simp: min_def)
  finally show ?thesis by (simp add: chunk_limit_def)
qed

section \<open>Sending a block\<close>

text \<open>One write command of the block.\<close>

abbreviation data_write :: "'e world \<Rightarrow> bytes \<Rightarrow> action" where
  "data_write w c \<equiv> WriteCmd (data_handle (ble w)) c"

lemma ble_send_data_noresp_small:
  "length c < 2 ^ 16 \<Longrightarrow> write_without_response T (data_handle (ble w)) c (env w) = (rid, e) \<Longrightarrow>
     ble_send_data_noresp T w c = (if rid = 0 then EXIT_FAILURE else EXIT_SUCCESS,
       w\<lparr>trace := trace w @ [data_write w c], env := e\<rparr>)"
  by (simp add: ble_send_data_noresp_def gatt_payload_arg_def emit_def)

text \<open>The bytes of the block that starts at \<open>send\<close>.\<close>

definition block_len :: "bytes \<Rightarrow> u32 \<Rightarrow> u32 \<Rightarrow> nat" where
  "block_len data block_size send = min (unat block_size) (length data - unat send)"

lemma send_block_step:
  assumes len: "length data < 2 ^ 32" and m: "3 < unat (mtu (ble w))"
    and more: "unat cur < block_len data block_size send"
  defines "n \<equiv> min (min (chunk_limit (mtu (ble w))) (length data - unat send - unat cur))
      (unat block_size - unat cur)"
    and "c \<equiv> take (min (min (chunk_limit (mtu (ble w))) (length data - unat send - unat cur))
      (unat block_size - unat cur)) (drop (unat send + unat cur) data)"
  shows "send_block T data block_size send cur w =
      (let (status, w') = ble_send_data_noresp T w c
       in if status \<noteq> EXIT_SUCCESS then Some (None, w')
          else send_block T data block_size send (cur + word_of_nat n) w')"
    and "0 < n" "unat cur + n \<le> block_len data block_size send" "n \<le> chunk_limit (mtu (ble w))"
    and "length c = n" "unat (cur + word_of_nat n) = unat cur + n"
proof -
  from more have b: "unat cur < unat block_size" "unat send + unat cur < length data"
    by (auto simp: block_len_def)
  show n: "0 < n" "unat cur + n \<le> block_len data block_size send" "n \<le> chunk_limit (mtu (ble w))"
    using b m by (auto simp: n_def block_len_def chunk_limit_def)
  show c: "length c = n" using b by (auto simp: c_def n_def)
  have n514: "n \<le> 514" by (auto simp: n_def chunk_limit_def)
  have cl: "chunk_length (mtu (ble w)) data block_size send cur = word_of_nat n"
    unfolding n_def by (rule chunk_length_nat) (use len b m in auto)
  have sum: "unat (send + cur) = unat send + unat cur" using b len by (simp add: unat_add_32)
  have "unat block_size < 2 ^ 32" using unat_u32_lt [of block_size] by simp
  then show cur: "unat (cur + word_of_nat n) = unat cur + n"
    using n n514 by (subst unat_add_32) (auto simp: unat_word_of_nat_32 block_len_def)
  have inside: "(ucast (send + cur) :: u64) < size_of data"
    unfolding ucast_64_of_nat size_of_def sum using b len by (subst word_of_nat_less_64) auto
  have slice: "array_slice data (unat send + unat cur) n = Some c"
    using n b by (simp add: c_def n_def block_len_def)
  have w64: "unat (word_of_nat n :: u64) = n" "ucast (word_of_nat n :: u64) = (word_of_nat n :: u32)"
    using n514 by (auto simp: unat_word_of_nat_64 ucast_of_nat_32)
  show "send_block T data block_size send cur w =
      (let (status, w') = ble_send_data_noresp T w c
       in if status \<noteq> EXIT_SUCCESS then Some (None, w')
          else send_block T data block_size send (cur + word_of_nat n) w')"
    using inside b(1)
    by (subst send_block.simps)
      (auto simp: cl Let_def w64 slice word_less_nat_alt split: prod.splits if_splits)
qed

lemma send_block_end:
  assumes "length data < 2 ^ 32" "unat send \<le> length data" "unat cur = block_len data block_size send"
  shows "send_block T data block_size send cur w = Some (Some cur, w)"
proof -
  have sum: "unat (send + cur) = unat send + unat cur"
    using assms by (subst unat_add_32) (auto simp: block_len_def)
  have "\<not> ((ucast (send + cur) :: u64) < size_of data \<and> cur < block_size)"
    unfolding ucast_64_of_nat size_of_def sum using assms
    by (subst word_of_nat_less_64) (auto simp: block_len_def word_less_nat_alt)
  then show ?thesis by (subst send_block.simps) auto
qed

text \<open>
  Whatever the stack does with the writes, the block loop returns; what it wrote are consecutive,
  non-empty pieces of the package that fit the MTU, and when it reports success they are the whole
  block.
\<close>

definition chunks_ok :: "u16 \<Rightarrow> bytes list \<Rightarrow> bool" where
  "chunks_ok m cs \<longleftrightarrow> (\<forall>c \<in> set cs. 0 < length c \<and> length c \<le> chunk_limit m)"

lemma send_block_writes:
  assumes len: "length data < 2 ^ 32" and off: "unat send \<le> length data"
  shows "3 < unat (mtu (ble w)) \<Longrightarrow> unat cur \<le> block_len data block_size send \<Longrightarrow>
    \<exists>r cs e. send_block T data block_size send cur w =
        Some (r, w\<lparr>trace := trace w @ map (data_write w) cs, env := e\<rparr>) \<and>
      chunks_ok (mtu (ble w)) cs \<and>
      (case r of
         Some n \<Rightarrow> unat n = block_len data block_size send \<and>
           concat cs = take (unat n - unat cur) (drop (unat send + unat cur) data)
       | None \<Rightarrow> \<exists>n \<le> block_len data block_size send - unat cur.
           concat cs = take n (drop (unat send + unat cur) data))"
proof (induction "block_len data block_size send - unat cur" arbitrary: cur w rule: less_induct)
  case less
  show ?case
  proof (cases "unat cur = block_len data block_size send")
    case True
    have "w = w\<lparr>trace := trace w @ map (data_write w) [], env := env w\<rparr>" by simp
    with send_block_end [OF len off True, of T w] True show ?thesis
      by (intro exI [of _ "Some cur"] exI [of _ "[]"] exI [of _ "env w"]) (simp add: chunks_ok_def)
  next
    case False
    with less.prems(2) have more: "unat cur < block_len data block_size send" by simp
    define n where "n = min (min (chunk_limit (mtu (ble w))) (length data - unat send - unat cur))
      (unat block_size - unat cur)"
    define c where "c = take n (drop (unat send + unat cur) data)"
    note step = send_block_step [OF len less.prems(1) more, folded n_def, folded c_def]
    obtain rid e1 where wr: "write_without_response T (data_handle (ble w)) c (env w) = (rid, e1)"
      by (cases "write_without_response T (data_handle (ble w)) c (env w)")
    let ?w1 = "w\<lparr>trace := trace w @ [data_write w c], env := e1\<rparr>"
    have cl: "length c < 2 ^ 16" using step(4,5) by (simp add: chunk_limit_def)
    note sent = ble_send_data_noresp_small [OF cl wr]
    show ?thesis
    proof (cases "rid = 0")
      case True
      then show ?thesis
        using step sent
        by (intro exI [of _ None] exI [of _ "[c]"] exI [of _ e1])
          (auto simp: EXIT_FAILURE_def EXIT_SUCCESS_def chunks_ok_def c_def intro!: exI [of _ n])
    next
      case False
      let ?cur = "cur + word_of_nat n"
      have eq: "send_block T data block_size send cur w = send_block T data block_size send ?cur ?w1"
        using step(1) sent False by (simp add: EXIT_SUCCESS_def)
      have smaller: "block_len data block_size send - unat ?cur < block_len data block_size send - unat cur"
        using step(2,6) more by simp
      from less.hyps [OF smaller, of ?w1] less.prems(1) step(3,6) obtain r cs e where
        rec: "send_block T data block_size send ?cur ?w1 =
          Some (r, ?w1\<lparr>trace := trace ?w1 @ map (data_write ?w1) cs, env := e\<rparr>)"
        "chunks_ok (mtu (ble ?w1)) cs"
        "case r of
           Some k \<Rightarrow> unat k = block_len data block_size send \<and>
             concat cs = take (unat k - unat ?cur) (drop (unat send + unat ?cur) data)
         | None \<Rightarrow> \<exists>k \<le> block_len data block_size send - unat ?cur.
             concat cs = take k (drop (unat send + unat ?cur) data)" by auto
      have glue: "c @ take k (drop (unat send + unat ?cur) data) = take (n + k) (drop (unat send + unat cur) data)"
        for k by (simp add: c_def step(6) take_add add.assoc) (simp add: add.commute add.left_commute)
      show ?thesis
        using rec step(2,3,4,5,6) glue
        by (intro exI [of _ r] exI [of _ "c # cs"] exI [of _ e])
          (auto simp: eq chunks_ok_def split: option.splits intro!: exI [of _ "n + _"])
    qed
  qed
qed

section \<open>What success means\<close>

text \<open>
  The peripheral has confirmed the whole package: it answered the checksum request with the length of
  the package and its CRC-32, and then the execute request with success.
\<close>

definition confirmed_by_checksum :: "'e transport \<Rightarrow> bytes \<Rightarrow> 'e world \<Rightarrow> bool" where
  "confirmed_by_checksum T data w' \<longleftrightarrow>
     (\<exists>w1 w2. request_checksum T w1 = Some (BLE_DFU_RESP_VAL_SUCCESS, w2) \<and>
        notified_op (ble w2) OP_CODE_CALCULATE_CHECKSUM 11 \<and>
        notified_u32 (ble w2) 3 = Some (word_of_nat (length data)) \<and>
        notified_u32 (ble w2) 7 = Some (crc32_of data) \<and>
        request_execute T w2 = Some (BLE_DFU_RESP_VAL_SUCCESS, w'))"

text \<open>The same for a transfer that was already complete when the object was selected.\<close>

definition confirmed_by_select :: "'e transport \<Rightarrow> obj_type \<Rightarrow> bytes \<Rightarrow> 'e world \<Rightarrow> 'e world \<Rightarrow> bool" where
  "confirmed_by_select T ty data w w' \<longleftrightarrow>
     (\<exists>w1. request_select T ty w = Some (BLE_DFU_RESP_VAL_SUCCESS, w1) \<and>
        notified_op (ble w1) OP_CODE_SELECT 15 \<and>
        notified_u32 (ble w1) 7 = Some (word_of_nat (length data)) \<and>
        notified_u32 (ble w1) 11 = Some (crc32_of data) \<and>
        request_execute T w1 = Some (BLE_DFU_RESP_VAL_SUCCESS, w'))"

lemma crc_of_whole:
  assumes "length data < 2 ^ 32" "crc32_compute data off None = Some c" "(ucast off :: u64) \<ge> size_of data"
  shows "off = word_of_nat (length data)" "c = crc32_of data"
proof -
  from assms(2) have le: "unat off \<le> length data" and c: "c = crc32_of (take (unat off) data)"
    by (auto simp: crc32_compute_prefix split: if_splits)
  from assms(3) have "length data \<le> unat off"
    unfolding size_of_def word_le_nat_alt unat_ucast_64 using assms(1) by (simp add: unat_word_of_nat_64)
  with le have eq: "length data = unat off" by simp
  show "off = word_of_nat (length data)" unfolding eq by simp
  show "c = crc32_of data" using c eq by simp
qed

lemma check_block_success:
  assumes len: "length data < 2 ^ 32"
    and run: "check_block T data ty send t w = Some (Inl BLE_DFU_RESP_VAL_SUCCESS, w')"
  shows "confirmed_by_checksum T data w'"
proof -
  from run obtain w2 off crc calculated where w2:
    "request_checksum T w = Some (BLE_DFU_RESP_VAL_SUCCESS, w2)"
    "notified_op (ble w2) OP_CODE_CALCULATE_CHECKSUM 11"
    "notified_u32 (ble w2) 3 = Some off" "notified_u32 (ble w2) 7 = Some crc"
    "crc32_compute data off None = Some crc" "(ucast off :: u64) \<ge> size_of data"
    "request_execute T w2 = Some (BLE_DFU_RESP_VAL_SUCCESS, w')"
    by (auto simp: check_block_def create_next_def bind_Some_iff Let_def BLE_DFU_RESP_VAL_SUCCESS_def
        BLE_DFU_RESP_VAL_OPPERATION_FAILED_def split: if_splits)
  with crc_of_whole [OF len w2(5,6)] show ?thesis
    unfolding confirmed_by_checksum_def by auto
qed

lemma failed_not_success: "BLE_DFU_RESP_VAL_OPPERATION_FAILED \<noteq> BLE_DFU_RESP_VAL_SUCCESS"
  by (simp add: BLE_DFU_RESP_VAL_SUCCESS_def BLE_DFU_RESP_VAL_OPPERATION_FAILED_def)

lemma send_blocks_success:
  assumes len: "length data < 2 ^ 32"
    and run: "send_blocks T data ty bs send t w = Some (BLE_DFU_RESP_VAL_SUCCESS, w')"
  shows "confirmed_by_checksum T data w'"
proof -
  have "d = data \<longrightarrow> fst r = BLE_DFU_RESP_VAL_SUCCESS \<longrightarrow> confirmed_by_checksum T d (snd r)"
    if "send_blocks T d ty bs send t w = Some r" for T d ty bs send t w r
  proof (rule send_blocks.raw_induct [where P =
        "\<lambda>T d ty bs send t w r. d = data \<longrightarrow> fst r = BLE_DFU_RESP_VAL_SUCCESS \<longrightarrow>
           confirmed_by_checksum T d (snd r)", OF _ that], goal_cases)
    case (1 f T d ty bs send t w r)
    obtain sent w1 where s1: "send_block T d bs send 0 w = Some (sent, w1)"
      using 1(2) by (auto simp: bind_Some_iff)
    show ?case
    proof (cases sent)
      case None
      with 1(2) s1 failed_not_success show ?thesis by auto
    next
      case (Some cur)
      with 1(2) s1 obtain c w2 where
        c: "check_block T d ty send t (pause_after_partial_block cur bs w1) = Some (c, w2)"
        by (auto simp: bind_Some_iff)
      show ?thesis
      proof (cases c)
        case (Inl code)
        with 1(2) s1 Some c have "r = (code, w2)" by simp
        with c Inl show ?thesis by (auto dest: check_block_success [OF len])
      next
        case (Inr st)
        with 1(2) s1 Some c have "f T d ty bs (fst st) (snd st) w2 = Some r" by (simp split: prod.splits)
        then show ?thesis by (rule 1(1))
      qed
    qed
  qed
  with run show ?thesis by fastforce
qed

lemma resume_phase_failed:
  assumes "resume_phase T data ty bs off crc w = Some (Inl code, w')"
  shows "code \<noteq> BLE_DFU_RESP_VAL_SUCCESS"
  using assms by (auto simp: resume_phase_def bind_Some_iff BLE_DFU_RESP_VAL_SUCCESS_def
      BLE_DFU_RESP_VAL_OPPERATION_FAILED_def split: if_splits)

lemma resume_phase_cases:
  assumes "resume_phase T data ty bs off crc w = Some (Inr send, w')"
  shows "(send = 0 \<and> w' = w) \<or>
    (send = off \<and> 0 < off \<and> bs \<noteq> 0 \<and> unat off \<le> length data \<and> crc = crc32_of (take (unat off) data) \<and>
     request_execute T w = Some (BLE_DFU_RESP_VAL_SUCCESS, w'))"
  using assms by (auto simp: resume_phase_def bind_Some_iff crc32_compute_prefix split: if_splits)

lemma initial_transfer_size_nat:
  assumes "length data < 2 ^ 32" "unat send \<le> length data"
  shows "initial_transfer_size data bs send = word_of_nat (min (min (length data) (unat bs)) (length data - unat send))"
proof -
  let ?t = "min (length data) (unat bs)"
  have t: "(if (word_of_nat (length data) :: u32) > bs then bs else word_of_nat (length data)) = word_of_nat ?t"
  proof (cases "length data > unat bs")
    case True
    then have "(word_of_nat (length data) :: u32) > bs" "?t = unat bs"
      using assms(1) by (simp_all add: word_less_nat_alt unat_word_of_nat_32)
    then show ?thesis by simp
  next
    case False
    then have "\<not> (word_of_nat (length data) :: u32) > bs" "?t = length data"
      using assms(1) by (simp_all add: word_less_nat_alt unat_word_of_nat_32)
    then show ?thesis by (simp only: if_False)
  qed
  have rem: "remaining data send = word_of_nat (length data - unat send)"
    unfolding remaining_def size_of_def ucast_64_of_nat using assms(2) by (simp only: of_nat_diff)
  have "unat (word_of_nat ?t :: u32) = ?t" using assms(1) by (subst unat_word_of_nat_32) auto
  then have "(ucast (word_of_nat ?t :: u32) :: u64) = word_of_nat ?t" by (simp only: ucast_64_of_nat)
  moreover have "length data - unat send < 2 ^ 64" "?t < 2 ^ 64" using assms(1) by auto
  ultimately show ?thesis
    unfolding initial_transfer_size_def Let_def t rem
    by (auto simp: word_of_nat_less_64 ucast_of_nat_32 min_def not_less)
qed

lemma dfuSendPackage_success:
  assumes len: "0 < length data" "length data < 2 ^ 32"
    and run: "dfuSendPackage T w data ty = Some (BLE_DFU_RESP_VAL_SUCCESS, w')"
  shows "confirmed_by_checksum T data w' \<or> confirmed_by_select T ty data w w' \<or>
    (\<exists>w1. request_select T ty w = Some (BLE_DFU_RESP_VAL_SUCCESS, w1) \<and> notified_u32 (ble w1) 3 = Some 0)"
proof -
  from run obtain w1 bs off crc r w2 where sel:
    "request_select T ty w = Some (BLE_DFU_RESP_VAL_SUCCESS, w1)" "notified_op (ble w1) OP_CODE_SELECT 15"
    "notified_u32 (ble w1) 3 = Some bs" "notified_u32 (ble w1) 7 = Some off"
    "notified_u32 (ble w1) 11 = Some crc" "resume_phase T data ty bs off crc w1 = Some (r, w2)"
    and rest: "(case r of Inl code \<Rightarrow> Some (code, w2) | Inr send \<Rightarrow> start_transfer T data ty bs send w2)
       = Some (BLE_DFU_RESP_VAL_SUCCESS, w')"
    using failed_not_success
    by (auto simp: dfuSendPackage_def bind_Some_iff split: if_splits)
  show ?thesis
  proof (cases r)
    case (Inl code)
    with rest resume_phase_failed sel(6) show ?thesis by fastforce
  next
    case (Inr send)
    show ?thesis
    proof (cases "initial_transfer_size data bs send = 0")
      case False
      with rest Inr have "\<exists>w3. send_blocks T data ty bs send (initial_transfer_size data bs send) w3 =
          Some (BLE_DFU_RESP_VAL_SUCCESS, w')"
        by (auto simp: start_transfer_def Let_def bind_Some_iff split: if_splits)
      then show ?thesis by (auto dest: send_blocks_success [OF len(2)])
    next
      case True
      note res = resume_phase_cases [OF sel(6) [unfolded Inr]]
      then have le: "unat send \<le> length data" by auto
      have "min (min (length data) (unat bs)) (length data - unat send) = 0"
        using True initial_transfer_size_nat [OF len(2) le, of bs] len(2)
          unat_word_of_nat_32 [of "min (min (length data) (unat bs)) (length data - unat send)"] by simp
      with len(1) le have "bs = 0 \<or> unat send = length data"
        by (auto simp: min_def unat_eq_0 split: if_splits)
      then show ?thesis
      proof
        assume "bs = 0" with sel show ?thesis by blast
      next
        assume whole: "unat send = length data"
        with res len(1) have "send = off" "crc = crc32_of data"
          "request_execute T w1 = Some (BLE_DFU_RESP_VAL_SUCCESS, w2)" by auto
        moreover from whole have "send = word_of_nat (length data)" by (simp flip: whole add: of_nat_unat)
        moreover from rest Inr True have "w2 = w'" by (simp add: start_transfer_def)
        ultimately show ?thesis using sel unfolding confirmed_by_select_def by auto
      qed
    qed
  qed
qed

section \<open>The branches of dfuSendPackage\<close>

lemma describe_total: "(-1) \<in> fst ` set ds \<Longrightarrow> \<exists>t. describe ds c = Some t \<and> (\<exists>k. (k, t) \<in> set ds \<and> (k = c \<or> k = -1))"
proof (induction ds)
  case (Cons d ds)
  obtain k t where d: "d = (k, t)" by (cases d)
  show ?case
  proof (cases "k = -1 \<or> k = c")
    case True
    then show ?thesis by (auto simp: d)
  next
    case False
    with Cons.prems d have "(-1) \<in> fst ` set ds" by auto
    from Cons.IH [OF this] False show ?thesis by (auto simp: d)
  qed
qed simp

lemma dfuSendPackage_selected:
  assumes "request_select T ty w = Some (BLE_DFU_RESP_VAL_SUCCESS, w1)" "notified_op (ble w1) OP_CODE_SELECT 15"
    and "notified_u32 (ble w1) 3 = Some bs" "notified_u32 (ble w1) 7 = Some off"
    and "notified_u32 (ble w1) 11 = Some crc"
  shows "dfuSendPackage T w data ty = do {
     (resumed, w) \<leftarrow> resume_phase T data ty bs off crc w1;
     case resumed of Inl code \<Rightarrow> Some (code, w) | Inr send \<Rightarrow> start_transfer T data ty bs send w }"
  using assms by (simp add: dfuSendPackage_def)

lemma dfuSendPackage_fatal:
  assumes "fatal_error w" "\<And>h v e. fst (snd (write_value T h v e)) = []"
  shows "\<exists>w'. dfuSendPackage T w data ty = Some (-1, w') \<and> fatal_error w'"
  using cp_request_fatal [of w T OP_CODE_SELECT "[OP_CODE_SELECT, obj_type_code ty]"] assms
  by (auto simp: dfuSendPackage_def request_select_def BLE_DFU_RESP_VAL_SUCCESS_def)

end
