(* ===== verification/Connection.thy ===== *)
theory Connection
  imports Dfu
begin

text \<open>
  The rest of \<^verbatim>\<open>ble.c\<close>: opening the L2CAP socket and the connection, closing it, the text for an ATT
  error and the line printed for a service. The system calls and the entry points of the GATT stack
  that \<^verbatim>\<open>ble_open\<close> uses are a parameter, the \<open>system\<close>: what each returns in the current state of the
  environment. A \<open>BLE *\<close> is null or the connection of the world, with the parts of the structure
  that are pointers: whether they are set.
\<close>

section \<open>Error texts\<close>

definition ecode_texts :: "(byte \<times> string) list" where
  "ecode_texts =
     [(0x01, ''Invalid Handle''), (0x02, ''Read Not Permitted''), (0x03, ''Write Not Permitted''),
      (0x04, ''Invalid PDU''), (0x05, ''Authentication Required''), (0x06, ''Request Not Supported''),
      (0x07, ''Invalid Offset''), (0x08, ''Authorization Required''), (0x09, ''Prepare Write Queue Full''),
      (0x0A, ''Attribute Not Found''), (0x0B, ''Attribute Not Long''),
      (0x0C, ''Insuficient Encryption Key Size''), (0x0D, ''Invalid Attribute value len''),
      (0x0E, ''Unlikely Error''), (0x0F, ''Insufficient Encryption''),
      (0x10, ''Group type Not Supported''), (0x11, ''Insufficient Resources'')]"

definition ecode_to_string :: "byte \<Rightarrow> string" where
  "ecode_to_string ecode =
     (case map_of ecode_texts ecode of Some t \<Rightarrow> t | None \<Rightarrow> ''Unknown error type'')"

section \<open>Lines of the log\<close>

text \<open>A UUID that cannot be read leaves the variable on the stack as it is: using it is undefined.\<close>

definition log_service_event :: "gatt_db \<Rightarrow> attr_ref \<Rightarrow> string \<Rightarrow> string option" where
  "log_service_event db attr str = do {
     found \<leftarrow> gatt_db_attribute_get_service_uuid db (Some attr);
     uuid \<leftarrow> found;
     let uuid_str = snd (bt_uuid_to_string (Some uuid) MAX_LEN_UUID_STR);
     handles \<leftarrow> gatt_db_attribute_get_service_handles db (Some attr);
     (s, e) \<leftarrow> handles;
     Some (str @ '' - UUID: '' @ uuid_str @ '' start: 0x'' @ print_hex 4 (uint s) @
       '' end: 0x'' @ print_hex 4 (uint e) @ [CHR 0x0A]) }"

definition service_added_cb :: "gatt_db \<Rightarrow> attr_ref \<Rightarrow> string option" where
  "service_added_cb db attr = log_service_event db attr ''Service Discovered''"

definition service_removed_cb :: "gatt_db \<Rightarrow> attr_ref \<Rightarrow> string option" where
  "service_removed_cb db attr = log_service_event db attr ''Service Removed''"

definition print_uuid :: "bt_uuid \<Rightarrow> string option" where
  "print_uuid uuid = do {
     uuid128 \<leftarrow> bt_uuid_to_uuid128 uuid;
     Some (snd (bt_uuid_to_string (Some uuid128) MAX_LEN_UUID_STR) @ [CHR 0x0A]) }"

section \<open>The environment of a connection\<close>

record sockaddr_l2 =
  l2_cid :: u16
  l2_bdaddr :: bytes
  l2_bdaddr_type :: byte

datatype part = NotifyRegistration u32 | GattClient | GattDatabase | AttBearer | Descriptor int

record 'e system =
  sys_socket :: "'e \<Rightarrow> int \<times> 'e"
  sys_bind :: "int \<Rightarrow> sockaddr_l2 \<Rightarrow> 'e \<Rightarrow> int \<times> 'e"
  sys_setsockopt :: "int \<Rightarrow> int \<Rightarrow> 'e \<Rightarrow> int \<times> 'e"
  sys_connect :: "int \<Rightarrow> sockaddr_l2 \<Rightarrow> 'e \<Rightarrow> int \<times> 'e"
  att_new :: "int \<Rightarrow> 'e \<Rightarrow> bool \<times> 'e"
  att_set_close_on_unref :: "'e \<Rightarrow> bool \<times> 'e"
  att_register_disconnect :: "'e \<Rightarrow> u32 \<times> 'e"
  gatt_client_new :: "u16 \<Rightarrow> 'e \<Rightarrow> bool \<times> 'e"
  gatt_client_get_mtu :: "'e \<Rightarrow> u16"
  release :: "part \<Rightarrow> 'e \<Rightarrow> 'e"

definition ATT_CID :: u16 where "ATT_CID = 4"
definition BDADDR_ANY :: bytes where "BDADDR_ANY = [0, 0, 0, 0, 0, 0]"
definition BDADDR_LE_RANDOM :: byte where "BDADDR_LE_RANDOM = 0x02"
definition BT_SECURITY_LOW :: int where "BT_SECURITY_LOW = 1"

section \<open>Opening and closing\<close>

definition l2cap_le_att_connect ::
  "'e system \<Rightarrow> bytes \<Rightarrow> bytes \<Rightarrow> byte \<Rightarrow> int \<Rightarrow> 'e \<Rightarrow> int \<times> 'e" where
  "l2cap_le_att_connect S src dst dst_type sec e =
     (let (sock, e) = sys_socket S e in
      if sock < 0 then (-1, e)
      else let (err, e) = sys_bind S sock \<lparr>l2_cid = ATT_CID, l2_bdaddr = src, l2_bdaddr_type = 0\<rparr> e in
      if err < 0 then (-1, release S (Descriptor sock) e)
      else let (err, e) = sys_setsockopt S sock sec e in
      if err \<noteq> 0 then (-1, release S (Descriptor sock) e)
      else let (err, e) = sys_connect S sock \<lparr>l2_cid = ATT_CID, l2_bdaddr = dst, l2_bdaddr_type = dst_type\<rparr> e in
      if err < 0 then (-1, release S (Descriptor sock) e)
      else (sock, e))"

text \<open>The pointers of \<open>struct ble\<close> and its descriptor.\<close>

record link =
  lk_fd :: int
  lk_att :: bool
  lk_db :: bool
  lk_gatt :: bool

definition released_parts :: "link \<Rightarrow> u32 \<Rightarrow> part list" where
  "released_parts l nid =
     (if nid \<noteq> 0 then [NotifyRegistration nid] else []) @
     (if lk_gatt l then [GattClient] else []) @
     (if lk_db l then [GattDatabase] else []) @
     (if lk_att l then [AttBearer] else []) @
     (if lk_fd l > 0 then [Descriptor (lk_fd l)] else [])"

definition ble_close :: "'e system \<Rightarrow> link option \<Rightarrow> 'e world \<Rightarrow> 'e world" where
  "ble_close S ble_ptr w =
     (case ble_ptr of None \<Rightarrow> w
      | Some l \<Rightarrow> w\<lparr>env := fold (release S) (released_parts l (notify_id (ble w))) (env w)\<rparr>)"

definition new_ble :: "bytes \<Rightarrow> ble" where
  "new_ble dst =
     \<lparr>dst_addr = dst, mtu = word_of_nat BT_ATT_DEFAULT_LE_MTU, notify_id = 0, cp_handle = 0, cccd_handle = 0,
      data_handle = 0, btnless_handle = 0, notify_waiting_for_op = -1, notify_code = -1,
      extended_notify_code = -1, notify_pkts = 0, notify_waiting_for_pkts = 0,
      last_notification_package_size = 0,
      last_notification_package = replicate BT_ATT_DEFAULT_LE_MTU 0, debug = 0\<rparr>"

text \<open>A call that works on the environment only.\<close>

definition on_env :: "('e \<Rightarrow> 'r \<times> 'e) \<Rightarrow> 'e world \<Rightarrow> 'r \<times> 'e world" where
  "on_env f w = (fst (f (env w)), w\<lparr>env := snd (f (env w))\<rparr>)"

text \<open>The steps up to the event loop; each failure gives back what has been set up.\<close>

definition give_up :: "'e system \<Rightarrow> link \<Rightarrow> 'e world \<Rightarrow> link option \<times> 'e world" where
  "give_up S l w = (None, ble_close S (Some l) w)"

definition start_gatt :: "'e system \<Rightarrow> link \<Rightarrow> 'e world \<Rightarrow> link option \<times> 'e world" where
  "start_gatt S l w =
     (case on_env (gatt_client_new S (word_of_nat BT_ATT_MAX_LE_MTU)) w of (ok, w) \<Rightarrow>
        (Some (l\<lparr>lk_db := True, lk_gatt := ok\<rparr>), w))"

definition start_att :: "'e system \<Rightarrow> link \<Rightarrow> 'e world \<Rightarrow> link option \<times> 'e world" where
  "start_att S l w =
     (case on_env (att_new S (lk_fd l)) w of (ok, w) \<Rightarrow>
        if \<not> ok then give_up S l w
        else case on_env (att_set_close_on_unref S) w of (ok, w) \<Rightarrow>
          if \<not> ok then give_up S (l\<lparr>lk_att := True\<rparr>) w
          else case on_env (att_register_disconnect S) w of (rid, w) \<Rightarrow>
            if rid = 0 then give_up S (l\<lparr>lk_att := True\<rparr>) w
            else start_gatt S (l\<lparr>lk_att := True\<rparr>) w)"

definition set_up_link :: "'e system \<Rightarrow> bytes \<Rightarrow> 'e world \<Rightarrow> link option \<times> 'e world" where
  "set_up_link S dst w =
     (case on_env (l2cap_le_att_connect S BDADDR_ANY dst BDADDR_LE_RANDOM BT_SECURITY_LOW) (w\<lparr>ble := new_ble dst\<rparr>) of
        (fd, w) \<Rightarrow>
          let l = \<lparr>lk_fd = fd, lk_att = False, lk_db = False, lk_gatt = False\<rparr> in
          if fd < 0 then give_up S l w else start_att S l w)"

definition ble_open :: "'e system \<Rightarrow> 'e transport \<Rightarrow> bytes \<Rightarrow> 'e world \<Rightarrow> (link option \<times> 'e world) option" where
  "ble_open S T dst w =
     (case set_up_link S dst w of (None, w) \<Rightarrow> Some (None, w)
      | (Some l, w) \<Rightarrow> do {
          (code, w) \<leftarrow> ble_mainloop_run T w;
          if code = EXIT_SUCCESS
          then Some (Some l, upd_ble (\<lambda>b. b\<lparr>mtu := gatt_client_get_mtu S (env w)\<rparr>) w)
          else Some (None, ble_close S (Some l) w) })"

section \<open>Every failure path\<close>

lemma ecode_to_string_known:
  assumes "(c, t) \<in> set ecode_texts"
  shows "ecode_to_string c = t"
proof -
  have "distinct (map fst ecode_texts)" by (simp add: ecode_texts_def)
  then show ?thesis using assms by (simp add: ecode_to_string_def)
qed

text \<open>Setting up and closing change the environment of the world only.\<close>

definition only_env :: "'e world \<Rightarrow> 'e world \<Rightarrow> bool" where
  "only_env w w' \<longleftrightarrow> (\<exists>e. w' = w\<lparr>env := e\<rparr>)"

named_theorems only_env

lemma only_env_refl [only_env]: "only_env w w"
  unfolding only_env_def by (rule exI [of _ "env w"]) simp

lemma only_env_trans: "only_env w w' \<Longrightarrow> only_env w' w'' \<Longrightarrow> only_env w w''"
  by (auto simp: only_env_def)

lemma only_env_ble_close [only_env]: "only_env w (ble_close S l w)"
  using only_env_refl [of w] by (cases l) (auto simp: ble_close_def only_env_def)

lemma only_env_on_env: "on_env f w = (r, w') \<Longrightarrow> only_env w w'"
  by (auto simp: on_env_def only_env_def)

lemma only_env_give_up: "give_up S l w = (r, w') \<Longrightarrow> only_env w w'"
  using only_env_ble_close [of w S "Some l"] by (auto simp: give_up_def)

lemma only_env_start_gatt: "start_gatt S l w = (r, w') \<Longrightarrow> only_env w w'"
  by (auto simp: start_gatt_def split: prod.splits dest: only_env_on_env)

lemma only_env_start_att: "start_att S l w = (r, w') \<Longrightarrow> only_env w w'"
  unfolding start_att_def
  by (force split: prod.splits if_splits dest: only_env_on_env only_env_give_up only_env_start_gatt intro: only_env_trans)

lemma set_up_link_world:
  "set_up_link S dst w = (l, w') \<Longrightarrow> \<exists>e. w' = w\<lparr>ble := new_ble dst, env := e\<rparr>"
proof -
  assume "set_up_link S dst w = (l, w')"
  then have "only_env (w\<lparr>ble := new_ble dst\<rparr>) w'"
    unfolding set_up_link_def Let_def
    by (force split: prod.splits if_splits dest: only_env_on_env only_env_give_up only_env_start_att intro: only_env_trans)
  then show ?thesis by (auto simp: only_env_def)
qed

end
