(* ===== verification/Manifest.thy ===== *)
theory Manifest
  imports Nrf_Prelude "HOL-Library.Sublist"
begin

text \<open>
  \<^verbatim>\<open>manifest.c\<close>: the reader of \<^verbatim>\<open>manifest.json\<close>, which looks for key words with \<^verbatim>\<open>strstr\<close> instead of
  parsing JSON. A C string is the list of its characters before the terminating NUL; a pointer into
  it is the suffix that starts there, so \<^verbatim>\<open>p < ptr\<close> compares the lengths of suffixes. Reading through
  \<^verbatim>\<open>NULL + 1\<close>, leaving a character array and copying an unterminated array are undefined.
\<close>

section \<open>Strings of the C library\<close>

fun strstr :: "string \<Rightarrow> string \<Rightarrow> string option" where
  "strstr [] n = (if n = [] then Some [] else None)"
| "strstr (c # s) n = (if prefix n (c # s) then Some (c # s) else strstr s n)"

definition quote :: char where "quote = CHR 0x22"

text \<open>\<^verbatim>\<open>strcpy\<close> into an array of \<open>cap\<close> characters: what the array holds as a string afterwards.\<close>

definition strcpy :: "nat \<Rightarrow> string \<Rightarrow> string option" where
  "strcpy cap s = (if length s < cap then Some s else None)"

section \<open>The reader\<close>

record manifest =
  hasApplication :: bool
  applicationDatFileName :: "string option"
  applicationBinFileName :: "string option"
  hasSDBootloader :: bool
  sdBootloaderDatFileName :: "string option"
  sdBootloaderBinFileName :: "string option"
  hasBootloader :: bool
  bootloaderDatFileName :: "string option"
  bootloaderBinFileName :: "string option"

definition NAME_SIZE :: nat where "NAME_SIZE = 256"
definition OUT_SIZE :: nat where "OUT_SIZE = 64"

text \<open>The loop that fills \<^verbatim>\<open>name\<close> from \<open>p\<close> up to \<open>ptr\<close>, at most 256 characters.\<close>

fun copy_name :: "nat \<Rightarrow> string \<Rightarrow> string \<Rightarrow> string" where
  "copy_name i [] ptr = []"
| "copy_name i (c # p) ptr =
     (if length (c # p) \<le> length ptr then []
      else c # (if i + 1 \<ge> NAME_SIZE then [] else copy_name (i + 1) p ptr))"

text \<open>
  \<open>out\<close> is the string in the caller's array. A missing third quote leaves \<^verbatim>\<open>ptr\<close> null, and the loop
  does not run. An array filled to the end has no terminator, so \<^verbatim>\<open>strcpy\<close> would read behind it.
\<close>

definition fake_parser :: "string \<Rightarrow> string \<Rightarrow> string \<Rightarrow> string \<Rightarrow> string option" where
  "fake_parser out haystack first second =
     (case strstr haystack first of None \<Rightarrow> Some out
      | Some _ \<Rightarrow>
          (case strstr haystack second of None \<Rightarrow> Some out
           | Some p \<Rightarrow> do {
               ptr \<leftarrow> strstr p [quote];
               p \<leftarrow> strstr (tl ptr) [quote];
               let name = (case strstr (tl p) [quote] of None \<Rightarrow> [] | Some ptr \<Rightarrow> copy_name 0 (tl p) ptr);
               if length name < NAME_SIZE then strcpy OUT_SIZE name else None }))"

definition parse_value :: "string \<Rightarrow> string \<Rightarrow> (string option \<times> string option \<times> bool) option" where
  "parse_value haystack img =
     (if strstr haystack img = None then Some (None, None, False)
      else do {
        dat \<leftarrow> fake_parser [] haystack img ''dat_file'';
        bin \<leftarrow> fake_parser dat haystack img ''bin_file'';
        Some (Some dat, Some bin, True) })"

definition newline :: string where "newline = [CHR 0x0A]"

text \<open>What the program prints; a null name cannot be printed.\<close>

definition dump_image :: "string \<Rightarrow> bool \<Rightarrow> string option \<Rightarrow> string option \<Rightarrow> string option" where
  "dump_image title has dat bin =
     (if has then do {
        d \<leftarrow> dat;
        b \<leftarrow> bin;
        Some (''  == '' @ title @ '' =='' @ newline @ ''  dat_file : '' @ d @ newline @
              ''  bin_file : '' @ b @ newline @ newline) }
      else Some [])"

definition dump_manifest :: "manifest \<Rightarrow> string option" where
  "dump_manifest m = do {
     sd \<leftarrow> dump_image ''SD+Bootloader'' (hasSDBootloader m) (sdBootloaderDatFileName m) (sdBootloaderBinFileName m);
     bl \<leftarrow> dump_image ''Bootloader'' (hasBootloader m) (bootloaderDatFileName m) (bootloaderBinFileName m);
     app \<leftarrow> dump_image ''Application'' (hasApplication m) (applicationDatFileName m) (applicationBinFileName m);
     Some (''Manifest:'' @ newline @ sd @ bl @ app) }"

definition parse_manifest :: "string \<Rightarrow> (manifest \<times> string) option" where
  "parse_manifest str = do {
     (adat, abin, ahas) \<leftarrow> parse_value str ''application'';
     (sdat, sbin, shas) \<leftarrow> parse_value str ''softdevice_bootloader'';
     (bdat, bbin, bhas) \<leftarrow> parse_value str ''bootloader'';
     let m = \<lparr>hasApplication = ahas, applicationDatFileName = adat, applicationBinFileName = abin,
              hasSDBootloader = shas, sdBootloaderDatFileName = sdat, sdBootloaderBinFileName = sbin,
              hasBootloader = bhas, bootloaderDatFileName = bdat, bootloaderBinFileName = bbin\<rparr>;
     out \<leftarrow> dump_manifest m;
     Some (m, out) }"

section \<open>Searching\<close>

lemma strstr_iff_sublist: "strstr s n \<noteq> None \<longleftrightarrow> sublist n s"
  by (induction s) (auto simp: sublist_Cons_right)

lemma prefix_before: "c \<notin> set n \<Longrightarrow> prefix n (u @ c # b) \<longleftrightarrow> prefix n u"
  by (auto simp: prefix_append prefix_Cons)

text \<open>A needle without the character \<open>c\<close> lies before or behind it.\<close>

lemma strstr_sep:
  assumes "c \<notin> set n" "n \<noteq> []"
  shows "strstr (a @ c # b) n = (case strstr a n of Some t \<Rightarrow> Some (t @ c # b) | None \<Rightarrow> strstr b n)"
proof (induction a)
  case Nil
  then show ?case using assms prefix_before [of c n "[]" b] by simp
next
  case (Cons x a)
  then show ?case using assms prefix_before [of c n "x # a" b] by simp
qed

lemma strstr_quote: "quote \<notin> set a \<Longrightarrow> strstr (a @ quote # b) [quote] = Some (quote # b)"
  by (induction a) auto

lemma strstr_shorter: "strstr s n = Some t \<Longrightarrow> length t \<le> length s"
  by (induction s) (auto split: if_splits)

lemma copy_name_until:
  "i + length v < NAME_SIZE \<Longrightarrow> copy_name i (v @ quote # b) (quote # b) = v"
  by (induction v arbitrary: i) auto

lemma copy_name_full:
  "i < NAME_SIZE \<Longrightarrow> NAME_SIZE \<le> i + length v \<Longrightarrow> length (copy_name i (v @ b) b) = NAME_SIZE - i"
proof (induction v arbitrary: i)
  case (Cons c v)
  then show ?case by (cases "Suc i \<ge> NAME_SIZE") auto
qed simp

text \<open>The value behind a key: the text between the second and the third quote from the key on.\<close>

lemma fake_parser_value:
  assumes "strstr h first \<noteq> None" "strstr h second = Some (k @ quote # gap @ quote # v @ quote # post)"
    and "quote \<notin> set k" "quote \<notin> set gap" "quote \<notin> set v"
  shows "fake_parser out h first second = (if length v < OUT_SIZE then Some v else None)"
proof (cases "length v < NAME_SIZE")
  case True
  then show ?thesis
    using assms by (auto simp: fake_parser_def strstr_quote copy_name_until strcpy_def)
next
  case False
  then have "length (copy_name 0 (v @ quote # post) (quote # post)) = NAME_SIZE"
    using copy_name_full [of 0 v "quote # post"] by (simp add: NAME_SIZE_def)
  then show ?thesis
    using assms False by (auto simp: fake_parser_def strstr_quote OUT_SIZE_def NAME_SIZE_def)
qed

section \<open>What the reader does to a manifest\<close>

text \<open>A manifest as the packaging tool writes it for one image, on one line.\<close>

definition image_manifest :: "string \<Rightarrow> string \<Rightarrow> string \<Rightarrow> string" where
  "image_manifest img bin dat =
     ''{'' @ quote # ''manifest'' @ quote # '': {'' @ quote # img @ quote # '': {'' @
     quote # ''bin_file'' @ quote # '': '' @ quote # bin @ quote # '', '' @
     quote # ''dat_file'' @ quote # '': '' @ quote # dat @ quote # ''}}}''"

lemma strstr_None: "strstr s n = None \<longleftrightarrow> \<not> sublist n s"
  using strstr_iff_sublist [of s n] by auto

lemmas strstr_quoted = strstr_sep [of "CHR 0x22", folded quote_def]

lemma keys_unquoted:
  "quote \<notin> set ''dat_file''" "quote \<notin> set ''bin_file''" "quote \<notin> set ''application''"
  "quote \<notin> set ''bootloader''" "quote \<notin> set ''softdevice_bootloader''"
  by (simp_all add: quote_def)

lemma application_manifest_keys:
  assumes "quote \<notin> set bin" "quote \<notin> set dat" "\<not> sublist ''dat_file'' bin"
  defines "h \<equiv> image_manifest ''application'' bin dat"
  shows "strstr h ''application'' \<noteq> None"
    and "strstr h ''bin_file'' = Some (''bin_file'' @ quote # '': '' @ quote # bin @ quote # '', '' @
           quote # ''dat_file'' @ quote # '': '' @ quote # dat @ quote # ''}}}'')"
    and "strstr h ''dat_file'' = Some (''dat_file'' @ quote # '': '' @ quote # dat @ quote # ''}}}'')"
  using assms(1-3) unfolding h_def image_manifest_def quote_def
  by (simp_all add: strstr_sep [of "CHR 0x22"] strstr_None [THEN iffD2])

lemma application_manifest_no_bootloader:
  assumes "quote \<notin> set bin" "quote \<notin> set dat" "\<not> sublist ''bootloader'' bin" "\<not> sublist ''bootloader'' dat"
  shows "strstr (image_manifest ''application'' bin dat) ''bootloader'' = None"
  using assms unfolding image_manifest_def quote_def
  by (simp add: strstr_sep [of "CHR 0x22"] strstr_None [THEN iffD2])

lemma strstr_softdevice: "strstr s ''bootloader'' = None \<Longrightarrow> strstr s ''softdevice_bootloader'' = None"
proof -
  assume a: "strstr s ''bootloader'' = None"
  have "sublist ''bootloader'' ''softdevice_bootloader''" by code_simp
  then show ?thesis
    using a sublist_order.order_trans unfolding strstr_None by blast
qed




text \<open>The search for the file names starts at the top of the text, whatever the image.\<close>

lemma fake_parser_any_image:
  "strstr h a \<noteq> None \<Longrightarrow> strstr h b \<noteq> None \<Longrightarrow> fake_parser out h a key = fake_parser out h b key"
  by (auto simp: fake_parser_def)

lemma parse_value_any_image:
  "strstr h a \<noteq> None \<Longrightarrow> strstr h b \<noteq> None \<Longrightarrow> parse_value h a = parse_value h b"
  unfolding parse_value_def using fake_parser_any_image [of h a b] by auto

lemma parse_value_has: "parse_value h img = Some (d, b, has) \<Longrightarrow> has \<longleftrightarrow> sublist img h"
  by (auto simp: parse_value_def bind_Some_iff strstr_None split: if_splits)

text \<open>Images are not told apart: the bootloader is announced as soon as the word occurs anywhere in the
  text, so with every combined package, and any two announced images get the same two files.\<close>

theorem manifest_images_not_told_apart:
  assumes "parse_manifest str = Some (m, out)"
  shows "(hasBootloader m \<longleftrightarrow> sublist ''bootloader'' str) \<and>
    (hasSDBootloader m \<longrightarrow> hasBootloader m \<and>
       bootloaderDatFileName m = sdBootloaderDatFileName m \<and> bootloaderBinFileName m = sdBootloaderBinFileName m) \<and>
    (hasBootloader m \<and> hasApplication m \<longrightarrow>
       bootloaderDatFileName m = applicationDatFileName m \<and> bootloaderBinFileName m = applicationBinFileName m)"
proof -
  obtain ad ab ah sd sb sh bd bb bh where
    v: "parse_value str ''application'' = Some (ad, ab, ah)"
       "parse_value str ''softdevice_bootloader'' = Some (sd, sb, sh)"
       "parse_value str ''bootloader'' = Some (bd, bb, bh)"
    and m: "m = \<lparr>hasApplication = ah, applicationDatFileName = ad, applicationBinFileName = ab,
              hasSDBootloader = sh, sdBootloaderDatFileName = sd, sdBootloaderBinFileName = sb,
              hasBootloader = bh, bootloaderDatFileName = bd, bootloaderBinFileName = bb\<rparr>"
    using assms by (auto simp: parse_manifest_def bind_Some_iff Let_def)
  note has = v [THEN parse_value_has]
  have sd: "sh \<Longrightarrow> bh" using has strstr_softdevice strstr_None by auto
  have "bd = sd \<and> bb = sb" if sh
    using parse_value_any_image [of str "''softdevice_bootloader''" "''bootloader''"] v has that sd
    by (simp add: strstr_None)
  moreover have "bd = ad \<and> bb = ab" if bh ah
    using parse_value_any_image [of str "''application''" "''bootloader''"] v has that by (simp add: strstr_None)
  ultimately show ?thesis using m has sd by auto
qed

definition combined_manifest :: string where
  "combined_manifest =
     ''{'' @ quote # ''softdevice_bootloader'' @ quote # '': {'' @
       quote # ''bin_file'' @ quote # '': '' @ quote # ''sd_bl.bin'' @ quote # '', '' @
       quote # ''dat_file'' @ quote # '': '' @ quote # ''sd_bl.dat'' @ quote # ''}, '' @
     quote # ''application'' @ quote # '': {'' @
       quote # ''bin_file'' @ quote # '': '' @ quote # ''app.bin'' @ quote # '', '' @
       quote # ''dat_file'' @ quote # '': '' @ quote # ''app.dat'' @ quote # ''}}''"

theorem manifest_images_not_told_apart_witness:
  "\<exists>m out. parse_manifest combined_manifest = Some (m, out) \<and> hasApplication m \<and>
     applicationBinFileName m = Some ''sd_bl.bin'' \<and> hasBootloader m \<and> bootloaderBinFileName m = Some ''sd_bl.bin''"
proof -
  have "(case parse_manifest combined_manifest of Some (m, out) \<Rightarrow>
      hasApplication m \<and> hasSDBootloader m \<and> sdBootloaderBinFileName m = Some ''sd_bl.bin'' | None \<Rightarrow> False)"
    by code_simp
  then obtain m out where "parse_manifest combined_manifest = Some (m, out)" "hasApplication m"
      "hasSDBootloader m" "sdBootloaderBinFileName m = Some ''sd_bl.bin''"
    by (auto split: option.splits)
  then show ?thesis
    using manifest_images_not_told_apart by fastforce
qed

text \<open>A file name of 64 characters or more overruns the buffer it is copied into.\<close>

theorem long_file_name_overruns_buffer:
  assumes "strstr str img \<noteq> None" "img \<in> {''application'', ''softdevice_bootloader'', ''bootloader''}"
    and "strstr str ''dat_file'' = Some (''dat_file'' @ quote # gap @ quote # v @ quote # post)"
    and "quote \<notin> set gap" "quote \<notin> set v" "length v \<ge> 64"
  shows "parse_manifest str = None"
proof -
  have "fake_parser [] str img ''dat_file'' = None"
    using fake_parser_value [OF assms(1,3) keys_unquoted(1) assms(4,5)] assms(6) by (simp add: OUT_SIZE_def)
  then have "parse_value str img = None"
    using assms(1) by (simp add: parse_value_def)
  then show ?thesis
    using assms(2) by (auto simp: parse_manifest_def split: Option.bind_splits)
qed

theorem long_file_name_overruns_buffer_witness:
  "parse_manifest (image_manifest ''application'' ''a'' (replicate 64 CHR ''d'')) = None"
proof -
  have "\<not> sublist ''dat_file'' ''a''" "quote \<notin> set ''a''" "quote \<notin> set (replicate 64 CHR ''d'')"
    by (code_simp, code_simp, simp add: quote_def)
  note keys = application_manifest_keys [OF this(2,3,1)]
  show ?thesis
    by (rule long_file_name_overruns_buffer [OF keys(1) _ keys(3)]) (simp_all add: quote_def)
qed

end
