(* ===== verification/Zip.thy ===== *)
theory Zip
  imports Nrf_Prelude
begin

text \<open>
  \<^verbatim>\<open>zip.c\<close> and the allocation helpers of \<^verbatim>\<open>util.c\<close>: opening the package and reading one of its files into
  a buffer that doubles when it is full. The library and the kernel are parameters: what opening
  returns, what each \<^verbatim>\<open>zip_fread\<close> returns for the number of bytes it is asked for, and which
  allocations succeed. A function that ends the process returns \<open>Inl\<close>; an access outside the buffer
  is \<open>None\<close>, as everywhere. The buffer is the number of bytes allocated for it and the bytes written
  to its front. Sizes are natural numbers: \<^verbatim>\<open>size_t\<close> cannot wrap before \<open>2 ^ 63\<close> bytes are read.
\<close>

section \<open>Ending the process\<close>

datatype process_end = Exit int | Aborted

definition exit_failure :: process_end where "exit_failure = Exit 1"

definition fatal_zip :: "process_end + 'a" where
  "fatal_zip = Inl exit_failure"

section \<open>Allocation\<close>

definition xmalloc :: "(nat \<Rightarrow> bool) \<Rightarrow> nat \<Rightarrow> process_end + nat" where
  "xmalloc malloc_ok s = (if malloc_ok s then Inr s else Inl Aborted)"

definition xrealloc :: "(nat \<Rightarrow> bool) \<Rightarrow> nat \<Rightarrow> process_end + nat" where
  "xrealloc malloc_ok s = (if malloc_ok s then Inr s else Inl Aborted)"

section \<open>Reading a file of the package\<close>

definition open_zip :: "(string \<Rightarrow> int) \<Rightarrow> (int \<Rightarrow> 'z option) \<Rightarrow> string \<Rightarrow> process_end + 'z" where
  "open_zip open_fd zip_fdopen fn =
     (let fd = open_fd fn in
      if fd < 0 then Inl exit_failure
      else case zip_fdopen fd of None \<Rightarrow> Inl exit_failure | Some z \<Rightarrow> Inr z)"

text \<open>\<open>zip_fread n f\<close> is the data read (\<open>None\<close> for an error) and the file behind it.\<close>

type_synonym 'f zip_fread = "nat \<Rightarrow> 'f \<Rightarrow> bytes option \<times> 'f"

text \<open>\<open>alloc\<close> bytes are allocated, \<open>buf_sz\<close> is the variable of that name, \<open>buf\<close> what has been read.\<close>

partial_function (option) read_loop ::
  "(nat \<Rightarrow> bool) \<Rightarrow> 'f zip_fread \<Rightarrow> 'f \<Rightarrow> nat \<Rightarrow> nat \<Rightarrow> bytes \<Rightarrow> (process_end + nat \<times> bytes) option" where
  [code]: "read_loop malloc_ok fread f alloc buf_sz buf =
     (case fread (buf_sz - length buf) f of
        (None, f') \<Rightarrow> Some fatal_zip
      | (Some data, f') \<Rightarrow>
          if data = [] then Some (Inr (alloc, buf))
          else if alloc < length buf + length data then None
          else let buf = buf @ data in
            if length buf = buf_sz
            then (case xrealloc malloc_ok (2 * buf_sz) of Inl e \<Rightarrow> Some (Inl e)
                  | Inr alloc \<Rightarrow> read_loop malloc_ok fread f' alloc (2 * buf_sz) buf)
            else read_loop malloc_ok fread f' alloc buf_sz buf)"

text \<open>The buffer handed out, with the terminating NUL written behind what was read.\<close>

definition read_file_from_zip ::
  "(nat \<Rightarrow> bool) \<Rightarrow> (string \<Rightarrow> 'f option) \<Rightarrow> 'f zip_fread \<Rightarrow> string \<Rightarrow> (process_end + nat \<times> bytes) option" where
  "read_file_from_zip malloc_ok zip_fopen fread fn =
     (case zip_fopen fn of None \<Rightarrow> Some fatal_zip
      | Some f \<Rightarrow>
          (case xmalloc malloc_ok (1024 + 1) of Inl e \<Rightarrow> Some (Inl e)
           | Inr alloc \<Rightarrow> do {
               r \<leftarrow> read_loop malloc_ok fread f alloc 1024 [];
               case r of Inl e \<Rightarrow> Some (Inl e)
               | Inr (alloc, buf) \<Rightarrow>
                   if length buf < alloc then Some (Inr (length buf, buf @ [0])) else None }))"

section \<open>Files that can be read\<close>

text \<open>What \<^verbatim>\<open>zip_fread\<close> is documented to do: it reads at most as many bytes as it is asked for, in order,
  and nothing only at the end of the file. \<open>rest f\<close> is what is left to read.\<close>

definition readable :: "'f zip_fread \<Rightarrow> ('f \<Rightarrow> bytes) \<Rightarrow> bool" where
  "readable fread rest \<longleftrightarrow> (\<forall>n f. 0 < n \<longrightarrow> (\<exists>data f'. fread n f = (Some data, f') \<and>
     length data \<le> n \<and> rest f = data @ rest f' \<and> (data = [] \<longrightarrow> rest f = [])))"

lemma readableE:
  assumes "readable fread rest" "0 < n"
  obtains data f' where "fread n f = (Some data, f')" "length data \<le> n" "rest f = data @ rest f'"
    "data = [] \<longrightarrow> rest f = []"
  using assms unfolding readable_def by blast

lemma read_loop_ok:
  assumes "readable fread rest" "\<forall>n. malloc_ok n" "length buf < buf_sz" "buf_sz \<le> alloc"
  shows "\<exists>alloc'. read_loop malloc_ok fread f alloc buf_sz buf = Some (Inr (alloc', buf @ rest f)) \<and>
    length (buf @ rest f) < alloc'"
  using assms(3,4)
proof (induction "length (rest f)" arbitrary: f alloc buf_sz buf rule: less_induct)
  case less
  have pos: "0 < buf_sz - length buf" using less.prems(1) by simp
  obtain data f' where r: "fread (buf_sz - length buf) f = (Some data, f')"
      "length data \<le> buf_sz - length buf" "rest f = data @ rest f'" "data = [] \<longrightarrow> rest f = []"
    using readableE [OF assms(1) pos, of f] by metis
  note unfolded = read_loop.simps [of malloc_ok fread f alloc buf_sz buf]
  show ?case
  proof (cases "data = []")
    case True
    then show ?thesis using r less.prems unfolded by simp
  next
    case False
    then have shorter: "length (rest f') < length (rest f)" using r(3) by simp
    have fits: "length buf + length data \<le> buf_sz" using r(2) less.prems(1) by simp
    show ?thesis
    proof (cases "length buf + length data = buf_sz")
      case True
      then show ?thesis
        using less.hyps [OF shorter, of "buf @ data" "2 * buf_sz" "2 * buf_sz"] less.prems assms(2) r False unfolded
        by (auto simp: xrealloc_def)
    next
      case False
      then show ?thesis
        using less.hyps [OF shorter, of "buf @ data" buf_sz alloc] less.prems fits r \<open>data \<noteq> []\<close> unfolded
        by auto
    qed
  qed
qed

text \<open>C37 Reading a file of the package returns its size and a buffer that holds exactly its bytes and a
  terminating NUL, without ever writing outside the buffer, whatever pieces the library delivers.\<close>

theorem read_file_from_zip_whole:
  assumes "readable fread rest" "\<forall>n. malloc_ok n" "zip_fopen fn = Some f"
  shows "read_file_from_zip malloc_ok zip_fopen fread fn = Some (Inr (length (rest f), rest f @ [0]))"
proof -
  obtain alloc where "read_loop malloc_ok fread f 1025 1024 [] = Some (Inr (alloc, rest f))" "length (rest f) < alloc"
    using read_loop_ok [OF assms(1,2), of "[]" 1024 1025 f] by auto
  moreover have "malloc_ok 1025" using assms(2) by simp
  ultimately show ?thesis using assms(3) by (simp add: read_file_from_zip_def xmalloc_def)
qed

text \<open>A library that delivers at most 1000 bytes at a time from a file of 5000.\<close>

definition sample_fread :: "bytes zip_fread" where
  "sample_fread n f = (Some (take (min n 1000) f), drop (min n 1000) f)"

theorem read_file_from_zip_whole_witness:
  "read_file_from_zip (\<lambda>_. True) (\<lambda>_. Some (replicate 5000 7)) sample_fread ''app.bin'' =
     Some (Inr (5000, replicate 5000 7 @ [0]))"
proof -
  have "readable sample_fread id"
    by (auto simp: readable_def sample_fread_def min_def)
  then show ?thesis
    using read_file_from_zip_whole [of sample_fread id "\<lambda>_. True" "\<lambda>_. Some (replicate 5000 7)" "''app.bin''"]
    by simp
qed

text \<open>The ways the process ends early.\<close>

lemma read_file_from_zip_missing:
  "zip_fopen fn = None \<Longrightarrow> read_file_from_zip malloc_ok zip_fopen fread fn = Some (Inl (Exit 1))"
  by (simp add: read_file_from_zip_def fatal_zip_def exit_failure_def)

lemma read_file_from_zip_unreadable:
  "zip_fopen fn = Some f \<Longrightarrow> malloc_ok 1025 \<Longrightarrow> fst (fread 1024 f) = None \<Longrightarrow>
     read_file_from_zip malloc_ok zip_fopen fread fn = Some (Inl (Exit 1))"
  by (cases "fread 1024 f")
    (simp add: read_file_from_zip_def fatal_zip_def exit_failure_def xmalloc_def read_loop.simps)

end
