(* ===== verification/DfuTarget.thy ===== *)
theory DfuTarget
  imports Dfu
begin

text \<open>
  The other side of the transfer. \<open>target\<close> is the state of a bootloader as the DFU protocol describes
  it: the data it has executed, the object that is being received and the size that was asked for.
  \<open>dfu_target\<close> states the documented responses of such a bootloader over a transport; it is a
  hypothesis about the peripheral, and \<open>sim\<close> is a concrete transport that satisfies it. The result
  is that a transfer to such a target completes and that the target ends up with the package.
\<close>

section \<open>The protocol\<close>

record target =
  committed :: bytes
  obj :: bytes
  space :: nat

definition received :: "target \<Rightarrow> bytes" where
  "received t = committed t @ obj t"

definition ack :: "byte \<Rightarrow> bytes" where
  "ack op = [OP_CODE_RESPONSE_CODE, op, 0x01]"

definition select_response :: "u32 \<Rightarrow> target \<Rightarrow> bytes" where
  "select_response bs t = ack OP_CODE_SELECT @ put_le32 bs @
     put_le32 (word_of_nat (length (received t))) @ put_le32 (crc32_of (received t))"

definition checksum_response :: "target \<Rightarrow> bytes" where
  "checksum_response t = ack OP_CODE_CALCULATE_CHECKSUM @
     put_le32 (word_of_nat (length (received t))) @ put_le32 (crc32_of (received t))"

text \<open>
  One request and its response: the write is acknowledged and the response is notified, in either
  order and among other notifications.
\<close>

definition exchange :: "'e transport \<Rightarrow> u16 \<Rightarrow> byte \<Rightarrow> bytes \<Rightarrow> 'e \<Rightarrow> bytes \<Rightarrow> 'e \<Rightarrow> bool" where
  "exchange T cp op buf e v e' \<longleftrightarrow>
     (\<exists>rid e0 us vs c x y. write_value T cp buf e = (rid, [], e0) \<and> rid \<noteq> 0 \<and>
        ((x = WriteCb True c \<and> y = NotifyCb cp v) \<or> (x = NotifyCb cp v \<and> y = WriteCb True c)) \<and>
        polls T e0 (us @ [[x]] @ vs @ [[y]]) e' \<and>
        (\<forall>b \<in> set us \<union> set vs. \<forall>ev \<in> set b. irrelevant cp op ev))"

text \<open>A bootloader has an object of each type and works on the one that was selected or created last.\<close>

record bootloader =
  objects :: "obj_type \<Rightarrow> target"
  selected :: obj_type

text \<open>What a request for one type may do to the other: the init packet is kept, and the progress of the
  image is kept or given up when another init packet comes in.\<close>

definition others_kept :: "obj_type \<Rightarrow> bootloader \<Rightarrow> bootloader \<Rightarrow> bool" where
  "others_kept ty b b' \<longleftrightarrow> selected b' = ty \<and>
     (case ty of
        BLE_OBJ_TYPE_DATA \<Rightarrow> objects b' BLE_OBJ_TYPE_COMMAND = objects b BLE_OBJ_TYPE_COMMAND
      | BLE_OBJ_TYPE_COMMAND \<Rightarrow> objects b' BLE_OBJ_TYPE_DATA = objects b BLE_OBJ_TYPE_DATA \<or>
          received (objects b' BLE_OBJ_TYPE_DATA) = [])"

text \<open>What is known of the other side: the states in which it waits for a request, how much one write may
  carry, and the bootloader that a state stands for.\<close>

record 'e peer_view =
  settled :: "'e \<Rightarrow> bool"
  chunk_room :: nat
  boot :: "'e \<Rightarrow> bootloader"

definition leads_to :: "'e peer_view \<Rightarrow> obj_type \<Rightarrow> 'e \<Rightarrow> target \<Rightarrow> 'e \<Rightarrow> bool" where
  "leads_to V ty e t e' \<longleftrightarrow> settled V e' \<and> others_kept ty (boot V e) (boot V e') \<and> objects (boot V e') ty = t"

text \<open>The protocol, for any way to make a request and to write data.\<close>

definition dfu_protocol :: "u32 \<Rightarrow> 'e peer_view \<Rightarrow> (byte \<Rightarrow> bytes \<Rightarrow> 'e \<Rightarrow> bytes \<Rightarrow> 'e \<Rightarrow> bool) \<Rightarrow>
    (bytes \<Rightarrow> 'e \<Rightarrow> 'e \<Rightarrow> bool) \<Rightarrow> bool" where
  "dfu_protocol bs V request write \<longleftrightarrow>
     (\<forall>e ty. settled V e \<longrightarrow> (\<exists>e'. request OP_CODE_SELECT [OP_CODE_SELECT, obj_type_code ty] e
        (select_response bs (objects (boot V e) ty)) e' \<and> leads_to V ty e (objects (boot V e) ty) e')) \<and>
     (\<forall>e ty n. settled V e \<longrightarrow> 0 < n \<longrightarrow> n \<le> bs \<longrightarrow> (\<exists>e'. request OP_CODE_CREATE (create_packet ty n) e (ack OP_CODE_CREATE) e' \<and>
        leads_to V ty e ((objects (boot V e) ty)\<lparr>obj := [], space := unat n\<rparr>) e')) \<and>
     (\<forall>e ty c. settled V e \<longrightarrow> ty = selected (boot V e) \<longrightarrow> length c \<le> chunk_room V \<longrightarrow>
        length (obj (objects (boot V e) ty)) + length c \<le> space (objects (boot V e) ty) \<longrightarrow>
        (\<exists>e'. write c e e' \<and> leads_to V ty e ((objects (boot V e) ty)\<lparr>obj := obj (objects (boot V e) ty) @ c\<rparr>) e')) \<and>
     (\<forall>e ty. settled V e \<longrightarrow> ty = selected (boot V e) \<longrightarrow>
        (\<exists>e'. request OP_CODE_CALCULATE_CHECKSUM [OP_CODE_CALCULATE_CHECKSUM] e (checksum_response (objects (boot V e) ty)) e' \<and>
        leads_to V ty e (objects (boot V e) ty) e')) \<and>
     (\<forall>e ty. settled V e \<longrightarrow> ty = selected (boot V e) \<longrightarrow> obj (objects (boot V e) ty) \<noteq> [] \<longrightarrow>
        length (obj (objects (boot V e) ty)) = space (objects (boot V e) ty) \<longrightarrow>
        (\<exists>e'. request OP_CODE_EXECUTE [OP_CODE_EXECUTE] e (ack OP_CODE_EXECUTE) e' \<and>
        leads_to V ty e ((objects (boot V e) ty)\<lparr>committed := received (objects (boot V e) ty), obj := []\<rparr>) e'))"

definition written :: "'e transport \<Rightarrow> u16 \<Rightarrow> bytes \<Rightarrow> 'e \<Rightarrow> 'e \<Rightarrow> bool" where
  "written T dt c e e' \<longleftrightarrow> (\<exists>rid. write_without_response T dt c e = (rid, e') \<and> rid \<noteq> 0)"

definition dfu_target :: "'e transport \<Rightarrow> u16 \<Rightarrow> u16 \<Rightarrow> u32 \<Rightarrow> 'e peer_view \<Rightarrow> bool" where
  "dfu_target T cp dt bs V \<longleftrightarrow> dfu_protocol bs V (exchange T cp) (written T dt)"

lemma others_kept_trans: "others_kept ty b b' \<Longrightarrow> others_kept ty b' b'' \<Longrightarrow> others_kept ty b b''"
  by (cases ty) (auto simp: others_kept_def)

section \<open>Requests to a target\<close>

lemma response_for_ack [simp]: "response_for op (ack op @ v)" "response_for op (ack op)"
  by (simp_all add: response_for_def ack_def)

lemma cp_request_exchange:
  assumes "exchange T (cp_handle (ble w)) op buf (env w) v e'" "length buf < 2 ^ 16"
    and "\<not> stopped w" "response_for op v"
  shows "cp_request T op buf w = Some (int (unat (v ! 2)), answered op buf v e' w)"
  using assms cp_request_answered [of T w buf] unfolding exchange_def by metis

text \<open>The connection during a transfer.\<close>

definition connected :: "u16 \<Rightarrow> u16 \<Rightarrow> 'e world \<Rightarrow> bool" where
  "connected cp dt w \<longleftrightarrow> ble_ok (ble w) \<and> \<not> stopped w \<and> cp_handle (ble w) = cp \<and>
     data_handle (ble w) = dt \<and> 3 < unat (mtu (ble w))"

lemma connected_answered [simp]: "connected cp dt w \<Longrightarrow> connected cp dt (answered op buf v e w)"
  by (auto simp: connected_def) (auto simp: answered_def ble_ok_def store_response_def Let_def byte_code)

lemma connected_update [simp]:
  "connected cp dt (w\<lparr>trace := tr, env := e\<rparr>) \<longleftrightarrow> connected cp dt w"
  "connected cp dt (emit a w) \<longleftrightarrow> connected cp dt w"
  by (simp_all add: connected_def stopped_def emit_def)

lemma notified_answered:
  assumes "connected cp dt w" "3 \<le> length v" "length v \<le> 23"
  shows "last_notification_package_size (ble (answered op buf v e w)) = length v"
    and "array_get (last_notification_package (ble (answered op buf v e w))) 1 = Some (v ! 1)"
    and "\<exists>r. last_notification_package (ble (answered op buf v e w)) = v @ r"
  using assms by (auto simp: answered_def store_response_def Let_def connected_def ble_ok_def
      BT_ATT_DEFAULT_LE_MTU_def array_get_def nth_append)

lemma ack_nth: "ack op ! Suc 0 = op" "ack op ! 2 = 1" "length (ack op) = 3"
    "(ack op @ v) ! Suc 0 = op" "(ack op @ v) ! 2 = 1"
  by (simp_all add: ack_def)

lemma response_fields:
  "get_le32 (drop 3 (ack op @ put_le32 a @ put_le32 b @ r)) = Some a"
  "get_le32 (drop 7 (ack op @ put_le32 a @ put_le32 b @ r)) = Some b"
  "get_le32 (drop 11 (ack op @ put_le32 a @ put_le32 b @ put_le32 c @ r)) = Some c"
  by (simp_all add: ack_def drop_append codec_simps)

lemma response_lengths:
  "length (select_response bs t) = 15" "length (checksum_response t) = 11"
  by (simp_all add: select_response_def checksum_response_def ack_def codec_simps)

text \<open>The five clauses.\<close>

lemma protocol_select [rule_format]:
  "dfu_protocol bs V request write \<Longrightarrow> \<forall>e ty. settled V e \<longrightarrow> (\<exists>e'. request OP_CODE_SELECT [OP_CODE_SELECT, obj_type_code ty] e
     (select_response bs (objects (boot V e) ty)) e' \<and> leads_to V ty e (objects (boot V e) ty) e')"
  unfolding dfu_protocol_def by (elim conjE)

lemma protocol_create [rule_format]:
  "dfu_protocol bs V request write \<Longrightarrow> \<forall>e ty n. settled V e \<longrightarrow> 0 < n \<longrightarrow> n \<le> bs \<longrightarrow>
     (\<exists>e'. request OP_CODE_CREATE (create_packet ty n) e (ack OP_CODE_CREATE) e' \<and>
       leads_to V ty e ((objects (boot V e) ty)\<lparr>obj := [], space := unat n\<rparr>) e')"
  unfolding dfu_protocol_def by (elim conjE)

lemma protocol_write [rule_format]:
  "dfu_protocol bs V request write \<Longrightarrow> \<forall>e ty c. settled V e \<longrightarrow> ty = selected (boot V e) \<longrightarrow> length c \<le> chunk_room V \<longrightarrow>
     length (obj (objects (boot V e) ty)) + length c \<le> space (objects (boot V e) ty) \<longrightarrow>
     (\<exists>e'. write c e e' \<and> leads_to V ty e ((objects (boot V e) ty)\<lparr>obj := obj (objects (boot V e) ty) @ c\<rparr>) e')"
  unfolding dfu_protocol_def by (elim conjE)

lemma protocol_checksum [rule_format]:
  "dfu_protocol bs V request write \<Longrightarrow> \<forall>e ty. settled V e \<longrightarrow> ty = selected (boot V e) \<longrightarrow>
     (\<exists>e'. request OP_CODE_CALCULATE_CHECKSUM [OP_CODE_CALCULATE_CHECKSUM] e (checksum_response (objects (boot V e) ty)) e' \<and>
       leads_to V ty e (objects (boot V e) ty) e')"
  unfolding dfu_protocol_def by (elim conjE)

lemma protocol_execute [rule_format]:
  "dfu_protocol bs V request write \<Longrightarrow> \<forall>e ty. settled V e \<longrightarrow> ty = selected (boot V e) \<longrightarrow> obj (objects (boot V e) ty) \<noteq> [] \<longrightarrow>
     length (obj (objects (boot V e) ty)) = space (objects (boot V e) ty) \<longrightarrow>
     (\<exists>e'. request OP_CODE_EXECUTE [OP_CODE_EXECUTE] e (ack OP_CODE_EXECUTE) e' \<and>
       leads_to V ty e ((objects (boot V e) ty)\<lparr>committed := received (objects (boot V e) ty), obj := []\<rparr>) e')"
  unfolding dfu_protocol_def by (elim conjE)

text \<open>The connection while an object of type \<open>ty\<close> is worked on; \<open>b0\<close> is the bootloader at the start.\<close>

definition target_at :: "'e peer_view \<Rightarrow> obj_type \<Rightarrow> 'e world \<Rightarrow> target" where
  "target_at V ty w = objects (boot V (env w)) ty"

definition attached :: "'e peer_view \<Rightarrow> 'e world \<Rightarrow> bool" where
  "attached V w \<longleftrightarrow> settled V (env w) \<and> chunk_limit (mtu (ble w)) \<le> chunk_room V"

definition engaged :: "'e peer_view \<Rightarrow> obj_type \<Rightarrow> bootloader \<Rightarrow> u16 \<Rightarrow> u16 \<Rightarrow> 'e world \<Rightarrow> bool" where
  "engaged V ty b0 cp dt w \<longleftrightarrow> connected cp dt w \<and> attached V w \<and> others_kept ty b0 (boot V (env w))"

lemma engaged_emit [simp]:
  "engaged V ty b0 cp dt (emit a w) \<longleftrightarrow> engaged V ty b0 cp dt w"
  "target_at V ty (emit a w) = target_at V ty w"
  by (simp_all add: engaged_def target_at_def attached_def) (simp add: emit_def)+

lemma engaged_selected: "engaged V ty b0 cp dt w \<Longrightarrow> ty = selected (boot V (env w))"
  by (simp add: engaged_def others_kept_def)

lemma engaged_settled: "engaged V ty b0 cp dt w \<Longrightarrow> settled V (env w)"
  by (simp add: engaged_def attached_def)

text \<open>After a request that was answered.\<close>

lemma engaged_answered:
  assumes "engaged V ty b0 cp dt w" "leads_to V ty (env w) t e'"
  shows "engaged V ty b0 cp dt (answered op buf v e' w)" "target_at V ty (answered op buf v e' w) = t"
  using assms others_kept_trans [of ty b0 "boot V (env w)" "boot V e'"]
  by (simp_all add: engaged_def attached_def leads_to_def target_at_def)

lemma engaged_start:
  assumes "connected cp dt w" "attached V w" "leads_to V ty (env w) t e'"
  shows "engaged V ty (boot V (env w)) cp dt (answered op buf v e' w)" "target_at V ty (answered op buf v e' w) = t"
  using assms by (simp_all add: engaged_def attached_def leads_to_def target_at_def)

lemma request_select_target:
  assumes "dfu_target T cp dt bs V" "connected cp dt w" "attached V w" "b0 = boot V (env w)"
  obtains w1 where "request_select T ty w = Some (BLE_DFU_RESP_VAL_SUCCESS, w1)"
    "notified_op (ble w1) OP_CODE_SELECT 15" "notified_u32 (ble w1) 3 = Some bs"
    "notified_u32 (ble w1) 7 = Some (word_of_nat (length (received (target_at V ty w))))"
    "notified_u32 (ble w1) 11 = Some (crc32_of (received (target_at V ty w)))"
    "engaged V ty b0 cp dt w1" "target_at V ty w1 = target_at V ty w" "dont_resume w1 = dont_resume w"
proof -
  let ?t = "target_at V ty w" and ?v = "select_response bs (target_at V ty w)"
  have settled: "settled V (env w)" using assms(3) by (simp add: attached_def)
  obtain e' where e': "exchange T cp OP_CODE_SELECT [OP_CODE_SELECT, obj_type_code ty] (env w) ?v e'"
    "leads_to V ty (env w) ?t e'"
    using protocol_select [OF assms(1) [unfolded dfu_target_def] settled] unfolding target_at_def by blast
  let ?w1 = "answered OP_CODE_SELECT [OP_CODE_SELECT, obj_type_code ty] ?v e' w"
  have resp: "response_for OP_CODE_SELECT ?v" "?v ! 1 = OP_CODE_SELECT" "?v ! 2 = 1"
    by (simp_all add: select_response_def ack_nth)
  note note_v = notified_answered [OF assms(2), of ?v, unfolded response_lengths, simplified]
  have run: "request_select T ty w = Some (BLE_DFU_RESP_VAL_SUCCESS, ?w1)"
    unfolding request_select_def
    using cp_request_exchange [of T w OP_CODE_SELECT _ ?v e'] e' resp assms(2)
    by (simp add: connected_def BLE_DFU_RESP_VAL_SUCCESS_def)
  obtain r where r: "last_notification_package (ble ?w1) = ?v @ r" using note_v(3) by blast
  show ?thesis
  proof (rule that [OF run])
    show "notified_op (ble ?w1) OP_CODE_SELECT 15" using note_v(1,2) resp by (simp add: notified_op_def)
    show "notified_u32 (ble ?w1) 3 = Some bs" "notified_u32 (ble ?w1) 7 = Some (word_of_nat (length (received ?t)))"
      "notified_u32 (ble ?w1) 11 = Some (crc32_of (received ?t))"
      unfolding notified_u32_def r unfolding select_response_def append_assoc by (rule response_fields)+
  qed (use assms(4) engaged_start [OF assms(2,3) e'(2)] in simp_all)
qed

lemma request_checksum_target:
  assumes "dfu_target T cp dt bs V" "engaged V ty b0 cp dt w"
  obtains w1 where "request_checksum T w = Some (BLE_DFU_RESP_VAL_SUCCESS, w1)"
    "notified_op (ble w1) OP_CODE_CALCULATE_CHECKSUM 11"
    "notified_u32 (ble w1) 3 = Some (word_of_nat (length (received (target_at V ty w))))"
    "notified_u32 (ble w1) 7 = Some (crc32_of (received (target_at V ty w)))"
    "engaged V ty b0 cp dt w1" "target_at V ty w1 = target_at V ty w"
proof -
  have conn: "connected cp dt w" using assms(2) by (simp add: engaged_def)
  let ?t = "target_at V ty w" and ?v = "checksum_response (target_at V ty w)"
  obtain e' where e': "exchange T cp OP_CODE_CALCULATE_CHECKSUM [OP_CODE_CALCULATE_CHECKSUM] (env w) ?v e'"
    "leads_to V ty (env w) ?t e'"
    using protocol_checksum [OF assms(1) [unfolded dfu_target_def] engaged_settled [OF assms(2)] engaged_selected [OF assms(2)]]
    unfolding target_at_def by blast
  let ?w1 = "answered OP_CODE_CALCULATE_CHECKSUM [OP_CODE_CALCULATE_CHECKSUM] ?v e' w"
  have resp: "response_for OP_CODE_CALCULATE_CHECKSUM ?v" "?v ! 1 = OP_CODE_CALCULATE_CHECKSUM" "?v ! 2 = 1"
    by (simp_all add: checksum_response_def ack_nth)
  note note_v = notified_answered [OF conn, of ?v, unfolded response_lengths, simplified]
  have run: "request_checksum T w = Some (BLE_DFU_RESP_VAL_SUCCESS, ?w1)"
    unfolding request_checksum_def
    using cp_request_exchange [of T w OP_CODE_CALCULATE_CHECKSUM _ ?v e'] e' resp conn
    by (simp add: connected_def BLE_DFU_RESP_VAL_SUCCESS_def)
  obtain r where r: "last_notification_package (ble ?w1) = ?v @ r" using note_v(3) by blast
  show ?thesis
  proof (rule that [OF run])
    show "notified_op (ble ?w1) OP_CODE_CALCULATE_CHECKSUM 11" using note_v(1,2) resp by (simp add: notified_op_def)
    show "notified_u32 (ble ?w1) 3 = Some (word_of_nat (length (received ?t)))"
      "notified_u32 (ble ?w1) 7 = Some (crc32_of (received ?t))"
      unfolding notified_u32_def r unfolding checksum_response_def append_assoc by (rule response_fields)+
  qed (use engaged_answered [OF assms(2) e'(2)] in simp_all)
qed

lemma request_create_target:
  assumes "dfu_target T cp dt bs V" "engaged V ty b0 cp dt w" "0 < n" "n \<le> bs"
  obtains w1 where "request_create T ty n w = Some (BLE_DFU_RESP_VAL_SUCCESS, w1)" "engaged V ty b0 cp dt w1"
    "target_at V ty w1 = (target_at V ty w)\<lparr>obj := [], space := unat n\<rparr>"
proof -
  have conn: "connected cp dt w" using assms(2) by (simp add: engaged_def)
  obtain e' where e':
    "exchange T cp OP_CODE_CREATE (create_packet ty n) (env w) (ack OP_CODE_CREATE) e'"
    "leads_to V ty (env w) ((target_at V ty w)\<lparr>obj := [], space := unat n\<rparr>) e'"
    using protocol_create [OF assms(1) [unfolded dfu_target_def] engaged_settled [OF assms(2)] assms(3,4)]
    unfolding target_at_def by blast
  have "request_create T ty n w =
      Some (BLE_DFU_RESP_VAL_SUCCESS, answered OP_CODE_CREATE (create_packet ty n) (ack OP_CODE_CREATE) e' w)"
    unfolding request_create_def
    using cp_request_exchange [of T w OP_CODE_CREATE "create_packet ty n" "ack OP_CODE_CREATE" e'] e' conn
    by (simp add: connected_def BLE_DFU_RESP_VAL_SUCCESS_def ack_nth create_packet_def)
  from that [OF this engaged_answered [OF assms(2) e'(2)]] show ?thesis .
qed

lemma request_execute_target:
  assumes "dfu_target T cp dt bs V" "engaged V ty b0 cp dt w"
    and "obj (target_at V ty w) \<noteq> []" "length (obj (target_at V ty w)) = space (target_at V ty w)"
  obtains w1 where "request_execute T w = Some (BLE_DFU_RESP_VAL_SUCCESS, w1)" "engaged V ty b0 cp dt w1"
    "target_at V ty w1 = (target_at V ty w)\<lparr>committed := received (target_at V ty w), obj := []\<rparr>"
proof -
  have conn: "connected cp dt w" using assms(2) by (simp add: engaged_def)
  obtain e' where e':
    "exchange T cp OP_CODE_EXECUTE [OP_CODE_EXECUTE] (env w) (ack OP_CODE_EXECUTE) e'"
    "leads_to V ty (env w) ((target_at V ty w)\<lparr>committed := received (target_at V ty w), obj := []\<rparr>) e'"
    using protocol_execute [OF assms(1) [unfolded dfu_target_def] engaged_settled [OF assms(2)] engaged_selected [OF assms(2)]] assms(3,4)
    unfolding target_at_def by blast
  have "request_execute T w =
      Some (BLE_DFU_RESP_VAL_SUCCESS, answered OP_CODE_EXECUTE [OP_CODE_EXECUTE] (ack OP_CODE_EXECUTE) e' w)"
    unfolding request_execute_def
    using cp_request_exchange [of T w OP_CODE_EXECUTE "[OP_CODE_EXECUTE]" "ack OP_CODE_EXECUTE" e'] e' conn
    by (simp add: connected_def BLE_DFU_RESP_VAL_SUCCESS_def ack_nth)
  from that [OF this engaged_answered [OF assms(2) e'(2)]] show ?thesis .
qed

section \<open>Blocks\<close>

lemma send_block_target:
  assumes tgt: "dfu_target T cp dt bs V" and len: "length data < 2 ^ 32" and off: "unat send \<le> length data"
  shows "engaged V ty b0 cp dt w \<Longrightarrow> unat cur \<le> block_len data bs send \<Longrightarrow>
    length (obj (target_at V ty w)) + (block_len data bs send - unat cur) \<le> space (target_at V ty w) \<Longrightarrow>
    \<exists>n w'. send_block T data bs send cur w = Some (Some n, w') \<and> engaged V ty b0 cp dt w' \<and>
      target_at V ty w' = (target_at V ty w)\<lparr>obj := obj (target_at V ty w) @
        take (block_len data bs send - unat cur) (drop (unat send + unat cur) data)\<rparr>"
proof (induction "block_len data bs send - unat cur" arbitrary: cur w rule: less_induct)
  case less
  show ?case
  proof (cases "unat cur = block_len data bs send")
    case True
    then show ?thesis using send_block_end [OF len off True, of T w] less.prems by simp
  next
    case False
    with less.prems(2) have more: "unat cur < block_len data bs send" by simp
    have conn: "connected cp dt w" and kept: "others_kept ty b0 (boot V (env w))" and att: "attached V w"
      using less.prems(1) by (simp_all add: engaged_def)
    have m: "3 < unat (mtu (ble w))" using conn by (simp add: connected_def)
    define n where "n = min (min (chunk_limit (mtu (ble w))) (length data - unat send - unat cur))
      (unat bs - unat cur)"
    define c where "c = take n (drop (unat send + unat cur) data)"
    note step = send_block_step [OF len m more, folded n_def, folded c_def]
    have room: "length (obj (target_at V ty w)) + length c \<le> space (target_at V ty w)"
      using less.prems(3) step(3,5) by simp
    have "length c \<le> chunk_room V" using step(4,5) att by (simp add: attached_def)
    then obtain rid e1 where wr: "write_without_response T dt c (env w) = (rid, e1)" "rid \<noteq> 0"
      "settled V e1" "objects (boot V e1) ty = (target_at V ty w)\<lparr>obj := obj (target_at V ty w) @ c\<rparr>"
      "others_kept ty (boot V (env w)) (boot V e1)"
      using protocol_write [OF tgt [unfolded dfu_target_def] engaged_settled [OF less.prems(1)] engaged_selected [OF less.prems(1)]] room
      unfolding target_at_def written_def leads_to_def by blast
    let ?w1 = "w\<lparr>trace := trace w @ [data_write w c], env := e1\<rparr>"
    have "length c < 2 ^ 16" using step(4,5) by (simp add: chunk_limit_def)
    then have sent: "ble_send_data_noresp T w c = (EXIT_SUCCESS, ?w1)"
      using ble_send_data_noresp_small [of c T w rid e1] wr conn by (simp add: connected_def)
    have w1: "engaged V ty b0 cp dt ?w1" "target_at V ty ?w1 = (target_at V ty w)\<lparr>obj := obj (target_at V ty w) @ c\<rparr>"
      using conn att wr(3,4) others_kept_trans [OF kept wr(5)] by (simp_all add: engaged_def target_at_def attached_def)
    let ?cur = "cur + word_of_nat n"
    have eq: "send_block T data bs send cur w = send_block T data bs send ?cur ?w1"
      using step(1) sent by simp
    have "block_len data bs send - unat ?cur < block_len data bs send - unat cur"
      using step(2,6) more by simp
    from less.hyps [OF this, of ?w1] obtain k w' where
      rec: "send_block T data bs send ?cur ?w1 = Some (Some k, w')" "engaged V ty b0 cp dt w'"
      "target_at V ty w' = (target_at V ty ?w1)\<lparr>obj := obj (target_at V ty ?w1) @
        take (block_len data bs send - unat ?cur) (drop (unat send + unat ?cur) data)\<rparr>"
      using less.prems step(3,5,6) w1 by auto
    have "c @ take (block_len data bs send - unat ?cur) (drop (unat send + unat ?cur) data) =
        take (block_len data bs send - unat cur) (drop (unat send + unat cur) data)"
    proof -
      have "block_len data bs send - unat cur = n + (block_len data bs send - unat ?cur)"
        using step(3,6) by simp
      then show ?thesis by (simp add: c_def step(6) take_add add.assoc) (simp add: add.commute add.left_commute)
    qed
    then show ?thesis using rec w1(2) by (simp add: eq)
  qed
qed

section \<open>The whole transfer\<close>

text \<open>Between blocks: everything before \<open>send\<close> is executed, and an object for the next block exists.\<close>

definition block_ready :: "u32 \<Rightarrow> bytes \<Rightarrow> u32 \<Rightarrow> target \<Rightarrow> bool" where
  "block_ready bs data send t \<longleftrightarrow> committed t = take (unat send) data \<and> obj t = [] \<and>
     space t = block_len data bs send"

lemma clamp_transfer_size_nat:
  assumes "length data < 2 ^ 32" "unat off \<le> length data"
  shows "unat (clamp_transfer_size data t off) = min (unat t) (length data - unat off)"
proof -
  have rem: "remaining data off = word_of_nat (length data - unat off)"
    unfolding remaining_def size_of_def ucast_64_of_nat using assms(2) by (simp only: of_nat_diff)
  have u: "unat (remaining data off) = length data - unat off"
    unfolding rem using assms(1) by (subst unat_word_of_nat_64) auto
  have c: "ucast (remaining data off) = (word_of_nat (length data - unat off) :: u32)"
    unfolding rem using assms(1) by (subst ucast_of_nat_32) auto
  have "unat (ucast (remaining data off) :: u32) = length data - unat off"
    unfolding c using assms(1) by (subst unat_word_of_nat_32) auto
  then show ?thesis
    by (auto simp: clamp_transfer_size_def word_less_nat_alt u unat_ucast_64 min_def)
qed

lemma crc32_compute_received:
  assumes "length data < 2 ^ 32" "k \<le> length data"
  shows "crc32_compute data (word_of_nat k) None = Some (crc32_of (take k data))"
  using assms by (simp add: crc32_compute_prefix unat_word_of_nat_32)

lemma check_block_target:
  assumes tgt: "dfu_target T cp dt bs V" and len: "length data < 2 ^ 32"
    and conn: "engaged V ty b0 cp dt w" and in_data: "unat send < length data" and bs: "bs \<noteq> 0"
    and t: "unat t = block_len data bs send"
    and got: "target_at V ty w = \<lparr>committed = take (unat send) data,
      obj = take (block_len data bs send) (drop (unat send) data), space = block_len data bs send\<rparr>"
  defines "k \<equiv> unat send + block_len data bs send"
  obtains (finished) w' where "check_block T data ty send t w = Some (Inl BLE_DFU_RESP_VAL_SUCCESS, w')"
      "engaged V ty b0 cp dt w'" "committed (target_at V ty w') = data" "obj (target_at V ty w') = []"
  | (another) off t' w' where "check_block T data ty send t w = Some (Inr (off, t'), w')"
      "engaged V ty b0 cp dt w'" "unat off = k" "k < length data" "unat t' = block_len data bs off"
      "block_ready bs data off (target_at V ty w')"
proof -
  have pos: "0 < block_len data bs send" using in_data bs by (simp add: block_len_def unat_gt_0)
  have k: "0 < k" "k \<le> length data" using pos by (auto simp: k_def block_len_def)
  let ?off = "word_of_nat k :: u32"
  have off: "unat ?off = k" using k len by (subst unat_word_of_nat_32) auto
  have off0: "?off \<noteq> 0" using off k(1) by auto
  have rec: "received (target_at V ty w) = take k data" by (simp add: received_def got k_def take_add)
  have reclen: "length (received (target_at V ty w)) = k" using rec k(2) by simp
  obtain w1 where w1: "request_checksum T w = Some (BLE_DFU_RESP_VAL_SUCCESS, w1)"
    "notified_op (ble w1) OP_CODE_CALCULATE_CHECKSUM 11" "notified_u32 (ble w1) 3 = Some ?off"
    "notified_u32 (ble w1) 7 = Some (crc32_of (take k data))" "engaged V ty b0 cp dt w1" "target_at V ty w1 = target_at V ty w"
    using request_checksum_target [OF tgt conn] unfolding reclen unfolding rec by metis
  have full: "obj (target_at V ty w1) \<noteq> []" "length (obj (target_at V ty w1)) = space (target_at V ty w1)"
    using w1(6) got pos in_data by (auto simp: block_len_def)
  obtain w2 where w2: "request_execute T w1 = Some (BLE_DFU_RESP_VAL_SUCCESS, w2)" "engaged V ty b0 cp dt w2"
    "target_at V ty w2 = (target_at V ty w)\<lparr>committed := take k data, obj := []\<rparr>"
    using request_execute_target [OF tgt w1(5) full] unfolding w1(6) rec by metis
  have ge: "(ucast ?off :: u64) \<ge> size_of data \<longleftrightarrow> k = length data"
    unfolding size_of_def word_le_nat_alt unat_ucast_64 off using len k(2) by (auto simp: unat_word_of_nat_64)
  note crc = crc32_compute_received [OF len k(2)]
  show ?thesis
  proof (cases "k = length data")
    case True
    have "check_block T data ty send t w = Some (Inl BLE_DFU_RESP_VAL_SUCCESS, w2)"
      using w1(1-4) w2(1) ge True crc off0 by (simp add: check_block_def)
    from finished [OF this w2(2)] w2(3) True show ?thesis by simp
  next
    case False
    with k(2) have less: "k < length data" by simp
    let ?t = "clamp_transfer_size data t ?off"
    have "block_len data bs send = unat bs"
      using less in_data by (auto simp: k_def block_len_def min_def split: if_splits)
    then have t': "unat ?t = block_len data bs ?off"
      using clamp_transfer_size_nat [OF len, of ?off t] off k(2) t by (simp add: block_len_def)
    have "0 < unat ?t" "unat ?t \<le> unat bs" using t' less off bs by (auto simp: block_len_def unat_gt_0)
    then have range: "0 < ?t" "?t \<le> bs" by (simp_all add: word_less_nat_alt word_le_nat_alt)
    obtain w3 where w3: "request_create T ty ?t w2 = Some (BLE_DFU_RESP_VAL_SUCCESS, w3)" "engaged V ty b0 cp dt w3"
      "target_at V ty w3 = (target_at V ty w2)\<lparr>obj := [], space := unat ?t\<rparr>"
      by (rule request_create_target [OF tgt w2(2) range])
    have "check_block T data ty send t w = Some (Inr (?off, ?t), w3)"
      using w1(1-4) w2(1) w3(1) ge False crc off0 by (simp add: check_block_def create_next_def Let_def)
    from another [OF this w3(2) off less t'] w3(3) w2(3) t' off show ?thesis
      by (simp add: block_ready_def)
  qed
qed

lemma send_blocks_target:
  assumes tgt: "dfu_target T cp dt bs V" and len: "length data < 2 ^ 32" and bs: "bs \<noteq> 0"
  shows "engaged V ty b0 cp dt w \<Longrightarrow> unat send < length data \<Longrightarrow> unat t = block_len data bs send \<Longrightarrow>
    block_ready bs data send (target_at V ty w) \<Longrightarrow>
    \<exists>w'. send_blocks T data ty bs send t w = Some (BLE_DFU_RESP_VAL_SUCCESS, w') \<and> engaged V ty b0 cp dt w' \<and>
      committed (target_at V ty w') = data \<and> obj (target_at V ty w') = []"
proof (induction "length data - unat send" arbitrary: send t w rule: less_induct)
  case less
  let ?s = "target_at V ty w"
  have start: "unat (0 :: u32) \<le> block_len data bs send"
    "length (obj ?s) + (block_len data bs send - unat (0 :: u32)) \<le> space ?s"
    using less.prems(4) by (simp_all add: block_ready_def)
  obtain n w1 where w1: "send_block T data bs send 0 w = Some (Some n, w1)" "engaged V ty b0 cp dt w1"
    "target_at V ty w1 = ?s\<lparr>obj := obj ?s @ take (block_len data bs send) (drop (unat send) data)\<rparr>"
    using send_block_target [OF tgt len less_imp_le [OF less.prems(2)] less.prems(1) start] by auto
  define w2 where "w2 = pause_after_partial_block n bs w1"
  have w2: "engaged V ty b0 cp dt w2" "target_at V ty w2 = target_at V ty w1"
    using w1(2) by (simp_all add: w2_def pause_after_partial_block_def)
  have got: "target_at V ty w2 = \<lparr>committed = take (unat send) data,
      obj = take (block_len data bs send) (drop (unat send) data), space = block_len data bs send\<rparr>"
    using less.prems(4) w2(2) w1(3) by (simp add: block_ready_def)
  show ?case
  proof (rule check_block_target [OF tgt len w2(1) less.prems(2) bs less.prems(3) got])
    fix w' assume "check_block T data ty send t w2 = Some (Inl BLE_DFU_RESP_VAL_SUCCESS, w')"
      "engaged V ty b0 cp dt w'" "committed (target_at V ty w') = data" "obj (target_at V ty w') = []"
    then show ?thesis by (subst send_blocks.simps) (simp add: w1(1) w2_def)
  next
    fix off t' w'
    assume run: "check_block T data ty send t w2 = Some (Inr (off, t'), w')"
      and w': "engaged V ty b0 cp dt w'" "unat off = unat send + block_len data bs send"
        "unat send + block_len data bs send < length data" "unat t' = block_len data bs off"
        "block_ready bs data off (target_at V ty w')"
    have eq: "send_blocks T data ty bs send t w = send_blocks T data ty bs off t' w'"
      using run by (subst send_blocks.simps) (simp add: w1(1) w2_def)
    have "0 < block_len data bs send" using less.prems(2) bs by (simp add: block_len_def unat_gt_0)
    then have "length data - unat off < length data - unat send" "unat off < length data" using w' by auto
    from less.hyps [OF this(1) w'(1) this(2) w'(4,5)] show ?thesis by (simp add: eq)
  qed
qed

lemma start_transfer_target:
  assumes tgt: "dfu_target T cp dt bs V" and len: "length data < 2 ^ 32" and bs: "bs \<noteq> 0"
    and conn: "engaged V ty b0 cp dt w" and send: "unat send \<le> length data"
    and got: "committed (target_at V ty w) = take (unat send) data" "obj (target_at V ty w) = []"
  shows "\<exists>w'. start_transfer T data ty bs send w = Some (BLE_DFU_RESP_VAL_SUCCESS, w') \<and> engaged V ty b0 cp dt w' \<and>
    committed (target_at V ty w') = data \<and> obj (target_at V ty w') = []"
proof -
  let ?t = "initial_transfer_size data bs send"
  have "unat ?t = min (min (length data) (unat bs)) (length data - unat send)"
    unfolding initial_transfer_size_nat [OF len send] using len by (subst unat_word_of_nat_32) auto
  then have t: "unat ?t = block_len data bs send" by (auto simp: block_len_def)
  show ?thesis
  proof (cases "unat send = length data")
    case True
    then have "?t = 0" using t by (simp add: block_len_def unat_eq_0)
    with True got conn show ?thesis by (simp add: start_transfer_def)
  next
    case False
    with send have less: "unat send < length data" by simp
    with t bs have "0 < unat ?t" "unat ?t \<le> unat bs" by (auto simp: block_len_def unat_gt_0)
    then have range: "0 < ?t" "?t \<le> bs" by (simp_all add: word_less_nat_alt word_le_nat_alt)
    obtain w1 where w1: "request_create T ty ?t w = Some (BLE_DFU_RESP_VAL_SUCCESS, w1)" "engaged V ty b0 cp dt w1"
      "target_at V ty w1 = (target_at V ty w)\<lparr>obj := [], space := unat ?t\<rparr>"
      by (rule request_create_target [OF tgt conn range])
    have "block_ready bs data send (target_at V ty w1)" using w1(3) t got by (simp add: block_ready_def)
    from send_blocks_target [OF tgt len bs w1(2) less t this] show ?thesis
      using w1(1) range(1) by (auto simp: start_transfer_def Let_def)
  qed
qed

text \<open>
  What the target may hold when the transfer starts: nothing, or a prefix of the package whose last
  object is complete but not executed, as after an interrupted transfer.
\<close>

definition resumable :: "u32 \<Rightarrow> bytes \<Rightarrow> target \<Rightarrow> bool" where
  "resumable bs data t \<longleftrightarrow>
     received t = [] \<or>
     (received t = take (length (received t)) data \<and>
      (length (received t) mod unat bs = 0 \<or> length (received t) = length data) \<and>
      obj t \<noteq> [] \<and> length (obj t) = space t)"

lemma transfer_to_target:
  assumes tgt: "dfu_target T cp dt bs V" and len: "length data < 2 ^ 32" and bs: "bs \<noteq> 0"
    and conn: "connected cp dt w" "attached V w" and res: "resumable bs data (target_at V ty w)"
    and again: "received (target_at V ty w) = [] \<or> ty = BLE_OBJ_TYPE_DATA \<or> \<not> dont_resume w"
  shows "\<exists>w'. dfuSendPackage T w data ty = Some (BLE_DFU_RESP_VAL_SUCCESS, w') \<and> engaged V ty (boot V (env w)) cp dt w' \<and>
    committed (target_at V ty w') = data"
proof -
  define b0 where "b0 = boot V (env w)"
  let ?r = "received (target_at V ty w)" let ?k = "length ?r" let ?off = "word_of_nat ?k :: u32"
  obtain w1 where w1: "request_select T ty w = Some (BLE_DFU_RESP_VAL_SUCCESS, w1)"
    "notified_op (ble w1) OP_CODE_SELECT 15" "notified_u32 (ble w1) 3 = Some bs"
    "notified_u32 (ble w1) 7 = Some ?off" "notified_u32 (ble w1) 11 = Some (crc32_of ?r)"
    "engaged V ty b0 cp dt w1" "target_at V ty w1 = target_at V ty w" "dont_resume w1 = dont_resume w"
    using request_select_target [OF tgt conn b0_def] by metis
  note sel = dfuSendPackage_selected [OF w1(1-5), of data]
  show ?thesis
  proof (cases "?r = []")
    case True
    then have "resume_phase T data ty bs ?off (crc32_of ?r) w1 = Some (Inr 0, w1)"
      by (simp add: resume_phase_def)
    moreover have "committed (target_at V ty w1) = take (unat (0 :: u32)) data" "obj (target_at V ty w1) = []"
      using True w1(7) by (simp_all add: received_def)
    ultimately show ?thesis
      using start_transfer_target [OF tgt len bs w1(6), of 0] by (auto simp: sel b0_def)
  next
    case False
    with res have r: "?r = take ?k data" "?k mod unat bs = 0 \<or> ?k = length data"
      "obj (target_at V ty w) \<noteq> []" "length (obj (target_at V ty w)) = space (target_at V ty w)"
      by (auto simp: resumable_def)
    from r(1) have k: "?k \<le> length data" by (metis length_take min.cobounded1)
    have off: "unat ?off = ?k" using k len by (subst unat_word_of_nat_32) auto
    have off0: "0 < ?off" using off False by (simp add: word_less_nat_alt)
    obtain w2 where w2: "request_execute T w1 = Some (BLE_DFU_RESP_VAL_SUCCESS, w2)" "engaged V ty b0 cp dt w2"
      "target_at V ty w2 = (target_at V ty w)\<lparr>committed := ?r, obj := []\<rparr>"
      using request_execute_target [OF tgt w1(6)] r(3,4) unfolding w1(7) by metis
    have crc: "crc32_compute data ?off None = Some (crc32_of ?r)"
      using crc32_compute_received [OF len k] r(1) by simp
    have boundary: "?off mod bs = 0 \<or> (ucast ?off :: u64) = size_of data"
      using r(2)
    proof
      assume "?k mod unat bs = 0"
      then have "unat (?off mod bs) = 0" by (simp only: unat_mod off)
      then show ?thesis by (simp only: unat_eq_0 simp_thms)
    next
      assume "?k = length data"
      then show ?thesis unfolding size_of_def ucast_64_of_nat off by simp
    qed
    have "resume_phase T data ty bs ?off (crc32_of ?r) w1 = Some (Inr ?off, w2)"
      using off0 crc bs boundary w2(1) again False w1(8) by (auto simp: resume_phase_def)
    moreover have "committed (target_at V ty w2) = take (unat ?off) data" "obj (target_at V ty w2) = []"
      unfolding off using w2(3) r(1) by simp_all
    ultimately show ?thesis
      using start_transfer_target [OF tgt len bs w2(2), of ?off] k off by (auto simp: sel b0_def)
  qed
qed

section \<open>A concrete transport\<close>

text \<open>
  A bootloader behind a transport that answers every control point write with the write response and
  then the notification, one per poll. It shows that \<open>dfu_target\<close> can hold.
\<close>

record sim =
  sim_boot :: bootloader
  sim_queue :: "ble_event list list"

definition get_size :: "bytes \<Rightarrow> nat" where
  "get_size buf = (case get_le32 (drop 2 buf) of Some n \<Rightarrow> unat n | None \<Rightarrow> 0)"

definition get_type :: "bytes \<Rightarrow> obj_type" where
  "get_type buf = (if buf ! 1 = 0x01 then BLE_OBJ_TYPE_COMMAND else BLE_OBJ_TYPE_DATA)"

definition sim_put :: "obj_type \<Rightarrow> target \<Rightarrow> bootloader \<Rightarrow> bootloader" where
  "sim_put ty t b = \<lparr>objects = (objects b)(ty := t), selected = ty\<rparr>"

definition sim_answer :: "u32 \<Rightarrow> bytes \<Rightarrow> bootloader \<Rightarrow> bytes \<times> bootloader" where
  "sim_answer bs buf b =
     (if hd buf = OP_CODE_SELECT
      then let ty = get_type buf; t = objects b ty in (select_response bs t, sim_put ty t b)
      else if hd buf = OP_CODE_CREATE
      then let ty = get_type buf; t = objects b ty in
        (ack OP_CODE_CREATE, sim_put ty (t\<lparr>obj := [], space := get_size buf\<rparr>) b)
      else let ty = selected b; t = objects b ty in
        if hd buf = OP_CODE_CALCULATE_CHECKSUM then (checksum_response t, sim_put ty t b)
        else (ack OP_CODE_EXECUTE, sim_put ty (t\<lparr>committed := received t, obj := []\<rparr>) b))"

definition sim_write :: "bytes \<Rightarrow> bootloader \<Rightarrow> bootloader" where
  "sim_write c b =
     (let ty = selected b; t = objects b ty in sim_put ty (t\<lparr>obj := obj t @ c\<rparr>) b)"

definition sim_transport :: "u32 \<Rightarrow> u16 \<Rightarrow> sim transport" where
  "sim_transport bs cp =
     \<lparr>is_ready = (\<lambda>_. True),
      write_value = (\<lambda>h buf e. case sim_answer bs buf (sim_boot e) of (v, b) \<Rightarrow>
        (1, [], \<lparr>sim_boot = b, sim_queue = [[WriteCb True 0], [NotifyCb cp v]]\<rparr>)),
      write_without_response = (\<lambda>h c e. (1, e\<lparr>sim_boot := sim_write c (sim_boot e)\<rparr>)),
      register_notify = (\<lambda>h e. (1, [RegisterNotifyCb 0], e)),
      poll_events = (\<lambda>e. case sim_queue e of [] \<Rightarrow> None | evs # q \<Rightarrow> Some (evs, e\<lparr>sim_queue := q\<rparr>)),
      database = (\<lambda>_. gatt_db_new)\<rparr>"

text \<open>The database that discovery leaves plays no part in a transfer.\<close>

definition sim_with_db :: "u32 \<Rightarrow> u16 \<Rightarrow> gatt_db \<Rightarrow> sim transport" where
  "sim_with_db bs cp db = (sim_transport bs cp)\<lparr>database := \<lambda>_. db\<rparr>"

lemma polls_ext: "poll_events T = poll_events U \<Longrightarrow> polls T e bss e' = polls U e bss e'"
  by (induction bss arbitrary: e) auto

lemma sim_exchange:
  assumes "sim_answer bs buf (sim_boot e) = (v, b)"
  shows "exchange (sim_with_db bs cp db) cp op buf e v \<lparr>sim_boot = b, sim_queue = []\<rparr>"
  unfolding exchange_def
  by (intro exI [of _ 1] exI [of _ "\<lparr>sim_boot = b, sim_queue = [[WriteCb True 0], [NotifyCb cp v]]\<rparr>"]
      exI [of _ "[]"] exI [of _ 0] exI [of _ "WriteCb True 0"] exI [of _ "NotifyCb cp v"])
    (simp add: sim_with_db_def sim_transport_def assms)

lemma op_codes_differ:
  "OP_CODE_CREATE \<noteq> OP_CODE_SELECT" "OP_CODE_CALCULATE_CHECKSUM \<noteq> OP_CODE_SELECT"
  "OP_CODE_CALCULATE_CHECKSUM \<noteq> OP_CODE_CREATE" "OP_CODE_EXECUTE \<noteq> OP_CODE_SELECT"
  "OP_CODE_EXECUTE \<noteq> OP_CODE_CREATE" "OP_CODE_EXECUTE \<noteq> OP_CODE_CALCULATE_CHECKSUM"
  by (simp_all add: OP_CODE_CREATE_def OP_CODE_SELECT_def OP_CODE_CALCULATE_CHECKSUM_def OP_CODE_EXECUTE_def)

lemma low_byte: "ucast (x AND 0xFF) = (ucast (x :: u32) :: byte)"
proof -
  have "x AND 0xFF = take_bit 8 x" by (simp add: take_bit_eq_mask mask_eq_exp_minus_1)
  then show ?thesis by (auto intro!: bit_word_eqI simp: bit_simps)
qed

lemma create_packet_size: "get_size (create_packet ty n) = unat n"
proof -
  have "create_packet ty n = [OP_CODE_CREATE, obj_type_code ty] @ put_le32 n"
    by (simp add: create_packet_def put_le32_def low_byte)
  then show ?thesis by (simp add: get_size_def codec_simps)
qed

lemma get_type_code:
  "get_type [op, obj_type_code ty] = ty" "get_type (create_packet ty n) = ty"
  by (cases ty; simp add: get_type_def create_packet_def)+

definition sim_view :: "sim peer_view" where
  "sim_view = \<lparr>settled = \<lambda>_. True, chunk_room = 514, boot = sim_boot\<rparr>"

lemma sim_view_simps [simp]: "settled sim_view e" "chunk_room sim_view = 514" "boot sim_view = sim_boot"
  by (simp_all add: sim_view_def)

lemma sim_put_kept: "others_kept ty b (sim_put ty t b)" "objects (sim_put ty t b) ty = t"
  by (cases ty; simp add: others_kept_def sim_put_def)+

lemmas sim_facts = sim_answer_def op_codes_differ get_type_code sim_put_kept create_packet_size Let_def

text \<open>Anything that answers and stores as this bootloader does follows the protocol.\<close>

lemma answers_as_sim:
  assumes request: "\<And>op buf e v b. settled V e \<Longrightarrow> length buf \<le> 6 \<Longrightarrow> sim_answer bs buf (boot V e) = (v, b) \<Longrightarrow>
      \<exists>e'. request op buf e v e' \<and> settled V e' \<and> boot V e' = b"
    and stores: "\<And>c e. settled V e \<Longrightarrow> length c \<le> chunk_room V \<Longrightarrow>
      \<exists>e'. write c e e' \<and> settled V e' \<and> boot V e' = sim_write c (boot V e)"
  shows "dfu_protocol bs V request write"
  unfolding dfu_protocol_def
proof (intro conjI allI impI)
  fix e ty n assume e: "settled V e"
  have "sim_answer bs [OP_CODE_SELECT, obj_type_code ty] (boot V e) =
      (select_response bs (objects (boot V e) ty), sim_put ty (objects (boot V e) ty) (boot V e))"
    by (simp add: sim_facts)
  from request [OF e _ this, of OP_CODE_SELECT] show "\<exists>e'. request OP_CODE_SELECT [OP_CODE_SELECT, obj_type_code ty] e
      (select_response bs (objects (boot V e) ty)) e' \<and> leads_to V ty e (objects (boot V e) ty) e'"
    by (auto simp: leads_to_def sim_put_kept)
  have "hd (create_packet ty n) = OP_CODE_CREATE" "length (create_packet ty n) \<le> 6" by (simp_all add: create_packet_def)
  moreover from this have "sim_answer bs (create_packet ty n) (boot V e) = (ack OP_CODE_CREATE,
      sim_put ty ((objects (boot V e) ty)\<lparr>obj := [], space := unat n\<rparr>) (boot V e))" by (simp add: sim_facts)
  ultimately show "\<exists>e'. request OP_CODE_CREATE (create_packet ty n) e (ack OP_CODE_CREATE) e' \<and>
      leads_to V ty e ((objects (boot V e) ty)\<lparr>obj := [], space := unat n\<rparr>) e'"
    using request [OF e, of "create_packet ty n" _ _ OP_CODE_CREATE] by (auto simp: leads_to_def sim_put_kept)
next
  fix e ty assume e: "settled V e" and ty: "ty = selected (boot V e)"
  have "sim_answer bs [OP_CODE_CALCULATE_CHECKSUM] (boot V e) =
      (checksum_response (objects (boot V e) ty), sim_put ty (objects (boot V e) ty) (boot V e))"
    by (simp add: sim_facts ty)
  from request [OF e _ this, of OP_CODE_CALCULATE_CHECKSUM]
  show "\<exists>e'. request OP_CODE_CALCULATE_CHECKSUM [OP_CODE_CALCULATE_CHECKSUM] e (checksum_response (objects (boot V e) ty)) e' \<and>
      leads_to V ty e (objects (boot V e) ty) e'"
    by (auto simp: leads_to_def sim_put_kept)
  have "sim_answer bs [OP_CODE_EXECUTE] (boot V e) = (ack OP_CODE_EXECUTE,
      sim_put ty ((objects (boot V e) ty)\<lparr>committed := received (objects (boot V e) ty), obj := []\<rparr>) (boot V e))"
    by (simp add: sim_facts ty)
  from request [OF e _ this, of OP_CODE_EXECUTE]
  show "\<exists>e'. request OP_CODE_EXECUTE [OP_CODE_EXECUTE] e (ack OP_CODE_EXECUTE) e' \<and>
      leads_to V ty e ((objects (boot V e) ty)\<lparr>committed := received (objects (boot V e) ty), obj := []\<rparr>) e'"
    by (auto simp: leads_to_def sim_put_kept)
next
  fix e ty and c :: bytes assume e: "settled V e" and ty: "ty = selected (boot V e)" and c: "length c \<le> chunk_room V"
  show "\<exists>e'. write c e e' \<and> leads_to V ty e ((objects (boot V e) ty)\<lparr>obj := obj (objects (boot V e) ty) @ c\<rparr>) e'"
    using stores [OF e c] ty by (auto simp: leads_to_def sim_put_kept sim_write_def Let_def)
qed

lemma sim_db_is_target: "dfu_target (sim_with_db bs cp db) cp dt bs sim_view"
  unfolding dfu_target_def
proof (rule answers_as_sim)
  fix op buf e v b assume "sim_answer bs buf (boot sim_view e) = (v, b)"
  then have "sim_answer bs buf (sim_boot e) = (v, b)" by simp
  from sim_exchange [OF this] show "\<exists>e'. exchange (sim_with_db bs cp db) cp op buf e v e' \<and> settled sim_view e' \<and> boot sim_view e' = b"
    by force
next
  fix c e show "\<exists>e'. written (sim_with_db bs cp db) dt c e e' \<and> settled sim_view e' \<and> boot sim_view e' = sim_write c (boot sim_view e)"
    by (simp add: written_def sim_with_db_def sim_transport_def)
qed

lemma sim_is_target: "dfu_target (sim_transport bs cp) cp dt bs sim_view"
  using sim_db_is_target [of bs cp gatt_db_new] by (simp add: sim_with_db_def sim_transport_def)

text \<open>A connection at the default MTU.\<close>

definition idle_ble :: ble where
  "idle_ble = \<lparr>dst_addr = [], mtu = 23, notify_id = 1, cp_handle = 0x0f, cccd_handle = 0x10,
     data_handle = 0x0d, btnless_handle = 0, notify_waiting_for_op = -1, notify_code = -1,
     extended_notify_code = -1, notify_pkts = 0, notify_waiting_for_pkts = 0,
     last_notification_package_size = 0, last_notification_package = replicate 23 0, debug = 0\<rparr>"

definition idle_world :: "'e \<Rightarrow> 'e world" where
  "idle_world e = \<lparr>epoll_terminate = False, exit_status = 0, fatal_error = False, ble = idle_ble,
     dont_resume = False, trace = [], env = e\<rparr>"

lemma idle_connected: "connected 0x0f 0x0d (idle_world e)"
  by (simp add: connected_def idle_world_def idle_ble_def stopped_def ble_ok_def BT_ATT_DEFAULT_LE_MTU_def)

text \<open>A transport that plays a fixed list of batches of callbacks.\<close>

definition script_transport :: "ble_event list list transport" where
  "script_transport =
     \<lparr>is_ready = (\<lambda>_. True), write_value = (\<lambda>h buf e. (1, [], e)),
      write_without_response = (\<lambda>h c e. (1, e)), register_notify = (\<lambda>h e. (1, [RegisterNotifyCb 0], e)),
      poll_events = (\<lambda>e. case e of [] \<Rightarrow> None | evs # q \<Rightarrow> Some (evs, q)), database = (\<lambda>_. gatt_db_new)\<rparr>"

lemma sim_simps [simp]: "fst (snd (write_value (sim_transport bs cp) h v e)) = []"
  by (simp add: sim_transport_def split: prod.splits)

lemma idle_world_simps [simp]:
  "env (idle_world e) = e" "ble (idle_world e) = idle_ble" "dont_resume (idle_world e) = False"
  by (simp_all add: idle_world_def)

definition sim_at :: "target \<Rightarrow> sim world" where
  "sim_at t = idle_world \<lparr>sim_boot = \<lparr>objects = \<lambda>_. t, selected = BLE_OBJ_TYPE_DATA\<rparr>, sim_queue = []\<rparr>"

lemma sim_at_simps [simp]:
  "target_at sim_view ty (sim_at t) = t" "attached sim_view (sim_at t)" "ble (sim_at t) = idle_ble" "dont_resume (sim_at t) = False"
  "connected 0x0f 0x0d (sim_at t)"
  by (simp_all add: sim_at_def idle_connected target_at_def attached_def chunk_limit_def)

lemma sim_engaged: "engaged sim_view BLE_OBJ_TYPE_DATA (sim_boot (env (sim_at t))) 0x0f 0x0d (sim_at t)"
  by (simp add: engaged_def others_kept_def) (simp add: sim_at_def)

lemma sim_select:
  obtains w1 where "request_select (sim_transport bs 0x0f) ty (sim_at t) = Some (BLE_DFU_RESP_VAL_SUCCESS, w1)"
    "notified_op (ble w1) OP_CODE_SELECT 15" "notified_u32 (ble w1) 3 = Some bs"
    "notified_u32 (ble w1) 7 = Some (word_of_nat (length (received t)))"
    "notified_u32 (ble w1) 11 = Some (crc32_of (received t))"
  using request_select_target [OF sim_is_target [of bs "0x0f"] sim_at_simps(5) [of t] sim_at_simps(2) refl, of ty] by auto

lemma sim_checksum:
  obtains w1 where "request_checksum (sim_transport bs 0x0f) (sim_at t) = Some (BLE_DFU_RESP_VAL_SUCCESS, w1)"
    "notified_op (ble w1) OP_CODE_CALCULATE_CHECKSUM 11"
    "notified_u32 (ble w1) 3 = Some (word_of_nat (length (received t)))"
    "notified_u32 (ble w1) 7 = Some (crc32_of (received t))"
  using request_checksum_target [OF sim_is_target [of bs "0x0f"] sim_engaged [of t]] by auto

lemma sim_completes:
  "\<exists>w'. dfuSendPackage (sim_transport 4 0x0f) (sim_at \<lparr>committed = [], obj = [], space = 0\<rparr>)
      [1, 2, 3, 4, 5] BLE_OBJ_TYPE_DATA = Some (BLE_DFU_RESP_VAL_SUCCESS, w')"
  using transfer_to_target [where T = "sim_transport 4 0x0f" and dt = "0x0d" and ty = BLE_OBJ_TYPE_DATA and
      data = "[1, 2, 3, 4, 5]" and w = "sim_at \<lparr>committed = [], obj = [], space = 0\<rparr>", OF sim_is_target]
  by (auto simp: resumable_def received_def)

section \<open>Properties of the connection\<close>

text \<open>A request to the control point returns the result code of its response, whether the write
  is acknowledged before or after the response is notified, and whatever other notifications come
  in between; the response is in the buffer afterwards.\<close>

theorem request_answered_in_either_order:
  assumes "write_value T (cp_handle (ble w)) buf (env w) = (rid, [], e0)" "rid \<noteq> 0"
    and "length buf < 2 ^ 16" "\<not> stopped w" "response_for op v"
    and "(x = WriteCb True c \<and> y = NotifyCb (cp_handle (ble w)) v) \<or>
         (x = NotifyCb (cp_handle (ble w)) v \<and> y = WriteCb True c)"
    and "polls T e0 (us @ [[x]] @ vs @ [[y]]) e"
    and "\<forall>b \<in> set us \<union> set vs. \<forall>ev \<in> set b. irrelevant (cp_handle (ble w)) op ev"
  shows "cp_request T op buf w = Some (int (unat (v ! 2)), answered op buf v e w)"
  using assms by (rule cp_request_answered)

theorem request_answered_in_either_order_witness:
  "cp_request script_transport OP_CODE_SELECT [OP_CODE_SELECT, 1]
     (idle_world [[NotifyCb 0x0f [0x60, 0x06, 0x08]], [NotifyCb 0x0f [0x60, 0x03, 0x01]], [WriteCb True 0]]) =
   Some (int (unat ([0x60, 0x06, 0x08 :: byte] ! 2)), answered OP_CODE_SELECT [OP_CODE_SELECT, 1] [0x60, 0x06, 0x08] []
     (idle_world [[NotifyCb 0x0f [0x60, 0x06, 0x08]], [NotifyCb 0x0f [0x60, 0x03, 0x01]], [WriteCb True 0]]))"
  by (rule request_answered_in_either_order [where us = "[]" and c = 0 and rid = 1
        and vs = "[[NotifyCb 0x0f [0x60, 0x03, 0x01]]]"
        and x = "NotifyCb 0x0f [0x60, 0x06, 0x08]" and y = "WriteCb True 0"
        and ?e0.0 = "[[NotifyCb 0x0f [0x60, 0x06, 0x08]], [NotifyCb 0x0f [0x60, 0x03, 0x01]], [WriteCb True 0]]"])
    (simp_all add: script_transport_def idle_world_def idle_ble_def stopped_def response_for_def irrelevant_def
      OP_CODE_SELECT_def OP_CODE_RESPONSE_CODE_def)

text \<open>C27 Once a callback has set the fatal error of the main loop (the link was lost), every package
  transfer returns at once with \<open>-1\<close> and the error stays: nothing in \<^verbatim>\<open>dfuSendPackage\<close> resets it, so
  the retries of \<^verbatim>\<open>dfu\<close> cannot succeed.\<close>

theorem transfer_after_fatal_error_fails:
  assumes "fatal_error w" "\<And>h v e. fst (snd (write_value T h v e)) = []"
  shows "\<exists>w'. dfuSendPackage T w data ty = Some (-1, w') \<and> fatal_error w'"
  using assms by (rule dfuSendPackage_fatal)

theorem transfer_after_fatal_error_fails_witness:
  "\<exists>w'. dfuSendPackage (sim_transport 4096 0x0f)
      (sim_at \<lparr>committed = [], obj = [], space = 0\<rparr> \<lparr>fatal_error := True\<rparr>)
      [1, 2, 3] BLE_OBJ_TYPE_COMMAND = Some (-1, w') \<and> fatal_error w'"
  by (rule transfer_after_fatal_error_fails) simp_all

section \<open>Properties of the transfer\<close>

text \<open>C3 A transfer to a bootloader that answers as the protocol documents completes with success,
  and the bootloader has then executed exactly the package, in the object of the given type; what it
  holds of the other type is as the protocol says. It may start with nothing on the bootloader, or
  with a prefix of the package that ends in a complete, unexecuted object.\<close>

theorem dfu_transfer_completes:
  assumes "dfu_target T cp dt bs V" "length data < 2 ^ 32" "bs \<noteq> 0"
    and "connected cp dt w" "attached V w" "resumable bs data (target_at V ty w)"
    and "received (target_at V ty w) = [] \<or> ty = BLE_OBJ_TYPE_DATA \<or> \<not> dont_resume w"
  shows "\<exists>w'. dfuSendPackage T w data ty = Some (BLE_DFU_RESP_VAL_SUCCESS, w') \<and>
    engaged V ty (boot V (env w)) cp dt w' \<and> committed (target_at V ty w') = data"
  using assms by (rule transfer_to_target)

theorem dfu_transfer_completes_witness:
  "\<exists>w'. dfuSendPackage (sim_transport 4 0x0f)
        (sim_at \<lparr>committed = [], obj = [1, 2, 3, 4], space = 4\<rparr>)
        [1, 2, 3, 4, 5, 6, 7, 8, 9, 10] BLE_OBJ_TYPE_DATA = Some (BLE_DFU_RESP_VAL_SUCCESS, w') \<and>
      engaged sim_view BLE_OBJ_TYPE_DATA (boot sim_view (env (sim_at \<lparr>committed = [], obj = [1, 2, 3, 4], space = 4\<rparr>)))
        0x0f 0x0d w' \<and>
      committed (target_at sim_view BLE_OBJ_TYPE_DATA w') = [1, 2, 3, 4, 5, 6, 7, 8, 9, 10]"
  by (rule dfu_transfer_completes [OF sim_is_target]) (auto simp: resumable_def received_def)

text \<open>C6 Success is reported only when the peripheral has confirmed the whole package: its last
  answers were the length and the CRC-32 of the package and a successful execute; the one exception
  is a peripheral that reports an object size of 0.\<close>

theorem dfu_success_is_confirmed:
  assumes "0 < length data" "length data < 2 ^ 32"
    and "dfuSendPackage T w data ty = Some (BLE_DFU_RESP_VAL_SUCCESS, w')"
  shows "confirmed_by_checksum T data w' \<or> confirmed_by_select T ty data w w' \<or>
    (\<exists>w1. request_select T ty w = Some (BLE_DFU_RESP_VAL_SUCCESS, w1) \<and> notified_u32 (ble w1) 3 = Some 0)"
  using assms by (rule dfuSendPackage_success)

theorem dfu_success_is_confirmed_witness:
  "\<exists>w w'. dfuSendPackage (sim_transport 4 0x0f) w [1, 2, 3, 4, 5] BLE_OBJ_TYPE_DATA =
        Some (BLE_DFU_RESP_VAL_SUCCESS, w') \<and>
     (confirmed_by_checksum (sim_transport 4 0x0f) [1, 2, 3, 4, 5] w' \<or>
      confirmed_by_select (sim_transport 4 0x0f) BLE_OBJ_TYPE_DATA [1, 2, 3, 4, 5] w w' \<or>
      (\<exists>w1. request_select (sim_transport 4 0x0f) BLE_OBJ_TYPE_DATA w = Some (BLE_DFU_RESP_VAL_SUCCESS, w1) \<and>
         notified_u32 (ble w1) 3 = Some 0))"
proof -
  let ?w = "sim_at \<lparr>committed = [], obj = [], space = 0\<rparr>"
  obtain w' where run: "dfuSendPackage (sim_transport 4 0x0f) ?w [1, 2, 3, 4, 5] BLE_OBJ_TYPE_DATA =
      Some (BLE_DFU_RESP_VAL_SUCCESS, w')" using sim_completes by blast
  have "0 < length [1, 2, 3, 4, 5 :: byte]" "length [1, 2, 3, 4, 5 :: byte] < 2 ^ 32" by simp_all
  from run dfu_success_is_confirmed [OF this run] show ?thesis by blast
qed

text \<open>C7 One block is written with consecutive, non-empty write commands to the data handle, none
  longer than the payload of the MTU, whatever the stack answers; the loop always returns, and
  when every write could be started the commands carry exactly the bytes of the block.\<close>

theorem block_written_in_chunks:
  assumes "length data < 2 ^ 32" "unat send \<le> length data" "3 < unat (mtu (ble w))"
  shows "\<exists>r cs e. send_block T data bs send 0 w =
        Some (r, w\<lparr>trace := trace w @ map (data_write w) cs, env := e\<rparr>) \<and>
      (\<forall>c \<in> set cs. 0 < length c \<and> length c \<le> chunk_limit (mtu (ble w))) \<and>
      (case r of
         Some n \<Rightarrow> unat n = block_len data bs send \<and> concat cs = take (unat n) (drop (unat send) data)
       | None \<Rightarrow> \<exists>n \<le> block_len data bs send. concat cs = take n (drop (unat send) data))"
  using send_block_writes [of data send w 0 bs T] assms by (simp add: chunks_ok_def cong: option.case_cong)

theorem block_written_in_chunks_witness:
  "\<exists>r cs e. send_block (sim_transport 4096 0x0f) (replicate 50 7) 4096 10 0 (sim_at \<lparr>committed = [], obj = [], space = 50\<rparr>) =
        Some (r, (sim_at \<lparr>committed = [], obj = [], space = 50\<rparr>)\<lparr>trace := trace (sim_at \<lparr>committed = [], obj = [], space = 50\<rparr>) @ map (data_write (sim_at \<lparr>committed = [], obj = [], space = 50\<rparr>)) cs, env := e\<rparr>) \<and>
      (\<forall>c \<in> set cs. 0 < length c \<and> length c \<le> chunk_limit (mtu (ble (sim_at \<lparr>committed = [], obj = [], space = 50\<rparr>)))) \<and>
      (case r of
         Some n \<Rightarrow> unat n = block_len (replicate 50 7) 4096 10 \<and>
           concat cs = take (unat n) (drop (unat (10 :: u32)) (replicate 50 7))
       | None \<Rightarrow> \<exists>n \<le> block_len (replicate 50 7) 4096 10. concat cs = take n (drop (unat (10 :: u32)) (replicate 50 7)))"
  by (rule block_written_in_chunks) (simp_all add: idle_ble_def)

text \<open>C28 After a CRC mismatch the object that is asked for has the size that is left behind the
  offset the peripheral reported, not the size of the block that is sent again: when the mismatch
  shows on the last block, so that the whole length is reported, an object of size 0 is created.\<close>

theorem crc_error_on_last_block_creates_empty_object:
  assumes "request_checksum T w = Some (BLE_DFU_RESP_VAL_SUCCESS, w1)"
    and "notified_op (ble w1) OP_CODE_CALCULATE_CHECKSUM 11"
    and "notified_u32 (ble w1) 3 = Some (word_of_nat (length data))" "notified_u32 (ble w1) 7 = Some crc"
    and "crc \<noteq> crc32_of data" "0 < length data" "length data < 2 ^ 32"
  shows "check_block T data ty send t w = do {
      (code, w2) \<leftarrow> cp_request T OP_CODE_CREATE [OP_CODE_CREATE, obj_type_code ty, 0, 0, 0, 0] w1;
      if code \<noteq> BLE_DFU_RESP_VAL_SUCCESS then Some (Inl code, w2) else Some (Inr (send, 0), w2) }"
proof -
  let ?off = "word_of_nat (length data) :: u32"
  have off: "unat ?off = length data" using assms(7) by (subst unat_word_of_nat_32) auto
  then have off0: "?off \<noteq> 0" using assms(6) by auto
  have crc: "crc32_compute data ?off None = Some (crc32_of data)"
    using crc32_compute_received [OF assms(7), of "length data"] by simp
  have "unat (clamp_transfer_size data t ?off) = 0"
    using clamp_transfer_size_nat [OF assms(7), of ?off t] off by simp
  then have t0: "clamp_transfer_size data t ?off = 0" by (simp only: unat_eq_0)
  show ?thesis
    using assms(1-5) off0 crc
    by (simp add: check_block_def create_next_def t0 request_create_def create_packet_def Let_def)
qed

theorem crc_error_on_last_block_creates_empty_object_witness:
  "\<exists>w1. check_block (sim_transport 4096 0x0f) [1, 2, 3] BLE_OBJ_TYPE_DATA 0 3
       (sim_at \<lparr>committed = [], obj = [1, 2, 0], space = 3\<rparr>) = do {
      (code, w2) \<leftarrow> cp_request (sim_transport 4096 0x0f) OP_CODE_CREATE
        [OP_CODE_CREATE, obj_type_code BLE_OBJ_TYPE_DATA, 0, 0, 0, 0] w1;
      if code \<noteq> BLE_DFU_RESP_VAL_SUCCESS then Some (Inl code, w2) else Some (Inr (0, 0), w2) }"
proof -
  let ?w = "sim_at \<lparr>committed = [], obj = [1, 2, 0], space = 3\<rparr>"
  obtain w1 where w1: "request_checksum (sim_transport 4096 0x0f) ?w = Some (BLE_DFU_RESP_VAL_SUCCESS, w1)"
    "notified_op (ble w1) OP_CODE_CALCULATE_CHECKSUM 11"
    "notified_u32 (ble w1) 3 = Some (word_of_nat (length [1, 2, 3 :: byte]))"
    "notified_u32 (ble w1) 7 = Some (crc32_of [1, 2, 0])"
    by (rule sim_checksum [of 4096 "\<lparr>committed = [], obj = [1, 2, 0], space = 3\<rparr>"]) (auto simp: received_def)
  have "crc32_of [1, 2, 0] \<noteq> crc32_of [1, 2, 3]" by code_simp
  then show ?thesis
    using crc_error_on_last_block_creates_empty_object [OF w1, of BLE_OBJ_TYPE_DATA 0 3] by auto
qed

text \<open>C29 The fields of the select response are not checked: an object size of 0 makes a fresh
  transfer succeed without sending a byte, an offset beyond the package makes the CRC run over
  memory behind it, and an object size of 0 with a matching CRC divides by zero (undefined
  behaviour is \<open>None\<close>).\<close>

theorem select_response_is_not_validated:
  assumes "request_select T ty w = Some (BLE_DFU_RESP_VAL_SUCCESS, w1)" "notified_op (ble w1) OP_CODE_SELECT 15"
    and "notified_u32 (ble w1) 3 = Some bs" "notified_u32 (ble w1) 7 = Some off"
    and "notified_u32 (ble w1) 11 = Some crc" "length data < 2 ^ 32"
  shows "(bs = 0 \<and> off = 0 \<longrightarrow> dfuSendPackage T w data ty = Some (BLE_DFU_RESP_VAL_SUCCESS, w1)) \<and>
    (length data < unat off \<longrightarrow> dfuSendPackage T w data ty = None) \<and>
    (bs = 0 \<and> 0 < off \<and> unat off \<le> length data \<and> crc = crc32_of (take (unat off) data) \<and>
       \<not> (ty = BLE_OBJ_TYPE_COMMAND \<and> dont_resume w1) \<longrightarrow> dfuSendPackage T w data ty = None)"
proof (intro conjI impI)
  note sel = dfuSendPackage_selected [OF assms(1-5), of data]
  assume "bs = 0 \<and> off = 0"
  moreover have "initial_transfer_size data 0 0 = 0"
    using initial_transfer_size_nat [OF assms(6), of 0 0] by simp
  ultimately show "dfuSendPackage T w data ty = Some (BLE_DFU_RESP_VAL_SUCCESS, w1)"
    by (simp add: sel resume_phase_def start_transfer_def)
next
  note sel = dfuSendPackage_selected [OF assms(1-5), of data]
  assume beyond: "length data < unat off"
  then have "0 < off" by (simp add: word_less_nat_alt)
  with beyond show "dfuSendPackage T w data ty = None"
    by (simp add: sel resume_phase_def crc32_compute_prefix)
next
  note sel = dfuSendPackage_selected [OF assms(1-5), of data]
  assume "bs = 0 \<and> 0 < off \<and> unat off \<le> length data \<and> crc = crc32_of (take (unat off) data) \<and>
       \<not> (ty = BLE_OBJ_TYPE_COMMAND \<and> dont_resume w1)"
  then show "dfuSendPackage T w data ty = None"
    by (auto simp: sel resume_phase_def crc32_compute_prefix)
qed

theorem select_response_is_not_validated_witness:
  "(\<exists>w'. dfuSendPackage (sim_transport 0 0x0f)
        (sim_at \<lparr>committed = [], obj = [], space = 0\<rparr>)
        [1, 2, 3] BLE_OBJ_TYPE_COMMAND = Some (BLE_DFU_RESP_VAL_SUCCESS, w')) \<and>
   dfuSendPackage (sim_transport 4096 0x0f)
        (sim_at \<lparr>committed = [9, 9, 9, 9], obj = [], space = 0\<rparr>)
        [1, 2, 3] BLE_OBJ_TYPE_COMMAND = None"
proof
  let ?w = "sim_at \<lparr>committed = [], obj = [], space = 0\<rparr>"
  obtain w1 where w1: "request_select (sim_transport 0 0x0f) BLE_OBJ_TYPE_COMMAND ?w = Some (BLE_DFU_RESP_VAL_SUCCESS, w1)"
    "notified_op (ble w1) OP_CODE_SELECT 15" "notified_u32 (ble w1) 3 = Some 0"
    "notified_u32 (ble w1) 7 = Some 0" "notified_u32 (ble w1) 11 = Some (crc32_of [])"
    by (rule sim_select [of 0 BLE_OBJ_TYPE_COMMAND "\<lparr>committed = [], obj = [], space = 0\<rparr>"])
      (auto simp: received_def)
  from select_response_is_not_validated [OF w1, of "[1, 2, 3]"]
  show "\<exists>w'. dfuSendPackage (sim_transport 0 0x0f) ?w [1, 2, 3] BLE_OBJ_TYPE_COMMAND =
      Some (BLE_DFU_RESP_VAL_SUCCESS, w')" by simp
next
  let ?w = "sim_at \<lparr>committed = [9, 9, 9, 9], obj = [], space = 0\<rparr>"
  obtain w1 where w1: "request_select (sim_transport 4096 0x0f) BLE_OBJ_TYPE_COMMAND ?w = Some (BLE_DFU_RESP_VAL_SUCCESS, w1)"
    "notified_op (ble w1) OP_CODE_SELECT 15" "notified_u32 (ble w1) 3 = Some 4096"
    "notified_u32 (ble w1) 7 = Some 4" "notified_u32 (ble w1) 11 = Some (crc32_of [9, 9, 9, 9])"
    by (rule sim_select [of 4096 BLE_OBJ_TYPE_COMMAND "\<lparr>committed = [9, 9, 9, 9], obj = [], space = 0\<rparr>"])
      (auto simp: received_def)
  from select_response_is_not_validated [OF w1, of "[1, 2, 3]"]
  show "dfuSendPackage (sim_transport 4096 0x0f) ?w [1, 2, 3] BLE_OBJ_TYPE_COMMAND = None" by simp
qed

section \<open>The notification buffer during a transfer\<close>

lemma ble_send_data_noresp_ble: "ble_send_data_noresp T w c = (s, w') \<Longrightarrow> ble w' = ble w"
  by (auto simp: ble_send_data_noresp_def emit_def split: prod.splits)

lemma send_block_ble: "send_block T data bs send cur w = Some (r, w') \<Longrightarrow> ble w' = ble w"
proof -
  have "ble (snd r) = ble w" if "send_block T data bs send cur w = Some r" for T data bs send cur w r
  proof (rule send_block.raw_induct [where P = "\<lambda>T data bs send cur w r. ble (snd r) = ble w", OF _ that],
      goal_cases)
    case (1 f T data bs send cur w r)
    show ?case
    proof (cases "ucast (send + cur) < size_of data \<and> cur < bs")
      case True
      let ?c = "chunk_length (mtu (ble w)) data bs send cur"
      from True 1(2) obtain chunk where chunk: "array_slice data (unat send + unat cur) (unat ?c) = Some chunk"
        by (auto simp: bind_Some_iff Let_def)
      obtain s w1 where sent: "ble_send_data_noresp T w chunk = (s, w1)" by fastforce
      with True chunk 1(2) have
        "(if s \<noteq> EXIT_SUCCESS then Some (None, w1) else f T data bs send (cur + ucast ?c) w1) = Some r"
        by (simp add: Let_def)
      then show ?thesis using 1(1) [of T data bs send "cur + ucast ?c" w1 r] ble_send_data_noresp_ble [OF sent]
        by (auto split: if_splits)
    next
      case False
      with 1(2) show ?thesis by auto
    qed
  qed
  then show "send_block T data bs send cur w = Some (r, w') \<Longrightarrow> ble w' = ble w" by fastforce
qed

lemmas request_defs = request_select_def request_create_def request_checksum_def request_execute_def

lemma request_ok:
  assumes "ble_ok (ble w)"
  shows "request_select T ty w = Some (s, w') \<Longrightarrow> ble_ok (ble w')"
    and "request_create T ty n w = Some (s, w') \<Longrightarrow> ble_ok (ble w')"
    and "request_checksum T w = Some (s, w') \<Longrightarrow> ble_ok (ble w')"
    and "request_execute T w = Some (s, w') \<Longrightarrow> ble_ok (ble w')"
  unfolding request_defs using cp_request_ok [OF assms] by blast+

lemma create_next_ok:
  "ble_ok (ble w) \<Longrightarrow> create_next T data ty t off send w = Some (r, w') \<Longrightarrow> ble_ok (ble w')"
  by (auto simp: create_next_def bind_Some_iff Let_def split: if_splits dest: request_ok(2))

lemma check_block_ok:
  assumes w: "ble_ok (ble w)" and run: "check_block T data ty send t w = Some (r, w')"
  shows "ble_ok (ble w')"
proof -
  from run obtain code w1 where w1: "request_checksum T w = Some (code, w1)" by (auto simp: check_block_def bind_Some_iff)
  then have ok1: "ble_ok (ble w1)" by (rule request_ok(3) [OF w])
  from run w1 consider "w' = w1" | code2 w2 where "request_execute T w1 = Some (code2, w2)" "w' = w2"
    | code2 w2 off where "request_execute T w1 = Some (code2, w2)" "create_next T data ty t off off w2 = Some (r, w')"
    | off where "create_next T data ty t off send w1 = Some (r, w')"
    by (auto simp: check_block_def bind_Some_iff split: if_splits)
  then show ?thesis
    by cases (use ok1 request_ok(4) [OF ok1] create_next_ok in metis)+
qed

lemma send_blocks_ok:
  assumes w: "ble_ok (ble w)" and run: "send_blocks T data ty bs send t w = Some (r, w')"
  shows "ble_ok (ble w')"
proof -
  have "U = T \<longrightarrow> ble_ok (ble w) \<longrightarrow> ble_ok (ble (snd r))"
    if "send_blocks U data ty bs send t w = Some r" for U data ty bs send t w r
  proof (rule send_blocks.raw_induct [where P =
        "\<lambda>U data ty bs send t w r. U = T \<longrightarrow> ble_ok (ble w) \<longrightarrow> ble_ok (ble (snd r))", OF _ that], goal_cases)
    case (1 f U data ty bs send t w r)
    from 1(2) obtain sent w1 where s1: "send_block U data bs send 0 w = Some (sent, w1)"
      by (auto simp: bind_Some_iff)
    note ble1 = send_block_ble [OF s1]
    show ?case
    proof (cases sent)
      case None
      with 1(2) s1 ble1 show ?thesis by auto
    next
      case (Some cur)
      with 1(2) s1 obtain c w2 where
        c: "check_block U data ty send t (pause_after_partial_block cur bs w1) = Some (c, w2)"
        by (auto simp: bind_Some_iff)
      have ok2: "U = T \<longrightarrow> ble_ok (ble w) \<longrightarrow> ble_ok (ble w2)"
      proof (intro impI)
        assume "U = T" "ble_ok (ble w)"
        moreover have "ble (pause_after_partial_block cur bs w1) = ble w"
          using ble1 by (simp add: pause_after_partial_block_def emit_def)
        ultimately show "ble_ok (ble w2)" using check_block_ok c by metis
      qed
      show ?thesis
      proof (cases c)
        case (Inl code)
        with 1(2) s1 Some c ok2 show ?thesis by auto
      next
        case (Inr st)
        with 1(2) s1 Some c have "f U data ty bs (fst st) (snd st) w2 = Some r" by (simp split: prod.splits)
        from 1(1) [OF this] ok2 show ?thesis by blast
      qed
    qed
  qed
  with w run show ?thesis by fastforce
qed

text \<open>C8 Whatever the peripheral, the kernel and the link do during a transfer, the notification
  buffer keeps its declared size, the recorded length of the last notification stays within it,
  and the recorded codes are a byte or \<open>-1\<close>.\<close>

theorem transfer_keeps_notification_buffer:
  assumes "ble_ok (ble w)" "dfuSendPackage T w data ty = Some (code, w')"
  shows "ble_ok (ble w')"
proof -
  from assms(2) obtain c1 w1 where sel: "request_select T ty w = Some (c1, w1)"
    by (auto simp: dfuSendPackage_def bind_Some_iff)
  note ok1 = request_ok(1) [OF assms(1) sel]
  from assms(2) sel consider "w' = w1" | bs off crc r w2 where
    "resume_phase T data ty bs off crc w1 = Some (r, w2)"
    "(case r of Inl code \<Rightarrow> Some (code, w2) | Inr send \<Rightarrow> start_transfer T data ty bs send w2) = Some (code, w')"
    by (auto simp: dfuSendPackage_def bind_Some_iff split: if_splits)
  then show ?thesis
  proof cases
    case 2
    from 2(1) have ok2: "ble_ok (ble w2)"
      using ok1 request_ok(4) [OF ok1] by (auto simp: resume_phase_def bind_Some_iff split: if_splits)
    show ?thesis
    proof (cases r)
      case (Inl c)
      with 2(2) ok2 show ?thesis by auto
    next
      case (Inr send)
      with 2(2) have "start_transfer T data ty bs send w2 = Some (code, w')" by simp
      then consider "w' = w2" | t c w3 where "request_create T ty t w2 = Some (c, w3)"
          "w' = w3 \<or> send_blocks T data ty bs send t w3 = Some (code, w')"
        by (auto simp: start_transfer_def bind_Some_iff Let_def split: if_splits)
      then show ?thesis
        by cases (use ok2 request_ok(2) [OF ok2] send_blocks_ok in metis)+
    qed
  qed (use ok1 in simp)
qed

theorem transfer_keeps_notification_buffer_witness:
  "\<exists>w'. dfuSendPackage (sim_transport 4 0x0f) (sim_at \<lparr>committed = [], obj = [], space = 0\<rparr>)
      [1, 2, 3, 4, 5] BLE_OBJ_TYPE_DATA = Some (BLE_DFU_RESP_VAL_SUCCESS, w') \<and> ble_ok (ble w')"
proof -
  let ?w = "sim_at \<lparr>committed = [], obj = [], space = 0\<rparr>"
  obtain w' where run: "dfuSendPackage (sim_transport 4 0x0f) ?w [1, 2, 3, 4, 5] BLE_OBJ_TYPE_DATA =
      Some (BLE_DFU_RESP_VAL_SUCCESS, w')" using sim_completes by blast
  have "ble_ok (ble ?w)" using sim_at_simps(5) by (auto simp: connected_def)
  from transfer_keeps_notification_buffer [OF this run] run show ?thesis by blast
qed

end
