(* ===== verification/Update.thy ===== *)
theory Update
  imports Connection Manifest Zip DfuTarget
begin

text \<open>
  \<^verbatim>\<open>dfu()\<close> of \<^verbatim>\<open>dfu.c\<close>, which updates one image, with its entry into the bootloader and its retries,
  and the programs around it: \<^verbatim>\<open>main\<close> of \<^verbatim>\<open>nrfdfu.c\<close> and of \<^verbatim>\<open>example.c\<close> and \<^verbatim>\<open>update\<close> of
  \<^verbatim>\<open>libnrfdfu.c\<close>, from the options to the images of the package. The package is what \<^verbatim>\<open>zip.c\<close> reads
  from it; the address parser and \<^verbatim>\<open>getopt\<close> are library functions, the first a parameter, the second
  the list of options it returns.
\<close>

section \<open>Updating one image\<close>

definition DFU_OP_ENTER_BOOTLOADER :: byte where "DFU_OP_ENTER_BOOTLOADER = 0x01"

text \<open>\<^verbatim>\<open>int8_t maxRetries = retryCount + 1\<close>: the low byte of the sum, as a signed number. The sum itself
  must not leave \<^verbatim>\<open>int\<close>.\<close>

definition max_retries :: "int \<Rightarrow> int option" where
  "max_retries retryCount =
     (if retryCount = 2 ^ 31 - 1 then None else Some (sint (word_of_int (retryCount + 1) :: byte)))"

text \<open>One attempt: the init packet, then the image. \<open>None\<close> inside is the \<^verbatim>\<open>break\<close> of the loop.\<close>

definition dfu_attempt :: "'e transport \<Rightarrow> bytes \<Rightarrow> bytes \<Rightarrow> 'e world \<Rightarrow> (bool option \<times> 'e world) option" where
  "dfu_attempt T dat bin w = do {
     let w = upd_ble (\<lambda>b. b\<lparr>debug := 0\<rparr>) w;
     (err, w) \<leftarrow> ble_register_notify T w;
     if err \<noteq> 0 then Some (None, w)
     else do {
       (code, w) \<leftarrow> dfuSendPackage T w dat BLE_OBJ_TYPE_COMMAND;
       if code \<noteq> BLE_DFU_RESP_VAL_SUCCESS then Some (Some False, w)
       else do {
         (code, w) \<leftarrow> dfuSendPackage T w bin BLE_OBJ_TYPE_DATA;
         Some (Some (code = BLE_DFU_RESP_VAL_SUCCESS), w) } } }"

text \<open>The loop with \<open>n\<close> attempts left; the result is the variable \<^verbatim>\<open>done\<close>.\<close>

fun dfu_attempts :: "'e transport \<Rightarrow> bytes \<Rightarrow> bytes \<Rightarrow> nat \<Rightarrow> 'e world \<Rightarrow> (bool \<times> 'e world) option" where
  "dfu_attempts T dat bin 0 w = Some (False, w)"
| "dfu_attempts T dat bin (Suc n) w = do {
     (r, w) \<leftarrow> dfu_attempt T dat bin w;
     case r of None \<Rightarrow> Some (False, w)
     | Some True \<Rightarrow> Some (True, w)
     | Some False \<Rightarrow> dfu_attempts T dat bin n (if n > 0 then emit (Sleep 3) w else w) }"

definition dfu_transfers ::
  "'e system \<Rightarrow> 'e transport \<Rightarrow> bytes \<Rightarrow> bytes \<Rightarrow> int \<Rightarrow> link option \<Rightarrow> 'e world \<Rightarrow> (int \<times> 'e world) option" where
  "dfu_transfers S T dat bin maxRetries l w = do {
     (ok, w) \<leftarrow> (if l = None then Some (False, w)
                else dfu_attempts T dat bin (nat maxRetries) w);
     let w = ble_close S l w;
     Some (if ok then BLE_DFU_RESP_VAL_SUCCESS else BLE_DFU_RESP_VAL_OPPERATION_FAILED, w) }"

definition buttonless_only :: "ble \<Rightarrow> bool" where
  "buttonless_only b \<longleftrightarrow> (cp_handle b = 0 \<or> data_handle b = 0) \<and> btnless_handle b \<noteq> 0"

text \<open>The bootloader advertises with the address whose lowest byte is one more.\<close>

definition next_address :: "bytes \<Rightarrow> bytes" where
  "next_address dst = dst[0 := dst ! 0 + 1]"

text \<open>Asking an application to restart in its bootloader: a code to return, or the connection is to be
  opened again. The first return leaves the connection open, and so does the second.\<close>

definition enter_bootloader :: "'e system \<Rightarrow> 'e transport \<Rightarrow> link \<Rightarrow> 'e world \<Rightarrow> (int option \<times> 'e world) option" where
  "enter_bootloader S T l w = do {
     let w = upd_ble (\<lambda>b. b\<lparr>cp_handle := btnless_handle b\<rparr>) w;
     (err, w) \<leftarrow> ble_register_notify T w;
     if err \<noteq> 0 then Some (Some BLE_DFU_RESP_VAL_OPPERATION_FAILED, w)
     else do {
       (_, w) \<leftarrow> ble_send_cp T w [DFU_OP_ENTER_BOOTLOADER];
       (code, w) \<leftarrow> ble_wait_run T w;
       if code \<noteq> BLE_DFU_RESP_VAL_SUCCESS \<and> code \<noteq> -1 then Some (Some code, w)
       else Some (None, mainloop_reset_flags (ble_close S (Some l) w)) } }"

text \<open>The result is the code, the address as \<^verbatim>\<open>dfu\<close> leaves it for the caller, and the world.\<close>

definition dfu ::
  "'e system \<Rightarrow> 'e transport \<Rightarrow> bytes \<Rightarrow> bytes \<Rightarrow> bytes \<Rightarrow> int \<Rightarrow> 'e world \<Rightarrow> (int \<times> bytes \<times> 'e world) option" where
  "dfu S T dst dat bin retryCount w = do {
     maxRetries \<leftarrow> max_retries retryCount;
     (l, w) \<leftarrow> ble_open S T dst w;
     case l of
       None \<Rightarrow> do { (code, w) \<leftarrow> dfu_transfers S T dat bin maxRetries None w; Some (code, dst, w) }
     | Some l \<Rightarrow>
         if buttonless_only (ble w)
         then do {
           (r, w) \<leftarrow> enter_bootloader S T l w;
           case r of Some code \<Rightarrow> Some (code, dst, w)
           | None \<Rightarrow> do {
               (l, w) \<leftarrow> ble_open S T (next_address dst) w;
               (code, w) \<leftarrow> dfu_transfers S T dat bin maxRetries l w;
               Some (code, next_address dst, w) } }
         else do { (code, w) \<leftarrow> dfu_transfers S T dat bin maxRetries (Some l) w; Some (code, dst, w) } }"

section \<open>The program\<close>

text \<open>What ends a run: the exit status, or a function that ended the process.\<close>

type_synonym 'e outcome = "(process_end + int) \<times> 'e world"

text \<open>\<open>pkg\<close> is \<^verbatim>\<open>read_file_from_zip\<close> on the open package: the bytes of a file, or the end of the
  process. A null file name cannot be read.\<close>

type_synonym package = "string \<Rightarrow> (process_end + bytes) option"

definition package_of :: "(nat \<Rightarrow> bool) \<Rightarrow> (string \<Rightarrow> 'f option) \<Rightarrow> 'f zip_fread \<Rightarrow> package" where
  "package_of malloc_ok zip_fopen fread fn = do {
     r \<leftarrow> read_file_from_zip malloc_ok zip_fopen fread fn;
     Some (case r of Inl e \<Rightarrow> Inl e | Inr (sz, buf) \<Rightarrow> Inr (take sz buf)) }"

text \<open>One image: read both files, update, and after success wait if another may follow. The first
  component tells whether the program goes on.\<close>

definition update_image ::
  "'e system \<Rightarrow> 'e transport \<Rightarrow> package \<Rightarrow> bool \<Rightarrow> string option \<Rightarrow> string option \<Rightarrow> bool \<Rightarrow> int \<Rightarrow>
     bytes \<times> 'e world \<Rightarrow> (((process_end + int) + bytes) \<times> 'e world) option" where
  "update_image S T pkg has dat_fn bin_fn pause retryCount st =
     (case st of (dst, w) \<Rightarrow>
        if \<not> has then Some (Inr dst, w)
        else do {
          dat_fn \<leftarrow> dat_fn;
          dat \<leftarrow> pkg dat_fn;
          case dat of Inl e \<Rightarrow> Some (Inl (Inl e), w)
          | Inr dat \<Rightarrow> do {
              bin_fn \<leftarrow> bin_fn;
              bin \<leftarrow> pkg bin_fn;
              case bin of Inl e \<Rightarrow> Some (Inl (Inl e), w)
              | Inr bin \<Rightarrow> do {
                  (code, dst, w) \<leftarrow> dfu S T dst dat bin retryCount w;
                  if code \<noteq> BLE_DFU_RESP_VAL_SUCCESS then Some (Inl (Inr EXIT_FAILURE), w)
                  else Some (Inr dst, if pause then emit (Sleep 5) w else w) } } })"

definition update_images ::
  "'e system \<Rightarrow> 'e transport \<Rightarrow> package \<Rightarrow> manifest \<Rightarrow> int \<Rightarrow> bytes \<times> 'e world \<Rightarrow> 'e outcome option" where
  "update_images S T pkg m retryCount st = do {
     (r, w) \<leftarrow> update_image S T pkg (hasSDBootloader m) (sdBootloaderDatFileName m) (sdBootloaderBinFileName m)
                True retryCount st;
     case r of Inl e \<Rightarrow> Some (e, w)
     | Inr dst \<Rightarrow> do {
         (r, w) \<leftarrow> update_image S T pkg (hasBootloader m) (bootloaderDatFileName m) (bootloaderBinFileName m)
                    True retryCount (dst, w);
         case r of Inl e \<Rightarrow> Some (e, w)
         | Inr dst \<Rightarrow> do {
             (r, w) \<leftarrow> update_image S T pkg (hasApplication m) (applicationDatFileName m) (applicationBinFileName m)
                        False retryCount (dst, w);
             case r of Inl e \<Rightarrow> Some (e, w)
             | Inr dst \<Rightarrow> Some (Inr EXIT_SUCCESS, w) } } }"

text \<open>\<open>str2ba\<close> is \<open>None\<close> for an address it refuses; \<open>open_pkg\<close> is \<^verbatim>\<open>open_zip\<close>. The manifest is read as a
  C string, up to the first NUL.\<close>

definition c_string :: "bytes \<Rightarrow> string" where
  "c_string bs = map (\<lambda>b. char_of (unat b)) (takeWhile (\<lambda>b. b \<noteq> 0) bs)"

definition update ::
  "'e system \<Rightarrow> 'e transport \<Rightarrow> (string \<Rightarrow> bytes option) \<Rightarrow> (string \<Rightarrow> process_end + package) \<Rightarrow>
     string \<Rightarrow> string \<Rightarrow> int \<Rightarrow> 'e world \<Rightarrow> 'e outcome option" where
  "update S T str2ba open_pkg bdaddr pkg_fn retryCount w =
     (let w = mainloop_reset_flags w in
      case str2ba bdaddr of None \<Rightarrow> Some (Inr EXIT_FAILURE, w)
      | Some dst \<Rightarrow>
          (case open_pkg pkg_fn of Inl e \<Rightarrow> Some (Inl e, w)
           | Inr pkg \<Rightarrow> do {
               m_str \<leftarrow> pkg ''manifest.json'';
               case m_str of Inl e \<Rightarrow> Some (Inl e, w)
               | Inr m_str \<Rightarrow> do {
                   (m, out) \<leftarrow> parse_manifest (c_string m_str);
                   update_images S T pkg m retryCount (dst, w) } }))"

section \<open>Options\<close>

text \<open>\<^verbatim>\<open>atoi\<close>: blanks, a sign, digits; a value outside \<^verbatim>\<open>int\<close> is undefined.\<close>

fun digits_value :: "int \<Rightarrow> string \<Rightarrow> int" where
  "digits_value v [] = v"
| "digits_value v (c # s) =
     (if 48 \<le> char_code c \<and> char_code c \<le> 57 then digits_value (10 * v + (int (char_code c) - 48)) s else v)"

definition atoi :: "string \<Rightarrow> int option" where
  "atoi s =
     (let s = dropWhile is_space s;
          v = (case s of [] \<Rightarrow> 0
               | c # r \<Rightarrow> if c = CHR ''-'' then - digits_value 0 r
                          else if c = CHR ''+'' then digits_value 0 r else digits_value 0 s)
      in if - (2 ^ 31) \<le> v \<and> v < 2 ^ 31 then Some v else None)"

record options =
  opt_bdaddr :: "string option"
  opt_pkg_fn :: "string option"
  opt_retryCount :: int

text \<open>What \<^verbatim>\<open>getopt\<close> returns for \<^verbatim>\<open>"b:p:c:"\<close>, one entry a call; an unknown option is \<^verbatim>\<open>?\<close>.\<close>

fun parse_options :: "(char \<times> string) list \<Rightarrow> options \<Rightarrow> (process_end + options) option" where
  "parse_options [] os = Some (Inr os)"
| "parse_options ((opt, arg) # r) os =
     (if opt = CHR ''b'' then parse_options r (os\<lparr>opt_bdaddr := Some arg\<rparr>)
      else if opt = CHR ''p'' then parse_options r (os\<lparr>opt_pkg_fn := Some arg\<rparr>)
      else if opt = CHR ''c'' then do {
        n \<leftarrow> atoi arg;
        parse_options r (os\<lparr>opt_retryCount := (if n < 0 then 0 else n)\<rparr>) }
      else Some (Inl exit_failure))"

definition main ::
  "'e system \<Rightarrow> 'e transport \<Rightarrow> (string \<Rightarrow> bytes option) \<Rightarrow> (string \<Rightarrow> process_end + package) \<Rightarrow>
     (char \<times> string) list \<Rightarrow> 'e world \<Rightarrow> 'e outcome option" where
  "main S T str2ba open_pkg opts w = do {
     r \<leftarrow> parse_options opts \<lparr>opt_bdaddr = None, opt_pkg_fn = None, opt_retryCount = 0\<rparr>;
     case r of Inl e \<Rightarrow> Some (Inl e, w)
     | Inr os \<Rightarrow>
         (case (opt_bdaddr os, opt_pkg_fn os) of
            (Some bdaddr, Some pkg_fn) \<Rightarrow> update S T str2ba open_pkg bdaddr pkg_fn (opt_retryCount os) w
          | _ \<Rightarrow> Some (Inl exit_failure, w)) }"

section \<open>What success means\<close>

text \<open>The init packet and the image were transferred one after the other, both with success.\<close>

definition packages_sent :: "'e transport \<Rightarrow> bytes \<Rightarrow> bytes \<Rightarrow> 'e world \<Rightarrow> bool" where
  "packages_sent T dat bin w' \<longleftrightarrow>
     (\<exists>w1 w2. dfuSendPackage T w1 dat BLE_OBJ_TYPE_COMMAND = Some (BLE_DFU_RESP_VAL_SUCCESS, w2) \<and>
        dfuSendPackage T w2 bin BLE_OBJ_TYPE_DATA = Some (BLE_DFU_RESP_VAL_SUCCESS, w'))"

lemma dfu_attempt_success: "dfu_attempt T dat bin w = Some (Some True, w') \<Longrightarrow> packages_sent T dat bin w'"
  by (auto simp: dfu_attempt_def packages_sent_def bind_Some_iff Let_def split: if_splits)

lemma dfu_attempts_success: "dfu_attempts T dat bin n w = Some (True, w') \<Longrightarrow> packages_sent T dat bin w'"
  by (induction n arbitrary: w) (auto simp: bind_Some_iff dest: dfu_attempt_success split: option.splits bool.splits)

lemma dfu_transfers_success:
  "dfu_transfers S T dat bin m l w = Some (BLE_DFU_RESP_VAL_SUCCESS, w') \<Longrightarrow>
     \<exists>w''. packages_sent T dat bin w'' \<and> w' = ble_close S l w''"
  using failed_not_success
  by (auto simp: dfu_transfers_def bind_Some_iff Let_def split: if_splits intro: dfu_attempts_success)

lemma enter_bootloader_code:
  "enter_bootloader S T l w = Some (Some code, w') \<Longrightarrow> code \<noteq> BLE_DFU_RESP_VAL_SUCCESS"
  using failed_not_success by (auto simp: enter_bootloader_def bind_Some_iff Let_def split: if_splits)

lemma dfu_ends_in_transfers:
  assumes "dfu S T dst dat bin retryCount w = Some (BLE_DFU_RESP_VAL_SUCCESS, dst', w')"
  obtains m l w1 where "max_retries retryCount = Some m"
    "dfu_transfers S T dat bin m l w1 = Some (BLE_DFU_RESP_VAL_SUCCESS, w')"
proof -
  obtain m l w1 where m: "max_retries retryCount = Some m" "ble_open S T dst w = Some (l, w1)"
    using assms by (auto simp: dfu_def bind_Some_iff)
  show ?thesis
  proof (cases l)
    case None
    then show ?thesis using assms m that by (auto simp: dfu_def bind_Some_iff)
  next
    case (Some k)
    show ?thesis
    proof (cases "buttonless_only (ble w1)")
      case False
      then show ?thesis using assms m Some that by (auto simp: dfu_def bind_Some_iff)
    next
      case True
      then obtain r w2 where r: "enter_bootloader S T k w1 = Some (r, w2)"
        using assms m Some by (auto simp: dfu_def bind_Some_iff)
      have "r = None"
        using assms m Some True r enter_bootloader_code [of S T k w1 _ w2] by (cases r) (auto simp: dfu_def)
      then show ?thesis using assms m Some True r that by (auto simp: dfu_def bind_Some_iff)
    qed
  qed
qed

lemma dfu_success:
  assumes "dfu S T dst dat bin retryCount w = Some (BLE_DFU_RESP_VAL_SUCCESS, dst', w')"
  shows "\<exists>w''. packages_sent T dat bin w''"
  using assms by (rule dfu_ends_in_transfers) (auto dest: dfu_transfers_success)

lemma case_sum_Some_iff:
  "(case r of Inl e \<Rightarrow> f e | Inr x \<Rightarrow> g x) = Some y \<longleftrightarrow>
     (\<exists>e. r = Inl e \<and> f e = Some y) \<or> (\<exists>x. r = Inr x \<and> g x = Some y)"
  by (cases r) auto

text \<open>The images of a manifest, in the order the program sends them.\<close>

definition images :: "manifest \<Rightarrow> (bool \<times> string option \<times> string option) list" where
  "images m = [(hasSDBootloader m, sdBootloaderDatFileName m, sdBootloaderBinFileName m),
               (hasBootloader m, bootloaderDatFileName m, bootloaderBinFileName m),
               (hasApplication m, applicationDatFileName m, applicationBinFileName m)]"

definition image_sent :: "'e transport \<Rightarrow> package \<Rightarrow> string option \<Rightarrow> string option \<Rightarrow> bool" where
  "image_sent T pkg dat_fn bin_fn \<longleftrightarrow>
     (\<exists>d b dat bin w. dat_fn = Some d \<and> bin_fn = Some b \<and> pkg d = Some (Inr dat) \<and> pkg b = Some (Inr bin) \<and>
        packages_sent T dat bin w)"

lemma update_image_success:
  "update_image S T pkg has dat_fn bin_fn pause retryCount st = Some (Inr dst, w) \<Longrightarrow> has \<Longrightarrow>
     image_sent T pkg dat_fn bin_fn"
  by (cases st) (auto simp: update_image_def image_sent_def bind_Some_iff case_sum_Some_iff dest!: dfu_success
      split: if_splits)

lemma update_image_failure:
  "update_image S T pkg has dat_fn bin_fn pause retryCount st = Some (Inl e, w) \<Longrightarrow> e \<noteq> Inr EXIT_SUCCESS"
  by (cases st) (auto simp: update_image_def bind_Some_iff case_sum_Some_iff EXIT_FAILURE_def EXIT_SUCCESS_def
      split: if_splits)

lemma update_images_success:
  assumes "update_images S T pkg m retryCount st = Some (Inr EXIT_SUCCESS, w')"
  shows "\<forall>(has, dat_fn, bin_fn) \<in> set (images m). has \<longrightarrow> image_sent T pkg dat_fn bin_fn"
proof -
  from assms obtain d1 w1 d2 w2 d3 w3 where
    "update_image S T pkg (hasSDBootloader m) (sdBootloaderDatFileName m) (sdBootloaderBinFileName m)
       True retryCount st = Some (Inr d1, w1)"
    "update_image S T pkg (hasBootloader m) (bootloaderDatFileName m) (bootloaderBinFileName m)
       True retryCount (d1, w1) = Some (Inr d2, w2)"
    "update_image S T pkg (hasApplication m) (applicationDatFileName m) (applicationBinFileName m)
       False retryCount (d2, w2) = Some (Inr d3, w3)"
    by (auto simp: update_images_def bind_Some_iff case_sum_Some_iff dest: update_image_failure)
  from this [THEN update_image_success] show ?thesis by (simp add: images_def)
qed

section \<open>Retries\<close>

lemma max_retries_eq:
  "n < 2 ^ 31 - 1 \<Longrightarrow> max_retries n = Some ((n + 129) mod 256 - 128)"
proof -
  assume "n < 2 ^ 31 - 1"
  then have "max_retries n = Some (signed_take_bit 7 (n + 1))"
    unfolding max_retries_def signed_of_int by simp
  then show ?thesis
    by (simp add: signed_take_bit_eq_take_bit_shift take_bit_eq_mod add.commute)
qed

lemma max_retries_small: "0 \<le> n \<Longrightarrow> n \<le> 126 \<Longrightarrow> max_retries n = Some (n + 1)"
  by (simp add: max_retries_eq)

lemma max_retries_wraps: "127 \<le> n \<Longrightarrow> n \<le> 254 \<Longrightarrow> max_retries n = Some (n - 255)"
proof -
  assume n: "127 \<le> n" "n \<le> 254"
  have "(n + 129) mod 256 = (n - 127) mod 256"
    using mod_add_self2 [of "n - 127" 256] by (simp add: algebra_simps)
  then show ?thesis using n by (simp add: max_retries_eq)
qed

lemma dfu_without_attempts:
  assumes "127 \<le> retryCount" "retryCount \<le> 254" "dfu S T dst dat bin retryCount w = Some (code, dst', w')"
  shows "code \<noteq> BLE_DFU_RESP_VAL_SUCCESS"
proof
  assume "code = BLE_DFU_RESP_VAL_SUCCESS"
  with assms(3) have "dfu S T dst dat bin retryCount w = Some (BLE_DFU_RESP_VAL_SUCCESS, dst', w')" by simp
  then obtain m l w1 where "max_retries retryCount = Some m"
    "dfu_transfers S T dat bin m l w1 = Some (BLE_DFU_RESP_VAL_SUCCESS, w')" by (rule dfu_ends_in_transfers)
  then show False
    using max_retries_wraps [OF assms(1,2)] assms(2) failed_not_success
    by (auto simp: dfu_transfers_def split: if_splits)
qed

section \<open>A whole update\<close>

text \<open>The control point can be subscribed to, and doing so does not disturb the bootloader. The registration
  completes before the call returns or later, when the answer to the write of the descriptor arrives; other
  characteristics may notify in the meantime.\<close>

definition subscribes :: "'e transport \<Rightarrow> u16 \<Rightarrow> 'e peer_view \<Rightarrow> 'e \<Rightarrow> bool" where
  "subscribes T cp V e \<longleftrightarrow> is_ready T e \<and>
     (\<exists>rid evs e0 e'. register_notify T cp e = (rid, evs, e0) \<and> rid \<noteq> 0 \<and> settled V e' \<and> boot V e' = boot V e \<and>
       (evs = [RegisterNotifyCb 0] \<and> e' = e0 \<or>
        evs = [] \<and> (\<exists>us. polls T e0 (us @ [[RegisterNotifyCb 0]]) e' \<and>
          (\<forall>b \<in> set us. \<forall>ev \<in> set b. \<exists>h v. ev = NotifyCb h v \<and> h \<noteq> cp))))"

lemma ble_mainloop_run_registered:
  assumes "polls T (env w) (us @ [[RegisterNotifyCb 0]]) e" "\<forall>b \<in> set us. \<forall>ev \<in> set b. stray (ble w) ev"
    and "\<not> stopped w"
  shows "ble_mainloop_run T w = Some (EXIT_SUCCESS, w\<lparr>exit_status := EXIT_SUCCESS, env := e\<rparr>)"
proof -
  let ?w = "w\<lparr>exit_status := EXIT_SUCCESS\<rparr>"
  from assms(1) obtain e1 where e1: "polls T (env w) us e1" "poll_events T e1 = Some ([RegisterNotifyCb 0], e)"
    by (auto simp: polls_append)
  have "ble_loop T ?w = ble_loop T (?w\<lparr>env := e1\<rparr>)"
    using ble_loop_strays [of T ?w us e1] e1(1) assms(2,3) by (simp add: stopped_def)
  also have "\<dots> = Option.bind (deliver T [RegisterNotifyCb 0] (?w\<lparr>env := e1, env := e\<rparr>)) (ble_loop T)"
    using assms(3) e1(2) by (subst ble_loop_step) (auto simp: stopped_def)
  also have "\<dots> = Some (?w\<lparr>env := e, exit_status := EXIT_SUCCESS, epoll_terminate := True\<rparr>)"
    by (simp add: deliver_def register_notify_cb_def mainloop_exit_success_def ble_loop_stopped stopped_def)
  finally show ?thesis using assms(3) by (simp add: ble_mainloop_run_eq stopped_def)
qed

lemma ble_register_notify_subscribes:
  assumes conn: "connected cp dt w" and sub: "subscribes T cp V (env w)" and room: "chunk_limit (mtu (ble w)) \<le> chunk_room V"
  obtains w' where "ble_register_notify T w = Some (EXIT_SUCCESS, w')" "connected cp dt w'" "attached V w'"
    "boot V (env w') = boot V (env w)" "dont_resume w' = dont_resume w"
proof -
  from sub obtain rid evs e0 e' where reg: "is_ready T (env w)" "register_notify T cp (env w) = (rid, evs, e0)" "rid \<noteq> 0"
      "settled V e'" "boot V e' = boot V (env w)"
    and how: "evs = [RegisterNotifyCb 0] \<and> e' = e0 \<or> evs = [] \<and> (\<exists>us. polls T e0 (us @ [[RegisterNotifyCb 0]]) e' \<and>
      (\<forall>b \<in> set us. \<forall>ev \<in> set b. \<exists>h v. ev = NotifyCb h v \<and> h \<noteq> cp))"
    unfolding subscribes_def by blast
  have cp: "cp_handle (ble w) = cp" and go: "\<not> stopped w" using conn by (simp_all add: connected_def)
  let ?u = "w\<lparr>env := e0, trace := trace w @ [Subscribe cp], ble := (ble w)\<lparr>notify_id := rid\<rparr>\<rparr>"
  let ?w = "w\<lparr>ble := (ble w)\<lparr>notify_id := rid\<rparr>, trace := trace w @ [Subscribe cp], env := e', exit_status := EXIT_SUCCESS\<rparr>"
  from how have "ble_register_notify T w = Some (EXIT_SUCCESS, ?w)"
  proof (elim disjE conjE exE)
    assume "evs = [RegisterNotifyCb 0]" "e' = e0"
    then show ?thesis using reg cp go
      by (simp add: ble_register_notify_def deliver_def register_notify_cb_def mainloop_exit_success_def
          upd_ble_def emit_def ble_mainloop_run_eq ble_loop_stopped stopped_def)
  next
    fix us assume evs: "evs = []" and polls: "polls T e0 (us @ [[RegisterNotifyCb 0]]) e'"
      and us: "\<forall>b \<in> set us. \<forall>ev \<in> set b. \<exists>h v. ev = NotifyCb h v \<and> h \<noteq> cp"
    have "\<forall>b \<in> set us. \<forall>ev \<in> set b. stray (ble ?u) ev" using us cp by (fastforce simp: stray_def awaited_response_def)
    from ble_mainloop_run_registered [of T ?u, OF _ this] polls go
    have "ble_mainloop_run T ?u = Some (EXIT_SUCCESS, ?u\<lparr>exit_status := EXIT_SUCCESS, env := e'\<rparr>)"
      by (simp add: stopped_def)
    then show ?thesis using reg cp evs
      by (simp add: ble_register_notify_def deliver_def upd_ble_def emit_def)
  qed
  moreover have "connected cp dt ?w" using conn by (auto simp: connected_def stopped_def ble_ok_def)
  moreover have "attached V ?w" using room reg(4) by (simp add: attached_def)
  ultimately show ?thesis using that reg(5) by simp
qed

lemma resumable_kept:
  "others_kept BLE_OBJ_TYPE_COMMAND b b' \<Longrightarrow> resumable bs data (objects b BLE_OBJ_TYPE_DATA) \<Longrightarrow>
     resumable bs data (objects b' BLE_OBJ_TYPE_DATA)"
  by (auto simp: others_kept_def resumable_def)

lemma connected_debug: "connected cp dt (upd_ble (\<lambda>b. b\<lparr>debug := d\<rparr>) w) = connected cp dt w"
  by (auto simp: connected_def upd_ble_def stopped_def ble_ok_def)

text \<open>What an update needs of the bootloader at the start.\<close>

definition ready_for :: "u32 \<Rightarrow> bytes \<Rightarrow> bytes \<Rightarrow> bootloader \<Rightarrow> bool" where
  "ready_for bs dat bin b \<longleftrightarrow> length dat < 2 ^ 32 \<and> length bin < 2 ^ 32 \<and> bs \<noteq> 0 \<and>
     resumable bs dat (objects b BLE_OBJ_TYPE_COMMAND) \<and> resumable bs bin (objects b BLE_OBJ_TYPE_DATA)"

lemma dfu_attempt_completes:
  assumes tgt: "dfu_target T cp dt bs V" and ready: "ready_for bs dat bin (boot V (env w))"
    and conn: "connected cp dt w" and sub: "subscribes T cp V (env w)" and room: "chunk_limit (mtu (ble w)) \<le> chunk_room V"
    and again: "received (target_at V BLE_OBJ_TYPE_COMMAND w) = [] \<or> \<not> dont_resume w"
  shows "\<exists>w'. dfu_attempt T dat bin w = Some (Some True, w') \<and> connected cp dt w' \<and>
    committed (target_at V BLE_OBJ_TYPE_COMMAND w') = dat \<and> committed (target_at V BLE_OBJ_TYPE_DATA w') = bin"
proof -
  let ?w0 = "upd_ble (\<lambda>b. b\<lparr>debug := 0\<rparr>) w"
  have w0: "connected cp dt ?w0" "env ?w0 = env w" "dont_resume ?w0 = dont_resume w" "mtu (ble ?w0) = mtu (ble w)"
    using conn by (simp_all add: connected_debug) (simp_all add: upd_ble_def)
  obtain w1 where w1: "ble_register_notify T ?w0 = Some (EXIT_SUCCESS, w1)" "connected cp dt w1" "attached V w1"
    "boot V (env w1) = boot V (env w)" "dont_resume w1 = dont_resume w"
    using ble_register_notify_subscribes [OF w0(1), of T V] sub room w0(2-4) by auto
  obtain w2 where w2: "dfuSendPackage T w1 dat BLE_OBJ_TYPE_COMMAND = Some (BLE_DFU_RESP_VAL_SUCCESS, w2)"
    "engaged V BLE_OBJ_TYPE_COMMAND (boot V (env w1)) cp dt w2" "committed (target_at V BLE_OBJ_TYPE_COMMAND w2) = dat"
    using transfer_to_target [OF tgt, of dat w1 BLE_OBJ_TYPE_COMMAND] ready w1 again
    by (auto simp: ready_for_def target_at_def)
  then have kept: "connected cp dt w2" "attached V w2" "others_kept BLE_OBJ_TYPE_COMMAND (boot V (env w)) (boot V (env w2))"
    using w1(4) by (simp_all add: engaged_def)
  obtain w3 where w3: "dfuSendPackage T w2 bin BLE_OBJ_TYPE_DATA = Some (BLE_DFU_RESP_VAL_SUCCESS, w3)"
    "engaged V BLE_OBJ_TYPE_DATA (boot V (env w2)) cp dt w3" "committed (target_at V BLE_OBJ_TYPE_DATA w3) = bin"
    using transfer_to_target [OF tgt, of bin w2 BLE_OBJ_TYPE_DATA] ready kept(1,2) resumable_kept [OF kept(3)]
    by (auto simp: ready_for_def target_at_def)
  then have "target_at V BLE_OBJ_TYPE_COMMAND w3 = target_at V BLE_OBJ_TYPE_COMMAND w2"
    by (simp add: engaged_def others_kept_def target_at_def)
  then show ?thesis using w1(1) w2(1,3) w3
    by (auto simp: dfu_attempt_def Let_def EXIT_SUCCESS_def engaged_def)
qed

lemma dfu_completes:
  assumes "0 \<le> retryCount" "retryCount \<le> 126"
    and open_link: "ble_open S T dst w = Some (Some l, w1)" and handles: "cp \<noteq> 0" "dt \<noteq> 0"
    and "dfu_target T cp dt bs V" "ready_for bs dat bin (boot V (env w1))" "connected cp dt w1"
    and "subscribes T cp V (env w1)" "chunk_limit (mtu (ble w1)) \<le> chunk_room V"
    and "received (target_at V BLE_OBJ_TYPE_COMMAND w1) = [] \<or> \<not> dont_resume w1"
  shows "\<exists>w'. dfu S T dst dat bin retryCount w = Some (BLE_DFU_RESP_VAL_SUCCESS, dst, ble_close S (Some l) w') \<and>
    committed (target_at V BLE_OBJ_TYPE_COMMAND w') = dat \<and> committed (target_at V BLE_OBJ_TYPE_DATA w') = bin"
proof -
  obtain w' where w': "dfu_attempt T dat bin w1 = Some (Some True, w')"
    "committed (target_at V BLE_OBJ_TYPE_COMMAND w') = dat" "committed (target_at V BLE_OBJ_TYPE_DATA w') = bin"
    using dfu_attempt_completes assms by metis
  have n: "nat (retryCount + 1) = Suc (nat retryCount)" using assms(1) by simp
  have "dfu_attempts T dat bin (nat (retryCount + 1)) w1 = Some (True, w')"
    unfolding n using w'(1) by simp
  moreover have "\<not> buttonless_only (ble w1)"
    using handles assms(8) by (auto simp: buttonless_only_def connected_def)
  ultimately have "dfu S T dst dat bin retryCount w = Some (BLE_DFU_RESP_VAL_SUCCESS, dst, ble_close S (Some l) w')"
    using max_retries_small [OF assms(1,2)] open_link by (simp add: dfu_def dfu_transfers_def Let_def)
  then show ?thesis using w'(2,3) by blast
qed

section \<open>A concrete update\<close>

text \<open>Calls that succeed, and a peripheral with the DFU service that discovery reports at once.\<close>

definition sim_system :: "sim system" where
  "sim_system =
     \<lparr>sys_socket = (\<lambda>e. (3, e)), sys_bind = (\<lambda>_ _ e. (0, e)), sys_setsockopt = (\<lambda>_ _ e. (0, e)),
      sys_connect = (\<lambda>_ _ e. (0, e)), att_new = (\<lambda>_ e. (True, e)), att_set_close_on_unref = (\<lambda>e. (True, e)),
      att_register_disconnect = (\<lambda>e. (1, e)), gatt_client_new = (\<lambda>_ e. (True, e)),
      gatt_client_get_mtu = (\<lambda>_. 23), release = (\<lambda>_ e. e)\<rparr>"

definition sim_db :: gatt_db where
  "sim_db = gatt_db_new\<lparr>db_services := [gap_service, dfu_service 1 0x0b]\<rparr>"

definition sim_device :: "sim transport" where
  "sim_device = sim_with_db 4 0x0f sim_db"

definition fresh_boot :: bootloader where
  "fresh_boot = \<lparr>objects = \<lambda>_. \<lparr>committed = [], obj = [], space = 0\<rparr>, selected = BLE_OBJ_TYPE_COMMAND\<rparr>"

definition advertising :: "sim world" where
  "advertising = idle_world \<lparr>sim_boot = fresh_boot, sim_queue = [[ReadyCb True 0]]\<rparr>"

definition sim_link :: link where
  "sim_link = \<lparr>lk_fd = 3, lk_att = True, lk_db = True, lk_gatt = True\<rparr>"

lemma sim_set_up_link: "set_up_link sim_system dst w = (Some sim_link, w\<lparr>ble := new_ble dst\<rparr>)"
  by (simp add: set_up_link_def start_att_def start_gatt_def on_env_def sim_system_def l2cap_le_att_connect_def sim_link_def)

lemma sim_ready:
  "ready_cb (database sim_device) True 0 w = Some (mainloop_exit_success
     (w\<lparr>ble := (ble w)\<lparr>data_handle := 0x0d, cp_handle := 0x0f, cccd_handle := 0x10\<rparr>\<rparr>))"
  using ready_cb_finds_dfu [where db = sim_db and pre = "[gap_service]" and post = "[]" and s = 1 and h = "0x0b"
      and db_of = "database sim_device" and w = w] gap_service_passed_over
  by (simp add: sim_db_def sim_device_def sim_with_db_def gap_service_def)

lemma sim_open:
  obtains w1 where "ble_open sim_system sim_device dst advertising = Some (Some sim_link, w1)"
    "connected 0x0f 0x0d w1" "boot sim_view (env w1) = fresh_boot" "dont_resume w1 = False"
    "chunk_limit (mtu (ble w1)) \<le> chunk_room sim_view"
proof -
  let ?b = "(new_ble dst)\<lparr>data_handle := 0x0d, cp_handle := 0x0f, cccd_handle := 0x10\<rparr>"
  let ?w1 = "advertising\<lparr>ble := ?b\<lparr>mtu := 23\<rparr>, env := \<lparr>sim_boot = fresh_boot, sim_queue = []\<rparr>,
    exit_status := EXIT_SUCCESS, epoll_terminate := False\<rparr>"
  have "ble_loop sim_device (advertising\<lparr>ble := new_ble dst, exit_status := EXIT_SUCCESS\<rparr>) =
    Some (advertising\<lparr>ble := ?b, env := \<lparr>sim_boot = fresh_boot, sim_queue = []\<rparr>,
      exit_status := EXIT_SUCCESS, epoll_terminate := True\<rparr>)"
    by (subst ble_loop_step [where evs = "[ReadyCb True 0]" and e = "\<lparr>sim_boot = fresh_boot, sim_queue = []\<rparr>"])
      (simp_all add: stopped_def advertising_def idle_world_def sim_device_def sim_with_db_def sim_transport_def
        deliver_def sim_ready [unfolded sim_device_def sim_with_db_def sim_transport_def, simplified]
        mainloop_exit_success_def ble_loop_stopped)
  then have "ble_open sim_system sim_device dst advertising = Some (Some sim_link, ?w1)"
    by (simp add: ble_open_def sim_set_up_link ble_mainloop_run_eq upd_ble_def)
      (simp add: sim_system_def)
  moreover have "connected 0x0f 0x0d ?w1"
    by (simp add: connected_def ble_ok_def stopped_def advertising_def idle_world_def new_ble_def BT_ATT_DEFAULT_LE_MTU_def)
  moreover have "chunk_limit (mtu (ble ?w1)) \<le> chunk_room sim_view" by (simp add: chunk_limit_def)
  ultimately show ?thesis using that by (simp add: advertising_def)
qed

lemma sim_subscribes: "subscribes sim_device 0x0f sim_view e"
  by (simp add: subscribes_def sim_device_def sim_with_db_def sim_transport_def)

lemma sim_dfu:
  assumes "0 \<le> retryCount" "retryCount \<le> 126" "length dat < 2 ^ 32" "length bin < 2 ^ 32"
  shows "\<exists>w'. dfu sim_system sim_device dst dat bin retryCount advertising = Some (BLE_DFU_RESP_VAL_SUCCESS, dst, w')"
proof -
  obtain w1 where w1: "ble_open sim_system sim_device dst advertising = Some (Some sim_link, w1)"
    "connected 0x0f 0x0d w1" "boot sim_view (env w1) = fresh_boot" "dont_resume w1 = False"
    "chunk_limit (mtu (ble w1)) \<le> chunk_room sim_view" by (rule sim_open)
  have "ready_for 4 dat bin (boot sim_view (env w1))"
    using assms w1(3) by (simp add: ready_for_def fresh_boot_def resumable_def received_def)
  then show ?thesis
    using dfu_completes [OF assms(1,2) w1(1) _ _ sim_db_is_target [of 4 "0x0f" sim_db, folded sim_device_def] _ w1(2) sim_subscribes w1(5)]
      w1(4) by fastforce
qed

definition sim_package :: package where
  "sim_package fn =
     (if fn = ''manifest.json''
      then Some (Inr (map (\<lambda>c. word_of_nat (char_code c)) (image_manifest ''application'' ''app.bin'' ''app.dat'')))
      else if fn = ''app.bin'' then Some (Inr [1, 2, 3, 4, 5]) else if fn = ''app.dat'' then Some (Inr [6, 7]) else None)"

lemma sim_manifest:
  "\<exists>out. parse_manifest (c_string (map (\<lambda>c. word_of_nat (char_code c)) (image_manifest ''application'' ''app.bin'' ''app.dat''))) =
     Some (\<lparr>hasApplication = True, applicationDatFileName = Some ''app.dat'', applicationBinFileName = Some ''app.bin'',
          hasSDBootloader = False, sdBootloaderDatFileName = None, sdBootloaderBinFileName = None,
          hasBootloader = False, bootloaderDatFileName = None, bootloaderBinFileName = None\<rparr>, out)"
proof -
  have "map_option fst (parse_manifest (c_string (map (\<lambda>c. word_of_nat (char_code c)) (image_manifest ''application'' ''app.bin'' ''app.dat'')))) =
     Some \<lparr>hasApplication = True, applicationDatFileName = Some ''app.dat'', applicationBinFileName = Some ''app.bin'',
          hasSDBootloader = False, sdBootloaderDatFileName = None, sdBootloaderBinFileName = None,
          hasBootloader = False, bootloaderDatFileName = None, bootloaderBinFileName = None\<rparr>"
    by code_simp
  then show ?thesis by auto
qed

definition sim_options :: "(char \<times> string) list" where
  "sim_options = [(CHR ''b'', ''F0:00:00:00:00:01''), (CHR ''p'', ''app.zip'')]"

lemma sim_program:
  "\<exists>w'. main sim_system sim_device (\<lambda>_. Some [1, 0, 0, 0, 0, 0xf0]) (\<lambda>_. Inr sim_package) sim_options advertising =
     Some (Inr EXIT_SUCCESS, w')"
proof -
  obtain w' where w': "dfu sim_system sim_device [1, 0, 0, 0, 0, 0xf0] [6, 7] [1, 2, 3, 4, 5] 0 advertising =
      Some (BLE_DFU_RESP_VAL_SUCCESS, [1, 0, 0, 0, 0, 0xf0], w')"
    using sim_dfu [of 0 "[6, 7]" "[1, 2, 3, 4, 5]"] by auto
  have flags: "mainloop_reset_flags advertising = advertising"
    by (simp add: mainloop_reset_flags_def advertising_def idle_world_def)
  obtain out where m: "parse_manifest (c_string (map (\<lambda>c. word_of_nat (char_code c)) (image_manifest ''application'' ''app.bin'' ''app.dat''))) =
     Some (\<lparr>hasApplication = True, applicationDatFileName = Some ''app.dat'', applicationBinFileName = Some ''app.bin'',
          hasSDBootloader = False, sdBootloaderDatFileName = None, sdBootloaderBinFileName = None,
          hasBootloader = False, bootloaderDatFileName = None, bootloaderBinFileName = None\<rparr>, out)"
    using sim_manifest by blast
  show ?thesis
    using w' by (simp add: main_def sim_options_def update_def flags sim_package_def m update_images_def update_image_def
        Let_def del: map_append)
qed

section \<open>Properties of an update\<close>

text \<open>C1 An update of a peripheral that advertises the DFU service and behaves as the protocol documents ends
  with success in the first attempt, for every retry count up to 126, and the peripheral has then
  executed exactly the init packet and the image; interrupted transfers of both are resumed.\<close>

theorem update_completes:
  assumes "0 \<le> retryCount" "retryCount \<le> 126"
    and "ble_open S T dst w = Some (Some l, w1)" "cp \<noteq> 0" "dt \<noteq> 0"
    and "dfu_target T cp dt bs V" "ready_for bs dat bin (boot V (env w1))" "connected cp dt w1"
    and "subscribes T cp V (env w1)" "chunk_limit (mtu (ble w1)) \<le> chunk_room V"
    and "received (target_at V BLE_OBJ_TYPE_COMMAND w1) = [] \<or> \<not> dont_resume w1"
  shows "\<exists>w'. dfu S T dst dat bin retryCount w = Some (BLE_DFU_RESP_VAL_SUCCESS, dst, ble_close S (Some l) w') \<and>
    committed (target_at V BLE_OBJ_TYPE_COMMAND w') = dat \<and> committed (target_at V BLE_OBJ_TYPE_DATA w') = bin"
  using assms by (rule dfu_completes)

theorem update_completes_witness:
  "\<exists>w'. dfu sim_system sim_device [1, 0, 0, 0, 0, 0xf0] [6, 7] [1, 2, 3, 4, 5] 2 advertising =
      Some (BLE_DFU_RESP_VAL_SUCCESS, [1, 0, 0, 0, 0, 0xf0], ble_close sim_system (Some sim_link) w') \<and>
    committed (target_at sim_view BLE_OBJ_TYPE_COMMAND w') = [6, 7] \<and>
    committed (target_at sim_view BLE_OBJ_TYPE_DATA w') = [1, 2, 3, 4, 5]"
proof -
  obtain w1 where w1: "ble_open sim_system sim_device [1, 0, 0, 0, 0, 0xf0] advertising = Some (Some sim_link, w1)"
    "connected 0x0f 0x0d w1" "boot sim_view (env w1) = fresh_boot" "dont_resume w1 = False"
    "chunk_limit (mtu (ble w1)) \<le> chunk_room sim_view" by (rule sim_open)
  have "ready_for 4 [6, 7] [1, 2, 3, 4, 5] (boot sim_view (env w1))"
    using w1(3) by (simp add: ready_for_def fresh_boot_def resumable_def received_def)
  then show ?thesis
    using w1 by - (rule update_completes [OF _ _ w1(1) _ _ sim_db_is_target [of 4 "0x0f" sim_db, folded sim_device_def]
        _ w1(2) sim_subscribes], simp_all)
qed



text \<open>The number of attempts is kept in a signed byte: with a retry count from 127 to 254 it is not
  positive, and no update ever succeeds, whatever the peripheral does.\<close>

theorem large_retry_count_never_updates:
  assumes "127 \<le> retryCount" "retryCount \<le> 254"
    and "dfu S T dst dat bin retryCount w = Some (code, dst', w')"
  shows "code \<noteq> BLE_DFU_RESP_VAL_SUCCESS"
  using assms by (rule dfu_without_attempts)

theorem large_retry_count_never_updates_witness:
  "\<exists>code w'. dfu sim_system sim_device [1, 0, 0, 0, 0, 0xf0] [6, 7] [1, 2, 3, 4, 5] 200 advertising =
      Some (code, [1, 0, 0, 0, 0, 0xf0], w') \<and> code \<noteq> BLE_DFU_RESP_VAL_SUCCESS"
proof -
  obtain w1 where w1: "ble_open sim_system sim_device [1, 0, 0, 0, 0, 0xf0] advertising = Some (Some sim_link, w1)"
    "connected 0x0f 0x0d w1" by (rule sim_open)
  have "max_retries 200 = Some (- 55)" by (simp add: max_retries_wraps)
  moreover have "\<not> buttonless_only (ble w1)" using w1(2) by (auto simp: buttonless_only_def connected_def)
  ultimately obtain code w' where run: "dfu sim_system sim_device [1, 0, 0, 0, 0, 0xf0] [6, 7] [1, 2, 3, 4, 5] 200 advertising =
      Some (code, [1, 0, 0, 0, 0, 0xf0], w')"
    using w1(1) by (simp add: dfu_def dfu_transfers_def Let_def)
  with large_retry_count_never_updates [OF _ _ run] show ?thesis by auto
qed

end
