(* ===== verification/Util.thy ===== *)
theory Util
  imports Uuid
begin

text \<open>
  The helpers of \<^verbatim>\<open>bluez/util.c\<close> and \<^verbatim>\<open>hexdump.c\<close>: the allocator of small identifiers in a bitmap, and the
  two hex dumps. \<^verbatim>\<open>util_hexdump\<close> fills a character array of 68 places in two columns and hands it to a
  debug function line by line; the model keeps the array, with every store checked.
\<close>

section \<open>Identifiers in a bitmap\<close>

text \<open>\<^verbatim>\<open>ffs\<close> of the C library: one more than the index of the lowest bit set, 0 without one.\<close>

definition ffs :: "u32 \<Rightarrow> nat" where
  "ffs w = (case find (\<lambda>i. bit w i) [0 ..< 32] of Some i \<Rightarrow> Suc i | None \<Rightarrow> 0)"

definition util_get_uid :: "u32 \<Rightarrow> byte \<Rightarrow> byte \<times> u32" where
  "util_get_uid bitmap mx =
     (let uid = (word_of_nat (ffs (NOT bitmap)) :: byte) in
      if uid = 0 \<or> uid > mx then (0, bitmap)
      else (uid, bitmap OR push_bit (unat uid - 1) 1))"

text \<open>A shift by 32 or more is undefined.\<close>

definition util_clear_uid :: "u32 \<Rightarrow> byte \<Rightarrow> u32 option" where
  "util_clear_uid bitmap uid =
     (if uid = 0 then Some bitmap
      else if unat uid - 1 < 32 then Some (bitmap AND NOT (push_bit (unat uid - 1) 1)) else None)"

section \<open>The dump of the debug output\<close>

definition blank :: char where "blank = CHR '' ''"

definition isprint :: "byte \<Rightarrow> bool" where
  "isprint b \<longleftrightarrow> 32 \<le> unat b \<and> unat b < 127"

type_synonym cell = "char \<times> char \<times> char \<times> char"

definition byte_cell :: "byte \<Rightarrow> cell" where
  "byte_cell b = (blank, hex_digits ! unat (drop_bit 4 b), hex_digits ! unat (b AND 0x0f),
     (if isprint b then char_of (unat b) else CHR ''.''))"

definition blank_cell :: cell where "blank_cell = (blank, blank, blank, blank)"

text \<open>The four stores of one column.\<close>

definition put_cell :: "nat \<Rightarrow> cell \<Rightarrow> string \<Rightarrow> string option" where
  "put_cell j c str = (case c of (sp, hi, lo, shown) \<Rightarrow> do {
     str \<leftarrow> array_set str (j * 3 + 1) sp;
     str \<leftarrow> array_set str (j * 3 + 2) hi;
     str \<leftarrow> array_set str (j * 3 + 3) lo;
     array_set str (j + 51) shown })"

definition end_line :: "string \<Rightarrow> string option" where
  "end_line str = do {
     str \<leftarrow> array_set str 49 blank;
     str \<leftarrow> array_set str 50 blank;
     array_set str 67 (CHR 0x00) }"

text \<open>What a function that is given the array as a C string sees.\<close>

definition cstring :: "string \<Rightarrow> string" where
  "cstring str = takeWhile (\<lambda>c. c \<noteq> CHR 0x00) str"

fun dump_loop :: "nat \<Rightarrow> bytes \<Rightarrow> string \<Rightarrow> string list \<Rightarrow> (nat \<times> string \<times> string list) option" where
  "dump_loop i [] str out = Some (i, str, out)"
| "dump_loop i (b # bs) str out = do {
     str \<leftarrow> put_cell (i mod 16) (byte_cell b) str;
     if (i + 1) mod 16 = 0
     then do {
       str \<leftarrow> end_line str;
       str' \<leftarrow> array_set str 0 blank;
       dump_loop (i + 1) bs str' (out @ [cstring str]) }
     else dump_loop (i + 1) bs str out }"

fun pad_loop :: "nat list \<Rightarrow> string \<Rightarrow> string option" where
  "pad_loop [] str = Some str"
| "pad_loop (j # js) str = do { str \<leftarrow> put_cell j blank_cell str; pad_loop js str }"

text \<open>\<open>junk\<close> is what the array holds before the first store; the result is the lines handed out.\<close>

definition util_hexdump :: "string \<Rightarrow> char \<Rightarrow> bytes \<Rightarrow> string list option" where
  "util_hexdump junk dir buf =
     (if buf = [] then Some []
      else do {
        str \<leftarrow> array_set junk 0 dir;
        (i, str, out) \<leftarrow> dump_loop 0 buf str [];
        if i mod 16 > 0
        then do {
          str \<leftarrow> pad_loop [i mod 16 ..< 16] str;
          str \<leftarrow> end_line str;
          Some (out @ [cstring str]) }
        else Some out })"

text \<open>A formatted message is cut to the 77 characters that fit into its buffer. The function and the format may be
  null pointers; \<open>formatted\<close> is what \<^verbatim>\<open>vsnprintf\<close> makes of the format. The result is what the function is given.\<close>

definition util_debug :: "bool \<Rightarrow> string option \<Rightarrow> string list" where
  "util_debug has_function formatted =
     (case formatted of None \<Rightarrow> [] | Some text \<Rightarrow> if has_function then [take 77 (cstring text)] else [])"

text \<open>The kind of a directory entry: the path is cut to the buffer; \<open>lstat\<close> tells whether it is a directory, if it is
  there.\<close>

definition PATH_MAX :: nat where "PATH_MAX = 4096"
definition DT_UNKNOWN :: byte where "DT_UNKNOWN = 0"
definition DT_DIR :: byte where "DT_DIR = 4"

definition util_get_dt :: "(string \<Rightarrow> bool option) \<Rightarrow> string \<Rightarrow> string \<Rightarrow> byte" where
  "util_get_dt lstat parent name =
     (if lstat (take (PATH_MAX - 1) (parent @ ''/'' @ name)) = Some True then DT_DIR else DT_UNKNOWN)"

section \<open>The dump of the DFU client\<close>

text \<open>\<^verbatim>\<open>%05x\<close> prints more digits when it has to.\<close>

fun hex_width :: "nat \<Rightarrow> nat" where
  "hex_width v = (if v < 16 then 1 else Suc (hex_width (v div 16)))"

definition hexdump_columns :: "(nat \<Rightarrow> string) \<Rightarrow> string" where
  "hexdump_columns f = concat (map (\<lambda>j. f j @ (if j = 7 then '' '' else [])) [0 ..< 16])"

definition hexdump_row :: "bytes \<Rightarrow> nat \<Rightarrow> string" where
  "hexdump_row d i =
     '' '' @ print_hex (max 5 (hex_width i)) (int i) @ '':'' @
     hexdump_columns (\<lambda>j. if i + j < length d then '' '' @ print_hex 2 (uint (d ! (i + j))) else ''   '') @
     '' '' @
     hexdump_columns (\<lambda>j. if i + j < length d
       then [if unat (d ! (i + j)) < 33 \<or> unat (d ! (i + j)) > 126 then CHR ''.'' else char_of (unat (d ! (i + j)))]
       else []) @ [CHR 0x0A]"

text \<open>Rounding a length above \<^verbatim>\<open>INT_MAX - 15\<close> up overflows the \<^verbatim>\<open>int\<close>.\<close>

definition hexdump :: "bytes option \<Rightarrow> int \<Rightarrow> string option" where
  "hexdump d len =
     (case d of None \<Rightarrow> Some []
      | Some d \<Rightarrow>
          if len < 0 then Some []
          else if len > 2 ^ 31 - 1 - 15 then None
          else do {
            data \<leftarrow> array_slice d 0 (nat len);
            let e = 16 * ((nat len + 15) div 16);
            Some (concat (map (hexdump_row data) (filter (\<lambda>i. 16 dvd i) [0 ..< e]))) })"


section \<open>The allocator as a set\<close>

definition uids :: "u32 \<Rightarrow> nat set" where
  "uids bitmap = {i. 0 < i \<and> i \<le> 32 \<and> bit bitmap (i - 1)}"

lemma find_append: "find P (xs @ ys) = (case find P xs of None \<Rightarrow> find P ys | Some x \<Rightarrow> Some x)"
  by (induction xs) auto

lemma find_first_upt:
  "find P [0 ..< n] = Some i \<longleftrightarrow> i < n \<and> P i \<and> (\<forall>j < i. \<not> P j)"
proof (induction n)
  case (Suc n)
  have "find P [0 ..< Suc n] = (case find P [0 ..< n] of Some j \<Rightarrow> Some j | None \<Rightarrow> if P n then Some n else None)"
    by (simp add: find_append split: option.splits)
  then show ?case
    using Suc.IH find_None_iff [of P "[0 ..< n]"] by (auto simp: less_Suc_eq split: option.splits)
qed simp

lemma bit_NOT_32: "i < 32 \<Longrightarrow> bit (NOT (b :: u32)) i \<longleftrightarrow> \<not> bit b i"
  by (simp add: bit_not_iff)

lemma ffs_cases:
  obtains "ffs (NOT b) = 0" "uids b = {1 .. 32}"
  | i where "ffs (NOT b) = Suc i" "i < 32" "\<not> bit b i" "{1 .. i} \<subseteq> uids b"
proof (cases "find (\<lambda>i. bit (NOT b) i) [0 ..< 32]")
  case None
  then have "\<forall>i < 32. bit b i" by (auto simp: find_None_iff bit_NOT_32)
  then have "uids b = {1 .. 32}" by (auto simp: uids_def)
  then show ?thesis using that(1) None by (simp add: ffs_def)
next
  case (Some i)
  then have "i < 32" "\<not> bit b i" "\<forall>j < i. bit b j"
    using find_first_upt [of "\<lambda>i. bit (NOT b) i" 32 i] by (auto simp: bit_NOT_32)
  moreover from this have "{1 .. i} \<subseteq> uids b" by (auto simp: uids_def)
  ultimately show ?thesis using that(2) Some by (simp add: ffs_def)
qed

lemma uids_set: "i < 32 \<Longrightarrow> uids (b OR push_bit i 1) = insert (Suc i) (uids b)"
  by (auto simp: uids_def bit_or_iff bit_exp_iff)

lemma clear_set: "i < 32 \<Longrightarrow> \<not> bit (b :: u32) i \<Longrightarrow> (b OR push_bit i 1) AND NOT (push_bit i 1) = b"
  by (rule bit_word_eqI) (auto simp: bit_and_iff bit_or_iff bit_not_iff bit_exp_iff)

text \<open>The bitmap allocator hands out the smallest free identifier and marks exactly that one, fails only
  when all allowed identifiers are taken, and clearing what it handed out restores the bitmap.\<close>

theorem util_get_uid_smallest_free:
  "case util_get_uid bitmap mx of (uid, bitmap') \<Rightarrow>
     if uid = 0 then bitmap' = bitmap \<and> {1 .. min 32 (unat mx)} \<subseteq> uids bitmap
     else unat uid \<le> unat mx \<and> unat uid \<notin> uids bitmap \<and> {1 ..< unat uid} \<subseteq> uids bitmap \<and>
       uids bitmap' = insert (unat uid) (uids bitmap) \<and> util_clear_uid bitmap' uid = Some bitmap"
proof (rule ffs_cases [of bitmap])
  assume "ffs (NOT bitmap) = 0" "uids bitmap = {1 .. 32}"
  then show ?thesis by (simp add: util_get_uid_def)
next
  fix i assume i: "ffs (NOT bitmap) = Suc i" "i < 32" "\<not> bit bitmap i" "{1 .. i} \<subseteq> uids bitmap"
  define uid :: byte where "uid = word_of_nat (Suc i)"
  have u: "unat uid = Suc i"
    using i(2) by (simp add: uid_def unat_of_nat take_bit_nat_eq_self del: of_nat_Suc)
  then have nz: "uid \<noteq> 0" by auto
  have get: "util_get_uid bitmap mx = (if unat mx < Suc i then (0, bitmap) else (uid, bitmap OR push_bit i 1))"
    using nz u by (simp add: util_get_uid_def i(1) uid_def [symmetric] word_less_nat_alt Let_def del: of_nat_Suc)
  have free: "Suc i \<notin> uids bitmap" using i(2,3) by (simp add: uids_def)
  have clear: "util_clear_uid (bitmap OR push_bit i 1) uid = Some bitmap"
    using nz u i clear_set by (simp add: util_clear_uid_def)
  show ?thesis
  proof (cases "unat mx < Suc i")
    case True
    then have "{1 .. min 32 (unat mx)} \<subseteq> {1 .. i}" by auto
    then show ?thesis using True i(4) get by auto
  next
    case False
    then show ?thesis
      using nz u free clear i(4) uids_set [OF i(2)] by (simp add: get atLeastLessThanSuc_atLeastAtMost)
  qed
qed

section \<open>The dump against its layout\<close>

text \<open>One line: the direction mark, sixteen columns of hexadecimal digits, two blanks, sixteen characters.\<close>

definition hex_columns :: "cell list \<Rightarrow> string" where
  "hex_columns cells = concat (map (\<lambda>(sp, hi, lo, shown). [sp, hi, lo]) cells)"

definition text_columns :: "cell list \<Rightarrow> string" where
  "text_columns cells = map (\<lambda>(sp, hi, lo, shown). shown) cells"

definition hex_line :: "char \<Rightarrow> bytes \<Rightarrow> string" where
  "hex_line mark bs =
     (let cells = map byte_cell bs @ replicate (16 - length bs) blank_cell
      in mark # hex_columns cells @ [blank, blank] @ text_columns cells)"

function hex_lines :: "char \<Rightarrow> bytes \<Rightarrow> string list" where
  "hex_lines mark bs = (if bs = [] then [] else hex_line mark (take 16 bs) # hex_lines blank (drop 16 bs))"
  by pat_completeness auto
termination by (relation "measure (\<lambda>(mark, bs). length bs)") auto

declare hex_lines.simps [simp del]

text \<open>The array once the first columns are filled.\<close>

definition filled_line :: "char \<Rightarrow> cell list \<Rightarrow> nat \<Rightarrow> string \<Rightarrow> bool" where
  "filled_line mark cells k str \<longleftrightarrow> length cells + k = 16 \<and> (\<exists>g1 g2 e.
     str = mark # hex_columns cells @ g1 @ text_columns cells @ g2 @ [e] \<and>
     length g1 = 3 * k + 2 \<and> length g2 = k)"

lemma length_columns [simp]:
  "length (hex_columns cells) = length cells * 3" "length (text_columns cells) = length cells"
  by (induction cells) (auto simp: hex_columns_def text_columns_def)

lemma columns_snoc:
  "hex_columns (cells @ [(sp, hi, lo, shown)]) = hex_columns cells @ [sp, hi, lo]"
  "text_columns (cells @ [(sp, hi, lo, shown)]) = text_columns cells @ [shown]"
  by (simp_all add: hex_columns_def text_columns_def)


lemma array_set_at: "length p = i \<Longrightarrow> array_set (p @ x # r) i y = Some (p @ y # r)"
  by (auto simp: array_set_def list_update_append)

lemma filled_line_put:
  assumes "filled_line mark cells (Suc k) str"
  obtains str' where "put_cell (length cells) c str = Some str'" "filled_line mark (cells @ [c]) k str'"
proof -
  obtain sp hi lo shown where c: "c = (sp, hi, lo, shown)" by (cases c)
  obtain g1 g2 e where n: "length cells + Suc k = 16"
    and g: "str = mark # hex_columns cells @ g1 @ text_columns cells @ g2 @ [e]"
      "length g1 = Suc (Suc (Suc (3 * k + 2)))" "length g2 = Suc k"
    using assms by (auto simp: filled_line_def)
  obtain a1 a2 a3 h1 where h1: "g1 = a1 # a2 # a3 # h1" "length h1 = 3 * k + 2"
    using g(2) by (metis length_Suc_conv)
  obtain b h2 where h2: "g2 = b # h2" "length h2 = k"
    using g(3) by (metis length_Suc_conv)
  let ?H = "mark # hex_columns cells" and ?T = "text_columns cells"
  let ?R = "h1 @ ?T @ b # h2 @ [e]"
  have "array_set str (length cells * 3 + 1) sp = Some (?H @ sp # a2 # a3 # ?R)"
    using array_set_at [of ?H "length cells * 3 + 1" a1 "a2 # a3 # ?R" sp] g(1) h1(1) h2(1) by simp
  moreover have "array_set (?H @ sp # a2 # a3 # ?R) (length cells * 3 + 2) hi = Some (?H @ sp # hi # a3 # ?R)"
    using array_set_at [of "?H @ [sp]" "length cells * 3 + 2" a2 "a3 # ?R" hi] by simp
  moreover have "array_set (?H @ sp # hi # a3 # ?R) (length cells * 3 + 3) lo = Some (?H @ sp # hi # lo # ?R)"
    using array_set_at [of "?H @ [sp, hi]" "length cells * 3 + 3" a3 ?R lo] by (simp add: numeral_3_eq_3)
  moreover have "array_set (?H @ sp # hi # lo # ?R) (length cells + 51) shown =
      Some (?H @ sp # hi # lo # h1 @ ?T @ shown # h2 @ [e])"
    using array_set_at [of "?H @ sp # hi # lo # h1 @ ?T" "length cells + 51" b "h2 @ [e]" shown] n h1(2) by simp
  ultimately have "put_cell (length cells) c str = Some (?H @ sp # hi # lo # h1 @ ?T @ shown # h2 @ [e])"
    by (simp add: put_cell_def c)
  moreover have "filled_line mark (cells @ [c]) k (?H @ sp # hi # lo # h1 @ ?T @ shown # h2 @ [e])"
    unfolding filled_line_def
    using n h1(2) h2(2) by (intro conjI exI [of _ h1] exI [of _ h2] exI [of _ e]) (auto simp: c columns_snoc)
  ultimately show ?thesis by (rule that)
qed

lemma end_line_full:
  assumes "filled_line mark cells 0 str"
  shows "end_line str = Some (mark # hex_columns cells @ [blank, blank] @ text_columns cells @ [CHR 0x00])"
proof -
  obtain x y e where g: "str = mark # hex_columns cells @ [x, y] @ text_columns cells @ [e]" and n: "length cells = 16"
    using assms by (auto simp: filled_line_def length_Suc_conv numeral_2_eq_2)
  let ?H = "mark # hex_columns cells" and ?T = "text_columns cells"
  have "array_set str 49 blank = Some (?H @ blank # y # ?T @ [e])"
    using array_set_at [of ?H 49 x "y # ?T @ [e]" blank] g n by simp
  moreover have "array_set (?H @ blank # y # ?T @ [e]) 50 blank = Some (?H @ blank # blank # ?T @ [e])"
    using array_set_at [of "?H @ [blank]" 50 y "?T @ [e]" blank] n by simp
  moreover have "array_set (?H @ blank # blank # ?T @ [e]) 67 (CHR 0x00) = Some (?H @ blank # blank # ?T @ [CHR 0x00])"
    using array_set_at [of "?H @ blank # blank # ?T" 67 e "[]" "CHR 0x00"] n by simp
  ultimately show ?thesis by (simp add: end_line_def)
qed


text \<open>No character of a line ends the C string early.\<close>

lemma hex_digit_char: "n < 16 \<Longrightarrow> hex_digits ! n \<noteq> CHR 0x00"
  using nat_below_16 [of n] by (auto simp: hex_digits_def)

lemma low_nibble: "unat (b AND 0x0f) < 16" for b :: byte
proof -
  have "b AND 0x0f = take_bit 4 b" by (simp add: take_bit_eq_mask mask_numeral)
  then show ?thesis using take_bit_nat_less_exp [of 4 "unat b"] by (simp add: unsigned_take_bit_eq)
qed

lemma high_nibble: "unat (drop_bit 4 b) < 16" for b :: byte
  using unat_u8_lt [of b] by (simp add: drop_bit_eq_div unat_div)

lemma byte_cell_chars: "CHR 0x00 \<notin> set (hex_columns [byte_cell b]) \<union> set (text_columns [byte_cell b])"
proof -
  have "(char_of (unat b) :: char) \<noteq> CHR 0x00" if "isprint b"
  proof
    assume "(char_of (unat b) :: char) = CHR 0x00"
    then have "(of_char (char_of (unat b)) :: nat) = of_char (CHR 0x00)" by simp
    then show False using that unat_u8_lt [of b] by (simp add: isprint_def)
  qed
  then show ?thesis
    using hex_digit_char [OF low_nibble [of b]] hex_digit_char [OF high_nibble [of b]]
    by (auto simp: byte_cell_def hex_columns_def text_columns_def blank_def)
qed

lemma columns_append:
  "hex_columns (xs @ ys) = hex_columns xs @ hex_columns ys" "text_columns (xs @ ys) = text_columns xs @ text_columns ys"
  by (simp_all add: hex_columns_def text_columns_def)

lemma columns_Cons:
  "hex_columns (x # xs) = hex_columns [x] @ hex_columns xs" "text_columns (x # xs) = text_columns [x] @ text_columns xs"
  by (simp_all add: hex_columns_def text_columns_def)

lemma map_byte_cell_chars:
  "CHR 0x00 \<notin> set (hex_columns (map byte_cell bs)) \<union> set (text_columns (map byte_cell bs))"
proof (induction bs)
  case (Cons b bs)
  then show ?case
    using byte_cell_chars [of b] columns_Cons [of "byte_cell b" "map byte_cell bs"] by auto
qed (simp add: hex_columns_def text_columns_def)

lemma blank_cells_chars:
  "CHR 0x00 \<notin> set (hex_columns (replicate n blank_cell)) \<union> set (text_columns (replicate n blank_cell))"
proof (induction n)
  case (Suc n)
  then show ?case
    using columns_Cons [of blank_cell "replicate n blank_cell"]
    by (auto simp: hex_columns_def text_columns_def blank_cell_def blank_def)
qed (simp add: hex_columns_def text_columns_def)

lemma cstring_terminated: "CHR 0x00 \<notin> set s \<Longrightarrow> cstring (s @ [CHR 0x00]) = s"
  unfolding cstring_def by (subst takeWhile_append2) auto

lemma cstring_line:
  assumes "mark \<noteq> CHR 0x00"
  shows "cstring (mark # hex_columns (map byte_cell bs @ replicate n blank_cell) @ [blank, blank] @
      text_columns (map byte_cell bs @ replicate n blank_cell) @ [CHR 0x00]) =
    mark # hex_columns (map byte_cell bs @ replicate n blank_cell) @ [blank, blank] @
      text_columns (map byte_cell bs @ replicate n blank_cell)" (is "cstring ?s = ?t")
proof -
  have "CHR 0x00 \<notin> set ?t"
    using assms map_byte_cell_chars [of bs] blank_cells_chars [of n]
    by (auto simp: columns_append blank_def)
  then show ?thesis using cstring_terminated [of ?t] by simp
qed

section \<open>The loops of the dump\<close>

lemma dump_part:
  assumes "filled_line mark cells m str" "i mod 16 = length cells" "length c < m"
  shows "\<exists>str'. dump_loop i (c @ rest) str out = dump_loop (i + length c) rest str' out \<and>
    filled_line mark (cells @ map byte_cell c) (m - length c) str'"
  using assms
proof (induction c arbitrary: i cells m str)
  case (Cons b c)
  then obtain m' where m': "m = Suc m'" "length c < m'" by (cases m) auto
  obtain str' where put: "put_cell (length cells) (byte_cell b) str = Some str'"
      and filled: "filled_line mark (cells @ [byte_cell b]) m' str'"
    using filled_line_put [of mark cells m' str] Cons.prems(1) m'(1) by blast
  have "length (cells @ [byte_cell b]) < 16" using filled m'(2) by (auto simp: filled_line_def)
  then have "(i + 1) mod 16 = length (cells @ [byte_cell b])"
    using Cons.prems(2) by (simp add: mod_Suc)
  moreover from this have "(i + 1) mod 16 \<noteq> 0" by simp
  ultimately show ?case
    using Cons.IH [OF filled, of "i + 1"] m' put Cons.prems(2) by simp
qed auto

lemma dump_full:
  assumes "filled_line mark [] 16 str" "i mod 16 = 0" "length c = 16" "mark \<noteq> CHR 0x00"
  shows "\<exists>str'. dump_loop i (c @ rest) str out = dump_loop (i + 16) rest str' (out @ [hex_line mark c]) \<and>
    filled_line blank [] 16 str'"
proof -
  obtain b where c: "c = take 15 c @ [b]" "length (take 15 c) = 15"
    using assms(3) take_Suc_conv_app_nth [of 15 c] by auto
  obtain str1 where s1: "dump_loop i (take 15 c @ [b] @ rest) str out = dump_loop (i + 15) ([b] @ rest) str1 out"
      and f1: "filled_line mark (map byte_cell (take 15 c)) 1 str1"
    using dump_part [OF assms(1), of i "take 15 c" "[b] @ rest" out] assms(2,3) by auto
  obtain str2 where put: "put_cell 15 (byte_cell b) str1 = Some str2"
      and f2: "filled_line mark (map byte_cell (take 15 c) @ [byte_cell b]) 0 str2"
    using filled_line_put [of mark "map byte_cell (take 15 c)" 0 str1 "byte_cell b"] f1 c(2)
    by (metis One_nat_def length_map)
  have cells: "map byte_cell (take 15 c) @ [byte_cell b] = map byte_cell c"
    using c(1) by (metis map_append list.simps(8,9))
  define full where "full = mark # hex_columns (map byte_cell c) @ [blank, blank] @ text_columns (map byte_cell c) @ [CHR 0x00]"
  have endl: "end_line str2 = Some full"
    using end_line_full [OF f2] unfolding cells full_def .
  have line: "cstring full = hex_line mark c"
    using cstring_line [OF assms(4), of c 0] assms(3) by (simp add: full_def hex_line_def Let_def)
  define str3 where "str3 = blank # tl full"
  have set: "array_set full 0 blank = Some str3"
    by (simp add: array_set_def full_def str3_def)
  have "(i + 15) mod 16 = 15" "Suc (i + 15) mod 16 = 0" using assms(2) by presburger+
  then have "dump_loop (i + 15) (b # rest) str1 out = dump_loop (i + 16) rest str3 (out @ [hex_line mark c])"
    using put endl set line by (simp add: add.commute)
  moreover have "filled_line blank [] 16 str3"
  proof -
    let ?r = "hex_columns (map byte_cell c) @ [blank, blank] @ text_columns (map byte_cell c)"
    have "str3 = blank # take 50 ?r @ drop 50 ?r @ [CHR 0x00]" 
      using append_take_drop_id [of 50 ?r] by (simp add: str3_def full_def del: append_take_drop_id take_append drop_append)
    moreover have "length (take 50 ?r) = 50" "length (drop 50 ?r) = 16" using assms(3) by simp_all
    ultimately show ?thesis
      unfolding filled_line_def by (intro conjI exI [of _ "take 50 ?r"] exI [of _ "drop 50 ?r"] exI [of _ "CHR 0x00"])
        (simp_all add: hex_columns_def text_columns_def)
  qed
  ultimately show ?thesis using s1 c(1) by (metis append.assoc append_Cons append_Nil)
qed

lemma pad_loop_full:
  "filled_line mark cells k str \<Longrightarrow>
     \<exists>str'. pad_loop [length cells ..< 16] str = Some str' \<and> filled_line mark (cells @ replicate k blank_cell) 0 str'"
proof (induction k arbitrary: cells str)
  case (Suc k)
  obtain str' where put: "put_cell (length cells) blank_cell str = Some str'"
      and filled: "filled_line mark (cells @ [blank_cell]) k str'"
    using filled_line_put [OF Suc.prems] by blast
  have "length cells < 16" using Suc.prems by (auto simp: filled_line_def)
  then have "pad_loop [length cells ..< 16] str = pad_loop [length (cells @ [blank_cell]) ..< 16] str'"
    using put by (subst upt_conv_Cons) simp_all
  then show ?case using Suc.IH [OF filled] by simp
qed (auto simp: filled_line_def)

lemma array_set_0: "length junk = 68 \<Longrightarrow> \<exists>str. array_set junk 0 mark = Some str \<and> filled_line mark [] 16 str"
proof -
  assume "length junk = 68"
  then obtain x r where "junk = x # r" "length r = 67" by (cases junk) auto
  then have "array_set junk 0 mark = Some (mark # take 50 r @ drop 50 (butlast r) @ [last r])"
    by (cases r rule: rev_cases) (auto simp: array_set_def)
  moreover have "filled_line mark [] 16 (mark # take 50 r @ drop 50 (butlast r) @ [last r])"
    unfolding filled_line_def using \<open>length r = 67\<close>
    by (intro conjI exI [of _ "take 50 r"] exI [of _ "drop 50 (butlast r)"] exI [of _ "last r"])
      (simp_all add: hex_columns_def text_columns_def)
  ultimately show ?thesis by blast
qed

text \<open>What the loop leaves for the code behind it: the last line, if it has begun one.\<close>

definition dumped :: "string list \<Rightarrow> nat \<Rightarrow> string \<Rightarrow> string list \<Rightarrow> bool" where
  "dumped ls n str out \<longleftrightarrow>
     (if n mod 16 > 0
      then (\<exists>str2 str3. pad_loop [n mod 16 ..< 16] str = Some str2 \<and> end_line str2 = Some str3 \<and>
             out @ [cstring str3] = ls)
      else out = ls)"

lemma dump_loop_lines:
  assumes "filled_line mark [] 16 str" "i mod 16 = 0" "mark \<noteq> CHR 0x00"
  shows "\<exists>n str' out'. dump_loop i bs str out = Some (n, str', out') \<and> dumped (out @ hex_lines mark bs) n str' out'"
  using assms
proof (induction "length bs" arbitrary: mark i bs str out rule: less_induct)
  case less
  show ?case
  proof (cases "length bs < 16")
    case True
    then obtain str' where s: "dump_loop i bs str out = Some (i + length bs, str', out)"
        and f: "filled_line mark (map byte_cell bs) (16 - length bs) str'"
      using dump_part [OF less.prems(1), of i bs "[]" out] less.prems(2) by auto
    have n: "(i + length bs) mod 16 = length bs" using True less.prems(2) by (simp add: mod_add_eq [symmetric])
    show ?thesis
    proof (cases "bs = []")
      case True
      then show ?thesis using s n less.prems(2) by (simp add: hex_lines.simps dumped_def)
    next
      case False
      obtain str2 where p: "pad_loop [length bs ..< 16] str' = Some str2"
          and f2: "filled_line mark (map byte_cell bs @ replicate (16 - length bs) blank_cell) 0 str2"
        using pad_loop_full [OF f] by auto
      have "hex_lines mark bs = [hex_line mark bs]" using True False by (simp add: hex_lines.simps)
      then show ?thesis
        using s n p end_line_full [OF f2] cstring_line [OF less.prems(3), of bs "16 - length bs"] False
        by (simp add: hex_line_def Let_def dumped_def)
    qed
  next
    case False
    then have "length (take 16 bs) = 16" by simp
    from dump_full [OF less.prems(1,2) this less.prems(3), of "drop 16 bs" out]
    obtain str' where d: "dump_loop i bs str out = dump_loop (i + 16) (drop 16 bs) str' (out @ [hex_line mark (take 16 bs)])"
        and f: "filled_line blank [] 16 str'"
      by auto
    have lines: "hex_lines mark bs = hex_line mark (take 16 bs) # hex_lines blank (drop 16 bs)"
      using False by (subst hex_lines.simps) auto
    have "length (drop 16 bs) < length bs" "(i + 16) mod 16 = 0" "blank \<noteq> CHR 0x00"
      using False less.prems(2) by (auto simp: blank_def)
    from less.hyps [OF this(1) f this(2,3), of "out @ [hex_line mark (take 16 bs)]"]
    show ?thesis unfolding d lines by simp
  qed
qed

text \<open>The debug dump never stores outside its array, always hands out terminated strings, and prints
  sixteen bytes a line in two columns, the last line padded, with the direction mark on the first.\<close>

theorem util_hexdump_layout:
  assumes "length junk = 68" "dir \<noteq> CHR 0x00"
  shows "util_hexdump junk dir buf = Some (hex_lines dir buf)"
proof (cases "buf = []")
  case True
  then show ?thesis by (simp add: util_hexdump_def hex_lines.simps)
next
  case False
  obtain str where s: "array_set junk 0 dir = Some str" and f: "filled_line dir [] 16 str"
    using array_set_0 [OF assms(1)] by blast
  obtain n str' out' where "dump_loop 0 buf str [] = Some (n, str', out')" "dumped (hex_lines dir buf) n str' out'"
    using dump_loop_lines [OF f _ assms(2), of 0 buf "[]"] by auto
  then show ?thesis using s False by (auto simp: util_hexdump_def dumped_def split: if_splits)
qed

theorem util_hexdump_layout_witness:
  "util_hexdump (replicate 68 CHR ''x'') CHR ''>'' [0x41, 0xff] =
     Some [''> 41 ff'' @ replicate 42 CHR '' '' @ ''  A.'' @ replicate 14 CHR '' '']"
proof -
  have "hex_lines CHR ''>'' [0x41, 0xff] = [''> 41 ff'' @ replicate 42 CHR '' '' @ ''  A.'' @ replicate 14 CHR '' '']"
    by code_simp
  then show ?thesis
    using util_hexdump_layout [of "replicate 68 CHR ''x''" "CHR ''>''" "[0x41, 0xff]"] by simp
qed

end
