(* ===== verification/EventLoop.thy ===== *)
theory EventLoop
  imports Nrf_Prelude
begin

text \<open>
  The descriptor table of \<^verbatim>\<open>bluez/mainloop.c\<close>, its timeouts on timer descriptors, and the timeouts of
  \<^verbatim>\<open>bluez/timeout-mainloop.c\<close> on top of them. Objects live on heaps from pointers to their contents, so
  that a use after \<^verbatim>\<open>free\<close> shows as \<open>None\<close>. The epoll set of the kernel maps a descriptor to the events
  asked for and to the pointer stored with it. A function pointer with its \<^verbatim>\<open>user_data\<close> is a \<open>code\<close>:
  one of the four callbacks of these files with the object it is given, or a client's. Destroy
  functions of clients are recorded in \<open>client_log\<close> and do not call back; event callbacks of clients
  are arbitrary functions on the state.
\<close>

section \<open>State\<close>

type_synonym ptr = nat

datatype code =
    Client nat
  | TimerEvent ptr
  | TimerFree ptr
  | TimeoutFire ptr
  | TimeoutFree ptr

record mainloop_data =
  md_fd :: int
  md_events :: u32
  md_callback :: code
  md_destroy :: "code option"

record timer_data =
  tm_fd :: int
  tm_callback :: code
  tm_destroy :: "code option"

record timeout_data =
  to_id :: int
  to_func :: nat
  to_destroy :: "nat option"
  to_timeout :: u32

record evloop =
  epoll_open :: bool
  mainloop_list :: "ptr option list"
  md_heap :: "ptr \<rightharpoonup> mainloop_data"
  tm_heap :: "ptr \<rightharpoonup> timer_data"
  to_heap :: "ptr \<rightharpoonup> timeout_data"
  next_ptr :: ptr
  epoll_set :: "int \<rightharpoonup> u32 \<times> ptr"
  timer_fds :: "int \<rightharpoonup> nat \<times> nat"
  client_log :: "nat list"

text \<open>The kernel: whether an allocation succeeds, which descriptors can be polled, the next timer.\<close>

record kernel =
  malloc_ok :: "evloop \<Rightarrow> bool"
  pollable :: "int \<Rightarrow> bool"
  timerfd_create :: "evloop \<Rightarrow> int"

definition MAX_MAINLOOP_ENTRIES :: nat where "MAX_MAINLOOP_ENTRIES = 128"
definition EPOLLIN :: u32 where "EPOLLIN = 0x001"
definition EPOLLERR :: u32 where "EPOLLERR = 0x008"
definition EPOLLHUP :: u32 where "EPOLLHUP = 0x010"
definition EPOLLONESHOT :: u32 where "EPOLLONESHOT = 0x40000000"

section \<open>System calls\<close>

definition epoll_ctl_add :: "kernel \<Rightarrow> int \<Rightarrow> u32 \<Rightarrow> ptr \<Rightarrow> evloop \<Rightarrow> int \<times> evloop" where
  "epoll_ctl_add K fd ev p s =
     (if epoll_open s \<and> pollable K fd \<and> epoll_set s fd = None
      then (0, s\<lparr>epoll_set := (epoll_set s)(fd \<mapsto> (ev, p))\<rparr>) else (-1, s))"

definition epoll_ctl_mod :: "int \<Rightarrow> u32 \<Rightarrow> ptr \<Rightarrow> evloop \<Rightarrow> int \<times> evloop" where
  "epoll_ctl_mod fd ev p s =
     (if epoll_open s \<and> epoll_set s fd \<noteq> None
      then (0, s\<lparr>epoll_set := (epoll_set s)(fd \<mapsto> (ev, p))\<rparr>) else (-1, s))"

definition epoll_ctl_del :: "int \<Rightarrow> evloop \<Rightarrow> int \<times> evloop" where
  "epoll_ctl_del fd s =
     (if epoll_open s \<and> epoll_set s fd \<noteq> None
      then (0, s\<lparr>epoll_set := (epoll_set s)(fd := None)\<rparr>) else (-1, s))"

text \<open>A descriptor that is closed leaves the epoll set.\<close>

definition close_fd :: "int \<Rightarrow> evloop \<Rightarrow> evloop" where
  "close_fd fd s = s\<lparr>epoll_set := (epoll_set s)(fd := None), timer_fds := (timer_fds s)(fd := None)\<rparr>"

definition timerfd_settime :: "int \<Rightarrow> nat \<times> nat \<Rightarrow> evloop \<Rightarrow> int \<times> evloop" where
  "timerfd_settime fd t s =
     (if timer_fds s fd = None then (-1, s) else (0, s\<lparr>timer_fds := (timer_fds s)(fd \<mapsto> t)\<rparr>))"

section \<open>Destroy functions\<close>

text \<open>\<^verbatim>\<open>timeout_destroy\<close> of \<^verbatim>\<open>timeout-mainloop.c\<close>.\<close>

definition timeout_free :: "ptr \<Rightarrow> evloop \<Rightarrow> evloop option" where
  "timeout_free q s = do {
     d \<leftarrow> to_heap s q;
     Some (s\<lparr>client_log := client_log s @ (case to_destroy d of None \<Rightarrow> [] | Some c \<Rightarrow> [c]),
             to_heap := (to_heap s)(q := None)\<rparr>) }"

definition run_timer_destroy :: "code option \<Rightarrow> evloop \<Rightarrow> evloop option" where
  "run_timer_destroy c s =
     (case c of None \<Rightarrow> Some s
      | Some (TimeoutFree q) \<Rightarrow> timeout_free q s
      | Some (Client n) \<Rightarrow> Some (s\<lparr>client_log := client_log s @ [n]\<rparr>)
      | Some _ \<Rightarrow> None)"

text \<open>\<^verbatim>\<open>timeout_destroy\<close> of \<^verbatim>\<open>mainloop.c\<close>. It does not free the object it is given.\<close>

definition timeout_destroy :: "ptr \<Rightarrow> evloop \<Rightarrow> evloop option" where
  "timeout_destroy q s = do {
     d \<leftarrow> tm_heap s q;
     let s = close_fd (tm_fd d) s;
     let s = s\<lparr>tm_heap := (tm_heap s)(q \<mapsto> d\<lparr>tm_fd := -1\<rparr>)\<rparr>;
     run_timer_destroy (tm_destroy d) s }"

definition run_destroy :: "code option \<Rightarrow> evloop \<Rightarrow> evloop option" where
  "run_destroy c s =
     (case c of Some (TimerFree q) \<Rightarrow> timeout_destroy q s
      | _ \<Rightarrow> run_timer_destroy c s)"

section \<open>The descriptor table\<close>

definition empty_list :: "ptr option list" where
  "empty_list = replicate MAX_MAINLOOP_ENTRIES None"

definition mainloop_init :: "bool \<Rightarrow> evloop \<Rightarrow> evloop" where
  "mainloop_init created s =
     s\<lparr>epoll_open := created, epoll_set := (\<lambda>_. None), mainloop_list := empty_list\<rparr>"

fun finish_loop :: "nat list \<Rightarrow> evloop \<Rightarrow> evloop option" where
  "finish_loop [] s = Some s"
| "finish_loop (i # is) s = do {
     let entry = mainloop_list s ! i;
     let s = s\<lparr>mainloop_list := (mainloop_list s)[i := None]\<rparr>;
     case entry of None \<Rightarrow> finish_loop is s
     | Some p \<Rightarrow> do {
         d \<leftarrow> md_heap s p;
         let (err, s) = epoll_ctl_del (md_fd d) s;
         s \<leftarrow> run_destroy (md_destroy d) s;
         finish_loop is (s\<lparr>md_heap := (md_heap s)(p := None)\<rparr>) } }"

definition mainloop_finish :: "evloop \<Rightarrow> evloop option" where
  "mainloop_finish s = do {
     s \<leftarrow> finish_loop [0 ..< MAX_MAINLOOP_ENTRIES] s;
     Some (s\<lparr>epoll_open := False, epoll_set := (\<lambda>_. None)\<rparr>) }"

definition bad_fd :: "int \<Rightarrow> bool" where
  "bad_fd fd \<longleftrightarrow> fd < 0 \<or> fd > int MAX_MAINLOOP_ENTRIES - 1"

text \<open>The callback is a null pointer for \<open>None\<close>.\<close>

definition mainloop_add_fd ::
  "kernel \<Rightarrow> int \<Rightarrow> u32 \<Rightarrow> code option \<Rightarrow> code option \<Rightarrow> evloop \<Rightarrow> int \<times> evloop" where
  "mainloop_add_fd K fd events callback destroy s =
     (if bad_fd fd \<or> callback = None then (- EINVAL, s)
      else if \<not> malloc_ok K s then (- ENOMEM, s)
      else let p = next_ptr s;
               data = \<lparr>md_fd = fd, md_events = events, md_callback = the callback, md_destroy = destroy\<rparr>;
               (err, s) = epoll_ctl_add K fd events p (s\<lparr>next_ptr := p + 1\<rparr>)
           in if err < 0 then (err, s)
              else (0, s\<lparr>md_heap := (md_heap s)(p \<mapsto> data),
                        mainloop_list := (mainloop_list s)[nat fd := Some p]\<rparr>))"

definition mainloop_modify_fd :: "int \<Rightarrow> u32 \<Rightarrow> evloop \<Rightarrow> (int \<times> evloop) option" where
  "mainloop_modify_fd fd events s =
     (if bad_fd fd then Some (- EINVAL, s)
      else case mainloop_list s ! nat fd of None \<Rightarrow> Some (- ENXIO, s)
        | Some p \<Rightarrow> do {
            d \<leftarrow> md_heap s p;
            let (err, s) = epoll_ctl_mod (md_fd d) events p s;
            if err < 0 then Some (err, s)
            else Some (0, s\<lparr>md_heap := (md_heap s)(p \<mapsto> d\<lparr>md_events := events\<rparr>)\<rparr>) })"

definition mainloop_remove_fd :: "int \<Rightarrow> evloop \<Rightarrow> (int \<times> evloop) option" where
  "mainloop_remove_fd fd s =
     (if bad_fd fd then Some (- EINVAL, s)
      else case mainloop_list s ! nat fd of None \<Rightarrow> Some (- ENXIO, s)
        | Some p \<Rightarrow> do {
            d \<leftarrow> md_heap s p;
            let s = s\<lparr>mainloop_list := (mainloop_list s)[nat fd := None]\<rparr>;
            let (err, s) = epoll_ctl_del (md_fd d) s;
            s \<leftarrow> run_destroy (md_destroy d) s;
            Some (err, s\<lparr>md_heap := (md_heap s)(p := None)\<rparr>) })"

section \<open>Timeouts\<close>

text \<open>Seconds and nanoseconds of the timer for a number of milliseconds, as the code computes them.\<close>

definition timeout_value :: "u32 \<Rightarrow> nat \<times> nat" where
  "timeout_value msec =
     (let sec = msec div 1000 in (unat sec, unat ((msec - (sec * 1000)) * 1000)))"

definition timeout_set :: "int \<Rightarrow> u32 \<Rightarrow> evloop \<Rightarrow> int \<times> evloop" where
  "timeout_set fd msec s = timerfd_settime fd (timeout_value msec) s"

definition mainloop_add_timeout ::
  "kernel \<Rightarrow> u32 \<Rightarrow> code option \<Rightarrow> code option \<Rightarrow> evloop \<Rightarrow> int \<times> evloop" where
  "mainloop_add_timeout K msec callback destroy s =
     (case callback of None \<Rightarrow> (- EINVAL, s)
      | Some callback \<Rightarrow>
          if \<not> malloc_ok K s then (- ENOMEM, s)
          else let q = next_ptr s; fd = timerfd_create K s; s = s\<lparr>next_ptr := q + 1\<rparr> in
            if fd < 0 then (- EIO, s)
            else let s = s\<lparr>timer_fds := (timer_fds s)(fd \<mapsto> (0, 0)),
                         tm_heap := (tm_heap s)(q \<mapsto> \<lparr>tm_fd = fd, tm_callback = callback, tm_destroy = destroy\<rparr>)\<rparr>;
                     undo = (\<lambda>s. (- EIO, (close_fd fd s)\<lparr>tm_heap := (tm_heap s)(q := None)\<rparr>));
                     (err, s) = (if msec > 0 then timeout_set fd msec s else (0, s))
                 in if err < 0 then undo s
                    else let (err, s) = mainloop_add_fd K fd (EPOLLIN OR EPOLLONESHOT) (Some (TimerEvent q))
                               (Some (TimerFree q)) s
                         in if err < 0 then undo s else (fd, s))"

definition mainloop_modify_timeout :: "int \<Rightarrow> u32 \<Rightarrow> evloop \<Rightarrow> (int \<times> evloop) option" where
  "mainloop_modify_timeout tid msec s =
     (let (err, s) = (if msec > 0 then timeout_set tid msec s else (0, s)) in
      if err < 0 then Some (- EIO, s)
      else do {
        (err, s) \<leftarrow> mainloop_modify_fd tid (EPOLLIN OR EPOLLONESHOT) s;
        if err < 0 then Some (- EIO, s) else Some (0, s) })"

definition mainloop_remove_timeout :: "int \<Rightarrow> evloop \<Rightarrow> (int \<times> evloop) option" where
  "mainloop_remove_timeout tid = mainloop_remove_fd tid"

text \<open>\<^verbatim>\<open>timeout-mainloop.c\<close>: identifiers are the descriptors, and 0 means failure.\<close>

definition timeout_add ::
  "kernel \<Rightarrow> u32 \<Rightarrow> nat \<Rightarrow> nat option \<Rightarrow> evloop \<Rightarrow> u32 \<times> evloop" where
  "timeout_add K timeout func destroy s =
     (if \<not> malloc_ok K s then (0, s)
      else let q = next_ptr s;
               data = \<lparr>to_id = 0, to_func = func, to_destroy = destroy, to_timeout = timeout\<rparr>;
               s = s\<lparr>next_ptr := q + 1, to_heap := (to_heap s)(q \<mapsto> data)\<rparr>;
               (tid, s) = mainloop_add_timeout K timeout (Some (TimeoutFire q)) (Some (TimeoutFree q)) s
           in if tid < 0 then (0, s\<lparr>to_heap := (to_heap s)(q := None)\<rparr>)
              else (word_of_int tid, s\<lparr>to_heap := (to_heap s)(q \<mapsto> data\<lparr>to_id := tid\<rparr>)\<rparr>))"

definition timeout_remove :: "u32 \<Rightarrow> evloop \<Rightarrow> evloop option" where
  "timeout_remove tid s =
     (if tid = 0 then Some s
      else do { (_, s) \<leftarrow> mainloop_remove_timeout (sint tid) s; Some s })"

section \<open>Dispatching events\<close>

text \<open>What the callbacks of clients do and return, by the number of the function.\<close>

type_synonym clients = "nat \<Rightarrow> int \<Rightarrow> u32 \<Rightarrow> evloop \<Rightarrow> (bool \<times> evloop) option"

text \<open>\<^verbatim>\<open>timeout_callback\<close> of \<^verbatim>\<open>timeout-mainloop.c\<close>: a timeout that wants to stay is armed again.\<close>

definition timeout_fire :: "clients \<Rightarrow> ptr \<Rightarrow> evloop \<Rightarrow> evloop option" where
  "timeout_fire C q s = do {
     d \<leftarrow> to_heap s q;
     (again, s) \<leftarrow> C (to_func d) (to_id d) 0 s;
     (err, s) \<leftarrow> (if again then do { d \<leftarrow> to_heap s q; mainloop_modify_timeout (to_id d) (to_timeout d) s }
                 else Some (-1, s));
     if again \<and> err = 0 then Some s
     else do { d \<leftarrow> to_heap s q; (_, s) \<leftarrow> mainloop_remove_timeout (to_id d) s; Some s } }"

text \<open>\<^verbatim>\<open>timeout_callback\<close> of \<^verbatim>\<open>mainloop.c\<close>; \<open>expired\<close> tells whether the counter could be read.\<close>

definition timeout_callback :: "clients \<Rightarrow> bool \<Rightarrow> u32 \<Rightarrow> ptr \<Rightarrow> evloop \<Rightarrow> evloop option" where
  "timeout_callback C expired events q s =
     (if events AND (EPOLLERR OR EPOLLHUP) \<noteq> 0 then Some s
      else do {
        d \<leftarrow> tm_heap s q;
        if \<not> expired then Some s
        else case tm_callback d of
            Client n \<Rightarrow> map_option snd (C n (tm_fd d) 0 s)
          | TimeoutFire r \<Rightarrow> timeout_fire C r s
          | _ \<Rightarrow> None })"

definition dispatch_event :: "clients \<Rightarrow> ptr \<times> u32 \<times> bool \<Rightarrow> evloop \<Rightarrow> evloop option" where
  "dispatch_event C e s = (case e of (p, events, expired) \<Rightarrow> do {
     d \<leftarrow> md_heap s p;
     case md_callback d of
         Client n \<Rightarrow> map_option snd (C n (md_fd d) events s)
       | TimerEvent q \<Rightarrow> timeout_callback C expired events q s
       | _ \<Rightarrow> None })"

definition MAX_EPOLL_EVENTS :: nat where "MAX_EPOLL_EVENTS = 10"

text \<open>\<^verbatim>\<open>epoll_wait\<close> hands out the pointers stored with the descriptors that are ready.\<close>

definition epoll_wait :: "(int \<times> u32 \<times> bool) list \<Rightarrow> evloop \<Rightarrow> (ptr \<times> u32 \<times> bool) list" where
  "epoll_wait ready s =
     map (\<lambda>(fd, events, expired). (snd (the (epoll_set s fd)), events, expired))
       (take MAX_EPOLL_EVENTS (filter (\<lambda>(fd, _). epoll_set s fd \<noteq> None) ready))"

fun dispatch_batch :: "clients \<Rightarrow> (ptr \<times> u32 \<times> bool) list \<Rightarrow> evloop \<Rightarrow> evloop option" where
  "dispatch_batch C [] s = Some s"
| "dispatch_batch C (e # es) s = do { s \<leftarrow> dispatch_event C e s; dispatch_batch C es s }"

section \<open>The table and the kernel agree\<close>

definition entry_in :: "ptr option list \<Rightarrow> int \<Rightarrow> ptr option" where
  "entry_in l fd = (if bad_fd fd then None else l ! nat fd)"

abbreviation entry :: "evloop \<Rightarrow> int \<Rightarrow> ptr option" where
  "entry s \<equiv> entry_in (mainloop_list s)"

definition client_destroy :: "code option \<Rightarrow> bool" where
  "client_destroy c \<longleftrightarrow> (case c of None \<Rightarrow> True | Some (Client _) \<Rightarrow> True | _ \<Rightarrow> False)"

text \<open>What an entry's callback and destroy function refer to is there and belongs to the same descriptor.\<close>

definition timer_linked :: "(ptr \<rightharpoonup> timeout_data) \<Rightarrow> int \<Rightarrow> timer_data \<Rightarrow> bool" where
  "timer_linked tos fd t \<longleftrightarrow> tm_fd t = fd \<and>
     ((\<exists>n. tm_callback t = Client n \<and> client_destroy (tm_destroy t)) \<or>
      (\<exists>r u. tm_callback t = TimeoutFire r \<and> tm_destroy t = Some (TimeoutFree r) \<and>
         tos r = Some u \<and> to_id u = fd))"

definition linked_in :: "(ptr \<rightharpoonup> timer_data) \<Rightarrow> (ptr \<rightharpoonup> timeout_data) \<Rightarrow> mainloop_data \<Rightarrow> bool" where
  "linked_in tms tos d \<longleftrightarrow>
     (\<exists>n. md_callback d = Client n \<and> client_destroy (md_destroy d)) \<or>
     (\<exists>q t. md_callback d = TimerEvent q \<and> md_destroy d = Some (TimerFree q) \<and>
        tms q = Some t \<and> timer_linked tos (md_fd d) t)"

abbreviation linked :: "evloop \<Rightarrow> mainloop_data \<Rightarrow> bool" where
  "linked s \<equiv> linked_in (tm_heap s) (to_heap s)"

definition below :: "ptr \<Rightarrow> (ptr \<rightharpoonup> 'a) \<Rightarrow> bool" where
  "below n h \<longleftrightarrow> (\<forall>p \<ge> n. h p = None)"

definition loop_ok :: "evloop \<Rightarrow> bool" where
  "loop_ok s \<longleftrightarrow> epoll_open s \<and> length (mainloop_list s) = MAX_MAINLOOP_ENTRIES \<and>
     below (next_ptr s) (md_heap s) \<and> below (next_ptr s) (tm_heap s) \<and> below (next_ptr s) (to_heap s) \<and>
     (\<forall>fd. entry s fd = None \<longrightarrow> epoll_set s fd = None) \<and>
     (\<forall>fd p. entry s fd = Some p \<longrightarrow> (\<exists>d. md_heap s p = Some d \<and> md_fd d = fd \<and>
        epoll_set s fd = Some (md_events d, p) \<and> linked s d))"

lemma loop_okD:
  assumes "loop_ok s"
  shows "epoll_open s" "length (mainloop_list s) = MAX_MAINLOOP_ENTRIES"
    "below (next_ptr s) (md_heap s)" "below (next_ptr s) (tm_heap s)" "below (next_ptr s) (to_heap s)"
    "entry s fd = None \<Longrightarrow> epoll_set s fd = None"
  using assms by (auto simp: loop_ok_def)

lemma loop_ok_entry:
  assumes "loop_ok s" "entry s fd = Some p"
  obtains d where "md_heap s p = Some d" "md_fd d = fd" "epoll_set s fd = Some (md_events d, p)" "linked s d"
  using assms unfolding loop_ok_def by blast

lemma entry_fd: "entry_in l fd = Some p \<Longrightarrow> \<not> bad_fd fd"
  by (auto simp: entry_in_def split: if_splits)

lemma bad_fd_nat: "bad_fd fd \<longleftrightarrow> \<not> (0 \<le> fd \<and> nat fd < MAX_MAINLOOP_ENTRIES)"
  by (auto simp: bad_fd_def MAX_MAINLOOP_ENTRIES_def)

lemma entry_update:
  "length l = MAX_MAINLOOP_ENTRIES \<Longrightarrow> \<not> bad_fd fd \<Longrightarrow> entry_in (l[nat fd := e]) = (entry_in l)(fd := e)"
  by (rule ext) (auto simp: entry_in_def bad_fd_nat nth_list_update nat_eq_iff)

lemma below_mono: "below n h \<Longrightarrow> n \<le> m \<Longrightarrow> below m h"
  by (simp add: below_def)

lemma below_fresh: "below n h \<Longrightarrow> h p = Some x \<Longrightarrow> p < n"
  unfolding below_def by (metis not_le option.distinct(1))

lemma below_update: "below n h \<Longrightarrow> p < n \<Longrightarrow> below n (h(p := v))"
  by (simp add: below_def)

lemma below_Suc: "below n h \<Longrightarrow> below (Suc n) h" "below n h \<Longrightarrow> below (Suc n) (h(n := v))"
  by (simp_all add: below_def)

lemma linked_mono:
  assumes "linked_in tms tos d" "tms \<subseteq>\<^sub>m tms'" "tos \<subseteq>\<^sub>m tos'"
  shows "linked_in tms' tos' d"
proof -
  have tm: "tms q = Some t \<Longrightarrow> tms' q = Some t" for q t using assms(2) by (metis domI map_le_def)
  have "tos r = Some u \<Longrightarrow> tos' r = Some u" for r u using assms(3) by (metis domI map_le_def)
  then have "timer_linked tos fd t \<Longrightarrow> timer_linked tos' fd t" for fd t by (auto simp: timer_linked_def)
  then show ?thesis using assms(1) tm unfolding linked_in_def by blast
qed

lemma loop_ok_extend:
  assumes "loop_ok s" "epoll_open s' = epoll_open s" "mainloop_list s' = mainloop_list s" "md_heap s' = md_heap s"
    and "epoll_set s' = epoll_set s" "tm_heap s \<subseteq>\<^sub>m tm_heap s'" "to_heap s \<subseteq>\<^sub>m to_heap s'"
    and "next_ptr s \<le> next_ptr s'" "below (next_ptr s') (tm_heap s')" "below (next_ptr s') (to_heap s')"
  shows "loop_ok s'"
proof -
  have "linked s d \<Longrightarrow> linked s' d" for d using linked_mono assms(6,7) by blast
  then show ?thesis
    using assms below_mono [of "next_ptr s" "md_heap s"] unfolding loop_ok_def by simp blast
qed

lemma loop_ok_next: "loop_ok s \<Longrightarrow> next_ptr s \<le> n \<Longrightarrow> loop_ok (s\<lparr>next_ptr := n\<rparr>)"
  unfolding loop_ok_def by (auto intro: below_mono)

lemma entry_inj: "loop_ok s \<Longrightarrow> entry s fd = Some p \<Longrightarrow> entry s fd' = Some p \<Longrightarrow> fd = fd'"
  by (metis loop_ok_entry option.inject)


section \<open>Adding and removing entries\<close>

lemma add_entry_ok:
  assumes "loop_ok s" "entry s fd = None" "\<not> bad_fd fd" "md_fd data = fd" "linked s data"
  shows "loop_ok (s\<lparr>next_ptr := next_ptr s + 1, epoll_set := (epoll_set s)(fd \<mapsto> (md_events data, next_ptr s)),
    md_heap := (md_heap s)(next_ptr s \<mapsto> data),
    mainloop_list := (mainloop_list s)[nat fd := Some (next_ptr s)]\<rparr>)" (is "loop_ok ?s")
proof -
  note ok = loop_okD [OF assms(1)]
  have old: "md_heap s p \<noteq> None \<Longrightarrow> p \<noteq> next_ptr s" for p using ok(3) by (auto simp: below_def)
  have "below (Suc (next_ptr s)) h" if "below (next_ptr s) h" for h :: "ptr \<rightharpoonup> 'z"
    using that by (simp add: below_def)
  then show ?thesis
    using ok assms(1,3,4,5) unfolding loop_ok_def
    by (auto simp: entry_update below_def) (metis old option.distinct(1))+
qed

lemma mainloop_add_fd_cases:
  assumes "loop_ok s"
  obtains (failed) err s' where "mainloop_add_fd K fd ev (Some c) destroy s = (err, s')" "err < 0"
      "s' = s \<or> s' = s\<lparr>next_ptr := next_ptr s + 1\<rparr>"
  | (added) "mainloop_add_fd K fd ev (Some c) destroy s = (0,
      s\<lparr>next_ptr := next_ptr s + 1, epoll_set := (epoll_set s)(fd \<mapsto> (ev, next_ptr s)),
        md_heap := (md_heap s)(next_ptr s \<mapsto> \<lparr>md_fd = fd, md_events = ev, md_callback = c, md_destroy = destroy\<rparr>),
        mainloop_list := (mainloop_list s)[nat fd := Some (next_ptr s)]\<rparr>)"
      "\<not> bad_fd fd" "entry s fd = None"
proof (cases "bad_fd fd \<or> \<not> malloc_ok K s")
  case True
  then show ?thesis
    using failed [of "- EINVAL" s] failed [of "- ENOMEM" s]
    by (cases "bad_fd fd") (simp_all add: mainloop_add_fd_def errno_defs)
next
  case False
  show ?thesis
  proof (cases "pollable K fd \<and> epoll_set s fd = None")
    case True
    moreover from this have "entry s fd = None"
      using loop_ok_entry [OF assms] by (metis not_Some_eq option.distinct(1))
    ultimately show ?thesis
      using added False loop_okD(1) [OF assms] by (simp add: mainloop_add_fd_def epoll_ctl_add_def Let_def)
  next
    case none: False
    then show ?thesis
      using failed [of "-1" "s\<lparr>next_ptr := next_ptr s + 1\<rparr>"] False
      by (auto simp: mainloop_add_fd_def epoll_ctl_add_def Let_def)
  qed
qed

lemma mainloop_add_fd_ok:
  assumes "loop_ok s" "client_destroy destroy"
  shows "loop_ok (snd (mainloop_add_fd K fd ev (Some (Client n)) destroy s))"
proof (rule mainloop_add_fd_cases [OF assms(1), of K fd ev "Client n" destroy], goal_cases)
  case (1 err s')
  then show ?case using assms(1) loop_ok_next [OF assms(1), of "Suc (next_ptr s)"] by auto
next
  case 2
  show ?case
    unfolding 2(1) using assms add_entry_ok [OF assms(1) 2(3,2), of "\<lparr>md_fd = fd, md_events = ev, md_callback = Client n, md_destroy = destroy\<rparr>"]
    by (simp add: linked_in_def)
qed


lemma timer_linked_fd: "timer_linked tos fd t \<Longrightarrow> tm_fd t = fd"
  by (simp add: timer_linked_def)

lemma timer_linked_other:
  "timer_linked tos fd' t \<Longrightarrow> fd' \<noteq> fd \<Longrightarrow> tos r = Some u \<Longrightarrow> to_id u = fd \<Longrightarrow> timer_linked (tos(r := y)) fd' t"
  by (auto simp: timer_linked_def)

lemma linked_other_timer:
  assumes "linked_in tms tos d'" "md_fd d' \<noteq> fd" "tms q = Some t" "timer_linked tos fd t"
  shows "linked_in (tms(q := x)) tos d'"
proof -
  have "q' \<noteq> q" if "tms q' = Some t'" "timer_linked tos (md_fd d') t'" for q' t'
    using that assms(2-4) by (auto dest!: timer_linked_fd)
  then show ?thesis using assms(1) unfolding linked_in_def by (metis fun_upd_apply)
qed

lemma linked_other_timeout:
  assumes "linked_in tms tos d'" "md_fd d' \<noteq> fd" "tos r = Some u" "to_id u = fd"
  shows "linked_in tms (tos(r := y)) d'"
  using assms unfolding linked_in_def by (metis timer_linked_other)

text \<open>The destroy function of an entry runs safely, closes and frees what belongs to the descriptor and
  leaves everything that belongs to others.\<close>

definition destroyed :: "int \<Rightarrow> evloop \<Rightarrow> evloop \<Rightarrow> bool" where
  "destroyed fd s s' \<longleftrightarrow> mainloop_list s' = mainloop_list s \<and> md_heap s' = md_heap s \<and>
     next_ptr s' = next_ptr s \<and> epoll_open s' = epoll_open s \<and>
     (epoll_set s' = epoll_set s \<or> epoll_set s' = (epoll_set s)(fd := None)) \<and>
     (\<forall>d'. linked s d' \<longrightarrow> md_fd d' \<noteq> fd \<longrightarrow> linked s' d') \<and>
     (\<forall>n. below n (tm_heap s) \<longrightarrow> below n (to_heap s) \<longrightarrow> below n (tm_heap s') \<and> below n (to_heap s'))"

lemma run_destroy_ok:
  assumes "linked s d" "md_fd d = fd"
  obtains s' where "run_destroy (md_destroy d) s = Some s'" "destroyed fd s s'"
proof -
  consider (client) n where "md_callback d = Client n" "client_destroy (md_destroy d)"
    | (timer) q t where "md_destroy d = Some (TimerFree q)" "tm_heap s q = Some t" "timer_linked (to_heap s) fd t"
    using assms by (auto simp: linked_in_def)
  then show ?thesis
  proof cases
    case client
    then show ?thesis
      by (cases "md_destroy d") (auto simp: client_destroy_def run_destroy_def run_timer_destroy_def destroyed_def split: code.splits
          intro!: that)
  next
    case timer
    let ?s = "close_fd fd s\<lparr>tm_heap := (tm_heap s)(q \<mapsto> t\<lparr>tm_fd := -1\<rparr>)\<rparr>"
    have destroy: "run_destroy (md_destroy d) s = run_timer_destroy (tm_destroy t)
        (close_fd fd s\<lparr>tm_heap := (tm_heap s)(q \<mapsto> t\<lparr>tm_fd := -1\<rparr>)\<rparr>)"
      using timer timer_linked_fd [OF timer(3)]
      by (simp add: run_destroy_def timeout_destroy_def close_fd_def)
    have q: "below n (tm_heap s) \<Longrightarrow> below n ((tm_heap s)(q \<mapsto> t\<lparr>tm_fd := -1\<rparr>))" for n
      using below_fresh [of n "tm_heap s" q t] timer(2) by (simp add: below_update)
    have others: "linked_in ((tm_heap s)(q \<mapsto> t\<lparr>tm_fd := -1\<rparr>)) (to_heap s) d'"
      if "linked s d'" "md_fd d' \<noteq> fd" for d'
      by (rule linked_other_timer [of _ _ d' fd q t, OF that timer(2,3)])
    consider (client) "client_destroy (tm_destroy t)"
      | (timeout) r u where "tm_destroy t = Some (TimeoutFree r)" "to_heap s r = Some u" "to_id u = fd"
      using timer(3) by (auto simp: timer_linked_def)
    then show ?thesis
    proof cases
      case client
      then show ?thesis
        using others q
        by (cases "tm_destroy t")
          (auto simp: client_destroy_def destroy run_timer_destroy_def destroyed_def close_fd_def split: code.splits intro!: that)
    next
      case timeout
      then show ?thesis
        using linked_other_timeout [of _ _ _ fd r u, OF others _ timeout(2,3)] q
        by (auto simp: destroy run_timer_destroy_def timeout_free_def destroyed_def close_fd_def below_def intro!: that)
    qed
  qed
qed

lemma mainloop_remove_fd_ok:
  assumes "loop_ok s"
  obtains err s' where "mainloop_remove_fd fd s = Some (err, s')" "loop_ok s'"
    "mainloop_list s' = (if entry s fd = None then mainloop_list s else (mainloop_list s)[nat fd := None])"
    "entry s fd = None \<Longrightarrow> s' = s" "err = 0 \<longleftrightarrow> entry s fd \<noteq> None"
    "\<And>p. md_heap s' p = (if entry s fd = Some p then None else md_heap s p)"
proof (cases "entry s fd")
  case None
  then have "mainloop_remove_fd fd s = Some (if bad_fd fd then - EINVAL else - ENXIO, s)"
    by (auto simp: mainloop_remove_fd_def entry_in_def split: if_splits)
  then show ?thesis using that assms None by (simp add: errno_defs split: if_splits)
next
  case (Some p)
  note ok = loop_okD [OF assms]
  obtain d where d: "md_heap s p = Some d" "md_fd d = fd" "epoll_set s fd = Some (md_events d, p)" "linked s d"
    using loop_ok_entry [OF assms Some] .
  note fd = entry_fd [OF Some]
  let ?s1 = "s\<lparr>mainloop_list := (mainloop_list s)[nat fd := None], epoll_set := (epoll_set s)(fd := None)\<rparr>"
  obtain s2 where run: "run_destroy (md_destroy d) ?s1 = Some s2" and "destroyed fd ?s1 s2"
    by (rule run_destroy_ok [of ?s1 d fd]) (simp_all add: d(2,4))
  then have s2: "mainloop_list s2 = (mainloop_list s)[nat fd := None]" "md_heap s2 = md_heap s" "next_ptr s2 = next_ptr s"
      "epoll_open s2" "epoll_set s2 = (epoll_set s)(fd := None)"
      "below (next_ptr s) (tm_heap s2)" "below (next_ptr s) (to_heap s2)"
    and others: "\<And>d'. linked s d' \<Longrightarrow> md_fd d' \<noteq> fd \<Longrightarrow> linked s2 d'"
    using ok by (auto simp: destroyed_def)
  have "mainloop_remove_fd fd s = Some (0, s2\<lparr>md_heap := (md_heap s2)(p := None)\<rparr>)"
    using Some fd d ok(1) run by (simp add: mainloop_remove_fd_def entry_in_def epoll_ctl_del_def)
  moreover have "loop_ok (s2\<lparr>md_heap := (md_heap s2)(p := None)\<rparr>)"
  proof -
    have "\<exists>d'. md_heap s p' = Some d' \<and> md_fd d' = fd' \<and> epoll_set s fd' = Some (md_events d', p') \<and> linked s2 d' \<and> p' \<noteq> p"
      if e: "entry s fd' = Some p'" "fd' \<noteq> fd" for fd' p'
    proof -
      obtain d' where "md_heap s p' = Some d'" "md_fd d' = fd'" "epoll_set s fd' = Some (md_events d', p')" "linked s d'"
        using loop_ok_entry [OF assms e(1)] .
      then show ?thesis using others e(2) d(1,2) by (intro exI [of _ d']) auto
    qed
    then show ?thesis
      using ok s2 fd assms unfolding loop_ok_def
      by (auto simp: entry_update below_update) (auto simp: below_def)
  qed
  ultimately show ?thesis
    using that Some s2(1,2) by simp
qed


lemma linked_events: "linked s (d\<lparr>md_events := ev\<rparr>) \<longleftrightarrow> linked s d"
  by (simp add: linked_in_def)

lemma mainloop_modify_fd_ok:
  assumes "loop_ok s"
  obtains err s' where "mainloop_modify_fd fd ev s = Some (err, s')" "loop_ok s'"
    "mainloop_list s' = mainloop_list s" "tm_heap s' = tm_heap s" "to_heap s' = to_heap s" "next_ptr s' = next_ptr s"
    "\<And>p. map_option md_callback (md_heap s' p) = map_option md_callback (md_heap s p)"
    "err = 0 \<longleftrightarrow> entry s fd \<noteq> None"
proof (cases "entry s fd")
  case None
  then have "mainloop_modify_fd fd ev s = Some (if bad_fd fd then - EINVAL else - ENXIO, s)"
    by (auto simp: mainloop_modify_fd_def entry_in_def split: if_splits)
  then show ?thesis using that assms None by (simp add: errno_defs split: if_splits)
next
  case (Some p)
  note ok = loop_okD [OF assms]
  obtain d where d: "md_heap s p = Some d" "md_fd d = fd" "epoll_set s fd = Some (md_events d, p)" "linked s d"
    using loop_ok_entry [OF assms Some] .
  let ?s = "s\<lparr>epoll_set := (epoll_set s)(fd \<mapsto> (ev, p)), md_heap := (md_heap s)(p \<mapsto> d\<lparr>md_events := ev\<rparr>)\<rparr>"
  have "mainloop_modify_fd fd ev s = Some (0, ?s)"
    using Some entry_fd [OF Some] d ok(1) by (simp add: mainloop_modify_fd_def entry_in_def epoll_ctl_mod_def)
  moreover have "loop_ok ?s"
  proof -
    have "\<exists>d'. ((md_heap s)(p \<mapsto> d\<lparr>md_events := ev\<rparr>)) p' = Some d' \<and> md_fd d' = fd' \<and>
        ((epoll_set s)(fd \<mapsto> (ev, p))) fd' = Some (md_events d', p') \<and> linked s d'"
      if e: "entry s fd' = Some p'" for fd' p'
    proof (cases "fd' = fd")
      case True
      then show ?thesis using e Some d linked_events by auto
    next
      case False
      obtain d' where "md_heap s p' = Some d'" "md_fd d' = fd'" "epoll_set s fd' = Some (md_events d', p')" "linked s d'"
        using loop_ok_entry [OF assms e] .
      then show ?thesis using False d(1,2) by auto
    qed
    then show ?thesis
      using ok Some below_fresh [OF ok(3) d(1)] assms unfolding loop_ok_def by (auto simp: below_update)
  qed
  ultimately show ?thesis using that Some d(1) by simp
qed

section \<open>Timeouts keep the table\<close>

text \<open>The kernel hands out descriptors that are not in use.\<close>

definition kernel_fresh :: "kernel \<Rightarrow> bool" where
  "kernel_fresh K \<longleftrightarrow> (\<forall>s. timerfd_create K s \<ge> 0 \<longrightarrow> epoll_set s (timerfd_create K s) = None)"

text \<open>Adding a timeout changes nothing, apart from used-up pointers, or adds one entry for a new timer.\<close>

lemma mainloop_add_timeout_cases:
  assumes "loop_ok s" "kernel_fresh K"
  obtains (failed) err s' where "mainloop_add_timeout K msec (Some c) destroy s = (err, s')" "err < 0"
      "epoll_open s' = epoll_open s" "mainloop_list s' = mainloop_list s" "md_heap s' = md_heap s"
      "epoll_set s' = epoll_set s" "tm_heap s' = tm_heap s" "to_heap s' = to_heap s" "next_ptr s \<le> next_ptr s'"
  | (added) fd s1 q where "mainloop_add_timeout K msec (Some c) destroy s = (fd,
      s1\<lparr>next_ptr := next_ptr s1 + 1, epoll_set := (epoll_set s1)(fd \<mapsto> (EPOLLIN OR EPOLLONESHOT, next_ptr s1)),
        md_heap := (md_heap s1)(next_ptr s1 \<mapsto> \<lparr>md_fd = fd, md_events = EPOLLIN OR EPOLLONESHOT,
          md_callback = TimerEvent q, md_destroy = Some (TimerFree q)\<rparr>),
        mainloop_list := (mainloop_list s1)[nat fd := Some (next_ptr s1)]\<rparr>)"
      "\<not> bad_fd fd" "entry s fd = None" "epoll_open s1 = epoll_open s" "mainloop_list s1 = mainloop_list s"
      "md_heap s1 = md_heap s" "epoll_set s1 = epoll_set s" "to_heap s1 = to_heap s" "tm_heap s q = None" "q < next_ptr s1"
      "tm_heap s1 = (tm_heap s)(q \<mapsto> \<lparr>tm_fd = fd, tm_callback = c, tm_destroy = destroy\<rparr>)" "next_ptr s \<le> next_ptr s1"
proof -
  note ok = loop_okD [OF assms(1)]
  let ?q = "next_ptr s" and ?fd = "timerfd_create K s"
  let ?t = "\<lparr>tm_fd = ?fd, tm_callback = c, tm_destroy = destroy\<rparr>"
  define s1 where "s1 = s\<lparr>next_ptr := ?q + 1,
      timer_fds := (timer_fds s)(?fd \<mapsto> (if msec > 0 then timeout_value msec else (0, 0))),
      tm_heap := (tm_heap s)(?q \<mapsto> ?t)\<rparr>"
  have q: "tm_heap s ?q = None" using ok(4) by (simp add: below_def)
  have ok1: "loop_ok s1"
    by (rule loop_ok_extend [OF assms(1)])
      (use ok(4,5) q in \<open>auto simp: s1_def below_Suc map_le_def\<close>)
  consider (oom) "\<not> malloc_ok K s" | (no_fd) "malloc_ok K s" "?fd < 0" | (timer) "malloc_ok K s" "?fd \<ge> 0"
    by linarith
  then show ?thesis
  proof cases
    case oom
    then have "mainloop_add_timeout K msec (Some c) destroy s = (- ENOMEM, s)"
      by (simp add: mainloop_add_timeout_def)
    then show ?thesis by (rule failed) (simp_all add: ENOMEM_def)
  next
    case no_fd
    then have "mainloop_add_timeout K msec (Some c) destroy s = (- EIO, s\<lparr>next_ptr := Suc ?q\<rparr>)"
      by (simp add: mainloop_add_timeout_def Let_def)
    then show ?thesis by (rule failed) (simp_all add: EIO_def)
  next
    case timer
    have undone: "(epoll_set s)(?fd := None) = epoll_set s" "(tm_heap s)(?q := None) = tm_heap s"
      using assms(2) timer(2) q by (auto simp: kernel_fresh_def)
    have add: "mainloop_add_timeout K msec (Some c) destroy s =
       (let (err, s') = mainloop_add_fd K ?fd (EPOLLIN OR EPOLLONESHOT) (Some (TimerEvent ?q)) (Some (TimerFree ?q)) s1
        in if err < 0 then (- EIO, (close_fd ?fd s')\<lparr>tm_heap := (tm_heap s')(?q := None)\<rparr>) else (?fd, s'))"
    proof (cases "msec > 0")
      case True
      have "s\<lparr>next_ptr := Suc ?q, tm_heap := (tm_heap s)(?q \<mapsto> ?t),
          timer_fds := (timer_fds s)(?fd \<mapsto> timeout_value msec)\<rparr> = s1"
        using True by (simp add: s1_def)
      then show ?thesis
        using timer True by (simp add: mainloop_add_timeout_def Let_def timeout_set_def timerfd_settime_def)
    next
      case False
      then show ?thesis using timer by (simp add: mainloop_add_timeout_def Let_def s1_def)
    qed
    show ?thesis
    proof (rule mainloop_add_fd_cases [OF ok1, of K ?fd "EPOLLIN OR EPOLLONESHOT" "TimerEvent ?q" "Some (TimerFree ?q)"], goal_cases)
      case (1 err s')
      then show ?case
        by (intro failed [of "- EIO" "close_fd ?fd s'\<lparr>tm_heap := (tm_heap s')(?q := None)\<rparr>"])
          (auto simp: add errno_defs close_fd_def s1_def undone)
    next
      case 2
      then show ?case
        by (intro added [of ?fd s1 ?q]) (simp_all add: add, simp_all add: s1_def q)
    qed
  qed
qed


lemma timeout_add_ok:
  assumes "loop_ok s" "kernel_fresh K"
  shows "loop_ok (snd (timeout_add K msec func destroy s))"
proof (cases "malloc_ok K s")
  case False
  then show ?thesis using assms(1) by (simp add: timeout_add_def)
next
  case True
  note ok = loop_okD [OF assms(1)]
  let ?q = "next_ptr s"
  let ?d = "\<lparr>to_id = 0, to_func = func, to_destroy = destroy, to_timeout = msec\<rparr>"
  let ?s0 = "s\<lparr>next_ptr := Suc ?q, to_heap := (to_heap s)(?q \<mapsto> ?d)\<rparr>"
  have q: "to_heap s ?q = None" using ok(5) by (simp add: below_def)
  have ok0: "loop_ok ?s0"
    by (rule loop_ok_extend [OF assms(1)]) (use ok(4,5) q in \<open>auto simp: below_Suc map_le_def\<close>)
  have add: "timeout_add K msec func destroy s =
      (let (tid, s') = mainloop_add_timeout K msec (Some (TimeoutFire ?q)) (Some (TimeoutFree ?q)) ?s0
       in if tid < 0 then (0, s'\<lparr>to_heap := (to_heap s')(?q := None)\<rparr>)
          else (word_of_int tid, s'\<lparr>to_heap := (to_heap s')(?q \<mapsto> ?d\<lparr>to_id := tid\<rparr>)\<rparr>))"
    using True by (simp add: timeout_add_def Let_def)
  show ?thesis
  proof (rule mainloop_add_timeout_cases [OF ok0 assms(2), of msec "TimeoutFire ?q" "Some (TimeoutFree ?q)"], goal_cases)
    case (1 err s')
    have "loop_ok (s'\<lparr>to_heap := (to_heap s')(?q := None)\<rparr>)"
      by (rule loop_ok_extend [OF assms(1)])
        (use 1 ok(4,5) q in \<open>auto simp: map_le_def below_def\<close>)
    then show ?case using 1(1,2) by (simp add: add)
  next
    case (2 fd s1 r)
    let ?tos = "(to_heap s)(?q \<mapsto> ?d\<lparr>to_id := fd\<rparr>)"
    have ok1: "loop_ok (s1\<lparr>to_heap := ?tos\<rparr>)"
      by (rule loop_ok_extend [OF assms(1)])
        (use 2 ok(4,5) q in \<open>auto simp: map_le_def below_def\<close>)
    let ?md = "\<lparr>md_fd = fd, md_events = EPOLLIN OR EPOLLONESHOT, md_callback = TimerEvent r,
        md_destroy = Some (TimerFree r)\<rparr>"
    let ?es = "(epoll_set s1)(fd \<mapsto> (EPOLLIN OR EPOLLONESHOT, next_ptr s1))"
    let ?l = "(mainloop_list s1)[nat fd := Some (next_ptr s1)]"
    have ok2: "loop_ok (s1\<lparr>to_heap := ?tos, next_ptr := next_ptr s1 + 1, epoll_set := ?es,
        md_heap := (md_heap s1)(next_ptr s1 \<mapsto> ?md), mainloop_list := ?l\<rparr>)"
      using add_entry_ok [OF ok1, of fd ?md] 2 by (simp add: linked_in_def timer_linked_def)
    have order: "s1\<lparr>to_heap := ?tos, next_ptr := next_ptr s1 + 1, epoll_set := ?es,
        md_heap := (md_heap s1)(next_ptr s1 \<mapsto> ?md), mainloop_list := ?l\<rparr> =
      s1\<lparr>next_ptr := next_ptr s1 + 1, epoll_set := ?es,
        md_heap := (md_heap s1)(next_ptr s1 \<mapsto> ?md), mainloop_list := ?l, to_heap := ?tos\<rparr>"
      by simp
    have "0 \<le> fd" using 2(2) by (simp add: bad_fd_nat)
    then show ?case using ok2 [unfolded order] 2 by (simp add: add)
  qed
qed


lemma timeout_remove_ok:
  assumes "loop_ok s"
  obtains s' where "timeout_remove tid s = Some s'" "loop_ok s'"
proof (cases "tid = 0")
  case True
  then show ?thesis using that assms by (simp add: timeout_remove_def)
next
  case False
  show ?thesis
    by (rule mainloop_remove_fd_ok [OF assms, of "sint tid"])
      (use False that in \<open>auto simp: timeout_remove_def mainloop_remove_timeout_def\<close>)
qed

section \<open>Any sequence of operations\<close>

text \<open>The operations clients use, with a client's callback and destroy function by number.\<close>

datatype loop_op =
    AddFd int u32 nat "nat option"
  | ModifyFd int u32
  | RemoveFd int
  | AddTimeout u32 nat "nat option"
  | RemoveTimeout u32

fun loop_step :: "kernel \<Rightarrow> loop_op \<Rightarrow> evloop \<Rightarrow> evloop option" where
  "loop_step K (AddFd fd ev cb destroy) s =
     Some (snd (mainloop_add_fd K fd ev (Some (Client cb)) (map_option Client destroy) s))"
| "loop_step K (ModifyFd fd ev) s = map_option snd (mainloop_modify_fd fd ev s)"
| "loop_step K (RemoveFd fd) s = map_option snd (mainloop_remove_fd fd s)"
| "loop_step K (AddTimeout msec func destroy) s = Some (snd (timeout_add K msec func destroy s))"
| "loop_step K (RemoveTimeout tid) s = timeout_remove tid s"

fun loop_steps :: "kernel \<Rightarrow> loop_op list \<Rightarrow> evloop \<Rightarrow> evloop option" where
  "loop_steps K [] s = Some s"
| "loop_steps K (op # ops) s = do { s \<leftarrow> loop_step K op s; loop_steps K ops s }"

definition fresh_loop :: evloop where
  "fresh_loop = mainloop_init True \<lparr>epoll_open = False, mainloop_list = [], md_heap = Map.empty,
     tm_heap = Map.empty, to_heap = Map.empty, next_ptr = 0, epoll_set = Map.empty, timer_fds = Map.empty,
     client_log = []\<rparr>"

lemma fresh_loop_ok: "loop_ok fresh_loop"
  by (auto simp: loop_ok_def fresh_loop_def mainloop_init_def empty_list_def entry_in_def bad_fd_nat below_def)

lemma loop_step_ok:
  assumes "loop_ok s" "kernel_fresh K"
  shows "\<exists>s'. loop_step K op s = Some s' \<and> loop_ok s'"
proof (cases op)
  case (AddFd fd ev cb destroy)
  then show ?thesis
    using mainloop_add_fd_ok [OF assms(1), of "map_option Client destroy"]
    by (cases destroy) (simp_all add: client_destroy_def)
next
  case (ModifyFd fd ev)
  show ?thesis by (rule mainloop_modify_fd_ok [OF assms(1), of fd ev]) (use ModifyFd in auto)
next
  case (RemoveFd fd)
  show ?thesis by (rule mainloop_remove_fd_ok [OF assms(1), of fd]) (use RemoveFd in auto)
next
  case (AddTimeout msec func destroy)
  then show ?thesis using timeout_add_ok [OF assms] by simp
next
  case (RemoveTimeout tid)
  show ?thesis by (rule timeout_remove_ok [OF assms(1), of tid]) (use RemoveTimeout in auto)
qed

text \<open>C40 Whatever descriptors and timeouts are added, changed and removed, in any order and whichever of the
  calls fail, no operation touches freed memory and the table stays in step with the kernel: exactly
  the registered descriptors are in the epoll set, with their events and with a pointer to their
  live entry.\<close>

theorem mainloop_table_stays_in_step:
  assumes "kernel_fresh K"
  shows "\<exists>s. loop_steps K ops fresh_loop = Some s \<and>
    (\<forall>fd. map_option (\<lambda>(ev, p). (p, Some (fd, ev))) (epoll_set s fd) =
          map_option (\<lambda>p. (p, map_option (\<lambda>d. (md_fd d, md_events d)) (md_heap s p))) (entry s fd))"
proof -
  have run: "\<exists>s'. loop_steps K ops s = Some s' \<and> loop_ok s'" if "loop_ok s" for s
    using that
  proof (induction ops arbitrary: s)
    case (Cons op ops)
    then show ?case using loop_step_ok [OF Cons.prems assms, of op] by auto
  qed simp
  obtain s where s: "loop_steps K ops fresh_loop = Some s" "loop_ok s"
    using run [OF fresh_loop_ok] by blast
  have "map_option (\<lambda>(ev, p). (p, Some (fd, ev))) (epoll_set s fd) =
      map_option (\<lambda>p. (p, map_option (\<lambda>d. (md_fd d, md_events d)) (md_heap s p))) (entry s fd)" for fd
  proof (cases "entry s fd")
    case None
    then show ?thesis using loop_okD(6) [OF s(2)] by simp
  next
    case (Some p)
    then show ?thesis by (rule loop_ok_entry [OF s(2)]) (simp add: Some)
  qed
  then show ?thesis using s(1) by blast
qed

text \<open>A kernel in which everything succeeds; timers get the lowest descriptor from 5 on.\<close>

definition sample_kernel :: kernel where
  "sample_kernel = \<lparr>malloc_ok = \<lambda>_. True, pollable = \<lambda>_. True,
     timerfd_create = \<lambda>s. (if epoll_set s 5 = None then 5 else if epoll_set s 6 = None then 6 else -1)\<rparr>"

theorem mainloop_table_stays_in_step_witness:
  "\<exists>s. loop_steps sample_kernel [AddFd 4 EPOLLIN 1 None, AddTimeout 30000 2 None, RemoveFd 4] fresh_loop = Some s \<and>
     map_option (\<lambda>(ev, p). (p, Some (5, ev))) (epoll_set s 5) =
       map_option (\<lambda>p. (p, map_option (\<lambda>d. (md_fd d, md_events d)) (md_heap s p))) (entry s 5)"
proof -
  have "kernel_fresh sample_kernel"
    by (simp add: kernel_fresh_def sample_kernel_def)
  from mainloop_table_stays_in_step [OF this, of "[AddFd 4 EPOLLIN 1 None, AddTimeout 30000 2 None, RemoveFd 4]"]
  show ?thesis by blast
qed

section \<open>Timer values\<close>

text \<open>A timer is set to whole seconds plus as many microseconds as the rest has milliseconds, so that
  the part below a second comes out a thousand times too short; no timeout is disarmed by that.\<close>

theorem timeout_value_is_short:
  "timeout_value msec = (unat msec div 1000, unat msec mod 1000 * 1000) \<and>
   (timeout_value msec = (0, 0) \<longleftrightarrow> msec = 0)"
proof -
  define m where "m = unat msec"
  have m: "m < 2 ^ 32" using unat_u32_lt [of msec] by (simp add: m_def)
  have s: "unat (msec div 1000) = m div 1000" by (simp add: unat_div m_def)
  have "m div 1000 * 1000 < 2 ^ 32" using m by linarith
  then have p: "unat (msec div 1000 * 1000) = m div 1000 * 1000"
    using unat_mult_lem [of "msec div 1000" "1000 :: u32"] s by simp
  then have r: "unat (msec - msec div 1000 * 1000) = m mod 1000"
    using unat_diff_32 [of "msec div 1000 * 1000" msec] by (simp add: m_def minus_div_mult_eq_mod)
  have "m mod 1000 < 1000" by simp
  then have "m mod 1000 * 1000 < 2 ^ 32" by simp
  then have n: "unat ((msec - msec div 1000 * 1000) * 1000) = m mod 1000 * 1000"
    using unat_mult_lem [of "msec - msec div 1000 * 1000" "1000 :: u32"] r by simp
  have v: "timeout_value msec = (m div 1000, m mod 1000 * 1000)"
    by (simp only: timeout_value_def Let_def s n)
  have "(m div 1000 = 0 \<and> m mod 1000 * 1000 = 0) = (m = 0)" by auto
  then show ?thesis using v by (simp add: m_def unat_eq_zero)
qed


section \<open>Removing a descriptor while its event waits\<close>

lemma epoll_wait_pointers:
  "loop_ok s \<Longrightarrow> entry s fd = Some p \<Longrightarrow> epoll_set s fd \<noteq> None \<and> snd (the (epoll_set s fd)) = p"
  by (erule (1) loop_ok_entry) simp

text \<open>When the callback of one event removes the descriptor of another event of the same batch, the loop
  goes on to read the entry that has been freed: the pointers of a batch are fixed when
  \<^verbatim>\<open>epoll_wait\<close> returns.\<close>

theorem batch_event_of_removed_descriptor_is_freed:
  assumes "loop_ok s" "entry s fd1 = Some p1" "entry s fd2 = Some p2" "fd1 \<noteq> fd2"
    and "map_option md_callback (md_heap s p1) = Some (Client n)"
    and "C n fd1 ev1 s = map_option (\<lambda>(_, s'). (True, s')) (mainloop_remove_fd fd2 s)"
  shows "dispatch_batch C (epoll_wait [(fd1, ev1, False), (fd2, ev2, False)] s) s = None"
proof -
  have batch: "epoll_wait [(fd1, ev1, False), (fd2, ev2, False)] s = [(p1, ev1, False), (p2, ev2, False)]"
    using epoll_wait_pointers [OF assms(1,2)] epoll_wait_pointers [OF assms(1,3)]
    by (simp add: epoll_wait_def MAX_EPOLL_EVENTS_def)
  obtain d where d: "md_heap s p1 = Some d" "md_fd d = fd1" "md_callback d = Client n"
    using assms(5) by (auto intro: loop_ok_entry [OF assms(1,2)])
  obtain err s' where "mainloop_remove_fd fd2 s = Some (err, s')" "md_heap s' p2 = None"
    by (rule mainloop_remove_fd_ok [OF assms(1), of fd2]) (simp add: assms(3))
  then have "dispatch_event C (p1, ev1, False) s = Some s'" "dispatch_event C (p2, ev2, False) s' = None"
    using d assms(6) by (simp_all add: dispatch_event_def)
  then show ?thesis by (simp add: batch)
qed

text \<open>Two descriptors, and a client whose callback removes the second one.\<close>

definition two_fds :: evloop where
  "two_fds = snd (mainloop_add_fd sample_kernel 5 EPOLLIN (Some (Client 2)) None
     (snd (mainloop_add_fd sample_kernel 4 EPOLLIN (Some (Client 1)) None fresh_loop)))"

definition removing_client :: clients where
  "removing_client n fd ev s = map_option (\<lambda>(_, s'). (True, s')) (mainloop_remove_fd 5 s)"

theorem batch_event_of_removed_descriptor_is_freed_witness:
  "dispatch_batch removing_client (epoll_wait [(4, EPOLLIN, False), (5, EPOLLIN, False)] two_fds) two_fds = None"
proof (rule batch_event_of_removed_descriptor_is_freed)
  show "loop_ok two_fds"
    unfolding two_fds_def by (intro mainloop_add_fd_ok fresh_loop_ok) (simp_all add: client_destroy_def)
  show "entry two_fds 4 = Some 0" "entry two_fds 5 = Some 1"
    "map_option md_callback (md_heap two_fds 0) = Some (Client 1)"
    by (simp_all add: two_fds_def mainloop_add_fd_def epoll_ctl_add_def fresh_loop_def mainloop_init_def
        sample_kernel_def bad_fd_def entry_in_def empty_list_def MAX_MAINLOOP_ENTRIES_def Let_def)
  show "removing_client 1 4 EPOLLIN two_fds = map_option (\<lambda>(_, s'). (True, s')) (mainloop_remove_fd 5 two_fds)"
    by (simp add: removing_client_def)
qed simp

end
