(* ===== verification/Signals.thy ===== *)
theory Signals
  imports Mainloop EventLoop
begin

text \<open>
  Signals in \<^verbatim>\<open>bluez/mainloop.c\<close>: \<^verbatim>\<open>mainloop_set_signal\<close>, and what \<^verbatim>\<open>mainloop_run\<close> does with the signal data
  before and after the loop. The program never sets them, and without them \<open>run_with_signals\<close> is the
  \<open>mainloop_run\<close> of theory \<open>Mainloop\<close>. The signal data is on a heap; what is freed is \<open>None\<close>. The signal
  descriptor is an entry of the table of \<open>EventLoop\<close>, whose callback belongs to nobody there.
\<close>

section \<open>State\<close>

record signal_data =
  sg_fd :: int
  sg_mask :: "nat set"
  sg_callback :: nat
  sg_destroy :: "nat option"

record sigloop = loop_flags +
  descriptors :: evloop
  sg_heap :: "ptr \<rightharpoonup> signal_data"
  the_signal_data :: "ptr option"
  sg_next :: ptr
  blocked :: "nat set"
  sg_log :: "nat list"

text \<open>What the system answers: to \<^verbatim>\<open>malloc\<close>, \<^verbatim>\<open>sigprocmask\<close> and \<^verbatim>\<open>signalfd\<close>.\<close>

record sigkernel =
  sg_kernel :: kernel
  sg_malloc_ok :: "sigloop \<Rightarrow> bool"
  sigprocmask_ok :: "sigloop \<Rightarrow> bool"
  signalfd :: "sigloop \<Rightarrow> int"

text \<open>The number of the callback that \<^verbatim>\<open>mainloop_run\<close> registers for the descriptor.\<close>

definition signal_code :: code where
  "signal_code = Client 0"

section \<open>Operations\<close>

text \<open>The data that was set before is freed, whoever still uses it.\<close>

definition mainloop_set_signal ::
  "sigkernel \<Rightarrow> nat set option \<Rightarrow> nat option \<Rightarrow> nat option \<Rightarrow> sigloop \<Rightarrow> int \<times> sigloop" where
  "mainloop_set_signal K sigs callback destroy w =
     (case (sigs, callback) of
        (Some sigs, Some callback) \<Rightarrow>
          if \<not> sg_malloc_ok K w then (- ENOMEM, w)
          else let p = sg_next w;
                   data = \<lparr>sg_fd = -1, sg_mask = sigs, sg_callback = callback, sg_destroy = destroy\<rparr>;
                   heap = (case the_signal_data w of None \<Rightarrow> sg_heap w | Some q \<Rightarrow> (sg_heap w)(q := None))
               in (0, w\<lparr>sg_next := p + 1, sg_heap := heap(p \<mapsto> data), the_signal_data := Some p\<rparr>)
      | _ \<Rightarrow> (- EINVAL, w))"

text \<open>The callback of the descriptor; \<open>signo\<close> is the signal that \<^verbatim>\<open>read\<close> returns, if it returns one.\<close>

definition signal_callback ::
  "(nat \<Rightarrow> nat \<Rightarrow> sigloop \<Rightarrow> sigloop option) \<Rightarrow> u32 \<Rightarrow> nat option \<Rightarrow> ptr \<Rightarrow> sigloop \<Rightarrow> sigloop option" where
  "signal_callback C events signo p w =
     (if events AND (EPOLLERR OR EPOLLHUP) \<noteq> 0 then Some (mainloop_quit w)
      else case signo of None \<Rightarrow> Some w
        | Some signo \<Rightarrow> do { d \<leftarrow> sg_heap w p; C (sg_callback d) signo w })"

text \<open>Before the loop: false when the loop is not entered.\<close>

definition open_signals :: "sigkernel \<Rightarrow> sigloop \<Rightarrow> (bool \<times> sigloop) option" where
  "open_signals K w = (case the_signal_data w of None \<Rightarrow> Some (True, w)
     | Some p \<Rightarrow> do {
         d \<leftarrow> sg_heap w p;
         if \<not> sigprocmask_ok K w then Some (False, w)
         else do {
           let w = w\<lparr>blocked := blocked w \<union> sg_mask d\<rparr>;
           let fd = signalfd K w;
           let w = w\<lparr>sg_heap := (sg_heap w)(p \<mapsto> d\<lparr>sg_fd := fd\<rparr>)\<rparr>;
           if fd < 0 then Some (False, w)
           else let (err, s) = mainloop_add_fd (sg_kernel K) fd EPOLLIN (Some signal_code) None (descriptors w) in
             if err < 0 then Some (False, w\<lparr>descriptors := close_fd fd s\<rparr>)
             else Some (True, w\<lparr>descriptors := s\<rparr>) } })"

text \<open>After it: the data stays, with the descriptor that was closed.\<close>

definition close_signals :: "sigloop \<Rightarrow> sigloop option" where
  "close_signals w = (case the_signal_data w of None \<Rightarrow> Some w
     | Some p \<Rightarrow> do {
         d \<leftarrow> sg_heap w p;
         (_, s) \<leftarrow> mainloop_remove_fd (sg_fd d) (descriptors w);
         Some (w\<lparr>descriptors := close_fd (sg_fd d) s,
                 sg_log := sg_log w @ (case sg_destroy d of None \<Rightarrow> [] | Some n \<Rightarrow> [n])\<rparr>) })"

definition run_with_signals ::
  "sigkernel \<Rightarrow> (sigloop \<Rightarrow> ('ev list \<times> sigloop) option) \<Rightarrow> ('ev \<Rightarrow> sigloop \<Rightarrow> sigloop option) \<Rightarrow> sigloop \<Rightarrow>
     (int \<times> sigloop) option" where
  "run_with_signals K poll dispatch w = do {
     (entered, w) \<leftarrow> open_signals K w;
     if \<not> entered then Some (EXIT_FAILURE, w)
     else do {
       w \<leftarrow> run_loop poll dispatch (w\<lparr>exit_status := EXIT_SUCCESS\<rparr>);
       w \<leftarrow> close_signals w;
       Some (exit_status w, w\<lparr>epoll_terminate := False\<rparr>) } }"

section \<open>Facts\<close>

text \<open>Without signal data it is the loop that the rest of the development uses, provided no callback sets some.\<close>

lemma close_signals_none: "the_signal_data w = None \<Longrightarrow> close_signals w = Some w"
  by (simp add: close_signals_def)

text \<open>Callbacks that leave the signal data alone are an invariant of the loop.\<close>

definition unsignalled :: "sigloop \<Rightarrow> bool" where
  "unsignalled w \<longleftrightarrow> the_signal_data w = None"

lemma run_loop_unsignalled:
  assumes "\<And>w evs w'. unsignalled w \<Longrightarrow> poll w = Some (evs, w') \<Longrightarrow> unsignalled w'"
    and "\<And>w ev w'. unsignalled w \<Longrightarrow> dispatch ev w = Some w' \<Longrightarrow> unsignalled w'"
    and "run_loop poll dispatch w = Some w'" "unsignalled w"
  shows "unsignalled w'"
proof -
  have "loop_invariant unsignalled poll dispatch"
    by (rule loop_invariant.intro) (erule (1) assms(1) | erule (1) assms(2) | simp add: unsignalled_def)+
  from loop_invariant.inv_run_loop [OF this assms(3,4)] show ?thesis .
qed

lemma run_without_signals:
  assumes "\<And>w evs w'. unsignalled w \<Longrightarrow> poll w = Some (evs, w') \<Longrightarrow> unsignalled w'"
    and "\<And>w ev w'. unsignalled w \<Longrightarrow> dispatch ev w = Some w' \<Longrightarrow> unsignalled w'"
    and "unsignalled w"
  shows "run_with_signals K poll dispatch w = mainloop_run poll dispatch w"
proof (cases "run_loop poll dispatch (w\<lparr>exit_status := EXIT_SUCCESS\<rparr>)")
  case None
  then show ?thesis using assms(3) by (simp add: run_with_signals_def open_signals_def unsignalled_def mainloop_run_def)
next
  case (Some w')
  have "unsignalled w'" using run_loop_unsignalled [OF assms(1,2) Some] assms(3) by (simp add: unsignalled_def)
  then show ?thesis
    using assms(3) Some by (simp add: run_with_signals_def open_signals_def unsignalled_def mainloop_run_def close_signals_none)
qed

text \<open>A run with signal data whose callbacks leave it alone calls its destroy function at the end, and keeps
  the data, so the next run calls it again.\<close>

lemma close_signals_keeps_data:
  assumes "the_signal_data w = Some p" "sg_heap w p = Some d" "close_signals w = Some w'"
  shows "the_signal_data w' = Some p" "sg_heap w' p = Some d"
    "sg_log w' = sg_log w @ (case sg_destroy d of None \<Rightarrow> [] | Some n \<Rightarrow> [n])"
  using assms by (auto simp: close_signals_def bind_Some_iff)

text \<open>Setting signals while a run uses them frees what its end needs no more, but the descriptor of the run
  stays open: the new data has none.\<close>

lemma set_signal_forgets_descriptor:
  assumes "mainloop_set_signal K (Some sigs) (Some callback) destroy w = (0, w')"
  shows "\<exists>p d. the_signal_data w' = Some p \<and> sg_heap w' p = Some d \<and> sg_fd d = -1"
  using assms by (auto simp: mainloop_set_signal_def Let_def ENOMEM_def split: if_splits)

end
