(* ===== verification/Io.thy ===== *)
theory Io
  imports EventLoop "HOL-Library.Multiset"
begin

text \<open>
  \<^verbatim>\<open>bluez/io-mainloop.c\<close>: a descriptor in the main loop with a handler for reading, one for writing
  and one for the end of the connection. A \<open>struct io\<close> lives on a heap; its address is what the entry
  of the descriptor table carries, so \<open>Client p\<close> is \<^verbatim>\<open>io_callback\<close> respectively \<^verbatim>\<open>io_cleanup\<close> with the io
  at \<open>p\<close>. A handler and a destroy function with their \<^verbatim>\<open>user_data\<close> are numbers; what they do is a
  parameter (\<open>io_host\<close>), they may change all of the state. The destroy functions that have run are
  listed in \<open>released\<close>.
\<close>

section \<open>State\<close>

record io =
  ref_count :: int
  io_fd :: int
  io_events :: u32
  close_on_destroy :: bool
  read_callback :: "nat option"
  read_destroy :: "nat option"
  write_callback :: "nat option"
  write_destroy :: "nat option"
  disconnect_callback :: "nat option"
  disconnect_destroy :: "nat option"

record 'e io_world =
  loop :: evloop
  ios :: "ptr \<rightharpoonup> io"
  next_io :: ptr
  released :: "nat list"
  io_env :: 'e

text \<open>The handlers return whether they want to stay; \<open>writev\<close> and \<open>shutdown\<close> return also \<^verbatim>\<open>errno\<close>.\<close>

record 'e io_host =
  io_kernel :: kernel
  run_handler :: "nat \<Rightarrow> ptr \<Rightarrow> 'e io_world \<Rightarrow> (bool \<times> 'e io_world) option"
  run_release :: "nat \<Rightarrow> 'e io_world \<Rightarrow> 'e io_world option"
  writev :: "int \<Rightarrow> byte list list \<Rightarrow> 'e io_world \<Rightarrow> int \<times> int \<times> 'e io_world"
  shutdown :: "int \<Rightarrow> 'e io_world \<Rightarrow> int \<times> 'e io_world"

definition EPOLLOUT :: u32 where "EPOLLOUT = 0x004"
definition EPOLLRDHUP :: u32 where "EPOLLRDHUP = 0x2000"
definition EINTR :: int where "EINTR = 4"
definition ENOTCONN :: int where "ENOTCONN = 107"

abbreviation put_io :: "ptr \<Rightarrow> io \<Rightarrow> 'e io_world \<Rightarrow> 'e io_world" where
  "put_io p io w \<equiv> w\<lparr>ios := (ios w)(p \<mapsto> io)\<rparr>"

definition update_io :: "ptr \<Rightarrow> (io \<Rightarrow> io) \<Rightarrow> 'e io_world \<Rightarrow> 'e io_world option" where
  "update_io p f w = do { io \<leftarrow> ios w p; Some (put_io p (f io) w) }"

section \<open>Life of an io\<close>

definition io_ref :: "ptr \<Rightarrow> 'e io_world \<Rightarrow> 'e io_world option" where
  "io_ref p w = update_io p (\<lambda>io. io\<lparr>ref_count := ref_count io + 1\<rparr>) w"

definition io_unref :: "ptr \<Rightarrow> 'e io_world \<Rightarrow> 'e io_world option" where
  "io_unref p w = do {
     io \<leftarrow> ios w p;
     let io = io\<lparr>ref_count := ref_count io - 1\<rparr>;
     Some (if ref_count io \<noteq> 0 then put_io p io w else w\<lparr>ios := (ios w)(p := None)\<rparr>) }"

definition io_call_destroy :: "'e io_host \<Rightarrow> nat option \<Rightarrow> 'e io_world \<Rightarrow> 'e io_world option" where
  "io_call_destroy H c w =
     (case c of None \<Rightarrow> Some w | Some n \<Rightarrow> run_release H n (w\<lparr>released := released w @ [n]\<rparr>))"

definition io_cleanup :: "'e io_host \<Rightarrow> ptr \<Rightarrow> 'e io_world \<Rightarrow> 'e io_world option" where
  "io_cleanup H p w = do {
     io \<leftarrow> ios w p;
     w \<leftarrow> io_call_destroy H (write_destroy io) w;
     io \<leftarrow> ios w p;
     w \<leftarrow> io_call_destroy H (read_destroy io) w;
     io \<leftarrow> ios w p;
     w \<leftarrow> io_call_destroy H (disconnect_destroy io) w;
     io \<leftarrow> ios w p;
     let w = (if close_on_destroy io then w\<lparr>loop := close_fd (io_fd io) (loop w)\<rparr> else w);
     Some (put_io p (io\<lparr>io_fd := -1\<rparr>) w) }"

text \<open>\<^verbatim>\<open>mainloop_remove_fd\<close> with the destroy function of the entry, \<^verbatim>\<open>io_cleanup\<close>.\<close>

definition io_of_fd :: "evloop \<Rightarrow> int \<Rightarrow> ptr option" where
  "io_of_fd s fd =
     (if bad_fd fd then None
      else do { q \<leftarrow> mainloop_list s ! nat fd; d \<leftarrow> md_heap s q;
                case md_destroy d of Some (Client p) \<Rightarrow> Some p | _ \<Rightarrow> None })"

definition loop_remove_fd :: "'e io_host \<Rightarrow> int \<Rightarrow> 'e io_world \<Rightarrow> 'e io_world option" where
  "loop_remove_fd H fd w = do {
     (err, s) \<leftarrow> mainloop_remove_fd fd (loop w);
     (case io_of_fd (loop w) fd of
        None \<Rightarrow> Some (w\<lparr>loop := s\<rparr>)
      | Some p \<Rightarrow> io_cleanup H p (w\<lparr>loop := s\<rparr>)) }"

definition loop_modify_fd :: "int \<Rightarrow> u32 \<Rightarrow> 'e io_world \<Rightarrow> (int \<times> 'e io_world) option" where
  "loop_modify_fd fd events w = do {
     (err, s) \<leftarrow> mainloop_modify_fd fd events (loop w);
     Some (err, w\<lparr>loop := s\<rparr>) }"

definition io_new :: "'e io_host \<Rightarrow> int \<Rightarrow> 'e io_world \<Rightarrow> (ptr option \<times> 'e io_world) option" where
  "io_new H fd w =
     (if fd < 0 \<or> \<not> malloc_ok (io_kernel H) (loop w) then Some (None, w)
      else let p = next_io w;
               io = \<lparr>ref_count = 0, io_fd = fd, io_events = 0, close_on_destroy = False,
                     read_callback = None, read_destroy = None, write_callback = None,
                     write_destroy = None, disconnect_callback = None, disconnect_destroy = None\<rparr>;
               (err, s) = mainloop_add_fd (io_kernel H) fd 0 (Some (Client p)) (Some (Client p)) (loop w);
               w = w\<lparr>loop := s, next_io := p + 1\<rparr>
           in if err < 0 then Some (None, w)
              else do { w \<leftarrow> io_ref p (put_io p io w); Some (Some p, w) })"

definition io_destroy :: "'e io_host \<Rightarrow> ptr option \<Rightarrow> 'e io_world \<Rightarrow> 'e io_world option" where
  "io_destroy H io w =
     (case io of None \<Rightarrow> Some w
      | Some p \<Rightarrow> do {
          w \<leftarrow> update_io p (\<lambda>io. io\<lparr>read_callback := None, write_callback := None, disconnect_callback := None\<rparr>) w;
          io \<leftarrow> ios w p;
          w \<leftarrow> loop_remove_fd H (io_fd io) w;
          io_unref p w })"

definition io_get_fd :: "ptr option \<Rightarrow> 'e io_world \<Rightarrow> int option" where
  "io_get_fd io w =
     (case io of None \<Rightarrow> Some (- ENOTCONN) | Some p \<Rightarrow> map_option io_fd (ios w p))"

definition io_set_close_on_destroy :: "ptr option \<Rightarrow> bool \<Rightarrow> 'e io_world \<Rightarrow> (bool \<times> 'e io_world) option" where
  "io_set_close_on_destroy io do_close w =
     (case io of None \<Rightarrow> Some (False, w)
      | Some p \<Rightarrow> do { w \<leftarrow> update_io p (\<lambda>io. io\<lparr>close_on_destroy := do_close\<rparr>) w; Some (True, w) })"

section \<open>Handlers\<close>

text \<open>The end that the three functions below share: the events asked for follow the handler.\<close>

definition set_events :: "ptr \<Rightarrow> u32 \<Rightarrow> 'e io_world \<Rightarrow> (bool \<times> 'e io_world) option" where
  "set_events p events w = do {
     io \<leftarrow> ios w p;
     if events = io_events io then Some (True, w)
     else do {
       (err, w) \<leftarrow> loop_modify_fd (io_fd io) events w;
       if err < 0 then Some (False, w)
       else do { w \<leftarrow> update_io p (\<lambda>io. io\<lparr>io_events := events\<rparr>) w; Some (True, w) } } }"

definition wanted :: "u32 \<Rightarrow> nat option \<Rightarrow> u32 \<Rightarrow> u32" where
  "wanted b callback events = (if callback \<noteq> None then events OR b else events AND NOT b)"

definition io_set_read_handler ::
  "'e io_host \<Rightarrow> ptr option \<Rightarrow> nat option \<Rightarrow> nat option \<Rightarrow> 'e io_world \<Rightarrow> (bool \<times> 'e io_world) option" where
  "io_set_read_handler H io callback destroy w =
     (case io of None \<Rightarrow> Some (False, w)
      | Some p \<Rightarrow> do {
          io \<leftarrow> ios w p;
          if io_fd io < 0 then Some (False, w)
          else do {
            w \<leftarrow> io_call_destroy H (read_destroy io) w;
            io \<leftarrow> ios w p;
            let events = wanted EPOLLIN callback (io_events io);
            set_events p events (put_io p (io\<lparr>read_callback := callback, read_destroy := destroy\<rparr>) w) } })"

definition io_set_write_handler ::
  "'e io_host \<Rightarrow> ptr option \<Rightarrow> nat option \<Rightarrow> nat option \<Rightarrow> 'e io_world \<Rightarrow> (bool \<times> 'e io_world) option" where
  "io_set_write_handler H io callback destroy w =
     (case io of None \<Rightarrow> Some (False, w)
      | Some p \<Rightarrow> do {
          io \<leftarrow> ios w p;
          if io_fd io < 0 then Some (False, w)
          else do {
            w \<leftarrow> io_call_destroy H (write_destroy io) w;
            io \<leftarrow> ios w p;
            let events = wanted EPOLLOUT callback (io_events io);
            set_events p events (put_io p (io\<lparr>write_callback := callback, write_destroy := destroy\<rparr>) w) } })"

definition io_set_disconnect_handler ::
  "'e io_host \<Rightarrow> ptr option \<Rightarrow> nat option \<Rightarrow> nat option \<Rightarrow> 'e io_world \<Rightarrow> (bool \<times> 'e io_world) option" where
  "io_set_disconnect_handler H io callback destroy w =
     (case io of None \<Rightarrow> Some (False, w)
      | Some p \<Rightarrow> do {
          io \<leftarrow> ios w p;
          if io_fd io < 0 then Some (False, w)
          else do {
            w \<leftarrow> io_call_destroy H (disconnect_destroy io) w;
            io \<leftarrow> ios w p;
            let events = wanted EPOLLRDHUP callback (io_events io);
            set_events p events (put_io p (io\<lparr>disconnect_callback := callback, disconnect_destroy := destroy\<rparr>) w) } })"

section \<open>Events\<close>

text \<open>The end of a handler that does not want to stay: its bit is no longer asked for.\<close>

definition drop_event :: "ptr \<Rightarrow> u32 \<Rightarrow> 'e io_world \<Rightarrow> 'e io_world option" where
  "drop_event p b w = do {
     w \<leftarrow> update_io p (\<lambda>io. io\<lparr>io_events := io_events io AND NOT b\<rparr>) w;
     io \<leftarrow> ios w p;
     (_, w) \<leftarrow> loop_modify_fd (io_fd io) (io_events io) w;
     Some w }"

definition io_disconnected :: "'e io_host \<Rightarrow> ptr \<Rightarrow> nat \<Rightarrow> 'e io_world \<Rightarrow> 'e io_world option" where
  "io_disconnected H p n w = do {
     (stay, w) \<leftarrow> run_handler H n p w;
     if stay then Some w
     else do {
       io \<leftarrow> ios w p;
       w \<leftarrow> io_call_destroy H (disconnect_destroy io) w;
       w \<leftarrow> update_io p (\<lambda>io. io\<lparr>disconnect_callback := None, disconnect_destroy := None\<rparr>) w;
       drop_event p EPOLLRDHUP w } }"

definition io_readable :: "'e io_host \<Rightarrow> ptr \<Rightarrow> 'e io_world \<Rightarrow> 'e io_world option" where
  "io_readable H p w = do {
     io \<leftarrow> ios w p;
     case read_callback io of None \<Rightarrow> Some w
     | Some n \<Rightarrow> do {
         (stay, w) \<leftarrow> run_handler H n p w;
         if stay then Some w
         else do {
           io \<leftarrow> ios w p;
           w \<leftarrow> io_call_destroy H (read_destroy io) w;
           w \<leftarrow> update_io p (\<lambda>io. io\<lparr>read_callback := None, read_destroy := None\<rparr>) w;
           drop_event p EPOLLIN w } } }"

definition io_writable :: "'e io_host \<Rightarrow> ptr \<Rightarrow> 'e io_world \<Rightarrow> 'e io_world option" where
  "io_writable H p w = do {
     io \<leftarrow> ios w p;
     case write_callback io of None \<Rightarrow> Some w
     | Some n \<Rightarrow> do {
         (stay, w) \<leftarrow> run_handler H n p w;
         if stay then Some w
         else do {
           io \<leftarrow> ios w p;
           w \<leftarrow> io_call_destroy H (write_destroy io) w;
           w \<leftarrow> update_io p (\<lambda>io. io\<lparr>write_callback := None, write_destroy := None\<rparr>) w;
           drop_event p EPOLLOUT w } } }"

definition io_callback :: "'e io_host \<Rightarrow> u32 \<Rightarrow> ptr \<Rightarrow> 'e io_world \<Rightarrow> 'e io_world option" where
  "io_callback H events p w = do {
     w \<leftarrow> io_ref p w;
     let ready = (\<lambda>w. do {
       w \<leftarrow> (if events AND EPOLLIN \<noteq> 0 then io_readable H p w else Some w);
       w \<leftarrow> (if events AND EPOLLOUT \<noteq> 0 then io_writable H p w else Some w);
       io_unref p w });
     if events AND (EPOLLRDHUP OR EPOLLHUP OR EPOLLERR) = 0 then ready w
     else do {
       w \<leftarrow> update_io p (\<lambda>io. io\<lparr>read_callback := None, write_callback := None\<rparr>) w;
       io \<leftarrow> ios w p;
       case disconnect_callback io of
         None \<Rightarrow> do { w \<leftarrow> loop_remove_fd H (io_fd io) w; io_unref p w }
       | Some n \<Rightarrow> do { w \<leftarrow> io_disconnected H p n w; ready w } } }"

section \<open>Output\<close>

text \<open>A write that is interrupted is repeated.\<close>

partial_function (option) writev_loop ::
  "'e io_host \<Rightarrow> int \<Rightarrow> byte list list \<Rightarrow> 'e io_world \<Rightarrow> (int \<times> 'e io_world) option" where
  [code]: "writev_loop H fd iov w =
     (case writev H fd iov w of (ret, errno, w) \<Rightarrow>
        if ret < 0 \<and> errno = EINTR then writev_loop H fd iov w
        else Some (if ret < 0 then - errno else ret, w))"

definition io_send :: "'e io_host \<Rightarrow> ptr option \<Rightarrow> byte list list \<Rightarrow> 'e io_world \<Rightarrow> (int \<times> 'e io_world) option" where
  "io_send H io iov w =
     (case io of None \<Rightarrow> Some (- ENOTCONN, w)
      | Some p \<Rightarrow> do {
          io \<leftarrow> ios w p;
          if io_fd io < 0 then Some (- ENOTCONN, w) else writev_loop H (io_fd io) iov w })"

definition io_shutdown :: "'e io_host \<Rightarrow> ptr option \<Rightarrow> 'e io_world \<Rightarrow> (bool \<times> 'e io_world) option" where
  "io_shutdown H io w =
     (case io of None \<Rightarrow> Some (False, w)
      | Some p \<Rightarrow> do {
          io \<leftarrow> ios w p;
          if io_fd io < 0 then Some (False, w)
          else case shutdown H (io_fd io) w of (ret, w) \<Rightarrow> Some (ret = 0, w) })"

section \<open>The io and the descriptor table agree\<close>

text \<open>Events as bits.\<close>

lemma event_bits:
  "EPOLLIN = 2 ^ 0" "EPOLLOUT = 2 ^ 2" "EPOLLRDHUP = 2 ^ 13"
  by (simp_all add: EPOLLIN_def EPOLLOUT_def EPOLLRDHUP_def)

lemma asks_bit: "(e AND 2 ^ n = (0 :: u32)) \<longleftrightarrow> \<not> bit e n"
  by (simp add: and_exp_eq_0_iff_not_bit)

lemma bit_wanted:
  "m < 32 \<Longrightarrow> bit (wanted (2 ^ m) c e) n \<longleftrightarrow> (if n = m then c \<noteq> None else bit e n)"
  by (auto simp: wanted_def bit_or_iff bit_and_iff bit_not_iff bit_exp_iff not_le dest: bit_imp_possible_bit)

lemma bit_dropped: "bit (e AND NOT (2 ^ m) :: u32) n \<longleftrightarrow> bit e n \<and> n \<noteq> m"
  by (auto simp: bit_and_iff bit_not_iff bit_exp_iff dest: bit_imp_possible_bit)

lemma event_rules:
  "bit (wanted EPOLLIN c e) n \<longleftrightarrow> (if n = 0 then c \<noteq> None else bit e n)"
  "bit (wanted EPOLLOUT c e) n \<longleftrightarrow> (if n = 2 then c \<noteq> None else bit e n)"
  "bit (wanted EPOLLRDHUP c e) n \<longleftrightarrow> (if n = 13 then c \<noteq> None else bit e n)"
  "bit (e AND NOT EPOLLIN) n \<longleftrightarrow> bit e n \<and> n \<noteq> 0"
  "bit (e AND NOT EPOLLOUT) n \<longleftrightarrow> bit e n \<and> n \<noteq> 2"
  "bit (e AND NOT EPOLLRDHUP) n \<longleftrightarrow> bit e n \<and> n \<noteq> 13"
  unfolding event_bits by (rule bit_wanted bit_dropped; simp)+

text \<open>A handler that is set has its events asked for.\<close>

definition asked :: "io \<Rightarrow> bool" where
  "asked io \<longleftrightarrow> (read_callback io \<noteq> None \<longrightarrow> io_events io AND EPOLLIN \<noteq> 0) \<and>
     (write_callback io \<noteq> None \<longrightarrow> io_events io AND EPOLLOUT \<noteq> 0) \<and>
     (disconnect_callback io \<noteq> None \<longrightarrow> io_events io AND EPOLLRDHUP \<noteq> 0)"

definition silent :: "io \<Rightarrow> bool" where
  "silent io \<longleftrightarrow> read_callback io = None \<and> write_callback io = None \<and> disconnect_callback io = None"

text \<open>An io with a descriptor is the one that the table calls for it, with the same events.\<close>

definition registered :: "ptr \<Rightarrow> int \<Rightarrow> u32 \<Rightarrow> evloop \<Rightarrow> bool" where
  "registered p fd ev s \<longleftrightarrow> (\<exists>q. entry s fd = Some q \<and>
     md_heap s q = Some \<lparr>md_fd = fd, md_events = ev, md_callback = Client p, md_destroy = Some (Client p)\<rparr>)"

text \<open>Between two steps of a function the events in the table may differ: those are \<open>ev\<close>.\<close>

definition io_at :: "ptr \<Rightarrow> io \<Rightarrow> u32 \<Rightarrow> 'e io_world \<Rightarrow> bool" where
  "io_at p io ev w \<longleftrightarrow> loop_ok (loop w) \<and> ios w p = Some io \<and>
     (if io_fd io < 0 then io_fd io = -1 \<and> silent io else registered p (io_fd io) ev (loop w))"

definition io_ok :: "ptr \<Rightarrow> 'e io_world \<Rightarrow> bool" where
  "io_ok p w \<longleftrightarrow> (\<exists>io. io_at p io (io_events io) w \<and> asked io \<and> 0 < ref_count io)"

lemma registered_modify:
  assumes "loop_ok s" "registered p fd ev s"
  obtains s' where "mainloop_modify_fd fd ev' s = Some (0, s')" "loop_ok s'" "registered p fd ev' s'"
proof -
  obtain q where e: "entry s fd = Some q"
    and d: "md_heap s q = Some \<lparr>md_fd = fd, md_events = ev, md_callback = Client p, md_destroy = Some (Client p)\<rparr>"
    using assms(2) by (auto simp: registered_def)
  obtain err s' where s': "mainloop_modify_fd fd ev' s = Some (err, s')" "loop_ok s'"
      "mainloop_list s' = mainloop_list s" "err = 0 \<longleftrightarrow> entry s fd \<noteq> None"
    using mainloop_modify_fd_ok [OF assms(1)] by metis
  have "epoll_set s fd = Some (ev, q)" "\<not> bad_fd fd"
    using loop_ok_entry [OF assms(1) e] d entry_fd [OF e] by auto
  then have "registered p fd ev' s'"
    using s'(1,3) e d loop_okD(1) [OF assms(1)] by (auto simp: registered_def mainloop_modify_fd_def entry_in_def epoll_ctl_mod_def Let_def split: if_splits)
  then show ?thesis using that s' e by simp
qed

lemma registered_remove:
  assumes "loop_ok s" "registered p fd ev s"
  obtains err s' where "mainloop_remove_fd fd s = Some (err, s')" "loop_ok s'" "io_of_fd s fd = Some p" "entry s' fd = None"
proof -
  obtain q where e: "entry s fd = Some q"
    and d: "md_heap s q = Some \<lparr>md_fd = fd, md_events = ev, md_callback = Client p, md_destroy = Some (Client p)\<rparr>"
    using assms(2) by (auto simp: registered_def)
  have io: "io_of_fd s fd = Some p"
    using e d by (auto simp: io_of_fd_def entry_in_def split: if_splits)
  obtain err s' where "mainloop_remove_fd fd s = Some (err, s')" "loop_ok s'"
      "mainloop_list s' = (if entry s fd = None then mainloop_list s else (mainloop_list s)[nat fd := None])"
    by (rule mainloop_remove_fd_ok [OF assms(1)])
  moreover from this have "entry s' fd = None"
    using e entry_fd [OF e] loop_okD(2) [OF assms(1)] by (auto simp: entry_in_def bad_fd_nat)
  ultimately show ?thesis using that io by blast
qed

section \<open>Handlers are released once\<close>

text \<open>Handlers and destroy functions that return and leave the io and the loop alone.\<close>

definition releases :: "'e io_host \<Rightarrow> bool" where
  "releases H \<longleftrightarrow> (\<forall>n w. \<exists>e. run_release H n w = Some (w\<lparr>io_env := e\<rparr>))"

definition quiet :: "'e io_host \<Rightarrow> bool" where
  "quiet H \<longleftrightarrow> releases H \<and> (\<forall>n p w. \<exists>b e. run_handler H n p w = Some (b, w\<lparr>io_env := e\<rparr>))"

lemma quiet_releases: "quiet H \<Longrightarrow> releases H"
  by (simp add: quiet_def)

definition somes :: "'a option list \<Rightarrow> 'a list" where
  "somes xs = map the (filter (\<lambda>x. x \<noteq> None) xs)"

lemma somes_simps [simp]: "somes [] = []" "somes (None # xs) = somes xs" "somes (Some x # xs) = x # somes xs"
  by (simp_all add: somes_def)

definition held :: "io \<Rightarrow> nat multiset" where
  "held io = (if io_fd io < 0 then {#}
     else mset (somes [read_destroy io]) + mset (somes [write_destroy io]) + mset (somes [disconnect_destroy io]))"

text \<open>What was released and what the io still has to release.\<close>

definition balance :: "ptr \<Rightarrow> 'e io_world \<Rightarrow> nat multiset" where
  "balance p w = mset (released w) + (case ios w p of None \<Rightarrow> {#} | Some io \<Rightarrow> held io)"

definition moves :: "ptr \<Rightarrow> nat list \<Rightarrow> 'e io_world \<Rightarrow> 'e io_world \<Rightarrow> bool" where
  "moves p handed w w' \<longleftrightarrow> io_ok p w' \<and> balance p w' = balance p w + mset handed \<and>
     map_option ref_count (ios w' p) = map_option ref_count (ios w p)"

lemma movesI:
  assumes "ios w p = Some io" "io_at p io' (io_events io') w'" "asked io'" "0 < ref_count io" "ref_count io' = ref_count io"
    "mset (released w') + held io' = mset (released w) + held io + mset handed"
  shows "moves p handed w w'"
  using assms by (auto simp: moves_def io_ok_def balance_def io_at_def)

lemma quiet_destroy:
  assumes "releases H"
  obtains e where "io_call_destroy H c w = Some (w\<lparr>released := released w @ somes [c], io_env := e\<rparr>)"
proof (cases c)
  case None
  then show ?thesis using that [of "io_env w"] by (simp add: io_call_destroy_def)
next
  case (Some n)
  have "\<exists>e. run_release H n (w\<lparr>released := released w @ [n]\<rparr>) = Some (w\<lparr>released := released w @ [n]\<rparr>\<lparr>io_env := e\<rparr>)"
    using assms unfolding releases_def by blast
  then show ?thesis using Some that by (auto simp: io_call_destroy_def)
qed

lemma set_events_ok:
  assumes "io_at p io (io_events io) w" "0 \<le> io_fd io"
  obtains w' where "set_events p ev w = Some (True, w')" "io_at p (io\<lparr>io_events := ev\<rparr>) ev w'" "released w' = released w"
proof (cases "ev = io_events io")
  case True
  then show ?thesis using assms that [of w] by (auto simp: set_events_def io_at_def)
next
  case False
  have "loop_ok (loop w)" "registered p (io_fd io) (io_events io) (loop w)" using assms by (auto simp: io_at_def)
  then obtain s' where "mainloop_modify_fd (io_fd io) ev (loop w) = Some (0, s')" "loop_ok s'" "registered p (io_fd io) ev s'"
    by (rule registered_modify)
  then show ?thesis
    using assms False that [of "put_io p (io\<lparr>io_events := ev\<rparr>) (w\<lparr>loop := s'\<rparr>)"]
    by (auto simp: set_events_def io_at_def loop_modify_fd_def update_io_def)
qed

lemma drop_event_ok:
  assumes "io_at p io (io_events io) w"
  obtains w' where "drop_event p b w = Some w'"
    "io_at p (io\<lparr>io_events := io_events io AND NOT b\<rparr>) (io_events io AND NOT b) w'" "released w' = released w"
proof (cases "io_fd io < 0")
  case True
  then show ?thesis
    using assms that [of "put_io p (io\<lparr>io_events := io_events io AND NOT b\<rparr>) w"]
    by (auto simp: drop_event_def update_io_def loop_modify_fd_def mainloop_modify_fd_def bad_fd_def io_at_def silent_def)
next
  case False
  have "loop_ok (loop w)" "registered p (io_fd io) (io_events io) (loop w)" using assms False by (auto simp: io_at_def)
  then obtain s' where "mainloop_modify_fd (io_fd io) (io_events io AND NOT b) (loop w) = Some (0, s')"
      "loop_ok s'" "registered p (io_fd io) (io_events io AND NOT b) s'"
    by (rule registered_modify)
  then show ?thesis
    using assms False that [of "put_io p (io\<lparr>io_events := io_events io AND NOT b\<rparr>) (w\<lparr>loop := s'\<rparr>)"]
    by (auto simp: drop_event_def update_io_def loop_modify_fd_def io_at_def)
qed

lemma asked_bits:
  "asked io \<longleftrightarrow> (read_callback io \<noteq> None \<longrightarrow> bit (io_events io) 0) \<and>
     (write_callback io \<noteq> None \<longrightarrow> bit (io_events io) 2) \<and> (disconnect_callback io \<noteq> None \<longrightarrow> bit (io_events io) 13)"
  by (simp only: asked_def event_bits asks_bit not_not)

lemma quiet_handler:
  assumes "quiet H"
  obtains b e where "run_handler H n p w = Some (b, w\<lparr>io_env := e\<rparr>)"
  using assms unfolding quiet_def by blast

lemma io_okE:
  assumes "io_ok p w"
  obtains io where "ios w p = Some io" "io_at p io (io_events io) w" "asked io" "0 < ref_count io"
  using assms by (auto simp: io_ok_def io_at_def)

lemma io_at_keep:
  "io_at p io ev w \<Longrightarrow> loop w' = loop w \<Longrightarrow> ios w' p = Some io' \<Longrightarrow> io_fd io' = io_fd io \<Longrightarrow>
     (io_fd io < 0 \<Longrightarrow> silent io') \<Longrightarrow> io_at p io' ev w'"
  by (simp add: io_at_def split: if_splits)

lemma moves_same: "io_ok p w \<Longrightarrow> loop w' = loop w \<Longrightarrow> ios w' = ios w \<Longrightarrow> released w' = released w \<Longrightarrow> moves p [] w w'"
  by (auto simp: moves_def io_ok_def io_at_def balance_def)

lemma moves_trans: "moves p xs w w1 \<Longrightarrow> moves p ys w1 w2 \<Longrightarrow> moves p (xs @ ys) w w2"
  by (simp add: moves_def)

lemma held_events:
  "held (io\<lparr>io_events := ev\<rparr>) = held io" "held (io\<lparr>ref_count := r\<rparr>) = held io"
  "held (io\<lparr>read_callback := c\<rparr>) = held io" "held (io\<lparr>write_callback := c\<rparr>) = held io"
  "held (io\<lparr>disconnect_callback := c\<rparr>) = held io" "held (io\<lparr>io_fd := -1\<rparr>) = {#}"
  by (simp_all add: held_def)

text \<open>The end of the three event handlers, and of the three functions that set a handler.\<close>

lemma release_slot:
  assumes "quiet H" "ios w p = Some io" "io_at p io (io_events io) w" "0 < ref_count io" "0 \<le> io_fd io"
    and "io_fd (f io) = io_fd io" "io_events (f io) = io_events io" "ref_count (f io) = ref_count io"
    and "asked (f io\<lparr>io_events := io_events io AND NOT b\<rparr>)" "held io = held (f io) + mset (somes [c])"
  shows "\<exists>w'. do { w \<leftarrow> io_call_destroy H c (w\<lparr>io_env := e\<rparr>); w \<leftarrow> update_io p f w; drop_event p b w } = Some w' \<and> moves p [] w w'"
proof -
  obtain e' where d: "io_call_destroy H c (w\<lparr>io_env := e\<rparr>) = Some (w\<lparr>io_env := e\<rparr>\<lparr>released := released w @ somes [c], io_env := e'\<rparr>)"
    by (rule quiet_destroy [OF quiet_releases [OF assms(1)], of c "w\<lparr>io_env := e\<rparr>"]) simp
  let ?w = "put_io p (f io) (w\<lparr>io_env := e\<rparr>\<lparr>released := released w @ somes [c], io_env := e'\<rparr>)"
  have "io_at p (f io) (io_events (f io)) ?w" using io_at_keep [OF assms(3), of ?w "f io"] assms(5-7) by simp
  then obtain w' where w': "drop_event p b ?w = Some w'"
      "io_at p (f io\<lparr>io_events := io_events (f io) AND NOT b\<rparr>) (io_events (f io) AND NOT b) w'" "released w' = released ?w"
    by (rule drop_event_ok)
  have "moves p [] w w'"
    by (rule movesI [OF assms(2), of "f io\<lparr>io_events := io_events io AND NOT b\<rparr>"])
      (use assms(4,6-10) w' in \<open>simp_all add: held_events\<close>)
  then show ?thesis using w'(1) d assms(2) by (simp add: update_io_def)
qed

lemma store_slot:
  assumes "quiet H" "ios w p = Some io" "io_at p io (io_events io) w" "0 < ref_count io" "0 \<le> io_fd io"
    and "io_fd (f io) = io_fd io" "io_events (f io) = io_events io" "ref_count (f io) = ref_count io"
    and "asked (f io\<lparr>io_events := ev io\<rparr>)" "held io + mset new = held (f io) + mset (somes [c])"
  shows "\<exists>w'. do { w \<leftarrow> io_call_destroy H c w; io \<leftarrow> ios w p; set_events p (ev io) (put_io p (f io) w) } = Some (True, w') \<and> moves p new w w'"
proof -
  obtain e' where d: "io_call_destroy H c w = Some (w\<lparr>released := released w @ somes [c], io_env := e'\<rparr>)"
    by (rule quiet_destroy [OF quiet_releases [OF assms(1)], of c w])
  let ?w = "put_io p (f io) (w\<lparr>released := released w @ somes [c], io_env := e'\<rparr>)"
  have "io_at p (f io) (io_events (f io)) ?w" using io_at_keep [OF assms(3), of ?w "f io"] assms(5-7) by simp
  then obtain w' where w': "set_events p (ev io) ?w = Some (True, w')" "io_at p (f io\<lparr>io_events := ev io\<rparr>) (ev io) w'" "released w' = released ?w"
    by (rule set_events_ok) (use assms(5,6) in simp)
  have "moves p new w w'"
    by (rule movesI [OF assms(2), of "f io\<lparr>io_events := ev io\<rparr>"])
      (use assms(4,6-10) w' in \<open>simp_all add: held_events ac_simps\<close>)
  then show ?thesis using w'(1) d assms(2) by simp
qed

lemma callback_fd: "io_at p io ev w \<Longrightarrow> \<not> silent io \<Longrightarrow> 0 \<le> io_fd io"
  by (auto simp: io_at_def split: if_splits)

lemma io_readable_ok:
  assumes "quiet H" "io_ok p w"
  obtains w' where "io_readable H p w = Some w'" "moves p [] w w'"
proof -
  obtain io where io: "ios w p = Some io" "io_at p io (io_events io) w" "asked io" "0 < ref_count io"
    by (rule io_okE [OF assms(2)])
  show ?thesis
  proof (cases "read_callback io")
    case None
    then show ?thesis using that [of w] io moves_same [OF assms(2)] by (simp add: io_readable_def)
  next
    case (Some n)
    then have fd: "0 \<le> io_fd io" using callback_fd [OF io(2)] by (simp add: silent_def)
    obtain b e where run: "run_handler H n p w = Some (b, w\<lparr>io_env := e\<rparr>)" by (rule quiet_handler [OF assms(1)])
    have "\<exists>w'. do { w \<leftarrow> io_call_destroy H (read_destroy io) (w\<lparr>io_env := e\<rparr>);
        w \<leftarrow> update_io p (\<lambda>io. io\<lparr>read_callback := None, read_destroy := None\<rparr>) w; drop_event p EPOLLIN w } = Some w' \<and>
      moves p [] w w'"
      by (rule release_slot [OF assms(1) io(1,2,4) fd, where e = e and b = EPOLLIN and c = "read_destroy io"
            and f = "\<lambda>io. io\<lparr>read_callback := None, read_destroy := None\<rparr>"])
        (use io(3) fd in \<open>simp add: held_def asked_bits event_rules add_ac\<close>)+
    then obtain w' where run': "do { w \<leftarrow> io_call_destroy H (read_destroy io) (w\<lparr>io_env := e\<rparr>);
        w \<leftarrow> update_io p (\<lambda>io. io\<lparr>read_callback := None, read_destroy := None\<rparr>) w; drop_event p EPOLLIN w } = Some w'" and m: "moves p [] w w'" by blast
    then show ?thesis
      using that [of "w\<lparr>io_env := e\<rparr>"] that [of w'] run' m run Some io(1) moves_same [OF assms(2)]
      by (cases b) (simp_all add: io_readable_def)
  qed
qed

lemma io_writable_ok:
  assumes "quiet H" "io_ok p w"
  obtains w' where "io_writable H p w = Some w'" "moves p [] w w'"
proof -
  obtain io where io: "ios w p = Some io" "io_at p io (io_events io) w" "asked io" "0 < ref_count io"
    by (rule io_okE [OF assms(2)])
  show ?thesis
  proof (cases "write_callback io")
    case None
    then show ?thesis using that [of w] io moves_same [OF assms(2)] by (simp add: io_writable_def)
  next
    case (Some n)
    then have fd: "0 \<le> io_fd io" using callback_fd [OF io(2)] by (simp add: silent_def)
    obtain b e where run: "run_handler H n p w = Some (b, w\<lparr>io_env := e\<rparr>)" by (rule quiet_handler [OF assms(1)])
    have "\<exists>w'. do { w \<leftarrow> io_call_destroy H (write_destroy io) (w\<lparr>io_env := e\<rparr>);
        w \<leftarrow> update_io p (\<lambda>io. io\<lparr>write_callback := None, write_destroy := None\<rparr>) w; drop_event p EPOLLOUT w } = Some w' \<and>
      moves p [] w w'"
      by (rule release_slot [OF assms(1) io(1,2,4) fd, where e = e and b = EPOLLOUT and c = "write_destroy io"
            and f = "\<lambda>io. io\<lparr>write_callback := None, write_destroy := None\<rparr>"])
        (use io(3) fd in \<open>simp add: held_def asked_bits event_rules add_ac\<close>)+
    then obtain w' where run': "do { w \<leftarrow> io_call_destroy H (write_destroy io) (w\<lparr>io_env := e\<rparr>);
        w \<leftarrow> update_io p (\<lambda>io. io\<lparr>write_callback := None, write_destroy := None\<rparr>) w; drop_event p EPOLLOUT w } = Some w'" and m: "moves p [] w w'" by blast
    then show ?thesis
      using that [of "w\<lparr>io_env := e\<rparr>"] that [of w'] run' m run Some io(1) moves_same [OF assms(2)]
      by (cases b) (simp_all add: io_writable_def)
  qed
qed

lemma io_disconnected_ok:
  assumes "quiet H" "io_ok p w" "ios w p = Some io" "disconnect_callback io \<noteq> None"
  obtains w' where "io_disconnected H p n w = Some w'" "moves p [] w w'"
proof -
  have io: "io_at p io (io_events io) w" "asked io" "0 < ref_count io"
    using assms(2,3) by (auto simp: io_ok_def io_at_def)
  have fd: "0 \<le> io_fd io" using callback_fd [OF io(1)] assms(4) by (simp add: silent_def)
  obtain b e where run: "run_handler H n p w = Some (b, w\<lparr>io_env := e\<rparr>)" by (rule quiet_handler [OF assms(1)])
  have "\<exists>w'. do { w \<leftarrow> io_call_destroy H (disconnect_destroy io) (w\<lparr>io_env := e\<rparr>);
      w \<leftarrow> update_io p (\<lambda>io. io\<lparr>disconnect_callback := None, disconnect_destroy := None\<rparr>) w; drop_event p EPOLLRDHUP w } = Some w' \<and>
    moves p [] w w'"
    by (rule release_slot [OF assms(1,3) io(1,3) fd, where e = e and b = EPOLLRDHUP and c = "disconnect_destroy io"
          and f = "\<lambda>io. io\<lparr>disconnect_callback := None, disconnect_destroy := None\<rparr>"])
      (use io(2) fd in \<open>simp add: held_def asked_bits event_rules add_ac\<close>)+
  then obtain w' where run': "do { w \<leftarrow> io_call_destroy H (disconnect_destroy io) (w\<lparr>io_env := e\<rparr>);
      w \<leftarrow> update_io p (\<lambda>io. io\<lparr>disconnect_callback := None, disconnect_destroy := None\<rparr>) w; drop_event p EPOLLRDHUP w } = Some w'" and m: "moves p [] w w'" by blast
  then show ?thesis
    using that [of "w\<lparr>io_env := e\<rparr>"] that [of w'] run' m run assms(3) moves_same [OF assms(2)]
    by (cases b) (simp_all add: io_disconnected_def)
qed

text \<open>Setting a handler takes its destroy function over while there is a descriptor.\<close>

definition accepts :: "ptr \<Rightarrow> 'e io_world \<Rightarrow> bool" where
  "accepts p w \<longleftrightarrow> (\<exists>io. ios w p = Some io \<and> 0 \<le> io_fd io)"

lemma io_set_read_handler_ok:
  assumes "quiet H" "io_ok p w"
  obtains w' where "io_set_read_handler H (Some p) c d w = Some (accepts p w, w')"
    "moves p (if accepts p w then somes [d] else []) w w'"
proof -
  obtain io where io: "ios w p = Some io" "io_at p io (io_events io) w" "asked io" "0 < ref_count io"
    by (rule io_okE [OF assms(2)])
  show ?thesis
  proof (cases "io_fd io < 0")
    case True
    then show ?thesis
      using that [of w] io(1) moves_same [OF assms(2)] by (simp add: accepts_def io_set_read_handler_def)
  next
    case fd: False
    have "\<exists>w'. do { w \<leftarrow> io_call_destroy H (read_destroy io) w; io \<leftarrow> ios w p;
        set_events p (wanted EPOLLIN c (io_events io)) (put_io p (io\<lparr>read_callback := c, read_destroy := d\<rparr>) w) } = Some (True, w') \<and>
      moves p (somes [d]) w w'"
      by (rule store_slot [OF assms(1) io(1,2,4), where c = "read_destroy io" and ev = "\<lambda>io. wanted EPOLLIN c (io_events io)"
            and f = "\<lambda>io. io\<lparr>read_callback := c, read_destroy := d\<rparr>" and new = "somes [d]"])
        (use io(3) fd in \<open>simp add: held_def asked_bits event_rules add_ac\<close>)+
    then obtain w' where run': "do { w \<leftarrow> io_call_destroy H (read_destroy io) w; io \<leftarrow> ios w p;
        set_events p (wanted EPOLLIN c (io_events io)) (put_io p (io\<lparr>read_callback := c, read_destroy := d\<rparr>) w) } = Some (True, w')" and m: "moves p (somes [d]) w w'" by blast
    from run' have "io_set_read_handler H (Some p) c d w = Some (True, w')"
      using io(1) fd by (simp add: io_set_read_handler_def)
    then show ?thesis using that [of w'] m io(1) fd by (simp add: accepts_def)
  qed
qed

lemma io_set_write_handler_ok:
  assumes "quiet H" "io_ok p w"
  obtains w' where "io_set_write_handler H (Some p) c d w = Some (accepts p w, w')"
    "moves p (if accepts p w then somes [d] else []) w w'"
proof -
  obtain io where io: "ios w p = Some io" "io_at p io (io_events io) w" "asked io" "0 < ref_count io"
    by (rule io_okE [OF assms(2)])
  show ?thesis
  proof (cases "io_fd io < 0")
    case True
    then show ?thesis
      using that [of w] io(1) moves_same [OF assms(2)] by (simp add: accepts_def io_set_write_handler_def)
  next
    case fd: False
    have "\<exists>w'. do { w \<leftarrow> io_call_destroy H (write_destroy io) w; io \<leftarrow> ios w p;
        set_events p (wanted EPOLLOUT c (io_events io)) (put_io p (io\<lparr>write_callback := c, write_destroy := d\<rparr>) w) } = Some (True, w') \<and>
      moves p (somes [d]) w w'"
      by (rule store_slot [OF assms(1) io(1,2,4), where c = "write_destroy io" and ev = "\<lambda>io. wanted EPOLLOUT c (io_events io)"
            and f = "\<lambda>io. io\<lparr>write_callback := c, write_destroy := d\<rparr>" and new = "somes [d]"])
        (use io(3) fd in \<open>simp add: held_def asked_bits event_rules add_ac\<close>)+
    then obtain w' where run': "do { w \<leftarrow> io_call_destroy H (write_destroy io) w; io \<leftarrow> ios w p;
        set_events p (wanted EPOLLOUT c (io_events io)) (put_io p (io\<lparr>write_callback := c, write_destroy := d\<rparr>) w) } = Some (True, w')" and m: "moves p (somes [d]) w w'" by blast
    from run' have "io_set_write_handler H (Some p) c d w = Some (True, w')"
      using io(1) fd by (simp add: io_set_write_handler_def)
    then show ?thesis using that [of w'] m io(1) fd by (simp add: accepts_def)
  qed
qed

lemma io_set_disconnect_handler_ok:
  assumes "quiet H" "io_ok p w"
  obtains w' where "io_set_disconnect_handler H (Some p) c d w = Some (accepts p w, w')"
    "moves p (if accepts p w then somes [d] else []) w w'"
proof -
  obtain io where io: "ios w p = Some io" "io_at p io (io_events io) w" "asked io" "0 < ref_count io"
    by (rule io_okE [OF assms(2)])
  show ?thesis
  proof (cases "io_fd io < 0")
    case True
    then show ?thesis
      using that [of w] io(1) moves_same [OF assms(2)] by (simp add: accepts_def io_set_disconnect_handler_def)
  next
    case fd: False
    have "\<exists>w'. do { w \<leftarrow> io_call_destroy H (disconnect_destroy io) w; io \<leftarrow> ios w p;
        set_events p (wanted EPOLLRDHUP c (io_events io)) (put_io p (io\<lparr>disconnect_callback := c, disconnect_destroy := d\<rparr>) w) } = Some (True, w') \<and>
      moves p (somes [d]) w w'"
      by (rule store_slot [OF assms(1) io(1,2,4), where c = "disconnect_destroy io" and ev = "\<lambda>io. wanted EPOLLRDHUP c (io_events io)"
            and f = "\<lambda>io. io\<lparr>disconnect_callback := c, disconnect_destroy := d\<rparr>" and new = "somes [d]"])
        (use io(3) fd in \<open>simp add: held_def asked_bits event_rules add_ac\<close>)+
    then obtain w' where run': "do { w \<leftarrow> io_call_destroy H (disconnect_destroy io) w; io \<leftarrow> ios w p;
        set_events p (wanted EPOLLRDHUP c (io_events io)) (put_io p (io\<lparr>disconnect_callback := c, disconnect_destroy := d\<rparr>) w) } = Some (True, w')" and m: "moves p (somes [d]) w w'" by blast
    from run' have "io_set_disconnect_handler H (Some p) c d w = Some (True, w')"
      using io(1) fd by (simp add: io_set_disconnect_handler_def)
    then show ?thesis using that [of w'] m io(1) fd by (simp add: accepts_def)
  qed
qed

lemma close_removed_fd:
  assumes "loop_ok s" "entry s fd = None"
  shows "loop_ok (close_fd fd s)"
proof -
  have "(epoll_set s)(fd := None) = epoll_set s" using loop_okD(6) [OF assms(1), of fd] assms(2) by auto
  then show ?thesis using assms(1) unfolding loop_ok_def close_fd_def by simp
qed

lemma io_cleanup_ok:
  assumes "releases H" "ios w p = Some io"
  obtains e where "io_cleanup H p w = Some (w\<lparr>loop := (if close_on_destroy io then close_fd (io_fd io) (loop w) else loop w),
    ios := (ios w)(p \<mapsto> io\<lparr>io_fd := -1\<rparr>), io_env := e,
    released := released w @ somes [write_destroy io] @ somes [read_destroy io] @ somes [disconnect_destroy io]\<rparr>)"
proof -
  obtain e1 where 1: "io_call_destroy H (write_destroy io) w = Some (w\<lparr>released := released w @ somes [write_destroy io], io_env := e1\<rparr>)"
    (is "_ = Some ?w1") by (rule quiet_destroy [OF assms(1)])
  obtain e2 where 2: "io_call_destroy H (read_destroy io) ?w1 = Some (?w1\<lparr>released := released ?w1 @ somes [read_destroy io], io_env := e2\<rparr>)"
    (is "_ = Some ?w2") by (rule quiet_destroy [OF assms(1)])
  obtain e3 where 3: "io_call_destroy H (disconnect_destroy io) ?w2 =
      Some (?w2\<lparr>released := released ?w2 @ somes [disconnect_destroy io], io_env := e3\<rparr>)"
    by (rule quiet_destroy [OF assms(1)])
  show ?thesis
    using that [of e3] assms(2) 1 2 [simplified] 3 [simplified] by (cases "close_on_destroy io") (simp_all add: io_cleanup_def)
qed

lemma loop_remove_ok:
  assumes "releases H" "io_at p io ev w" "silent io"
  obtains w' where "loop_remove_fd H (io_fd io) w = Some w'" "loop_ok (loop w')" "ios w' p = Some (io\<lparr>io_fd := -1\<rparr>)"
    "mset (released w') = mset (released w) + held io"
proof (cases "io_fd io < 0")
  case True
  then show ?thesis
    using assms(2) that [of w]
    by (simp add: loop_remove_fd_def mainloop_remove_fd_def io_of_fd_def bad_fd_def io_at_def held_def)
next
  case False
  have "loop_ok (loop w)" "registered p (io_fd io) ev (loop w)" using assms(2) False by (auto simp: io_at_def)
  then obtain err s' where s': "mainloop_remove_fd (io_fd io) (loop w) = Some (err, s')" "loop_ok s'"
      "io_of_fd (loop w) (io_fd io) = Some p" "entry s' (io_fd io) = None"
    by (rule registered_remove)
  have "ios (w\<lparr>loop := s'\<rparr>) p = Some io" using assms(2) by (simp add: io_at_def)
  then obtain w' where w': "io_cleanup H p (w\<lparr>loop := s'\<rparr>) = Some w'" "loop_ok (loop w')" "ios w' p = Some (io\<lparr>io_fd := -1\<rparr>)"
      "released w' = released w @ somes [write_destroy io] @ somes [read_destroy io] @ somes [disconnect_destroy io]"
    by (rule io_cleanup_ok [OF assms(1)]) (use s'(2) close_removed_fd [OF s'(2,4)] in auto)
  show ?thesis
    by (rule that [of w']) (use False s' w' in \<open>simp_all add: loop_remove_fd_def held_def add_ac\<close>)
qed

lemma io_ref_ok:
  assumes "io_ok p w"
  obtains w' io where "io_ref p w = Some w'" "io_ok p w'" "balance p w' = balance p w"
    "ios w p = Some io" "ios w' p = Some (io\<lparr>ref_count := ref_count io + 1\<rparr>)" "0 < ref_count io"
  by (rule io_okE [OF assms])
    (auto simp: io_ref_def update_io_def io_ok_def io_at_def asked_def balance_def held_def silent_def intro!: that)

text \<open>Whatever happens in between, the reference taken at the start of a callback is given back.\<close>

lemma io_unref_ok:
  assumes "io_ok p w" "ios w p = Some io" "1 < ref_count io"
  obtains w' where "io_unref p w = Some w'" "io_ok p w'" "balance p w' = balance p w"
    "ios w' p = Some (io\<lparr>ref_count := ref_count io - 1\<rparr>)"
  using assms by (auto simp: io_unref_def io_ok_def io_at_def asked_def balance_def held_def silent_def intro!: that)

lemma moves_count: "moves p xs w w' \<Longrightarrow> ios w p = Some io \<Longrightarrow> \<exists>io'. ios w' p = Some io' \<and> ref_count io' = ref_count io"
  by (auto simp: moves_def)

lemma ready_ok:
  assumes "quiet H" "io_ok p w" "ios w p = Some io" "1 < ref_count io"
  obtains w' io' where "do { w \<leftarrow> (if events AND EPOLLIN \<noteq> 0 then io_readable H p w else Some w);
      w \<leftarrow> (if events AND EPOLLOUT \<noteq> 0 then io_writable H p w else Some w); io_unref p w } = Some w'"
    "io_ok p w'" "balance p w' = balance p w" "ios w' p = Some io'" "ref_count io' = ref_count io - 1"
proof -
  obtain w1 where 1: "(if events AND EPOLLIN \<noteq> 0 then io_readable H p w else Some w) = Some w1" "moves p [] w w1"
    by (rule io_readable_ok [OF assms(1,2)], cases "events AND EPOLLIN \<noteq> 0") (auto intro: moves_same [OF assms(2)])
  then have ok1: "io_ok p w1" by (simp add: moves_def)
  obtain w2 where 2: "(if events AND EPOLLOUT \<noteq> 0 then io_writable H p w1 else Some w1) = Some w2" "moves p [] w1 w2"
    by (rule io_writable_ok [OF assms(1) ok1], cases "events AND EPOLLOUT \<noteq> 0") (auto intro: moves_same [OF ok1])
  have m: "moves p [] w w2" using moves_trans [OF 1(2) 2(2)] by simp
  obtain io2 where io2: "ios w2 p = Some io2" "ref_count io2 = ref_count io" using moves_count [OF m assms(3)] by blast
  have ok2: "io_ok p w2" "balance p w2 = balance p w" using m by (simp_all add: moves_def)
  obtain w' where "io_unref p w2 = Some w'" "io_ok p w'" "balance p w' = balance p w2"
      "ios w' p = Some (io2\<lparr>ref_count := ref_count io2 - 1\<rparr>)"
    by (rule io_unref_ok [OF ok2(1) io2(1)]) (use assms(4) io2(2) in simp_all)
  then show ?thesis
    by (intro that [of w' "io2\<lparr>ref_count := ref_count io2 - 1\<rparr>"]) (use 1(1) 2(1) ok2(2) io2(2) in simp_all)
qed

lemma io_callback_ok:
  assumes "quiet H" "io_ok p w"
  obtains w' where "io_callback H events p w = Some w'" "moves p [] w w'"
proof -
  obtain w1 io where 1: "io_ref p w = Some w1" "io_ok p w1" "balance p w1 = balance p w"
      "ios w p = Some io" "ios w1 p = Some (io\<lparr>ref_count := ref_count io + 1\<rparr>)" "0 < ref_count io"
    by (rule io_ref_ok [OF assms(2)])
  show ?thesis
  proof (cases "events AND (EPOLLRDHUP OR EPOLLHUP OR EPOLLERR) = 0")
    case True
    obtain w' io' where "io_callback H events p w = Some w'" "io_ok p w'" "balance p w' = balance p w1"
        "ios w' p = Some io'" "ref_count io' = ref_count io"
      by (rule ready_ok [OF assms(1) 1(2,5), of events]) (use True 1(1,6) in \<open>simp_all add: io_callback_def\<close>)
    then show ?thesis using that [of w'] 1(3,4) by (simp add: moves_def)
  next
    case hup: False
    let ?io = "io\<lparr>ref_count := ref_count io + 1, read_callback := None, write_callback := None\<rparr>"
    let ?w = "put_io p ?io w1"
    have w: "io_ok p ?w" "balance p ?w = balance p w" "ios ?w p = Some ?io"
      using 1 by (auto simp: io_ok_def io_at_def asked_def balance_def held_events silent_def)
    have start: "do { w \<leftarrow> io_ref p w; update_io p (\<lambda>io. io\<lparr>read_callback := None, write_callback := None\<rparr>) w } = Some ?w"
      using 1(1,5) by (simp add: update_io_def)
    show ?thesis
    proof (cases "disconnect_callback io")
      case None
      have at: "io_at p ?io (io_events ?io) ?w" using w(1,3) by (auto simp: io_ok_def io_at_def)
      obtain w2 where w2: "loop_remove_fd H (io_fd ?io) ?w = Some w2" "loop_ok (loop w2)" "ios w2 p = Some (?io\<lparr>io_fd := -1\<rparr>)"
          "mset (released w2) = mset (released ?w) + held ?io"
        by (rule loop_remove_ok [OF quiet_releases [OF assms(1)] at]) (use None in \<open>auto simp: silent_def\<close>)
      let ?w' = "put_io p (io\<lparr>read_callback := None, write_callback := None, io_fd := -1\<rparr>) w2"
      have run: "io_callback H events p w = Some ?w'"
        using hup 1(1,5,6) None w2(1,3) by (simp add: io_callback_def update_io_def io_unref_def)
      have "moves p [] w ?w'"
        by (rule movesI [OF 1(4), of "io\<lparr>read_callback := None, write_callback := None, io_fd := -1\<rparr>"])
          (use w2 1(3-6) None in \<open>auto simp: io_at_def silent_def asked_def balance_def held_events\<close>)
      then show ?thesis using that [of ?w'] run by simp
    next
      case (Some n)
      obtain w2 where 2: "io_disconnected H p n ?w = Some w2" "moves p [] ?w w2"
        by (rule io_disconnected_ok [OF assms(1) w(1,3)]) (use Some in simp)
      obtain io2 where io2: "ios w2 p = Some io2" "ref_count io2 = ref_count io + 1" "io_ok p w2" "balance p w2 = balance p w"
        using moves_count [OF 2(2) w(3)] 2(2) w(2) by (auto simp: moves_def)
      obtain w' io' where "io_callback H events p w = Some w'" "io_ok p w'" "balance p w' = balance p w2"
          "ios w' p = Some io'" "ref_count io' = ref_count io"
        by (rule ready_ok [OF assms(1) io2(3,1), of events])
          (use hup 1(1,5,6) Some 2(1) io2(2) in \<open>simp_all add: io_callback_def update_io_def\<close>)
      then show ?thesis using that [of w'] 1(4) io2(4) by (simp add: moves_def)
    qed
  qed
qed

section \<open>Everything a client does with an io\<close>

datatype io_op =
    SetRead "nat option" "nat option"
  | SetWrite "nat option" "nat option"
  | SetDisconnect "nat option" "nat option"
  | CloseOnDestroy bool
  | IoEvent u32

text \<open>The destroy functions that were accepted are listed in the result.\<close>

fun io_step :: "'e io_host \<Rightarrow> ptr \<Rightarrow> io_op \<Rightarrow> 'e io_world \<Rightarrow> (nat list \<times> 'e io_world) option" where
  "io_step H p (SetRead c d) w = map_option (\<lambda>(ok, w). (if ok then somes [d] else [], w)) (io_set_read_handler H (Some p) c d w)"
| "io_step H p (SetWrite c d) w = map_option (\<lambda>(ok, w). (if ok then somes [d] else [], w)) (io_set_write_handler H (Some p) c d w)"
| "io_step H p (SetDisconnect c d) w = map_option (\<lambda>(ok, w). (if ok then somes [d] else [], w)) (io_set_disconnect_handler H (Some p) c d w)"
| "io_step H p (CloseOnDestroy b) w = map_option (\<lambda>(_, w). ([], w)) (io_set_close_on_destroy (Some p) b w)"
| "io_step H p (IoEvent ev) w = map_option (\<lambda>w. ([], w)) (io_callback H ev p w)"

fun io_steps :: "'e io_host \<Rightarrow> ptr \<Rightarrow> io_op list \<Rightarrow> 'e io_world \<Rightarrow> (nat list \<times> 'e io_world) option" where
  "io_steps H p [] w = Some ([], w)"
| "io_steps H p (op # ops) w = do {
     (ds, w) \<leftarrow> io_step H p op w;
     (es, w) \<leftarrow> io_steps H p ops w;
     Some (ds @ es, w) }"

lemma io_step_ok:
  assumes "quiet H" "io_ok p w"
  obtains ds w' where "io_step H p op w = Some (ds, w')" "moves p ds w w'"
proof (cases op)
  case (SetRead c d)
  then show ?thesis using that io_set_read_handler_ok [OF assms, of c d] by (metis io_step.simps(1) option.simps(9) split_conv)
next
  case (SetWrite c d)
  then show ?thesis using that io_set_write_handler_ok [OF assms, of c d] by (metis io_step.simps(2) option.simps(9) split_conv)
next
  case (SetDisconnect c d)
  then show ?thesis using that io_set_disconnect_handler_ok [OF assms, of c d] by (metis io_step.simps(3) option.simps(9) split_conv)
next
  case (CloseOnDestroy b)
  obtain io where io: "ios w p = Some io" "io_at p io (io_events io) w" "asked io" "0 < ref_count io" by (rule io_okE [OF assms(2)])
  have "moves p [] w (put_io p (io\<lparr>close_on_destroy := b\<rparr>) w)"
    by (rule movesI [OF io(1), of "io\<lparr>close_on_destroy := b\<rparr>"])
      (use io in \<open>auto simp: io_at_def silent_def asked_def held_def\<close>)
  then show ?thesis
    by (intro that [of "[]"]) (use io(1) CloseOnDestroy in \<open>simp_all add: io_set_close_on_destroy_def update_io_def\<close>)
next
  case (IoEvent ev)
  then show ?thesis using that io_callback_ok [OF assms, of ev] by (metis io_step.simps(5) option.simps(9))
qed

lemma io_steps_ok:
  assumes "quiet H" "io_ok p w"
  shows "\<exists>ds w'. io_steps H p ops w = Some (ds, w') \<and> moves p ds w w'"
  using assms(2)
proof (induction ops arbitrary: w)
  case Nil
  then show ?case using moves_same by (simp add: moves_same)
next
  case (Cons op ops)
  obtain ds w1 where 1: "io_step H p op w = Some (ds, w1)" "moves p ds w w1" by (rule io_step_ok [OF assms(1) Cons.prems])
  then obtain es w2 where "io_steps H p ops w1 = Some (es, w2)" "moves p es w1 w2" using Cons.IH [of w1] by (auto simp: moves_def)
  then show ?case using 1 moves_trans by (fastforce simp: )
qed

lemma io_new_ok:
  assumes "loop_ok (loop w)" "io_new H fd w = Some (Some p, w1)"
  shows "io_ok p w1 \<and> balance p w1 = mset (released w) \<and> map_option ref_count (ios w1 p) = Some 1"
proof -
  have pos: "\<not> fd < 0" "malloc_ok (io_kernel H) (loop w)"
    using assms(2) by (auto simp: io_new_def split: if_splits)
  show ?thesis
  proof (rule mainloop_add_fd_cases [OF assms(1), of "io_kernel H" fd 0 "Client (next_io w)" "Some (Client (next_io w))"], goal_cases)
    case (1 err s')
    then show ?case using assms(2) pos by (simp add: io_new_def)
  next
    case 2
    have "loop_ok (snd (mainloop_add_fd (io_kernel H) fd 0 (Some (Client (next_io w))) (Some (Client (next_io w))) (loop w)))"
      by (rule mainloop_add_fd_ok [OF assms(1)]) (simp add: client_destroy_def)
    then have ok: "loop_ok (loop w\<lparr>next_ptr := next_ptr (loop w) + 1,
        epoll_set := (epoll_set (loop w))(fd \<mapsto> (0, next_ptr (loop w))),
        md_heap := (md_heap (loop w))(next_ptr (loop w) \<mapsto> \<lparr>md_fd = fd, md_events = 0, md_callback = Client (next_io w),
          md_destroy = Some (Client (next_io w))\<rparr>),
        mainloop_list := (mainloop_list (loop w))[nat fd := Some (next_ptr (loop w))]\<rparr>)" (is "loop_ok ?s")
      by (simp add: 2(1))
    have reg: "registered (next_io w) fd 0 ?s"
      using 2(2) loop_okD(2) [OF assms(1)] by (simp add: registered_def entry_in_def bad_fd_nat)
    let ?io = "\<lparr>ref_count = 1, io_fd = fd, io_events = 0, close_on_destroy = False, read_callback = None, read_destroy = None,
      write_callback = None, write_destroy = None, disconnect_callback = None, disconnect_destroy = None\<rparr>"
    have "p = next_io w" "w1 = put_io p ?io (w\<lparr>loop := ?s, next_io := next_io w + 1\<rparr>)"
      using assms(2) pos by (auto simp: io_new_def 2(1) io_ref_def update_io_def Let_def)
    then show ?case
      using ok reg pos(1) by (simp add: io_ok_def io_at_def asked_def balance_def held_def)
  qed
qed

lemma io_destroy_ok:
  assumes "releases H" "io_ok p w" "map_option ref_count (ios w p) = Some 1"
  obtains w' where "io_destroy H (Some p) w = Some w'" "loop_ok (loop w')" "ios w' p = None" "mset (released w') = balance p w"
proof -
  obtain io where "ios w p = Some io" "io_at p io (io_events io) w" "asked io" by (rule io_okE [OF assms(2)])
  then have io: "ios w p = Some io" "io_at p io (io_events io) w" "asked io" "ref_count io = 1" using assms(3) by simp_all
  let ?io = "io\<lparr>read_callback := None, write_callback := None, disconnect_callback := None\<rparr>"
  let ?w = "put_io p ?io w"
  have at: "io_at p ?io (io_events ?io) ?w" using io(2) by (auto simp: io_at_def silent_def)
  obtain w2 where w2: "loop_remove_fd H (io_fd ?io) ?w = Some w2" "loop_ok (loop w2)" "ios w2 p = Some (?io\<lparr>io_fd := -1\<rparr>)"
      "mset (released w2) = mset (released ?w) + held ?io"
    by (rule loop_remove_ok [OF assms(1) at]) (simp_all add: silent_def)
  show ?thesis
    by (rule that [of "w2\<lparr>ios := (ios w2)(p := None)\<rparr>"])
      (use w2 io(1,4) in \<open>simp_all add: io_destroy_def update_io_def io_unref_def balance_def held_events\<close>)
qed


definition sample_io_host :: "unit io_host" where
  "sample_io_host = \<lparr>io_kernel = \<lparr>malloc_ok = \<lambda>_. True, pollable = \<lambda>_. True, timerfd_create = \<lambda>_. -1\<rparr>,
     run_handler = \<lambda>n p w. Some (even n, w), run_release = \<lambda>n w. Some w,
     writev = \<lambda>fd iov w. (int (length (concat iov)), 0, w), shutdown = \<lambda>fd w. (0, w)\<rparr>"

definition sample_io_world :: "unit io_world" where
  "sample_io_world = \<lparr>loop = fresh_loop, ios = \<lambda>_. None, next_io = 1, released = [], io_env = ()\<rparr>"

definition sample_io_ops :: "io_op list" where
  "sample_io_ops = [SetRead (Some 1) (Some 10), SetWrite (Some 2) (Some 20), SetRead (Some 3) (Some 11),
     IoEvent (EPOLLIN OR EPOLLOUT), SetDisconnect (Some 5) (Some 30), IoEvent EPOLLHUP]"

lemma quiet_sample_io_host: "quiet sample_io_host"
  by (auto simp: quiet_def releases_def sample_io_host_def)

lemma sample_io_new:
  obtains w1 where "io_new sample_io_host 5 sample_io_world = Some (Some 1, w1)"
  using that
  by (simp add: io_new_def sample_io_host_def sample_io_world_def mainloop_add_fd_def bad_fd_def MAX_MAINLOOP_ENTRIES_def
      epoll_ctl_add_def fresh_loop_def mainloop_init_def io_ref_def update_io_def)


text \<open>A handler that destroys the io it was called for and does not want to stay: its destroy function
  runs in \<^verbatim>\<open>io_destroy\<close> and again when \<^verbatim>\<open>io_callback\<close> ends the handler.\<close>

lemma destroy_in_callback_releases_twice:
  assumes "releases H" "io_ok p w" "ios w p = Some io" "ref_count io = 1" "read_callback io = Some n" "read_destroy io = Some d"
    and handler: "\<And>w. run_handler H n p w = map_option (Pair False) (io_destroy H (Some p) w)"
  shows "\<exists>w'. io_callback H EPOLLIN p w = Some w' \<and> 2 \<le> count (mset (released w')) d"
proof -
  have at: "io_at p io (io_events io) w" using assms(2,3) by (auto simp: io_ok_def io_at_def)
  have fd: "0 \<le> io_fd io" using callback_fd [OF at] assms(5) by (simp add: silent_def)
  let ?io = "io\<lparr>ref_count := 2, read_callback := None, write_callback := None, disconnect_callback := None\<rparr>"
  let ?w = "put_io p ?io w"
  have "io_at p ?io (io_events ?io) ?w" using at by (auto simp: io_at_def silent_def)
  then obtain w2 where w2: "loop_remove_fd H (io_fd ?io) ?w = Some w2" "ios w2 p = Some (?io\<lparr>io_fd := -1\<rparr>)"
      "mset (released w2) = mset (released ?w) + held ?io"
    by (rule loop_remove_ok [OF assms(1)]) (simp_all add: silent_def)
  let ?w3 = "put_io p (?io\<lparr>io_fd := -1, ref_count := 1\<rparr>) w2"
  have destroy: "io_destroy H (Some p) (put_io p (io\<lparr>ref_count := 2\<rparr>) w) = Some ?w3"
    using w2(1,2) by (simp add: io_destroy_def update_io_def io_unref_def)
  obtain e where again: "io_call_destroy H (Some d) ?w3 = Some (?w3\<lparr>released := released ?w3 @ somes [Some d], io_env := e\<rparr>)"
    by (rule quiet_destroy [OF assms(1)])
  have first: "0 < count (mset (released w2)) d"
    unfolding w2(3) using assms(6) fd by (simp add: held_def)
  have "io_callback H EPOLLIN p w = Some (?w3\<lparr>released := released w2 @ [d], io_env := e, ios := (ios w2)(p := None)\<rparr>)"
    using assms(3-6) handler destroy again
    by (simp add: io_callback_def io_ref_def update_io_def io_readable_def drop_event_def loop_modify_fd_def
        mainloop_modify_fd_def bad_fd_def io_unref_def EPOLLRDHUP_def EPOLLHUP_def EPOLLERR_def EPOLLIN_def EPOLLOUT_def)
  then show ?thesis using first by simp
qed

end
