(* ===== verification/Att.thy ===== *)
theory Att
  imports Nrf_Prelude
begin

text \<open>
  \<^verbatim>\<open>bluez/att.c\<close>: the ATT bearer. The state is \<^verbatim>\<open>struct bt_att\<close>; its queues are lists (what \<^verbatim>\<open>queue.c\<close>
  implements, theory \<open>Queue\<close>), the operations on them are values, since an operation is in one queue,
  pending or held by the running function and nowhere else, and the registrations are entries with
  an address, since a loop over them keeps a pointer to one while callbacks run.

  What the bearer calls is a parameter, the \<open>host\<close>: the socket and its \<^verbatim>\<open>io\<close>, the timers, the signing
  counter and cipher, and the callbacks of the upper layer. A callback is named by a token (the
  function with its user data); it may call back into the bearer, so it maps the bearer to a new
  one. Freed memory is undefined: \<open>None\<close>. Allocations succeed and debug output is left out.
\<close>

section \<open>Opcodes\<close>

definition BT_ATT_OP_ERROR_RSP :: byte where "BT_ATT_OP_ERROR_RSP = 0x01"
definition BT_ATT_OP_HANDLE_VAL_CONF :: byte where "BT_ATT_OP_HANDLE_VAL_CONF = 0x1E"
definition BT_ATT_ALL_REQUESTS :: byte where "BT_ATT_ALL_REQUESTS = 0x00"
definition BT_ATT_ERROR_INVALID_HANDLE :: byte where "BT_ATT_ERROR_INVALID_HANDLE = 0x01"
definition BT_ATT_ERROR_REQUEST_NOT_SUPPORTED :: byte where "BT_ATT_ERROR_REQUEST_NOT_SUPPORTED = 0x06"
definition BT_ATT_ERROR_UNLIKELY :: byte where "BT_ATT_ERROR_UNLIKELY = 0x0E"
definition BT_ATT_ERROR_INSUFFICIENT_RESOURCES :: byte where "BT_ATT_ERROR_INSUFFICIENT_RESOURCES = 0x11"
definition BT_ERROR_ALREADY_IN_PROGRESS :: byte where "BT_ERROR_ALREADY_IN_PROGRESS = 0xFE"
definition BT_ERROR_OUT_OF_RANGE :: byte where "BT_ERROR_OUT_OF_RANGE = 0xFF"
definition ATT_DEFAULT_LE_MTU :: u16 where "ATT_DEFAULT_LE_MTU = 23"
definition ATT_MIN_PDU_LEN :: nat where "ATT_MIN_PDU_LEN = 1"
definition ATT_OP_SIGNED_MASK :: u16 where "ATT_OP_SIGNED_MASK = 0x80"
definition ATT_TIMEOUT_INTERVAL :: nat where "ATT_TIMEOUT_INTERVAL = 30000"
definition BT_ATT_SIGNATURE_LEN :: nat where "BT_ATT_SIGNATURE_LEN = 12"

datatype att_op_type =
    ATT_OP_TYPE_REQ | ATT_OP_TYPE_RSP | ATT_OP_TYPE_CMD | ATT_OP_TYPE_IND | ATT_OP_TYPE_NOT
  | ATT_OP_TYPE_CONF | ATT_OP_TYPE_UNKNOWN

text \<open>The tables without their terminating entry.\<close>

definition att_opcode_type_table :: "(byte \<times> att_op_type) list" where
  "att_opcode_type_table =
     [(0x01, ATT_OP_TYPE_RSP), (0x02, ATT_OP_TYPE_REQ), (0x03, ATT_OP_TYPE_RSP), (0x04, ATT_OP_TYPE_REQ),
      (0x05, ATT_OP_TYPE_RSP), (0x06, ATT_OP_TYPE_REQ), (0x07, ATT_OP_TYPE_RSP), (0x08, ATT_OP_TYPE_REQ),
      (0x09, ATT_OP_TYPE_RSP), (0x0A, ATT_OP_TYPE_REQ), (0x0B, ATT_OP_TYPE_RSP), (0x0C, ATT_OP_TYPE_REQ),
      (0x0D, ATT_OP_TYPE_RSP), (0x0E, ATT_OP_TYPE_REQ), (0x0F, ATT_OP_TYPE_RSP), (0x10, ATT_OP_TYPE_REQ),
      (0x11, ATT_OP_TYPE_RSP), (0x12, ATT_OP_TYPE_REQ), (0x13, ATT_OP_TYPE_RSP), (0x52, ATT_OP_TYPE_CMD),
      (0xD2, ATT_OP_TYPE_CMD), (0x16, ATT_OP_TYPE_REQ), (0x17, ATT_OP_TYPE_RSP), (0x18, ATT_OP_TYPE_REQ),
      (0x19, ATT_OP_TYPE_RSP), (0x1B, ATT_OP_TYPE_NOT), (0x1D, ATT_OP_TYPE_IND), (0x1E, ATT_OP_TYPE_CONF)]"

definition get_op_type :: "byte \<Rightarrow> att_op_type" where
  "get_op_type opcode =
     (case map_of att_opcode_type_table opcode of Some t \<Rightarrow> t | None \<Rightarrow> ATT_OP_TYPE_UNKNOWN)"

text \<open>Pairs of the response and the request it answers.\<close>

definition att_req_rsp_mapping_table :: "(byte \<times> byte) list" where
  "att_req_rsp_mapping_table =
     [(0x03, 0x02), (0x05, 0x04), (0x07, 0x06), (0x09, 0x08), (0x0B, 0x0A), (0x0D, 0x0C), (0x0F, 0x0E),
      (0x11, 0x10), (0x13, 0x12), (0x17, 0x16), (0x19, 0x18)]"

definition get_req_opcode :: "byte \<Rightarrow> byte" where
  "get_req_opcode rsp_opcode =
     (case map_of att_req_rsp_mapping_table rsp_opcode of Some q \<Rightarrow> q | None \<Rightarrow> 0)"

section \<open>State\<close>

record 'c att_send_op =
  op_id :: u32
  op_timeout_id :: u32
  op_type :: att_op_type
  op_opcode :: u16
  op_pdu :: bytes
  op_len :: u16
  op_callback :: "'c option"
  op_destroy :: "'c option"

record 'c sign_info =
  sign_key :: bytes
  sign_counter :: 'c

record 'c att_notify =
  nt_id :: u32
  nt_opcode :: u16
  nt_callback :: "'c option"
  nt_destroy :: "'c option"

record 'c att_disconn =
  dc_id :: u32
  dc_removed :: bool
  dc_callback :: "'c option"
  dc_destroy :: "'c option"

record ('c, 'e) bt_att =
  att_ref_count :: int
  att_freed :: bool
  att_fd :: int
  att_io :: bool
  io_on_l2cap :: bool
  io_sec_level :: int
  req_queue :: "'c att_send_op list"
  pending_req :: "'c att_send_op option"
  ind_queue :: "'c att_send_op list"
  pending_ind :: "'c att_send_op option"
  write_queue :: "'c att_send_op list"
  writer_active :: bool
  notify_list :: "(nat \<times> 'c att_notify) list"
  disconn_list :: "(nat \<times> 'c att_disconn) list"
  next_entry :: nat
  in_req :: bool
  att_mtu :: u16
  next_send_id :: u32
  next_reg_id :: u32
  att_timeout_callback :: "'c option"
  att_timeout_destroy :: "'c option"
  debug_destroy :: "'c option"
  att_crypto :: bool
  local_sign :: "'c sign_info option"
  remote_sign :: "'c sign_info option"
  att_env :: 'e

text \<open>The calls of the upper layer, and what else the bearer calls. \<open>host_read n\<close> is \<^verbatim>\<open>read\<close> of at most \<open>n\<close>
  bytes; \<open>host_sign\<close> is \<^verbatim>\<open>bt_crypto_sign_att\<close> with the signature it writes.\<close>

datatype 'c upcall =
    Response 'c byte "bytes option"
  | Notified 'c byte bytes
  | Disconnected 'c int
  | TimedOut 'c u32 byte
  | Destroyed 'c

record ('c, 'e) att_host =
  upper :: "'c upcall \<Rightarrow> ('c, 'e) bt_att \<Rightarrow> ('c, 'e) bt_att option"
  host_send :: "bytes \<Rightarrow> 'e \<Rightarrow> int \<times> 'e"
  host_set_write_handler :: "'e \<Rightarrow> bool \<times> 'e"
  host_shutdown :: "'e \<Rightarrow> 'e"
  host_io_destroy :: "'e \<Rightarrow> 'e"
  host_io_close_on_destroy :: "bool \<Rightarrow> 'e \<Rightarrow> bool \<times> 'e"
  host_timeout_add :: "nat \<Rightarrow> u32 \<Rightarrow> 'e \<Rightarrow> u32 \<times> 'e"
  host_timeout_remove :: "u32 \<Rightarrow> 'e \<Rightarrow> 'e"
  host_counter :: "'c \<Rightarrow> u32 option \<Rightarrow> 'e \<Rightarrow> u32 option \<times> 'e"
  host_sign :: "bytes \<Rightarrow> bytes \<Rightarrow> u32 \<Rightarrow> 'e \<Rightarrow> bytes option \<times> 'e"
  host_read :: "nat \<Rightarrow> 'e \<Rightarrow> bytes option \<times> 'e"
  host_so_error :: "'e \<Rightarrow> int option"
  host_get_sec_level :: "'e \<Rightarrow> int option"
  host_set_sec_level :: "int \<Rightarrow> 'e \<Rightarrow> bool \<times> 'e"
  host_is_l2cap :: "'e \<Rightarrow> bool"
  host_io_new :: "'e \<Rightarrow> bool \<times> 'e"
  host_crypto_new :: "'e \<Rightarrow> bool \<times> 'e"
  host_set_handlers :: "'e \<Rightarrow> bool \<times> 'e"

definition upd_env :: "('e \<Rightarrow> 'e) \<Rightarrow> ('c, 'e) bt_att \<Rightarrow> ('c, 'e) bt_att" where
  "upd_env f a = a\<lparr>att_env := f (att_env a)\<rparr>"

text \<open>A callback, when there is one, and the check that the bearer is still there when the function
  goes on with it.\<close>

definition call_up :: "('c, 'e) att_host \<Rightarrow> ('c \<Rightarrow> 'c upcall) \<Rightarrow> 'c option \<Rightarrow> ('c, 'e) bt_att \<Rightarrow> ('c, 'e) bt_att option" where
  "call_up H ev cb a = (case cb of None \<Rightarrow> Some a | Some c \<Rightarrow> upper H (ev c) a)"

definition alive :: "('c, 'e) bt_att \<Rightarrow> ('c, 'e) bt_att option" where
  "alive a = (if att_freed a then None else Some a)"

section \<open>Operations to send\<close>

definition remove_timeout :: "('c, 'e) att_host \<Rightarrow> u32 \<Rightarrow> ('c, 'e) bt_att \<Rightarrow> ('c, 'e) bt_att" where
  "remove_timeout H tid a = (if tid \<noteq> 0 then upd_env (host_timeout_remove H tid) a else a)"

definition destroy_att_send_op :: "('c, 'e) att_host \<Rightarrow> 'c att_send_op \<Rightarrow> ('c, 'e) bt_att \<Rightarrow> ('c, 'e) bt_att option" where
  "destroy_att_send_op H op a = call_up H Destroyed (op_destroy op) (remove_timeout H (op_timeout_id op) a)"

definition strip_op :: "'c att_send_op \<Rightarrow> 'c att_send_op" where
  "strip_op op = op\<lparr>op_callback := None, op_destroy := None\<rparr>"

text \<open>\<^verbatim>\<open>cancel_att_send_op\<close> is used for the pending operations only, which stay where they are.\<close>

definition cancel_pending_req :: "('c, 'e) att_host \<Rightarrow> ('c, 'e) bt_att \<Rightarrow> ('c, 'e) bt_att option" where
  "cancel_pending_req H a =
     (case pending_req a of None \<Rightarrow> Some a
      | Some op \<Rightarrow> do {
          a \<leftarrow> call_up H Destroyed (op_destroy op) a;
          Some (a\<lparr>pending_req := map_option strip_op (pending_req a)\<rparr>) })"

definition cancel_pending_ind :: "('c, 'e) att_host \<Rightarrow> ('c, 'e) bt_att \<Rightarrow> ('c, 'e) bt_att option" where
  "cancel_pending_ind H a =
     (case pending_ind a of None \<Rightarrow> Some a
      | Some op \<Rightarrow> do {
          a \<leftarrow> call_up H Destroyed (op_destroy op) a;
          Some (a\<lparr>pending_ind := map_option strip_op (pending_ind a)\<rparr>) })"

definition is_signed :: "'c att_send_op \<Rightarrow> bool" where
  "is_signed op \<longleftrightarrow> op_opcode op AND ATT_OP_SIGNED_MASK \<noteq> 0"

definition pdu_length :: "bool \<Rightarrow> bytes option \<Rightarrow> u16 \<Rightarrow> u16" where
  "pdu_length with_signature pdu len =
     1 + (if with_signature then word_of_nat BT_ATT_SIGNATURE_LEN else 0) +
     (if len \<noteq> 0 \<and> pdu \<noteq> None then len else 0)"

text \<open>What \<^verbatim>\<open>memcpy\<close> copies behind the opcode; a copy of nothing may have no source.\<close>

definition pdu_body :: "bytes option \<Rightarrow> u16 \<Rightarrow> bytes option" where
  "pdu_body pdu len =
     (case pdu of None \<Rightarrow> if len = 0 then Some [] else None | Some p \<Rightarrow> array_slice p 0 (unat len))"

text \<open>The buffer has \<open>n\<close> bytes; writing behind it is undefined. The bytes of a signed PDU that are not
  written yet do not matter: the signature comes right behind the body, and is an array of twelve bytes.\<close>

definition encode_pdu ::
  "('c, 'e) att_host \<Rightarrow> 'c att_send_op \<Rightarrow> bytes option \<Rightarrow> u16 \<Rightarrow> ('c, 'e) bt_att
     \<Rightarrow> ('c att_send_op option \<times> ('c, 'e) bt_att) option" where
  "encode_pdu H op pdu len a =
     (let with_signature = local_sign a \<noteq> None \<and> is_signed op;
          n = pdu_length with_signature pdu len
      in if n > att_mtu a then Some (None, a)
         else if n = 0 then None
         else do {
           body \<leftarrow> (if n > 1 then pdu_body pdu len else Some []);
           if unat n < 1 + length body then None
           else let written = ucast (op_opcode op) # body in
             (case local_sign a of
                None \<Rightarrow> Some (Some (op\<lparr>op_len := n, op_pdu := written\<rparr>), a)
              | Some sign \<Rightarrow>
                  if \<not> is_signed op then Some (Some (op\<lparr>op_len := n, op_pdu := written\<rparr>), a)
                  else (case host_counter H (sign_counter sign) None (att_env a) of
                     (None, e) \<Rightarrow> Some (None, a\<lparr>att_env := e\<rparr>)
                   | (Some cnt, e) \<Rightarrow>
                       (case host_sign H (sign_key sign) written cnt e of
                          (None, e) \<Rightarrow> Some (None, a\<lparr>att_env := e\<rparr>)
                        | (Some sig, e) \<Rightarrow>
                            if unat n < length written + BT_ATT_SIGNATURE_LEN \<or> length sig \<noteq> BT_ATT_SIGNATURE_LEN then None
                            else Some (Some (op\<lparr>op_len := n, op_pdu := written @ sig\<rparr>), a\<lparr>att_env := e\<rparr>)))) })"

definition elicits_response :: "att_op_type \<Rightarrow> bool" where
  "elicits_response ty \<longleftrightarrow> ty = ATT_OP_TYPE_REQ \<or> ty = ATT_OP_TYPE_IND"

definition create_att_send_op ::
  "('c, 'e) att_host \<Rightarrow> byte \<Rightarrow> bytes option \<Rightarrow> u16 \<Rightarrow> 'c option \<Rightarrow> 'c option \<Rightarrow> ('c, 'e) bt_att
     \<Rightarrow> ('c att_send_op option \<times> ('c, 'e) bt_att) option" where
  "create_att_send_op H opcode pdu len callback destroy a =
     (let ty = get_op_type opcode in
      if len \<noteq> 0 \<and> pdu = None then Some (None, a)
      else if ty = ATT_OP_TYPE_UNKNOWN then Some (None, a)
      else if callback \<noteq> None \<and> \<not> elicits_response ty then Some (None, a)
      else if callback = None \<and> elicits_response ty then Some (None, a)
      else encode_pdu H
        \<lparr>op_id = 0, op_timeout_id = 0, op_type = ty, op_opcode = ucast opcode, op_pdu = [], op_len = 0,
         op_callback = callback, op_destroy = destroy\<rparr> pdu len a)"

definition pick_next_send_op :: "('c, 'e) bt_att \<Rightarrow> 'c att_send_op option \<times> ('c, 'e) bt_att" where
  "pick_next_send_op a =
     (case write_queue a of op # q \<Rightarrow> (Some op, a\<lparr>write_queue := q\<rparr>)
      | [] \<Rightarrow>
          (case (pending_req a, req_queue a) of (None, op # q) \<Rightarrow> (Some op, a\<lparr>req_queue := q\<rparr>)
           | _ \<Rightarrow>
               (case (pending_ind a, ind_queue a) of (None, op # q) \<Rightarrow> (Some op, a\<lparr>ind_queue := q\<rparr>)
                | _ \<Rightarrow> (None, a))))"

section \<open>The writer\<close>

definition nothing_to_send :: "('c, 'e) bt_att \<Rightarrow> bool" where
  "nothing_to_send a \<longleftrightarrow> write_queue a = [] \<and> (pending_req a \<noteq> None \<or> req_queue a = []) \<and>
     (pending_ind a \<noteq> None \<or> ind_queue a = [])"

definition wakeup_writer :: "('c, 'e) att_host \<Rightarrow> ('c, 'e) bt_att \<Rightarrow> ('c, 'e) bt_att" where
  "wakeup_writer H a =
     (if writer_active a \<or> nothing_to_send a \<or> \<not> att_io a then a
      else case host_set_write_handler H (att_env a) of (ok, e) \<Rightarrow>
        (a\<lparr>att_env := e\<rparr>)\<lparr>writer_active := ok\<rparr>)"

definition write_watch_destroy :: "('c, 'e) bt_att \<Rightarrow> ('c, 'e) bt_att" where
  "write_watch_destroy a = a\<lparr>writer_active := False\<rparr>"

definition att_io_shutdown :: "('c, 'e) att_host \<Rightarrow> ('c, 'e) bt_att \<Rightarrow> ('c, 'e) bt_att" where
  "att_io_shutdown H a = (if att_io a then upd_env (host_shutdown H) a else a)"

text \<open>The timer of an operation that was sent and waits for its answer.\<close>

definition start_timer :: "('c, 'e) att_host \<Rightarrow> 'c att_send_op \<Rightarrow> ('c, 'e) bt_att \<Rightarrow> 'c att_send_op \<times> ('c, 'e) bt_att" where
  "start_timer H op a =
     (case host_timeout_add H ATT_TIMEOUT_INTERVAL (op_id op) (att_env a) of (tid, e) \<Rightarrow>
        (op\<lparr>op_timeout_id := tid\<rparr>, a\<lparr>att_env := e\<rparr>))"

definition sent_op :: "('c, 'e) att_host \<Rightarrow> 'c att_send_op \<Rightarrow> ('c, 'e) bt_att \<Rightarrow> ('c, 'e) bt_att option" where
  "sent_op H op a =
     (case op_type op of
        ATT_OP_TYPE_REQ \<Rightarrow> (case start_timer H op a of (op, a) \<Rightarrow> Some (a\<lparr>pending_req := Some op\<rparr>))
      | ATT_OP_TYPE_IND \<Rightarrow> (case start_timer H op a of (op, a) \<Rightarrow> Some (a\<lparr>pending_ind := Some op\<rparr>))
      | ATT_OP_TYPE_RSP \<Rightarrow> destroy_att_send_op H op (a\<lparr>in_req := False\<rparr>)
      | _ \<Rightarrow> destroy_att_send_op H op a)"

text \<open>\<^verbatim>\<open>io_send\<close> fails on a bearer without \<open>io\<close>. The result tells whether to go on writing.\<close>

definition can_write_data :: "('c, 'e) att_host \<Rightarrow> ('c, 'e) bt_att \<Rightarrow> (bool \<times> ('c, 'e) bt_att) option" where
  "can_write_data H a =
     (case pick_next_send_op a of
        (None, a) \<Rightarrow> Some (False, a)
      | (Some op, a) \<Rightarrow>
          (case host_send H (op_pdu op) (att_env a) of (ret, e) \<Rightarrow>
             let a = a\<lparr>att_env := e\<rparr> in
             if ret < 0 then do {
               a \<leftarrow> call_up H (\<lambda>c. Response c BT_ATT_OP_ERROR_RSP None) (op_callback op) a;
               a \<leftarrow> destroy_att_send_op H op a;
               Some (True, a) }
             else do { a \<leftarrow> sent_op H op a; Some (True, a) }))"

section \<open>Registrations\<close>

definition destroy_att_notify :: "('c, 'e) att_host \<Rightarrow> 'c att_notify \<Rightarrow> ('c, 'e) bt_att \<Rightarrow> ('c, 'e) bt_att option" where
  "destroy_att_notify H nt a = call_up H Destroyed (nt_destroy nt) a"

definition destroy_att_disconn :: "('c, 'e) att_host \<Rightarrow> 'c att_disconn \<Rightarrow> ('c, 'e) bt_att \<Rightarrow> ('c, 'e) bt_att option" where
  "destroy_att_disconn H dc a = call_up H Destroyed (dc_destroy dc) a"

text \<open>\<^verbatim>\<open>queue_remove_all\<close> without a match: the queue is empty before the first element is destroyed.\<close>

fun destroy_each :: "('x \<Rightarrow> ('c, 'e) bt_att \<Rightarrow> ('c, 'e) bt_att option) \<Rightarrow> 'x list \<Rightarrow> ('c, 'e) bt_att \<Rightarrow> ('c, 'e) bt_att option" where
  "destroy_each f [] a = Some a"
| "destroy_each f (x # xs) a = do { a \<leftarrow> f x a; destroy_each f xs a }"

definition att_unregister_all :: "('c, 'e) att_host \<Rightarrow> ('c, 'e) bt_att \<Rightarrow> ('c, 'e) bt_att option" where
  "att_unregister_all H a = do {
     a \<leftarrow> destroy_each (destroy_att_notify H) (map snd (notify_list a)) (a\<lparr>notify_list := []\<rparr>);
     destroy_each (destroy_att_disconn H) (map snd (disconn_list a)) (a\<lparr>disconn_list := []\<rparr>) }"

definition att_cancel_all :: "('c, 'e) att_host \<Rightarrow> ('c, 'e) bt_att \<Rightarrow> ('c, 'e) bt_att option" where
  "att_cancel_all H a = do {
     a \<leftarrow> destroy_each (destroy_att_send_op H) (req_queue a) (a\<lparr>req_queue := []\<rparr>);
     a \<leftarrow> destroy_each (destroy_att_send_op H) (ind_queue a) (a\<lparr>ind_queue := []\<rparr>);
     a \<leftarrow> destroy_each (destroy_att_send_op H) (write_queue a) (a\<lparr>write_queue := []\<rparr>);
     a \<leftarrow> cancel_pending_req H a;
     cancel_pending_ind H a }"

section \<open>The life of a bearer\<close>

definition destroy_pending :: "('c, 'e) att_host \<Rightarrow> 'c att_send_op option \<Rightarrow> ('c, 'e) bt_att \<Rightarrow> ('c, 'e) bt_att option" where
  "destroy_pending H op a = (case op of None \<Rightarrow> Some a | Some op \<Rightarrow> destroy_att_send_op H op a)"

definition bt_att_free :: "('c, 'e) att_host \<Rightarrow> ('c, 'e) bt_att \<Rightarrow> ('c, 'e) bt_att option" where
  "bt_att_free H a = do {
     a \<leftarrow> destroy_pending H (pending_req a) a;
     a \<leftarrow> destroy_pending H (pending_ind a) a;
     let a = (if att_io a then upd_env (host_io_destroy H) a else a);
     a \<leftarrow> call_up H Destroyed (att_timeout_destroy a) a;
     a \<leftarrow> call_up H Destroyed (debug_destroy a) a;
     Some (a\<lparr>att_freed := True\<rparr>) }"

definition att_ref :: "('c, 'e) bt_att \<Rightarrow> ('c, 'e) bt_att" where
  "att_ref a = a\<lparr>att_ref_count := att_ref_count a + 1\<rparr>"

definition att_unref :: "('c, 'e) att_host \<Rightarrow> ('c, 'e) bt_att \<Rightarrow> ('c, 'e) bt_att option" where
  "att_unref H a = do {
     a \<leftarrow> alive a;
     let a = a\<lparr>att_ref_count := att_ref_count a - 1\<rparr>;
     if att_ref_count a \<noteq> 0 then Some a
     else do { a \<leftarrow> att_unregister_all H a; a \<leftarrow> att_cancel_all H a; bt_att_free H a } }"

definition new_bt_att :: "int \<Rightarrow> 'e \<Rightarrow> ('c, 'e) bt_att" where
  "new_bt_att fd e =
     \<lparr>att_ref_count = 0, att_freed = False, att_fd = fd, att_io = True, io_on_l2cap = False, io_sec_level = 0,
      req_queue = [], pending_req = None, ind_queue = [], pending_ind = None, write_queue = [],
      writer_active = False, notify_list = [], disconn_list = [], next_entry = 0, in_req = False,
      att_mtu = ATT_DEFAULT_LE_MTU, next_send_id = 0, next_reg_id = 0, att_timeout_callback = None,
      att_timeout_destroy = None, debug_destroy = None, att_crypto = False, local_sign = None, remote_sign = None,
      att_env = e\<rparr>"

text \<open>The bearer, or the environment when there is none.\<close>

definition bt_att_new :: "('c, 'e) att_host \<Rightarrow> int \<Rightarrow> 'e \<Rightarrow> ('e + ('c, 'e) bt_att) option" where
  "bt_att_new H fd e =
     (if fd < 0 then Some (Inl e)
      else case host_io_new H e of (ok, e) \<Rightarrow>
        if \<not> ok then Some (Inl e)
        else case host_crypto_new H e of (has_crypto, e) \<Rightarrow>
        case host_set_handlers H e of (ok, e) \<Rightarrow>
          let a = (new_bt_att fd e)\<lparr>att_crypto := has_crypto\<rparr> in
          if \<not> ok then do { a \<leftarrow> bt_att_free H a; Some (Inl (att_env a)) }
          else let a = a\<lparr>io_on_l2cap := host_is_l2cap H e\<rparr>;
                   a = (if \<not> io_on_l2cap a then a\<lparr>io_sec_level := 1\<rparr> else a)
               in Some (Inr (att_ref a)))"

section \<open>Timeouts and disconnection\<close>

fun is_pending :: "u32 \<Rightarrow> 'c att_send_op option \<Rightarrow> bool" where
  "is_pending i None = False"
| "is_pending i (Some op) = (op_id op = i)"

definition take_timed_out :: "u32 \<Rightarrow> ('c, 'e) bt_att \<Rightarrow> 'c att_send_op option \<times> ('c, 'e) bt_att" where
  "take_timed_out tid a =
     (if is_pending tid (pending_req a) then (pending_req a, a\<lparr>pending_req := None\<rparr>)
      else if is_pending tid (pending_ind a) then (pending_ind a, a\<lparr>pending_ind := None\<rparr>)
      else (None, a))"

definition timeout_cb :: "('c, 'e) att_host \<Rightarrow> u32 \<Rightarrow> ('c, 'e) bt_att \<Rightarrow> ('c, 'e) bt_att option" where
  "timeout_cb H tid a =
     (case take_timed_out tid a of
        (None, a) \<Rightarrow> Some a
      | (Some op, a) \<Rightarrow> do {
          a \<leftarrow> call_up H (\<lambda>c. TimedOut c (op_id op) (ucast (op_opcode op))) (att_timeout_callback a) a;
          a \<leftarrow> destroy_att_send_op H (op\<lparr>op_timeout_id := 0\<rparr>) a;
          a \<leftarrow> alive a;
          Some (att_io_shutdown H a) })"

text \<open>What follows an entry in a list of registrations; the loop over the disconnect handlers keeps a
  reference to the entry, so the successor is looked up after the call. An entry that was removed
  during the call keeps the successor it had; when that is gone too, the pointer is dangling.\<close>

fun entry_after :: "nat \<Rightarrow> (nat \<times> 'x) list \<Rightarrow> nat option" where
  "entry_after p [] = None"
| "entry_after p ((q, x) # xs) = (if p = q then (case xs of [] \<Rightarrow> None | (r, _) # _ \<Rightarrow> Some r) else entry_after p xs)"

definition first_entry :: "(nat \<times> 'x) list \<Rightarrow> nat option" where
  "first_entry xs = (case xs of [] \<Rightarrow> None | (p, _) # _ \<Rightarrow> Some p)"

definition next_entry_of :: "nat \<Rightarrow> nat option \<Rightarrow> (nat \<times> 'x) list \<Rightarrow> nat option" where
  "next_entry_of p was xs = (if map_of xs p = None then was else entry_after p xs)"

definition disconn_handler :: "('c, 'e) att_host \<Rightarrow> int \<Rightarrow> 'c att_disconn \<Rightarrow> ('c, 'e) bt_att \<Rightarrow> ('c, 'e) bt_att option" where
  "disconn_handler H err dc a =
     (if dc_removed dc then Some a else call_up H (\<lambda>c. Disconnected c err) (dc_callback dc) a)"

partial_function (option) disconn_loop ::
  "('c, 'e) att_host \<Rightarrow> int \<Rightarrow> nat option \<Rightarrow> ('c, 'e) bt_att \<Rightarrow> ('c, 'e) bt_att option" where
  [code]: "disconn_loop H err cur a =
     (case cur of None \<Rightarrow> Some a
      | Some p \<Rightarrow>
          if disconn_list a = [] then Some a
          else do {
            dc \<leftarrow> map_of (disconn_list a) p;
            let was = entry_after p (disconn_list a);
            a \<leftarrow> disconn_handler H err dc a;
            disconn_loop H err (next_entry_of p was (disconn_list a)) a })"

definition disconnect_cb :: "('c, 'e) att_host \<Rightarrow> ('c, 'e) bt_att \<Rightarrow> ('c, 'e) bt_att option" where
  "disconnect_cb H a =
     (let err = (case host_so_error H (att_env a) of None \<Rightarrow> 0 | Some e \<Rightarrow> e);
          a = (if att_io a then upd_env (host_io_destroy H) a else a)\<lparr>att_io := False\<rparr>
      in do {
        a \<leftarrow> att_cancel_all H a;
        a \<leftarrow> alive a;
        let a = att_ref a;
        a \<leftarrow> disconn_loop H err (first_entry (disconn_list a)) a;
        a \<leftarrow> att_unregister_all H a;
        att_unref H a })"

section \<open>Received PDUs\<close>

text \<open>The PDU handed to the callback of the pending request.\<close>

definition rsp_matches :: "byte \<Rightarrow> bytes \<Rightarrow> 'c att_send_op \<Rightarrow> bool" where
  "rsp_matches opcode pdu op \<longleftrightarrow>
     (if opcode = BT_ATT_OP_ERROR_RSP then length pdu = 4 \<and> ucast (pdu ! 0) = op_opcode op
      else get_req_opcode opcode \<noteq> 0 \<and> ucast (get_req_opcode opcode) = op_opcode op)"

definition rsp_args :: "byte \<Rightarrow> bytes \<Rightarrow> 'c att_send_op \<Rightarrow> byte \<times> bytes option" where
  "rsp_args opcode pdu op =
     (if rsp_matches opcode pdu op then (opcode, if length pdu > 0 then Some pdu else None)
      else (BT_ATT_OP_ERROR_RSP, None))"

definition complete_req :: "('c, 'e) att_host \<Rightarrow> byte \<times> bytes option \<Rightarrow> 'c att_send_op \<Rightarrow> ('c, 'e) bt_att \<Rightarrow> ('c, 'e) bt_att option" where
  "complete_req H r op a = do {
     a \<leftarrow> call_up H (\<lambda>c. Response c (fst r) (snd r)) (op_callback op) a;
     op \<leftarrow> pending_req a;
     a \<leftarrow> destroy_att_send_op H op a;
     Some (wakeup_writer H (a\<lparr>pending_req := None\<rparr>)) }"

definition handle_rsp :: "('c, 'e) att_host \<Rightarrow> byte \<Rightarrow> bytes \<Rightarrow> ('c, 'e) bt_att \<Rightarrow> ('c, 'e) bt_att option" where
  "handle_rsp H opcode pdu a =
     (case pending_req a of
        None \<Rightarrow> Some (att_io_shutdown H a)
      | Some op \<Rightarrow> complete_req H (rsp_args opcode pdu op) op a)"

definition complete_ind :: "('c, 'e) att_host \<Rightarrow> 'c att_send_op \<Rightarrow> ('c, 'e) bt_att \<Rightarrow> ('c, 'e) bt_att option" where
  "complete_ind H op a = do {
     a \<leftarrow> call_up H (\<lambda>c. Response c BT_ATT_OP_HANDLE_VAL_CONF None) (op_callback op) a;
     op \<leftarrow> pending_ind a;
     a \<leftarrow> destroy_att_send_op H op a;
     Some (wakeup_writer H (a\<lparr>pending_ind := None\<rparr>)) }"

definition handle_conf :: "('c, 'e) att_host \<Rightarrow> bytes \<Rightarrow> ('c, 'e) bt_att \<Rightarrow> ('c, 'e) bt_att option" where
  "handle_conf H pdu a =
     (case pending_ind a of
        None \<Rightarrow> Some (att_io_shutdown H a)
      | Some op \<Rightarrow> if pdu \<noteq> [] then Some (att_io_shutdown H a) else complete_ind H op a)"

definition opcode_match :: "byte \<Rightarrow> byte \<Rightarrow> bool" where
  "opcode_match opcode test_opcode \<longleftrightarrow>
     (opcode = BT_ATT_ALL_REQUESTS \<and>
        (get_op_type test_opcode = ATT_OP_TYPE_REQ \<or> get_op_type test_opcode = ATT_OP_TYPE_CMD)) \<or>
     opcode = test_opcode"

section \<open>Sending\<close>

text \<open>Every function of the interface accepts a null bearer and then returns \<open>r\<close>.\<close>

definition with_att :: "'r \<Rightarrow> (('c, 'e) bt_att \<Rightarrow> ('r \<times> ('c, 'e) bt_att) option) \<Rightarrow> ('c, 'e) bt_att option
    \<Rightarrow> ('r \<times> ('c, 'e) bt_att option) option" where
  "with_att r f att = (case att of None \<Rightarrow> Some (r, None) | Some a \<Rightarrow> map_option (\<lambda>(x, a). (x, Some a)) (f a))"

definition fresh_id :: "u32 \<Rightarrow> u32" where
  "fresh_id n = (if n < 1 then 1 else n)"

definition queue_op :: "'c att_send_op \<Rightarrow> ('c, 'e) bt_att \<Rightarrow> ('c, 'e) bt_att" where
  "queue_op op a =
     (case op_type op of
        ATT_OP_TYPE_REQ \<Rightarrow> a\<lparr>req_queue := req_queue a @ [op]\<rparr>
      | ATT_OP_TYPE_IND \<Rightarrow> a\<lparr>ind_queue := ind_queue a @ [op]\<rparr>
      | _ \<Rightarrow> a\<lparr>write_queue := write_queue a @ [op]\<rparr>)"

definition att_send ::
  "('c, 'e) att_host \<Rightarrow> byte \<Rightarrow> bytes option \<Rightarrow> u16 \<Rightarrow> 'c option \<Rightarrow> 'c option \<Rightarrow> ('c, 'e) bt_att
     \<Rightarrow> (u32 \<times> ('c, 'e) bt_att) option" where
  "att_send H opcode pdu len callback destroy a =
     (if \<not> att_io a then Some (0, a)
      else do {
        (op, a) \<leftarrow> create_att_send_op H opcode pdu len callback destroy a;
        case op of None \<Rightarrow> Some (0, a)
        | Some op \<Rightarrow>
            let i = fresh_id (next_send_id a);
                a = queue_op (op\<lparr>op_id := i\<rparr>) (a\<lparr>next_send_id := i + 1\<rparr>)
            in Some (i, wakeup_writer H a) })"

definition bt_att_send ::
  "('c, 'e) att_host \<Rightarrow> byte \<Rightarrow> bytes option \<Rightarrow> u16 \<Rightarrow> 'c option \<Rightarrow> 'c option \<Rightarrow> ('c, 'e) bt_att option
     \<Rightarrow> (u32 \<times> ('c, 'e) bt_att option) option" where
  "bt_att_send H opcode pdu len callback destroy = with_att (0 :: u32) (att_send H opcode pdu len callback destroy)"

definition ENOENT :: int where "ENOENT = 2"
definition EALREADY :: int where "EALREADY = 114"
definition EOVERFLOW :: int where "EOVERFLOW = 75"

definition att_ecode_from_error :: "int \<Rightarrow> byte" where
  "att_ecode_from_error err =
     (if err > 0 \<and> err < 255 then word_of_int err
      else if err = - ENOENT then BT_ATT_ERROR_INVALID_HANDLE
      else if err = - ENOMEM then BT_ATT_ERROR_INSUFFICIENT_RESOURCES
      else if err = - EALREADY then BT_ERROR_ALREADY_IN_PROGRESS
      else if err = - EOVERFLOW then BT_ERROR_OUT_OF_RANGE
      else BT_ATT_ERROR_UNLIKELY)"

definition error_rsp_pdu :: "byte \<Rightarrow> u16 \<Rightarrow> byte \<Rightarrow> bytes" where
  "error_rsp_pdu opcode handle ecode = [opcode] @ put_le16 handle @ [ecode]"

definition att_send_error_rsp where
  "att_send_error_rsp H opcode handle err a =
     (if opcode = 0 then Some (0, a)
      else att_send H BT_ATT_OP_ERROR_RSP (Some (error_rsp_pdu opcode handle (att_ecode_from_error err))) 4 None None a)"

definition bt_att_send_error_rsp where
  "bt_att_send_error_rsp H opcode handle err = with_att (0 :: u32) (att_send_error_rsp H opcode handle err)"

definition respond_not_supported :: "('c, 'e) att_host \<Rightarrow> byte \<Rightarrow> ('c, 'e) bt_att \<Rightarrow> ('c, 'e) bt_att option" where
  "respond_not_supported H opcode a = do {
     (_, a) \<leftarrow> att_send H BT_ATT_OP_ERROR_RSP (Some [opcode, 0, 0, BT_ATT_ERROR_REQUEST_NOT_SUPPORTED]) 4 None None a;
     Some a }"

section \<open>Requests, commands, notifications and indications of the other side\<close>

definition handle_signed :: "('c, 'e) att_host \<Rightarrow> bytes \<Rightarrow> ('c, 'e) bt_att \<Rightarrow> (bool \<times> ('c, 'e) bt_att) option" where
  "handle_signed H pdu a =
     (if length pdu < 2 + BT_ATT_SIGNATURE_LEN then Some (False, a)
      else (case remote_sign a of None \<Rightarrow> Some (False, a)
       | Some sign \<Rightarrow> do {
           let n = length pdu - BT_ATT_SIGNATURE_LEN;
           cnt \<leftarrow> get_le32 (drop n pdu);
           case host_counter H (sign_counter sign) (Some cnt) (att_env a) of
             (None, e) \<Rightarrow> Some (False, a\<lparr>att_env := e\<rparr>)
           | (Some cnt, e) \<Rightarrow>
               (case host_sign H (sign_key sign) (take n pdu) cnt e of
                  (signature, e) \<Rightarrow> Some (signature \<noteq> None, a\<lparr>att_env := e\<rparr>)) }))"

partial_function (option) notify_loop ::
  "('c, 'e) att_host \<Rightarrow> byte \<Rightarrow> bytes \<Rightarrow> bool \<Rightarrow> nat option \<Rightarrow> ('c, 'e) bt_att \<Rightarrow> (bool \<times> ('c, 'e) bt_att) option" where
  [code]: "notify_loop H opcode pdu found entry a =
     (case entry of None \<Rightarrow> Some (found, a)
      | Some p \<Rightarrow> do {
          nt \<leftarrow> map_of (notify_list a) p;
          let entry = entry_after p (notify_list a);
          if \<not> opcode_match (ucast (nt_opcode nt)) opcode
          then notify_loop H opcode pdu found entry a
          else do {
            a \<leftarrow> call_up H (\<lambda>c. Notified c opcode pdu) (nt_callback nt) a;
            if notify_list a = [] then Some (True, a) else notify_loop H opcode pdu True entry a } })"

definition notify_handlers :: "('c, 'e) att_host \<Rightarrow> byte \<Rightarrow> bytes \<Rightarrow> ('c, 'e) bt_att \<Rightarrow> ('c, 'e) bt_att option" where
  "notify_handlers H opcode pdu a = do {
     let a = att_ref a;
     (found, a) \<leftarrow> notify_loop H opcode pdu False (first_entry (notify_list a)) a;
     a \<leftarrow> (if \<not> found \<and> get_op_type opcode = ATT_OP_TYPE_REQ then respond_not_supported H opcode a else Some a);
     att_unref H a }"

definition handle_notify :: "('c, 'e) att_host \<Rightarrow> byte \<Rightarrow> bytes \<Rightarrow> ('c, 'e) bt_att \<Rightarrow> ('c, 'e) bt_att option" where
  "handle_notify H opcode pdu a =
     (if ucast opcode AND ATT_OP_SIGNED_MASK \<noteq> 0
      then do {
        (valid, a) \<leftarrow> handle_signed H pdu a;
        if \<not> valid then Some a
        else notify_handlers H opcode (take (length pdu - BT_ATT_SIGNATURE_LEN) pdu) a }
      else notify_handlers H opcode pdu a)"

text \<open>The switch of \<^verbatim>\<open>can_read_data\<close>; a second request while one is answered ends the connection.\<close>

definition handle_pdu :: "('c, 'e) att_host \<Rightarrow> byte \<Rightarrow> bytes \<Rightarrow> ('c, 'e) bt_att \<Rightarrow> (bool \<times> ('c, 'e) bt_att) option" where
  "handle_pdu H opcode pdu a =
     (case get_op_type opcode of
        ATT_OP_TYPE_RSP \<Rightarrow> map_option (Pair True) (handle_rsp H opcode pdu a)
      | ATT_OP_TYPE_CONF \<Rightarrow> map_option (Pair True) (handle_conf H pdu a)
      | ATT_OP_TYPE_REQ \<Rightarrow>
          if in_req a then Some (False, att_io_shutdown H a)
          else map_option (Pair True) (handle_notify H opcode pdu (a\<lparr>in_req := True\<rparr>))
      | _ \<Rightarrow> map_option (Pair True) (handle_notify H opcode pdu a))"

definition can_read_data :: "('c, 'e) att_host \<Rightarrow> ('c, 'e) bt_att \<Rightarrow> (bool \<times> ('c, 'e) bt_att) option" where
  "can_read_data H a =
     (case host_read H (unat (att_mtu a)) (att_env a) of
        (None, e) \<Rightarrow> Some (False, a\<lparr>att_env := e\<rparr>)
      | (Some buf, e) \<Rightarrow>
          (let a = a\<lparr>att_env := e\<rparr> in
           case buf of [] \<Rightarrow> Some (True, a)
           | opcode # pdu \<Rightarrow> do {
               (again, a) \<leftarrow> handle_pdu H opcode pdu (att_ref a);
               a \<leftarrow> att_unref H a;
               Some (again, a) }))"

section \<open>The rest of the interface\<close>

definition att_set_close_on_unref where
  "att_set_close_on_unref H do_close a =
     (if \<not> att_io a then Some (False, a)
      else case host_io_close_on_destroy H do_close (att_env a) of (ok, e) \<Rightarrow> Some (ok, a\<lparr>att_env := e\<rparr>))"

definition bt_att_set_close_on_unref where
  "bt_att_set_close_on_unref H do_close = with_att False (att_set_close_on_unref H do_close)"

definition bt_att_get_fd :: "('c, 'e) bt_att option \<Rightarrow> int" where
  "bt_att_get_fd att = (case att of None \<Rightarrow> -1 | Some a \<Rightarrow> att_fd a)"

definition bt_att_get_mtu :: "('c, 'e) bt_att option \<Rightarrow> u16" where
  "bt_att_get_mtu att = (case att of None \<Rightarrow> 0 | Some a \<Rightarrow> att_mtu a)"

definition bt_att_set_mtu :: "u16 \<Rightarrow> ('c, 'e) bt_att option \<Rightarrow> (bool \<times> ('c, 'e) bt_att option) option" where
  "bt_att_set_mtu mtu =
     with_att False (\<lambda>a. if mtu < ATT_DEFAULT_LE_MTU then Some (False, a) else Some (True, a\<lparr>att_mtu := mtu\<rparr>))"

definition bt_att_set_debug where
  "bt_att_set_debug H destroy =
     with_att False (\<lambda>a. do {
       a \<leftarrow> call_up H Destroyed (debug_destroy a) a;
       Some (True, a\<lparr>debug_destroy := destroy\<rparr>) })"

definition bt_att_set_timeout_cb where
  "bt_att_set_timeout_cb H callback destroy =
     with_att False (\<lambda>a. do {
       a \<leftarrow> call_up H Destroyed (att_timeout_destroy a) a;
       Some (True, a\<lparr>att_timeout_callback := callback, att_timeout_destroy := destroy\<rparr>) })"

definition att_register_disconnect where
  "att_register_disconnect callback destroy a =
     (if \<not> att_io a then Some (0, a)
      else let i = fresh_id (next_reg_id a);
               dc = \<lparr>dc_id = i, dc_removed = False, dc_callback = callback, dc_destroy = destroy\<rparr>
           in Some (i, a\<lparr>next_reg_id := i + 1, next_entry := next_entry a + 1,
                         disconn_list := disconn_list a @ [(next_entry a, dc)]\<rparr>))"

definition bt_att_register_disconnect where
  "bt_att_register_disconnect callback destroy = with_att (0 :: u32) (att_register_disconnect callback destroy)"

definition att_register where
  "att_register opcode callback destroy a =
     (if callback = None \<or> \<not> att_io a then Some (0, a)
      else let i = fresh_id (next_reg_id a);
               nt = \<lparr>nt_id = i, nt_opcode = ucast (opcode :: byte), nt_callback = callback, nt_destroy = destroy\<rparr>
           in Some (i, a\<lparr>next_reg_id := i + 1, next_entry := next_entry a + 1,
                         notify_list := notify_list a @ [(next_entry a, nt)]\<rparr>))"

definition bt_att_register where
  "bt_att_register opcode callback destroy = with_att (0 :: u32) (att_register opcode callback destroy)"

text \<open>\<^verbatim>\<open>queue_remove_if\<close>: the first element that matches, and the rest.\<close>

fun take_first :: "('x \<Rightarrow> bool) \<Rightarrow> 'x list \<Rightarrow> 'x option \<times> 'x list" where
  "take_first P [] = (None, [])"
| "take_first P (x # xs) = (if P x then (Some x, xs) else case take_first P xs of (r, ys) \<Rightarrow> (r, x # ys))"

definition att_unregister where
  "att_unregister H i a =
     (if i = 0 then Some (False, a)
      else case take_first (\<lambda>(_, nt). nt_id nt = i) (notify_list a) of
        (None, _) \<Rightarrow> Some (False, a)
      | (Some (_, nt), rest) \<Rightarrow> do { a \<leftarrow> destroy_att_notify H nt (a\<lparr>notify_list := rest\<rparr>); Some (True, a) })"

definition bt_att_unregister where
  "bt_att_unregister H i = with_att False (att_unregister H i)"

definition att_unregister_disconnect where
  "att_unregister_disconnect H i a =
     (if i = 0 then Some (False, a)
      else case take_first (\<lambda>(_, dc). dc_id dc = i) (disconn_list a) of
        (None, _) \<Rightarrow> Some (False, a)
      | (Some (_, dc), rest) \<Rightarrow> do { a \<leftarrow> destroy_att_disconn H dc (a\<lparr>disconn_list := rest\<rparr>); Some (True, a) })"

definition bt_att_unregister_disconnect where
  "bt_att_unregister_disconnect H i = with_att False (att_unregister_disconnect H i)"

definition bt_att_unregister_all where
  "bt_att_unregister_all H = with_att False (\<lambda>a. map_option (Pair True) (att_unregister_all H a))"

text \<open>An operation that is pending only loses its callbacks; one that is queued is removed.\<close>

definition take_queued :: "u32 \<Rightarrow> ('c, 'e) bt_att \<Rightarrow> 'c att_send_op option \<times> ('c, 'e) bt_att" where
  "take_queued i a =
     (case take_first (\<lambda>op. op_id op = i) (req_queue a) of
        (Some op, q) \<Rightarrow> (Some op, a\<lparr>req_queue := q\<rparr>)
      | (None, _) \<Rightarrow>
          (case take_first (\<lambda>op. op_id op = i) (ind_queue a) of
             (Some op, q) \<Rightarrow> (Some op, a\<lparr>ind_queue := q\<rparr>)
           | (None, _) \<Rightarrow>
               (case take_first (\<lambda>op. op_id op = i) (write_queue a) of
                  (Some op, q) \<Rightarrow> (Some op, a\<lparr>write_queue := q\<rparr>)
                | (None, _) \<Rightarrow> (None, a))))"

definition att_cancel :: "('c, 'e) att_host \<Rightarrow> u32 \<Rightarrow> ('c, 'e) bt_att \<Rightarrow> (bool \<times> ('c, 'e) bt_att) option" where
  "att_cancel H i a =
     (if i = 0 then Some (False, a)
      else if is_pending i (pending_req a) then map_option (Pair True) (cancel_pending_req H a)
      else if is_pending i (pending_ind a) then map_option (Pair True) (cancel_pending_ind H a)
      else (case take_queued i a of
              (None, a) \<Rightarrow> Some (False, a)
            | (Some op, a) \<Rightarrow> do {
                a \<leftarrow> destroy_att_send_op H op a;
                a \<leftarrow> alive a;
                Some (True, wakeup_writer H a) }))"

definition bt_att_cancel where
  "bt_att_cancel H i = with_att False (att_cancel H i)"

definition bt_att_cancel_all where
  "bt_att_cancel_all H = with_att False (\<lambda>a. map_option (Pair True) (att_cancel_all H a))"

definition bt_att_ref :: "('c, 'e) bt_att option \<Rightarrow> ('c, 'e) bt_att option" where
  "bt_att_ref att = map_option att_ref att"

definition bt_att_unref where
  "bt_att_unref H = with_att () (\<lambda>a. map_option (Pair ()) (att_unref H a))"

definition BT_SECURITY_HIGH :: int where "BT_SECURITY_HIGH = 3"

definition bt_att_get_sec_level :: "('c, 'e) att_host \<Rightarrow> ('c, 'e) bt_att option \<Rightarrow> int" where
  "bt_att_get_sec_level H att =
     (case att of None \<Rightarrow> - EINVAL
      | Some a \<Rightarrow> if \<not> io_on_l2cap a then io_sec_level a
          else case host_get_sec_level H (att_env a) of None \<Rightarrow> - EIO | Some l \<Rightarrow> l)"

definition bt_att_set_sec_level where
  "bt_att_set_sec_level H level =
     with_att False (\<lambda>a.
       if level < 1 \<or> level > BT_SECURITY_HIGH then Some (False, a)
       else if \<not> io_on_l2cap a then Some (True, a\<lparr>io_sec_level := level\<rparr>)
       else case host_set_sec_level H level (att_env a) of (ok, e) \<Rightarrow> Some (ok, a\<lparr>att_env := e\<rparr>))"

definition bt_att_set_local_key where
  "bt_att_set_local_key key counter =
     with_att False (\<lambda>a. Some (True, a\<lparr>local_sign := Some \<lparr>sign_key = key, sign_counter = counter\<rparr>\<rparr>))"

definition bt_att_set_remote_key where
  "bt_att_set_remote_key key counter =
     with_att False (\<lambda>a. Some (True, a\<lparr>remote_sign := Some \<lparr>sign_key = key, sign_counter = counter\<rparr>\<rparr>))"

definition bt_att_has_crypto :: "('c, 'e) bt_att option \<Rightarrow> bool" where
  "bt_att_has_crypto att = (case att of None \<Rightarrow> False | Some a \<Rightarrow> att_crypto a)"
end
