(* ===== verification/AttProtocol.thy ===== *)
theory AttProtocol
  imports Att "HOL-Library.Sublist"
begin

text \<open>
  What the ATT bearer guarantees. \<open>att_ok\<close> is its invariant; \<open>evolves\<close> is what any call of the interface
  may do to a bearer, and the contract of a callback of the upper layer. The locale \<open>upper_layer\<close>
  proves for every such layer that the event handlers keep the invariant and the order of the
  requests; it is interpreted for upper layers whose callbacks are arbitrary sequences of calls of the
  interface.
\<close>

section \<open>Encoding\<close>

definition op_wf :: "'c att_send_op \<Rightarrow> bool" where
  "op_wf op \<longleftrightarrow> op_pdu op \<noteq> [] \<and> hd (op_pdu op) = ucast (op_opcode op) \<and>
     unat (op_len op) = length (op_pdu op) \<and> op_type op = get_op_type (ucast (op_opcode op))"

lemma unat_pdu_length:
  "unat (pdu_length False pdu len) = (1 + (if pdu \<noteq> None then unat len else 0)) mod 65536"
  "unat (pdu_length True pdu len) = (13 + (if pdu \<noteq> None then unat len else 0)) mod 65536"
  by (auto simp: pdu_length_def BT_ATT_SIGNATURE_LEN_def unat_word_ariths unat_eq_0)

lemma pdu_body_length: "pdu_body pdu len = Some body \<Longrightarrow> length body = unat len"
  by (auto simp: pdu_body_def array_slice_eq_Some split: option.splits if_splits)

text \<open>The result of encoding: the operation with its PDU, within the MTU, and nothing but the
  environment of the bearer has changed.\<close>

lemma encode_pdu_result:
  assumes "encode_pdu H op pdu len a = Some (Some op', a')"
  shows "\<exists>body sig. op_pdu op' = ucast (op_opcode op) # body @ sig \<and>
     (pdu \<noteq> None \<and> len \<noteq> 0 \<longrightarrow> pdu_body pdu len = Some body) \<and> (pdu = None \<longrightarrow> body = []) \<and>
     length sig = (if local_sign a \<noteq> None \<and> is_signed op then 12 else 0) \<and>
     unat (op_len op') = length (op_pdu op') \<and> op_len op' \<le> att_mtu a"
    and "\<exists>n p. op' = op\<lparr>op_len := n, op_pdu := p\<rparr>" and "\<exists>e. a' = a\<lparr>att_env := e\<rparr>"
proof -
  let ?ws = "local_sign a \<noteq> None \<and> is_signed op"
  let ?n = "pdu_length ?ws pdu len"
  from assms obtain body where n: "\<not> ?n > att_mtu a" "?n \<noteq> 0"
    and body: "(if ?n > 1 then pdu_body pdu len else Some []) = Some body" and fits: "1 + length body \<le> unat ?n"
    by (auto simp: encode_pdu_def Let_def bind_Some_iff split: if_splits)
  have none: "pdu = None \<Longrightarrow> body = []"
    using body by (auto simp: pdu_body_def split: if_splits)
  show *: "\<exists>n p. op' = op\<lparr>op_len := n, op_pdu := p\<rparr>" "\<exists>e. a' = a\<lparr>att_env := e\<rparr>"
    using assms by (auto simp: encode_pdu_def Let_def bind_Some_iff split: if_splits option.splits prod.splits
        intro: exI [of _ "att_env a"])
  show "\<exists>body sig. op_pdu op' = ucast (op_opcode op) # body @ sig \<and>
     (pdu \<noteq> None \<and> len \<noteq> 0 \<longrightarrow> pdu_body pdu len = Some body) \<and> (pdu = None \<longrightarrow> body = []) \<and>
     length sig = (if ?ws then 12 else 0) \<and>
     unat (op_len op') = length (op_pdu op') \<and> op_len op' \<le> att_mtu a"
  proof (cases ?ws)
    case True
    then obtain sign where sign: "local_sign a = Some sign" by auto
    from assms True n body fits obtain cnt e sig e' where
      "host_counter H (sign_counter sign) None (att_env a) = (Some cnt, e)"
      "host_sign H (sign_key sign) (ucast (op_opcode op) # body) cnt e = (Some sig, e')"
      "length sig = 12" "13 + length body \<le> unat ?n"
      "op' = op\<lparr>op_len := ?n, op_pdu := ucast (op_opcode op) # body @ sig\<rparr>"
      by (auto simp: encode_pdu_def sign Let_def BT_ATT_SIGNATURE_LEN_def split: prod.splits option.splits if_splits)
    moreover have "unat ?n = 13 + (if pdu \<noteq> None then unat len else 0)"
      using True unat_pdu_length(2) [of pdu len] \<open>13 + length body \<le> unat ?n\<close> unat_u16_lt [of len] body pdu_body_length [of pdu len body]
      by (auto split: if_splits simp: word_less_nat_alt mod_if)
    ultimately show ?thesis
      using True n body none pdu_body_length [of pdu len body]
      by - (rule exI [of _ body], rule exI [of _ sig], auto split: if_splits simp: word_less_nat_alt word_le_nat_alt unat_eq_0)
  next
    case False
    with assms n body fits have op': "op' = op\<lparr>op_len := ?n, op_pdu := ucast (op_opcode op) # body\<rparr>"
      by (auto simp: encode_pdu_def Let_def split: option.splits if_splits)
    moreover have "unat ?n = 1 + (if pdu \<noteq> None then unat len else 0)"
      using False unat_pdu_length(1) [of pdu len] n(2) unat_u16_lt [of len]
      by (cases "unat len = 65535") (auto simp: unat_eq_0 split: if_splits)
    ultimately show ?thesis
      using False n body none pdu_body_length [of pdu len body]
      by - (rule exI [of _ body], rule exI [of _ "[]"], auto split: if_splits simp: word_less_nat_alt word_le_nat_alt unat_eq_0)
  qed
qed

section \<open>The invariant\<close>

definition att_ok :: "('c, 'e) bt_att \<Rightarrow> bool" where
  "att_ok a \<longleftrightarrow>
     (\<forall>op \<in> set (req_queue a). op_wf op \<and> op_type op = ATT_OP_TYPE_REQ) \<and>
     (\<forall>op \<in> set (ind_queue a). op_wf op \<and> op_type op = ATT_OP_TYPE_IND) \<and>
     (\<forall>op \<in> set (write_queue a). op_wf op \<and> \<not> elicits_response (op_type op)) \<and>
     (\<forall>op. pending_req a = Some op \<longrightarrow> op_wf op \<and> op_type op = ATT_OP_TYPE_REQ) \<and>
     (\<forall>op. pending_ind a = Some op \<longrightarrow> op_wf op \<and> op_type op = ATT_OP_TYPE_IND)"

text \<open>The requests in the order in which they go out: who asked, with what.\<close>

abbreviation key :: "'c att_send_op \<Rightarrow> u32 \<times> bytes" where
  "key op \<equiv> (op_id op, op_pdu op)"

text \<open>Elements may leave a queue and join it at the end; the others keep their order.\<close>

definition fifo :: "'x list \<Rightarrow> 'x list \<Rightarrow> bool" where
  "fifo xs ys \<longleftrightarrow> (\<exists>zs us. subseq zs xs \<and> ys = zs @ us)"

lemma fifo_refl [simp]: "fifo xs xs"
  unfolding fifo_def by (rule exI [of _ xs], rule exI [of _ "[]"]) simp

lemma fifo_trans: "fifo xs ys \<Longrightarrow> fifo ys zs \<Longrightarrow> fifo xs zs"
proof -
  assume "fifo xs ys" "fifo ys zs"
  then obtain as us bs vs where "subseq as xs" "ys = as @ us" "subseq bs (as @ us)" "zs = bs @ vs"
    unfolding fifo_def by blast
  moreover from this(3) obtain b1 b2 where "bs = b1 @ b2" "subseq b1 as" "subseq b2 us"
    by (rule subseq_appendE)
  ultimately show ?thesis
    unfolding fifo_def using subseq_order.order_trans [of b1 as xs] by force
qed

lemma fifo_append: "fifo xs (xs @ ys)"
  unfolding fifo_def by blast

lemma fifo_subseq: "subseq ys xs \<Longrightarrow> fifo xs ys"
  unfolding fifo_def by (rule exI [of _ ys], rule exI [of _ "[]"]) simp

text \<open>What a call of the interface does to a bearer that someone else holds a reference to.\<close>

definition evolves :: "('c, 'e) bt_att \<Rightarrow> ('c, 'e) bt_att \<Rightarrow> bool" where
  "evolves a b \<longleftrightarrow> (att_ok a \<longrightarrow> att_ok b) \<and>
     fifo (map key (req_queue a)) (map key (req_queue b)) \<and>
     fifo (map key (ind_queue a)) (map key (ind_queue b)) \<and>
     map_option key (pending_req b) = map_option key (pending_req a) \<and>
     map_option key (pending_ind b) = map_option key (pending_ind a) \<and>
     att_ref_count a \<le> att_ref_count b \<and> att_freed b = att_freed a"

named_theorems evolves

lemma evolves_refl [simp, evolves]: "evolves a a"
  by (simp add: evolves_def)

lemma evolves_trans [trans]: "evolves a b \<Longrightarrow> evolves b c \<Longrightarrow> evolves a c"
  unfolding evolves_def by (elim conjE, intro conjI) (assumption | rule fifo_trans | simp)+

text \<open>Changes outside of the queues.\<close>

lemma att_ok_cong:
  "req_queue b = req_queue a \<Longrightarrow> ind_queue b = ind_queue a \<Longrightarrow> write_queue b = write_queue a \<Longrightarrow>
   pending_req b = pending_req a \<Longrightarrow> pending_ind b = pending_ind a \<Longrightarrow> att_ok b = att_ok a"
  by (simp add: att_ok_def)

lemma evolves_same_queues:
  "req_queue b = req_queue a \<Longrightarrow> ind_queue b = ind_queue a \<Longrightarrow> write_queue b = write_queue a \<Longrightarrow>
   pending_req b = pending_req a \<Longrightarrow> pending_ind b = pending_ind a \<Longrightarrow> att_ref_count a \<le> att_ref_count b \<Longrightarrow>
   att_freed b = att_freed a \<Longrightarrow> evolves a b"
  by (simp add: evolves_def att_ok_cong [of b a])

lemma evolves_env [evolves]: "evolves a (a\<lparr>att_env := e\<rparr>)" "evolves a (upd_env f a)"
  by (auto intro: evolves_same_queues simp: upd_env_def)

lemma evolves_ref [evolves]: "evolves a (att_ref a)"
  by (auto intro: evolves_same_queues simp: att_ref_def)

lemma evolves_remove_timeout [evolves]: "evolves a (remove_timeout H t a)"
  by (simp add: remove_timeout_def evolves)

lemma evolves_shutdown [evolves]: "evolves a (att_io_shutdown H a)"
  by (simp add: att_io_shutdown_def evolves)

lemma evolves_wakeup [evolves]: "evolves a (wakeup_writer H a)"
  by (auto intro: evolves_same_queues simp: wakeup_writer_def split: prod.splits)

text \<open>Removing from a queue, and dropping the callbacks of what is pending.\<close>

lemma subseq_elem: "subseq ys xs \<Longrightarrow> x \<in> set ys \<Longrightarrow> x \<in> set xs"
  by (induction rule: list_emb.induct) auto

lemma subseq_ball: "subseq ys xs \<Longrightarrow> \<forall>x \<in> set xs. P x \<Longrightarrow> \<forall>x \<in> set ys. P x"
  by (blast dest: subseq_elem)

lemma fifo_map_subseq: "subseq ys xs \<Longrightarrow> fifo (map f xs) (map f ys)"
  by (intro fifo_subseq subseq_map)

lemma evolves_shrink:
  "subseq q (req_queue a) \<Longrightarrow> evolves a (a\<lparr>req_queue := q\<rparr>)"
  "subseq q (ind_queue a) \<Longrightarrow> evolves a (a\<lparr>ind_queue := q\<rparr>)"
  "subseq q (write_queue a) \<Longrightarrow> evolves a (a\<lparr>write_queue := q\<rparr>)"
  by (auto simp: evolves_def att_ok_def fifo_map_subseq dest: subseq_elem)

lemma evolves_clear [evolves]:
  "evolves a (a\<lparr>req_queue := []\<rparr>)" "evolves a (a\<lparr>ind_queue := []\<rparr>)" "evolves a (a\<lparr>write_queue := []\<rparr>)"
  by (simp_all add: evolves_shrink)

lemma evolves_lists [evolves]:
  "evolves a (a\<lparr>notify_list := nl\<rparr>)" "evolves a (a\<lparr>disconn_list := dl\<rparr>)"
  by (auto intro: evolves_same_queues)

lemma strip_op_key [simp]: "key (strip_op op) = key op" "op_wf (strip_op op) = op_wf op" "op_type (strip_op op) = op_type op"
  by (simp_all add: strip_op_def op_wf_def)

lemma evolves_strip [evolves]:
  "evolves a (a\<lparr>pending_req := map_option strip_op (pending_req a)\<rparr>)"
  "evolves a (a\<lparr>pending_ind := map_option strip_op (pending_ind a)\<rparr>)"
  by (auto simp: evolves_def att_ok_def option.map_comp comp_def)

lemma take_first_subseq: "take_first P xs = (r, ys) \<Longrightarrow> subseq ys xs"
  by (induction xs arbitrary: r ys) (auto split: if_splits prod.splits)

lemma evolves_take_queued: "take_queued i a = (r, b) \<Longrightarrow> evolves a b"
  by (auto simp: take_queued_def evolves_shrink split: prod.splits option.splits dest!: take_first_subseq)

section \<open>The contract of the upper layer\<close>

text \<open>Runs of the monadic definitions, as steps that continue from a bearer that evolved from \<open>a\<close>.\<close>

lemma holds_evolves_bind:
  "holds (evolves a) m \<Longrightarrow> (\<And>b. evolves a b \<Longrightarrow> holds P (f b)) \<Longrightarrow> holds P (Option.bind m f)"
  by (rule holds_bind)

lemma holds_run: "holds (evolves b) m \<Longrightarrow> evolves a b \<Longrightarrow> holds (evolves a) m"
  by (cases m) (auto simp: holds_def intro: evolves_trans)

lemma holds_Some_iff [simp]: "holds P (Some x) = P x"
  by (auto simp: holds_def)

lemma holdsI: "(\<And>x. m = Some x \<Longrightarrow> P x) \<Longrightarrow> holds P m"
  by (cases m) (auto simp: holds_def)

text \<open>A callback may do to the bearer what calls of the interface do, and keeps its reference meanwhile.\<close>

locale upper_layer =
  fixes H :: "('c, 'e) att_host"
  assumes upper_evolves: "upper H ev a = Some b \<Longrightarrow> evolves a b"
begin

lemma call_up_evolves: "evolves a x \<Longrightarrow> holds (evolves a) (call_up H ev cb x)"
  by (cases cb) (auto simp: call_up_def holds_Some intro!: holdsI intro: evolves_trans dest: upper_evolves)

lemma destroy_op_evolves: "evolves a x \<Longrightarrow> holds (evolves a) (destroy_att_send_op H op x)"
  unfolding destroy_att_send_op_def by (rule call_up_evolves [OF evolves_trans [OF _ evolves_remove_timeout]])

lemma strip_after:
  "evolves a x \<Longrightarrow> holds (evolves a) (do { b \<leftarrow> call_up H ev cb x; Some (b\<lparr>pending_req := map_option strip_op (pending_req b)\<rparr>) })"
  "evolves a x \<Longrightarrow> holds (evolves a) (do { b \<leftarrow> call_up H ev cb x; Some (b\<lparr>pending_ind := map_option strip_op (pending_ind b)\<rparr>) })"
  by (rule holds_evolves_bind [OF call_up_evolves], assumption, rule holds_Some,
      erule evolves_trans [OF _ evolves_strip(1)] evolves_trans [OF _ evolves_strip(2)])+

lemma cancel_pending_evolves:
  "evolves a x \<Longrightarrow> holds (evolves a) (cancel_pending_req H x)"
  "evolves a x \<Longrightarrow> holds (evolves a) (cancel_pending_ind H x)"
  unfolding cancel_pending_req_def cancel_pending_ind_def
  by (simp_all add: strip_after holds_Some split: option.split)

lemma destroy_each_evolves:
  assumes "\<And>x a b. evolves a b \<Longrightarrow> holds (evolves a) (f x b)"
  shows "evolves a b \<Longrightarrow> holds (evolves a) (destroy_each f xs b)"
proof (induction xs arbitrary: b)
  case (Cons x xs)
  show ?case by (simp, rule holds_evolves_bind [OF assms [OF Cons.prems] Cons.IH])
qed (simp add: holds_Some)

lemmas destroy_ops_evolves = destroy_each_evolves [OF destroy_op_evolves]

lemma destroy_entries_evolves:
  "evolves a x \<Longrightarrow> holds (evolves a) (destroy_each (destroy_att_notify H) ns x)"
  "evolves a x \<Longrightarrow> holds (evolves a) (destroy_each (destroy_att_disconn H) ds x)"
  by (rule destroy_each_evolves, auto simp: destroy_att_notify_def destroy_att_disconn_def intro: call_up_evolves)+

lemma unregister_all_evolves: "evolves a x \<Longrightarrow> holds (evolves a) (att_unregister_all H x)"
  unfolding att_unregister_all_def
  by (intro holds_evolves_bind [OF destroy_entries_evolves(1)] destroy_entries_evolves(2)
      evolves_trans [OF _ evolves_lists(1)] evolves_trans [OF _ evolves_lists(2)])

lemma cancel_all_evolves: "evolves a x \<Longrightarrow> holds (evolves a) (att_cancel_all H x)"
  unfolding att_cancel_all_def
  by (intro holds_evolves_bind [OF destroy_ops_evolves] holds_evolves_bind [OF cancel_pending_evolves(1)]
      cancel_pending_evolves(2) evolves_trans [OF _ evolves_clear(1)] evolves_trans [OF _ evolves_clear(2)]
      evolves_trans [OF _ evolves_clear(3)])

text \<open>Giving back a reference that is not the last one.\<close>

lemma ref_unref_evolves:
  assumes "evolves (att_ref a) b" "att_unref H b = Some c" "0 < att_ref_count a"
  shows "evolves a c"
proof -
  have "att_ref_count a + 1 \<le> att_ref_count b" using assms(1) by (simp add: evolves_def att_ref_def)
  with assms(3) have "1 < att_ref_count b" by linarith
  with assms(2) have c: "c = b\<lparr>att_ref_count := att_ref_count b - 1\<rparr>"
    by (auto simp: att_unref_def alive_def bind_Some_iff split: if_splits)
  have "att_ok c = att_ok b" by (rule att_ok_cong) (simp_all add: c)
  moreover have "att_ok (att_ref a) = att_ok a" by (rule att_ok_cong) (simp_all add: att_ref_def)
  ultimately show ?thesis using assms(1) by (auto simp: evolves_def c att_ref_def)
qed

end

text \<open>The calls of the interface.\<close>

lemma queue_op_evolves: "op_wf op \<Longrightarrow> evolves a (queue_op op a)"
  by (cases "op_type op") (auto simp: evolves_def att_ok_def queue_op_def elicits_response_def fifo_append)

lemma created_op:
  assumes "create_att_send_op H opcode pdu len cb d a = Some (Some op, b)"
  shows "op_wf op" "op_callback op = cb" "op_destroy op = d" "op_type op = get_op_type opcode" "op_opcode op = ucast opcode"
    "cb \<noteq> None \<longleftrightarrow> elicits_response (op_type op)" "op_timeout_id op = 0"
proof -
  let ?op = "\<lparr>op_id = 0, op_timeout_id = 0, op_type = get_op_type opcode, op_opcode = ucast opcode, op_pdu = [], op_len = 0,
    op_callback = cb, op_destroy = d\<rparr>"
  have enc: "encode_pdu H ?op pdu len a = Some (Some op, b)" and el: "cb \<noteq> None \<longleftrightarrow> elicits_response (get_op_type opcode)"
    using assms by (auto simp: create_att_send_op_def Let_def split: if_splits)
  obtain n q where op: "op = ?op\<lparr>op_len := n, op_pdu := q\<rparr>" using encode_pdu_result(2) [OF enc] by blast
  then show "op_callback op = cb" "op_destroy op = d" "op_type op = get_op_type opcode" "op_opcode op = ucast opcode"
    "cb \<noteq> None \<longleftrightarrow> elicits_response (op_type op)" "op_timeout_id op = 0" using el by simp_all
  have "ucast (ucast opcode :: u16) = opcode" by (auto intro!: bit_word_eqI simp: bit_simps)
  then show "op_wf op"
    using encode_pdu_result(1) [OF enc] op by (auto simp: op_wf_def)
qed

lemma encode_env: "encode_pdu H op pdu len a = Some (r, b) \<Longrightarrow> b = a\<lparr>att_env := att_env b\<rparr>"
  by (auto simp: encode_pdu_def Let_def bind_Some_iff split: if_splits option.splits prod.splits)

lemma created_env: "create_att_send_op H opcode pdu len cb d a = Some (r, b) \<Longrightarrow> b = a\<lparr>att_env := att_env b\<rparr>"
  unfolding create_att_send_op_def Let_def by (auto split: if_splits dest: encode_env)

lemma att_send_evolves: "att_send H opcode pdu len cb d a = Some (i, b) \<Longrightarrow> evolves a b"
proof -
  assume run: "att_send H opcode pdu len cb d a = Some (i, b)"
  show ?thesis
  proof (cases "att_io a")
    case True
    then obtain r a1 where r: "create_att_send_op H opcode pdu len cb d a = Some (r, a1)"
      using run by (auto simp: att_send_def bind_Some_iff)
    then have a1: "evolves a a1" using created_env [OF r] evolves_env(1) [of a "att_env a1"] by simp
    show ?thesis
    proof (cases r)
      case None
      with run r a1 True show ?thesis by (auto simp: att_send_def)
    next
      case (Some op)
      let ?a2 = "a1\<lparr>next_send_id := i + 1\<rparr>"
      have b: "b = wakeup_writer H (queue_op (op\<lparr>op_id := i\<rparr>) ?a2)"
        using run r True Some by (auto simp: att_send_def Let_def)
      have "op_wf (op\<lparr>op_id := i\<rparr>)" using created_op(1) [OF r [unfolded Some]] by (simp add: op_wf_def)
      then have "evolves ?a2 b" unfolding b by (intro evolves_trans [OF queue_op_evolves evolves_wakeup])
      moreover have "evolves a1 ?a2" by (rule evolves_same_queues) simp_all
      ultimately show ?thesis using a1 by (blast intro: evolves_trans)
    qed
  qed (use run in \<open>simp add: att_send_def\<close>)
qed

context upper_layer
begin

lemma att_cancel_evolves: "holds (\<lambda>r. evolves a (snd r)) (att_cancel H i a)"
proof -
  have pend: "holds (\<lambda>r. evolves a (snd r)) (map_option (Pair True) m)" if "holds (evolves a) m" for m
    using that by (cases m) (auto simp: holds_def)
  obtain r x where q: "take_queued i a = (r, x)" by (cases "take_queued i a")
  note x = evolves_take_queued [OF q]
  have "holds (\<lambda>r. evolves a (snd r)) (do { b \<leftarrow> destroy_att_send_op H op x; b \<leftarrow> alive b; Some (True, wakeup_writer H b) })" for op
    by (rule holds_evolves_bind [OF destroy_op_evolves [OF x]])
      (auto simp: alive_def holds_def intro: evolves_trans [OF _ evolves_wakeup])
  then show ?thesis
    using x pend [OF cancel_pending_evolves(1) [OF evolves_refl]] pend [OF cancel_pending_evolves(2) [OF evolves_refl]]
    by (auto simp: att_cancel_def q holds_Some split: option.split)
qed

end

section \<open>Upper layers that call the interface\<close>

datatype 'c att_call =
    CallSend byte "bytes option" u16 "'c option" "'c option"
  | CallSendErrorRsp byte u16 int
  | CallCancel u32
  | CallCancelAll
  | CallRegister byte "'c option" "'c option"
  | CallUnregister u32
  | CallUnregisterAll
  | CallRegisterDisconnect "'c option" "'c option"
  | CallUnregisterDisconnect u32
  | CallSetMtu u16
  | CallSetTimeoutCb "'c option" "'c option"
  | CallSetDebug "'c option"
  | CallSetLocalKey bytes 'c
  | CallSetRemoteKey bytes 'c
  | CallSetSecLevel int
  | CallSetCloseOnUnref bool

definition on_some :: "(('c, 'e) bt_att option \<Rightarrow> ('r \<times> ('c, 'e) bt_att option) option) \<Rightarrow> ('c, 'e) bt_att \<Rightarrow> ('c, 'e) bt_att option" where
  "on_some f a = Option.bind (f (Some a)) snd"

lemma on_some_with_att [simp]: "on_some (with_att r f) a = map_option snd (f a)"
  by (cases "f a") (auto simp: on_some_def with_att_def split: prod.splits)

fun run_call :: "('c, 'e) att_host \<Rightarrow> 'c att_call \<Rightarrow> ('c, 'e) bt_att \<Rightarrow> ('c, 'e) bt_att option" where
  "run_call H (CallSend opcode pdu len cb d) = on_some (bt_att_send H opcode pdu len cb d)"
| "run_call H (CallSendErrorRsp opcode h err) = on_some (bt_att_send_error_rsp H opcode h err)"
| "run_call H (CallCancel i) = on_some (bt_att_cancel H i)"
| "run_call H CallCancelAll = on_some (bt_att_cancel_all H)"
| "run_call H (CallRegister opcode cb d) = on_some (bt_att_register opcode cb d)"
| "run_call H (CallUnregister i) = on_some (bt_att_unregister H i)"
| "run_call H CallUnregisterAll = on_some (bt_att_unregister_all H)"
| "run_call H (CallRegisterDisconnect cb d) = on_some (bt_att_register_disconnect cb d)"
| "run_call H (CallUnregisterDisconnect i) = on_some (bt_att_unregister_disconnect H i)"
| "run_call H (CallSetMtu m) = on_some (bt_att_set_mtu m)"
| "run_call H (CallSetTimeoutCb cb d) = on_some (bt_att_set_timeout_cb H cb d)"
| "run_call H (CallSetDebug d) = on_some (bt_att_set_debug H d)"
| "run_call H (CallSetLocalKey k c) = on_some (bt_att_set_local_key k c)"
| "run_call H (CallSetRemoteKey k c) = on_some (bt_att_set_remote_key k c)"
| "run_call H (CallSetSecLevel l) = on_some (bt_att_set_sec_level H l)"
| "run_call H (CallSetCloseOnUnref b) = on_some (bt_att_set_close_on_unref H b)"

text \<open>A host whose callbacks do nothing, and one whose callbacks run a list of calls each; what those
  calls call back in turn does nothing more.\<close>

definition quiet_host :: "('c, 'e) att_host \<Rightarrow> ('c, 'e) att_host" where
  "quiet_host H = H\<lparr>upper := \<lambda>ev a. Some a\<rparr>"

definition scripted_host :: "('c upcall \<Rightarrow> 'c att_call list) \<Rightarrow> ('c, 'e) att_host \<Rightarrow> ('c, 'e) att_host" where
  "scripted_host acts H = H\<lparr>upper := \<lambda>ev a. destroy_each (run_call (quiet_host H)) (acts ev) a\<rparr>"

context upper_layer
begin

lemma map_snd_evolves: "holds (\<lambda>r. evolves a (snd r)) m \<Longrightarrow> holds (evolves a) (map_option snd m)"
  by (cases m) (auto simp: holds_def)

lemma pair_evolves: "holds (evolves a) m \<Longrightarrow> holds (\<lambda>r. evolves a (snd r)) (map_option (Pair x) m)"
  by (cases m) (auto simp: holds_def)

text \<open>A callback, then a change outside of the queues.\<close>

lemma call_then_evolves:
  "(\<And>b. evolves b (f b)) \<Longrightarrow> holds (\<lambda>r. evolves a (snd r)) (do { b \<leftarrow> call_up H ev cb a; Some (x, f b) })"
  by (rule holds_evolves_bind [OF call_up_evolves [OF evolves_refl]]) (auto simp: holds_def intro: evolves_trans)

lemma unregister_evolves:
  "holds (\<lambda>r. evolves a (snd r)) (att_unregister H i a)"
  "holds (\<lambda>r. evolves a (snd r)) (att_unregister_disconnect H i a)"
proof -
  have call: "holds (\<lambda>r. evolves a (snd r)) (do { b \<leftarrow> call_up H Destroyed cb x; Some (True, b) })" if "evolves a x" for cb x
    by (rule holds_evolves_bind [OF call_up_evolves [OF that]]) (simp add: holds_Some)
  show "holds (\<lambda>r. evolves a (snd r)) (att_unregister H i a)"
    by (auto simp: att_unregister_def destroy_att_notify_def holds_Some call evolves_lists split: prod.split option.split)
  show "holds (\<lambda>r. evolves a (snd r)) (att_unregister_disconnect H i a)"
    by (auto simp: att_unregister_disconnect_def destroy_att_disconn_def holds_Some call evolves_lists split: prod.split option.split)
qed

lemma register_evolves:
  "holds (\<lambda>r. evolves a (snd r)) (att_register opcode cb d a)"
  "holds (\<lambda>r. evolves a (snd r)) (att_register_disconnect cb d a)"
  by (auto simp: att_register_def att_register_disconnect_def Let_def intro!: holds_Some evolves_same_queues)

lemma run_call_evolves: "holds (evolves a) (run_call H c a)"
proof (cases c)
  case (CallSend opcode pdu len cb d)
  have "holds (\<lambda>r. evolves a (snd r)) (att_send H opcode pdu len cb d a)"
    by (rule holdsI) (auto dest: att_send_evolves)
  then show ?thesis by (simp add: CallSend bt_att_send_def map_snd_evolves)
next
  case (CallSendErrorRsp opcode h err)
  have "holds (\<lambda>r. evolves a (snd r)) (att_send_error_rsp H opcode h err a)"
    by (rule holdsI) (auto simp: att_send_error_rsp_def dest: att_send_evolves split: if_splits)
  then show ?thesis by (simp add: CallSendErrorRsp bt_att_send_error_rsp_def map_snd_evolves)
next
  case (CallSetTimeoutCb cb d)
  then show ?thesis
    by (auto simp: bt_att_set_timeout_cb_def intro!: map_snd_evolves call_then_evolves evolves_same_queues)
next
  case (CallSetDebug d)
  then show ?thesis
    by (auto simp: bt_att_set_debug_def intro!: map_snd_evolves call_then_evolves evolves_same_queues)
qed (auto simp: bt_att_cancel_def bt_att_cancel_all_def bt_att_register_def bt_att_unregister_def bt_att_unregister_all_def
    bt_att_register_disconnect_def bt_att_unregister_disconnect_def bt_att_set_mtu_def bt_att_set_local_key_def
    bt_att_set_remote_key_def bt_att_set_sec_level_def bt_att_set_close_on_unref_def att_set_close_on_unref_def
    att_cancel_evolves unregister_evolves register_evolves cancel_all_evolves unregister_all_evolves
    intro!: map_snd_evolves pair_evolves holds_Some evolves_same_queues split: prod.split)

lemma run_calls_evolves: "holds (evolves a) (destroy_each (run_call H) cs a)"
  by (rule destroy_each_evolves) (auto intro: holds_run run_call_evolves)

end

interpretation quiet: upper_layer "quiet_host H" for H :: "('c, 'e) att_host"
  by unfold_locales (simp add: quiet_host_def)

interpretation scripted: upper_layer "scripted_host acts H" for acts :: "'c upcall \<Rightarrow> 'c att_call list" and H :: "('c, 'e) att_host"
  by unfold_locales (use holdsD [OF quiet.run_calls_evolves] in \<open>auto simp: scripted_host_def\<close>)

section \<open>The event handlers\<close>

text \<open>The requests and indications that are on their way, the pending one first.\<close>

definition on_the_way :: "'c att_send_op option \<Rightarrow> 'c att_send_op list \<Rightarrow> (u32 \<times> bytes) list" where
  "on_the_way p q = map key (case p of None \<Rightarrow> q | Some op \<Rightarrow> op # q)"

abbreviation requests :: "('c, 'e) bt_att \<Rightarrow> (u32 \<times> bytes) list" where
  "requests a \<equiv> on_the_way (pending_req a) (req_queue a)"

abbreviation indications :: "('c, 'e) bt_att \<Rightarrow> (u32 \<times> bytes) list" where
  "indications a \<equiv> on_the_way (pending_ind a) (ind_queue a)"

text \<open>What an event does: operations may be answered or given up, but their order is kept.\<close>

definition progresses :: "('c, 'e) bt_att \<Rightarrow> ('c, 'e) bt_att \<Rightarrow> bool" where
  "progresses a b \<longleftrightarrow> (att_ok a \<longrightarrow> att_ok b) \<and> fifo (requests a) (requests b) \<and>
     fifo (indications a) (indications b) \<and> att_ref_count a \<le> att_ref_count b \<and> att_freed b = att_freed a"

lemma progresses_trans: "progresses a b \<Longrightarrow> progresses b c \<Longrightarrow> progresses a c"
  unfolding progresses_def by (elim conjE, intro conjI) (assumption | rule fifo_trans | simp)+

lemma fifo_Cons: "fifo xs ys \<Longrightarrow> fifo (x # xs) (x # ys)"
  unfolding fifo_def by (metis append_Cons subseq_Cons2)

lemma fifo_on_the_way:
  "map_option key p' = map_option key p \<Longrightarrow> fifo (map key q) (map key q') \<Longrightarrow> fifo (on_the_way p q) (on_the_way p' q')"
  by (cases p; cases p') (auto simp: on_the_way_def intro: fifo_Cons)

lemma evolves_progresses: "evolves a b \<Longrightarrow> progresses a b"
  by (auto simp: evolves_def progresses_def intro: fifo_on_the_way)

lemmas progresses_evolves = progresses_trans [OF _ evolves_progresses]

lemma progresses_refl [simp]: "progresses a a"
  by (rule evolves_progresses) simp

lemma progresses_shutdown [simp]: "progresses a (att_io_shutdown H a)"
  by (rule evolves_progresses [OF evolves_shutdown])

lemma fifo_Cons_drop: "fifo (x # xs) xs"
  by (rule fifo_subseq) auto

lemma progresses_answered:
  "progresses a (a\<lparr>pending_req := None\<rparr>)" "progresses a (a\<lparr>pending_ind := None\<rparr>)"
  by (cases "pending_req a"; cases "pending_ind a"; simp add: progresses_def att_ok_def on_the_way_def fifo_Cons_drop)+

lemma progresses_take_timed_out: "take_timed_out i a = (r, b) \<Longrightarrow> progresses a b"
  using progresses_answered [of a] evolves_progresses [OF evolves_refl [of a]]
  by (auto simp: take_timed_out_def split: if_splits)

text \<open>Picking an operation takes the head of one queue, in this order of preference.\<close>

lemma pick_next_cases:
  assumes "pick_next_send_op a = (Some op, b)"
  obtains q where "write_queue a = op # q" "b = a\<lparr>write_queue := q\<rparr>"
  | q where "write_queue a = []" "pending_req a = None" "req_queue a = op # q" "b = a\<lparr>req_queue := q\<rparr>"
  | q where "write_queue a = []" "pending_req a \<noteq> None \<or> req_queue a = []" "pending_ind a = None"
      "ind_queue a = op # q" "b = a\<lparr>ind_queue := q\<rparr>"
  using assms by (auto simp: pick_next_send_op_def split: list.splits option.splits)

lemma pick_next_none: "pick_next_send_op a = (None, b) \<Longrightarrow> b = a \<and> nothing_to_send a"
  by (auto simp: pick_next_send_op_def nothing_to_send_def split: list.splits option.splits)

lemma pick_next_evolves: "pick_next_send_op a = (Some op, b) \<Longrightarrow> evolves a b"
  by (erule pick_next_cases) (auto intro!: evolves_shrink)

text \<open>With the invariant the type of the operation tells the queue.\<close>

lemma pick_next_request:
  assumes "pick_next_send_op a = (Some op, b)" "att_ok a"
  shows "op_wf op" and "op_type op = ATT_OP_TYPE_REQ \<Longrightarrow> write_queue a = [] \<and> pending_req a = None \<and>
      req_queue a = op # req_queue b \<and> b = a\<lparr>req_queue := req_queue b\<rparr>"
    and "op_type op = ATT_OP_TYPE_IND \<Longrightarrow> write_queue a = [] \<and> pending_ind a = None \<and>
      ind_queue a = op # ind_queue b \<and> b = a\<lparr>ind_queue := ind_queue b\<rparr>"
proof -
  have "op_wf op \<and>
    (op_type op = ATT_OP_TYPE_REQ \<longrightarrow> write_queue a = [] \<and> pending_req a = None \<and>
      req_queue a = op # req_queue b \<and> b = a\<lparr>req_queue := req_queue b\<rparr>) \<and>
    (op_type op = ATT_OP_TYPE_IND \<longrightarrow> write_queue a = [] \<and> pending_ind a = None \<and>
      ind_queue a = op # ind_queue b \<and> b = a\<lparr>ind_queue := ind_queue b\<rparr>)"
    by (rule pick_next_cases [OF assms(1)]) (use assms(2) in \<open>auto simp: att_ok_def elicits_response_def\<close>)
  then show "op_wf op" "op_type op = ATT_OP_TYPE_REQ \<Longrightarrow> write_queue a = [] \<and> pending_req a = None \<and>
      req_queue a = op # req_queue b \<and> b = a\<lparr>req_queue := req_queue b\<rparr>"
    "op_type op = ATT_OP_TYPE_IND \<Longrightarrow> write_queue a = [] \<and> pending_ind a = None \<and>
      ind_queue a = op # ind_queue b \<and> b = a\<lparr>ind_queue := ind_queue b\<rparr>" by blast+
qed

context upper_layer
begin

lemma sent_op_progresses:
  assumes pick: "pick_next_send_op a = (Some op, b)" and ok: "att_ok a"
  shows "holds (progresses a) (sent_op H op (b\<lparr>att_env := e\<rparr>))"
proof -
  let ?b = "b\<lparr>att_env := e\<rparr>"
  have ab: "evolves a ?b" using pick_next_evolves [OF pick] evolves_env(1) by (rule evolves_trans)
  have destroyed: "holds (progresses a) (destroy_att_send_op H op x)" if "evolves ?b x" for x
    using destroy_op_evolves [OF evolves_trans [OF ab that]] evolves_progresses by (auto simp: holds_def split: option.splits)
  note facts = pick_next_request [OF pick ok]
  show ?thesis
  proof (cases "op_type op")
    case ATT_OP_TYPE_REQ
    obtain tid e' where t: "host_timeout_add H ATT_TIMEOUT_INTERVAL (op_id op) e = (tid, e')" by fastforce
    from facts(2) ATT_OP_TYPE_REQ have q: "pending_req a = None" "req_queue a = op # req_queue b" "b = a\<lparr>req_queue := req_queue b\<rparr>"
      by blast+
    let ?c = "?b\<lparr>att_env := e', pending_req := Some (op\<lparr>op_timeout_id := tid\<rparr>)\<rparr>"
    have fields: "req_queue ?c = req_queue b" "ind_queue ?c = ind_queue a" "write_queue ?c = write_queue a"
      "pending_ind ?c = pending_ind a" "att_ref_count ?c = att_ref_count a" "att_freed ?c = att_freed a"
      by (subst q(3), simp)+
    have "att_ok ?c"
      using ok facts(1) ATT_OP_TYPE_REQ q(2) unfolding att_ok_def fields by (auto simp: op_wf_def)
    moreover have "requests ?c = requests a" "indications ?c = indications a"
      unfolding fields using q(1,2) by (simp_all add: on_the_way_def)
    ultimately have "progresses a ?c" unfolding progresses_def fields by simp
    then show ?thesis using ATT_OP_TYPE_REQ by (simp add: sent_op_def start_timer_def t holds_Some)
  next
    case ATT_OP_TYPE_IND
    obtain tid e' where t: "host_timeout_add H ATT_TIMEOUT_INTERVAL (op_id op) e = (tid, e')" by fastforce
    from facts(3) ATT_OP_TYPE_IND have q: "pending_ind a = None" "ind_queue a = op # ind_queue b" "b = a\<lparr>ind_queue := ind_queue b\<rparr>"
      by blast+
    let ?c = "?b\<lparr>att_env := e', pending_ind := Some (op\<lparr>op_timeout_id := tid\<rparr>)\<rparr>"
    have fields: "ind_queue ?c = ind_queue b" "req_queue ?c = req_queue a" "write_queue ?c = write_queue a"
      "pending_req ?c = pending_req a" "att_ref_count ?c = att_ref_count a" "att_freed ?c = att_freed a"
      by (subst q(3), simp)+
    have "att_ok ?c"
      using ok facts(1) ATT_OP_TYPE_IND q(2) unfolding att_ok_def fields by (auto simp: op_wf_def)
    moreover have "requests ?c = requests a" "indications ?c = indications a"
      unfolding fields using q(1,2) by (simp_all add: on_the_way_def)
    ultimately have "progresses a ?c" unfolding progresses_def fields by simp
    then show ?thesis using ATT_OP_TYPE_IND by (simp add: sent_op_def start_timer_def t holds_Some)
  next
    case ATT_OP_TYPE_RSP
    have "evolves ?b (?b\<lparr>in_req := False\<rparr>)" by (rule evolves_same_queues) simp_all
    then show ?thesis using ATT_OP_TYPE_RSP by (simp add: sent_op_def destroyed)
  qed (simp_all add: sent_op_def destroyed)
qed

lemma can_write_data_progresses:
  assumes ok: "att_ok a"
  shows "holds (\<lambda>r. progresses a (snd r)) (can_write_data H a)"
proof (cases "pick_next_send_op a")
  case (Pair r b)
  show ?thesis
  proof (cases r)
    case None
    then show ?thesis using Pair pick_next_none [of a b]
      by (simp add: can_write_data_def holds_Some)
  next
    case (Some op)
    note pick = Pair [unfolded Some]
    obtain ret e where send: "host_send H (op_pdu op) (att_env b) = (ret, e)" by fastforce
    have "evolves a (b\<lparr>att_env := e\<rparr>)" using pick_next_evolves [OF pick] evolves_env(1) by (rule evolves_trans)
    then have "holds (\<lambda>r. progresses a (snd r)) (do {
        x \<leftarrow> call_up H (\<lambda>c. Response c BT_ATT_OP_ERROR_RSP None) (op_callback op) (b\<lparr>att_env := e\<rparr>);
        x \<leftarrow> destroy_att_send_op H op x;
        Some (True, x) })"
      by (intro holds_evolves_bind [OF call_up_evolves] holds_evolves_bind [OF destroy_op_evolves] holds_Some)
        (auto intro: evolves_progresses)
    moreover have "holds (\<lambda>r. progresses a (snd r)) (do { x \<leftarrow> sent_op H op (b\<lparr>att_env := e\<rparr>); Some (True, x) })"
      by (rule holds_bind [OF sent_op_progresses [OF pick ok]]) (simp add: holds_Some)
    ultimately show ?thesis by (simp add: can_write_data_def pick send Let_def)
  qed
qed

text \<open>The answers to what is pending.\<close>

lemma complete_progresses:
  "progresses a x \<Longrightarrow> holds (progresses a) (complete_req H r op x)"
  "progresses a x \<Longrightarrow> holds (progresses a) (complete_ind H op x)"
proof -
  assume ax: "progresses a x"
  have done1: "progresses a (wakeup_writer H (y\<lparr>pending_req := None\<rparr>))" if "evolves x y" for y
    by (rule progresses_evolves [OF _ evolves_wakeup])
      (rule progresses_trans [OF progresses_evolves [OF ax that] progresses_answered(1)])
  have done2: "progresses a (wakeup_writer H (y\<lparr>pending_ind := None\<rparr>))" if "evolves x y" for y
    by (rule progresses_evolves [OF _ evolves_wakeup])
      (rule progresses_trans [OF progresses_evolves [OF ax that] progresses_answered(2)])
  show "holds (progresses a) (complete_req H r op x)"
    unfolding complete_req_def
    by (intro holds_evolves_bind [OF call_up_evolves [OF evolves_refl]] holds_bind_any holds_evolves_bind [OF destroy_op_evolves])
      (assumption, simp add: done1)
  show "holds (progresses a) (complete_ind H op x)"
    unfolding complete_ind_def
    by (intro holds_evolves_bind [OF call_up_evolves [OF evolves_refl]] holds_bind_any holds_evolves_bind [OF destroy_op_evolves])
      (assumption, simp add: done2)
qed

lemma handle_rsp_progresses: "holds (progresses a) (handle_rsp H opcode pdu a)"
  using complete_progresses(1) [OF progresses_refl]
  by (simp add: handle_rsp_def split: option.split)

lemma handle_conf_progresses: "holds (progresses a) (handle_conf H pdu a)"
  using complete_progresses(2) [OF progresses_refl]
  by (simp add: handle_conf_def split: option.split)

lemma timeout_cb_progresses: "holds (progresses a) (timeout_cb H tid a)"
proof -
  obtain r x where t: "take_timed_out tid a = (r, x)" by fastforce
  note ax = progresses_take_timed_out [OF t]
  have "holds (progresses a) (do {
      b \<leftarrow> call_up H ev cb x; b \<leftarrow> destroy_att_send_op H op b; b \<leftarrow> alive b; Some (att_io_shutdown H b) })" for ev cb op
    by (intro holds_evolves_bind [OF call_up_evolves [OF evolves_refl]] holds_evolves_bind [OF destroy_op_evolves])
      (assumption, auto simp: alive_def holds_def intro: progresses_evolves [OF ax evolves_trans [OF _ evolves_shutdown]])
  then show ?thesis using ax by (simp add: timeout_cb_def t split: option.split)
qed

text \<open>The loops over the registrations.\<close>

lemma notify_loop_evolves: "evolves a x \<Longrightarrow> notify_loop H opcode pdu found entry x = Some r \<Longrightarrow> evolves a (snd r)"
proof -
  have "K = H \<longrightarrow> evolves x (snd r)" if "notify_loop K opcode pdu found entry x = Some r" for K opcode pdu found entry x r
  proof (rule notify_loop.raw_induct [where P = "\<lambda>K opcode pdu found entry x r. K = H \<longrightarrow> evolves x (snd r)", OF _ that], goal_cases)
    case (1 loop K opcode pdu found entry x r)
    show ?case
    proof (cases entry)
      case None
      with 1(2) show ?thesis by auto
    next
      case (Some p)
      with 1(2) obtain nt where nt: "map_of (notify_list x) p = Some nt" by (auto simp: bind_Some_iff)
      let ?next = "entry_after p (notify_list x)"
      show ?thesis
      proof (cases "opcode_match (ucast (nt_opcode nt)) opcode")
        case False
        with 1(2) Some nt have "loop K opcode pdu found ?next x = Some r" by simp
        from 1(1) [OF this] show ?thesis .
      next
        case True
        with 1(2) Some nt obtain y where y: "call_up K (\<lambda>c. Notified c opcode pdu) (nt_callback nt) x = Some y"
          "(if notify_list y = [] then Some (True, y) else loop K opcode pdu True ?next y) = Some r"
          by (auto simp: bind_Some_iff)
        show ?thesis
        proof
          assume "K = H"
          then have "evolves x y" using holdsD [OF call_up_evolves [OF evolves_refl]] y(1) by blast
          moreover have "evolves y (snd r)"
            using y(2) 1(1) [of K opcode pdu True ?next y r] \<open>K = H\<close> by (auto split: if_splits)
          ultimately show "evolves x (snd r)" by (rule evolves_trans)
        qed
      qed
    qed
  qed
  then show "evolves a x \<Longrightarrow> notify_loop H opcode pdu found entry x = Some r \<Longrightarrow> evolves a (snd r)"
    by (blast intro: evolves_trans)
qed

lemma disconn_loop_evolves: "evolves a x \<Longrightarrow> disconn_loop H err entry x = Some b \<Longrightarrow> evolves a b"
proof -
  have "K = H \<longrightarrow> evolves x b" if "disconn_loop K err entry x = Some b" for K err entry x b
  proof (rule disconn_loop.raw_induct [where P = "\<lambda>K err entry x b. K = H \<longrightarrow> evolves x b", OF _ that], goal_cases)
    case (1 loop K err entry x b)
    show ?case
    proof (cases "entry = None \<or> disconn_list x = []")
      case True
      with 1(2) show ?thesis by (auto split: option.splits)
    next
      case False
      then obtain p where p: "entry = Some p" by (cases entry) auto
      with False 1(2) obtain dc y where y: "disconn_handler K err dc x = Some y"
        "loop K err (next_entry_of p (entry_after p (disconn_list x)) (disconn_list y)) y = Some b"
        by (auto simp: bind_Some_iff Let_def)
      show ?thesis
      proof
        assume "K = H"
        then have "evolves x y"
          using y(1) holdsD [OF call_up_evolves [OF evolves_refl]] by (auto simp: disconn_handler_def split: if_splits)
        moreover have "evolves y b" using 1(1) [OF y(2)] \<open>K = H\<close> by blast
        ultimately show "evolves x b" by (rule evolves_trans)
      qed
    qed
  qed
  then show "evolves a x \<Longrightarrow> disconn_loop H err entry x = Some b \<Longrightarrow> evolves a b"
    by (blast intro: evolves_trans)
qed

text \<open>Received PDUs, with the reference that the reader holds.\<close>

lemma unref_held:
  assumes "att_ref_count (att_ref a) \<le> att_ref_count b" "att_unref H b = Some c" "0 < att_ref_count a"
  shows "c = b\<lparr>att_ref_count := att_ref_count b - 1\<rparr>" "att_ref_count a \<le> att_ref_count c"
proof -
  have "att_ref_count a + 1 \<le> att_ref_count b" using assms(1) by (simp add: att_ref_def)
  with assms(3) have "1 < att_ref_count b" by linarith
  with assms(2) show c: "c = b\<lparr>att_ref_count := att_ref_count b - 1\<rparr>"
    by (auto simp: att_unref_def alive_def bind_Some_iff split: if_splits)
  show "att_ref_count a \<le> att_ref_count c" using c assms(1) by (simp add: att_ref_def)
qed

lemma ref_unref_progresses:
  assumes "progresses (att_ref a) b" "att_unref H b = Some c" "0 < att_ref_count a"
  shows "progresses a c"
proof -
  have c: "c = b\<lparr>att_ref_count := att_ref_count b - 1\<rparr>" "att_ref_count a \<le> att_ref_count c"
    using unref_held [OF _ assms(2,3)] assms(1) by (auto simp: progresses_def)
  have "att_ok c = att_ok b" by (rule att_ok_cong) (simp_all add: c(1))
  moreover have "att_ok (att_ref a) = att_ok a" by (rule att_ok_cong) (simp_all add: att_ref_def)
  ultimately show ?thesis using assms(1) c by (simp add: progresses_def att_ref_def)
qed

lemma respond_evolves: "evolves a x \<Longrightarrow> holds (evolves a) (respond_not_supported H opcode x)"
  unfolding respond_not_supported_def
  by (rule holdsI) (auto simp: bind_Some_iff intro: evolves_trans dest: att_send_evolves)

lemma notify_handlers_evolves:
  assumes "0 < att_ref_count a"
  shows "holds (evolves a) (notify_handlers H opcode pdu a)"
proof (rule holdsI)
  fix c assume "notify_handlers H opcode pdu a = Some c"
  then obtain found b b' where run: "notify_loop H opcode pdu False (first_entry (notify_list (att_ref a))) (att_ref a) = Some (found, b)"
    "b' = b \<or> respond_not_supported H opcode b = Some b'" "att_unref H b' = Some c"
    by (auto simp: notify_handlers_def bind_Some_iff Let_def split: if_splits)
  have "evolves (att_ref a) b" using notify_loop_evolves [OF evolves_refl run(1)] by simp
  then have "evolves (att_ref a) b'"
    using run(2) holdsD [OF respond_evolves [OF evolves_refl]] evolves_trans by blast
  from ref_unref_evolves [OF this run(3) assms] show "evolves a c" .
qed

lemma handle_signed_env: "handle_signed H pdu a = Some (v, b) \<Longrightarrow> b = a\<lparr>att_env := att_env b\<rparr>"
proof -
  have "holds (\<lambda>r. snd r = a\<lparr>att_env := att_env (snd r)\<rparr>) (handle_signed H pdu a)"
    unfolding handle_signed_def by (intro holds_rules) auto
  then show "handle_signed H pdu a = Some (v, b) \<Longrightarrow> b = a\<lparr>att_env := att_env b\<rparr>" by simp
qed

lemma handle_notify_evolves:
  assumes "0 < att_ref_count a"
  shows "holds (evolves a) (handle_notify H opcode pdu a)"
proof (rule holdsI)
  fix c assume run: "handle_notify H opcode pdu a = Some c"
  show "evolves a c"
  proof (cases "(ucast opcode :: u16) AND ATT_OP_SIGNED_MASK = 0")
    case True
    with run show ?thesis using holdsD [OF notify_handlers_evolves [OF assms]] by (simp add: handle_notify_def)
  next
    case False
    with run obtain v b where b: "handle_signed H pdu a = Some (v, b)"
      "c = b \<or> (\<exists>p. notify_handlers H opcode p b = Some c)"
      by (auto simp: handle_notify_def bind_Some_iff split: if_splits)
    have ab: "evolves a b" using handle_signed_env [OF b(1)] evolves_env(1) [of a "att_env b"] by simp
    then have "0 < att_ref_count b" using assms by (simp add: evolves_def)
    then show ?thesis using b(2) ab holdsD [OF notify_handlers_evolves] evolves_trans by blast
  qed
qed

lemma handle_pdu_progresses:
  assumes "0 < att_ref_count a"
  shows "holds (\<lambda>r. progresses a (snd r)) (handle_pdu H opcode pdu a)"
proof -
  have pair: "holds (\<lambda>r. progresses a (snd r)) (map_option (Pair True) m)" if "holds (progresses a) m" for m
    using that by (cases m) (auto simp: holds_def)
  have notify: "holds (progresses a) (handle_notify H opcode pdu x)" if "evolves a x" for x
  proof (rule holdsI)
    fix c assume "handle_notify H opcode pdu x = Some c"
    moreover have "0 < att_ref_count x" using that assms by (simp add: evolves_def)
    ultimately show "progresses a c"
      using evolves_progresses [OF evolves_trans [OF that holdsD [OF handle_notify_evolves]]] by blast
  qed
  have "evolves a (a\<lparr>in_req := True\<rparr>)" by (rule evolves_same_queues) simp_all
  then show ?thesis
    by (cases "get_op_type opcode")
      (simp_all add: handle_pdu_def pair handle_rsp_progresses handle_conf_progresses notify)
qed

lemma can_read_data_progresses:
  assumes "0 < att_ref_count a"
  shows "holds (\<lambda>r. progresses a (snd r)) (can_read_data H a)"
proof (rule holdsI)
  fix r assume run: "can_read_data H a = Some r"
  obtain buf e where rd: "host_read H (unat (att_mtu a)) (att_env a) = (buf, e)" by fastforce
  let ?a = "a\<lparr>att_env := e\<rparr>"
  have a1: "progresses a ?a" by (rule evolves_progresses [OF evolves_env(1)])
  show "progresses a (snd r)"
  proof (cases "buf = None \<or> buf = Some []")
    case True
    with run a1 show ?thesis by (auto simp: can_read_data_def rd)
  next
    case False
    then obtain opcode pdu where buf: "buf = Some (opcode # pdu)" by (metis list.exhaust option.exhaust)
    with run obtain again b c where b: "handle_pdu H opcode pdu (att_ref ?a) = Some (again, b)"
      "att_unref H b = Some c" "r = (again, c)"
      by (auto simp: can_read_data_def rd bind_Some_iff Let_def)
    have "0 < att_ref_count (att_ref ?a)" using assms by (simp add: att_ref_def)
    then have "progresses (att_ref ?a) b" using holdsD [OF handle_pdu_progresses b(1)] by simp
    from ref_unref_progresses [OF this b(2)] assms show ?thesis using a1 b(3) progresses_trans by fastforce
  qed
qed

lemma disconnect_cb_evolves:
  assumes "0 < att_ref_count a"
  shows "holds (evolves a) (disconnect_cb H a)"
proof (rule holdsI)
  fix c assume "disconnect_cb H a = Some c"
  let ?x = "(if att_io a then upd_env (host_io_destroy H) a else a)\<lparr>att_io := False\<rparr>"
  from \<open>disconnect_cb H a = Some c\<close> obtain err b b1 b2 where run: "att_cancel_all H ?x = Some b"
    "disconn_loop H err (first_entry (disconn_list (att_ref b))) (att_ref b) = Some b1"
    "att_unregister_all H b1 = Some b2" "att_unref H b2 = Some c"
    by (auto simp: disconnect_cb_def bind_Some_iff Let_def alive_def split: if_splits)
  have "evolves a ?x" by (rule evolves_same_queues) (simp_all add: upd_env_def)
  then have ab: "evolves a b" using holdsD [OF cancel_all_evolves run(1)] by blast
  then have "0 < att_ref_count b" using assms by (simp add: evolves_def)
  moreover have "evolves (att_ref b) b2"
    using disconn_loop_evolves [OF evolves_refl run(2)] holdsD [OF unregister_all_evolves run(3)] by blast
  ultimately have "evolves b c" using ref_unref_evolves run(4) by blast
  with ab show "evolves a c" by (rule evolves_trans)
qed

end

section \<open>Runs\<close>

text \<open>The events of a connection, as the event loop delivers them.\<close>

inductive att_step :: "('c, 'e) att_host \<Rightarrow> ('c, 'e) bt_att \<Rightarrow> ('c, 'e) bt_att \<Rightarrow> bool" for H where
  called: "run_call H c a = Some b \<Longrightarrow> att_step H a b"
| writable: "writer_active a \<Longrightarrow> can_write_data H a = Some (again, b) \<Longrightarrow>
     att_step H a (if again then b else write_watch_destroy b)"
| readable: "att_io a \<Longrightarrow> can_read_data H a = Some (again, b) \<Longrightarrow> att_step H a b"
| timer: "timeout_cb H tid a = Some b \<Longrightarrow> att_step H a b"
| hung_up: "att_io a \<Longrightarrow> disconnect_cb H a = Some b \<Longrightarrow> att_step H a b"

inductive att_run :: "('c, 'e) att_host \<Rightarrow> ('c, 'e) bt_att \<Rightarrow> ('c, 'e) bt_att \<Rightarrow> bool" for H a where
  start: "att_run H a a"
| step: "att_run H a b \<Longrightarrow> att_step H b c \<Longrightarrow> att_run H a c"

context upper_layer
begin

lemma att_step_progresses: "att_step H a b \<Longrightarrow> att_ok a \<Longrightarrow> 0 < att_ref_count a \<Longrightarrow> progresses a b"
proof (induction rule: att_step.induct)
  case (called c a b)
  then show ?case using holdsD [OF run_call_evolves] evolves_progresses by blast
next
  case (writable a again b)
  have "progresses b (write_watch_destroy b)"
    by (rule evolves_progresses, rule evolves_same_queues) (simp_all add: write_watch_destroy_def)
  with holdsD [OF can_write_data_progresses writable(2)] writable.prems show ?case
    by (auto intro: progresses_trans)
next
  case (readable a again b)
  with holdsD [OF can_read_data_progresses readable(2)] show ?case by simp
next
  case (timer tid a b)
  then show ?case using holdsD [OF timeout_cb_progresses] by blast
next
  case (hung_up a b)
  then show ?case using holdsD [OF disconnect_cb_evolves] evolves_progresses by blast
qed

lemma att_run_progresses: "att_run H a b \<Longrightarrow> att_ok a \<Longrightarrow> 0 < att_ref_count a \<Longrightarrow> progresses a b"
proof (induction rule: att_run.induct)
  case (step b c)
  then have ab: "progresses a b" by blast
  then have "att_ok b" "0 < att_ref_count b" using step.prems by (auto simp: progresses_def)
  from progresses_trans [OF ab att_step_progresses [OF step.hyps(2) this]] show ?case .
qed simp

end

section \<open>The opcode tables\<close>

lemma get_req_opcode_pred: "get_req_opcode r \<noteq> 0 \<Longrightarrow> get_req_opcode r + 1 = r"
proof -
  have "\<forall>(r, q) \<in> set att_req_rsp_mapping_table. q + 1 = r" by code_simp
  then show "get_req_opcode r \<noteq> 0 \<Longrightarrow> get_req_opcode r + 1 = r"
    by (auto simp: get_req_opcode_def split: option.splits dest!: map_of_SomeD)
qed

lemma get_req_opcode_req:
  assumes "get_op_type q = ATT_OP_TYPE_REQ"
  shows "get_req_opcode (q + 1) = q" "q \<noteq> 0" "q + 1 \<noteq> 1" "\<not> bit q 7"
proof -
  have "\<forall>(q, t) \<in> set att_opcode_type_table. t = ATT_OP_TYPE_REQ \<longrightarrow> get_req_opcode (q + 1) = q \<and> q \<noteq> 0 \<and> q + 1 \<noteq> 1 \<and> \<not> bit q 7"
    by code_simp
  moreover have "(q, ATT_OP_TYPE_REQ) \<in> set att_opcode_type_table"
    using assms by (auto simp: get_op_type_def split: option.splits dest!: map_of_SomeD)
  ultimately show "get_req_opcode (q + 1) = q" "q \<noteq> 0" "q + 1 \<noteq> 1" "\<not> bit q 7" by auto
qed

lemma not_signed: "\<not> bit (q :: byte) 7 \<Longrightarrow> (ucast q :: u16) AND ATT_OP_SIGNED_MASK = 0"
proof -
  assume q: "\<not> bit q 7"
  have mask: "ATT_OP_SIGNED_MASK = push_bit 7 1" by (simp add: ATT_OP_SIGNED_MASK_def)
  have "\<not> bit ((ucast q :: u16) AND push_bit 7 1) n" for n
    using q by (auto simp only: bit_and_iff bit_push_bit_iff bit_unsigned_iff bit_1_iff dest!: le_antisym)
  then show ?thesis unfolding mask by (simp add: bit_eq_iff)
qed

text \<open>For a request of the bearer, the response that answers it is the one with the next opcode, and
  the error response that names it.\<close>

lemma rsp_matches_request:
  assumes "op_wf op" "op_type op = ATT_OP_TYPE_REQ" "op_opcode op = ucast q"
  shows "rsp_matches opcode pdu op \<longleftrightarrow>
    (if opcode = BT_ATT_OP_ERROR_RSP then length pdu = 4 \<and> pdu ! 0 = q else opcode = q + 1)"
proof -
  have down: "(ucast (ucast x :: u16) :: byte) = x" for x by (auto intro!: bit_word_eqI simp: bit_simps)
  have inj: "(ucast x :: u16) = ucast q \<longleftrightarrow> x = q" for x :: byte using down by metis
  have "get_op_type q = ATT_OP_TYPE_REQ" using assms down [of q] by (simp add: op_wf_def)
  note q = get_req_opcode_req [OF this]
  have "get_req_opcode opcode \<noteq> 0 \<and> get_req_opcode opcode = q \<longleftrightarrow> opcode = q + 1"
    using q get_req_opcode_pred [of opcode] by auto
  then show ?thesis using assms(3) by (simp add: rsp_matches_def inj)
qed

section \<open>A concrete host\<close>

text \<open>The environment holds the PDU to read next, and what was written.\<close>

record att_wire =
  wire_in :: bytes
  wire_out :: "bytes list"

definition wire_host :: "(nat, att_wire) att_host" where
  "wire_host =
     \<lparr>upper = \<lambda>ev a. Some a,
      host_send = \<lambda>p e. (int (length p), e\<lparr>wire_out := wire_out e @ [p]\<rparr>),
      host_set_write_handler = \<lambda>e. (True, e), host_shutdown = \<lambda>e. e, host_io_destroy = \<lambda>e. e,
      host_io_close_on_destroy = \<lambda>b e. (True, e), host_timeout_add = \<lambda>n i e. (1, e), host_timeout_remove = \<lambda>i e. e,
      host_counter = \<lambda>c n e. (Some 0, e), host_sign = \<lambda>k m n e. (Some (replicate 12 0), e),
      host_read = \<lambda>n e. (Some (take n (wire_in e)), e), host_so_error = \<lambda>e. Some 0, host_get_sec_level = \<lambda>e. Some 1,
      host_set_sec_level = \<lambda>l e. (True, e), host_is_l2cap = \<lambda>e. True, host_io_new = \<lambda>e. (True, e),
      host_crypto_new = \<lambda>e. (True, e), host_set_handlers = \<lambda>e. (True, e)\<rparr>"

definition fresh_bearer :: "bytes \<Rightarrow> (nat, att_wire) bt_att" where
  "fresh_bearer p = (new_bt_att 3 \<lparr>wire_in = p, wire_out = []\<rparr>)\<lparr>att_crypto := True, io_on_l2cap := True, att_ref_count := 1\<rparr>"

lemma fresh_bearer_new:
  "bt_att_new (scripted_host acts wire_host) 3 \<lparr>wire_in = p, wire_out = []\<rparr> = Some (Inr (fresh_bearer p))"
  by (simp add: bt_att_new_def scripted_host_def wire_host_def fresh_bearer_def Let_def att_ref_def) (simp add: new_bt_att_def)

lemma bt_att_new_ok: "bt_att_new H fd e = Some (Inr a) \<Longrightarrow> att_ok a \<and> att_ref_count a = 1 \<and> \<not> att_freed a"
  by (auto simp: bt_att_new_def new_bt_att_def att_ref_def att_ok_def Let_def bind_Some_iff split: prod.splits if_splits)

section \<open>Properties of the bearer\<close>


text \<open>Two reads are asked for, and the first is sent.\<close>

definition two_reads :: "nat att_call list" where
  "two_reads = [CallSend 0x0A (Some [1, 0]) 2 (Some 7) None, CallSend 0x0A (Some [2, 0]) 2 (Some 8) None]"

definition after_calls :: "(nat, att_wire) bt_att" where
  "after_calls = the (destroy_each (run_call wire_host) two_reads (fresh_bearer []))"

definition after_write :: "(nat, att_wire) bt_att" where
  "after_write = snd (the (can_write_data wire_host after_calls))"

lemma quiet_script: "scripted_host (\<lambda>_. []) wire_host = wire_host"
  by (simp add: scripted_host_def wire_host_def)

lemma two_reads_run: "att_run wire_host (fresh_bearer []) after_calls"
proof -
  have "run_call wire_host (two_reads ! 0) (fresh_bearer []) \<noteq> None \<and>
    run_call wire_host (two_reads ! 1) (the (run_call wire_host (two_reads ! 0) (fresh_bearer []))) = Some after_calls"
    by code_simp
  then obtain a where "run_call wire_host (two_reads ! 0) (fresh_bearer []) = Some a"
    "run_call wire_host (two_reads ! 1) a = Some after_calls" by auto
  then show ?thesis by (meson att_run.start att_run.step att_step.called)
qed

lemma write_run: "att_run wire_host after_calls after_write"
proof -
  have "writer_active after_calls \<and> can_write_data wire_host after_calls = Some (True, after_write)" by code_simp
  then have "att_step wire_host after_calls after_write" using att_step.writable [of after_calls wire_host True after_write] by simp
  then show ?thesis by (meson att_run.start att_run.step)
qed


text \<open>C11 The bearer is sequential: on every reachable bearer, a request is picked for sending only when no
  request is pending and no other PDU is ready, and it is then the oldest one; the same for
  indications. Every PDU that is picked starts with its opcode and has its recorded length.\<close>

theorem att_one_request_at_a_time:
  assumes "bt_att_new (scripted_host acts H) fd e = Some (Inr a)" "att_run (scripted_host acts H) a b"
    and "pick_next_send_op b = (Some op, b')"
  shows "(op_type op = ATT_OP_TYPE_REQ \<longrightarrow> pending_req b = None \<and> write_queue b = [] \<and> req_queue b = op # req_queue b') \<and>
    (op_type op = ATT_OP_TYPE_IND \<longrightarrow> pending_ind b = None \<and> write_queue b = [] \<and> ind_queue b = op # ind_queue b') \<and>
    op_wf op"
proof -
  have "att_ok b"
    using scripted.att_run_progresses [OF assms(2)] bt_att_new_ok [OF assms(1)] by (auto simp: progresses_def)
  from pick_next_request [OF assms(3) this] show ?thesis by auto
qed

theorem att_one_request_at_a_time_witness:
  "\<exists>op b. pick_next_send_op after_calls = (Some op, b) \<and> op_type op = ATT_OP_TYPE_REQ \<and> pending_req after_calls = None \<and>
     req_queue after_calls = op # req_queue b"
proof -
  have "(case pick_next_send_op after_calls of (Some op, b) \<Rightarrow> op_type op = ATT_OP_TYPE_REQ | _ \<Rightarrow> False)" by code_simp
  then obtain op b where "pick_next_send_op after_calls = (Some op, b)" "op_type op = ATT_OP_TYPE_REQ"
    by (auto split: prod.splits option.splits)
  then show ?thesis
    using att_one_request_at_a_time [of "\<lambda>_. []" wire_host, unfolded quiet_script,
        OF fresh_bearer_new [of "\<lambda>_. []", unfolded quiet_script] two_reads_run, of op b] by auto
qed

text \<open>C12 A response ends the pending request, whatever it is. The callback gets the response when it is
  the one with the opcode that follows the request's, or an error response that names the request;
  every other response is reported as an error without data.\<close>

theorem response_answers_pending_request:
  assumes "att_ok a" "pending_req a = Some op" "op_opcode op = ucast q"
  shows "handle_rsp H opcode pdu a =
    (let answers = (if opcode = BT_ATT_OP_ERROR_RSP then length pdu = 4 \<and> pdu ! 0 = q else opcode = q + 1) in do {
       b \<leftarrow> call_up H (\<lambda>c. if answers then Response c opcode (if pdu = [] then None else Some pdu)
                          else Response c BT_ATT_OP_ERROR_RSP None) (op_callback op) a;
       op' \<leftarrow> pending_req b;
       b \<leftarrow> destroy_att_send_op H op' b;
       Some (wakeup_writer H (b\<lparr>pending_req := None\<rparr>)) })"
proof -
  have "op_wf op" "op_type op = ATT_OP_TYPE_REQ" using assms(1,2) by (auto simp: att_ok_def)
  from rsp_matches_request [OF this assms(3), of opcode pdu] show ?thesis
    unfolding Let_def by (auto simp: handle_rsp_def assms(2) complete_req_def rsp_args_def)
qed

theorem response_answers_pending_request_witness:
  "\<exists>a op. pending_req a = Some op \<and> handle_rsp wire_host 0x0B [9] a =
     do { b \<leftarrow> call_up wire_host (\<lambda>c. Response c 0x0B (Some [9])) (op_callback op) a;
          op' \<leftarrow> pending_req b;
          b \<leftarrow> destroy_att_send_op wire_host op' b;
          Some (wakeup_writer wire_host (b\<lparr>pending_req := None\<rparr>)) }"
proof -
  have ok: "att_ok after_write"
    using scripted.att_run_progresses [of "\<lambda>_. []" wire_host, unfolded quiet_script, OF two_reads_run]
      scripted.att_run_progresses [of "\<lambda>_. []" wire_host, unfolded quiet_script, OF write_run]
      bt_att_new_ok [OF fresh_bearer_new [of "\<lambda>_. []", unfolded quiet_script]] by (simp add: progresses_def)
  have "(case pending_req after_write of Some op \<Rightarrow> op_opcode op = 0x0A | None \<Rightarrow> False)" by code_simp
  then obtain op where op: "pending_req after_write = Some op" "op_opcode op = ucast (0x0A :: byte)"
    by (auto split: option.splits)
  show ?thesis
    using response_answers_pending_request [OF ok op, of wire_host "0x0B" "[9]"] op(1)
    by (auto simp: BT_ATT_OP_ERROR_RSP_def)
qed

text \<open>The signature of a signed write is not compared: two PDUs that agree up to the signature and in
  its counter are treated alike, whatever the eight bytes of the signature proper.\<close>

theorem signature_is_not_compared:
  assumes "length mac = 8" "length mac' = 8" "1 < length body"
  shows "handle_signed H (body @ put_le32 cnt @ mac) a = handle_signed H (body @ put_le32 cnt @ mac') a"
  using assms by (cases "remote_sign a") (simp_all add: handle_signed_def BT_ATT_SIGNATURE_LEN_def codec_simps le32.get_put Let_def split: option.split prod.split)


lemma queue_op_member: "op \<in> set (req_queue (queue_op op a)) \<union> set (ind_queue (queue_op op a)) \<union> set (write_queue (queue_op op a))"
  by (cases "op_type op") (auto simp: queue_op_def)

lemma wakeup_queues [simp]:
  "req_queue (wakeup_writer H a) = req_queue a" "ind_queue (wakeup_writer H a) = ind_queue a"
  "write_queue (wakeup_writer H a) = write_queue a" "in_req (wakeup_writer H a) = in_req a"
  "pending_req (wakeup_writer H a) = pending_req a"
  by (auto simp: wakeup_writer_def split: prod.splits)

lemma signed_iff: "op_opcode op = ucast (opcode :: byte) \<Longrightarrow> is_signed op \<longleftrightarrow> bit opcode 7"
proof -
  have mask: "ATT_OP_SIGNED_MASK = push_bit 7 1" by (simp add: ATT_OP_SIGNED_MASK_def)
  have "bit ((ucast opcode :: u16) AND push_bit 7 1) 7 \<longleftrightarrow> bit opcode 7"
    by (simp only: bit_and_iff bit_push_bit_iff bit_unsigned_iff bit_1_iff) simp
  then show "op_opcode op = ucast opcode \<Longrightarrow> is_signed op \<longleftrightarrow> bit opcode 7"
    using not_signed [of opcode] unfolding is_signed_def mask by (metis bit_0_eq bot_apply bot_bool_def)
qed

theorem signature_is_not_compared_witness:
  "handle_signed wire_host ([1, 0, 5] @ put_le32 3 @ replicate 8 0) (fresh_bearer []) =
   handle_signed wire_host ([1, 0, 5] @ put_le32 3 @ replicate 8 0xFF) (fresh_bearer [])"
  by (rule signature_is_not_compared) simp_all

text \<open>C13 A PDU that is queued is the opcode and the data, and the signature when the command is signed and
  a key is set, never longer than the MTU.\<close>

theorem queued_pdu_fits:
  assumes "att_send H opcode (Some p) len cb d a = Some (i, b)" "i \<noteq> 0" "len \<noteq> 0"
  shows "\<exists>op sig. op \<in> set (req_queue b) \<union> set (ind_queue b) \<union> set (write_queue b) \<and> op_id op = i \<and>
    op_pdu op = opcode # take (unat len) p @ sig \<and> unat len \<le> length p \<and>
    length sig = (if local_sign a \<noteq> None \<and> bit opcode 7 then 12 else 0) \<and>
    length (op_pdu op) \<le> unat (att_mtu a)"
proof -
  from assms(1,2) obtain op a1 where c: "create_att_send_op H opcode (Some p) len cb d a = Some (Some op, a1)"
    "i = fresh_id (next_send_id a1)" "b = wakeup_writer H (queue_op (op\<lparr>op_id := i\<rparr>) (a1\<lparr>next_send_id := i + 1\<rparr>))"
    by (auto simp: att_send_def bind_Some_iff Let_def split: if_splits option.splits)
  let ?op = "\<lparr>op_id = 0, op_timeout_id = 0, op_type = get_op_type opcode, op_opcode = ucast opcode, op_pdu = [], op_len = 0,
    op_callback = cb, op_destroy = d\<rparr>"
  have enc: "encode_pdu H ?op (Some p) len a = Some (Some op, a1)"
    using c(1) by (auto simp: create_att_send_op_def Let_def split: if_splits)
  have down: "(ucast (ucast opcode :: u16) :: byte) = opcode" by (auto intro!: bit_word_eqI simp: bit_simps)
  from encode_pdu_result(1) [OF enc] obtain body sig where e: "op_pdu op = opcode # body @ sig"
    "pdu_body (Some p) len = Some body" "length sig = (if local_sign a \<noteq> None \<and> is_signed ?op then 12 else 0)"
    "unat (op_len op) = length (op_pdu op)" "op_len op \<le> att_mtu a"
    using assms(3) down by auto
  have "is_signed ?op \<longleftrightarrow> bit opcode 7" by (rule signed_iff) simp
  moreover have "op\<lparr>op_id := i\<rparr> \<in> set (req_queue b) \<union> set (ind_queue b) \<union> set (write_queue b)"
    unfolding c(3) wakeup_queues by (rule queue_op_member)
  ultimately show ?thesis
    using e by (intro exI [of _ "op\<lparr>op_id := i\<rparr>"] exI [of _ sig])
      (auto simp: pdu_body_def array_slice_eq_Some word_le_nat_alt)
qed

theorem queued_pdu_fits_witness:
  "\<exists>i b. att_send wire_host 0x52 (Some [1, 0, 5]) 3 None None (fresh_bearer []) = Some (i, b) \<and>
     (\<exists>op \<in> set (req_queue b) \<union> set (ind_queue b) \<union> set (write_queue b). op_id op = i \<and> op_pdu op = [0x52, 1, 0, 5])"
proof -
  have "(case att_send wire_host 0x52 (Some [1, 0, 5]) 3 None None (fresh_bearer []) of Some (i, b) \<Rightarrow> i \<noteq> 0 | None \<Rightarrow> False)"
    by code_simp
  then obtain i b where run: "att_send wire_host 0x52 (Some [1, 0, 5]) 3 None None (fresh_bearer []) = Some (i, b)" "i \<noteq> 0"
    by (auto split: option.splits)
  have "local_sign (fresh_bearer []) = None" by (simp add: fresh_bearer_def new_bt_att_def)
  then show ?thesis using queued_pdu_fits [OF run] run(1) by auto
qed

text \<open>Data of 65535 bytes makes the length of an unsigned PDU wrap to 0; the length check passes and the
  opcode is written behind an empty buffer.\<close>

theorem longest_data_overflows:
  assumes "att_io a" "get_op_type opcode \<noteq> ATT_OP_TYPE_UNKNOWN" "cb \<noteq> None \<longleftrightarrow> elicits_response (get_op_type opcode)"
    and "local_sign a = None"
  shows "att_send H opcode (Some p) 65535 cb d a = None"
proof -
  have "pdu_length False (Some p) 65535 = 0"
    by (rule word_unat_eq_iff [THEN iffD2]) (subst unat_pdu_length(1), simp)
  then have "encode_pdu H op (Some p) 65535 a = None" for op
    using assms(4) by (simp add: encode_pdu_def Let_def)
  then show ?thesis
    using assms(1-3) by (auto simp: att_send_def create_att_send_op_def Let_def)
qed

theorem longest_data_overflows_witness:
  "att_send wire_host 0x52 (Some (replicate 65535 0)) 65535 None None (fresh_bearer []) = None"
proof -
  have "get_op_type 0x52 = ATT_OP_TYPE_CMD" by code_simp
  then show ?thesis
    by (intro longest_data_overflows) (simp_all add: elicits_response_def fresh_bearer_def new_bt_att_def)
qed

text \<open>While handlers are notified of a PDU, the next registration is remembered before a handler runs. A
  handler that unregisters the next one while others are left makes the loop read freed memory.\<close>

theorem unregistering_next_handler_is_use_after_free:
  assumes "notify_list a = (p, nt) # (q, nt') # rest" "p \<noteq> q" "opcode_match (ucast (nt_opcode nt)) opcode"
    and "call_up H (\<lambda>c. Notified c opcode pdu) (nt_callback nt) (att_ref a) = Some b"
    and "notify_list b \<noteq> []" "map_of (notify_list b) q = None"
  shows "notify_handlers H opcode pdu a = None"
proof -
  have "notify_loop H opcode pdu True (Some q) b = None"
    using assms(6) by (subst notify_loop.simps) simp
  then have "notify_loop H opcode pdu False (Some p) (att_ref a) = None"
    using assms(1-5) by (subst notify_loop.simps) (simp add: att_ref_def)
  then show ?thesis
    using assms(1) by (simp add: notify_handlers_def first_entry_def att_ref_def)
qed

text \<open>Three handlers for notifications, of which the first unregisters the second.\<close>

definition meddling_host :: "(nat, att_wire) att_host" where
  "meddling_host = scripted_host (\<lambda>ev. case ev of Notified c _ _ \<Rightarrow> if c = 1 then [CallUnregister 2] else [] | _ \<Rightarrow> []) wire_host"

definition three_handlers :: "(nat, att_wire) bt_att" where
  "three_handlers = the (destroy_each (run_call meddling_host)
     [CallRegister 0x1B (Some 1) None, CallRegister 0x1B (Some 2) None, CallRegister 0x1B (Some 3) None] (fresh_bearer []))"

theorem unregistering_next_handler_is_use_after_free_witness:
  "notify_handlers meddling_host 0x1B [1, 0, 5] three_handlers = None"
proof -
  let ?nt = "\<lambda>c. \<lparr>nt_id = word_of_nat c, nt_opcode = 0x1B, nt_callback = Some c, nt_destroy = None\<rparr>"
  have list: "notify_list three_handlers = [(0, ?nt 1), (1, ?nt 2), (2, ?nt 3)]" by code_simp
  have "opcode_match 0x1B 0x1B" by code_simp
  moreover have "(case call_up meddling_host (\<lambda>c. Notified c 0x1B [1, 0, 5]) (Some 1) (att_ref three_handlers) of
      Some b \<Rightarrow> notify_list b \<noteq> [] \<and> map_of (notify_list b) 1 = None | None \<Rightarrow> False)"
    by code_simp
  then obtain b where "call_up meddling_host (\<lambda>c. Notified c 0x1B [1, 0, 5]) (Some 1) (att_ref three_handlers) = Some b"
    "notify_list b \<noteq> []" "map_of (notify_list b) 1 = None"
    by (auto split: option.splits)
  ultimately show ?thesis
    using unregistering_next_handler_is_use_after_free [OF list, of "0x1B" meddling_host "[1, 0, 5]" b] by simp
qed

text \<open>A request that no handler is registered for is answered with an error response that names it,
  and until that response is sent the bearer remembers that a request is being answered.\<close>

theorem unhandled_request_is_refused:
  assumes "get_op_type opcode = ATT_OP_TYPE_REQ" "\<not> in_req a" "notify_list a = []" "att_io a" "\<not> att_freed a"
    and "5 \<le> unat (att_mtu a)" "0 < att_ref_count a"
  shows "\<exists>b i. handle_pdu H opcode pdu a = Some (True, b) \<and> in_req b \<and>
    write_queue b = write_queue a @ [\<lparr>op_id = i, op_timeout_id = 0, op_type = ATT_OP_TYPE_RSP, op_opcode = 1,
      op_pdu = [BT_ATT_OP_ERROR_RSP, opcode, 0, 0, BT_ATT_ERROR_REQUEST_NOT_SUPPORTED], op_len = 5,
      op_callback = None, op_destroy = None\<rparr>]"
proof -
  let ?a = "att_ref (a\<lparr>in_req := True\<rparr>)"
  let ?op = "\<lparr>op_id = 0, op_timeout_id = 0, op_type = ATT_OP_TYPE_RSP, op_opcode = 1,
      op_pdu = [BT_ATT_OP_ERROR_RSP, opcode, 0, 0, BT_ATT_ERROR_REQUEST_NOT_SUPPORTED], op_len = 5,
      op_callback = None, op_destroy = None\<rparr>"
  have ty: "get_op_type BT_ATT_OP_ERROR_RSP = ATT_OP_TYPE_RSP" by code_simp
  have len: "pdu_length False (Some r) 4 = 5" for r by (simp add: pdu_length_def)
  have m: "\<not> att_mtu a < 5" using assms(6) by (simp add: word_less_nat_alt)
  have "create_att_send_op H BT_ATT_OP_ERROR_RSP (Some [opcode, 0, 0, BT_ATT_ERROR_REQUEST_NOT_SUPPORTED]) 4 None None ?a =
      Some (Some ?op, ?a)"
    using m by (auto simp: create_att_send_op_def ty [unfolded BT_ATT_OP_ERROR_RSP_def] elicits_response_def encode_pdu_def is_signed_def ATT_OP_SIGNED_MASK_def
        len pdu_body_def array_slice_def Let_def BT_ATT_OP_ERROR_RSP_def att_ref_def split: option.split)
  then obtain i where i: "respond_not_supported H opcode ?a =
      Some (wakeup_writer H (queue_op (?op\<lparr>op_id := i\<rparr>) (?a\<lparr>next_send_id := i + 1\<rparr>)))"
    using assms(4) by (simp add: respond_not_supported_def att_send_def Let_def att_ref_def)
  let ?b = "wakeup_writer H (queue_op (?op\<lparr>op_id := i\<rparr>) (?a\<lparr>next_send_id := i + 1\<rparr>))"
  have "att_ref_count ?b = att_ref_count a + 1" "\<not> att_freed ?b"
    using assms(5) by (auto simp: queue_op_def wakeup_writer_def att_ref_def split: prod.splits)
  then have unref: "att_unref H ?b = Some (?b\<lparr>att_ref_count := att_ref_count a\<rparr>)"
    using assms(7) by (simp add: att_unref_def alive_def)
  have "notify_loop H opcode pdu False None ?a = Some (False, ?a)" by (subst notify_loop.simps) simp
  then have "notify_handlers H opcode pdu (a\<lparr>in_req := True\<rparr>) = Some (?b\<lparr>att_ref_count := att_ref_count a\<rparr>)"
    using assms(1,3) i unref by (simp add: notify_handlers_def first_entry_def att_ref_def Let_def)
  moreover have "(ucast opcode :: u16) AND ATT_OP_SIGNED_MASK = 0"
    by (rule not_signed) (rule get_req_opcode_req [OF assms(1)])
  ultimately have "handle_pdu H opcode pdu a = Some (True, ?b\<lparr>att_ref_count := att_ref_count a\<rparr>)"
    using assms(1,2) by (simp add: handle_pdu_def handle_notify_def)
  moreover have "in_req ?b" by (simp add: queue_op_def att_ref_def)
  moreover have "write_queue ?b = write_queue a @ [?op\<lparr>op_id := i\<rparr>]" by (simp add: queue_op_def att_ref_def)
  ultimately show ?thesis by (intro exI [of _ "?b\<lparr>att_ref_count := att_ref_count a\<rparr>"] exI [of _ i]) simp
qed

theorem unhandled_request_is_refused_witness:
  "\<exists>b i. handle_pdu wire_host 0x0A [1, 0] (fresh_bearer []) = Some (True, b) \<and> in_req b \<and>
    write_queue b = write_queue (fresh_bearer []) @ [\<lparr>op_id = i, op_timeout_id = 0, op_type = ATT_OP_TYPE_RSP, op_opcode = 1,
      op_pdu = [BT_ATT_OP_ERROR_RSP, 0x0A, 0, 0, BT_ATT_ERROR_REQUEST_NOT_SUPPORTED], op_len = 5,
      op_callback = None, op_destroy = None\<rparr>]"
proof -
  have "get_op_type 0x0A = ATT_OP_TYPE_REQ" by code_simp
  then show ?thesis
    by (rule unhandled_request_is_refused) (simp_all add: fresh_bearer_def new_bt_att_def ATT_DEFAULT_LE_MTU_def)
qed

end
