(* ===== verification/Crypto.thy ===== *)
theory Crypto
  imports Nrf_Prelude "HOL-Library.Multiset"
begin

text \<open>
  \<^verbatim>\<open>bluez/crypto.c\<close>: the pairing and signing functions of Bluetooth over the AES sockets of the
  kernel. The kernel is a parameter, the \<open>alg_kernel\<close>: what each system call returns in its current
  state. The model keeps the descriptors the file has opened and not closed, so that a leak is
  visible, and the contents of local arrays, so that bytes that were never written are visible.
  \<open>serves\<close> states what an AES socket is documented to do; the lemmas show that over such sockets
  the functions compute what the comments of the file and the Bluetooth specification say.
\<close>

section \<open>The kernel\<close>

text \<open>
  A call that returns a descriptor or a status returns an \<open>int\<close>, negative for an error. Reading
  returns the bytes it wrote to the buffer, or \<open>None\<close> for an error. The operation of
  \<^verbatim>\<open>ALG_SET_OP\<close> in the control message of \<^verbatim>\<open>sendmsg\<close> is the option of \<open>k_send\<close>; \<open>k_stack\<close> is what
  the stack holds where an array is not initialised.
\<close>

record 'e alg_kernel =
  k_alloc :: "'e \<Rightarrow> bool"
  k_open :: "string \<Rightarrow> 'e \<Rightarrow> int \<times> 'e"
  k_socket :: "'e \<Rightarrow> int \<times> 'e"
  k_bind :: "int \<Rightarrow> string \<Rightarrow> string \<Rightarrow> 'e \<Rightarrow> int \<times> 'e"
  k_setkey :: "int \<Rightarrow> bytes \<Rightarrow> 'e \<Rightarrow> int \<times> 'e"
  k_accept :: "int \<Rightarrow> 'e \<Rightarrow> int \<times> 'e"
  k_send :: "int \<Rightarrow> u32 option \<Rightarrow> bytes \<Rightarrow> 'e \<Rightarrow> int \<times> 'e"
  k_read :: "int \<Rightarrow> nat \<Rightarrow> 'e \<Rightarrow> bytes option \<times> 'e"
  k_close :: "int \<Rightarrow> 'e \<Rightarrow> 'e"
  k_stack :: "'e \<Rightarrow> nat \<Rightarrow> byte"

text \<open>The state of the kernel and the descriptors this file holds open.\<close>

record 'e alg_world =
  kern :: 'e
  fds :: "int list"

definition sys :: "('e \<Rightarrow> 'r \<times> 'e) \<Rightarrow> 'e alg_world \<Rightarrow> 'r \<times> 'e alg_world" where
  "sys f w = (let (r, e) = f (kern w) in (r, w\<lparr>kern := e\<rparr>))"

definition open_fd :: "('e \<Rightarrow> int \<times> 'e) \<Rightarrow> 'e alg_world \<Rightarrow> int \<times> 'e alg_world" where
  "open_fd f w = (let (fd, e) = f (kern w) in
     (fd, w\<lparr>kern := e, fds := (if fd < 0 then fds w else fd # fds w)\<rparr>))"

definition close_fd :: "'e alg_kernel \<Rightarrow> int \<Rightarrow> 'e alg_world \<Rightarrow> 'e alg_world" where
  "close_fd K fd w = w\<lparr>kern := k_close K fd (kern w), fds := remove1 fd (fds w)\<rparr>"

definition uninit :: "'e alg_kernel \<Rightarrow> 'e alg_world \<Rightarrow> nat \<Rightarrow> bytes" where
  "uninit K w n = map (k_stack K (kern w)) [0..<n]"

lemma length_uninit [simp]: "length (uninit K w n) = n"
  by (simp add: uninit_def)

lemma sys_fds: "sys f w = (r, w') \<Longrightarrow> fds w' = fds w"
  by (auto simp: sys_def split: prod.splits)

section \<open>Byte arrays\<close>

definition memcpy :: "bytes \<Rightarrow> nat \<Rightarrow> bytes \<Rightarrow> nat \<Rightarrow> bytes option" where
  "memcpy dst i src n = (if i + n \<le> length dst \<and> n \<le> length src
     then Some (take i dst @ take n src @ drop (i + n) dst) else None)"

function swap_loop :: "bytes \<Rightarrow> bytes \<Rightarrow> nat \<Rightarrow> nat \<Rightarrow> bytes option" where
  "swap_loop src dst len i =
     (if i < len then do {
        b \<leftarrow> array_get src i;
        dst \<leftarrow> array_set dst (len - 1 - i) b;
        swap_loop src dst len (Suc i) }
      else Some dst)"
  by pat_completeness auto
termination by (relation "measure (\<lambda>(src, dst, len, i). len - i)") auto

declare swap_loop.simps [simp del]

definition swap_buf :: "bytes \<Rightarrow> bytes \<Rightarrow> nat \<Rightarrow> bytes option" where
  "swap_buf src dst len = swap_loop src dst len 0"

text \<open>What \<^verbatim>\<open>read(fd, buf, n)\<close> leaves in the buffer.\<close>

definition filled :: "bytes \<Rightarrow> nat \<Rightarrow> bytes \<Rightarrow> bytes" where
  "filled buf n bs = take n bs @ drop (min n (length bs)) buf"

section \<open>The object\<close>

record bt_crypto =
  ref_count :: int
  ecb_aes :: int
  urandom :: int
  cmac_aes :: int

definition urandom_setup :: "'e alg_kernel \<Rightarrow> 'e alg_world \<Rightarrow> int \<times> 'e alg_world" where
  "urandom_setup K w =
     (let (fd, w) = open_fd (k_open K ''/dev/urandom'') w in
      if fd < 0 then (-1, w) else (fd, w))"

definition ecb_aes_setup :: "'e alg_kernel \<Rightarrow> 'e alg_world \<Rightarrow> int \<times> 'e alg_world" where
  "ecb_aes_setup K w =
     (let (fd, w) = open_fd (k_socket K) w in
      if fd < 0 then (-1, w)
      else let (r, w) = sys (k_bind K fd ''skcipher'' ''ecb(aes)'') w in
      if r < 0 then (-1, close_fd K fd w) else (fd, w))"

definition cmac_aes_setup :: "'e alg_kernel \<Rightarrow> 'e alg_world \<Rightarrow> int \<times> 'e alg_world" where
  "cmac_aes_setup K w =
     (let (fd, w) = open_fd (k_socket K) w in
      if fd < 0 then (-1, w)
      else let (r, w) = sys (k_bind K fd ''hash'' ''cmac(aes)'') w in
      if r < 0 then (-1, close_fd K fd w) else (fd, w))"

text \<open>A \<^verbatim>\<open>struct bt_crypto *\<close> is \<open>None\<close> for a null pointer and for an object that was freed.\<close>

definition bt_crypto_ref :: "bt_crypto option \<Rightarrow> bt_crypto option" where
  "bt_crypto_ref crypto = map_option (ref_count_update (\<lambda>n. n + 1)) crypto"

definition bt_crypto_new :: "'e alg_kernel \<Rightarrow> 'e alg_world \<Rightarrow> bt_crypto option \<times> 'e alg_world" where
  "bt_crypto_new K w =
     (if \<not> k_alloc K (kern w) then (None, w)
      else let (ecb, w) = ecb_aes_setup K w in
      if ecb < 0 then (None, w)
      else let (ur, w) = urandom_setup K w in
      if ur < 0 then (None, close_fd K ecb w)
      else let (cmac, w) = cmac_aes_setup K w in
      if cmac < 0 then (None, close_fd K ecb (close_fd K ur w))
      else (bt_crypto_ref (Some \<lparr>ref_count = 0, ecb_aes = ecb, urandom = ur, cmac_aes = cmac\<rparr>), w))"

definition bt_crypto_unref :: "'e alg_kernel \<Rightarrow> bt_crypto option \<Rightarrow> 'e alg_world \<Rightarrow> bt_crypto option \<times> 'e alg_world" where
  "bt_crypto_unref K crypto w =
     (case crypto of None \<Rightarrow> (None, w)
      | Some c \<Rightarrow>
          let c = c\<lparr>ref_count := ref_count c - 1\<rparr> in
          if ref_count c \<noteq> 0 then (Some c, w)
          else (None, close_fd K (cmac_aes c) (close_fd K (ecb_aes c) (close_fd K (urandom c) w))))"

text \<open>The functions below return their result, the array they write to and the world.\<close>

definition bt_crypto_random_bytes ::
  "'e alg_kernel \<Rightarrow> bt_crypto option \<Rightarrow> bytes \<Rightarrow> byte \<Rightarrow> 'e alg_world \<Rightarrow> (bool \<times> bytes \<times> 'e alg_world) option" where
  "bt_crypto_random_bytes K crypto buf num_bytes w =
     (case crypto of None \<Rightarrow> Some (False, buf, w)
      | Some c \<Rightarrow>
          let n = unat num_bytes in
          if length buf < n then None
          else case sys (k_read K (urandom c) n) w of
            (None, w) \<Rightarrow> Some (False, buf, w)
          | (Some bs, w) \<Rightarrow> Some (n \<le> length bs, filled buf n bs, w))"

section \<open>AES sockets\<close>

definition ALG_OP_ENCRYPT :: u32 where "ALG_OP_ENCRYPT = 1"
definition CMAC_MSG_MAX :: nat where "CMAC_MSG_MAX = 80"

definition alg_new :: "'e alg_kernel \<Rightarrow> int \<Rightarrow> bytes \<Rightarrow> 'e alg_world \<Rightarrow> int \<times> 'e alg_world" where
  "alg_new K fd keyval w =
     (let (r, w) = sys (k_setkey K fd keyval) w in
      if r < 0 then (-1, w) else open_fd (k_accept K fd) w)"

definition alg_encrypt ::
  "'e alg_kernel \<Rightarrow> int \<Rightarrow> bytes \<Rightarrow> bytes \<Rightarrow> nat \<Rightarrow> 'e alg_world \<Rightarrow> bool \<times> bytes \<times> 'e alg_world" where
  "alg_encrypt K fd inbuf outbuf outlen w =
     (let (len, w) = sys (k_send K fd (Some ALG_OP_ENCRYPT) inbuf) w in
      if len < 0 then (False, outbuf, w)
      else case sys (k_read K fd outlen) w of
        (None, w) \<Rightarrow> (False, outbuf, w)
      | (Some bs, w) \<Rightarrow> (True, filled outbuf outlen bs, w))"

section \<open>Signing, encryption and the pairing functions\<close>

text \<open>\<^verbatim>\<open>m_len\<close> is the \<^verbatim>\<open>uint16_t\<close> parameter, and the length of the message wraps at that width.\<close>

definition bt_crypto_sign_att ::
  "'e alg_kernel \<Rightarrow> bt_crypto option \<Rightarrow> bytes \<Rightarrow> bytes \<Rightarrow> u16 \<Rightarrow> u32 \<Rightarrow> bytes \<Rightarrow> 'e alg_world \<Rightarrow>
     (bool \<times> bytes \<times> 'e alg_world) option" where
  "bt_crypto_sign_att K crypto key m m_len sign_cnt signature w =
     (let msg_len = unat (m_len + 4);
          tmp = uninit K w 16; out = uninit K w 16; msg_s = uninit K w msg_len in
      case crypto of None \<Rightarrow> Some (False, signature, w)
      | Some c \<Rightarrow> do {
          msg \<leftarrow> memcpy (replicate msg_len 0) 0 m (unat m_len);
          msg \<leftarrow> memcpy msg (unat m_len) (put_le32 sign_cnt) 4;
          tmp \<leftarrow> swap_buf key tmp 16;
          let (fd, w) = alg_new K (cmac_aes c) tmp w;
          if fd < 0 then Some (False, signature, w)
          else do {
            msg_s \<leftarrow> swap_buf msg msg_s msg_len;
            let (len, w) = sys (k_send K fd None msg_s) w;
            if len < 0 then Some (False, signature, close_fd K fd w)
            else case sys (k_read K fd 16) w of
              (None, w) \<Rightarrow> Some (False, signature, close_fd K fd w)
            | (Some bs, w) \<Rightarrow> do {
                let w = close_fd K fd w;
                out \<leftarrow> memcpy (filled out 16 bs) 8 (put_be32 sign_cnt) 4;
                tmp \<leftarrow> swap_buf out tmp 16;
                signature \<leftarrow> memcpy signature 0 (drop 4 tmp) 12;
                Some (True, signature, w) } } })"

definition bt_crypto_e ::
  "'e alg_kernel \<Rightarrow> bt_crypto option \<Rightarrow> bytes \<Rightarrow> bytes \<Rightarrow> bytes \<Rightarrow> 'e alg_world \<Rightarrow>
     (bool \<times> bytes \<times> 'e alg_world) option" where
  "bt_crypto_e K crypto key plaintext encrypted w =
     (case crypto of None \<Rightarrow> Some (False, encrypted, w)
      | Some c \<Rightarrow> do {
          tmp \<leftarrow> swap_buf key (uninit K w 16) 16;
          let out = uninit K w 16;
          let inp = uninit K w 16;
          let (fd, w) = alg_new K (ecb_aes c) tmp w;
          if fd < 0 then Some (False, encrypted, w)
          else do {
            inp \<leftarrow> swap_buf plaintext inp 16;
            let (ok, out, w) = alg_encrypt K fd inp out 16 w;
            if \<not> ok then Some (False, encrypted, close_fd K fd w)
            else do {
              encrypted \<leftarrow> swap_buf out encrypted 16;
              Some (True, encrypted, close_fd K fd w) } } })"

definition bt_crypto_ah ::
  "'e alg_kernel \<Rightarrow> bt_crypto option \<Rightarrow> bytes \<Rightarrow> bytes \<Rightarrow> bytes \<Rightarrow> 'e alg_world \<Rightarrow>
     (bool \<times> bytes \<times> 'e alg_world) option" where
  "bt_crypto_ah K crypto k r hash w =
     (case crypto of None \<Rightarrow> Some (False, hash, w)
      | Some _ \<Rightarrow> do {
          rp \<leftarrow> memcpy (uninit K w 16) 0 r 3;
          rp \<leftarrow> memcpy rp 3 (replicate 13 0) 13;
          (ok, encrypted, w) \<leftarrow> bt_crypto_e K crypto k rp (uninit K w 16) w;
          if \<not> ok then Some (False, hash, w)
          else do { hash \<leftarrow> memcpy hash 0 encrypted 3; Some (True, hash, w) } })"

text \<open>Two 64-bit exclusive ors: byte for byte on every host.\<close>

definition u128_xor :: "bytes \<Rightarrow> bytes \<Rightarrow> bytes \<Rightarrow> bytes option" where
  "u128_xor p q r = do {
     p \<leftarrow> array_slice p 0 16;
     q \<leftarrow> array_slice q 0 16;
     memcpy r 0 (map2 (XOR) p q) 16 }"

definition bt_crypto_c1 ::
  "'e alg_kernel \<Rightarrow> bt_crypto option \<Rightarrow> bytes \<Rightarrow> bytes \<Rightarrow> bytes \<Rightarrow> bytes \<Rightarrow> byte \<Rightarrow> bytes \<Rightarrow> byte \<Rightarrow> bytes \<Rightarrow>
     bytes \<Rightarrow> 'e alg_world \<Rightarrow> (bool \<times> bytes \<times> 'e alg_world) option" where
  "bt_crypto_c1 K crypto k r pres preq iat ia rat ra res w = do {
     p1 \<leftarrow> array_set (uninit K w 16) 0 iat;
     p1 \<leftarrow> array_set p1 1 rat;
     p1 \<leftarrow> memcpy p1 2 preq 7;
     p1 \<leftarrow> memcpy p1 9 pres 7;
     p2 \<leftarrow> memcpy (uninit K w 16) 0 ra 6;
     p2 \<leftarrow> memcpy p2 6 ia 6;
     p2 \<leftarrow> memcpy p2 12 (replicate 4 0) 4;
     res \<leftarrow> u128_xor r p1 res;
     (ok, res, w) \<leftarrow> bt_crypto_e K crypto k res res w;
     if \<not> ok then Some (False, res, w)
     else do {
       res \<leftarrow> u128_xor res p2 res;
       bt_crypto_e K crypto k res res w } }"

definition bt_crypto_s1 ::
  "'e alg_kernel \<Rightarrow> bt_crypto option \<Rightarrow> bytes \<Rightarrow> bytes \<Rightarrow> bytes \<Rightarrow> bytes \<Rightarrow> 'e alg_world \<Rightarrow>
     (bool \<times> bytes \<times> 'e alg_world) option" where
  "bt_crypto_s1 K crypto k r1 r2 res w = do {
     res \<leftarrow> memcpy res 0 r2 8;
     res \<leftarrow> memcpy res 8 r1 8;
     bt_crypto_e K crypto k res res w }"

text \<open>\<^verbatim>\<open>aes_cmac\<close> reads the object without testing the pointer.\<close>

definition aes_cmac ::
  "'e alg_kernel \<Rightarrow> bt_crypto option \<Rightarrow> bytes \<Rightarrow> bytes \<Rightarrow> nat \<Rightarrow> bytes \<Rightarrow> 'e alg_world \<Rightarrow>
     (bool \<times> bytes \<times> 'e alg_world) option" where
  "aes_cmac K crypto key msg msg_len res w =
     (let out = uninit K w 16; msg_msb = uninit K w CMAC_MSG_MAX in
      if CMAC_MSG_MAX < msg_len then Some (False, res, w)
      else do {
        key_msb \<leftarrow> swap_buf key (uninit K w 16) 16;
        c \<leftarrow> crypto;
        let (fd, w) = alg_new K (cmac_aes c) key_msb w;
        if fd < 0 then Some (False, res, w)
        else do {
          msg_msb \<leftarrow> swap_buf msg msg_msb msg_len;
          let (len, w) = sys (k_send K fd None (take msg_len msg_msb)) w;
          if len < 0 then Some (False, res, close_fd K fd w)
          else case sys (k_read K fd 16) w of
            (None, w) \<Rightarrow> Some (False, res, close_fd K fd w)
          | (Some bs, w) \<Rightarrow> do {
              res \<leftarrow> swap_buf (filled out 16 bs) res 16;
              Some (True, res, close_fd K fd w) } } })"

definition bt_crypto_f4 ::
  "'e alg_kernel \<Rightarrow> bt_crypto option \<Rightarrow> bytes \<Rightarrow> bytes \<Rightarrow> bytes \<Rightarrow> byte \<Rightarrow> bytes \<Rightarrow> 'e alg_world \<Rightarrow>
     (bool \<times> bytes \<times> 'e alg_world) option" where
  "bt_crypto_f4 K crypto u v x z res w =
     (case crypto of None \<Rightarrow> Some (False, res, w)
      | Some _ \<Rightarrow> do {
          m \<leftarrow> array_set (uninit K w 65) 0 z;
          m \<leftarrow> memcpy m 1 v 32;
          m \<leftarrow> memcpy m 33 u 32;
          aes_cmac K crypto x m 65 res w })"

definition f5_salt :: bytes where
  "f5_salt = [0xbe, 0x83, 0x60, 0x5a, 0xdb, 0x0b, 0x37, 0x60, 0x38, 0xa5, 0xf5, 0xaa, 0x91, 0x83, 0x88, 0x6c]"

definition f5_btle :: bytes where "f5_btle = [0x65, 0x6c, 0x74, 0x62]"

text \<open>The result, \<^verbatim>\<open>mackey\<close>, \<^verbatim>\<open>ltk\<close> and the world.\<close>

definition bt_crypto_f5 ::
  "'e alg_kernel \<Rightarrow> bt_crypto option \<Rightarrow> bytes \<Rightarrow> bytes \<Rightarrow> bytes \<Rightarrow> bytes \<Rightarrow> bytes \<Rightarrow> bytes \<Rightarrow> bytes \<Rightarrow> 'e alg_world \<Rightarrow>
     (bool \<times> bytes \<times> bytes \<times> 'e alg_world) option" where
  "bt_crypto_f5 K crypto wk n1 n2 a1 a2 mackey ltk w = do {
     let m = uninit K w 53;
     (ok, t, w) \<leftarrow> aes_cmac K crypto f5_salt wk 32 (uninit K w 16) w;
     if \<not> ok then Some (False, mackey, ltk, w)
     else do {
       m \<leftarrow> memcpy m 0 [0x00, 0x01] 2;
       m \<leftarrow> memcpy m 2 a2 7;
       m \<leftarrow> memcpy m 9 a1 7;
       m \<leftarrow> memcpy m 16 n2 16;
       m \<leftarrow> memcpy m 32 n1 16;
       m \<leftarrow> memcpy m 48 f5_btle 4;
       m \<leftarrow> array_set m 52 0;
       (ok, mackey, w) \<leftarrow> aes_cmac K crypto t m 53 mackey w;
       if \<not> ok then Some (False, mackey, ltk, w)
       else do {
         m \<leftarrow> array_set m 52 1;
         (ok, ltk, w) \<leftarrow> aes_cmac K crypto t m 53 ltk w;
         Some (ok, mackey, ltk, w) } } }"

definition bt_crypto_f6 ::
  "'e alg_kernel \<Rightarrow> bt_crypto option \<Rightarrow> bytes \<Rightarrow> bytes \<Rightarrow> bytes \<Rightarrow> bytes \<Rightarrow> bytes \<Rightarrow> bytes \<Rightarrow> bytes \<Rightarrow> bytes \<Rightarrow>
     'e alg_world \<Rightarrow> (bool \<times> bytes \<times> 'e alg_world) option" where
  "bt_crypto_f6 K crypto wk n1 n2 r io_cap a1 a2 res w = do {
     m \<leftarrow> memcpy (uninit K w 65) 0 a2 7;
     m \<leftarrow> memcpy m 7 a1 7;
     m \<leftarrow> memcpy m 14 io_cap 3;
     m \<leftarrow> memcpy m 17 r 16;
     m \<leftarrow> memcpy m 33 n2 16;
     m \<leftarrow> memcpy m 49 n1 16;
     aes_cmac K crypto wk m 65 res w }"

text \<open>The result, the number that is compared, and the world.\<close>

definition bt_crypto_g2 ::
  "'e alg_kernel \<Rightarrow> bt_crypto option \<Rightarrow> bytes \<Rightarrow> bytes \<Rightarrow> bytes \<Rightarrow> bytes \<Rightarrow> u32 \<Rightarrow> 'e alg_world \<Rightarrow>
     (bool \<times> u32 \<times> 'e alg_world) option" where
  "bt_crypto_g2 K crypto u v x y val w = do {
     m \<leftarrow> memcpy (uninit K w 80) 0 y 16;
     m \<leftarrow> memcpy m 16 v 32;
     m \<leftarrow> memcpy m 48 u 32;
     (ok, tmp, w) \<leftarrow> aes_cmac K crypto x m 80 (uninit K w 16) w;
     if \<not> ok then Some (False, val, w)
     else do { n \<leftarrow> get_le32 tmp; Some (True, n mod 1000000, w) } }"


section \<open>Byte arrays that are long enough\<close>

lemma memcpy_ok [simp]:
  "i + n \<le> length dst \<Longrightarrow> n \<le> length src \<Longrightarrow> memcpy dst i src n = Some (take i dst @ take n src @ drop (i + n) dst)"
  by (simp add: memcpy_def)

lemma memcpy_short: "length dst < i + n \<Longrightarrow> memcpy dst i src n = None"
  by (simp add: memcpy_def)

lemma array_set_ok [simp]: "i < length xs \<Longrightarrow> array_set xs i v = Some (xs[i := v])"
  by (simp add: array_set_def)

lemma rev_drop_take: "i < len \<Longrightarrow> len \<le> length xs \<Longrightarrow>
    rev (drop i (take len xs)) = rev (drop (Suc i) (take len xs)) @ [xs ! i]"
  by (subst Cons_nth_drop_Suc [symmetric]) simp_all

lemma drop_update_first: "j < length ys \<Longrightarrow> drop j (ys[j := b]) = b # drop (Suc j) ys"
  by (subst Cons_nth_drop_Suc [symmetric]) simp_all

lemma swap_loop_correct:
  "i \<le> len \<Longrightarrow> len \<le> length src \<Longrightarrow> len \<le> length dst \<Longrightarrow>
    swap_loop src dst len i = Some (rev (drop i (take len src)) @ drop (len - i) dst)"
proof (induction src dst len i rule: swap_loop.induct)
  case (1 src dst len i)
  show ?case
  proof (cases "i < len")
    case True
    have "drop (len - Suc i) (dst[len - Suc i := src ! i]) = src ! i # drop (len - i) dst"
      using True 1(4) by (subst drop_update_first) (simp_all add: Suc_diff_Suc)
    then show ?thesis
      using True 1 by (simp add: swap_loop.simps [of src dst len i] rev_drop_take)
  next
    case False
    then show ?thesis using 1(2-) by (simp add: swap_loop.simps [of src dst len])
  qed
qed

lemma swap_buf_ok [simp]:
  "len \<le> length src \<Longrightarrow> len \<le> length dst \<Longrightarrow> swap_buf src dst len = Some (rev (take len src) @ drop len dst)"
  by (simp add: swap_buf_def swap_loop_correct)

lemma length_filled [simp]: "n \<le> length buf \<Longrightarrow> length (filled buf n bs) = length buf"
  by (simp add: filled_def)

lemma filled_whole [simp]: "length bs = n \<Longrightarrow> length buf = n \<Longrightarrow> filled buf n bs = bs"
  by (simp add: filled_def)

section \<open>Descriptors\<close>

text \<open>Every function closes what it opened, whatever the kernel answers.\<close>

lemma alg_new_fds: "alg_new K fd k w = (c, w') \<Longrightarrow> fds w' = (if c < 0 then fds w else c # fds w)"
  by (auto simp: alg_new_def open_fd_def sys_def Let_def split: prod.splits if_splits)

lemma alg_encrypt_fds: "alg_encrypt K fd i out n w = (b, out', w') \<Longrightarrow> fds w' = fds w"
  by (auto simp: alg_encrypt_def sys_def Let_def split: prod.splits if_splits option.splits)

lemma close_fd_fds [simp]: "fds (close_fd K fd w) = remove1 fd (fds w)"
  by (simp add: close_fd_def)

abbreviation keeps_fds :: "'e alg_world \<Rightarrow> bool \<times> bytes \<times> 'e alg_world \<Rightarrow> bool" where
  "keeps_fds w \<equiv> \<lambda>(ok, out, w'). fds w' = fds w"

lemma bt_crypto_e_fds: "holds (keeps_fds w) (bt_crypto_e K c k p out w)"
  unfolding bt_crypto_e_def Let_def
  by (intro holds_rules) (auto dest!: alg_new_fds alg_encrypt_fds)

lemma sign_att_fds: "holds (keeps_fds w) (bt_crypto_sign_att K c k m l n s w)"
  unfolding bt_crypto_sign_att_def Let_def
  by (intro holds_rules) (auto dest!: alg_new_fds sys_fds)

lemma aes_cmac_fds: "holds (keeps_fds w) (aes_cmac K c k m l out w)"
  unfolding aes_cmac_def Let_def
  by (intro holds_rules) (auto dest!: alg_new_fds sys_fds)

lemmas call_fds = bt_crypto_e_fds [unfolded holds_def, rule_format] aes_cmac_fds [unfolded holds_def, rule_format]

lemma call_keeps:
  "fds w = fds w0 \<Longrightarrow> holds (keeps_fds w0) (bt_crypto_e K c k p out w)"
  "fds w = fds w0 \<Longrightarrow> holds (keeps_fds w0) (aes_cmac K c k m l out w)"
  using bt_crypto_e_fds [of w K c k p out] aes_cmac_fds [of w K c k m l out] by simp_all

lemma bt_crypto_ah_fds: "holds (keeps_fds w) (bt_crypto_ah K c k r h w)"
  unfolding bt_crypto_ah_def Let_def
  by (intro holds_rules call_keeps) (auto dest!: call_fds)

lemma bt_crypto_c1_fds: "holds (keeps_fds w) (bt_crypto_c1 K c k r pres preq iat ia rat ra res w)"
  unfolding bt_crypto_c1_def Let_def
  by (intro holds_rules call_keeps) (auto dest!: call_fds)

lemma bt_crypto_s1_fds: "holds (keeps_fds w) (bt_crypto_s1 K c k r1 r2 res w)"
  unfolding bt_crypto_s1_def Let_def
  by (intro holds_rules call_keeps) (auto dest!: call_fds)

lemma bt_crypto_f4_fds: "holds (keeps_fds w) (bt_crypto_f4 K c u v x z res w)"
  unfolding bt_crypto_f4_def Let_def
  by (intro holds_rules call_keeps) (auto dest!: call_fds)

lemma bt_crypto_f5_fds: "holds (\<lambda>(ok, mackey, ltk, w'). fds w' = fds w) (bt_crypto_f5 K c wk n1 n2 a1 a2 mackey ltk w)"
  unfolding bt_crypto_f5_def Let_def
  by (intro holds_rules call_keeps) (auto dest!: call_fds)

lemma bt_crypto_f6_fds: "holds (keeps_fds w) (bt_crypto_f6 K c wk n1 n2 r io a1 a2 res w)"
  unfolding bt_crypto_f6_def Let_def
  by (intro holds_rules call_keeps) (auto dest!: call_fds)

lemma bt_crypto_g2_fds: "holds (\<lambda>(ok, val, w'). fds w' = fds w) (bt_crypto_g2 K c u v x y val w)"
  unfolding bt_crypto_g2_def Let_def
  by (intro holds_rules call_keeps) (auto dest!: call_fds)

text \<open>
  Creating the object opens three descriptors or, when it fails, leaves none behind; giving up the
  last reference closes them.
\<close>

lemma bt_crypto_new_fds:
  "bt_crypto_new K w = (r, w') \<Longrightarrow>
    (case r of None \<Rightarrow> fds w' = fds w
     | Some c \<Rightarrow> ref_count c = 1 \<and> fds w' = cmac_aes c # urandom c # ecb_aes c # fds w)"
  by (auto simp: bt_crypto_new_def bt_crypto_ref_def ecb_aes_setup_def urandom_setup_def cmac_aes_setup_def
      open_fd_def sys_def Let_def split: prod.splits if_splits)

lemma bt_crypto_unref_fds:
  assumes "fds w = cmac_aes c # urandom c # ecb_aes c # other"
  shows "mset (fds (snd (bt_crypto_unref K (Some c) w))) =
    mset (if ref_count c = 1 then other else fds w)"
  using assms by (auto simp: bt_crypto_unref_def Let_def)


section \<open>What an AES socket does\<close>

text \<open>
  The documented behaviour of a kernel socket bound to an algorithm: after setting a key of 16 bytes
  an accepted descriptor takes one message and returns \<open>f key message\<close>, 16 bytes. \<open>V\<close> says that the
  kernel is in a state where it does; it is again after closing the descriptor. A cipher (with an
  operation in the control message) takes one block.
\<close>

definition serves ::
  "'e alg_kernel \<Rightarrow> int \<Rightarrow> u32 option \<Rightarrow> (bytes \<Rightarrow> bytes \<Rightarrow> bytes) \<Rightarrow> ('e \<Rightarrow> bool) \<Rightarrow> bool" where
  "serves K fd op f V \<longleftrightarrow>
     (\<forall>key msg. length (f key msg) = 16) \<and>
     (\<forall>e key msg. V e \<longrightarrow> length key = 16 \<longrightarrow> (op \<noteq> None \<longrightarrow> length msg = 16) \<longrightarrow>
       (\<exists>r e1. k_setkey K fd key e = (r, e1) \<and> 0 \<le> r \<and>
       (\<exists>c e2. k_accept K fd e1 = (c, e2) \<and> 0 \<le> c \<and>
       (\<exists>n e3. k_send K c op msg e2 = (n, e3) \<and> 0 \<le> n \<and>
       (\<exists>e4. k_read K c 16 e3 = (Some (f key msg), e4) \<and> V (k_close K c e4))))))"

lemma servesE:
  assumes "serves K fd op f V" "V (kern w)" "length key = 16" "op \<noteq> None \<longrightarrow> length msg = 16"
  obtains c w2 n w3 w4 where "alg_new K fd key w = (c, w2)" "0 \<le> c"
    "sys (k_send K c op msg) w2 = (n, w3)" "0 \<le> n"
    "sys (k_read K c 16) w3 = (Some (f key msg), w4)" "V (kern (close_fd K c w4))"
proof -
  from assms obtain r e1 c e2 n e3 e4 where
    k: "k_setkey K fd key (kern w) = (r, e1)" "0 \<le> r" "k_accept K fd e1 = (c, e2)" "0 \<le> c"
       "k_send K c op msg e2 = (n, e3)" "0 \<le> n" "k_read K c 16 e3 = (Some (f key msg), e4)" "V (k_close K c e4)"
    unfolding serves_def by metis
  show thesis
    by (rule that [of c "w\<lparr>kern := e2, fds := c # fds w\<rparr>" n "w\<lparr>kern := e3, fds := c # fds w\<rparr>"
          "w\<lparr>kern := e4, fds := c # fds w\<rparr>"])
      (use k in \<open>simp_all add: alg_new_def sys_def open_fd_def close_fd_def\<close>)
qed

lemma serves_length: "serves K fd op f V \<Longrightarrow> length (f key msg) = 16"
  by (simp add: serves_def)

lemma bt_crypto_e_ok:
  assumes K: "serves K (ecb_aes c) (Some ALG_OP_ENCRYPT) aes V" and w: "V (kern w)"
    and len: "length k = 16" "length p = 16" "length out = 16"
  obtains w' where "bt_crypto_e K (Some c) k p out w = Some (True, rev (aes (rev k) (rev p)), w')" "V (kern w')"
proof -
  note l16 = serves_length [OF K]
  have lens: "length (rev k) = 16" "Some ALG_OP_ENCRYPT \<noteq> None \<longrightarrow> length (rev p) = 16" using len by simp_all
  obtain d w2 n w3 w4 where
    k: "alg_new K (ecb_aes c) (rev k) w = (d, w2)" "0 \<le> d"
    "sys (k_send K d (Some ALG_OP_ENCRYPT) (rev p)) w2 = (n, w3)" "0 \<le> n"
    "sys (k_read K d 16) w3 = (Some (aes (rev k) (rev p)), w4)" "V (kern (close_fd K d w4))"
    by (rule servesE [OF K w lens])
  show thesis
    by (rule that [OF _ k(6)]) (use k len l16 in \<open>simp add: bt_crypto_e_def alg_encrypt_def\<close>)
qed

lemma aes_cmac_ok:
  assumes K: "serves K (cmac_aes c) None cmac V" and w: "V (kern w)"
    and len: "length k = 16" "length m = n" "n \<le> CMAC_MSG_MAX" "length out = 16"
  obtains w' where "aes_cmac K (Some c) k m n out w = Some (True, rev (cmac (rev k) (rev m)), w')" "V (kern w')"
proof -
  note l16 = serves_length [OF K]
  have lens: "length (rev k) = 16" "None \<noteq> (None :: u32 option) \<longrightarrow> length (rev m) = 16" using len by simp_all
  obtain d w2 r w3 w4 where
    k: "alg_new K (cmac_aes c) (rev k) w = (d, w2)" "0 \<le> d"
    "sys (k_send K d None (rev m)) w2 = (r, w3)" "0 \<le> r"
    "sys (k_read K d 16) w3 = (Some (cmac (rev k) (rev m)), w4)" "V (kern (close_fd K d w4))"
    by (rule servesE [OF K w lens])
  show thesis
    by (rule that [OF _ k(6)]) (use k len l16 in \<open>simp add: aes_cmac_def\<close>)
qed

section \<open>The functions of the specification\<close>

text \<open>
  The functions as the comments and the Bluetooth specification (Volume 3, Part H, 2.2) write them,
  most significant octet first. The arrays of the code are least significant octet first.
\<close>

definition spec_ah :: "(bytes \<Rightarrow> bytes \<Rightarrow> bytes) \<Rightarrow> bytes \<Rightarrow> bytes \<Rightarrow> bytes" where
  "spec_ah e k r = drop 13 (e k (replicate 13 0 @ r))"

definition spec_c1 :: "(bytes \<Rightarrow> bytes \<Rightarrow> bytes) \<Rightarrow> bytes \<Rightarrow> bytes \<Rightarrow> bytes \<Rightarrow> bytes \<Rightarrow> byte \<Rightarrow> byte \<Rightarrow> bytes \<Rightarrow> bytes \<Rightarrow> bytes" where
  "spec_c1 e k r preq pres iat rat ia ra =
     (let p1 = pres @ preq @ [rat, iat]; p2 = replicate 4 0 @ ia @ ra in
      e k (map2 (XOR) (e k (map2 (XOR) r p1)) p2))"

definition spec_s1 :: "(bytes \<Rightarrow> bytes \<Rightarrow> bytes) \<Rightarrow> bytes \<Rightarrow> bytes \<Rightarrow> bytes \<Rightarrow> bytes" where
  "spec_s1 e k r1 r2 = e k (drop 8 r1 @ drop 8 r2)"

definition spec_f4 :: "(bytes \<Rightarrow> bytes \<Rightarrow> bytes) \<Rightarrow> bytes \<Rightarrow> bytes \<Rightarrow> bytes \<Rightarrow> byte \<Rightarrow> bytes" where
  "spec_f4 cmac u v x z = cmac x (u @ v @ [z])"

definition spec_f5_salt :: bytes where
  "spec_f5_salt = [0x6C, 0x88, 0x83, 0x91, 0xAA, 0xF5, 0xA5, 0x38, 0x60, 0x37, 0x0B, 0xDB, 0x5A, 0x60, 0x83, 0xBE]"

text \<open>The \<open>keyID\<close> is the text ``btle'', the length 256.\<close>

definition spec_f5 :: "(bytes \<Rightarrow> bytes \<Rightarrow> bytes) \<Rightarrow> byte \<Rightarrow> bytes \<Rightarrow> bytes \<Rightarrow> bytes \<Rightarrow> bytes \<Rightarrow> bytes \<Rightarrow> bytes" where
  "spec_f5 cmac counter w n1 n2 a1 a2 =
     cmac (cmac spec_f5_salt w) ([counter] @ [0x62, 0x74, 0x6C, 0x65] @ n1 @ n2 @ a1 @ a2 @ [0x01, 0x00])"

definition spec_f6 :: "(bytes \<Rightarrow> bytes \<Rightarrow> bytes) \<Rightarrow> bytes \<Rightarrow> bytes \<Rightarrow> bytes \<Rightarrow> bytes \<Rightarrow> bytes \<Rightarrow> bytes \<Rightarrow> bytes \<Rightarrow> bytes" where
  "spec_f6 cmac w n1 n2 r io_cap a1 a2 = cmac w (n1 @ n2 @ r @ io_cap @ a1 @ a2)"

text \<open>The last 32 bits as a number, modulo a million.\<close>

definition spec_g2 :: "(bytes \<Rightarrow> bytes \<Rightarrow> bytes) \<Rightarrow> bytes \<Rightarrow> bytes \<Rightarrow> bytes \<Rightarrow> bytes \<Rightarrow> u32 option" where
  "spec_g2 cmac u v x y = map_option (\<lambda>n. n mod 1000000) (get_be32 (drop 12 (cmac x (u @ v @ y))))"


section \<open>The code computes them\<close>

lemma rev_map2: "length xs = length ys \<Longrightarrow> rev (map2 f xs ys) = map2 f (rev xs) (rev ys)"
  by (simp add: zip_rev rev_map)

lemma u128_xor_ok [simp]:
  "length p = 16 \<Longrightarrow> length q = 16 \<Longrightarrow> length r = 16 \<Longrightarrow> u128_xor p q r = Some (map2 (XOR) p q)"
  by (simp add: u128_xor_def)

lemma take_array: "length xs = n \<Longrightarrow> take n xs = xs" "length xs = n \<Longrightarrow> drop n xs = []"
  by simp_all

lemma two_update: "2 \<le> length xs \<Longrightarrow> xs[0 := a, Suc 0 := b] = a # b # drop 2 xs"
  by (cases xs; cases "tl xs") auto

lemma ah_value:
  assumes K: "serves K (ecb_aes c) (Some ALG_OP_ENCRYPT) aes V" and w: "V (kern w)"
    and len: "length k = 16" "length r = 3" "length hash = 3"
  shows "\<exists>h w'. bt_crypto_ah K (Some c) k r hash w = Some (True, h, w') \<and> rev h = spec_ah aes (rev k) (rev r)"
proof -
  have l: "length (r @ replicate 13 0) = 16" using len by simp
  obtain w' where e: "bt_crypto_e K (Some c) k (r @ replicate 13 0) (uninit K w 16) w =
      Some (True, rev (aes (rev k) (rev (r @ replicate 13 0))), w')"
    using bt_crypto_e_ok [OF K w len(1) l length_uninit] by blast
  show ?thesis
    using e len serves_length [OF K] by (simp add: bt_crypto_ah_def spec_ah_def rev_take)
qed

lemma s1_value:
  assumes K: "serves K (ecb_aes c) (Some ALG_OP_ENCRYPT) aes V" and w: "V (kern w)"
    and len: "length k = 16" "length r1 = 16" "length r2 = 16" "length res = 16"
  shows "\<exists>h w'. bt_crypto_s1 K (Some c) k r1 r2 res w = Some (True, h, w') \<and>
    rev h = spec_s1 aes (rev k) (rev r1) (rev r2)"
proof -
  define x where "x = take 8 r2 @ take 8 r1"
  have l: "length x = 16" using len by (simp add: x_def)
  obtain w' where e: "bt_crypto_e K (Some c) k x x w = Some (True, rev (aes (rev k) (rev x)), w')"
    using bt_crypto_e_ok [OF K w len(1) l l] by blast
  show ?thesis
    using e len by (simp add: bt_crypto_s1_def spec_s1_def x_def rev_take)
qed

lemma c1_value:
  assumes K: "serves K (ecb_aes c) (Some ALG_OP_ENCRYPT) aes V" and w: "V (kern w)"
    and len: "length k = 16" "length r = 16" "length pres = 7" "length preq = 7" "length ia = 6"
      "length ra = 6" "length res = 16"
  shows "\<exists>h w'. bt_crypto_c1 K (Some c) k r pres preq iat ia rat ra res w = Some (True, h, w') \<and>
    rev h = spec_c1 aes (rev k) (rev r) (rev preq) (rev pres) iat rat (rev ia) (rev ra)"
proof -
  define p1 where "p1 = iat # rat # preq @ pres"
  define p2 :: bytes where "p2 = ra @ ia @ replicate 4 0"
  define x where "x = map2 (XOR) r p1"
  have lp: "length p1 = 16" "length p2 = 16" "length x = 16" using len by (simp_all add: p1_def p2_def x_def)
  obtain w1 where e1: "bt_crypto_e K (Some c) k x x w = Some (True, rev (aes (rev k) (rev x)), w1)" "V (kern w1)"
    using bt_crypto_e_ok [OF K w len(1) lp(3) lp(3)] by blast
  define y where "y = map2 (XOR) (rev (aes (rev k) (rev x))) p2"
  have ly: "length y = 16" using lp serves_length [OF K] by (simp add: y_def)
  obtain w2 where e2: "bt_crypto_e K (Some c) k y y w1 = Some (True, rev (aes (rev k) (rev y)), w2)"
    using bt_crypto_e_ok [OF K e1(2) len(1) ly ly] by blast
  have code: "bt_crypto_c1 K (Some c) k r pres preq iat ia rat ra res w = Some (True, rev (aes (rev k) (rev y)), w2)"
    using e1(1) e2 len lp ly serves_length [OF K]
    by (simp add: bt_crypto_c1_def two_update p1_def [symmetric] p2_def [symmetric] x_def [symmetric] y_def [symmetric])
  have rx: "rev x = map2 (XOR) (rev r) (rev pres @ rev preq @ [rat, iat])"
    using len lp by (simp add: x_def rev_map2 p1_def)
  have ry: "rev y = map2 (XOR) (aes (rev k) (rev x)) (replicate 4 0 @ rev ia @ rev ra)"
    using len lp serves_length [OF K] by (simp add: y_def rev_map2 p2_def)
  show ?thesis using code rx ry by (simp add: spec_c1_def)
qed

text \<open>A kernel whose ciphers add key and message: it keeps the key and the message it was given.\<close>

definition add_cipher :: "bytes \<Rightarrow> bytes \<Rightarrow> bytes" where
  "add_cipher k m = map2 (+) (take 16 (k @ replicate 16 0)) (take 16 (m @ replicate 16 0))"

definition add_kernel :: "(bytes \<times> bytes) alg_kernel" where
  "add_kernel = \<lparr>k_alloc = \<lambda>_. True, k_open = \<lambda>_ e. (3, e), k_socket = \<lambda>e. (4, e), k_bind = \<lambda>_ _ _ e. (0, e),
     k_setkey = \<lambda>_ k _. (0, (k, [])), k_accept = \<lambda>_ e. (5, e),
     k_send = \<lambda>_ _ m e. (int (length m), (fst e, m)), k_read = \<lambda>_ _ e. (Some (add_cipher (fst e) (snd e)), e),
     k_close = \<lambda>_ e. e, k_stack = \<lambda>_ _. 0xAA\<rparr>"

definition add_crypto :: bt_crypto where
  "add_crypto = \<lparr>ref_count = 1, ecb_aes = 4, urandom = 3, cmac_aes = 4\<rparr>"

definition add_world :: "(bytes \<times> bytes) alg_world" where
  "add_world = \<lparr>kern = ([], []), fds = []\<rparr>"

lemma add_kernel_serves: "serves add_kernel fd op add_cipher (\<lambda>_. True)"
  by (simp add: serves_def add_kernel_def add_cipher_def min_def)

text \<open>C22 The functions of legacy pairing are the ones of the specification: over a kernel whose cipher
  socket computes \<open>aes\<close>, the hash of a resolvable address, the confirm value and the short term key
  are returned with success, and read most significant octet first they are \<open>ah\<close>, \<open>c1\<close> and \<open>s1\<close>
  of the arguments. In particular the byte order of every field is right.\<close>

theorem legacy_pairing_as_specified:
  assumes "serves K (ecb_aes c) (Some ALG_OP_ENCRYPT) aes V" and "V (kern w)"
    and "length k = 16" "length r = 16" "length r2 = 16" "length r3 = 3" "length pres = 7" "length preq = 7"
      "length ia = 6" "length ra = 6" "length res = 16" "length hash = 3"
  shows "(\<exists>h w'. bt_crypto_ah K (Some c) k r3 hash w = Some (True, h, w') \<and> rev h = spec_ah aes (rev k) (rev r3)) \<and>
    (\<exists>h w'. bt_crypto_c1 K (Some c) k r pres preq iat ia rat ra res w = Some (True, h, w') \<and>
      rev h = spec_c1 aes (rev k) (rev r) (rev preq) (rev pres) iat rat (rev ia) (rev ra)) \<and>
    (\<exists>h w'. bt_crypto_s1 K (Some c) k r r2 res w = Some (True, h, w') \<and> rev h = spec_s1 aes (rev k) (rev r) (rev r2))"
  using ah_value [OF assms(1-3,6,12)] c1_value [OF assms(1-4,7-11)] s1_value [OF assms(1-5,11)] by simp


lemma legacy_pairing_as_specified_witness:
  "\<exists>h w'. bt_crypto_c1 add_kernel (Some add_crypto) (replicate 16 1) (replicate 16 2) (replicate 7 3) (replicate 7 4)
      1 (replicate 6 5) 0 (replicate 6 6) (replicate 16 0) add_world = Some (True, h, w') \<and>
    rev h = spec_c1 add_cipher (replicate 16 1) (replicate 16 2) (replicate 7 4) (replicate 7 3) 1 0 (replicate 6 5) (replicate 6 6)"
  using legacy_pairing_as_specified [OF add_kernel_serves, where w = add_world and k = "replicate 16 1"
      and r = "replicate 16 2" and ?r2.0 = "replicate 16 2" and ?r3.0 = "replicate 3 2" and pres = "replicate 7 3"
      and preq = "replicate 7 4" and ia = "replicate 6 5" and ra = "replicate 6 6" and res = "replicate 16 0"
      and hash = "replicate 3 0" and c = add_crypto and iat = 1 and rat = 0]
  by simp

lemma cmac_call:
  assumes K: "serves K (cmac_aes c) None cmac V" and w: "V (kern w)"
    and len: "length k = 16" "length m = n" "n \<le> CMAC_MSG_MAX" "length out = 16"
  shows "\<exists>w'. aes_cmac K (Some c) k m n out w = Some (True, rev (cmac (rev k) (rev m)), w') \<and> V (kern w')"
  using aes_cmac_ok [OF K w len] by blast

lemma f4_value:
  assumes K: "serves K (cmac_aes c) None cmac V" and w: "V (kern w)"
    and len: "length u = 32" "length v = 32" "length x = 16" "length res = 16"
  shows "\<exists>h w'. bt_crypto_f4 K (Some c) u v x z res w = Some (True, h, w') \<and>
    rev h = spec_f4 cmac (rev u) (rev v) (rev x) z"
proof -
  define m where "m = z # v @ u"
  have l: "length m = 65" using len by (simp add: m_def)
  have first: "(uninit K w 65)[0 := z] = z # drop 1 (uninit K w 65)"
    by (cases "uninit K w 65") (use length_uninit [of K w 65] in auto)
  obtain w' where e: "aes_cmac K (Some c) x m 65 res w = Some (True, rev (cmac (rev x) (rev m)), w')"
    using cmac_call [OF K w len(3) l _ len(4)] by (auto simp: CMAC_MSG_MAX_def)
  have "bt_crypto_f4 K (Some c) u v x z res w = aes_cmac K (Some c) x m 65 res w"
    using len by (simp add: bt_crypto_f4_def first m_def)
  then show ?thesis using e by (simp add: spec_f4_def m_def)
qed

lemma f5_value:
  assumes K: "serves K (cmac_aes c) None cmac V" and w: "V (kern w)"
    and len: "length s = 32" "length n1 = 16" "length n2 = 16" "length a1 = 7" "length a2 = 7"
      "length mackey = 16" "length ltk = 16"
  shows "\<exists>h l w'. bt_crypto_f5 K (Some c) s n1 n2 a1 a2 mackey ltk w = Some (True, h, l, w') \<and>
    rev h = spec_f5 cmac 0 (rev s) (rev n1) (rev n2) (rev a1) (rev a2) \<and>
    rev l = spec_f5 cmac 1 (rev s) (rev n1) (rev n2) (rev a1) (rev a2)"
proof -
  note l16 = serves_length [OF K]
  have salt: "rev f5_salt = spec_f5_salt" "length f5_salt = 16" by (simp_all add: f5_salt_def spec_f5_salt_def)
  define t where "t = rev (cmac spec_f5_salt (rev s))"
  have lt: "length t = 16" using l16 by (simp add: t_def)
  obtain w1 where e1: "aes_cmac K (Some c) f5_salt s 32 (uninit K w 16) w = Some (True, t, w1)" "V (kern w1)"
    using cmac_call [OF K w salt(2) len(1) _ length_uninit] by (auto simp: CMAC_MSG_MAX_def salt t_def)
  define m where "m q = [0x00, 0x01] @ a2 @ a1 @ n2 @ n1 @ f5_btle @ [q]" for q
  have lm: "length (m q) = 53" for q using len by (simp add: m_def f5_btle_def)
  have up: "(m q)[52 := q'] = m q'" for q q'
    using len by (simp add: m_def list_update_append f5_btle_def)
  obtain w2 where e2: "aes_cmac K (Some c) t (m 0) 53 mackey w1 = Some (True, rev (cmac (rev t) (rev (m 0))), w2)" "V (kern w2)"
    using cmac_call [OF K e1(2) lt lm _ len(6)] by (auto simp: CMAC_MSG_MAX_def)
  obtain w3 where e3: "aes_cmac K (Some c) t (m 1) 53 ltk w2 = Some (True, rev (cmac (rev t) (rev (m 1))), w3)"
    using cmac_call [OF K e2(2) lt lm _ len(7)] by (auto simp: CMAC_MSG_MAX_def)
  define junk where "junk = drop 52 (uninit K w 53)"
  have ljunk: "length junk = 1" by (simp add: junk_def)
  then obtain q where q: "junk = [q]" by (cases junk) auto
  have btle: "take 4 f5_btle = f5_btle" "length f5_btle = 4" by (simp_all add: f5_btle_def)
  have code: "bt_crypto_f5 K (Some c) s n1 n2 a1 a2 mackey ltk w =
      Some (True, rev (cmac (rev t) (rev (m 0))), rev (cmac (rev t) (rev (m 1))), w3)"
    using e1(1) e2(1) e3 len lm btle up [of q 0] up [of 0 1]
    by (simp add: bt_crypto_f5_def junk_def [symmetric] q m_def [of q, symmetric, simplified]
        m_def [of 0, symmetric, simplified])
  show ?thesis using code len by (simp add: spec_f5_def m_def t_def f5_btle_def)
qed

lemma f6_value:
  assumes K: "serves K (cmac_aes c) None cmac V" and w: "V (kern w)"
    and len: "length s = 16" "length n1 = 16" "length n2 = 16" "length r = 16" "length io = 3"
      "length a1 = 7" "length a2 = 7" "length res = 16"
  shows "\<exists>h w'. bt_crypto_f6 K (Some c) s n1 n2 r io a1 a2 res w = Some (True, h, w') \<and>
    rev h = spec_f6 cmac (rev s) (rev n1) (rev n2) (rev r) (rev io) (rev a1) (rev a2)"
proof -
  define m where "m = a2 @ a1 @ io @ r @ n2 @ n1"
  have l: "length m = 65" using len by (simp add: m_def)
  obtain w' where e: "aes_cmac K (Some c) s m 65 res w = Some (True, rev (cmac (rev s) (rev m)), w')"
    using cmac_call [OF K w len(1) l _ len(8)] by (auto simp: CMAC_MSG_MAX_def)
  have "bt_crypto_f6 K (Some c) s n1 n2 r io a1 a2 res w = aes_cmac K (Some c) s m 65 res w"
    using len by (simp add: bt_crypto_f6_def m_def)
  then show ?thesis using e by (simp add: spec_f6_def m_def)
qed

lemma four_bytes: "length xs = 4 \<Longrightarrow> \<exists>a b c d. xs = [a, b, c, d]"
  by (auto simp: numeral_eq_Suc length_Suc_conv)

lemma get_le32_rev: "length xs = 16 \<Longrightarrow> get_le32 (rev xs) = get_be32 (drop 12 xs)"
proof -
  assume l: "length xs = 16"
  obtain a b c d where d: "drop 12 xs = [a, b, c, d]"
    using l four_bytes [of "drop 12 xs"] by auto
  have "rev xs = [d, c, b, a] @ rev (take 12 xs)"
    using d by (subst append_take_drop_id [of 12 xs, symmetric]) (simp only: rev_append, simp)
  then show ?thesis by (simp only: d) simp
qed

lemma g2_value:
  assumes K: "serves K (cmac_aes c) None cmac V" and w: "V (kern w)"
    and len: "length u = 32" "length v = 32" "length x = 16" "length y = 16"
  shows "\<exists>n w'. bt_crypto_g2 K (Some c) u v x y val w = Some (True, n, w') \<and>
    Some n = spec_g2 cmac (rev u) (rev v) (rev x) (rev y)"
proof -
  define m where "m = y @ v @ u"
  have l: "length m = 80" using len by (simp add: m_def)
  define mac where "mac = cmac (rev x) (rev m)"
  have lm: "length mac = 16" using serves_length [OF K] by (simp add: mac_def)
  obtain w' where e: "aes_cmac K (Some c) x m 80 (uninit K w 16) w = Some (True, rev mac, w')"
    using cmac_call [OF K w len(3) l _ length_uninit] by (auto simp: CMAC_MSG_MAX_def mac_def)
  obtain a b c' d where d: "drop 12 mac = [a, b, c', d]"
    using lm four_bytes [of "drop 12 mac"] by auto
  have "bt_crypto_g2 K (Some c) u v x y val w = do { n \<leftarrow> get_be32 (drop 12 mac); Some (True, n mod 1000000, w') }"
    using len e by (simp add: bt_crypto_g2_def m_def [symmetric] get_le32_rev [OF lm])
  moreover have "spec_g2 cmac (rev u) (rev v) (rev x) (rev y) = map_option (\<lambda>n. n mod 1000000) (get_be32 (drop 12 mac))"
    by (simp add: spec_g2_def mac_def m_def)
  ultimately show ?thesis by (simp add: d)
qed


text \<open>C23 The functions of LE Secure Connections are the ones of the specification: over a kernel whose
  hash socket computes \<open>cmac\<close>, the confirm value, both keys of \<open>f5\<close>, the check value and the number
  the user compares are returned with success, and read most significant octet first they are \<open>f4\<close>,
  \<open>f5\<close>, \<open>f6\<close> and \<open>g2\<close> of the arguments.\<close>

theorem secure_connections_as_specified:
  assumes "serves K (cmac_aes c) None cmac V" and "V (kern w)"
    and "length u = 32" "length v = 32" "length x = 16" "length y = 16" "length s = 32" "length n1 = 16"
      "length n2 = 16" "length r = 16" "length io = 3" "length a1 = 7" "length a2 = 7" "length res = 16" "length res' = 16"
  shows "(\<exists>h w'. bt_crypto_f4 K (Some c) u v x z res w = Some (True, h, w') \<and>
      rev h = spec_f4 cmac (rev u) (rev v) (rev x) z) \<and>
    (\<exists>h l w'. bt_crypto_f5 K (Some c) s n1 n2 a1 a2 res res' w = Some (True, h, l, w') \<and>
      rev h = spec_f5 cmac 0 (rev s) (rev n1) (rev n2) (rev a1) (rev a2) \<and>
      rev l = spec_f5 cmac 1 (rev s) (rev n1) (rev n2) (rev a1) (rev a2)) \<and>
    (\<exists>h w'. bt_crypto_f6 K (Some c) x n1 n2 r io a1 a2 res w = Some (True, h, w') \<and>
      rev h = spec_f6 cmac (rev x) (rev n1) (rev n2) (rev r) (rev io) (rev a1) (rev a2)) \<and>
    (\<exists>n w'. bt_crypto_g2 K (Some c) u v x y val w = Some (True, n, w') \<and>
      Some n = spec_g2 cmac (rev u) (rev v) (rev x) (rev y))"
  using f4_value [OF assms(1-5,14)] f5_value [OF assms(1,2,7-9,12-15)]
    f6_value [OF assms(1,2,5,8-14)] g2_value [OF assms(1-6)] by simp

lemma secure_connections_as_specified_witness:
  "\<exists>n w'. bt_crypto_g2 add_kernel (Some add_crypto) (replicate 32 1) (replicate 32 2) (replicate 16 3) (replicate 16 4)
      0 add_world = Some (True, n, w') \<and>
    Some n = spec_g2 add_cipher (replicate 32 1) (replicate 32 2) (replicate 16 3) (replicate 16 4)"
  using secure_connections_as_specified [OF add_kernel_serves, where w = add_world and u = "replicate 32 1"
      and v = "replicate 32 2" and x = "replicate 16 3" and y = "replicate 16 4" and s = "replicate 32 0"
      and ?n1.0 = "replicate 16 5" and ?n2.0 = "replicate 16 6" and r = "replicate 16 7" and io = "replicate 3 0"
      and ?a1.0 = "replicate 7 0" and ?a2.0 = "replicate 7 1" and res = "replicate 16 0" and res' = "replicate 16 0"
      and c = add_crypto and z = 0 and val = 0]
  by simp

section \<open>Signatures\<close>

text \<open>\<open>sign_length\<close>: the length of the message with its counter, which wraps for a PDU of 65532 bytes
  or more.\<close>

lemma sign_length: "unat (n :: u16) + 4 < 65536 \<Longrightarrow> unat (n + 4) = unat n + 4"
  by (simp add: unat_word_ariths)

lemma sign_length_wraps: "65532 \<le> unat (n :: u16) \<Longrightarrow> unat (n + 4) < unat n"
  using unat_u16_lt [of n] by (simp add: unat_word_ariths mod_if)

text \<open>C24 A signature is the one the specification defines: the counter, least significant octet first,
  followed by the upper half of the CMAC of the message and its counter (Volume 3, Part H, 2.4.5),
  for a message of fewer than 65532 bytes.\<close>

theorem signature_as_specified:
  assumes K: "serves K (cmac_aes c) None cmac V" and w: "V (kern w)"
    and len: "length key = 16" "length m = unat n" "length sig = 12" "unat n < 65532"
  shows "\<exists>w'. bt_crypto_sign_att K (Some c) key m n cnt sig w =
    Some (True, put_le32 cnt @ rev (take 8 (cmac (rev key) (rev (m @ put_le32 cnt)))), w')"
proof -
  define msg where "msg = m @ put_le32 cnt"
  define mac where "mac = cmac (rev key) (rev msg)"
  have l4: "length (put_le32 cnt) = 4" "length (put_be32 cnt) = 4" by (simp_all add: codec_simps)
  have lmac: "length mac = 16" using serves_length [OF K] by (simp add: mac_def)
  have ln: "unat (n + 4) = unat n + 4" using len(4) by (intro sign_length) simp
  have lmsg: "length msg = unat n + 4" using len l4 by (simp add: msg_def)
  have lens: "length (rev key) = 16" "None \<noteq> (None :: u32 option) \<longrightarrow> length (rev msg) = 16" using len by simp_all
  obtain d w2 r w3 w4 where
    k: "alg_new K (cmac_aes c) (rev key) w = (d, w2)" "0 \<le> d"
    "sys (k_send K d None (rev msg)) w2 = (r, w3)" "0 \<le> r"
    "sys (k_read K d 16) w3 = (Some mac, w4)" "V (kern (close_fd K d w4))"
    unfolding mac_def by (rule servesE [OF K w lens])
  have be: "rev (put_be32 cnt) = put_le32 cnt" by (simp add: put_be32_def put_le32_def)
  define out where "out = take 8 mac @ put_be32 cnt @ drop 12 mac"
  have "take 12 (drop 4 (rev out)) = put_le32 cnt @ rev (take 8 mac)"
    using lmac l4 be by (simp add: out_def)
  moreover have "bt_crypto_sign_att K (Some c) key m n cnt sig w =
      Some (True, take 12 (drop 4 (rev out)), close_fd K d w4)"
    using k len l4 ln lmsg lmac
    by (simp add: bt_crypto_sign_att_def msg_def [symmetric] out_def)
  ultimately show ?thesis by (simp add: mac_def msg_def)
qed

lemma example_signature:
  "put_le32 9 @ rev (take 8 (add_cipher (rev (replicate 16 1)) (rev ([1, 2, 3] @ put_le32 9)))) =
    [9, 0, 0, 0, 1, 2, 3, 4, 10, 1, 1, 1]"
  by code_simp

lemma signature_as_specified_witness:
  "\<exists>w'. bt_crypto_sign_att add_kernel (Some add_crypto) (replicate 16 1) [1, 2, 3] 3 9 (replicate 12 0) add_world =
    Some (True, [9, 0, 0, 0, 1, 2, 3, 4, 10, 1, 1, 1], w')"
  using signature_as_specified [OF add_kernel_serves, where w = add_world and key = "replicate 16 1"
      and m = "[1, 2, 3]" and n = 3 and sig = "replicate 12 0" and c = add_crypto and cnt = 9]
  unfolding example_signature by simp

section \<open>What is not checked\<close>

text \<open>
  The length that \<^verbatim>\<open>read\<close> returns is only tested for being negative. When the kernel returns fewer
  bytes than the block, the rest of the result is what the stack held, and the call still succeeds.
\<close>

lemma short_read_is_accepted:
  assumes "sys (k_send K fd (Some ALG_OP_ENCRYPT) inp) w = (n, w1)" "0 \<le> n" "sys (k_read K fd 16) w1 = (Some bs, w2)"
    "length bs \<le> 16"
  shows "alg_encrypt K fd inp out 16 w = (True, bs @ drop (length bs) out, w2)"
  using assms by (simp add: alg_encrypt_def filled_def min_def)

text \<open>A message of 65532 bytes or more is copied behind the end of its array.\<close>

lemma long_message_overruns:
  assumes "65532 \<le> unat n" "length m = unat n"
  shows "bt_crypto_sign_att K (Some c) key m n cnt sig w = None"
  using sign_length_wraps [OF assms(1)] by (simp add: bt_crypto_sign_att_def memcpy_short)

text \<open>\<^verbatim>\<open>bt_crypto_f6\<close>, unlike \<^verbatim>\<open>bt_crypto_f4\<close>, follows a null pointer.\<close>

lemma null_object_in_f6:
  "bt_crypto_f4 K None u v x z res w = Some (False, res, w)"
  "bt_crypto_f6 K None s n1 n2 r io a1 a2 res w = None"
  by (simp_all add: bt_crypto_f4_def bt_crypto_f6_def aes_cmac_def CMAC_MSG_MAX_def Let_def bind_eq_None_conv
      split: option.splits)

end
