(* ===== verification/GattHelpers.thy ===== *)
theory GattHelpers
  imports Uuid
begin

text \<open>
  \<^verbatim>\<open>bluez/gatt-helpers.c\<close>: the discovery procedures of a GATT client. A procedure is a reference
  counted request that sends one ATT request after the other, collects the answers and hands them to
  its callback; iterators read services, characteristics and descriptors out of them.

  Requests live on a heap, so that a request used after it was freed is \<open>None\<close>. The list of results of
  a request is a list; a result pointer is the list that starts there. The ATT bearer is a parameter:
  what sending and cancelling return and what allocations do. A callback given to the bearer is a
  \<open>gh_cb\<close>: the function and the object it is given. The bearer calls it with the answer and then
  releases the object (\<open>gh_respond\<close>). The callbacks of the caller are arbitrary functions on the state
  named by numbers. The length of a PDU is a \<^verbatim>\<open>uint16_t\<close>; lengths and positions in it are natural
  numbers, since none of the sums below leaves the PDU.
\<close>

section \<open>Constants\<close>

definition BT_ATT_OP_ERROR_RSP :: byte where "BT_ATT_OP_ERROR_RSP = 0x01"
definition BT_ATT_OP_MTU_REQ :: byte where "BT_ATT_OP_MTU_REQ = 0x02"
definition BT_ATT_OP_MTU_RSP :: byte where "BT_ATT_OP_MTU_RSP = 0x03"
definition BT_ATT_OP_FIND_INFO_REQ :: byte where "BT_ATT_OP_FIND_INFO_REQ = 0x04"
definition BT_ATT_OP_FIND_INFO_RSP :: byte where "BT_ATT_OP_FIND_INFO_RSP = 0x05"
definition BT_ATT_OP_FIND_BY_TYPE_VAL_REQ :: byte where "BT_ATT_OP_FIND_BY_TYPE_VAL_REQ = 0x06"
definition BT_ATT_OP_FIND_BY_TYPE_VAL_RSP :: byte where "BT_ATT_OP_FIND_BY_TYPE_VAL_RSP = 0x07"
definition BT_ATT_OP_READ_BY_TYPE_REQ :: byte where "BT_ATT_OP_READ_BY_TYPE_REQ = 0x08"
definition BT_ATT_OP_READ_BY_TYPE_RSP :: byte where "BT_ATT_OP_READ_BY_TYPE_RSP = 0x09"
definition BT_ATT_OP_READ_REQ :: byte where "BT_ATT_OP_READ_REQ = 0x0A"
definition BT_ATT_OP_READ_RSP :: byte where "BT_ATT_OP_READ_RSP = 0x0B"
definition BT_ATT_OP_READ_BY_GRP_TYPE_REQ :: byte where "BT_ATT_OP_READ_BY_GRP_TYPE_REQ = 0x10"
definition BT_ATT_OP_READ_BY_GRP_TYPE_RSP :: byte where "BT_ATT_OP_READ_BY_GRP_TYPE_RSP = 0x11"
definition BT_ATT_ERROR_ATTRIBUTE_NOT_FOUND :: byte where "BT_ATT_ERROR_ATTRIBUTE_NOT_FOUND = 0x0A"
definition GATT_PRIM_SVC_UUID :: u16 where "GATT_PRIM_SVC_UUID = 0x2800"
definition GATT_SND_SVC_UUID :: u16 where "GATT_SND_SVC_UUID = 0x2801"
definition GATT_INCLUDE_UUID :: u16 where "GATT_INCLUDE_UUID = 0x2802"
definition GATT_CHARAC_UUID :: u16 where "GATT_CHARAC_UUID = 0x2803"

lemmas opcode_defs = BT_ATT_OP_ERROR_RSP_def BT_ATT_OP_MTU_REQ_def BT_ATT_OP_MTU_RSP_def BT_ATT_OP_FIND_INFO_REQ_def
  BT_ATT_OP_FIND_INFO_RSP_def BT_ATT_OP_FIND_BY_TYPE_VAL_REQ_def BT_ATT_OP_FIND_BY_TYPE_VAL_RSP_def
  BT_ATT_OP_READ_BY_TYPE_REQ_def BT_ATT_OP_READ_BY_TYPE_RSP_def BT_ATT_OP_READ_REQ_def BT_ATT_OP_READ_RSP_def
  BT_ATT_OP_READ_BY_GRP_TYPE_REQ_def BT_ATT_OP_READ_BY_GRP_TYPE_RSP_def BT_ATT_ERROR_ATTRIBUTE_NOT_FOUND_def

section \<open>State\<close>

type_synonym ptr = nat

record bt_gatt_result =
  res_opcode :: byte
  res_pdu :: bytes
  res_pdu_len :: nat
  res_data_len :: nat
  res_op :: ptr

record bt_gatt_request =
  req_id :: u32
  end_handle :: u16
  req_refs :: int
  req_uuid :: bt_uuid
  service_type :: u16
  results :: "bt_gatt_result list"
  req_callback :: "nat option"
  req_destroy :: "nat option"

record read_incl_data =
  ri_op :: ptr
  ri_result :: bt_gatt_result
  ri_pos :: nat
  ri_refs :: int

record mtu_op =
  client_rx_mtu :: u16
  mtu_callback :: "nat option"
  mtu_destroy :: "nat option"

datatype gh_cb =
    ReadByGrpTypeCb ptr
  | FindByTypeValCb ptr
  | DiscoverIncludedCb ptr
  | DiscoverChrcsCb ptr
  | DiscoverDescsCb ptr
  | ReadByTypeCb ptr
  | ReadIncludedCb ptr
  | MtuCb ptr

text \<open>What the bearer releases after a callback: a request, the data of an included read, an MTU operation.\<close>

datatype owned = Req ptr | Incl ptr | Mtu ptr

fun user_data :: "gh_cb \<Rightarrow> owned" where
  "user_data (ReadIncludedCb d) = Incl d"
| "user_data (MtuCb m) = Mtu m"
| "user_data (ReadByGrpTypeCb p) = Req p"
| "user_data (FindByTypeValCb p) = Req p"
| "user_data (DiscoverIncludedCb p) = Req p"
| "user_data (DiscoverChrcsCb p) = Req p"
| "user_data (DiscoverDescsCb p) = Req p"
| "user_data (ReadByTypeCb p) = Req p"

record 'e gh_world =
  bearer :: 'e
  gh_reqs :: "ptr \<rightharpoonup> bt_gatt_request"
  gh_incls :: "ptr \<rightharpoonup> read_incl_data"
  gh_mtus :: "ptr \<rightharpoonup> mtu_op"
  gh_next :: ptr

text \<open>Sending returns the number of the operation, 0 for a failure. Cancelling returns the callback whose
  operation the bearer drops, if it has one with the number. The callback of a request gets the
  request and its results, none for a failure.\<close>

record 'e gh_host =
  gh_alloc :: "'e gh_world \<Rightarrow> bool"
  gh_send :: "byte \<Rightarrow> bytes \<Rightarrow> gh_cb \<Rightarrow> 'e \<Rightarrow> (u32 \<times> 'e) option"
  gh_cancel :: "u32 \<Rightarrow> 'e \<Rightarrow> (gh_cb option \<times> 'e) option"
  gh_set_mtu :: "u16 \<Rightarrow> 'e \<Rightarrow> 'e option"
  gh_call :: "nat \<Rightarrow> bool \<Rightarrow> byte \<Rightarrow> bt_gatt_result list \<Rightarrow> 'e gh_world \<Rightarrow> 'e gh_world option"
  gh_mtu_call :: "nat \<Rightarrow> bool \<Rightarrow> byte \<Rightarrow> 'e gh_world \<Rightarrow> 'e gh_world option"
  gh_destroyed :: "nat \<Rightarrow> 'e gh_world \<Rightarrow> 'e gh_world option"

definition set_req :: "ptr \<Rightarrow> bt_gatt_request option \<Rightarrow> 'e gh_world \<Rightarrow> 'e gh_world" where
  "set_req p r w = w\<lparr>gh_reqs := (gh_reqs w)(p := r)\<rparr>"

definition set_incl :: "ptr \<Rightarrow> read_incl_data option \<Rightarrow> 'e gh_world \<Rightarrow> 'e gh_world" where
  "set_incl d x w = w\<lparr>gh_incls := (gh_incls w)(d := x)\<rparr>"

definition call_destroy :: "'e gh_host \<Rightarrow> nat option \<Rightarrow> 'e gh_world \<Rightarrow> 'e gh_world option" where
  "call_destroy H c w = (case c of None \<Rightarrow> Some w | Some c \<Rightarrow> gh_destroyed H c w)"

section \<open>Results\<close>

fun result_element_count :: "bt_gatt_result list \<Rightarrow> nat option" where
  "result_element_count [] = Some 0"
| "result_element_count (cur # nxt) =
     (if res_data_len cur = 0 then None
      else do { n \<leftarrow> result_element_count nxt; Some (res_pdu_len cur div res_data_len cur + n) })"

definition bt_gatt_result_service_count :: "bt_gatt_result list \<Rightarrow> nat option" where
  "bt_gatt_result_service_count rs =
     (case rs of [] \<Rightarrow> Some 0
      | r # _ \<Rightarrow>
          if res_opcode r \<noteq> BT_ATT_OP_READ_BY_GRP_TYPE_RSP \<and> res_opcode r \<noteq> BT_ATT_OP_FIND_BY_TYPE_VAL_RSP
          then Some 0 else result_element_count rs)"

definition bt_gatt_result_characteristic_count :: "bt_gatt_result list \<Rightarrow> nat option" where
  "bt_gatt_result_characteristic_count rs =
     (case rs of [] \<Rightarrow> Some 0
      | r # _ \<Rightarrow>
          if res_opcode r \<noteq> BT_ATT_OP_READ_BY_TYPE_RSP then Some 0
          else if res_data_len r \<noteq> 21 \<and> res_data_len r \<noteq> 7 then Some 0
          else result_element_count rs)"

definition bt_gatt_result_descriptor_count :: "bt_gatt_result list \<Rightarrow> nat option" where
  "bt_gatt_result_descriptor_count rs =
     (case rs of [] \<Rightarrow> Some 0
      | r # _ \<Rightarrow> if res_opcode r \<noteq> BT_ATT_OP_FIND_INFO_RSP then Some 0 else result_element_count rs)"

definition bt_gatt_result_included_count :: "bt_gatt_result list \<Rightarrow> nat option" where
  "bt_gatt_result_included_count rs =
     (case rs of [] \<Rightarrow> Some 0
      | r # _ \<Rightarrow>
          if res_opcode r \<noteq> BT_ATT_OP_READ_BY_TYPE_RSP then Some 0
          else if res_data_len r \<noteq> 6 \<and> res_data_len r \<noteq> 8 then Some 0
          else result_element_count (filter (\<lambda>r. res_opcode r = BT_ATT_OP_READ_BY_TYPE_RSP) rs))"

section \<open>Iterators\<close>

text \<open>The result the iterator points to is the head of \<open>it_results\<close>; a null pointer is the empty list.\<close>

record bt_gatt_iter =
  it_results :: "bt_gatt_result list"
  it_pos :: nat

definition bt_gatt_iter_init :: "bt_gatt_result list \<Rightarrow> bt_gatt_iter option" where
  "bt_gatt_iter_init rs = (if rs = [] then None else Some \<lparr>it_results = rs, it_pos = 0\<rparr>)"

definition bt_base_uuid :: bytes where
  "bt_base_uuid = [0x00, 0x00, 0x00, 0x00, 0x00, 0x00, 0x10, 0x00, 0x80, 0x00, 0x00, 0x80, 0x5F, 0x9B, 0x34, 0xFB]"

text \<open>The bytes at \<open>src\<close> and the array \<open>dst\<close>, which stays as it is for another length. The result of
  the function is not used.\<close>

definition convert_uuid_le :: "bytes \<Rightarrow> nat \<Rightarrow> bytes \<Rightarrow> bytes option" where
  "convert_uuid_le src len dst =
     (if len = 16 then map_option bswap_128 (array_slice src 0 16)
      else if len \<noteq> 2 then Some dst
      else do {
        hi \<leftarrow> array_get src 1;
        lo \<leftarrow> array_get src 0;
        Some (bt_base_uuid[2 := hi, 3 := lo]) })"

text \<open>Behind the element that was read.\<close>

definition iter_advance :: "bt_gatt_result \<Rightarrow> bt_gatt_result list \<Rightarrow> bt_gatt_iter \<Rightarrow> bt_gatt_iter" where
  "iter_advance r nxt iter =
     (let pos = it_pos iter + res_data_len r in
      if pos = res_pdu_len r then \<lparr>it_results = nxt, it_pos = 0\<rparr>
      else iter\<lparr>it_pos := pos\<rparr>)"

text \<open>
  Each iterator returns the values it writes and the new position, or \<open>Some None\<close> where the code returns
  false. \<open>op\<close> follows the pointer from a result to its request.
\<close>

definition bt_gatt_iter_next_included_service ::
  "(ptr \<rightharpoonup> bt_gatt_request) \<Rightarrow> bytes \<Rightarrow> bt_gatt_iter \<Rightarrow> ((u16 \<times> u16 \<times> u16 \<times> bytes) \<times> bt_gatt_iter) option option" where
  "bt_gatt_iter_next_included_service ops uuid iter =
     (case it_results iter of [] \<Rightarrow> Some None
      | r # nxt \<Rightarrow>
          if res_opcode r \<noteq> BT_ATT_OP_READ_BY_TYPE_RSP then Some None
          else do {
            op \<leftarrow> ops (res_op r);
            if req_uuid op \<noteq> BT_UUID_UNSPEC then Some None
            else if res_data_len r \<noteq> 8 \<and> res_data_len r \<noteq> 6 then Some None
            else do {
              let pdu = drop (it_pos iter) (res_pdu r);
              handle \<leftarrow> get_le16 pdu;
              start_handle \<leftarrow> get_le16 (drop 2 pdu);
              end_handle \<leftarrow> get_le16 (drop 4 pdu);
              if res_data_len r = 8 then do {
                uuid \<leftarrow> convert_uuid_le (drop 6 pdu) 2 uuid;
                Some (Some ((handle, start_handle, end_handle, uuid), iter_advance r nxt iter)) }
              else (case drop (it_pos iter div res_data_len r) nxt of [] \<Rightarrow> Some None
                | read_result # after \<Rightarrow> do {
                    uuid \<leftarrow> convert_uuid_le (res_pdu read_result) (res_data_len read_result) uuid;
                    Some (Some ((handle, start_handle, end_handle, uuid), iter_advance r after iter)) }) } })"

definition bt_gatt_iter_next_service ::
  "(ptr \<rightharpoonup> bt_gatt_request) \<Rightarrow> bytes \<Rightarrow> bt_gatt_iter \<Rightarrow> ((u16 \<times> u16 \<times> bytes) \<times> bt_gatt_iter) option option" where
  "bt_gatt_iter_next_service ops uuid iter =
     (case it_results iter of [] \<Rightarrow> Some None
      | r # nxt \<Rightarrow>
          let pdu = drop (it_pos iter) (res_pdu r) in
          if res_opcode r = BT_ATT_OP_READ_BY_GRP_TYPE_RSP then do {
            start_handle \<leftarrow> get_le16 pdu;
            end_handle \<leftarrow> get_le16 (drop 2 pdu);
            uuid \<leftarrow> convert_uuid_le (drop 4 pdu) (res_data_len r - 4) uuid;
            Some (Some ((start_handle, end_handle, uuid), iter_advance r nxt iter)) }
          else if res_opcode r = BT_ATT_OP_FIND_BY_TYPE_VAL_RSP then do {
            start_handle \<leftarrow> get_le16 pdu;
            end_handle \<leftarrow> get_le16 (drop 2 pdu);
            op \<leftarrow> ops (res_op r);
            tmp \<leftarrow> bt_uuid_to_uuid128 (req_uuid op);
            Some (Some ((start_handle, end_handle, value_bytes tmp), iter_advance r nxt iter)) }
          else Some None)"

definition bt_gatt_iter_next_characteristic ::
  "(ptr \<rightharpoonup> bt_gatt_request) \<Rightarrow> bytes \<Rightarrow> bt_gatt_iter \<Rightarrow>
     ((u16 \<times> u16 \<times> u16 \<times> byte \<times> bytes) \<times> bt_gatt_iter) option option" where
  "bt_gatt_iter_next_characteristic ops uuid iter =
     (case it_results iter of [] \<Rightarrow> Some None
      | r # nxt \<Rightarrow>
          if res_opcode r \<noteq> BT_ATT_OP_READ_BY_TYPE_RSP then Some None
          else do {
            op \<leftarrow> ops (res_op r);
            if req_uuid op \<noteq> BT_UUID_UNSPEC then Some None
            else if res_data_len r \<noteq> 21 \<and> res_data_len r \<noteq> 7 then Some None
            else do {
              let pdu = drop (it_pos iter) (res_pdu r);
              start_handle \<leftarrow> get_le16 pdu;
              properties \<leftarrow> array_get pdu 2;
              value_handle \<leftarrow> get_le16 (drop 3 pdu);
              uuid \<leftarrow> convert_uuid_le (drop 5 pdu) (res_data_len r - 5) uuid;
              let iter = iter_advance r nxt iter;
              (case it_results iter of
                 [] \<Rightarrow> Some (Some ((start_handle, end_handle op, value_handle, properties, uuid), iter))
               | r' # _ \<Rightarrow> do {
                   following \<leftarrow> get_le16 (drop (it_pos iter) (res_pdu r'));
                   Some (Some ((start_handle, following - 1, value_handle, properties, uuid), iter)) }) } })"

definition bt_gatt_iter_next_descriptor ::
  "bytes \<Rightarrow> bt_gatt_iter \<Rightarrow> ((u16 \<times> bytes) \<times> bt_gatt_iter) option option" where
  "bt_gatt_iter_next_descriptor uuid iter =
     (case it_results iter of [] \<Rightarrow> Some None
      | r # nxt \<Rightarrow>
          if res_opcode r \<noteq> BT_ATT_OP_FIND_INFO_RSP then Some None
          else do {
            let pdu = drop (it_pos iter) (res_pdu r);
            handle \<leftarrow> get_le16 pdu;
            uuid \<leftarrow> convert_uuid_le (drop 2 pdu) (res_data_len r - 2) uuid;
            Some (Some ((handle, uuid), iter_advance r nxt iter)) })"

text \<open>The handle, the \<^verbatim>\<open>uint16_t\<close> length, which wraps for elements shorter than a handle, and the value.\<close>

definition bt_gatt_iter_next_read_by_type ::
  "(ptr \<rightharpoonup> bt_gatt_request) \<Rightarrow> bt_gatt_iter \<Rightarrow> ((u16 \<times> u16 \<times> bytes) \<times> bt_gatt_iter) option option" where
  "bt_gatt_iter_next_read_by_type ops iter =
     (case it_results iter of [] \<Rightarrow> Some None
      | r # nxt \<Rightarrow>
          if res_opcode r \<noteq> BT_ATT_OP_READ_BY_TYPE_RSP then Some None
          else do {
            op \<leftarrow> ops (res_op r);
            if req_uuid op = BT_UUID_UNSPEC then Some None
            else do {
              let pdu = drop (it_pos iter) (res_pdu r);
              handle \<leftarrow> get_le16 pdu;
              Some (Some ((handle, word_of_nat (res_data_len r) - 2, drop 2 pdu), iter_advance r nxt iter)) } })"

section \<open>References\<close>

definition bt_gatt_request_ref :: "ptr \<Rightarrow> 'e gh_world \<Rightarrow> 'e gh_world option" where
  "bt_gatt_request_ref p w = do {
     r \<leftarrow> gh_reqs w p;
     Some (set_req p (Some (r\<lparr>req_refs := req_refs r + 1\<rparr>)) w) }"

definition destroy_mtu_op :: "'e gh_host \<Rightarrow> ptr \<Rightarrow> 'e gh_world \<Rightarrow> 'e gh_world option" where
  "destroy_mtu_op H m w = do {
     op \<leftarrow> gh_mtus w m;
     w \<leftarrow> call_destroy H (mtu_destroy op) w;
     Some (w\<lparr>gh_mtus := (gh_mtus w)(m := None)\<rparr>) }"

text \<open>
  \<open>release H (Req p)\<close> is \<^verbatim>\<open>bt_gatt_request_unref\<close> with \<^verbatim>\<open>bt_gatt_request_cancel\<close> inside; the bearer
  releases what the callback of a cancelled operation was given. \<open>release H (Incl d)\<close> is
  \<^verbatim>\<open>read_included_unref\<close>.
\<close>

partial_function (option) release :: "'e gh_host \<Rightarrow> owned \<Rightarrow> 'e gh_world \<Rightarrow> 'e gh_world option" where
  [code]: "release H x w = (case x of
     Mtu m \<Rightarrow> destroy_mtu_op H m w
   | Incl d \<Rightarrow> do {
       data \<leftarrow> gh_incls w d;
       let data = data\<lparr>ri_refs := ri_refs data - 1\<rparr>;
       let w = set_incl d (Some data) w;
       if ri_refs data \<noteq> 0 then Some w
       else do {
         w \<leftarrow> release H (Req (ri_op data)) w;
         Some (set_incl d None w) } }
   | Req p \<Rightarrow> do {
       r \<leftarrow> gh_reqs w p;
       let r = r\<lparr>req_refs := req_refs r - 1\<rparr>;
       let w = set_req p (Some r) w;
       if req_refs r \<noteq> 0 then Some w
       else do {
         w \<leftarrow> (if req_id r = 0 then Some w
               else do {
                 (cb, e) \<leftarrow> gh_cancel H (req_id r) (bearer w);
                 w \<leftarrow> (case cb of None \<Rightarrow> Some (w\<lparr>bearer := e\<rparr>)
                       | Some cb \<Rightarrow> release H (user_data cb) (w\<lparr>bearer := e\<rparr>));
                 r \<leftarrow> gh_reqs w p;
                 Some (set_req p (Some (r\<lparr>req_id := 0\<rparr>)) w) });
         r \<leftarrow> gh_reqs w p;
         w \<leftarrow> call_destroy H (req_destroy r) w;
         Some (set_req p None w) } })"

text \<open>A null pointer is \<open>None\<close>.\<close>

definition bt_gatt_request_unref :: "'e gh_host \<Rightarrow> ptr option \<Rightarrow> 'e gh_world \<Rightarrow> 'e gh_world option" where
  "bt_gatt_request_unref H p w = (case p of None \<Rightarrow> Some w | Some p \<Rightarrow> release H (Req p) w)"

definition async_req_unref :: "'e gh_host \<Rightarrow> ptr \<Rightarrow> 'e gh_world \<Rightarrow> 'e gh_world option" where
  "async_req_unref H p = bt_gatt_request_unref H (Some p)"

definition read_included_unref :: "'e gh_host \<Rightarrow> ptr \<Rightarrow> 'e gh_world \<Rightarrow> 'e gh_world option" where
  "read_included_unref H d = release H (Incl d)"

definition bt_gatt_request_cancel :: "'e gh_host \<Rightarrow> ptr option \<Rightarrow> 'e gh_world \<Rightarrow> 'e gh_world option" where
  "bt_gatt_request_cancel H req w =
     (case req of None \<Rightarrow> Some w
      | Some p \<Rightarrow> do {
          r \<leftarrow> gh_reqs w p;
          if req_id r = 0 then Some w
          else do {
            (cb, e) \<leftarrow> gh_cancel H (req_id r) (bearer w);
            w \<leftarrow> (case cb of None \<Rightarrow> Some (w\<lparr>bearer := e\<rparr>)
                  | Some cb \<Rightarrow> release H (user_data cb) (w\<lparr>bearer := e\<rparr>));
            r \<leftarrow> gh_reqs w p;
            Some (set_req p (Some (r\<lparr>req_id := 0\<rparr>)) w) } })"


section \<open>Exchanging the MTU\<close>

definition pdu_length :: "bytes option \<Rightarrow> nat" where
  "pdu_length pdu = (case pdu of None \<Rightarrow> 0 | Some d \<Rightarrow> length d)"

text \<open>The error code is the last of the four bytes.\<close>

definition process_error :: "bytes option \<Rightarrow> byte" where
  "process_error pdu = (case pdu of None \<Rightarrow> 0 | Some d \<Rightarrow> if length d \<noteq> 4 then 0 else d ! 3)"

definition mtu_cb :: "'e gh_host \<Rightarrow> byte \<Rightarrow> bytes option \<Rightarrow> ptr \<Rightarrow> 'e gh_world \<Rightarrow> 'e gh_world option" where
  "mtu_cb H opcode pdu m w = do {
     op \<leftarrow> gh_mtus w m;
     let finished = (\<lambda>success ecode w. case mtu_callback op of None \<Rightarrow> Some w | Some c \<Rightarrow> gh_mtu_call H c success ecode w);
     if opcode = BT_ATT_OP_ERROR_RSP then finished False (process_error pdu) w
     else if opcode \<noteq> BT_ATT_OP_MTU_RSP \<or> pdu = None \<or> pdu_length pdu \<noteq> 2 then finished False 0 w
     else do {
       d \<leftarrow> pdu;
       server_rx_mtu \<leftarrow> get_le16 d;
       e \<leftarrow> gh_set_mtu H (min (client_rx_mtu op) server_rx_mtu) (bearer w);
       finished True 0 (w\<lparr>bearer := e\<rparr>) } }"

text \<open>\<open>att\<close> tells whether there is a bearer.\<close>

definition bt_gatt_exchange_mtu ::
  "'e gh_host \<Rightarrow> bool \<Rightarrow> u16 \<Rightarrow> nat option \<Rightarrow> nat option \<Rightarrow> 'e gh_world \<Rightarrow> (u32 \<times> 'e gh_world) option" where
  "bt_gatt_exchange_mtu H att rx_mtu callback destroy w =
     (if \<not> att \<or> rx_mtu = 0 then Some (0, w)
      else if \<not> gh_alloc H w then Some (0, w)
      else do {
        let m = gh_next w;
        let op = \<lparr>client_rx_mtu = rx_mtu, mtu_callback = callback, mtu_destroy = destroy\<rparr>;
        let w = w\<lparr>gh_next := m + 1, gh_mtus := (gh_mtus w)(m \<mapsto> op)\<rparr>;
        (i, e) \<leftarrow> gh_send H BT_ATT_OP_MTU_REQ (put_le16 rx_mtu) (MtuCb m) (bearer w);
        let w = w\<lparr>bearer := e\<rparr>;
        Some (i, if i = 0 then w\<lparr>gh_mtus := (gh_mtus w)(m := None)\<rparr> else w) })"

section \<open>Steps of a discovery\<close>

definition result_create :: "'e gh_host \<Rightarrow> byte \<Rightarrow> bytes \<Rightarrow> nat \<Rightarrow> nat \<Rightarrow> ptr \<Rightarrow> 'e gh_world \<Rightarrow> bt_gatt_result option option" where
  "result_create H opcode pdu pdu_len data_len p w =
     (if \<not> gh_alloc H w then Some None
      else do {
        copy \<leftarrow> array_slice pdu 0 pdu_len;
        Some (Some \<lparr>res_opcode = opcode, res_pdu = copy, res_pdu_len = pdu_len, res_data_len = data_len, res_op = p\<rparr>) })"

text \<open>The new result is the last one of the request.\<close>

definition result_append ::
  "'e gh_host \<Rightarrow> byte \<Rightarrow> bytes \<Rightarrow> nat \<Rightarrow> nat \<Rightarrow> ptr \<Rightarrow> 'e gh_world \<Rightarrow> (bt_gatt_result option \<times> 'e gh_world) option" where
  "result_append H opcode pdu pdu_len data_len p w = do {
     result \<leftarrow> result_create H opcode pdu pdu_len data_len p w;
     case result of None \<Rightarrow> Some (None, w)
     | Some res \<Rightarrow> do {
         op \<leftarrow> gh_reqs w p;
         Some (Some res, set_req p (Some (op\<lparr>results := results op @ [res]\<rparr>)) w) } }"

definition get_uuid_len :: "bt_uuid option \<Rightarrow> nat" where
  "get_uuid_len uuid = (case uuid of None \<Rightarrow> 0 | Some u \<Rightarrow> if uuid_type u = 16 then 2 else 16)"

text \<open>What \<^verbatim>\<open>bt_uuid_to_le\<close> writes into the rest of a PDU; for an unspecified UUID it writes nothing.\<close>

definition uuid_pdu :: "bt_uuid \<Rightarrow> bytes option" where
  "uuid_pdu u = (case bt_uuid_to_le u of Inl _ \<Rightarrow> None
     | Inr b \<Rightarrow> if length b = get_uuid_len (Some u) then Some b else None)"

definition discovery_op_complete :: "'e gh_host \<Rightarrow> ptr \<Rightarrow> bool \<Rightarrow> byte \<Rightarrow> 'e gh_world \<Rightarrow> 'e gh_world option" where
  "discovery_op_complete H p success ecode w = do {
     op \<leftarrow> gh_reqs w p;
     w \<leftarrow> (case req_callback op of None \<Rightarrow> Some w
           | Some c \<Rightarrow> gh_call H c success ecode (if success then results op else []) w);
     op \<leftarrow> gh_reqs w p;
     if req_id op = 0 then async_req_unref H p w
     else Some (set_req p (Some (op\<lparr>req_id := 0\<rparr>)) w) }"

text \<open>\<^verbatim>\<open>op->id = bt_att_send(op->att, ..., bt_gatt_request_ref(op), async_req_unref)\<close>.\<close>

definition send_request ::
  "'e gh_host \<Rightarrow> ptr \<Rightarrow> byte \<Rightarrow> bytes \<Rightarrow> gh_cb \<Rightarrow> 'e gh_world \<Rightarrow> (u32 \<times> 'e gh_world) option" where
  "send_request H p opcode pdu cb w = do {
     w \<leftarrow> bt_gatt_request_ref p w;
     (i, e) \<leftarrow> gh_send H opcode pdu cb (bearer w);
     op \<leftarrow> gh_reqs w p;
     Some (i, set_req p (Some (op\<lparr>req_id := i\<rparr>)) (w\<lparr>bearer := e\<rparr>)) }"

text \<open>Sending the next request of a procedure, which fails when the bearer does not take it.\<close>

definition send_next ::
  "'e gh_host \<Rightarrow> ptr \<Rightarrow> byte \<Rightarrow> bytes \<Rightarrow> gh_cb \<Rightarrow> 'e gh_world \<Rightarrow> 'e gh_world option" where
  "send_next H p opcode pdu cb w = do {
     (i, w) \<leftarrow> send_request H p opcode pdu cb w;
     if i \<noteq> 0 then Some w else discovery_op_complete H p False 0 w }"

text \<open>The answer \<^verbatim>\<open>BT_ATT_OP_ERROR_RSP\<close>, which ends every procedure: no more attributes is a success when
  something was found.\<close>

definition error_response :: "'e gh_host \<Rightarrow> ptr \<Rightarrow> bytes option \<Rightarrow> 'e gh_world \<Rightarrow> 'e gh_world option" where
  "error_response H p pdu w = do {
     op \<leftarrow> gh_reqs w p;
     let ecode = process_error pdu;
     discovery_op_complete H p (ecode = BT_ATT_ERROR_ATTRIBUTE_NOT_FOUND \<and> results op \<noteq> []) ecode w }"

section \<open>Services\<close>

text \<open>The manual correction of an end handle of \<^verbatim>\<open>0xffff\<close> in the last element of the last result.\<close>

definition set_last_end :: "nat \<Rightarrow> u16 \<Rightarrow> ptr \<Rightarrow> 'e gh_world \<Rightarrow> 'e gh_world option" where
  "set_last_end i v p w = do {
     op \<leftarrow> gh_reqs w p;
     let r = last (results op);
     if length (res_pdu r) < i + 2 then None
     else let r = r\<lparr>res_pdu := overwrite i (put_le16 v) (res_pdu r)\<rparr> in
       Some (set_req p (Some (op\<lparr>results := butlast (results op) @ [r]\<rparr>)) w) }"

definition read_by_grp_type_cb :: "'e gh_host \<Rightarrow> byte \<Rightarrow> bytes option \<Rightarrow> ptr \<Rightarrow> 'e gh_world \<Rightarrow> 'e gh_world option" where
  "read_by_grp_type_cb H opcode pdu p w =
     (let len = pdu_length pdu; failed = discovery_op_complete H p False 0 in
      if opcode = BT_ATT_OP_ERROR_RSP then error_response H p pdu w
      else if opcode \<noteq> BT_ATT_OP_READ_BY_GRP_TYPE_RSP \<or> pdu = None \<or> len < 7 then failed w
      else do {
        d \<leftarrow> pdu;
        first \<leftarrow> array_get d 0;
        let data_length = unat first;
        let list_length = len - 1;
        if (data_length \<noteq> 6 \<and> data_length \<noteq> 20) \<or> list_length mod data_length \<noteq> 0 then failed w
        else do {
          (cur_result, w) \<leftarrow> result_append H opcode (drop 1 d) list_length data_length p w;
          if cur_result = None then failed w
          else do {
            last_end \<leftarrow> get_le16 (drop (len - data_length + 2) d);
            op \<leftarrow> gh_reqs w p;
            if last_end < end_handle op
            then send_next H p BT_ATT_OP_READ_BY_GRP_TYPE_REQ
                   (put_le16 (last_end + 1) @ put_le16 (end_handle op) @ put_le16 (service_type op)) (ReadByGrpTypeCb p) w
            else do {
              w \<leftarrow> (if last_end = 0xffff \<and> last_end \<noteq> end_handle op
                    then set_last_end (len - data_length + 1) (end_handle op) p w else Some w);
              discovery_op_complete H p True 0 w } } } })"

definition find_by_type_val_cb :: "'e gh_host \<Rightarrow> byte \<Rightarrow> bytes option \<Rightarrow> ptr \<Rightarrow> 'e gh_world \<Rightarrow> 'e gh_world option" where
  "find_by_type_val_cb H opcode pdu p w =
     (let len = pdu_length pdu; failed = discovery_op_complete H p False 0 in
      if opcode = BT_ATT_OP_ERROR_RSP then error_response H p pdu w
      else if opcode \<noteq> BT_ATT_OP_FIND_BY_TYPE_VAL_RSP \<or> pdu = None \<or> len = 0 \<or> len mod 4 \<noteq> 0 then failed w
      else do {
        d \<leftarrow> pdu;
        (result, w) \<leftarrow> result_append H opcode d len 4 p w;
        if result = None then failed w
        else do {
          last_end \<leftarrow> get_le16 (drop (len - 2) d);
          op \<leftarrow> gh_reqs w p;
          if last_end < end_handle op
          then do {
            u \<leftarrow> uuid_pdu (req_uuid op);
            send_next H p BT_ATT_OP_FIND_BY_TYPE_VAL_REQ
              (put_le16 (last_end + 1) @ put_le16 (end_handle op) @ put_le16 (service_type op) @ u) (FindByTypeValCb p) w }
          else discovery_op_complete H p True 0 w } })"

text \<open>A new request, with everything else zero, and giving it up when the first send fails.\<close>

definition new_request ::
  "'e gh_host \<Rightarrow> u16 \<Rightarrow> bt_uuid \<Rightarrow> u16 \<Rightarrow> nat option \<Rightarrow> nat option \<Rightarrow> 'e gh_world \<Rightarrow> (ptr \<times> 'e gh_world) option" where
  "new_request H end_h uuid service callback destroy w =
     (if \<not> gh_alloc H w then None
      else let p = gh_next w in
        Some (p, set_req p (Some \<lparr>req_id = 0, end_handle = end_h, req_refs = 0, req_uuid = uuid, service_type = service,
          results = [], req_callback = callback, req_destroy = destroy\<rparr>) (w\<lparr>gh_next := p + 1\<rparr>)))"

definition start_request ::
  "'e gh_host \<Rightarrow> ptr \<Rightarrow> byte \<Rightarrow> bytes \<Rightarrow> gh_cb \<Rightarrow> 'e gh_world \<Rightarrow> (ptr option \<times> 'e gh_world) option" where
  "start_request H p opcode pdu cb w = do {
     (i, w) \<leftarrow> send_request H p opcode pdu cb w;
     if i = 0 then Some (None, set_req p None w)
     else do { w \<leftarrow> bt_gatt_request_ref p w; Some (Some p, w) } }"

definition discover_services ::
  "'e gh_host \<Rightarrow> bool \<Rightarrow> bt_uuid option \<Rightarrow> u16 \<Rightarrow> u16 \<Rightarrow> nat option \<Rightarrow> nat option \<Rightarrow> bool \<Rightarrow> 'e gh_world \<Rightarrow>
     (ptr option \<times> 'e gh_world) option" where
  "discover_services H att uuid start end_h callback destroy primary w =
     (if \<not> att then Some (None, w)
      else let service = (if primary then GATT_PRIM_SVC_UUID else GATT_SND_SVC_UUID);
               range = put_le16 start @ put_le16 end_h @ put_le16 service in
        case uuid of
          None \<Rightarrow> (case new_request H end_h BT_UUID_UNSPEC service callback destroy w of
              None \<Rightarrow> Some (None, w)
            | Some (p, w) \<Rightarrow> start_request H p BT_ATT_OP_READ_BY_GRP_TYPE_REQ range (ReadByGrpTypeCb p) w)
        | Some u \<Rightarrow> (case new_request H end_h u service callback destroy w of
              None \<Rightarrow> Some (None, w)
            | Some (p, w) \<Rightarrow>
                if u = BT_UUID_UNSPEC then Some (None, set_req p None w)
                else do {
                  b \<leftarrow> uuid_pdu u;
                  start_request H p BT_ATT_OP_FIND_BY_TYPE_VAL_REQ (range @ b) (FindByTypeValCb p) w }))"

definition bt_gatt_discover_primary_services ::
  "'e gh_host \<Rightarrow> bool \<Rightarrow> bt_uuid option \<Rightarrow> u16 \<Rightarrow> u16 \<Rightarrow> nat option \<Rightarrow> nat option \<Rightarrow> 'e gh_world \<Rightarrow>
     (ptr option \<times> 'e gh_world) option" where
  "bt_gatt_discover_primary_services H att uuid start end_h callback destroy =
     discover_services H att uuid start end_h callback destroy True"

definition bt_gatt_discover_all_primary_services ::
  "'e gh_host \<Rightarrow> bool \<Rightarrow> bt_uuid option \<Rightarrow> nat option \<Rightarrow> nat option \<Rightarrow> 'e gh_world \<Rightarrow> (ptr option \<times> 'e gh_world) option" where
  "bt_gatt_discover_all_primary_services H att uuid callback destroy =
     bt_gatt_discover_primary_services H att uuid 0x0001 0xffff callback destroy"

definition bt_gatt_discover_secondary_services ::
  "'e gh_host \<Rightarrow> bool \<Rightarrow> bt_uuid option \<Rightarrow> u16 \<Rightarrow> u16 \<Rightarrow> nat option \<Rightarrow> nat option \<Rightarrow> 'e gh_world \<Rightarrow>
     (ptr option \<times> 'e gh_world) option" where
  "bt_gatt_discover_secondary_services H att uuid start end_h callback destroy =
     discover_services H att uuid start end_h callback destroy False"


section \<open>Included services\<close>

definition new_read_included ::
  "'e gh_host \<Rightarrow> bt_gatt_result \<Rightarrow> 'e gh_world \<Rightarrow> (ptr option \<times> 'e gh_world) option" where
  "new_read_included H res w =
     (if \<not> gh_alloc H w then Some (None, w)
      else do {
        w \<leftarrow> bt_gatt_request_ref (res_op res) w;
        let d = gh_next w;
        Some (Some d, set_incl d (Some \<lparr>ri_op = res_op res, ri_result = res, ri_pos = 0, ri_refs = 0\<rparr>) (w\<lparr>gh_next := d + 1\<rparr>)) })"

definition read_included_ref :: "ptr \<Rightarrow> 'e gh_world \<Rightarrow> 'e gh_world option" where
  "read_included_ref d w = do {
     data \<leftarrow> gh_incls w d;
     Some (set_incl d (Some (data\<lparr>ri_refs := ri_refs data + 1\<rparr>)) w) }"

text \<open>Reading the included service whose handle stands at the position of \<open>data\<close>, and moving on; the
  number of the operation is only tested.\<close>

definition send_read ::
  "'e gh_host \<Rightarrow> ptr \<Rightarrow> 'e gh_world \<Rightarrow> (bool \<times> 'e gh_world) option" where
  "send_read H d w = do {
     data \<leftarrow> gh_incls w d;
     pdu \<leftarrow> array_slice (res_pdu (ri_result data)) (ri_pos data + 2) 2;
     let w = set_incl d (Some (data\<lparr>ri_pos := ri_pos data + res_data_len (ri_result data)\<rparr>)) w;
     w \<leftarrow> read_included_ref d w;
     (i, e) \<leftarrow> gh_send H BT_ATT_OP_READ_REQ pdu (ReadIncludedCb d) (bearer w);
     Some (i \<noteq> 0, w\<lparr>bearer := e\<rparr>) }"

definition read_included_cb :: "'e gh_host \<Rightarrow> byte \<Rightarrow> bytes option \<Rightarrow> ptr \<Rightarrow> 'e gh_world \<Rightarrow> 'e gh_world option" where
  "read_included_cb H opcode pdu d w = do {
     data \<leftarrow> gh_incls w d;
     let p = ri_op data;
     let failed = discovery_op_complete H p False;
     if opcode = BT_ATT_OP_ERROR_RSP then failed (process_error pdu) w
     else if opcode \<noteq> BT_ATT_OP_READ_RSP then failed 0 w
     else if pdu_length pdu \<noteq> 16 then failed 0 w
     else do {
       value \<leftarrow> pdu;
       (result, w) \<leftarrow> result_append H opcode value 16 16 p w;
       if result = None then failed 0 w
       else if ri_pos data = res_pdu_len (ri_result data) then do {
         last_handle \<leftarrow> get_le16 (drop (ri_pos data - res_data_len (ri_result data)) (res_pdu (ri_result data)));
         op \<leftarrow> gh_reqs w p;
         if last_handle = end_handle op then discovery_op_complete H p True 0 w
         else send_next H p BT_ATT_OP_READ_BY_TYPE_REQ
                (put_le16 (last_handle + 1) @ put_le16 (end_handle op) @ put_le16 GATT_INCLUDE_UUID) (DiscoverIncludedCb p) w }
       else do {
         (sent, w) \<leftarrow> send_read H d w;
         if sent then Some w
         else do {
           w \<leftarrow> read_included_unref H d w;
           failed 0 w } } } }"

definition read_included :: "'e gh_host \<Rightarrow> ptr \<Rightarrow> 'e gh_world \<Rightarrow> 'e gh_world option" where
  "read_included H d w = do {
     (sent, w) \<leftarrow> send_read H d w;
     if sent then Some w
     else do {
       data \<leftarrow> gh_incls w d;
       op \<leftarrow> gh_reqs w (ri_op data);
       w \<leftarrow> (case req_callback op of None \<Rightarrow> Some w | Some c \<Rightarrow> gh_call H c False 0 [] w);
       read_included_unref H d w } }"

definition discover_included_cb :: "'e gh_host \<Rightarrow> byte \<Rightarrow> bytes option \<Rightarrow> ptr \<Rightarrow> 'e gh_world \<Rightarrow> 'e gh_world option" where
  "discover_included_cb H opcode pdu p w =
     (let len = pdu_length pdu; failed = discovery_op_complete H p False 0 in
      if opcode = BT_ATT_OP_ERROR_RSP then error_response H p pdu w
      else if opcode \<noteq> BT_ATT_OP_READ_BY_TYPE_RSP \<or> pdu = None \<or> len < 6 then failed w
      else do {
        d \<leftarrow> pdu;
        first \<leftarrow> array_get d 0;
        let data_length = unat first;
        if (data_length \<noteq> 8 \<and> data_length \<noteq> 6) \<or> (len - 1) mod data_length \<noteq> 0 then failed w
        else do {
          (cur_result, w) \<leftarrow> result_append H opcode (drop 1 d) (len - 1) data_length p w;
          case cur_result of None \<Rightarrow> failed w
          | Some res \<Rightarrow>
              if data_length = 6 then do {
                (data, w) \<leftarrow> new_read_included H res w;
                case data of None \<Rightarrow> failed w | Some i \<Rightarrow> read_included H i w }
              else do {
                last_handle \<leftarrow> get_le16 (drop (len - data_length) d);
                op \<leftarrow> gh_reqs w p;
                if last_handle \<noteq> end_handle op
                then send_next H p BT_ATT_OP_READ_BY_TYPE_REQ
                       (put_le16 (last_handle + 1) @ put_le16 (end_handle op) @ put_le16 GATT_INCLUDE_UUID) (DiscoverIncludedCb p) w
                else discovery_op_complete H p True 0 w } } })"

text \<open>Starting a procedure that has only a range.\<close>

definition discover_range ::
  "'e gh_host \<Rightarrow> bool \<Rightarrow> u16 \<Rightarrow> nat option \<Rightarrow> nat option \<Rightarrow> byte \<Rightarrow> bytes \<Rightarrow> (ptr \<Rightarrow> gh_cb) \<Rightarrow> 'e gh_world \<Rightarrow>
     (ptr option \<times> 'e gh_world) option" where
  "discover_range H att end_h callback destroy opcode pdu cb w =
     (if \<not> att then Some (None, w)
      else case new_request H end_h BT_UUID_UNSPEC 0 callback destroy w of
        None \<Rightarrow> Some (None, w)
      | Some (p, w) \<Rightarrow> start_request H p opcode pdu (cb p) w)"

definition bt_gatt_discover_included_services ::
  "'e gh_host \<Rightarrow> bool \<Rightarrow> u16 \<Rightarrow> u16 \<Rightarrow> nat option \<Rightarrow> nat option \<Rightarrow> 'e gh_world \<Rightarrow> (ptr option \<times> 'e gh_world) option" where
  "bt_gatt_discover_included_services H att start end_h callback destroy =
     discover_range H att end_h callback destroy BT_ATT_OP_READ_BY_TYPE_REQ
       (put_le16 start @ put_le16 end_h @ put_le16 GATT_INCLUDE_UUID) DiscoverIncludedCb"

section \<open>Characteristics, descriptors, attributes of a type\<close>

definition discover_chrcs_cb :: "'e gh_host \<Rightarrow> byte \<Rightarrow> bytes option \<Rightarrow> ptr \<Rightarrow> 'e gh_world \<Rightarrow> 'e gh_world option" where
  "discover_chrcs_cb H opcode pdu p w =
     (let len = pdu_length pdu; failed = discovery_op_complete H p False 0 in
      if opcode = BT_ATT_OP_ERROR_RSP then error_response H p pdu w
      else if opcode \<noteq> BT_ATT_OP_READ_BY_TYPE_RSP \<or> pdu = None \<or> len < 8 then failed w
      else do {
        d \<leftarrow> pdu;
        first \<leftarrow> array_get d 0;
        let data_length = unat first;
        if (data_length \<noteq> 7 \<and> data_length \<noteq> 21) \<or> (len - 1) mod data_length \<noteq> 0 then failed w
        else do {
          (result, w) \<leftarrow> result_append H opcode (drop 1 d) (len - 1) data_length p w;
          if result = None then failed w
          else do {
            last_handle \<leftarrow> get_le16 (drop (len - data_length) d);
            op \<leftarrow> gh_reqs w p;
            if last_handle \<noteq> end_handle op
            then send_next H p BT_ATT_OP_READ_BY_TYPE_REQ
                   (put_le16 (last_handle + 1) @ put_le16 (end_handle op) @ put_le16 GATT_CHARAC_UUID) (DiscoverChrcsCb p) w
            else discovery_op_complete H p True 0 w } } })"

definition bt_gatt_discover_characteristics ::
  "'e gh_host \<Rightarrow> bool \<Rightarrow> u16 \<Rightarrow> u16 \<Rightarrow> nat option \<Rightarrow> nat option \<Rightarrow> 'e gh_world \<Rightarrow> (ptr option \<times> 'e gh_world) option" where
  "bt_gatt_discover_characteristics H att start end_h callback destroy =
     discover_range H att end_h callback destroy BT_ATT_OP_READ_BY_TYPE_REQ
       (put_le16 start @ put_le16 end_h @ put_le16 GATT_CHARAC_UUID) DiscoverChrcsCb"

text \<open>The length of an element is what the peer says, also 0, by which the code divides.\<close>

definition read_by_type_cb :: "'e gh_host \<Rightarrow> byte \<Rightarrow> bytes option \<Rightarrow> ptr \<Rightarrow> 'e gh_world \<Rightarrow> 'e gh_world option" where
  "read_by_type_cb H opcode pdu p w =
     (let len = pdu_length pdu; failed = discovery_op_complete H p False 0 in
      if opcode = BT_ATT_OP_ERROR_RSP then error_response H p pdu w
      else if opcode \<noteq> BT_ATT_OP_READ_BY_TYPE_RSP \<or> pdu = None then failed w
      else do {
        d \<leftarrow> pdu;
        first \<leftarrow> array_get d 0;
        let data_length = unat first;
        if data_length = 0 then None
        else if (len - 1) mod data_length \<noteq> 0 then failed w
        else do {
          (result, w) \<leftarrow> result_append H opcode (drop 1 d) (len - 1) data_length p w;
          if result = None then failed w
          else do {
            last_handle \<leftarrow> (if len < data_length then None else get_le16 (drop (len - data_length) d));
            op \<leftarrow> gh_reqs w p;
            if last_handle \<noteq> end_handle op
            then do {
              u \<leftarrow> uuid_pdu (req_uuid op);
              send_next H p BT_ATT_OP_READ_BY_TYPE_REQ
                (put_le16 (last_handle + 1) @ put_le16 (end_handle op) @ u) (ReadByTypeCb p) w }
            else discovery_op_complete H p True 0 w } } })"

definition bt_gatt_read_by_type ::
  "'e gh_host \<Rightarrow> bool \<Rightarrow> u16 \<Rightarrow> u16 \<Rightarrow> bt_uuid option \<Rightarrow> nat option \<Rightarrow> nat option \<Rightarrow> 'e gh_world \<Rightarrow>
     (bool \<times> 'e gh_world) option" where
  "bt_gatt_read_by_type H att start end_h uuid callback destroy w =
     (case uuid of None \<Rightarrow> Some (False, w)
      | Some u \<Rightarrow>
          if \<not> att \<or> u = BT_UUID_UNSPEC then Some (False, w)
          else case new_request H end_h u 0 callback destroy w of
            None \<Rightarrow> Some (False, w)
          | Some (p, w) \<Rightarrow> do {
              b \<leftarrow> uuid_pdu u;
              (i, w) \<leftarrow> send_request H p BT_ATT_OP_READ_BY_TYPE_REQ (put_le16 start @ put_le16 end_h @ b) (ReadByTypeCb p) w;
              if i \<noteq> 0 then Some (True, w) else Some (False, set_req p None w) })"

definition discover_descs_cb :: "'e gh_host \<Rightarrow> byte \<Rightarrow> bytes option \<Rightarrow> ptr \<Rightarrow> 'e gh_world \<Rightarrow> 'e gh_world option" where
  "discover_descs_cb H opcode pdu p w =
     (let len = pdu_length pdu; failed = discovery_op_complete H p False 0 in
      if opcode = BT_ATT_OP_ERROR_RSP then error_response H p pdu w
      else if opcode \<noteq> BT_ATT_OP_FIND_INFO_RSP \<or> pdu = None \<or> len < 5 then failed w
      else do {
        d \<leftarrow> pdu;
        format \<leftarrow> array_get d 0;
        if format \<noteq> 1 \<and> format \<noteq> 2 then failed w
        else do {
          let data_length = (if format = 1 then 4 else 18);
          if (len - 1) mod data_length \<noteq> 0 then failed w
          else do {
            (result, w) \<leftarrow> result_append H opcode (drop 1 d) (len - 1) data_length p w;
            if result = None then failed w
            else do {
              last_handle \<leftarrow> get_le16 (drop (len - data_length) d);
              op \<leftarrow> gh_reqs w p;
              if last_handle \<noteq> end_handle op
              then send_next H p BT_ATT_OP_FIND_INFO_REQ
                     (put_le16 (last_handle + 1) @ put_le16 (end_handle op)) (DiscoverDescsCb p) w
              else discovery_op_complete H p True 0 w } } } })"

definition bt_gatt_discover_descriptors ::
  "'e gh_host \<Rightarrow> bool \<Rightarrow> u16 \<Rightarrow> u16 \<Rightarrow> nat option \<Rightarrow> nat option \<Rightarrow> 'e gh_world \<Rightarrow> (ptr option \<times> 'e gh_world) option" where
  "bt_gatt_discover_descriptors H att start end_h callback destroy =
     discover_range H att end_h callback destroy BT_ATT_OP_FIND_INFO_REQ
       (put_le16 start @ put_le16 end_h) DiscoverDescsCb"

section \<open>The answers of the bearer\<close>

fun gh_callback :: "'e gh_host \<Rightarrow> gh_cb \<Rightarrow> byte \<Rightarrow> bytes option \<Rightarrow> 'e gh_world \<Rightarrow> 'e gh_world option" where
  "gh_callback H (ReadByGrpTypeCb p) opcode pdu w = read_by_grp_type_cb H opcode pdu p w"
| "gh_callback H (FindByTypeValCb p) opcode pdu w = find_by_type_val_cb H opcode pdu p w"
| "gh_callback H (DiscoverIncludedCb p) opcode pdu w = discover_included_cb H opcode pdu p w"
| "gh_callback H (DiscoverChrcsCb p) opcode pdu w = discover_chrcs_cb H opcode pdu p w"
| "gh_callback H (DiscoverDescsCb p) opcode pdu w = discover_descs_cb H opcode pdu p w"
| "gh_callback H (ReadByTypeCb p) opcode pdu w = read_by_type_cb H opcode pdu p w"
| "gh_callback H (ReadIncludedCb d) opcode pdu w = read_included_cb H opcode pdu d w"
| "gh_callback H (MtuCb m) opcode pdu w = mtu_cb H opcode pdu m w"

text \<open>The bearer calls the callback of the operation and then releases what it was given.\<close>

definition gh_respond :: "'e gh_host \<Rightarrow> gh_cb \<Rightarrow> byte \<Rightarrow> bytes option \<Rightarrow> 'e gh_world \<Rightarrow> 'e gh_world option" where
  "gh_respond H cb opcode pdu w = do {
     w \<leftarrow> gh_callback H cb opcode pdu w;
     release H (user_data cb) w }"

end
