(* ===== verification/Discovery.thy ===== *)
theory Discovery
  imports GattHelpers
begin

text \<open>
  What the discovery procedures of \<open>GattHelpers\<close> find. The locale \<open>att_link\<close> is the contract of a bearer
  that takes every request, and of a client that notes what its callback is given. \<open>procedure\<close> is what
  the procedures have in common: an answer with elements is kept and leads to the request behind its
  last element, an error ends the procedure. Against a server that answers every request with the
  first elements of the range, a procedure ends and hands over exactly the elements in the range.
  \<open>procedure\<close> is interpreted for services, characteristics and descriptors.
\<close>

section \<open>Answering requests\<close>

definition answer ::
  "'e gh_host \<Rightarrow> ('e \<Rightarrow> (byte \<times> bytes \<times> gh_cb) list) \<Rightarrow> ('e \<Rightarrow> 'e) \<Rightarrow> (byte \<Rightarrow> bytes \<Rightarrow> byte \<times> bytes) \<Rightarrow>
     'e gh_world \<Rightarrow> 'e gh_world option" where
  "answer H sent pop server w =
     (case sent (bearer w) of [] \<Rightarrow> None
      | (opcode, pdu, cb) # _ \<Rightarrow>
          (case server opcode pdu of (rsp, d) \<Rightarrow> gh_respond H cb rsp (Some d) (w\<lparr>bearer := pop (bearer w)\<rparr>)))"

text \<open>Until nothing is waiting for an answer; \<open>None\<close> when that never happens.\<close>

partial_function (option) run_link ::
  "'e gh_host \<Rightarrow> ('e \<Rightarrow> (byte \<times> bytes \<times> gh_cb) list) \<Rightarrow> ('e \<Rightarrow> 'e) \<Rightarrow> (byte \<Rightarrow> bytes \<Rightarrow> byte \<times> bytes) \<Rightarrow>
     'e gh_world \<Rightarrow> 'e gh_world option" where
  [code]: "run_link H sent pop server w =
     (if sent (bearer w) = [] then Some w
      else do { w \<leftarrow> answer H sent pop server w; run_link H sent pop server w })"

text \<open>
  The bearer takes the requests of the procedures in order: \<open>sent\<close> is what waits for an answer. The
  client notes in \<open>outcome\<close> what its callback gets.
\<close>

type_synonym report = "nat \<times> bool \<times> byte \<times> bt_gatt_result list"

locale att_link =
  fixes H :: "'e gh_host"
    and sent :: "'e \<Rightarrow> (byte \<times> bytes \<times> gh_cb) list"
    and pop :: "'e \<Rightarrow> 'e"
    and ok :: "'e \<Rightarrow> bool"
    and outcome :: "'e \<Rightarrow> report list"
  assumes alloc: "gh_alloc H w"
    and send: "ok e \<Longrightarrow> length pdu \<le> 22 \<Longrightarrow> opcode \<in> {0x04, 0x06, 0x08, 0x0A, 0x10} \<Longrightarrow>
      \<exists>i e'. gh_send H opcode pdu cb e = Some (i, e') \<and> i \<noteq> 0 \<and> ok e' \<and>
        sent e' = sent e @ [(opcode, pdu, cb)] \<and> outcome e' = outcome e"
    and pop: "ok e \<Longrightarrow> ok (pop e) \<and> sent (pop e) = tl (sent e) \<and> outcome (pop e) = outcome e"
    and note_call: "ok (bearer w) \<Longrightarrow> \<exists>e. gh_call H c s ec rs w = Some (w\<lparr>bearer := e\<rparr>) \<and> ok e \<and> sent e = sent (bearer w) \<and>
      outcome e = outcome (bearer w) @ [(c, s, ec, rs)]"
begin

lemma send_request_ok:
  assumes "ok (bearer w)" "gh_reqs w p = Some r" "length pdu \<le> 22" "opcode \<in> {0x04, 0x06, 0x08, 0x0A, 0x10}"
  shows "\<exists>i e. i \<noteq> 0 \<and> send_request H p opcode pdu cb w =
      Some (i, set_req p (Some (r\<lparr>req_refs := req_refs r + 1, req_id := i\<rparr>)) (w\<lparr>bearer := e\<rparr>)) \<and> ok e \<and>
    sent e = sent (bearer w) @ [(opcode, pdu, cb)] \<and> outcome e = outcome (bearer w)"
proof -
  obtain i e where s: "gh_send H opcode pdu cb (bearer w) = Some (i, e)" "i \<noteq> 0" "ok e"
      "sent e = sent (bearer w) @ [(opcode, pdu, cb)]" "outcome e = outcome (bearer w)"
    using send [OF assms(1,3,4)] by blast
  have "send_request H p opcode pdu cb w =
      Some (i, set_req p (Some (r\<lparr>req_refs := req_refs r + 1, req_id := i\<rparr>)) (w\<lparr>bearer := e\<rparr>))"
    using s assms(2) by (simp add: send_request_def bt_gatt_request_ref_def set_req_def)
  then show ?thesis using s by blast
qed

text \<open>The end of a procedure whose request is held by the bearer and by the caller.\<close>

lemma complete_and_release:
  assumes "ok (bearer w)" "gh_reqs w p = Some r" "req_callback r = Some c" "req_refs r = 2" "req_id r \<noteq> 0"
  shows "\<exists>w'. (discovery_op_complete H p s ec w \<bind> release H (Req p)) = Some w' \<and> ok (bearer w') \<and>
    sent (bearer w') = sent (bearer w) \<and>
    outcome (bearer w') = outcome (bearer w) @ [(c, s, ec, if s then results r else [])] \<and>
    gh_reqs w' p = Some (r\<lparr>req_id := 0, req_refs := 1\<rparr>)"
proof -
  obtain e where n: "gh_call H c s ec (if s then results r else []) w = Some (w\<lparr>bearer := e\<rparr>)" "ok e"
      "sent e = sent (bearer w)" "outcome e = outcome (bearer w) @ [(c, s, ec, if s then results r else [])]"
    using note_call [OF assms(1)] by blast
  let ?w = "set_req p (Some (r\<lparr>req_id := 0, req_refs := 1\<rparr>)) (w\<lparr>bearer := e\<rparr>)"
  have d: "discovery_op_complete H p s ec w = Some (set_req p (Some (r\<lparr>req_id := 0\<rparr>)) (w\<lparr>bearer := e\<rparr>))"
    using assms n(1) by (simp add: discovery_op_complete_def)
  have "(discovery_op_complete H p s ec w \<bind> release H (Req p)) = Some ?w"
    using assms(4) unfolding d
    by (subst Option.bind.simps, subst release.simps) (simp add: set_req_def)
  then show ?thesis using n by (intro exI [of _ ?w]) (simp add: set_req_def)
qed

end


section \<open>Elements in a range\<close>

text \<open>The elements of a server with their first and last handle, in ascending order without overlap.\<close>

definition ordered :: "('a \<Rightarrow> u16) \<Rightarrow> ('a \<Rightarrow> u16) \<Rightarrow> 'a list \<Rightarrow> bool" where
  "ordered key hdl xs \<longleftrightarrow> (\<forall>x \<in> set xs. 0 < key x \<and> key x \<le> hdl x) \<and> sorted_wrt (\<lambda>x y. hdl x < key y) xs"

definition in_range :: "('a \<Rightarrow> u16) \<Rightarrow> u16 \<Rightarrow> u16 \<Rightarrow> 'a list \<Rightarrow> 'a list" where
  "in_range key lo hi xs = filter (\<lambda>x. lo \<le> key x \<and> key x \<le> hi) xs"

lemma less_plus_1: "(h :: u16) < k \<Longrightarrow> h + 1 \<le> k"
  by (simp add: word_le_nat_alt word_less_nat_alt unat_word_ariths)

lemma plus_1_le: "(h :: u16) < hi \<Longrightarrow> h + 1 \<le> k \<Longrightarrow> h < k"
  using unat_u16_lt [of hi] by (simp add: word_le_nat_alt word_less_nat_alt unat_word_ariths)

lemma plus_1_positive: "(h :: u16) < hi \<Longrightarrow> 0 < h + 1"
  using unat_u16_lt [of hi] by (simp add: word_le_nat_alt word_less_nat_alt unat_word_ariths)

text \<open>Behind the last of the first \<open>n\<close> elements come the others.\<close>

lemma in_range_behind:
  assumes o: "ordered key hdl xs" and ss: "in_range key lo hi xs = as @ bs" and as: "as \<noteq> []"
    and h: "hdl (last as) < hi"
  shows "in_range key (hdl (last as) + 1) hi xs = bs"
proof -
  have o': "ordered key hdl (as @ bs)"
    using o unfolding ss [symmetric] ordered_def in_range_def by (auto intro: sorted_wrt_filter)
  let ?h = "hdl (last as)"
  have "in_range key (?h + 1) hi xs = filter (\<lambda>x. ?h + 1 \<le> key x) (in_range key lo hi xs)"
  proof -
    have "lo \<le> ?h"
    proof -
      have "last as \<in> set (in_range key lo hi xs)" using as ss by simp
      then show ?thesis using o by (auto simp: in_range_def ordered_def intro: order_trans)
    qed
    then show ?thesis using plus_1_le [OF h]
      unfolding in_range_def filter_filter by (intro filter_cong refl) (auto intro: less_imp_le order_trans)
  qed
  moreover have "\<not> ?h + 1 \<le> key x" if "x \<in> set as" for x
  proof -
    have "key x \<le> ?h"
    proof (cases "x = last as")
      case True then show ?thesis using o' as by (simp add: ordered_def)
    next
      case False
      have "as = butlast as @ [last as]" using as by simp
      then have "x \<in> set (butlast as)" using that False by (metis in_set_butlastD UnE set_append set_ConsD empty_iff list.set(1))
      moreover have "sorted_wrt (\<lambda>x y. hdl x < key y) (butlast as @ [last as])"
        using o' as by (simp add: ordered_def sorted_wrt_append)
      ultimately have "hdl x < key (last as)" by (simp add: sorted_wrt_append)
      then show ?thesis using o' as that
        by (simp add: ordered_def) (meson Un_iff last_in_set less_imp_le order_trans)
    qed
    then show ?thesis using plus_1_le [OF h] by force
  qed
  moreover have "?h + 1 \<le> key x" if "x \<in> set bs" for x
  proof -
    have "\<forall>x \<in> set as. \<forall>y \<in> set bs. hdl x < key y" using o' by (simp add: ordered_def sorted_wrt_append)
    then show ?thesis using that as by (intro less_plus_1) simp
  qed
  ultimately show ?thesis unfolding ss by simp
qed


section \<open>A procedure\<close>

text \<open>
  What a compliant server does: it answers a request for a range with some of the first elements in
  it, or with Attribute Not Found when there are none.
\<close>

definition not_found :: "bytes \<Rightarrow> bool" where
  "not_found d \<longleftrightarrow> length d = 4 \<and> d ! 3 = BT_ATT_ERROR_ATTRIBUTE_NOT_FOUND"

definition compliant ::
  "byte \<Rightarrow> byte \<Rightarrow> (u16 \<Rightarrow> u16 \<Rightarrow> bytes) \<Rightarrow> ('a list \<Rightarrow> bytes) \<Rightarrow> ('a list \<Rightarrow> bool) \<Rightarrow> ('a \<Rightarrow> u16) \<Rightarrow>
     (byte \<Rightarrow> bytes \<Rightarrow> byte \<times> bytes) \<Rightarrow> 'a list \<Rightarrow> bool" where
  "compliant req rsp request payload chunk key server xs \<longleftrightarrow>
     (\<forall>lo hi. 0 < lo \<longrightarrow> lo \<le> hi \<longrightarrow>
        (if in_range key lo hi xs = [] then \<exists>d. server req (request lo hi) = (BT_ATT_OP_ERROR_RSP, d) \<and> not_found d
         else \<exists>as bs. in_range key lo hi xs = as @ bs \<and> as \<noteq> [] \<and> chunk as \<and> server req (request lo hi) = (rsp, payload as)))"

text \<open>What a procedure keeps of an answer.\<close>

definition kept :: "byte \<Rightarrow> ('a \<Rightarrow> bytes) \<Rightarrow> ptr \<Rightarrow> 'a list \<Rightarrow> bt_gatt_result" where
  "kept rsp enc p es = \<lparr>res_opcode = rsp, res_pdu = concat (map enc es), res_pdu_len = length (concat (map enc es)),
     res_data_len = length (enc (hd es)), res_op = p\<rparr>"

definition keep :: "ptr \<Rightarrow> bt_gatt_request \<Rightarrow> bt_gatt_result \<Rightarrow> 'e gh_world \<Rightarrow> 'e gh_world" where
  "keep p r res w = set_req p (Some (r\<lparr>results := results r @ [res]\<rparr>)) w"

lemma req_update_order:
  "r\<lparr>results := rs, req_id := i, req_refs := n\<rparr> = r\<lparr>results := rs, req_refs := n, req_id := i\<rparr>"
  by simp

locale procedure = att_link H sent pop ok outcome
  for H :: "'e gh_host" and sent pop ok outcome +
  fixes cb :: "ptr \<Rightarrow> gh_cb"
    and req rsp :: byte
    and request :: "u16 \<Rightarrow> u16 \<Rightarrow> bytes"
    and enc :: "'a \<Rightarrow> bytes"
    and payload :: "'a list \<Rightarrow> bytes"
    and chunk :: "'a list \<Rightarrow> bool"
    and key hdl :: "'a \<Rightarrow> u16"
    and fits :: "bt_gatt_request \<Rightarrow> bool"
  assumes object: "user_data (cb p) = Req p"
    and request_short: "length (request lo hi) \<le> 22"
    and request_op: "req \<in> {0x04, 0x06, 0x08, 0x0A, 0x10}"
    and fits_update: "fits r \<Longrightarrow> fits (r\<lparr>results := rs, req_refs := n, req_id := i\<rparr>)"
    and response: "gh_reqs w p = Some r \<Longrightarrow> fits r \<Longrightarrow> chunk es \<Longrightarrow> hdl (last es) \<le> end_handle r \<Longrightarrow>
      gh_callback H (cb p) rsp (Some (payload es)) w =
        (let w = keep p r (kept rsp enc p es) w in
         if hdl (last es) < end_handle r then send_next H p req (request (hdl (last es) + 1) (end_handle r)) (cb p) w
         else discovery_op_complete H p True 0 w)"
    and error: "gh_callback H (cb p) BT_ATT_OP_ERROR_RSP (Some d) w = error_response H p (Some d) w"
begin

definition waiting :: "nat \<Rightarrow> ptr \<Rightarrow> u16 \<Rightarrow> u16 \<Rightarrow> bt_gatt_request \<Rightarrow> 'e gh_world \<Rightarrow> bool" where
  "waiting c p lo hi r w \<longleftrightarrow> ok (bearer w) \<and> sent (bearer w) = [(req, request lo hi, cb p)] \<and> gh_reqs w p = Some r \<and>
     fits r \<and> end_handle r = hi \<and> req_callback r = Some c \<and> req_refs r = 2 \<and> req_id r \<noteq> 0"

abbreviation reported :: "nat \<Rightarrow> ptr \<Rightarrow> bt_gatt_request \<Rightarrow> bt_gatt_result list \<Rightarrow> 'e gh_world \<Rightarrow> 'e gh_world \<Rightarrow> bool" where
  "reported c p r rs w w' \<equiv> sent (bearer w') = [] \<and>
     (\<exists>r'. gh_reqs w' p = Some r' \<and> req_refs r' = 1 \<and> req_uuid r' = req_uuid r \<and> end_handle r' = end_handle r) \<and>
     (\<exists>ec. outcome (bearer w') = outcome (bearer w) @ [(c, rs \<noteq> [], ec, rs)])"

lemma not_found_ends:
  assumes "waiting c p lo hi r w" "not_found d"
  shows "\<exists>w'. gh_respond H (cb p) BT_ATT_OP_ERROR_RSP (Some d) (w\<lparr>bearer := pop (bearer w)\<rparr>) = Some w' \<and>
    reported c p r (results r) w w'"
proof -
  let ?w = "w\<lparr>bearer := pop (bearer w)\<rparr>"
  have w: "ok (bearer ?w)" "sent (bearer ?w) = []" "outcome (bearer ?w) = outcome (bearer w)"
      "gh_reqs ?w p = Some r" "req_callback r = Some c" "req_refs r = 2" "req_id r \<noteq> 0"
    using assms(1) pop [of "bearer w"] by (simp_all add: waiting_def)
  have e: "process_error (Some d) = BT_ATT_ERROR_ATTRIBUTE_NOT_FOUND"
    using assms(2) by (simp add: process_error_def not_found_def)
  have "gh_respond H (cb p) BT_ATT_OP_ERROR_RSP (Some d) ?w =
      (discovery_op_complete H p (results r \<noteq> []) BT_ATT_ERROR_ATTRIBUTE_NOT_FOUND ?w \<bind> release H (Req p))"
    using w(4) by (simp add: gh_respond_def error error_response_def object e)
  then show ?thesis
    using complete_and_release [OF w(1,4-7), of "results r \<noteq> []" BT_ATT_ERROR_ATTRIBUTE_NOT_FOUND] w by auto
qed

lemma last_answer_ends:
  assumes "waiting c p lo hi r w" "chunk es" "hdl (last es) = hi"
  shows "\<exists>w'. gh_respond H (cb p) rsp (Some (payload es)) (w\<lparr>bearer := pop (bearer w)\<rparr>) = Some w' \<and>
    reported c p r (results r @ [kept rsp enc p es]) w w'"
proof -
  let ?w = "w\<lparr>bearer := pop (bearer w)\<rparr>"
  let ?r = "r\<lparr>results := results r @ [kept rsp enc p es]\<rparr>"
  let ?k = "keep p r (kept rsp enc p es) ?w"
  have w: "ok (bearer ?k)" "sent (bearer ?k) = []" "outcome (bearer ?k) = outcome (bearer w)"
      "gh_reqs ?k p = Some ?r" "req_callback ?r = Some c" "req_refs ?r = 2" "req_id ?r \<noteq> 0"
    using assms(1) pop [of "bearer w"] by (simp_all add: waiting_def keep_def set_req_def)
  have "gh_respond H (cb p) rsp (Some (payload es)) ?w = (discovery_op_complete H p True 0 ?k \<bind> release H (Req p))"
    using assms by (simp add: gh_respond_def response [of ?w p r] object waiting_def)
  then show ?thesis
    using complete_and_release [OF w(1,4-7), of True 0] w by auto
qed

lemma answer_continues:
  assumes "waiting c p lo hi r w" "chunk es" "hdl (last es) < hi"
  shows "\<exists>w' i. gh_respond H (cb p) rsp (Some (payload es)) (w\<lparr>bearer := pop (bearer w)\<rparr>) = Some w' \<and>
    waiting c p (hdl (last es) + 1) hi (r\<lparr>results := results r @ [kept rsp enc p es], req_refs := 2, req_id := i\<rparr>) w' \<and>
    outcome (bearer w') = outcome (bearer w)"
proof -
  let ?w = "w\<lparr>bearer := pop (bearer w)\<rparr>"
  let ?r = "r\<lparr>results := results r @ [kept rsp enc p es]\<rparr>"
  let ?k = "keep p r (kept rsp enc p es) ?w"
  let ?q = "request (hdl (last es) + 1) hi"
  have w: "ok (bearer ?k)" "sent (bearer ?k) = []" "outcome (bearer ?k) = outcome (bearer w)" "gh_reqs ?k p = Some ?r"
    using assms(1) pop [of "bearer w"] by (simp_all add: waiting_def keep_def set_req_def)
  obtain i e where s: "i \<noteq> 0" "send_request H p req ?q (cb p) ?k =
      Some (i, set_req p (Some (?r\<lparr>req_refs := req_refs ?r + 1, req_id := i\<rparr>)) (?k\<lparr>bearer := e\<rparr>))" "ok e"
      "sent e = sent (bearer ?k) @ [(req, ?q, cb p)]" "outcome e = outcome (bearer ?k)"
    using send_request_ok [OF w(1,4) request_short request_op] by blast
  let ?r' = "r\<lparr>results := results r @ [kept rsp enc p es], req_refs := 2, req_id := i\<rparr>"
  let ?w' = "set_req p (Some ?r') (?k\<lparr>bearer := e\<rparr>)"
  have refs: "req_refs r = 2" "end_handle r = hi" "fits r" using assms(1) by (simp_all add: waiting_def)
  have g: "gh_respond H (cb p) rsp (Some (payload es)) ?w = (send_next H p req ?q (cb p) ?k \<bind> release H (Req p))"
    using assms by (simp add: gh_respond_def response [of ?w p r] object waiting_def)
  have n: "send_next H p req ?q (cb p) ?k = 
      Some (set_req p (Some (r\<lparr>results := results r @ [kept rsp enc p es], req_refs := 3, req_id := i\<rparr>)) (?k\<lparr>bearer := e\<rparr>))"
    using s(1,2) refs by (simp add: send_next_def)
  have "gh_respond H (cb p) rsp (Some (payload es)) ?w = Some ?w'"
    unfolding g n by (subst Option.bind.simps, subst release.simps) (simp add: set_req_def req_update_order)
  moreover have "waiting c p (hdl (last es) + 1) hi ?r' ?w'"
    using assms(1) s w refs fits_update [OF refs(3)] by (simp add: waiting_def set_req_def)
  moreover have "outcome (bearer ?w') = outcome (bearer w)" using s w by (simp add: set_req_def)
  ultimately show ?thesis by blast
qed

lemma procedure_completes:
  assumes server: "compliant req rsp request payload chunk key server xs" and o: "ordered key hdl xs"
    and inside: "\<forall>x \<in> set (in_range key lo hi xs). hdl x \<le> hi"
    and w: "waiting c p lo hi r w" and range: "0 < lo" "lo \<le> hi"
  shows "\<exists>w' chunks. run_link H sent pop server w = Some w' \<and> concat chunks = in_range key lo hi xs \<and>
    (\<forall>es \<in> set chunks. chunk es) \<and> reported c p r (results r @ map (kept rsp enc p) chunks) w w'"
  using inside w range
proof (induction "length (in_range key lo hi xs)" arbitrary: lo r w rule: less_induct)
  case less
  note run = run_link.simps [of H sent pop server w]
  have waits: "sent (bearer w) = [(req, request lo hi, cb p)]" using less.prems(2) by (simp add: waiting_def)
  show ?case
  proof (cases "in_range key lo hi xs = []")
    case True
    then obtain d where d: "server req (request lo hi) = (BT_ATT_OP_ERROR_RSP, d)" "not_found d"
      using server [unfolded compliant_def, rule_format, OF less.prems(3,4)] by auto
    obtain w' where w': "gh_respond H (cb p) BT_ATT_OP_ERROR_RSP (Some d) (w\<lparr>bearer := pop (bearer w)\<rparr>) = Some w'"
        "reported c p r (results r) w w'"
      using not_found_ends [OF less.prems(2) d(2)] by blast
    have "run_link H sent pop server w = Some w'"
      using waits d w' by (simp add: run answer_def run_link.simps [of H sent pop server w'])
    then show ?thesis using w'(2) True by (intro exI [of _ w'] exI [of _ "[]"]) simp
  next
    case False
    then obtain as bs where a: "in_range key lo hi xs = as @ bs" "as \<noteq> []" "chunk as"
        "server req (request lo hi) = (rsp, payload as)"
      using server [unfolded compliant_def, rule_format, OF less.prems(3,4)] by auto
    have le: "hdl (last as) \<le> hi" using less.prems(1) a(1,2) by simp
    let ?res = "kept rsp enc p as"
    show ?thesis
    proof (cases "hdl (last as) = hi")
      case True
      obtain w' where w': "gh_respond H (cb p) rsp (Some (payload as)) (w\<lparr>bearer := pop (bearer w)\<rparr>) = Some w'"
          "reported c p r (results r @ [?res]) w w'"
        using last_answer_ends [OF less.prems(2) a(3) True] by blast
      have "bs = []"
      proof (cases bs)
        case (Cons b bs')
        have "b \<in> set (in_range key lo hi xs)" using a(1) Cons by simp
        then have "key b \<le> hi" by (simp add: in_range_def)
        moreover have "sorted_wrt (\<lambda>x y. hdl x < key y) (as @ b # bs')"
          using o unfolding a(1) [symmetric, unfolded Cons] ordered_def in_range_def by (auto intro: sorted_wrt_filter)
        then have "hdl (last as) < key b" using a(2) by (simp add: sorted_wrt_append)
        ultimately show ?thesis using True by simp
      qed
      moreover have "run_link H sent pop server w = Some w'"
        using waits a(4) w' by (simp add: run answer_def run_link.simps [of H sent pop server w'])
      ultimately show ?thesis using w'(2) a by (intro exI [of _ w'] exI [of _ "[as]"]) simp
    next
      case neq: False
      then have lt: "hdl (last as) < hi" using le by simp
      let ?lo = "hdl (last as) + 1"
      have rest: "in_range key ?lo hi xs = bs" by (rule in_range_behind [OF o a(1,2) lt])
      obtain w' i where w': "gh_respond H (cb p) rsp (Some (payload as)) (w\<lparr>bearer := pop (bearer w)\<rparr>) = Some w'"
          "waiting c p ?lo hi (r\<lparr>results := results r @ [?res], req_refs := 2, req_id := i\<rparr>) w'"
          "outcome (bearer w') = outcome (bearer w)"
        using answer_continues [OF less.prems(2) a(3) lt] by blast
      have step: "run_link H sent pop server w = run_link H sent pop server w'"
        using waits a(4) w'(1) by (simp add: run answer_def)
      have "\<exists>w2 chunks. run_link H sent pop server w' = Some w2 \<and> concat chunks = in_range key ?lo hi xs \<and>
          (\<forall>es \<in> set chunks. chunk es) \<and>
          reported c p (r\<lparr>results := results r @ [?res], req_refs := 2, req_id := i\<rparr>)
            (results (r\<lparr>results := results r @ [?res], req_refs := 2, req_id := i\<rparr>) @ map (kept rsp enc p) chunks) w' w2"
        using a rest lt less.prems(1) plus_1_positive [OF lt] less_plus_1 [OF lt]
        by (intro less.hyps w'(2)) simp_all
      then obtain w2 chunks where ind: "run_link H sent pop server w' = Some w2" "concat chunks = bs"
          "\<forall>es \<in> set chunks. chunk es" "reported c p r (results r @ map (kept rsp enc p) (as # chunks)) w' w2"
        using rest by auto
      show ?thesis using step ind a w'(3) by (intro exI [of _ w2] exI [of _ "as # chunks"]) simp
    qed
  qed
qed

end


section \<open>Services\<close>

text \<open>Elements of equal length, and the header in front of them.\<close>

definition same_length :: "('a \<Rightarrow> bytes) \<Rightarrow> nat set \<Rightarrow> 'a list \<Rightarrow> bool" where
  "same_length enc ns es \<longleftrightarrow> es \<noteq> [] \<and> (\<exists>n \<in> ns. \<forall>e \<in> set es. length (enc e) = n)"

lemma length_elements:
  "\<forall>e \<in> set es. length (enc e) = n \<Longrightarrow> length (concat (map enc es)) = length es * n"
  by (induction es) auto

lemma same_lengthE:
  assumes "same_length enc ns es"
  obtains n m where "n \<in> ns" "es \<noteq> []" "\<forall>e \<in> set es. length (enc e) = n" "length (enc (hd es)) = n"
    "length (concat (map enc es)) = Suc m * n" "length es = Suc m"
    "\<And>k. drop (m * n + k) (concat (map enc es)) = drop k (enc (last es))"
proof -
  obtain n where n: "n \<in> ns" "es \<noteq> []" "\<forall>e \<in> set es. length (enc e) = n"
    using assms by (auto simp: same_length_def)
  obtain m where m: "length es = Suc m" using n(2) by (cases es) simp_all
  have "length (concat (map enc (butlast es))) = m * n"
    using length_elements [of "butlast es" enc n] n(3) m by (auto dest: in_set_butlastD)
  moreover have "concat (map enc es) = concat (map enc (butlast es)) @ enc (last es)"
  proof -
    have "map enc es = map enc (butlast es @ [last es])" using n(2) by simp
    then show ?thesis by (simp del: append_butlast_last_id)
  qed
  ultimately have d: "drop (m * n + k) (concat (map enc es)) = drop k (enc (last es))" for k by simp
  have h: "length (enc (hd es)) = n" using n by simp
  have c: "length (concat (map enc es)) = Suc m * n" using length_elements [OF n(3)] m by simp
  show thesis by (rule that [OF n h c m d])
qed

type_synonym service = "u16 \<times> u16 \<times> bytes"

fun enc_service :: "service \<Rightarrow> bytes" where
  "enc_service (s, e, u) = put_le16 s @ put_le16 e @ u"

definition length_payload :: "('a \<Rightarrow> bytes) \<Rightarrow> 'a list \<Rightarrow> bytes" where
  "length_payload enc es = word_of_nat (length (enc (hd es))) # concat (map enc es)"

definition services_request :: "u16 \<Rightarrow> u16 \<Rightarrow> u16 \<Rightarrow> bytes" where
  "services_request ty lo hi = put_le16 lo @ put_le16 hi @ put_le16 ty"

abbreviation service_end :: "service \<Rightarrow> u16" where "service_end \<equiv> \<lambda>(s, e, u). e"

lemma result_append_kept:
  assumes "gh_alloc H w" "gh_reqs w p = Some r" "length (concat (map enc es)) = k" "length (enc (hd es)) = n"
  shows "result_append H rsp (concat (map enc es)) k n p w =
    Some (Some (kept rsp enc p es), keep p r (kept rsp enc p es) w)"
  using assms by (simp add: result_append_def result_create_def keep_def kept_def)

lemma services_response:
  assumes "gh_alloc H w" "gh_reqs w p = Some r" "same_length enc_service {6, 20} es"
    "service_end (last es) \<le> end_handle r"
  shows "gh_callback H (ReadByGrpTypeCb p) 0x11 (Some (length_payload enc_service es)) w =
    (let w = keep p r (kept 0x11 enc_service p es) w in
     if service_end (last es) < end_handle r
     then send_next H p 0x10 (services_request (service_type r) (service_end (last es) + 1) (end_handle r)) (ReadByGrpTypeCb p) w
     else discovery_op_complete H p True 0 w)"
  using assms(3)
proof (rule same_lengthE)
  fix n m
  assume n: "n \<in> {6, 20}" "es \<noteq> []" "length (enc_service (hd es)) = n"
    "length (concat (map enc_service es)) = Suc m * n"
    and d: "\<And>k. drop (m * n + k) (concat (map enc_service es)) = drop k (enc_service (last es))"
  obtain s e u where l: "last es = (s, e, u)" by (cases "last es")
  have first: "unat (word_of_nat n :: byte) = n" using n(1) by auto
  have shift: "Suc (n + m * n) - n = Suc (m * n)" by simp
  have at: "get_le16 (drop (m * n + 2) (concat (map enc_service es))) = Some e"
    using l by (simp only: d) (simp add: le16.put_width le16.get_put)
  have app: "result_append H 0x11 (concat (map enc_service es)) (Suc m * n) n p w =
      Some (Some (kept 0x11 enc_service p es), keep p r (kept 0x11 enc_service p es) w)"
    by (rule result_append_kept [OF assms(1,2) n(4,3)])
  have r: "gh_reqs (keep p r (kept 0x11 enc_service p es) w) p = Some (r\<lparr>results := results r @ [kept 0x11 enc_service p es]\<rparr>)"
    by (simp add: keep_def set_req_def)
  have pl: "length_payload enc_service es = word_of_nat n # concat (map enc_service es)"
    using n(3) by (simp add: length_payload_def)
  show ?thesis
    using assms(4) n(1) first l app at
    by (cases "e < end_handle r")
      (auto simp: read_by_grp_type_cb_def opcode_defs pdu_length_def pl n(4) r services_request_def Let_def shift)
qed


section \<open>Characteristics and descriptors\<close>

text \<open>A characteristic: the handle of its declaration, its properties, the handle of its value, its UUID.
  A descriptor: its handle and its UUID.\<close>

type_synonym chrc = "u16 \<times> byte \<times> u16 \<times> bytes"
type_synonym desc = "u16 \<times> bytes"

fun enc_chrc :: "chrc \<Rightarrow> bytes" where
  "enc_chrc (h, props, v, u) = put_le16 h @ [props] @ put_le16 v @ u"

fun enc_desc :: "desc \<Rightarrow> bytes" where
  "enc_desc (h, u) = put_le16 h @ u"

definition format_payload :: "desc list \<Rightarrow> bytes" where
  "format_payload es = (if length (enc_desc (hd es)) = 4 then 1 else 2) # concat (map enc_desc es)"

definition chrcs_request :: "u16 \<Rightarrow> u16 \<Rightarrow> bytes" where
  "chrcs_request lo hi = put_le16 lo @ put_le16 hi @ put_le16 GATT_CHARAC_UUID"

definition descs_request :: "u16 \<Rightarrow> u16 \<Rightarrow> bytes" where
  "descs_request lo hi = put_le16 lo @ put_le16 hi"

lemma chrcs_response:
  assumes "gh_alloc H w" "gh_reqs w p = Some r" "same_length enc_chrc {7, 21} es" "fst (last es) \<le> end_handle r"
  shows "gh_callback H (DiscoverChrcsCb p) 0x09 (Some (length_payload enc_chrc es)) w =
    (let w = keep p r (kept 0x09 enc_chrc p es) w in
     if fst (last es) < end_handle r
     then send_next H p 0x08 (chrcs_request (fst (last es) + 1) (end_handle r)) (DiscoverChrcsCb p) w
     else discovery_op_complete H p True 0 w)"
  using assms(3)
proof (rule same_lengthE)
  fix n m
  assume n: "n \<in> {7, 21}" "es \<noteq> []" "length (enc_chrc (hd es)) = n"
    "length (concat (map enc_chrc es)) = Suc m * n"
    and d: "\<And>k. drop (m * n + k) (concat (map enc_chrc es)) = drop k (enc_chrc (last es))"
  obtain h props v u where l: "last es = (h, props, v, u)" by (cases "last es")
  have first: "unat (word_of_nat n :: byte) = n" using n(1) by auto
  have shift: "Suc (n + m * n) - n = Suc (m * n)" by simp
  have at: "get_le16 (drop (m * n) (concat (map enc_chrc es))) = Some h"
    using l d [of 0] by (simp add: le16.get_put)
  have app: "result_append H 0x09 (concat (map enc_chrc es)) (Suc m * n) n p w =
      Some (Some (kept 0x09 enc_chrc p es), keep p r (kept 0x09 enc_chrc p es) w)"
    by (rule result_append_kept [OF assms(1,2) n(4,3)])
  have r: "gh_reqs (keep p r (kept 0x09 enc_chrc p es) w) p = Some (r\<lparr>results := results r @ [kept 0x09 enc_chrc p es]\<rparr>)"
    by (simp add: keep_def set_req_def)
  have pl: "length_payload enc_chrc es = word_of_nat n # concat (map enc_chrc es)"
    using n(3) by (simp add: length_payload_def)
  show ?thesis
    using assms(4) n(1) first l app at
    by (cases "h < end_handle r")
      (auto simp: discover_chrcs_cb_def opcode_defs pdu_length_def pl n(4) r chrcs_request_def Let_def shift)
qed

lemma descs_response:
  assumes "gh_alloc H w" "gh_reqs w p = Some r" "same_length enc_desc {4, 18} es" "fst (last es) \<le> end_handle r"
  shows "gh_callback H (DiscoverDescsCb p) 0x05 (Some (format_payload es)) w =
    (let w = keep p r (kept 0x05 enc_desc p es) w in
     if fst (last es) < end_handle r
     then send_next H p 0x04 (descs_request (fst (last es) + 1) (end_handle r)) (DiscoverDescsCb p) w
     else discovery_op_complete H p True 0 w)"
  using assms(3)
proof (rule same_lengthE)
  fix n m
  assume n: "n \<in> {4, 18}" "es \<noteq> []" "length (enc_desc (hd es)) = n"
    "length (concat (map enc_desc es)) = Suc m * n"
    and d: "\<And>k. drop (m * n + k) (concat (map enc_desc es)) = drop k (enc_desc (last es))"
  obtain h u where l: "last es = (h, u)" by (cases "last es")
  have shift: "Suc (n + m * n) - n = Suc (m * n)" by simp
  have at: "get_le16 (drop (m * n) (concat (map enc_desc es))) = Some h"
    using l d [of 0] by (simp add: le16.get_put)
  have app: "result_append H 0x05 (concat (map enc_desc es)) (Suc m * n) n p w =
      Some (Some (kept 0x05 enc_desc p es), keep p r (kept 0x05 enc_desc p es) w)"
    by (rule result_append_kept [OF assms(1,2) n(4,3)])
  have r: "gh_reqs (keep p r (kept 0x05 enc_desc p es) w) p = Some (r\<lparr>results := results r @ [kept 0x05 enc_desc p es]\<rparr>)"
    by (simp add: keep_def set_req_def)
  have pl: "format_payload es = (if n = 4 then 1 else 2) # concat (map enc_desc es)"
    using n(3) by (simp add: format_payload_def)
  show ?thesis
    using assms(4) n(1) l app at
    by (cases "h < end_handle r")
      (auto simp: discover_descs_cb_def opcode_defs pdu_length_def pl n(4) r descs_request_def Let_def shift)
qed

lemma error_answers:
  "gh_callback H (ReadByGrpTypeCb p) BT_ATT_OP_ERROR_RSP pdu w = error_response H p pdu w"
  "gh_callback H (DiscoverChrcsCb p) BT_ATT_OP_ERROR_RSP pdu w = error_response H p pdu w"
  "gh_callback H (DiscoverDescsCb p) BT_ATT_OP_ERROR_RSP pdu w = error_response H p pdu w"
  by (simp_all add: read_by_grp_type_cb_def discover_chrcs_cb_def discover_descs_cb_def Let_def)

lemma request_lengths:
  "length (services_request ty lo hi) = 6" "length (chrcs_request lo hi) = 6" "length (descs_request lo hi) = 4"
  by (simp_all add: services_request_def chrcs_request_def descs_request_def le16.put_width)

lemmas procedure_facts = services_response chrcs_response descs_response error_answers request_lengths

sublocale att_link < services: procedure H sent pop ok outcome ReadByGrpTypeCb "0x10" "0x11"
  "services_request GATT_PRIM_SVC_UUID" enc_service "length_payload enc_service" "same_length enc_service {6, 20}"
  fst service_end "\<lambda>r. service_type r = GATT_PRIM_SVC_UUID"
  by unfold_locales (simp_all add: procedure_facts alloc Let_def cong: if_cong del: gh_callback.simps)

sublocale att_link < secondary_services: procedure H sent pop ok outcome ReadByGrpTypeCb "0x10" "0x11"
  "services_request GATT_SND_SVC_UUID" enc_service "length_payload enc_service" "same_length enc_service {6, 20}"
  fst service_end "\<lambda>r. service_type r = GATT_SND_SVC_UUID"
  by unfold_locales (simp_all add: procedure_facts alloc Let_def cong: if_cong del: gh_callback.simps)

sublocale att_link < chrcs: procedure H sent pop ok outcome DiscoverChrcsCb "0x08" "0x09" chrcs_request
  enc_chrc "length_payload enc_chrc" "same_length enc_chrc {7, 21}" fst fst "\<lambda>r. True"
  by unfold_locales (simp_all add: procedure_facts alloc Let_def cong: if_cong del: gh_callback.simps)

sublocale att_link < descs: procedure H sent pop ok outcome DiscoverDescsCb "0x04" "0x05" descs_request
  enc_desc format_payload "same_length enc_desc {4, 18}" fst fst "\<lambda>r. True"
  by unfold_locales (simp_all add: procedure_facts alloc Let_def cong: if_cong del: gh_callback.simps)


section \<open>Reading the results\<close>

text \<open>The loop \<^verbatim>\<open>while (bt_gatt_iter_next_...(&iter, ...))\<close> of a client, collecting what it reads.\<close>

partial_function (option) read_all :: "(bt_gatt_iter \<Rightarrow> ('v \<times> bt_gatt_iter) option option) \<Rightarrow> bt_gatt_iter \<Rightarrow> 'v list option" where
  [code]: "read_all nxt iter = do {
     r \<leftarrow> nxt iter;
     case r of None \<Rightarrow> Some []
     | Some (v, iter) \<Rightarrow> do { vs \<leftarrow> read_all nxt iter; Some (v # vs) } }"

text \<open>Each element is read with the ones behind it.\<close>

fun decode_all :: "('a \<Rightarrow> 'a list \<Rightarrow> 'v) \<Rightarrow> 'a list \<Rightarrow> 'v list" where
  "decode_all dec [] = []"
| "decode_all dec (x # xs) = dec x xs # decode_all dec xs"

lemma kept_simps [simp]:
  "res_opcode (kept rsp enc p es) = rsp" "res_pdu (kept rsp enc p es) = concat (map enc es)"
  "res_pdu_len (kept rsp enc p es) = length (concat (map enc es))" "res_op (kept rsp enc p es) = p"
  by (simp_all add: kept_def)

lemma kept_data_len: "same_length enc ns es \<Longrightarrow> x \<in> set es \<Longrightarrow> res_data_len (kept rsp enc p es) = length (enc x)"
  by (auto simp: same_length_def kept_def)

text \<open>What every iterator promises: at an element it returns the element and moves behind it.\<close>

locale element_reader =
  fixes nxt :: "bt_gatt_iter \<Rightarrow> ('v \<times> bt_gatt_iter) option option"
    and rsp :: byte
    and enc :: "'a \<Rightarrow> bytes"
    and ns :: "nat set"
    and p :: ptr
    and dec :: "'a \<Rightarrow> 'a list \<Rightarrow> 'v"
  assumes nonempty: "0 \<notin> ns"
    and nil: "nxt \<lparr>it_results = [], it_pos = 0\<rparr> = Some None"
    and element: "\<forall>c \<in> set (es # cs). same_length enc ns c \<Longrightarrow> es = as @ x # bs \<Longrightarrow>
      pos = length (concat (map enc as)) \<Longrightarrow>
      iter' = iter_advance (kept rsp enc p es) (map (kept rsp enc p) cs)
         \<lparr>it_results = map (kept rsp enc p) (es # cs), it_pos = pos\<rparr> \<Longrightarrow>
      iter' = (if bs = [] then \<lparr>it_results = map (kept rsp enc p) cs, it_pos = 0\<rparr>
         else \<lparr>it_results = map (kept rsp enc p) (es # cs), it_pos = length (concat (map enc (as @ [x])))\<rparr>) \<Longrightarrow>
      nxt \<lparr>it_results = map (kept rsp enc p) (es # cs), it_pos = pos\<rparr> = Some (Some (dec x (bs @ concat cs), iter'))"
begin

lemma advance:
  assumes "same_length enc ns es" "es = as @ x # bs"
  shows "iter_advance (kept rsp enc p es) (map (kept rsp enc p) cs)
      \<lparr>it_results = map (kept rsp enc p) (es # cs), it_pos = length (concat (map enc as))\<rparr> =
    (if bs = [] then \<lparr>it_results = map (kept rsp enc p) cs, it_pos = 0\<rparr>
     else \<lparr>it_results = map (kept rsp enc p) (es # cs), it_pos = length (concat (map enc (as @ [x])))\<rparr>)"
proof -
  obtain n where n: "n \<in> ns" "\<forall>e \<in> set es. length (enc e) = n" using assms(1) by (auto simp: same_length_def)
  have "0 < n" using n(1) nonempty by (cases n) auto
  then have "concat (map enc bs) = [] \<longleftrightarrow> bs = []" using n(2) assms(2) by (cases bs) auto
  moreover have "res_data_len (kept rsp enc p es) = length (enc x)"
    using kept_data_len [OF assms(1), of x] assms(2) by simp
  ultimately show ?thesis using assms(2) by (simp add: iter_advance_def)
qed

lemma read_rest:
  assumes "\<forall>c \<in> set (es # cs). same_length enc ns c" "es = as @ bs" "bs \<noteq> []"
  shows "read_all nxt \<lparr>it_results = map (kept rsp enc p) (es # cs), it_pos = length (concat (map enc as))\<rparr> =
    Some (decode_all dec (bs @ concat cs))"
  using assms
proof (induction "length (bs @ concat cs)" arbitrary: es cs as bs rule: less_induct)
  case less
  obtain x bs' where bs: "bs = x # bs'" using less.prems(3) by (cases bs) auto
  have same: "same_length enc ns es" and es: "es = as @ x # bs'" using less.prems bs by simp_all
  let ?iter = "\<lparr>it_results = map (kept rsp enc p) (es # cs), it_pos = length (concat (map enc as))\<rparr>"
  let ?iter' = "if bs' = [] then \<lparr>it_results = map (kept rsp enc p) cs, it_pos = 0\<rparr>
     else \<lparr>it_results = map (kept rsp enc p) (es # cs), it_pos = length (concat (map enc (as @ [x])))\<rparr>"
  have step: "nxt ?iter = Some (Some (dec x (bs' @ concat cs), ?iter'))"
    using element [OF less.prems(1) es refl advance [OF same es, symmetric] refl] .
  have "read_all nxt ?iter' = Some (decode_all dec (bs' @ concat cs))"
  proof (cases "bs' = []")
    case False
    have "length (bs' @ concat cs) < length (bs @ concat cs)" using bs by simp
    then show ?thesis using less.hyps [of bs' cs es "as @ [x]"] less.prems(1) es False by simp
  next
    case True
    show ?thesis
    proof (cases cs)
      case Nil
      then show ?thesis using True by (simp add: read_all.simps [of nxt] nil)
    next
      case (Cons c cs')
      have "c \<noteq> []" using less.prems(1) Cons by (simp add: same_length_def)
      then have "read_all nxt \<lparr>it_results = map (kept rsp enc p) (c # cs'), it_pos = length (concat (map enc []))\<rparr> =
          Some (decode_all dec (c @ concat cs'))"
        using less.prems(1) Cons bs by (intro less.hyps) auto
      then show ?thesis using True Cons by simp
    qed
  qed
  then show ?case using step bs by (simp add: read_all.simps [of nxt ?iter] del: list.map)
qed

lemma read_chunks:
  assumes "\<forall>c \<in> set cs. same_length enc ns c"
  shows "read_all nxt \<lparr>it_results = map (kept rsp enc p) cs, it_pos = 0\<rparr> = Some (decode_all dec (concat cs))"
proof (cases cs)
  case Nil then show ?thesis by (simp add: read_all.simps [of nxt] nil)
next
  case (Cons c cs')
  then show ?thesis using read_rest [of c cs' "[]" c] assms by (simp add: same_length_def)
qed

end


text \<open>The 128-bit UUID, most significant octet first, of the two or sixteen bytes of an element.\<close>

definition uuid_of :: "bytes \<Rightarrow> bytes" where
  "uuid_of u = (if length u = 16 then rev u else bt_base_uuid[2 := u ! 1, 3 := u ! 0])"

lemma convert_uuid_element: "length u \<in> {2, 16} \<Longrightarrow> convert_uuid_le (u @ rest) (length u) dst = Some (uuid_of u)"
  by (auto simp: convert_uuid_le_def uuid_of_def bswap_128_def nth_append)

lemma at_element:
  assumes "es = as @ x # bs" "pos = length (concat (map enc as))"
  shows "drop pos (concat (map enc es)) = enc x @ concat (map enc bs)"
  using assms by simp

lemma element_length: "same_length enc ns es \<Longrightarrow> es = as @ x # bs \<Longrightarrow> length (enc x) \<in> ns"
  by (auto simp: same_length_def)

text \<open>What is read of a service, a characteristic and a descriptor. The end of a characteristic is the
  handle before the next one or, for the last, the end of the range.\<close>

definition dec_service :: "service \<Rightarrow> service list \<Rightarrow> u16 \<times> u16 \<times> bytes" where
  "dec_service x ys = (case x of (s, e, u) \<Rightarrow> (s, e, uuid_of u))"

definition dec_chrc :: "u16 \<Rightarrow> chrc \<Rightarrow> chrc list \<Rightarrow> u16 \<times> u16 \<times> u16 \<times> byte \<times> bytes" where
  "dec_chrc hi x ys = (case x of (h, props, v, u) \<Rightarrow>
     (h, if ys = [] then hi else fst (hd ys) - 1, v, props, uuid_of u))"

definition dec_desc :: "desc \<Rightarrow> desc list \<Rightarrow> u16 \<times> bytes" where
  "dec_desc x ys = (case x of (h, u) \<Rightarrow> (h, uuid_of u))"

interpretation services_reader: element_reader "bt_gatt_iter_next_service ops uuid" "0x11" enc_service "{6, 20}" p dec_service
  for ops uuid p
proof
  show "0 \<notin> {6, 20 :: nat}" by simp
  show "bt_gatt_iter_next_service ops uuid \<lparr>it_results = [], it_pos = 0\<rparr> = Some None"
    by (simp add: bt_gatt_iter_next_service_def)
next
  fix es as bs cs x pos and iter' :: bt_gatt_iter
  assume a: "\<forall>c \<in> set (es # cs). same_length enc_service {6, 20} c" "es = as @ x # bs"
    "pos = length (concat (map enc_service as))"
    and i: "iter' = iter_advance (kept 0x11 enc_service p es) (map (kept 0x11 enc_service p) cs)
      \<lparr>it_results = map (kept 0x11 enc_service p) (es # cs), it_pos = pos\<rparr>"
  obtain s e u where x: "x = (s, e, u)" by (cases x)
  have same: "same_length enc_service {6, 20} es" using a(1) by simp
  have u: "length u \<in> {2, 16}" using element_length [OF same a(2)] x by (auto simp: le16.put_width)
  have dl: "res_data_len (kept 0x11 enc_service p es) - 4 = length u"
    using kept_data_len [OF same, of x] a(2) x by (simp add: le16.put_width)
  show "bt_gatt_iter_next_service ops uuid \<lparr>it_results = map (kept 0x11 enc_service p) (es # cs), it_pos = pos\<rparr> =
      Some (Some (dec_service x (bs @ concat cs), iter'))"
    using at_element [OF a(2,3)] x convert_uuid_element [OF u]
    by (simp add: bt_gatt_iter_next_service_def opcode_defs dl le16.put_width le16.get_put dec_service_def i)
qed

interpretation descs_reader: element_reader "bt_gatt_iter_next_descriptor uuid" "0x05" enc_desc "{4, 18}" p dec_desc
  for uuid p
proof
  show "0 \<notin> {4, 18 :: nat}" by simp
  show "bt_gatt_iter_next_descriptor uuid \<lparr>it_results = [], it_pos = 0\<rparr> = Some None"
    by (simp add: bt_gatt_iter_next_descriptor_def)
next
  fix es as bs cs x pos and iter' :: bt_gatt_iter
  assume a: "\<forall>c \<in> set (es # cs). same_length enc_desc {4, 18} c" "es = as @ x # bs"
    "pos = length (concat (map enc_desc as))"
    and i: "iter' = iter_advance (kept 0x05 enc_desc p es) (map (kept 0x05 enc_desc p) cs)
      \<lparr>it_results = map (kept 0x05 enc_desc p) (es # cs), it_pos = pos\<rparr>"
  obtain h u where x: "x = (h, u)" by (cases x)
  have same: "same_length enc_desc {4, 18} es" using a(1) by simp
  have u: "length u \<in> {2, 16}" using element_length [OF same a(2)] x by (auto simp: le16.put_width)
  have dl: "res_data_len (kept 0x05 enc_desc p es) - 2 = length u"
    using kept_data_len [OF same, of x] a(2) x by (simp add: le16.put_width)
  show "bt_gatt_iter_next_descriptor uuid \<lparr>it_results = map (kept 0x05 enc_desc p) (es # cs), it_pos = pos\<rparr> =
      Some (Some (dec_desc x (bs @ concat cs), iter'))"
    using at_element [OF a(2,3)] x convert_uuid_element [OF u]
    by (simp add: bt_gatt_iter_next_descriptor_def opcode_defs dl le16.put_width le16.get_put dec_desc_def i)
qed

lemma first_of_chunks:
  assumes "cs \<noteq> []" "\<forall>c \<in> set cs. same_length enc_chrc ns c"
  shows "concat cs \<noteq> []" "get_le16 (res_pdu (kept rsp enc_chrc p (hd cs))) = Some (fst (hd (concat cs)))"
proof -
  obtain c cs' where c: "cs = c # cs'" using assms(1) by (cases cs) auto
  then obtain x xs where x: "c = x # xs" using assms(2) by (cases c) (auto simp: same_length_def)
  show "concat cs \<noteq> []" using c x by simp
  show "get_le16 (res_pdu (kept rsp enc_chrc p (hd cs))) = Some (fst (hd (concat cs)))"
    using c x by (cases x) (simp add: le16.get_put)
qed

text \<open>The results of a characteristic discovery point to its request.\<close>

lemma chrcs_reader:
  assumes op: "ops p = Some op" "req_uuid op = BT_UUID_UNSPEC"
  shows "element_reader (bt_gatt_iter_next_characteristic ops uuid) 0x09 enc_chrc {7, 21} p (dec_chrc (end_handle op))"
proof
  show "0 \<notin> {7, 21 :: nat}" by simp
  show "bt_gatt_iter_next_characteristic ops uuid \<lparr>it_results = [], it_pos = 0\<rparr> = Some None"
    by (simp add: bt_gatt_iter_next_characteristic_def)
next
  fix es as bs cs x pos and iter' :: bt_gatt_iter
  assume a: "\<forall>c \<in> set (es # cs). same_length enc_chrc {7, 21} c" "es = as @ x # bs"
    "pos = length (concat (map enc_chrc as))"
    and i: "iter' = iter_advance (kept 0x09 enc_chrc p es) (map (kept 0x09 enc_chrc p) cs)
      \<lparr>it_results = map (kept 0x09 enc_chrc p) (es # cs), it_pos = pos\<rparr>"
    and i': "iter' = (if bs = [] then \<lparr>it_results = map (kept 0x09 enc_chrc p) cs, it_pos = 0\<rparr>
         else \<lparr>it_results = map (kept 0x09 enc_chrc p) (es # cs), it_pos = length (concat (map enc_chrc (as @ [x])))\<rparr>)"
  obtain h props v u where x: "x = (h, props, v, u)" by (cases x)
  have same: "same_length enc_chrc {7, 21} es" using a(1) by simp
  have u: "length u \<in> {2, 16}" using element_length [OF same a(2)] x by (auto simp: le16.put_width)
  have n: "res_data_len (kept 0x09 enc_chrc p es) = length (enc_chrc x)"
    using kept_data_len [OF same, of x] a(2) by simp
  then have dl: "res_data_len (kept 0x09 enc_chrc p es) - 5 = length u"
      "res_data_len (kept 0x09 enc_chrc p es) \<in> {7, 21}"
    using element_length [OF same a(2)] x by (simp_all add: le16.put_width)
  have props: "array_get (put_le16 h @ props # rest) 2 = Some props" for rest
    by (simp add: le16.put_width nth_append)
  let ?next = "case it_results iter' of
      [] \<Rightarrow> Some (Some ((h, end_handle op, v, props, uuid_of u), iter'))
    | r' # _ \<Rightarrow> do {
        following \<leftarrow> get_le16 (drop (it_pos iter') (res_pdu r'));
        Some (Some ((h, following - 1, v, props, uuid_of u), iter')) }"
  have "?next = Some (Some (dec_chrc (end_handle op) x (bs @ concat cs), iter'))"
  proof (cases "bs = []")
    case True
    show ?thesis
    proof (cases cs)
      case Nil then show ?thesis using True x i' by (simp add: dec_chrc_def)
    next
      case (Cons c cs')
      have cs: "cs \<noteq> []" "\<forall>c \<in> set cs. same_length enc_chrc {7, 21} c" using a(1) Cons by simp_all
      show ?thesis using first_of_chunks(1) [OF cs] first_of_chunks(2) [OF cs, of "0x09" p] True x i' Cons
        by (auto simp: dec_chrc_def)
    qed
  next
    case False
    then obtain y bs' where y: "bs = y # bs'" by (cases bs) auto
    have "drop (length (concat (map enc_chrc (as @ [x])))) (concat (map enc_chrc es)) = enc_chrc y @ concat (map enc_chrc bs')"
      using a(2) y by (intro at_element [of es "as @ [x]" y bs']) simp_all
    then show ?thesis using False x i' y by (cases y) (simp add: dec_chrc_def le16.get_put)
  qed
  moreover have "bt_gatt_iter_next_characteristic ops uuid \<lparr>it_results = map (kept 0x09 enc_chrc p) (es # cs), it_pos = pos\<rparr> = ?next"
    using at_element [OF a(2,3)] x convert_uuid_element [OF u] op dl(2)
    by (auto simp: bt_gatt_iter_next_characteristic_def opcode_defs dl(1) le16.put_width le16.get_put props
        Let_def i [symmetric, simplified])
  ultimately show "bt_gatt_iter_next_characteristic ops uuid \<lparr>it_results = map (kept 0x09 enc_chrc p) (es # cs), it_pos = pos\<rparr> =
      Some (Some (dec_chrc (end_handle op) x (bs @ concat cs), iter'))" by simp
qed


section \<open>What a client learns\<close>

context att_link
begin

text \<open>The request that \<^verbatim>\<open>discover_...\<close> returns, held by the bearer and by the caller.\<close>

definition started :: "nat \<Rightarrow> ptr \<Rightarrow> byte \<Rightarrow> bytes \<Rightarrow> gh_cb \<Rightarrow> u16 \<Rightarrow> bt_uuid \<Rightarrow> u16 \<Rightarrow> 'e gh_world \<Rightarrow> 'e gh_world \<Rightarrow> bool" where
  "started c p opcode pdu cb hi u sv w w1 \<longleftrightarrow> ok (bearer w1) \<and> sent (bearer w1) = [(opcode, pdu, cb)] \<and>
     outcome (bearer w1) = outcome (bearer w) \<and>
     (\<exists>r. gh_reqs w1 p = Some r \<and> end_handle r = hi \<and> req_callback r = Some c \<and> req_refs r = 2 \<and> req_id r \<noteq> 0 \<and>
        req_uuid r = u \<and> service_type r = sv \<and> results r = [])"

lemma start_request_ok:
  assumes "ok (bearer w)" "sent (bearer w) = []" "new_request H hi u sv (Some c) d w = Some (p, w0)"
    "length pdu \<le> 22" "opcode \<in> {0x04, 0x06, 0x08, 0x0A, 0x10}"
  shows "\<exists>w1. start_request H p opcode pdu cb w0 = Some (Some p, w1) \<and> started c p opcode pdu cb hi u sv w w1"
proof -
  let ?r = "\<lparr>req_id = 0, end_handle = hi, req_refs = 0, req_uuid = u, service_type = sv, results = [],
    req_callback = Some c, req_destroy = d\<rparr>"
  have w0: "gh_reqs w0 p = Some ?r" "bearer w0 = bearer w"
    using assms(3) alloc by (auto simp: new_request_def set_req_def Let_def)
  have ok: "ok (bearer w0)" using assms(1) w0 by simp
  obtain i e where s: "i \<noteq> 0" "send_request H p opcode pdu cb w0 =
      Some (i, set_req p (Some (?r\<lparr>req_refs := req_refs ?r + 1, req_id := i\<rparr>)) (w0\<lparr>bearer := e\<rparr>))" "ok e"
      "sent e = sent (bearer w0) @ [(opcode, pdu, cb)]" "outcome e = outcome (bearer w0)"
    using send_request_ok [OF ok w0(1) assms(4,5), of cb] by blast
  let ?w1 = "set_req p (Some (?r\<lparr>req_refs := 2, req_id := i\<rparr>)) (w0\<lparr>bearer := e\<rparr>)"
  have "start_request H p opcode pdu cb w0 = Some (Some p, ?w1)"
    using s(1,2) by (simp add: start_request_def bt_gatt_request_ref_def set_req_def)
  moreover have "started c p opcode pdu cb hi u sv w ?w1"
    using s w0 assms(2) by (simp add: started_def set_req_def)
  ultimately show ?thesis by blast
qed

lemma new_request_ok: "\<exists>p w0. new_request H hi u sv c d w = Some (p, w0)"
  using alloc by (simp add: new_request_def Let_def)

lemma services_found:
  assumes "ok (bearer w)" "sent (bearer w) = []"
    and "compliant 0x10 0x11 (services_request GATT_PRIM_SVC_UUID) (length_payload enc_service)
      (same_length enc_service {6, 20}) fst server xs" "ordered fst service_end xs"
    and "\<forall>x \<in> set (in_range fst lo hi xs). service_end x \<le> hi" "0 < lo" "lo \<le> hi"
  shows "\<exists>p w1 w2 rs ec. bt_gatt_discover_primary_services H True None lo hi (Some c) d w = Some (Some p, w1) \<and>
    run_link H sent pop server w1 = Some w2 \<and> sent (bearer w2) = [] \<and>
    outcome (bearer w2) = outcome (bearer w) @ [(c, in_range fst lo hi xs \<noteq> [], ec, rs)] \<and>
    read_all (bt_gatt_iter_next_service (gh_reqs w2) uuid) \<lparr>it_results = rs, it_pos = 0\<rparr> =
      Some (decode_all dec_service (in_range fst lo hi xs))"
proof -
  obtain p w0 where n: "new_request H hi BT_UUID_UNSPEC GATT_PRIM_SVC_UUID (Some c) d w = Some (p, w0)"
    using new_request_ok by blast
  obtain w1 where s: "start_request H p 0x10 (services_request GATT_PRIM_SVC_UUID lo hi) (ReadByGrpTypeCb p) w0 = Some (Some p, w1)"
      "started c p 0x10 (services_request GATT_PRIM_SVC_UUID lo hi) (ReadByGrpTypeCb p) hi BT_UUID_UNSPEC GATT_PRIM_SVC_UUID w w1"
    using start_request_ok [OF assms(1,2) n, of "services_request GATT_PRIM_SVC_UUID lo hi" "0x10" "ReadByGrpTypeCb p"]
    by (auto simp: request_lengths)
  obtain r where r: "services.waiting c p lo hi r w1" "results r = []"
    using s(2) by (auto simp: started_def services.waiting_def)
  obtain w2 chunks ec where f: "run_link H sent pop server w1 = Some w2" "concat chunks = in_range fst lo hi xs"
      "\<forall>es \<in> set chunks. same_length enc_service {6, 20} es" "sent (bearer w2) = []"
      "outcome (bearer w2) = outcome (bearer w1) @ [(c, chunks \<noteq> [], ec, map (kept 0x11 enc_service p) chunks)]"
    using services.procedure_completes [OF assms(3,4,5) r(1) assms(6,7)] r(2) by auto
  have nonempty: "chunks \<noteq> [] \<longleftrightarrow> in_range fst lo hi xs \<noteq> []"
    unfolding f(2) [symmetric] using f(3) by (auto simp: same_length_def)
  have "bt_gatt_discover_primary_services H True None lo hi (Some c) d w = Some (Some p, w1)"
    using n s(1) by (simp add: bt_gatt_discover_primary_services_def discover_services_def services_request_def opcode_defs Let_def)
  moreover have "outcome (bearer w1) = outcome (bearer w)" using s(2) by (simp add: started_def)
  moreover have "read_all (bt_gatt_iter_next_service (gh_reqs w2) uuid) \<lparr>it_results = map (kept 0x11 enc_service p) chunks, it_pos = 0\<rparr> =
      Some (decode_all dec_service (in_range fst lo hi xs))"
    using services_reader.read_chunks [OF f(3)] f(2) by simp
  ultimately show ?thesis using f(1,4,5) nonempty
    by (intro exI [of _ p] exI [of _ w1] exI [of _ w2] exI [of _ "map (kept 0x11 enc_service p) chunks"] exI [of _ ec]) simp
qed

lemma chrcs_found:
  assumes "ok (bearer w)" "sent (bearer w) = []"
    and "compliant 0x08 0x09 chrcs_request (length_payload enc_chrc) (same_length enc_chrc {7, 21}) fst server xs"
      "ordered fst fst xs" "0 < lo" "lo \<le> hi"
  shows "\<exists>p w1 w2 rs ec. bt_gatt_discover_characteristics H True lo hi (Some c) d w = Some (Some p, w1) \<and>
    run_link H sent pop server w1 = Some w2 \<and> sent (bearer w2) = [] \<and>
    outcome (bearer w2) = outcome (bearer w) @ [(c, in_range fst lo hi xs \<noteq> [], ec, rs)] \<and>
    read_all (bt_gatt_iter_next_characteristic (gh_reqs w2) uuid) \<lparr>it_results = rs, it_pos = 0\<rparr> =
      Some (decode_all (dec_chrc hi) (in_range fst lo hi xs))"
proof -
  obtain p w0 where n: "new_request H hi BT_UUID_UNSPEC 0 (Some c) d w = Some (p, w0)"
    using new_request_ok by blast
  obtain w1 where s: "start_request H p 0x08 (chrcs_request lo hi) (DiscoverChrcsCb p) w0 = Some (Some p, w1)"
      "started c p 0x08 (chrcs_request lo hi) (DiscoverChrcsCb p) hi BT_UUID_UNSPEC 0 w w1"
    using start_request_ok [OF assms(1,2) n, of "chrcs_request lo hi" "0x08" "DiscoverChrcsCb p"]
    by (auto simp: request_lengths)
  obtain r where r: "chrcs.waiting c p lo hi r w1" "results r = []" "req_uuid r = BT_UUID_UNSPEC" "end_handle r = hi"
    using s(2) by (auto simp: started_def chrcs.waiting_def)
  have inside: "\<forall>x \<in> set (in_range fst lo hi xs). fst x \<le> hi" by (auto simp: in_range_def)
  obtain w2 chunks ec r' where f: "run_link H sent pop server w1 = Some w2" "concat chunks = in_range fst lo hi xs"
      "\<forall>es \<in> set chunks. same_length enc_chrc {7, 21} es" "sent (bearer w2) = []"
      "outcome (bearer w2) = outcome (bearer w1) @ [(c, chunks \<noteq> [], ec, map (kept 0x09 enc_chrc p) chunks)]"
      "gh_reqs w2 p = Some r'" "req_uuid r' = BT_UUID_UNSPEC" "end_handle r' = hi"
    using chrcs.procedure_completes [OF assms(3,4) inside r(1) assms(5,6)] r(2-) by auto
  have nonempty: "chunks \<noteq> [] \<longleftrightarrow> in_range fst lo hi xs \<noteq> []"
    unfolding f(2) [symmetric] using f(3) by (auto simp: same_length_def)
  have "bt_gatt_discover_characteristics H True lo hi (Some c) d w = Some (Some p, w1)"
    using n s(1) by (simp add: bt_gatt_discover_characteristics_def discover_range_def chrcs_request_def opcode_defs)
  moreover have "outcome (bearer w1) = outcome (bearer w)" using s(2) by (simp add: started_def)
  moreover have "read_all (bt_gatt_iter_next_characteristic (gh_reqs w2) uuid)
      \<lparr>it_results = map (kept 0x09 enc_chrc p) chunks, it_pos = 0\<rparr> =
      Some (decode_all (dec_chrc hi) (in_range fst lo hi xs))"
    using element_reader.read_chunks [OF chrcs_reader [of "gh_reqs w2" p r' uuid, OF f(6,7)] f(3)] f(2,8) by simp
  ultimately show ?thesis using f(1,4,5) nonempty
    by (intro exI [of _ p] exI [of _ w1] exI [of _ w2] exI [of _ "map (kept 0x09 enc_chrc p) chunks"] exI [of _ ec]) simp
qed

lemma descs_found:
  assumes "ok (bearer w)" "sent (bearer w) = []"
    and "compliant 0x04 0x05 descs_request format_payload (same_length enc_desc {4, 18}) fst server xs"
      "ordered fst fst xs" "0 < lo" "lo \<le> hi"
  shows "\<exists>p w1 w2 rs ec. bt_gatt_discover_descriptors H True lo hi (Some c) d w = Some (Some p, w1) \<and>
    run_link H sent pop server w1 = Some w2 \<and> sent (bearer w2) = [] \<and>
    outcome (bearer w2) = outcome (bearer w) @ [(c, in_range fst lo hi xs \<noteq> [], ec, rs)] \<and>
    read_all (bt_gatt_iter_next_descriptor uuid) \<lparr>it_results = rs, it_pos = 0\<rparr> =
      Some (decode_all dec_desc (in_range fst lo hi xs))"
proof -
  obtain p w0 where n: "new_request H hi BT_UUID_UNSPEC 0 (Some c) d w = Some (p, w0)"
    using new_request_ok by blast
  obtain w1 where s: "start_request H p 0x04 (descs_request lo hi) (DiscoverDescsCb p) w0 = Some (Some p, w1)"
      "started c p 0x04 (descs_request lo hi) (DiscoverDescsCb p) hi BT_UUID_UNSPEC 0 w w1"
    using start_request_ok [OF assms(1,2) n, of "descs_request lo hi" "0x04" "DiscoverDescsCb p"]
    by (auto simp: request_lengths)
  obtain r where r: "descs.waiting c p lo hi r w1" "results r = []"
    using s(2) by (auto simp: started_def descs.waiting_def)
  have inside: "\<forall>x \<in> set (in_range fst lo hi xs). fst x \<le> hi" by (auto simp: in_range_def)
  obtain w2 chunks ec where f: "run_link H sent pop server w1 = Some w2" "concat chunks = in_range fst lo hi xs"
      "\<forall>es \<in> set chunks. same_length enc_desc {4, 18} es" "sent (bearer w2) = []"
      "outcome (bearer w2) = outcome (bearer w1) @ [(c, chunks \<noteq> [], ec, map (kept 0x05 enc_desc p) chunks)]"
    using descs.procedure_completes [OF assms(3,4) inside r(1) assms(5,6)] r(2) by auto
  have nonempty: "chunks \<noteq> [] \<longleftrightarrow> in_range fst lo hi xs \<noteq> []"
    unfolding f(2) [symmetric] using f(3) by (auto simp: same_length_def)
  have "bt_gatt_discover_descriptors H True lo hi (Some c) d w = Some (Some p, w1)"
    using n s(1) by (simp add: bt_gatt_discover_descriptors_def discover_range_def descs_request_def opcode_defs)
  moreover have "outcome (bearer w1) = outcome (bearer w)" using s(2) by (simp add: started_def)
  moreover have "read_all (bt_gatt_iter_next_descriptor uuid) \<lparr>it_results = map (kept 0x05 enc_desc p) chunks, it_pos = 0\<rparr> =
      Some (decode_all dec_desc (in_range fst lo hi xs))"
    using descs_reader.read_chunks [OF f(3)] f(2) by simp
  ultimately show ?thesis using f(1,4,5) nonempty
    by (intro exI [of _ p] exI [of _ w1] exI [of _ w2] exI [of _ "map (kept 0x05 enc_desc p) chunks"] exI [of _ ec]) simp
qed

end


section \<open>A link and a server\<close>

record link =
  l_sent :: "(byte \<times> bytes \<times> gh_cb) list"
  l_outcome :: "report list"

definition link_pop :: "link \<Rightarrow> link" where "link_pop e = e\<lparr>l_sent := tl (l_sent e)\<rparr>"

definition link_host :: "link gh_host" where
  "link_host = \<lparr>gh_alloc = \<lambda>_. True, gh_send = \<lambda>op pdu cb e. Some (1, e\<lparr>l_sent := l_sent e @ [(op, pdu, cb)]\<rparr>),
     gh_cancel = \<lambda>_ e. Some (None, e), gh_set_mtu = \<lambda>_ e. Some e,
     gh_call = \<lambda>c s ec rs w. Some (w\<lparr>bearer := (bearer w)\<lparr>l_outcome := l_outcome (bearer w) @ [(c, s, ec, rs)]\<rparr>\<rparr>),
     gh_mtu_call = \<lambda>_ _ _ w. Some w, gh_destroyed = \<lambda>_ w. Some w\<rparr>"

definition link_world :: "link gh_world" where
  "link_world = \<lparr>bearer = \<lparr>l_sent = [], l_outcome = []\<rparr>, gh_reqs = \<lambda>_. None, gh_incls = \<lambda>_. None, gh_mtus = \<lambda>_. None, gh_next = 1\<rparr>"

lemma link_is_att_link: "att_link link_host l_sent link_pop (\<lambda>_. True) l_outcome"
  by unfold_locales (auto simp: link_host_def link_pop_def)

interpretation link: att_link link_host l_sent link_pop "\<lambda>_. True" l_outcome
  by (rule link_is_att_link)

text \<open>A server that answers with one element at a time.\<close>

definition serve_one ::
  "byte \<Rightarrow> ('a list \<Rightarrow> bytes) \<Rightarrow> ('a \<Rightarrow> u16) \<Rightarrow> 'a list \<Rightarrow> byte \<Rightarrow> bytes \<Rightarrow> byte \<times> bytes" where
  "serve_one rsp payload key xs opcode pdu =
     (case (get_le16 pdu, get_le16 (drop 2 pdu)) of
        (Some lo, Some hi) \<Rightarrow>
          (case in_range key lo hi xs of [] \<Rightarrow> (BT_ATT_OP_ERROR_RSP, [opcode, 0, 0, BT_ATT_ERROR_ATTRIBUTE_NOT_FOUND])
           | x # _ \<Rightarrow> (rsp, payload [x]))
      | _ \<Rightarrow> (BT_ATT_OP_ERROR_RSP, [opcode, 0, 0, BT_ATT_ERROR_ATTRIBUTE_NOT_FOUND]))"

lemma serve_one_compliant:
  assumes "\<And>lo hi. \<exists>t. request lo hi = put_le16 lo @ put_le16 hi @ t" "\<forall>x \<in> set xs. chunk [x]"
  shows "compliant req rsp request payload chunk key (serve_one rsp payload key xs) xs"
  unfolding compliant_def
proof (intro allI impI)
  fix lo hi :: u16
  obtain t where t: "request lo hi = put_le16 lo @ put_le16 hi @ t" using assms(1) by blast
  have g: "get_le16 (request lo hi) = Some lo" "get_le16 (drop 2 (request lo hi)) = Some hi"
    by (simp_all add: t le16.get_put le16.put_width)
  show "if in_range key lo hi xs = [] then \<exists>d. serve_one rsp payload key xs req (request lo hi) = (BT_ATT_OP_ERROR_RSP, d) \<and> not_found d
    else \<exists>as bs. in_range key lo hi xs = as @ bs \<and> as \<noteq> [] \<and> chunk as \<and>
      serve_one rsp payload key xs req (request lo hi) = (rsp, payload as)"
  proof (cases "in_range key lo hi xs")
    case Nil
    then show ?thesis using g by (simp add: serve_one_def not_found_def)
  next
    case (Cons x ys)
    have "x \<in> set (in_range key lo hi xs)" using Cons by simp
    then have "chunk [x]" using assms(2) by (simp add: in_range_def)
    then show ?thesis using g Cons by (simp add: serve_one_def) (intro exI [of _ "[x]"], simp)
  qed
qed

text \<open>C14 Discovering primary services ends, and finds all of them: over a bearer that takes requests,
  against a server that answers each request for a range with some of the first services in it, the
  procedure stops sending, reports success when there is a service in the range, and iterating over
  the result gives the range and the 128-bit UUID of every service in the range, in order.\<close>

theorem primary_services_discovered:
  assumes "att_link H sent pop ok outcome" "ok (bearer w)" "sent (bearer w) = []"
    and "compliant 0x10 0x11 (services_request GATT_PRIM_SVC_UUID) (length_payload enc_service)
      (same_length enc_service {6, 20}) fst server xs" "ordered fst service_end xs"
    and "\<forall>x \<in> set (in_range fst lo hi xs). service_end x \<le> hi" "0 < lo" "lo \<le> hi"
  shows "\<exists>p w1 w2 rs ec. bt_gatt_discover_primary_services H True None lo hi (Some c) d w = Some (Some p, w1) \<and>
    run_link H sent pop server w1 = Some w2 \<and> sent (bearer w2) = [] \<and>
    outcome (bearer w2) = outcome (bearer w) @ [(c, in_range fst lo hi xs \<noteq> [], ec, rs)] \<and>
    read_all (bt_gatt_iter_next_service (gh_reqs w2) uuid) \<lparr>it_results = rs, it_pos = 0\<rparr> =
      Some (decode_all dec_service (in_range fst lo hi xs))"
  by (rule att_link.services_found [OF assms])

definition example_services :: "service list" where
  "example_services = [(1, 0xB, [0x00, 0x18]), (0xC, 0x20, [0x59, 0xFE]), (0x21, 0xFFFF, replicate 16 7)]"

lemma primary_services_discovered_witness:
  "\<exists>p w1 w2 rs ec. bt_gatt_discover_primary_services link_host True None 1 0xFFFF (Some 5) None link_world = Some (Some p, w1) \<and>
    run_link link_host l_sent link_pop (serve_one 0x11 (length_payload enc_service) fst example_services) w1 = Some w2 \<and>
    l_sent (bearer w2) = [] \<and> l_outcome (bearer w2) = [(5, True, ec, rs)] \<and>
    read_all (bt_gatt_iter_next_service (gh_reqs w2) []) \<lparr>it_results = rs, it_pos = 0\<rparr> =
      Some (decode_all dec_service example_services)"
proof -
  have c: "compliant 0x10 0x11 (services_request GATT_PRIM_SVC_UUID) (length_payload enc_service)
      (same_length enc_service {6, 20}) fst (serve_one 0x11 (length_payload enc_service) fst example_services) example_services"
    by (rule serve_one_compliant)
      (auto simp: services_request_def example_services_def same_length_def le16.put_width)
  have r: "in_range fst 1 0xFFFF example_services = example_services"
    by (simp add: in_range_def example_services_def word_le_nat_alt)
  have o: "ordered fst service_end example_services"
    by (simp add: ordered_def example_services_def word_le_nat_alt word_less_nat_alt)
  have i: "\<forall>x \<in> set (in_range fst 1 0xFFFF example_services). service_end x \<le> 0xFFFF"
    unfolding r by (simp add: example_services_def word_le_nat_alt)
  show ?thesis
    using primary_services_discovered [OF link_is_att_link _ _ c o i, of link_world 5 None "[]"] r
    by (simp add: link_world_def example_services_def word_le_nat_alt word_less_nat_alt)
qed

text \<open>C15 Discovering characteristics ends, and finds all of them: over the same bearer, against a
  server that answers with some of the first characteristics of the range, the result lists the
  declaration, properties, value handle and UUID of every characteristic in the range, in order, with
  the handle before the next declaration, or the end of the range, as its end.\<close>

theorem characteristics_discovered:
  assumes "att_link H sent pop ok outcome" "ok (bearer w)" "sent (bearer w) = []"
    and "compliant 0x08 0x09 chrcs_request (length_payload enc_chrc) (same_length enc_chrc {7, 21}) fst server xs"
      "ordered fst fst xs" "0 < lo" "lo \<le> hi"
  shows "\<exists>p w1 w2 rs ec. bt_gatt_discover_characteristics H True lo hi (Some c) d w = Some (Some p, w1) \<and>
    run_link H sent pop server w1 = Some w2 \<and> sent (bearer w2) = [] \<and>
    outcome (bearer w2) = outcome (bearer w) @ [(c, in_range fst lo hi xs \<noteq> [], ec, rs)] \<and>
    read_all (bt_gatt_iter_next_characteristic (gh_reqs w2) uuid) \<lparr>it_results = rs, it_pos = 0\<rparr> =
      Some (decode_all (dec_chrc hi) (in_range fst lo hi xs))"
  by (rule att_link.chrcs_found [OF assms])

definition example_chrcs :: "chrc list" where
  "example_chrcs = [(0xD, 0x18, 0xE, [1, 0x2A]), (0x10, 0x04, 0x11, replicate 16 9)]"

lemma characteristics_discovered_witness:
  "\<exists>p w1 w2 rs ec. bt_gatt_discover_characteristics link_host True 0xC 0x20 (Some 5) None link_world = Some (Some p, w1) \<and>
    run_link link_host l_sent link_pop (serve_one 0x09 (length_payload enc_chrc) fst example_chrcs) w1 = Some w2 \<and>
    l_sent (bearer w2) = [] \<and> l_outcome (bearer w2) = [(5, True, ec, rs)] \<and>
    read_all (bt_gatt_iter_next_characteristic (gh_reqs w2) []) \<lparr>it_results = rs, it_pos = 0\<rparr> =
      Some [(0xD, 0xF, 0xE, 0x18, uuid_of [1, 0x2A]), (0x10, 0x20, 0x11, 0x04, replicate 16 9)]"
proof -
  have c: "compliant 0x08 0x09 chrcs_request (length_payload enc_chrc) (same_length enc_chrc {7, 21}) fst
      (serve_one 0x09 (length_payload enc_chrc) fst example_chrcs) example_chrcs"
    by (rule serve_one_compliant)
      (auto simp: chrcs_request_def example_chrcs_def same_length_def le16.put_width)
  have r: "in_range fst 0xC 0x20 example_chrcs = example_chrcs"
    by (simp add: in_range_def example_chrcs_def word_le_nat_alt)
  have o: "ordered fst fst example_chrcs"
    by (simp add: ordered_def example_chrcs_def word_le_nat_alt word_less_nat_alt)
  have d: "decode_all (dec_chrc 0x20) example_chrcs =
      [(0xD, 0xF, 0xE, 0x18, uuid_of [1, 0x2A]), (0x10, 0x20, 0x11, 0x04, replicate 16 9)]"
    by (simp add: example_chrcs_def dec_chrc_def uuid_of_def)
  show ?thesis
    using characteristics_discovered [OF link_is_att_link _ _ c o, of link_world "0xC" "0x20" 5 None "[]"] r
    by (simp add: link_world_def d word_le_nat_alt word_less_nat_alt) (simp add: example_chrcs_def)
qed


section \<open>Answers that make no progress\<close>

context procedure
begin

text \<open>The answers are not compared with the request: a server that always sends the same element keeps
  the procedure going for ever.\<close>

lemma same_answer_keeps_waiting:
  assumes same: "\<forall>lo. server req (request lo hi) = (rsp, payload [x])" and x: "chunk [x]" "hdl x < hi"
    and w: "waiting c p lo hi r w"
  shows "\<exists>w' lo r. answer H sent pop server w = Some w' \<and> waiting c p lo hi r w'"
proof -
  have "sent (bearer w) = [(req, request lo hi, cb p)]" using w by (simp add: waiting_def)
  then have "answer H sent pop server w = gh_respond H (cb p) rsp (Some (payload [x])) (w\<lparr>bearer := pop (bearer w)\<rparr>)"
    by (simp add: answer_def same)
  then show ?thesis using answer_continues [OF w x(1)] x(2) by auto
qed

lemma same_answer_never_ends:
  assumes same: "\<forall>lo. server req (request lo hi) = (rsp, payload [x])" and x: "chunk [x]" "hdl x < hi"
    and w: "waiting c p lo hi r w"
  shows "run_link H sent pop server w = None"
proof (rule ccontr)
  assume "run_link H sent pop server w \<noteq> None"
  then obtain w' where run: "run_link H sent pop server w = Some w'" by blast
  have "H = H \<longrightarrow> sent = sent \<longrightarrow> pop = pop \<longrightarrow> server = server \<longrightarrow> (\<nexists>lo r. waiting c p lo hi r w)"
  proof (rule run_link.raw_induct [where P = "\<lambda>H' s' q' v' w w'. H' = H \<longrightarrow> s' = sent \<longrightarrow> q' = pop \<longrightarrow> v' = server \<longrightarrow>
        (\<nexists>lo r. waiting c p lo hi r w)", OF _ run], goal_cases)
    case (1 f H' s' q' v' w w')
    show ?case
    proof (intro impI notI, elim exE)
      fix lo r
      assume eqs: "H' = H" "s' = sent" "q' = pop" "v' = server" and wt: "waiting c p lo hi r w"
      obtain w1 lo1 r1 where w1: "answer H sent pop server w = Some w1" "waiting c p lo1 hi r1 w1"
        using same_answer_keeps_waiting [where server = server and hi = hi and x = x, OF same x wt] by blast
      have "sent (bearer w) \<noteq> []" using wt by (simp add: waiting_def)
      then have "f H sent pop server w1 = Some w'" using 1(2) w1(1) eqs by simp
      then show False using 1(1) [of H sent pop server w1 w'] w1(2) by blast
    qed
  qed
  then show False using w by blast
qed

end

context att_link
begin

lemma chrcs_never_end:
  assumes "ok (bearer w)" "sent (bearer w) = []" and "\<forall>lo. server 0x08 (chrcs_request lo hi) = (0x09, length_payload enc_chrc [x])"
    and "length (enc_chrc x) \<in> {7, 21}" "fst x < hi"
  shows "\<exists>p w1. bt_gatt_discover_characteristics H True lo hi (Some c) d w = Some (Some p, w1) \<and>
    run_link H sent pop server w1 = None"
proof -
  obtain p w0 where n: "new_request H hi BT_UUID_UNSPEC 0 (Some c) d w = Some (p, w0)"
    using new_request_ok by blast
  obtain w1 where s: "start_request H p 0x08 (chrcs_request lo hi) (DiscoverChrcsCb p) w0 = Some (Some p, w1)"
      "started c p 0x08 (chrcs_request lo hi) (DiscoverChrcsCb p) hi BT_UUID_UNSPEC 0 w w1"
    using start_request_ok [OF assms(1,2) n, of "chrcs_request lo hi" "0x08" "DiscoverChrcsCb p"]
    by (auto simp: request_lengths)
  obtain r where r: "chrcs.waiting c p lo hi r w1"
    using s(2) by (auto simp: started_def chrcs.waiting_def)
  have "same_length enc_chrc {7, 21} [x]" using assms(4) by (auto simp: same_length_def)
  then have "run_link H sent pop server w1 = None"
    using chrcs.same_answer_never_ends [where server = server and hi = hi and x = x, OF assms(3) _ assms(5) r] by simp
  moreover have "bt_gatt_discover_characteristics H True lo hi (Some c) d w = Some (Some p, w1)"
    using n s(1) by (simp add: bt_gatt_discover_characteristics_def discover_range_def chrcs_request_def opcode_defs)
  ultimately show ?thesis by blast
qed

end

text \<open>A discovery need not end: the procedures do not check that an answer lies in the range that was
  asked for, so against a peer that answers every request with the same characteristic in front of the
  end of the range, the discovery of characteristics sends one request after the other for ever.\<close>

theorem discovery_without_progress_never_ends:
  assumes "att_link H sent pop ok outcome" "ok (bearer w)" "sent (bearer w) = []"
    and "\<forall>lo. server 0x08 (chrcs_request lo hi) = (0x09, length_payload enc_chrc [x])"
    and "length (enc_chrc x) \<in> {7, 21}" "fst x < hi"
  shows "\<exists>p w1. bt_gatt_discover_characteristics H True lo hi (Some c) d w = Some (Some p, w1) \<and>
    run_link H sent pop server w1 = None"
  by (rule att_link.chrcs_never_end [where server = server and hi = hi and x = x, OF assms])

lemma discovery_without_progress_never_ends_witness:
  "\<exists>p w1. bt_gatt_discover_characteristics link_host True 1 0xFFFF (Some 5) None link_world = Some (Some p, w1) \<and>
    run_link link_host l_sent link_pop (\<lambda>_ _. (0x09, length_payload enc_chrc [(3, 2, 4, [0, 0x2A])])) w1 = None"
  by (rule discovery_without_progress_never_ends [OF link_is_att_link, where x = "(3, 2, 4, [0, 0x2A])"])
    (simp_all add: link_world_def le16.put_width word_less_nat_alt)


section \<open>Any answer\<close>

text \<open>
  What the procedures need of the bearer and of the client to be safe: sending returns, and callbacks
  return and leave the request alone. A call \<open>keeps\<close> a request when it returns and the request is still
  there with at least as many references as asked for.
\<close>

definition leaves_alone :: "'e gh_host \<Rightarrow> ptr \<Rightarrow> bool" where
  "leaves_alone H p \<longleftrightarrow> (\<forall>op pdu cb e. gh_send H op pdu cb e \<noteq> None) \<and>
     (\<forall>c s ec rs w. \<exists>w'. gh_call H c s ec rs w = Some w' \<and> gh_reqs w' p = gh_reqs w p \<and> gh_incls w' = gh_incls w)"

definition keeps :: "ptr \<Rightarrow> int \<Rightarrow> 'e gh_world option \<Rightarrow> bool" where
  "keeps p n m \<longleftrightarrow> (\<exists>w r. m = Some w \<and> gh_reqs w p = Some r \<and> n \<le> req_refs r)"

lemma release_keeps:
  assumes "gh_reqs w p = Some r" "n + 1 \<le> req_refs r" "1 \<le> n"
  shows "keeps p n (release H (Req p) w)"
  using assms by (simp add: keeps_def release.simps [of H "Req p"] set_req_def)

lemma complete_keeps:
  assumes "leaves_alone H p" "gh_reqs w p = Some r" "n + (if req_id r = 0 then 1 else 0) \<le> req_refs r" "1 \<le> n"
  shows "keeps p n (discovery_op_complete H p s ec w)"
proof -
  obtain w1 where w1: "(case req_callback r of None \<Rightarrow> Some w
      | Some c \<Rightarrow> gh_call H c s ec (if s then results r else []) w) = Some w1" "gh_reqs w1 p = Some r"
  proof (cases "req_callback r")
    case None then show ?thesis using that assms(2) by simp
  next
    case (Some c)
    obtain w1 where "gh_call H c s ec (if s then results r else []) w = Some w1" "gh_reqs w1 p = gh_reqs w p"
      using assms(1) unfolding leaves_alone_def by blast
    then show ?thesis using that Some assms(2) by simp
  qed
  have d: "discovery_op_complete H p s ec w =
      (if req_id r = 0 then release H (Req p) w1 else Some (set_req p (Some (r\<lparr>req_id := 0\<rparr>)) w1))"
    using assms(2) w1 by (simp add: discovery_op_complete_def async_req_unref_def bt_gatt_request_unref_def)
  show ?thesis
  proof (cases "req_id r = 0")
    case True
    then show ?thesis using release_keeps [OF w1(2), of n H] assms(3,4) d by simp
  next
    case False
    then show ?thesis using assms(3) d by (simp add: keeps_def set_req_def)
  qed
qed

lemma send_next_keeps:
  assumes "leaves_alone H p" "gh_reqs w p = Some r" "n \<le> req_refs r" "1 \<le> n"
  shows "keeps p n (send_next H p opcode pdu cb w)"
proof -
  obtain i e where s: "gh_send H opcode pdu cb (bearer w) = Some (i, e)"
    using assms(1) unfolding leaves_alone_def by fastforce
  let ?r = "r\<lparr>req_refs := req_refs r + 1, req_id := i\<rparr>"
  let ?w = "set_req p (Some ?r) (w\<lparr>bearer := e\<rparr>)"
  have sr: "send_request H p opcode pdu cb w = Some (i, ?w)"
    using s assms(2) by (simp add: send_request_def bt_gatt_request_ref_def set_req_def)
  show ?thesis
  proof (cases "i = 0")
    case True
    have r: "gh_reqs ?w p = Some ?r" "n + (if req_id ?r = 0 then 1 else 0) \<le> req_refs ?r"
      using assms(3) by (simp add: set_req_def, simp)
    have "keeps p n (discovery_op_complete H p False 0 ?w)"
      by (rule complete_keeps [OF assms(1) r assms(4)])
    then show ?thesis using sr True by (simp add: send_next_def)
  next
    case False
    then show ?thesis using sr assms(3) by (simp add: send_next_def keeps_def set_req_def)
  qed
qed

lemma appended_keeps:
  assumes "gh_reqs w p = Some r" "k \<le> length d"
    and "\<And>w' rs. gh_reqs w' p = Some (r\<lparr>results := rs\<rparr>) \<Longrightarrow> keeps p n (f (None, w'))"
    and "\<And>w' res. res_pdu res = take k d \<Longrightarrow> gh_reqs w' p = Some (r\<lparr>results := results r @ [res]\<rparr>) \<Longrightarrow> keeps p n (f (Some res, w'))"
  shows "keeps p n (result_append H opcode d k dl p w \<bind> f)"
proof (cases "gh_alloc H w")
  case True
  then show ?thesis using assms(1,2)
    by (simp add: result_append_def result_create_def assms(4) set_req_def)
next
  case False
  have "keeps p n (f (None, w))" using assms(3) [of w "results r"] assms(1) by simp
  then show ?thesis using False by (simp add: result_append_def result_create_def)
qed

lemma error_keeps:
  assumes "leaves_alone H p" "gh_reqs w p = Some r" "n \<le> req_refs r" "req_id r \<noteq> 0" "1 \<le> n"
  shows "keeps p n (error_response H p pdu w)"
  using complete_keeps [OF assms(1,2)] assms(2-) by (simp add: error_response_def Let_def)

lemma get_le16_inside: "i + 2 \<le> length d \<Longrightarrow> \<exists>v. get_le16 (drop i d) = Some v"
proof -
  assume "i + 2 \<le> length d"
  then have "2 \<le> length (drop i d)" by simp
  then show ?thesis by (cases "drop i d" rule: get_le16.cases) auto
qed

lemma element_inside: "(len - 1) mod n = 0 \<Longrightarrow> 1 < len \<Longrightarrow> n + 1 \<le> (len :: nat)"
  using dvd_imp_le [of n "len - 1"] by (simp add: dvd_eq_mod_eq_0)


text \<open>A request as a callback finds it, and rules that follow the structure of a callback.\<close>

definition in_use :: "(bt_uuid \<Rightarrow> bool) \<Rightarrow> ptr \<Rightarrow> 'e gh_world \<Rightarrow> bool" where
  "in_use P p w \<longleftrightarrow> (\<exists>r. gh_reqs w p = Some r \<and> 2 \<le> req_refs r \<and> req_id r \<noteq> 0 \<and> P (req_uuid r))"

lemma in_use_complete: "leaves_alone H p \<Longrightarrow> in_use P p w \<Longrightarrow> keeps p 2 (discovery_op_complete H p s ec w)"
  using complete_keeps [of H p w _ 2] by (fastforce simp: in_use_def)

lemma in_use_next: "leaves_alone H p \<Longrightarrow> in_use P p w \<Longrightarrow> keeps p 2 (send_next H p opcode pdu cb w)"
  using send_next_keeps [of H p w _ 2] by (auto simp: in_use_def)

lemma in_use_error: "leaves_alone H p \<Longrightarrow> in_use P p w \<Longrightarrow> keeps p 2 (error_response H p pdu w)"
  using error_keeps [of H p w _ 2] by (auto simp: in_use_def)

lemma keeps_append:
  assumes "in_use P p w" "k \<le> length d"
    and "\<And>w'. in_use P p w' \<Longrightarrow> keeps p n (f (None, w'))"
    and "\<And>w' res r. res_pdu res = take k d \<Longrightarrow> in_use P p w' \<Longrightarrow> gh_reqs w' p = Some r \<Longrightarrow> results r \<noteq> [] \<Longrightarrow>
      last (results r) = res \<Longrightarrow> keeps p n (f (Some res, w'))"
  shows "keeps p n (result_append H opcode d k dl p w \<bind> f)"
proof -
  obtain r where r: "gh_reqs w p = Some r" "2 \<le> req_refs r" "req_id r \<noteq> 0" "P (req_uuid r)"
    using assms(1) by (auto simp: in_use_def)
  have u: "in_use P p w'" if "gh_reqs w' p = Some (r\<lparr>results := rs\<rparr>)" for w' rs
    using that r by (simp add: in_use_def)
  show ?thesis
  proof (rule appended_keeps [OF r(1) assms(2)])
    show "keeps p n (f (None, w'))" if "gh_reqs w' p = Some (r\<lparr>results := rs\<rparr>)" for w' rs
      by (rule assms(3) [OF u [OF that]])
    show "keeps p n (f (Some res, w'))"
      if "res_pdu res = take k d" "gh_reqs w' p = Some (r\<lparr>results := results r @ [res]\<rparr>)" for w' res
      by (rule assms(4) [OF that(1) u [OF that(2)] that(2)]) simp_all
  qed
qed

lemma keeps_if: "(b \<Longrightarrow> keeps p n x) \<Longrightarrow> (\<not> b \<Longrightarrow> keeps p n y) \<Longrightarrow> keeps p n (if b then x else y)"
  by simp

lemma keeps_case: "keeps p n (g a b) \<Longrightarrow> keeps p n (case (a, b) of (x, y) \<Rightarrow> g x y)"
  by simp

lemma keeps_Some: "keeps p n (f d) \<Longrightarrow> keeps p n (Some d \<bind> f)"
  by simp

lemma keeps_first: "d \<noteq> [] \<Longrightarrow> keeps p n (f (d ! 0)) \<Longrightarrow> keeps p n (array_get d 0 \<bind> f)"
  by (simp add: array_get_def)

lemma keeps_get: "i + 2 \<le> length d \<Longrightarrow> (\<And>v. keeps p n (f v)) \<Longrightarrow> keeps p n (get_le16 (drop i d) \<bind> f)"
  using get_le16_inside [of i d] by auto

lemma keeps_read: "(\<And>r. gh_reqs w p = Some r \<Longrightarrow> keeps p n (f r)) \<Longrightarrow> in_use P p w \<Longrightarrow> keeps p n (gh_reqs w p \<bind> f)"
  by (auto simp: in_use_def)

lemma keeps_last_end:
  assumes "in_use P p w" "gh_reqs w p = Some r" "i + 2 \<le> length (res_pdu (last (results r)))"
    and "\<And>w'. in_use P p w' \<Longrightarrow> keeps p n (f w')"
  shows "keeps p n ((if b then set_last_end i v p w else Some w) \<bind> f)"
proof (cases b)
  case True
  have "\<exists>w'. set_last_end i v p w = Some w' \<and> in_use P p w'"
    using assms(1-3) by (auto simp: set_last_end_def Let_def in_use_def set_req_def)
  then show ?thesis using True assms(4) by auto
next
  case False then show ?thesis using assms(1,4) by simp
qed

lemma keeps_uuid:
  "(\<And>u. keeps p n (f u)) \<Longrightarrow> in_use (\<lambda>u. uuid_pdu u \<noteq> None) p w \<Longrightarrow> gh_reqs w p = Some r \<Longrightarrow>
    keeps p n (uuid_pdu (req_uuid r) \<bind> f)"
  by (auto simp: in_use_def)

lemmas keeps_rules = keeps_if keeps_case keeps_Some keeps_first keeps_get keeps_read

lemmas answer_rules = keeps_rules keeps_last_end keeps_uuid

lemma read_by_grp_type_keeps:
  assumes la: "leaves_alone H p" and u: "in_use P p w"
  shows "keeps p 2 (read_by_grp_type_cb H opcode (Some d) p w)"
  unfolding read_by_grp_type_cb_def Let_def
  by (intro answer_rules in_use_error [OF la u] in_use_complete [OF la, of P] in_use_next [OF la, of P] keeps_append [OF u])
    (use element_inside [of "length d" "unat (d ! 0)"] u in \<open>auto simp: pdu_length_def\<close>)

lemma discover_chrcs_keeps:
  assumes la: "leaves_alone H p" and u: "in_use P p w"
  shows "keeps p 2 (discover_chrcs_cb H opcode (Some d) p w)"
  unfolding discover_chrcs_cb_def Let_def
  by (intro answer_rules in_use_error [OF la u] in_use_complete [OF la, of P] in_use_next [OF la, of P] keeps_append [OF u])
    (use element_inside [of "length d" "unat (d ! 0)"] u in \<open>auto simp: pdu_length_def\<close>)

lemma discover_descs_keeps:
  assumes la: "leaves_alone H p" and u: "in_use P p w"
  shows "keeps p 2 (discover_descs_cb H opcode (Some d) p w)"
  unfolding discover_descs_cb_def Let_def
  by (intro answer_rules in_use_error [OF la u] in_use_complete [OF la, of P] in_use_next [OF la, of P] keeps_append [OF u])
    (use element_inside [of "length d" "if d ! 0 = 1 then 4 else 18"] u in \<open>auto simp: pdu_length_def\<close>)

lemma last_pair_inside: "xs \<noteq> [] \<Longrightarrow> 4 dvd length xs \<Longrightarrow> Suc (Suc (length xs - 2)) \<le> length xs"
  using dvd_imp_le [of 4 "length xs"] by simp

lemma find_by_type_val_keeps:
  assumes la: "leaves_alone H p" and u: "in_use (\<lambda>u. uuid_pdu u \<noteq> None) p w"
  shows "keeps p 2 (find_by_type_val_cb H opcode (Some d) p w)"
  unfolding find_by_type_val_cb_def Let_def
  by (intro answer_rules in_use_error [OF la u] in_use_complete [OF la, of "\<lambda>u. uuid_pdu u \<noteq> None"]
      in_use_next [OF la, of "\<lambda>u. uuid_pdu u \<noteq> None"] keeps_append [OF u])
    (use u in \<open>auto simp: pdu_length_def last_pair_inside\<close>)

text \<open>Reading the included services one by one: the data of the read holds a reference of its own.\<close>

lemma read_included_keeps:
  assumes la: "leaves_alone H p" and u: "in_use P p w" and d: "gh_incls w d = Some x" "ri_op x = p" "ri_refs x = 0"
    "ri_pos x = 0" "4 \<le> length (res_pdu (ri_result x))" and r: "gh_reqs w p = Some r" "3 \<le> req_refs r"
  shows "keeps p 2 (read_included H d w)"
proof -
  let ?q = "take 2 (drop 2 (res_pdu (ri_result x)))"
  obtain i e where s: "gh_send H BT_ATT_OP_READ_REQ ?q (ReadIncludedCb d) (bearer w) = Some (i, e)"
    using la unfolding leaves_alone_def by fastforce
  let ?x = "x\<lparr>ri_pos := res_data_len (ri_result x), ri_refs := 1\<rparr>"
  let ?w = "(set_incl d (Some ?x) w)\<lparr>bearer := e\<rparr>"
  have sent: "send_read H d w = Some (i \<noteq> 0, ?w)"
    using s d by (simp add: send_read_def read_included_ref_def set_incl_def numeral_2_eq_2)
  show ?thesis
  proof (cases "i = 0")
    case False
    then show ?thesis using sent r by (simp add: read_included_def keeps_def set_incl_def)
  next
    case True
    obtain w1 where w1: "(case req_callback r of None \<Rightarrow> Some ?w | Some c \<Rightarrow> gh_call H c False 0 [] ?w) = Some w1"
      "gh_reqs w1 p = Some r" "gh_incls w1 d = Some ?x"
    proof (cases "req_callback r")
      case None then show ?thesis using that r by (simp add: set_incl_def)
    next
      case (Some c)
      obtain w1 where "gh_call H c False 0 [] ?w = Some w1" "gh_reqs w1 p = gh_reqs ?w p" "gh_incls w1 = gh_incls ?w"
        using la unfolding leaves_alone_def by blast
      then show ?thesis using that Some r by (simp add: set_incl_def)
    qed
    let ?w2 = "set_incl d (Some (?x\<lparr>ri_refs := 0\<rparr>)) w1"
    have "keeps p 2 (release H (Req p) ?w2)"
      by (rule release_keeps [of _ _ r]) (use w1(2) r(2) in \<open>simp_all add: set_incl_def\<close>)
    then obtain w3 r3 where w3: "release H (Req p) ?w2 = Some w3" "gh_reqs w3 p = Some r3" "2 \<le> req_refs r3"
      by (auto simp: keeps_def)
    have "read_included_unref H d w1 = Some (set_incl d None w3)"
      using w1(3) w3(1) d(2) unfolding read_included_unref_def
      by (subst release.simps) (simp add: set_incl_def)
    then show ?thesis using sent True w1(1) w3 r(1) d(2)
      unfolding set_incl_def by (simp add: read_included_def keeps_def)
  qed
qed

lemma included_keeps:
  assumes la: "leaves_alone H p" and u: "in_use P p w" and res: "res_op res = p" "4 \<le> length (res_pdu res)"
  shows "keeps p 2 (new_read_included H res w \<bind> (\<lambda>(data, w).
    case data of None \<Rightarrow> discovery_op_complete H p False 0 w | Some i \<Rightarrow> read_included H i w))"
proof (cases "gh_alloc H w")
  case False
  then show ?thesis using in_use_complete [OF la u] by (simp add: new_read_included_def)
next
  case True
  obtain r where r: "gh_reqs w p = Some r" "2 \<le> req_refs r" "req_id r \<noteq> 0" "P (req_uuid r)"
    using u by (auto simp: in_use_def)
  let ?r = "r\<lparr>req_refs := req_refs r + 1\<rparr>"
  let ?d = "gh_next w"
  let ?x = "\<lparr>ri_op = p, ri_result = res, ri_pos = 0, ri_refs = 0\<rparr>"
  let ?w = "set_incl ?d (Some ?x) ((set_req p (Some ?r) w)\<lparr>gh_next := ?d + 1\<rparr>)"
  have n: "new_read_included H res w = Some (Some ?d, ?w)"
    using True res(1) r(1) by (simp add: new_read_included_def bt_gatt_request_ref_def set_req_def Let_def)
  have "keeps p 2 (read_included H ?d ?w)"
    by (rule read_included_keeps [OF la, of P _ _ ?x ?r])
      (use r res(2) in \<open>simp_all add: in_use_def set_incl_def set_req_def\<close>)
  then show ?thesis using n by simp
qed

lemma keeps_included_append:
  assumes la: "leaves_alone H p" and u: "in_use P p w" and k: "k \<le> length d" "4 \<le> k"
    and rest: "\<And>w' res. in_use P p w' \<Longrightarrow> keeps p 2 (g res w')"
  shows "keeps p 2 (result_append H opcode d k dl p w \<bind> (\<lambda>(cur, w).
    case cur of None \<Rightarrow> discovery_op_complete H p False 0 w
    | Some res \<Rightarrow> if b then new_read_included H res w \<bind> (\<lambda>(data, w).
        case data of None \<Rightarrow> discovery_op_complete H p False 0 w | Some i \<Rightarrow> read_included H i w) else g res w))"
proof -
  obtain r where r: "gh_reqs w p = Some r" "2 \<le> req_refs r" "req_id r \<noteq> 0" "P (req_uuid r)"
    using u by (auto simp: in_use_def)
  show ?thesis
  proof (cases "gh_alloc H w")
    case False
    then show ?thesis using in_use_complete [OF la u] by (simp add: result_append_def result_create_def)
  next
    case True
    let ?res = "\<lparr>res_opcode = opcode, res_pdu = take k d, res_pdu_len = k, res_data_len = dl, res_op = p\<rparr>"
    let ?w = "set_req p (Some (r\<lparr>results := results r @ [?res]\<rparr>)) w"
    have a: "result_append H opcode d k dl p w = Some (Some ?res, ?w)"
      using True r(1) k by (simp add: result_append_def result_create_def)
    have u': "in_use P p ?w" using r by (simp add: in_use_def set_req_def)
    show ?thesis using included_keeps [OF la u', of ?res] rest [OF u', of ?res] k a by simp
  qed
qed

lemma discover_included_keeps:
  assumes la: "leaves_alone H p" and u: "in_use P p w"
  shows "keeps p 2 (discover_included_cb H opcode (Some d) p w)"
  unfolding discover_included_cb_def Let_def
  by (intro answer_rules in_use_error [OF la u] in_use_complete [OF la, of P] in_use_next [OF la, of P]
      keeps_included_append [OF la u])
    (use element_inside [of "length d" "unat (d ! 0)"] u in \<open>auto simp: pdu_length_def\<close>)

lemma no_pdu_keeps:
  assumes la: "leaves_alone H p" and u: "in_use P p w"
    and cb: "cb \<in> {ReadByGrpTypeCb p, DiscoverChrcsCb p, DiscoverDescsCb p, DiscoverIncludedCb p, FindByTypeValCb p}"
  shows "keeps p 2 (gh_callback H cb opcode None w)"
  using cb in_use_error [OF la u] in_use_complete [OF la u]
  by (auto simp: read_by_grp_type_cb_def discover_chrcs_cb_def discover_descs_cb_def discover_included_cb_def
      find_by_type_val_cb_def Let_def)

lemma any_answer_safe:
  assumes la: "leaves_alone H p" and u: "in_use P p w"
    and cb: "cb \<in> {ReadByGrpTypeCb p, DiscoverChrcsCb p, DiscoverDescsCb p, DiscoverIncludedCb p} \<or>
      cb = FindByTypeValCb p \<and> P = (\<lambda>u. uuid_pdu u \<noteq> None)"
  shows "keeps p 1 (gh_respond H cb opcode pdu w)"
proof -
  have k: "keeps p 2 (gh_callback H cb opcode pdu w)"
  proof (cases pdu)
    case None
    then show ?thesis using no_pdu_keeps [OF la u] cb by auto
  next
    case (Some d)
    then show ?thesis using cb read_by_grp_type_keeps [OF la u] discover_chrcs_keeps [OF la u] discover_descs_keeps [OF la u]
        discover_included_keeps [OF la u] find_by_type_val_keeps [OF la] u by auto
  qed
  then obtain w' r where w': "gh_callback H cb opcode pdu w = Some w'" "gh_reqs w' p = Some r" "2 \<le> req_refs r"
    by (auto simp: keeps_def)
  have "user_data cb = Req p" using cb by auto
  then show ?thesis using release_keeps [OF w'(2), of 1 H] w'(1,3) by (simp add: gh_respond_def)
qed


definition example_request :: bt_gatt_request where
  "example_request = \<lparr>req_id = 7, end_handle = 0xFFFF, req_refs = 2, req_uuid = BT_UUID_UNSPEC, service_type = 0x2800,
     results = [], req_callback = Some 5, req_destroy = None\<rparr>"


section \<open>What is not checked\<close>

text \<open>An answer to a read by type whose elements have length 0 is a division by zero.\<close>

lemma read_by_type_divides_by_zero:
  "read_by_type_cb H BT_ATT_OP_READ_BY_TYPE_RSP (Some (0 # d)) p w = None"
  by (simp add: read_by_type_cb_def opcode_defs)

text \<open>
  A client that cancels a request from the callback of the request loses its own reference: the number
  of the operation is 0 when the callback returns, which \<^verbatim>\<open>discovery_op_complete\<close> takes for a request
  that could not be sent, and it drops a reference once more. The request is freed while the caller
  holds it.
\<close>

lemma cancel_in_callback_frees_request:
  assumes "gh_reqs w p = Some r" "req_refs r = 2" "req_id r \<noteq> 0" "req_callback r = Some c" "req_destroy r = None"
    and "\<And>s ec rs w. gh_call H c s ec rs w = bt_gatt_request_cancel H (Some p) w"
    and "\<And>i e. gh_cancel H i e = Some (None, e)"
  shows "\<exists>w'. (discovery_op_complete H p s ec w \<bind> release H (Req p)) = Some w' \<and> gh_reqs w' p = None"
proof -
  let ?w1 = "set_req p (Some (r\<lparr>req_id := 0\<rparr>)) w"
  let ?w2 = "set_req p (Some (r\<lparr>req_id := 0, req_refs := 1\<rparr>)) w"
  have "gh_call H c s ec (if s then results r else []) w = Some ?w1"
    using assms by (simp add: bt_gatt_request_cancel_def)
  then have c: "discovery_op_complete H p s ec w = release H (Req p) ?w1"
    using assms by (simp add: discovery_op_complete_def set_req_def async_req_unref_def bt_gatt_request_unref_def)
  have "release H (Req p) ?w1 = Some ?w2"
    using assms(2) by (subst release.simps) (simp add: set_req_def)
  moreover have "\<exists>w'. release H (Req p) ?w2 = Some w' \<and> gh_reqs w' p = None"
    using assms(5) by (subst release.simps) (simp add: set_req_def call_destroy_def)
  ultimately show ?thesis using c by simp
qed

end
