(* ===== verification/ClientBase.thy ===== *)
theory ClientBase
  imports GattHelpers GattDb
begin

text \<open>
  \<^verbatim>\<open>bluez/gatt-client.c\<close>, first part: the objects of the GATT client and how they live and die. Requests,
  notification registrations, characteristics with notifications and discovery operations are on
  heaps, so that the use of a freed object is \<open>None\<close>; the client itself is \<open>None\<close> when it was freed.
  What a \<^verbatim>\<open>void *data\<close> of a request points to is part of the request.

  The state is the bearer's side of a \<open>gh_world\<close>, so the discovery procedures of \<open>GattHelpers\<close> run on the
  same state. The ATT bearer below is a parameter (\<open>gc_host\<close>). An operation handed to it is a \<open>gc_op\<close>,
  which names the callback with its object; the bearer releases the object after the answer, or when
  the operation is cancelled (\<open>release_op\<close>). The functions of the layer above are numbers and do what
  the host says, on all of the state. There is one client, so the tests for a null pointer to it are
  left out, and so are debug messages.
\<close>

section \<open>Constants\<close>

definition BT_ATT_OP_READ_BLOB_REQ :: byte where "BT_ATT_OP_READ_BLOB_REQ = 0x0C"
definition BT_ATT_OP_READ_BLOB_RSP :: byte where "BT_ATT_OP_READ_BLOB_RSP = 0x0D"
definition BT_ATT_OP_READ_MULT_REQ :: byte where "BT_ATT_OP_READ_MULT_REQ = 0x0E"
definition BT_ATT_OP_READ_MULT_RSP :: byte where "BT_ATT_OP_READ_MULT_RSP = 0x0F"
definition BT_ATT_OP_WRITE_REQ :: byte where "BT_ATT_OP_WRITE_REQ = 0x12"
definition BT_ATT_OP_WRITE_RSP :: byte where "BT_ATT_OP_WRITE_RSP = 0x13"
definition BT_ATT_OP_WRITE_CMD :: byte where "BT_ATT_OP_WRITE_CMD = 0x52"
definition BT_ATT_OP_SIGNED_WRITE_CMD :: byte where "BT_ATT_OP_SIGNED_WRITE_CMD = 0xD2"
definition BT_ATT_OP_PREP_WRITE_REQ :: byte where "BT_ATT_OP_PREP_WRITE_REQ = 0x16"
definition BT_ATT_OP_PREP_WRITE_RSP :: byte where "BT_ATT_OP_PREP_WRITE_RSP = 0x17"
definition BT_ATT_OP_EXEC_WRITE_REQ :: byte where "BT_ATT_OP_EXEC_WRITE_REQ = 0x18"
definition BT_ATT_OP_EXEC_WRITE_RSP :: byte where "BT_ATT_OP_EXEC_WRITE_RSP = 0x19"
definition BT_ATT_OP_HANDLE_VAL_NOT :: byte where "BT_ATT_OP_HANDLE_VAL_NOT = 0x1B"
definition BT_ATT_OP_HANDLE_VAL_IND :: byte where "BT_ATT_OP_HANDLE_VAL_IND = 0x1D"
definition BT_ATT_OP_HANDLE_VAL_CONF :: byte where "BT_ATT_OP_HANDLE_VAL_CONF = 0x1E"
definition BT_ATT_MAX_VALUE_LEN :: nat where "BT_ATT_MAX_VALUE_LEN = 512"

section \<open>State\<close>

record read_long_op =
  rl_handle :: u16
  rl_offset :: u16
  rl_value :: bytes
  rl_callback :: "nat option"
  rl_destroy :: "nat option"

record long_write_op =
  reliable :: bool
  lw_success :: bool
  lw_ecode :: byte
  reliable_error :: bool
  lw_handle :: u16
  lw_value :: bytes
  lw_length :: u16
  lw_offset :: u16
  lw_index :: u16
  cur_length :: u16
  lw_callback :: "nat option"
  lw_destroy :: "nat option"

record prep_write_op =
  pw_pdu :: "bytes option"
  pw_callback :: "nat option"
  pw_destroy :: "nat option"

datatype op_data =
    NoData
  | FreedData
  | ReadOp "nat option" "nat option"
  | ReadLongOp read_long_op
  | WriteOp "nat option" "nat option"
  | LongWriteOp long_write_op
  | PrepWriteOp prep_write_op

record request =
  long_write :: bool
  prep_write :: bool
  removed :: bool
  rq_refs :: int
  rq_id :: u32
  rq_att_id :: u32
  rq_data :: op_data

datatype register_callback = UpperRegistered nat | ServiceChangedRegister | ServiceChangedReregister
datatype notify_callback = UpperNotify nat | ServiceChangedCb

record notify_chrc =
  value_handle :: u16
  ccc_handle :: u16
  properties :: u16
  notify_count :: int
  reg_notify_queue :: "ptr list"
  ccc_write_id :: u32

record notify_data =
  nd_id :: u32
  nd_att_id :: u32
  nd_refs :: int
  nd_chrc :: ptr
  nd_callback :: register_callback
  nd_notify :: "notify_callback option"
  nd_destroy :: "nat option"

record chrc =
  ch_start :: u16
  ch_end :: u16
  ch_value :: u16
  ch_props :: byte
  ch_uuid :: bt_uuid

text \<open>The functions that complete an operation and undo it when it fails: of the initial discovery, and of
  the discovery of a range that changed.\<close>

datatype discovery_kind = Init | ServiceChange

record discovery_op =
  pending_svcs :: "attr_ref list"
  pending_chrcs :: "chrc list"
  tmp_queue :: "attr_ref list"
  cur_svc :: "attr_ref option"
  op_success :: bool
  op_start :: u16
  op_end :: u16
  op_refs :: int
  op_kind :: discovery_kind

record bt_gatt_client =
  cl_att :: bool
  cl_db :: bool
  cl_refs :: int
  ready_callback :: "nat option"
  ready_destroy :: "nat option"
  svc_chngd_callback :: "nat option"
  svc_chngd_destroy :: "nat option"
  debug_callback :: "nat option"
  debug_destroy :: "nat option"
  in_init :: bool
  ready :: bool
  long_write_queue :: "ptr list"
  in_long_write :: bool
  reliable_write_session_id :: u32
  notify_regs :: "ptr list"
  notify_chrcs :: "ptr list"
  next_reg_id :: int
  disc_id :: u32
  notify_id :: u32
  ind_id :: u32
  svc_chngd_ind_id :: u32
  svc_chngd_registered :: bool
  svc_chngd_queue :: "(u16 \<times> u16) list"
  in_svc_chngd :: bool
  pending_requests :: "ptr list"
  next_request_id :: u32
  discovery_req :: "ptr option"
  mtu_req_id :: u32

datatype gc_op =
    ReadCb ptr | ReadMultipleCb ptr | ReadLongCb ptr
  | WriteCommand ptr | WriteCb ptr
  | PrepareWriteCb ptr | ExecuteWriteCb ptr
  | PrepWriteCb ptr | ExecWriteCb ptr
  | CancelLongWriteCb | CancelPrepWriteCb ptr
  | EnableCccCb ptr | DisableCccCb ptr
  | Confirmation
  | Helper gh_cb

text \<open>The database is shared with the layer above, which holds a reference of its own.\<close>

record 'e gatt_state =
  att_env :: 'e
  client :: "bt_gatt_client option"
  database :: gatt_db
  db_refs :: int
  requests :: "ptr \<rightharpoonup> request"
  notifies :: "ptr \<rightharpoonup> notify_data"
  chrcs :: "ptr \<rightharpoonup> notify_chrc"
  disc_ops :: "ptr \<rightharpoonup> discovery_op"
  gs_next :: ptr

type_synonym 'e world = "'e gatt_state gh_world"

text \<open>The calls of functions above: the end of an operation, of a read, of a long write, of a
  registration, a notified value, the client's readiness, a range of services that changed.\<close>

datatype gc_event =
    Finished bool byte
  | ReadFinished bool byte "bytes option" u16
  | LongWriteFinished bool bool byte
  | Registered u16
  | Notified u16 "bytes option" u16
  | ServicesChanged u16 u16

record 'e gc_host =
  gc_alloc :: "'e world \<Rightarrow> bool"
  gc_send :: "byte \<Rightarrow> bytes \<Rightarrow> gc_op \<Rightarrow> 'e \<Rightarrow> (u32 \<times> 'e) option"
  gc_cancel :: "u32 \<Rightarrow> 'e \<Rightarrow> (bool \<times> gc_op option \<times> 'e) option"
  gc_mtu :: "'e \<Rightarrow> u16"
  gc_set_mtu :: "u16 \<Rightarrow> 'e \<Rightarrow> 'e option"
  gc_sec_level :: "'e \<Rightarrow> int"
  gc_set_sec_level :: "int \<Rightarrow> 'e \<Rightarrow> bool \<times> 'e"
  gc_register :: "byte \<Rightarrow> 'e \<Rightarrow> u32 \<times> 'e"
  gc_unregister :: "u32 \<Rightarrow> 'e \<Rightarrow> 'e"
  gc_register_disconnect :: "'e \<Rightarrow> u32 \<times> 'e"
  gc_unregister_disconnect :: "u32 \<Rightarrow> 'e \<Rightarrow> 'e"
  gc_att_ref :: "'e \<Rightarrow> 'e"
  gc_att_unref :: "'e \<Rightarrow> 'e"
  gc_call :: "nat \<Rightarrow> gc_event \<Rightarrow> 'e world \<Rightarrow> 'e world option"
  gc_destroyed :: "nat \<Rightarrow> 'e world \<Rightarrow> 'e world option"

section \<open>Access\<close>

definition upd :: "('e gatt_state \<Rightarrow> 'e gatt_state) \<Rightarrow> 'e world \<Rightarrow> 'e world" where
  "upd f w = w\<lparr>bearer := f (bearer w)\<rparr>"

definition upd_client :: "(bt_gatt_client \<Rightarrow> bt_gatt_client) \<Rightarrow> 'e world \<Rightarrow> 'e world option" where
  "upd_client f w = do { c \<leftarrow> client (bearer w); Some (upd (\<lambda>s. s\<lparr>client := Some (f c)\<rparr>) w) }"

definition upd_request :: "ptr \<Rightarrow> (request \<Rightarrow> request) \<Rightarrow> 'e world \<Rightarrow> 'e world option" where
  "upd_request p f w = do {
     r \<leftarrow> requests (bearer w) p;
     Some (upd (\<lambda>s. s\<lparr>requests := (requests s)(p \<mapsto> f r)\<rparr>) w) }"

definition upd_notify :: "ptr \<Rightarrow> (notify_data \<Rightarrow> notify_data) \<Rightarrow> 'e world \<Rightarrow> 'e world option" where
  "upd_notify p f w = do {
     d \<leftarrow> notifies (bearer w) p;
     Some (upd (\<lambda>s. s\<lparr>notifies := (notifies s)(p \<mapsto> f d)\<rparr>) w) }"

definition upd_chrc :: "ptr \<Rightarrow> (notify_chrc \<Rightarrow> notify_chrc) \<Rightarrow> 'e world \<Rightarrow> 'e world option" where
  "upd_chrc p f w = do {
     c \<leftarrow> chrcs (bearer w) p;
     Some (upd (\<lambda>s. s\<lparr>chrcs := (chrcs s)(p \<mapsto> f c)\<rparr>) w) }"

definition upd_op :: "ptr \<Rightarrow> (discovery_op \<Rightarrow> discovery_op) \<Rightarrow> 'e world \<Rightarrow> 'e world option" where
  "upd_op p f w = do {
     d \<leftarrow> disc_ops (bearer w) p;
     Some (upd (\<lambda>s. s\<lparr>disc_ops := (disc_ops s)(p \<mapsto> f d)\<rparr>) w) }"

definition get_db :: "'e world \<Rightarrow> gatt_db option" where
  "get_db w = (if 0 < db_refs (bearer w) then Some (database (bearer w)) else None)"

definition set_db :: "gatt_db \<Rightarrow> 'e world \<Rightarrow> 'e world" where
  "set_db d w = upd (\<lambda>s. s\<lparr>database := d\<rparr>) w"

text \<open>Calling a function of the layer above, if there is one.\<close>

definition call_upper :: "'e gc_host \<Rightarrow> nat option \<Rightarrow> gc_event \<Rightarrow> 'e world \<Rightarrow> 'e world option" where
  "call_upper G f ev w = (case f of None \<Rightarrow> Some w | Some n \<Rightarrow> gc_call G n ev w)"

definition destroy_upper :: "'e gc_host \<Rightarrow> nat option \<Rightarrow> 'e world \<Rightarrow> 'e world option" where
  "destroy_upper G f w = (case f of None \<Rightarrow> Some w | Some n \<Rightarrow> gc_destroyed G n w)"

text \<open>One call for each element, in order.\<close>

fun each :: "('a \<Rightarrow> 'w \<Rightarrow> 'w option) \<Rightarrow> 'a list \<Rightarrow> 'w \<Rightarrow> 'w option" where
  "each f [] w = Some w"
| "each f (x # xs) w = do { w \<leftarrow> f x w; each f xs w }"

section \<open>Requests\<close>

definition request_ref :: "ptr \<Rightarrow> 'e world \<Rightarrow> 'e world option" where
  "request_ref p w = upd_request p (\<lambda>r. r\<lparr>rq_refs := rq_refs r + 1\<rparr>) w"

definition request_create :: "'e gc_host \<Rightarrow> 'e world \<Rightarrow> (ptr option \<times> 'e world) option" where
  "request_create G w =
     (if \<not> gc_alloc G w then Some (None, w)
      else do {
        let p = gs_next (bearer w);
        w \<leftarrow> upd_client (\<lambda>c. if next_request_id c < 1 then c\<lparr>next_request_id := 1\<rparr> else c) w;
        c \<leftarrow> client (bearer w);
        let r = \<lparr>long_write = False, prep_write = False, removed = False, rq_refs = 0,
                 rq_id = next_request_id c, rq_att_id = 0, rq_data = NoData\<rparr>;
        w \<leftarrow> upd_client (\<lambda>c. c\<lparr>pending_requests := pending_requests c @ [p], next_request_id := next_request_id c + 1\<rparr>) w;
        w \<leftarrow> request_ref p (upd (\<lambda>s. s\<lparr>gs_next := p + 1, requests := (requests s)(p \<mapsto> r)\<rparr>) w);
        Some (Some p, w) })"

text \<open>The destroy functions of the five kinds of data: the caller's function, then \<^verbatim>\<open>free\<close>.\<close>

fun destroy_data :: "'e gc_host \<Rightarrow> op_data \<Rightarrow> 'e world \<Rightarrow> 'e world option" where
  "destroy_data G NoData w = Some w"
| "destroy_data G FreedData w = None"
| "destroy_data G (ReadOp _ d) w = destroy_upper G d w"
| "destroy_data G (ReadLongOp op) w = destroy_upper G (rl_destroy op) w"
| "destroy_data G (WriteOp _ d) w = destroy_upper G d w"
| "destroy_data G (LongWriteOp op) w = destroy_upper G (lw_destroy op) w"
| "destroy_data G (PrepWriteOp op) w = destroy_upper G (pw_destroy op) w"

definition request_unref :: "'e gc_host \<Rightarrow> ptr \<Rightarrow> 'e world \<Rightarrow> 'e world option" where
  "request_unref G p w = do {
     w \<leftarrow> upd_request p (\<lambda>r. r\<lparr>rq_refs := rq_refs r - 1\<rparr>) w;
     r \<leftarrow> requests (bearer w) p;
     if rq_refs r \<noteq> 0 then Some w
     else do {
       w \<leftarrow> destroy_data G (rq_data r) w;
       r \<leftarrow> requests (bearer w) p;
       w \<leftarrow> (if removed r then Some w
             else upd_client (\<lambda>c. c\<lparr>pending_requests := remove1 p (pending_requests c)\<rparr>) w);
       Some (upd (\<lambda>s. s\<lparr>requests := (requests s)(p := None)\<rparr>) w) } }"

section \<open>Registrations for notifications\<close>

definition notify_data_ref :: "ptr \<Rightarrow> 'e world \<Rightarrow> 'e world option" where
  "notify_data_ref d w = upd_notify d (\<lambda>n. n\<lparr>nd_refs := nd_refs n + 1\<rparr>) w"

definition notify_data_unref :: "'e gc_host \<Rightarrow> ptr \<Rightarrow> 'e world \<Rightarrow> 'e world option" where
  "notify_data_unref G d w = do {
     w \<leftarrow> upd_notify d (\<lambda>n. n\<lparr>nd_refs := nd_refs n - 1\<rparr>) w;
     n \<leftarrow> notifies (bearer w) d;
     if nd_refs n \<noteq> 0 then Some w
     else do {
       w \<leftarrow> destroy_upper G (nd_destroy n) w;
       Some (upd (\<lambda>s. s\<lparr>notifies := (notifies s)(d := None)\<rparr>) w) } }"

text \<open>\<^verbatim>\<open>find_ccc\<close>, called for each descriptor: the first one with the type is kept.\<close>

definition GATT_CLIENT_CHARAC_CFG_UUID :: u16 where "GATT_CLIENT_CHARAC_CFG_UUID = 0x2902"
definition SVC_CHNGD_UUID :: u16 where "SVC_CHNGD_UUID = 0x2A05"

definition find_ccc :: "gatt_db \<Rightarrow> attr_ref \<Rightarrow> attr_ref option \<Rightarrow> attr_ref option option" where
  "find_ccc db attr ccc =
     (if ccc \<noteq> None then Some ccc
      else do {
        type \<leftarrow> gatt_db_attribute_get_type db (Some attr);
        type \<leftarrow> type;
        differs \<leftarrow> uuid_differs (BT_UUID16 GATT_CLIENT_CHARAC_CFG_UUID) type;
        Some (if differs then None else Some attr) })"

text \<open>A null pointer of a type makes \<^verbatim>\<open>bt_uuid_cmp\<close> undefined; allocations fail before anything is kept.\<close>

definition notify_chrc_create :: "'e gc_host \<Rightarrow> u16 \<Rightarrow> 'e world \<Rightarrow> (ptr option \<times> 'e world) option" where
  "notify_chrc_create G handle w = do {
     db \<leftarrow> get_db w;
     attr \<leftarrow> gatt_db_get_attribute db (handle - 1);
     if attr = None then Some (None, w)
     else do {
       type \<leftarrow> gatt_db_attribute_get_type db attr;
       type \<leftarrow> type;
       differs \<leftarrow> uuid_differs (BT_UUID16 GATT_CHARAC_UUID) type;
       if differs then Some (None, w)
       else do {
         data \<leftarrow> gatt_db_attribute_get_char_data db attr;
         case data of None \<Rightarrow> Some (None, w)
         | Some (_, _, props, _) \<Rightarrow>
             if \<not> gc_alloc G w then Some (None, w)
             else do {
               ccc \<leftarrow> gatt_db_service_foreach_desc db attr (find_ccc db) None;
               h \<leftarrow> (case ccc of None \<Rightarrow> Some 0 | Some _ \<Rightarrow> gatt_db_attribute_get_handle db ccc);
               let p = gs_next (bearer w);
               let c = \<lparr>value_handle = handle, ccc_handle = h, properties = ucast props, notify_count = 0,
                        reg_notify_queue = [], ccc_write_id = 0\<rparr>;
               w \<leftarrow> upd_client (\<lambda>c. c\<lparr>notify_chrcs := notify_chrcs c @ [p]\<rparr>) w;
               Some (Some p, upd (\<lambda>s. s\<lparr>gs_next := p + 1, chrcs := (chrcs s)(p \<mapsto> c)\<rparr>) w) } } } }"

definition notify_chrc_free :: "'e gc_host \<Rightarrow> ptr \<Rightarrow> 'e world \<Rightarrow> 'e world option" where
  "notify_chrc_free G p w = do {
     c \<leftarrow> chrcs (bearer w) p;
     w \<leftarrow> each (notify_data_unref G) (reg_notify_queue c) w;
     Some (upd (\<lambda>s. s\<lparr>chrcs := (chrcs s)(p := None)\<rparr>) w) }"

text \<open>\<^verbatim>\<open>queue_remove_all\<close> with a predicate: the first match is taken out and destroyed until there is none.\<close>

fun find_match :: "('a \<Rightarrow> 'w \<Rightarrow> bool option) \<Rightarrow> 'a list \<Rightarrow> 'w \<Rightarrow> 'a option option" where
  "find_match match [] w = Some None"
| "find_match match (x # xs) w = do { m \<leftarrow> match x w; if m then Some (Some x) else find_match match xs w }"

partial_function (option) remove_matching :: "(ptr \<Rightarrow> 'e world \<Rightarrow> bool option) \<Rightarrow> (bt_gatt_client \<Rightarrow> ptr list) \<Rightarrow>
    ((ptr list \<Rightarrow> ptr list) \<Rightarrow> bt_gatt_client \<Rightarrow> bt_gatt_client) \<Rightarrow> (ptr \<Rightarrow> 'e world \<Rightarrow> 'e world option) \<Rightarrow> 'e world \<Rightarrow> 'e world option" where
  [code]: "remove_matching match queue upd_queue destroy w = do {
     c \<leftarrow> client (bearer w);
     found \<leftarrow> find_match match (queue c) w;
     case found of None \<Rightarrow> Some w
     | Some x \<Rightarrow> do {
         w \<leftarrow> upd_client (upd_queue (remove1 x)) w;
         w \<leftarrow> destroy x w;
         remove_matching match queue upd_queue destroy w } }"

definition match_notify_data_handle_range :: "u16 \<Rightarrow> u16 \<Rightarrow> ptr \<Rightarrow> 'e world \<Rightarrow> bool option" where
  "match_notify_data_handle_range s e d w = do {
     n \<leftarrow> notifies (bearer w) d;
     c \<leftarrow> chrcs (bearer w) (nd_chrc n);
     Some (value_handle c \<ge> s \<and> value_handle c \<le> e) }"

definition match_notify_chrc_handle_range :: "u16 \<Rightarrow> u16 \<Rightarrow> ptr \<Rightarrow> 'e world \<Rightarrow> bool option" where
  "match_notify_chrc_handle_range s e p w = do {
     c \<leftarrow> chrcs (bearer w) p;
     Some (value_handle c \<ge> s \<and> value_handle c \<le> e) }"

definition gatt_client_remove_all_notify_in_range :: "'e gc_host \<Rightarrow> u16 \<Rightarrow> u16 \<Rightarrow> 'e world \<Rightarrow> 'e world option" where
  "gatt_client_remove_all_notify_in_range G s e =
     remove_matching (match_notify_data_handle_range s e) notify_regs notify_regs_update (notify_data_unref G)"

definition gatt_client_remove_notify_chrcs_in_range :: "'e gc_host \<Rightarrow> u16 \<Rightarrow> u16 \<Rightarrow> 'e world \<Rightarrow> 'e world option" where
  "gatt_client_remove_notify_chrcs_in_range G s e =
     remove_matching (match_notify_chrc_handle_range s e) notify_chrcs notify_chrcs_update (notify_chrc_free G)"

section \<open>Operations of discovery\<close>

definition discovery_op_create ::
  "'e gc_host \<Rightarrow> u16 \<Rightarrow> u16 \<Rightarrow> discovery_kind \<Rightarrow> 'e world \<Rightarrow> (ptr option \<times> 'e world) option" where
  "discovery_op_create G start end_h kind w =
     (if \<not> gc_alloc G w then Some (None, w)
      else let p = gs_next (bearer w);
               op = \<lparr>pending_svcs = [], pending_chrcs = [], tmp_queue = [], cur_svc = None, op_success = False,
                     op_start = start, op_end = end_h, op_refs = 0, op_kind = kind\<rparr>
           in Some (Some p, upd (\<lambda>s. s\<lparr>gs_next := p + 1, disc_ops := (disc_ops s)(p \<mapsto> op)\<rparr>) w))"

definition discovery_op_free :: "ptr \<Rightarrow> 'e world \<Rightarrow> 'e world option" where
  "discovery_op_free p w = do {
     _ \<leftarrow> disc_ops (bearer w) p;
     Some (upd (\<lambda>s. s\<lparr>disc_ops := (disc_ops s)(p := None)\<rparr>) w) }"

definition discovery_op_ref :: "ptr \<Rightarrow> 'e world \<Rightarrow> 'e world option" where
  "discovery_op_ref p w = upd_op p (\<lambda>op. op\<lparr>op_refs := op_refs op + 1\<rparr>) w"

definition client_db :: "'e world \<Rightarrow> gatt_db option" where
  "client_db w = do { c \<leftarrow> client (bearer w); if cl_db c then get_db w else None }"

definition init_fail :: "'e world \<Rightarrow> 'e world option" where
  "init_fail w = do {
     db \<leftarrow> client_db w;
     (_, db) \<leftarrow> gatt_db_clear db;
     Some (set_db db w) }"

definition service_changed_failure :: "u16 \<Rightarrow> u16 \<Rightarrow> 'e world \<Rightarrow> 'e world option" where
  "service_changed_failure start end_h w = do {
     db \<leftarrow> client_db w;
     (_, db) \<leftarrow> gatt_db_clear_range db start end_h;
     Some (set_db db w) }"

definition discovery_op_unref :: "ptr \<Rightarrow> 'e world \<Rightarrow> 'e world option" where
  "discovery_op_unref p w = do {
     w \<leftarrow> upd_op p (\<lambda>op. op\<lparr>op_refs := op_refs op - 1\<rparr>) w;
     op \<leftarrow> disc_ops (bearer w) p;
     if op_refs op \<noteq> 0 then Some w
     else do {
       w \<leftarrow> (if op_success op then Some w
             else case op_kind op of Init \<Rightarrow> init_fail w
               | ServiceChange \<Rightarrow> service_changed_failure (op_start op) (op_end op) w);
       discovery_op_free p w } }"

section \<open>The bearer\<close>

text \<open>The lower side of the discovery procedures, which start and release requests but call nobody: the
  destroy function of a procedure is \<^verbatim>\<open>discovery_op_unref\<close> with the operation.\<close>

definition lift_send :: "'e gc_host \<Rightarrow> byte \<Rightarrow> bytes \<Rightarrow> gh_cb \<Rightarrow> 'e gatt_state \<Rightarrow> (u32 \<times> 'e gatt_state) option" where
  "lift_send G opcode pdu cb s = do {
     (i, e) \<leftarrow> gc_send G opcode pdu (Helper cb) (att_env s);
     Some (i, s\<lparr>att_env := e\<rparr>) }"

definition lift_cancel :: "'e gc_host \<Rightarrow> u32 \<Rightarrow> 'e gatt_state \<Rightarrow> (gh_cb option \<times> 'e gatt_state) option" where
  "lift_cancel G i s = do {
     (_, op, e) \<leftarrow> gc_cancel G i (att_env s);
     Some (case op of Some (Helper cb) \<Rightarrow> Some cb | _ \<Rightarrow> None, s\<lparr>att_env := e\<rparr>) }"

definition starter :: "'e gc_host \<Rightarrow> 'e gatt_state gh_host" where
  "starter G = \<lparr>gh_alloc = gc_alloc G, gh_send = lift_send G, gh_cancel = lift_cancel G,
     gh_set_mtu = (\<lambda>mtu s. map_option (\<lambda>e. s\<lparr>att_env := e\<rparr>) (gc_set_mtu G mtu (att_env s))),
     gh_call = (\<lambda>_ _ _ _ _. None), gh_mtu_call = (\<lambda>_ _ _ _. None),
     gh_destroyed = discovery_op_unref\<rparr>"

text \<open>What the bearer releases with an operation.\<close>

fun release_op :: "'e gc_host \<Rightarrow> gc_op \<Rightarrow> 'e world \<Rightarrow> 'e world option" where
  "release_op G (ReadCb p) w = request_unref G p w"
| "release_op G (ReadMultipleCb p) w = request_unref G p w"
| "release_op G (ReadLongCb p) w = request_unref G p w"
| "release_op G (WriteCommand p) w = request_unref G p w"
| "release_op G (WriteCb p) w = request_unref G p w"
| "release_op G (PrepareWriteCb p) w = request_unref G p w"
| "release_op G (ExecuteWriteCb p) w = request_unref G p w"
| "release_op G (PrepWriteCb p) w = Some w"
| "release_op G (ExecWriteCb p) w = request_unref G p w"
| "release_op G CancelLongWriteCb w = Some w"
| "release_op G (CancelPrepWriteCb p) w = request_unref G p w"
| "release_op G (EnableCccCb d) w = notify_data_unref G d w"
| "release_op G (DisableCccCb d) w = notify_data_unref G d w"
| "release_op G Confirmation w = Some w"
| "release_op G (Helper cb) w = release (starter G) (user_data cb) w"

text \<open>\<^verbatim>\<open>bt_att_send\<close> and the like on the bearer of the client, which may be a null pointer. The length of a
  PDU is a \<^verbatim>\<open>uint16_t\<close>.\<close>

definition att_send :: "'e gc_host \<Rightarrow> byte \<Rightarrow> bytes \<Rightarrow> gc_op \<Rightarrow> 'e world \<Rightarrow> (u32 \<times> 'e world) option" where
  "att_send G opcode pdu op w = do {
     c \<leftarrow> client (bearer w);
     if \<not> cl_att c then Some (0, w)
     else do {
       (i, e) \<leftarrow> gc_send G opcode (take (length pdu mod 2 ^ 16) pdu) op (att_env (bearer w));
       Some (i, upd (\<lambda>s. s\<lparr>att_env := e\<rparr>) w) } }"

definition att_cancel :: "'e gc_host \<Rightarrow> u32 \<Rightarrow> 'e world \<Rightarrow> (bool \<times> 'e world) option" where
  "att_cancel G i w = do {
     c \<leftarrow> client (bearer w);
     if \<not> cl_att c \<or> i = 0 then Some (False, w)
     else do {
       (found, op, e) \<leftarrow> gc_cancel G i (att_env (bearer w));
       let w = upd (\<lambda>s. s\<lparr>att_env := e\<rparr>) w;
       w \<leftarrow> (case op of None \<Rightarrow> Some w | Some op \<Rightarrow> release_op G op w);
       Some (found, w) } }"

definition att_mtu :: "'e gc_host \<Rightarrow> 'e world \<Rightarrow> int option" where
  "att_mtu G w = do {
     c \<leftarrow> client (bearer w);
     Some (if cl_att c then uint (gc_mtu G (att_env (bearer w))) else 0) }"

definition upd_att :: "('e \<Rightarrow> 'e) \<Rightarrow> 'e world \<Rightarrow> 'e world" where
  "upd_att f w = upd (\<lambda>s. s\<lparr>att_env := f (att_env s)\<rparr>) w"

section \<open>Cancelling\<close>

definition cancel_long_write_req :: "'e gc_host \<Rightarrow> ptr \<Rightarrow> 'e world \<Rightarrow> (bool \<times> 'e world) option" where
  "cancel_long_write_req G p w = do {
     r \<leftarrow> requests (bearer w) p;
     c \<leftarrow> client (bearer w);
     if rq_att_id r = 0
     then do {
       w \<leftarrow> upd_client (\<lambda>c. c\<lparr>long_write_queue := remove1 p (long_write_queue c)\<rparr>) w;
       Some (p \<in> set (long_write_queue c), w) }
     else do {
       (i, w) \<leftarrow> att_send G BT_ATT_OP_EXEC_WRITE_REQ [0x00] CancelLongWriteCb w;
       Some (i \<noteq> 0, w) } }"

definition cancel_prep_write_session :: "'e gc_host \<Rightarrow> ptr \<Rightarrow> 'e world \<Rightarrow> (bool \<times> 'e world) option" where
  "cancel_prep_write_session G p w = do {
     (i, w) \<leftarrow> att_send G BT_ATT_OP_EXEC_WRITE_REQ [0x00] (CancelPrepWriteCb p) w;
     Some (i \<noteq> 0, w) }"

text \<open>The request is read after its operation was cancelled, which releases it.\<close>

definition bt_gatt_client_cancel :: "'e gc_host \<Rightarrow> u32 \<Rightarrow> 'e world \<Rightarrow> (bool \<times> 'e world) option" where
  "bt_gatt_client_cancel G i w = do {
     c \<leftarrow> client (bearer w);
     if i = 0 \<or> \<not> cl_att c then Some (False, w)
     else do {
       found \<leftarrow> find_match (\<lambda>p w. map_option (\<lambda>r. rq_id r = i) (requests (bearer w) p)) (pending_requests c) w;
       case found of None \<Rightarrow> Some (False, w)
       | Some p \<Rightarrow> do {
           w \<leftarrow> upd_client (\<lambda>c. c\<lparr>pending_requests := remove1 p (pending_requests c)\<rparr>) w;
           w \<leftarrow> upd_request p (\<lambda>r. r\<lparr>removed := True\<rparr>) w;
           r \<leftarrow> requests (bearer w) p;
           (cancelled, w) \<leftarrow> att_cancel G (rq_att_id r) w;
           r \<leftarrow> requests (bearer w) p;
           if \<not> cancelled \<and> \<not> long_write r \<and> \<not> prep_write r then Some (False, w)
           else if long_write r then cancel_long_write_req G p w
           else if prep_write r then cancel_prep_write_session G p w
           else Some (True, w) } } }"

definition cancel_request :: "'e gc_host \<Rightarrow> ptr \<Rightarrow> 'e world \<Rightarrow> 'e world option" where
  "cancel_request G p w = do {
     w \<leftarrow> upd_request p (\<lambda>r. r\<lparr>removed := True\<rparr>) w;
     r \<leftarrow> requests (bearer w) p;
     (_, w) \<leftarrow> att_cancel G (rq_att_id r) w;
     r \<leftarrow> requests (bearer w) p;
     (_, w) \<leftarrow> (if long_write r then cancel_long_write_req G p w else Some (True, w));
     r \<leftarrow> requests (bearer w) p;
     (_, w) \<leftarrow> (if prep_write r then cancel_prep_write_session G p w else Some (True, w));
     Some w }"

definition discovery_req_clear :: "'e gc_host \<Rightarrow> 'e world \<Rightarrow> 'e world option" where
  "discovery_req_clear G w = do {
     c \<leftarrow> client (bearer w);
     if discovery_req c = None then Some w
     else do {
       w \<leftarrow> bt_gatt_request_unref (starter G) (discovery_req c) w;
       upd_client (\<lambda>c. c\<lparr>discovery_req := None\<rparr>) w } }"

definition bt_gatt_client_cancel_all :: "'e gc_host \<Rightarrow> 'e world \<Rightarrow> (bool \<times> 'e world) option" where
  "bt_gatt_client_cancel_all G w = do {
     c \<leftarrow> client (bearer w);
     if \<not> cl_att c then Some (False, w)
     else do {
       w \<leftarrow> upd_client (\<lambda>c. c\<lparr>pending_requests := []\<rparr>) w;
       w \<leftarrow> each (cancel_request G) (pending_requests c) w;
       c \<leftarrow> client (bearer w);
       w \<leftarrow> (if discovery_req c = None then Some w
             else do {
               w \<leftarrow> bt_gatt_request_cancel (starter G) (discovery_req c) w;
               w \<leftarrow> bt_gatt_request_unref (starter G) (discovery_req c) w;
               upd_client (\<lambda>c. c\<lparr>discovery_req := None\<rparr>) w });
       c \<leftarrow> client (bearer w);
       w \<leftarrow> (if mtu_req_id c = 0 then Some w else map_option snd (att_cancel G (mtu_req_id c) w));
       Some (True, w) } }"

section \<open>Life of the client\<close>

definition notify_data_cleanup :: "'e gc_host \<Rightarrow> ptr \<Rightarrow> 'e world \<Rightarrow> 'e world option" where
  "notify_data_cleanup G d w = do {
     n \<leftarrow> notifies (bearer w) d;
     w \<leftarrow> (if nd_att_id n = 0 then Some w else map_option snd (att_cancel G (nd_att_id n) w));
     notify_data_unref G d w }"

definition gatt_db_unref :: "'e world \<Rightarrow> 'e world option" where
  "gatt_db_unref w =
     (let w = upd (\<lambda>s. s\<lparr>db_refs := db_refs s - 1\<rparr>) w in
      if db_refs (bearer w) \<noteq> 0 then Some w
      else map_option (\<lambda>db. set_db db w) (gatt_db_destroy (database (bearer w))))"

definition bt_gatt_client_free :: "'e gc_host \<Rightarrow> 'e world \<Rightarrow> 'e world option" where
  "bt_gatt_client_free G w = do {
     (_, w) \<leftarrow> bt_gatt_client_cancel_all G w;
     c \<leftarrow> client (bearer w);
     w \<leftarrow> upd_client (\<lambda>c. c\<lparr>notify_regs := []\<rparr>) w;
     w \<leftarrow> each (notify_data_cleanup G) (notify_regs c) w;
     c \<leftarrow> client (bearer w);
     w \<leftarrow> destroy_upper G (ready_destroy c) w;
     c \<leftarrow> client (bearer w);
     w \<leftarrow> destroy_upper G (debug_destroy c) w;
     c \<leftarrow> client (bearer w);
     let w = (if cl_att c then upd_att (gc_att_unref G \<circ> gc_unregister G (ind_id c) \<circ> gc_unregister G (notify_id c) \<circ>
                gc_unregister_disconnect G (disc_id c)) w else w);
     w \<leftarrow> (if cl_db c then gatt_db_unref w else Some w);
     w \<leftarrow> upd_client (\<lambda>c. c\<lparr>svc_chngd_queue := []\<rparr>) w;
     c \<leftarrow> client (bearer w);
     w \<leftarrow> upd_client (\<lambda>c. c\<lparr>long_write_queue := []\<rparr>) w;
     w \<leftarrow> each (request_unref G) (long_write_queue c) w;
     c \<leftarrow> client (bearer w);
     w \<leftarrow> upd_client (\<lambda>c. c\<lparr>notify_chrcs := []\<rparr>) w;
     w \<leftarrow> each (notify_chrc_free G) (notify_chrcs c) w;
     c \<leftarrow> client (bearer w);
     w \<leftarrow> upd_client (\<lambda>c. c\<lparr>pending_requests := []\<rparr>) w;
     w \<leftarrow> each (request_unref G) (pending_requests c) w;
     _ \<leftarrow> client (bearer w);
     Some (upd (\<lambda>s. s\<lparr>client := None\<rparr>) w) }"

definition bt_gatt_client_ref :: "'e world \<Rightarrow> 'e world option" where
  "bt_gatt_client_ref w = upd_client (\<lambda>c. c\<lparr>cl_refs := cl_refs c + 1\<rparr>) w"

definition bt_gatt_client_unref :: "'e gc_host \<Rightarrow> 'e world \<Rightarrow> 'e world option" where
  "bt_gatt_client_unref G w = do {
     w \<leftarrow> upd_client (\<lambda>c. c\<lparr>cl_refs := cl_refs c - 1\<rparr>) w;
     c \<leftarrow> client (bearer w);
     if cl_refs c \<noteq> 0 then Some w else bt_gatt_client_free G w }"

definition notify_client_ready :: "'e gc_host \<Rightarrow> bool \<Rightarrow> byte \<Rightarrow> 'e world \<Rightarrow> 'e world option" where
  "notify_client_ready G success att_ecode w = do {
     c \<leftarrow> client (bearer w);
     if ready_callback c = None then Some w
     else do {
       w \<leftarrow> bt_gatt_client_ref w;
       w \<leftarrow> call_upper G (ready_callback c) (Finished success att_ecode) w;
       bt_gatt_client_unref G w } }"

definition att_disconnect_cb :: "'e gc_host \<Rightarrow> 'e world \<Rightarrow> 'e world option" where
  "att_disconnect_cb G w = do {
     c \<leftarrow> client (bearer w);
     w \<leftarrow> upd_client (\<lambda>c. c\<lparr>disc_id := 0, cl_att := False, in_init := False, ready := False\<rparr>)
            (if cl_att c then upd_att (gc_att_unref G) w else w);
     if in_init c then notify_client_ready G False 0 w else Some w }"

definition bt_gatt_client_is_ready :: "'e world \<Rightarrow> bool option" where
  "bt_gatt_client_is_ready w = map_option ready (client (bearer w))"

definition bt_gatt_client_set_ready_handler ::
  "'e gc_host \<Rightarrow> nat option \<Rightarrow> nat option \<Rightarrow> 'e world \<Rightarrow> (bool \<times> 'e world) option" where
  "bt_gatt_client_set_ready_handler G callback destroy w = do {
     c \<leftarrow> client (bearer w);
     w \<leftarrow> destroy_upper G (ready_destroy c) w;
     w \<leftarrow> upd_client (\<lambda>c. c\<lparr>ready_callback := callback, ready_destroy := destroy\<rparr>) w;
     Some (True, w) }"

definition bt_gatt_client_set_service_changed ::
  "'e gc_host \<Rightarrow> nat option \<Rightarrow> nat option \<Rightarrow> 'e world \<Rightarrow> (bool \<times> 'e world) option" where
  "bt_gatt_client_set_service_changed G callback destroy w = do {
     c \<leftarrow> client (bearer w);
     w \<leftarrow> destroy_upper G (svc_chngd_destroy c) w;
     w \<leftarrow> upd_client (\<lambda>c. c\<lparr>svc_chngd_callback := callback, svc_chngd_destroy := destroy\<rparr>) w;
     Some (True, w) }"

definition bt_gatt_client_set_debug ::
  "'e gc_host \<Rightarrow> nat option \<Rightarrow> nat option \<Rightarrow> 'e world \<Rightarrow> (bool \<times> 'e world) option" where
  "bt_gatt_client_set_debug G callback destroy w = do {
     c \<leftarrow> client (bearer w);
     w \<leftarrow> destroy_upper G (debug_destroy c) w;
     w \<leftarrow> upd_client (\<lambda>c. c\<lparr>debug_callback := callback, debug_destroy := destroy\<rparr>) w;
     Some (True, w) }"

definition bt_gatt_client_get_mtu :: "'e gc_host \<Rightarrow> 'e world \<Rightarrow> u16 option" where
  "bt_gatt_client_get_mtu G w = map_option word_of_int (att_mtu G w)"

definition bt_gatt_client_set_sec_level :: "'e gc_host \<Rightarrow> int \<Rightarrow> 'e world \<Rightarrow> (bool \<times> 'e world) option" where
  "bt_gatt_client_set_sec_level G level w = do {
     c \<leftarrow> client (bearer w);
     if \<not> cl_att c then Some (False, w)
     else let (ok, e) = gc_set_sec_level G level (att_env (bearer w)) in Some (ok, upd (\<lambda>s. s\<lparr>att_env := e\<rparr>) w) }"

definition bt_gatt_client_get_sec_level :: "'e gc_host \<Rightarrow> 'e world \<Rightarrow> int option" where
  "bt_gatt_client_get_sec_level G w = do {
     c \<leftarrow> client (bearer w);
     Some (if \<not> cl_att c then - EINVAL else gc_sec_level G (att_env (bearer w))) }"

end
