(* ===== verification/ClientRequests.thy ===== *)
theory ClientRequests
  imports ClientBase
begin

text \<open>
  \<^verbatim>\<open>bluez/gatt-client.c\<close>, second part: reading and writing values. Each function sends a first operation
  to the bearer; the callbacks of the operations continue a long read or a long write and hand the
  end to the caller. A value handed in comes with its length, a byte beyond its end is \<open>None\<close>.
\<close>

section \<open>Requests with one operation\<close>

text \<open>A request whose data could be allocated; its operation is sent, and its end when that fails: the
  caller's destroy function is taken out first.\<close>

fun forget_destroy :: "op_data \<Rightarrow> op_data" where
  "forget_destroy (ReadOp c _) = ReadOp c None"
| "forget_destroy (ReadLongOp op) = ReadLongOp (op\<lparr>rl_destroy := None\<rparr>)"
| "forget_destroy (WriteOp c _) = WriteOp c None"
| "forget_destroy (LongWriteOp op) = LongWriteOp (op\<lparr>lw_destroy := None\<rparr>)"
| "forget_destroy (PrepWriteOp op) = PrepWriteOp (op\<lparr>pw_destroy := None\<rparr>)"
| "forget_destroy d = d"

definition send_op ::
  "'e gc_host \<Rightarrow> ptr \<Rightarrow> byte \<Rightarrow> bytes \<Rightarrow> gc_op \<Rightarrow> 'e world \<Rightarrow> (bool \<times> 'e world) option" where
  "send_op G p opcode pdu op w = do {
     (i, w) \<leftarrow> att_send G opcode pdu op w;
     w \<leftarrow> upd_request p (\<lambda>r. r\<lparr>rq_att_id := i\<rparr>) w;
     Some (i \<noteq> 0, w) }"

definition start_op ::
  "'e gc_host \<Rightarrow> ptr \<Rightarrow> byte \<Rightarrow> bytes \<Rightarrow> gc_op \<Rightarrow> 'e world \<Rightarrow> (u32 \<times> 'e world) option" where
  "start_op G p opcode pdu op w = do {
     (sent, w) \<leftarrow> send_op G p opcode pdu op w;
     if \<not> sent then do {
       w \<leftarrow> upd_request p (\<lambda>r. r\<lparr>rq_data := forget_destroy (rq_data r)\<rparr>) w;
       w \<leftarrow> request_unref G p w;
       Some (0, w) }
     else do { r \<leftarrow> requests (bearer w) p; Some (rq_id r, w) } }"

definition create_with_data :: "'e gc_host \<Rightarrow> op_data \<Rightarrow> 'e world \<Rightarrow> (ptr option \<times> 'e world) option" where
  "create_with_data G data w =
     (if \<not> gc_alloc G w then Some (None, w)
      else do {
        (req, w) \<leftarrow> request_create G w;
        case req of None \<Rightarrow> Some (None, w)
        | Some p \<Rightarrow> do { w \<leftarrow> upd_request p (\<lambda>r. r\<lparr>rq_data := data\<rparr>) w; Some (Some p, w) } })"

section \<open>Reading\<close>

text \<open>The length handed to the caller is the one of the PDU, also when there is no value.\<close>

definition pdu_len :: "bytes option \<Rightarrow> u16" where
  "pdu_len pdu = word_of_nat (pdu_length pdu)"

definition read_cb :: "'e gc_host \<Rightarrow> byte \<Rightarrow> bytes option \<Rightarrow> ptr \<Rightarrow> 'e world \<Rightarrow> 'e world option" where
  "read_cb G opcode pdu p w = do {
     r \<leftarrow> requests (bearer w) p;
     case rq_data r of
       ReadOp callback _ \<Rightarrow>
         (let finish = (\<lambda>success ecode val. call_upper G callback (ReadFinished success ecode val (pdu_len pdu)) w) in
          if opcode = BT_ATT_OP_ERROR_RSP then finish False (process_error pdu) None
          else if opcode \<noteq> BT_ATT_OP_READ_RSP then finish False 0 None
          else finish True 0 (if pdu_len pdu = 0 then None else pdu))
     | _ \<Rightarrow> None }"

definition bt_gatt_client_read_value ::
  "'e gc_host \<Rightarrow> u16 \<Rightarrow> nat option \<Rightarrow> nat option \<Rightarrow> 'e world \<Rightarrow> (u32 \<times> 'e world) option" where
  "bt_gatt_client_read_value G handle callback destroy w = do {
     (req, w) \<leftarrow> create_with_data G (ReadOp callback destroy) w;
     case req of None \<Rightarrow> Some (0, w)
     | Some p \<Rightarrow> start_op G p BT_ATT_OP_READ_REQ (put_le16 handle) (ReadCb p) w }"

definition read_multiple_cb :: "'e gc_host \<Rightarrow> byte \<Rightarrow> bytes option \<Rightarrow> ptr \<Rightarrow> 'e world \<Rightarrow> 'e world option" where
  "read_multiple_cb G opcode pdu p w = do {
     r \<leftarrow> requests (bearer w) p;
     case rq_data r of
       ReadOp callback _ \<Rightarrow>
         if opcode \<noteq> BT_ATT_OP_READ_MULT_RSP
         then call_upper G callback
                (ReadFinished False (if opcode = BT_ATT_OP_ERROR_RSP then process_error pdu else 0) None 0) w
         else call_upper G callback (ReadFinished True 0 pdu (pdu_len pdu)) w
     | _ \<Rightarrow> None }"

definition bt_gatt_client_read_multiple ::
  "'e gc_host \<Rightarrow> u16 list \<Rightarrow> byte \<Rightarrow> nat option \<Rightarrow> nat option \<Rightarrow> 'e world \<Rightarrow> (u32 \<times> 'e world) option" where
  "bt_gatt_client_read_multiple G handles num_handles callback destroy w = do {
     mtu \<leftarrow> att_mtu G w;
     if num_handles < 2 \<or> uint num_handles * 2 > mtu - 1 then Some (0, w)
     else do {
       (req, w) \<leftarrow> create_with_data G (ReadOp callback destroy) w;
       case req of None \<Rightarrow> Some (0, w)
       | Some p \<Rightarrow> do {
           hs \<leftarrow> array_slice handles 0 (unat num_handles);
           start_op G p BT_ATT_OP_READ_MULT_REQ (concat (map put_le16 hs)) (ReadMultipleCb p) w } } }"

section \<open>Reading long values\<close>

text \<open>The length is cut when the value would get too long. It is a \<^verbatim>\<open>uint16_t\<close>, so it wraps when the offset
  is beyond the maximum already.\<close>

definition append_chunk ::
  "'e gc_host \<Rightarrow> read_long_op \<Rightarrow> bytes \<Rightarrow> u16 \<Rightarrow> 'e world \<Rightarrow> read_long_op option option" where
  "append_chunk G op data len w =
     (let len = (if unat (rl_offset op) + unat len > BT_ATT_MAX_VALUE_LEN
                 then word_of_nat BT_ATT_MAX_VALUE_LEN - rl_offset op else len) in
      if \<not> gc_alloc G w then Some None
      else do {
        chunk \<leftarrow> array_slice data 0 (unat len);
        Some (Some (op\<lparr>rl_value := rl_value op @ chunk, rl_offset := rl_offset op + len\<rparr>)) })"

definition read_long_cb :: "'e gc_host \<Rightarrow> byte \<Rightarrow> bytes option \<Rightarrow> ptr \<Rightarrow> 'e world \<Rightarrow> 'e world option" where
  "read_long_cb G opcode pdu p w = do {
     r \<leftarrow> requests (bearer w) p;
     case rq_data r of
       ReadLongOp op \<Rightarrow>
         (let finish = (\<lambda>success ecode op w. call_upper G (rl_callback op)
                (ReadFinished success ecode (if rl_value op = [] then None else Some (rl_value op))
                   (word_of_nat (length (rl_value op)))) w) in
          if opcode = BT_ATT_OP_ERROR_RSP then finish False (process_error pdu) op w
          else if opcode \<noteq> BT_ATT_OP_READ_BLOB_RSP then finish False 0 op w
          else if pdu_len pdu = 0 then finish True 0 op w
          else do {
            d \<leftarrow> pdu;
            appended \<leftarrow> append_chunk G op d (pdu_len pdu) w;
            case appended of None \<Rightarrow> finish False 0 op w
            | Some op \<Rightarrow> do {
                w \<leftarrow> upd_request p (\<lambda>r. r\<lparr>rq_data := ReadLongOp op\<rparr>) w;
                mtu \<leftarrow> att_mtu G w;
                if unat (rl_offset op) \<ge> BT_ATT_MAX_VALUE_LEN then finish True 0 op w
                else if uint (pdu_len pdu) \<ge> mtu - 1 then do {
                  w \<leftarrow> request_ref p w;
                  (sent, w) \<leftarrow> send_op G p BT_ATT_OP_READ_BLOB_REQ (put_le16 (rl_handle op) @ put_le16 (rl_offset op)) (ReadLongCb p) w;
                  if sent then Some w
                  else do { w \<leftarrow> request_unref G p w; finish False 0 op w } }
                else finish True 0 op w } })
     | _ \<Rightarrow> None }"

definition bt_gatt_client_read_long_value ::
  "'e gc_host \<Rightarrow> u16 \<Rightarrow> u16 \<Rightarrow> nat option \<Rightarrow> nat option \<Rightarrow> 'e world \<Rightarrow> (u32 \<times> 'e world) option" where
  "bt_gatt_client_read_long_value G handle offset callback destroy w = do {
     (req, w) \<leftarrow> create_with_data G (ReadLongOp \<lparr>rl_handle = handle, rl_offset = offset, rl_value = [],
         rl_callback = callback, rl_destroy = destroy\<rparr>) w;
     case req of None \<Rightarrow> Some (0, w)
     | Some p \<Rightarrow> start_op G p BT_ATT_OP_READ_BLOB_REQ (put_le16 handle @ put_le16 offset) (ReadLongCb p) w }"

section \<open>Writing\<close>

text \<open>The level \<^verbatim>\<open>BT_SECURITY_LOW\<close> is 1.\<close>

definition bt_gatt_client_write_without_response ::
  "'e gc_host \<Rightarrow> u16 \<Rightarrow> bool \<Rightarrow> bytes \<Rightarrow> u16 \<Rightarrow> 'e world \<Rightarrow> (u32 \<times> 'e world) option" where
  "bt_gatt_client_write_without_response G handle signed_write val len w = do {
     (req, w) \<leftarrow> request_create G w;
     case req of None \<Rightarrow> Some (0, w)
     | Some p \<Rightarrow> do {
         security \<leftarrow> bt_gatt_client_get_sec_level G w;
         let op = (if signed_write \<and> \<not> security > 1 then BT_ATT_OP_SIGNED_WRITE_CMD else BT_ATT_OP_WRITE_CMD);
         val \<leftarrow> array_slice val 0 (unat len);
         start_op G p op (put_le16 handle @ val) (WriteCommand p) w } }"

definition write_cb :: "'e gc_host \<Rightarrow> byte \<Rightarrow> bytes option \<Rightarrow> ptr \<Rightarrow> 'e world \<Rightarrow> 'e world option" where
  "write_cb G opcode pdu p w = do {
     r \<leftarrow> requests (bearer w) p;
     case rq_data r of
       WriteOp callback _ \<Rightarrow>
         if opcode = BT_ATT_OP_ERROR_RSP then call_upper G callback (Finished False (process_error pdu)) w
         else call_upper G callback (Finished (opcode = BT_ATT_OP_WRITE_RSP \<and> pdu = None) 0) w
     | _ \<Rightarrow> None }"

definition bt_gatt_client_write_value ::
  "'e gc_host \<Rightarrow> u16 \<Rightarrow> bytes \<Rightarrow> u16 \<Rightarrow> nat option \<Rightarrow> nat option \<Rightarrow> 'e world \<Rightarrow> (u32 \<times> 'e world) option" where
  "bt_gatt_client_write_value G handle val len callback destroy w = do {
     (req, w) \<leftarrow> create_with_data G (WriteOp callback destroy) w;
     case req of None \<Rightarrow> Some (0, w)
     | Some p \<Rightarrow> do {
         val \<leftarrow> array_slice val 0 (unat len);
         start_op G p BT_ATT_OP_WRITE_REQ (put_le16 handle @ val) (WriteCb p) w } }"

section \<open>Writing long values\<close>

definition long_op :: "ptr \<Rightarrow> 'e world \<Rightarrow> long_write_op option" where
  "long_op p w = do { r \<leftarrow> requests (bearer w) p; case rq_data r of LongWriteOp op \<Rightarrow> Some op | _ \<Rightarrow> None }"

definition upd_long_op :: "ptr \<Rightarrow> (long_write_op \<Rightarrow> long_write_op) \<Rightarrow> 'e world \<Rightarrow> 'e world option" where
  "upd_long_op p f w = do { op \<leftarrow> long_op p w; upd_request p (\<lambda>r. r\<lparr>rq_data := LongWriteOp (f op)\<rparr>) w }"

text \<open>The body of a prepare write: handle, offset and the bytes at the index.\<close>

definition prepare_pdu :: "long_write_op \<Rightarrow> bytes option" where
  "prepare_pdu op = do {
     chunk \<leftarrow> array_slice (lw_value op) (unat (lw_index op)) (unat (cur_length op));
     Some (put_le16 (lw_handle op) @ put_le16 (lw_offset op + lw_index op) @ chunk) }"

text \<open>Three functions that call each other: \<^verbatim>\<open>handle_next_prep_write\<close>, \<^verbatim>\<open>complete_write_long_op\<close> and
  \<^verbatim>\<open>start_next_long_write\<close>.\<close>

datatype long_step = NextPrepWrite ptr | CompleteWrite ptr bool byte bool | StartNext

partial_function (option) long_write_step :: "'e gc_host \<Rightarrow> long_step \<Rightarrow> 'e world \<Rightarrow> 'e world option" where
  [code]: "long_write_step G st w = (case st of
     NextPrepWrite p \<Rightarrow> do {
       op \<leftarrow> long_op p w;
       if \<not> gc_alloc G w then long_write_step G (CompleteWrite p False 0 False) w
       else do {
         pdu \<leftarrow> prepare_pdu op;
         w \<leftarrow> request_ref p w;
         (sent, w) \<leftarrow> send_op G p BT_ATT_OP_PREP_WRITE_REQ pdu (PrepareWriteCb p) w;
         if sent then Some w
         else do {
           w \<leftarrow> request_unref G p w;
           long_write_step G (CompleteWrite p False 0 False) w } } }
   | CompleteWrite p success ecode rel \<Rightarrow> do {
       w \<leftarrow> upd_long_op p (\<lambda>op. op\<lparr>lw_success := success, lw_ecode := ecode, reliable_error := rel\<rparr>) w;
       w \<leftarrow> request_ref p w;
       (sent, w) \<leftarrow> send_op G p BT_ATT_OP_EXEC_WRITE_REQ [if success then 0x01 else 0x00] (ExecuteWriteCb p) w;
       if sent then Some w
       else do {
         w \<leftarrow> request_unref G p w;
         op \<leftarrow> long_op p w;
         w \<leftarrow> call_upper G (lw_callback op) (LongWriteFinished False rel ecode) w;
         long_write_step G StartNext w } }
   | StartNext \<Rightarrow> do {
       c \<leftarrow> client (bearer w);
       case long_write_queue c of
         [] \<Rightarrow> upd_client (\<lambda>c. c\<lparr>in_long_write := False\<rparr>) w
       | p # ps \<Rightarrow> do {
           w \<leftarrow> upd_client (\<lambda>c. c\<lparr>long_write_queue := ps\<rparr>) w;
           w \<leftarrow> long_write_step G (NextPrepWrite p) w;
           request_unref G p w } })"

definition handle_next_prep_write :: "'e gc_host \<Rightarrow> ptr \<Rightarrow> 'e world \<Rightarrow> 'e world option" where
  "handle_next_prep_write G p = long_write_step G (NextPrepWrite p)"

definition complete_write_long_op :: "'e gc_host \<Rightarrow> ptr \<Rightarrow> bool \<Rightarrow> byte \<Rightarrow> bool \<Rightarrow> 'e world \<Rightarrow> 'e world option" where
  "complete_write_long_op G p success ecode rel = long_write_step G (CompleteWrite p success ecode rel)"

definition start_next_long_write :: "'e gc_host \<Rightarrow> 'e world \<Rightarrow> 'e world option" where
  "start_next_long_write G = long_write_step G StartNext"

definition execute_write_cb :: "'e gc_host \<Rightarrow> byte \<Rightarrow> bytes option \<Rightarrow> ptr \<Rightarrow> 'e world \<Rightarrow> 'e world option" where
  "execute_write_cb G opcode pdu p w = do {
     op \<leftarrow> long_op p w;
     let (success, ecode) =
       (if opcode = BT_ATT_OP_ERROR_RSP then (False, process_error pdu)
        else (lw_success op \<and> opcode = BT_ATT_OP_EXEC_WRITE_RSP \<and> pdu = None, lw_ecode op));
     w \<leftarrow> call_upper G (lw_callback op) (LongWriteFinished success (reliable_error op) ecode) w;
     start_next_long_write G w }"

text \<open>Whether the answer to a reliable write repeats what was sent.\<close>

definition echoes :: "long_write_op \<Rightarrow> bytes option \<Rightarrow> bool option" where
  "echoes op pdu =
     (case pdu of None \<Rightarrow> Some False
      | Some d \<Rightarrow>
          if length d \<noteq> unat (cur_length op) + 4 then Some False
          else do {
            handle \<leftarrow> get_le16 d;
            offset \<leftarrow> get_le16 (drop 2 d);
            if handle \<noteq> lw_handle op \<or> unat offset \<noteq> unat (lw_offset op) + unat (lw_index op) then Some False
            else do {
              chunk \<leftarrow> array_slice (lw_value op) (unat (lw_index op)) (unat (cur_length op));
              Some (drop 4 d = chunk) } })"

definition prepare_write_cb :: "'e gc_host \<Rightarrow> byte \<Rightarrow> bytes option \<Rightarrow> ptr \<Rightarrow> 'e world \<Rightarrow> 'e world option" where
  "prepare_write_cb G opcode pdu p w = do {
     op \<leftarrow> long_op p w;
     if opcode = BT_ATT_OP_ERROR_RSP then complete_write_long_op G p False (process_error pdu) False w
     else if opcode \<noteq> BT_ATT_OP_PREP_WRITE_RSP then complete_write_long_op G p False 0 False w
     else do {
       ok \<leftarrow> (if reliable op then echoes op pdu else Some True);
       if \<not> ok then complete_write_long_op G p False 0 True w
       else do {
         let next_index = lw_index op + cur_length op;
         mtu \<leftarrow> att_mtu G w;
         if next_index = lw_length op then complete_write_long_op G p True 0 False w
         else if uint (cur_length op) \<ge> mtu - 5 then do {
           w \<leftarrow> upd_long_op p (\<lambda>op. op\<lparr>lw_index := next_index,
                  cur_length := word_of_int (min (uint (lw_length op) - uint next_index) (mtu - 5))\<rparr>) w;
           handle_next_prep_write G p w }
         else complete_write_long_op G p True 0 False w } } }"

text \<open>When the PDU cannot be allocated, the data is freed but stays in the pending request.\<close>

definition bt_gatt_client_write_long_value ::
  "'e gc_host \<Rightarrow> bool \<Rightarrow> u16 \<Rightarrow> u16 \<Rightarrow> bytes option \<Rightarrow> u16 \<Rightarrow> nat option \<Rightarrow> nat option \<Rightarrow> 'e world \<Rightarrow> (u32 \<times> 'e world) option" where
  "bt_gatt_client_write_long_value G rel handle offset val len callback destroy w =
     (if unat len + unat offset > 65535 then Some (0, w)
      else case val of None \<Rightarrow> Some (0, w)
      | Some v \<Rightarrow>
          if len = 0 then Some (0, w)
          else if \<not> gc_alloc G w then Some (0, w)
          else do {
            copy \<leftarrow> array_slice v 0 (unat len);
            mtu \<leftarrow> att_mtu G w;
            (req, w) \<leftarrow> create_with_data G (LongWriteOp \<lparr>reliable = rel, lw_success = False, lw_ecode = 0, reliable_error = False,
                lw_handle = handle, lw_value = copy, lw_length = len, lw_offset = offset, lw_index = 0,
                cur_length = word_of_int (min (uint len) (mtu - 5)), lw_callback = callback, lw_destroy = destroy\<rparr>) w;
            case req of None \<Rightarrow> Some (0, w)
            | Some p \<Rightarrow> do {
                w \<leftarrow> upd_request p (\<lambda>r. r\<lparr>long_write := True\<rparr>) w;
                c \<leftarrow> client (bearer w);
                if in_long_write c \<or> reliable_write_session_id c > 0 then do {
                  w \<leftarrow> upd_client (\<lambda>c. c\<lparr>long_write_queue := long_write_queue c @ [p]\<rparr>) w;
                  r \<leftarrow> requests (bearer w) p;
                  Some (rq_id r, w) }
                else if \<not> gc_alloc G w then do {
                  w \<leftarrow> upd_request p (\<lambda>r. r\<lparr>rq_data := FreedData\<rparr>) w;
                  Some (0, w) }
                else do {
                  op \<leftarrow> long_op p w;
                  pdu \<leftarrow> prepare_pdu op;
                  (i, w) \<leftarrow> start_op G p BT_ATT_OP_PREP_WRITE_REQ pdu (PrepareWriteCb p) w;
                  if i = 0 then Some (0, w)
                  else do { w \<leftarrow> upd_client (\<lambda>c. c\<lparr>in_long_write := True\<rparr>) w; Some (i, w) } } } })"

section \<open>Reliable writes of the caller\<close>

definition prep_write_cb :: "'e gc_host \<Rightarrow> byte \<Rightarrow> bytes option \<Rightarrow> ptr \<Rightarrow> 'e world \<Rightarrow> 'e world option" where
  "prep_write_cb G opcode pdu p w = do {
     r \<leftarrow> requests (bearer w) p;
     case rq_data r of
       PrepWriteOp op \<Rightarrow>
         (let finish = (\<lambda>success rel ecode. call_upper G (pw_callback op) (LongWriteFinished success rel ecode) w) in
          if opcode = BT_ATT_OP_ERROR_RSP then finish False False (process_error pdu)
          else if opcode \<noteq> BT_ATT_OP_PREP_WRITE_RSP then finish False False 0
          else if pdu = None \<or> pdu \<noteq> pw_pdu op then finish False True 0
          else finish True False 0)
     | _ \<Rightarrow> None }"

definition get_reliable_request :: "'e gc_host \<Rightarrow> u32 \<Rightarrow> 'e world \<Rightarrow> (ptr option \<times> 'e world) option" where
  "get_reliable_request G i w =
     (let data = PrepWriteOp \<lparr>pw_pdu = None, pw_callback = None, pw_destroy = None\<rparr> in
      if \<not> gc_alloc G w then Some (None, w)
      else do {
        (req, w) \<leftarrow> (if i \<noteq> 0
          then do {
            c \<leftarrow> client (bearer w);
            found \<leftarrow> find_match (\<lambda>p w. map_option (\<lambda>r. rq_id r = i) (requests (bearer w) p)) (pending_requests c) w;
            Some (found, w) }
          else request_create G w);
        case req of None \<Rightarrow> Some (None, w)
        | Some p \<Rightarrow> do { w \<leftarrow> upd_request p (\<lambda>r. r\<lparr>rq_data := data\<rparr>) w; Some (Some p, w) } })"

definition bt_gatt_client_prepare_write ::
  "'e gc_host \<Rightarrow> u32 \<Rightarrow> u16 \<Rightarrow> u16 \<Rightarrow> bytes \<Rightarrow> u16 \<Rightarrow> nat option \<Rightarrow> nat option \<Rightarrow> 'e world \<Rightarrow> (u32 \<times> 'e world) option" where
  "bt_gatt_client_prepare_write G i handle offset val len callback destroy w = do {
     c \<leftarrow> client (bearer w);
     if in_long_write c \<or> i \<noteq> reliable_write_session_id c then Some (0, w)
     else do {
       (req, w) \<leftarrow> get_reliable_request G i w;
       case req of None \<Rightarrow> Some (0, w)
       | Some p \<Rightarrow> do {
           let op = \<lparr>pw_pdu = None, pw_callback = callback, pw_destroy = destroy\<rparr>;
           w \<leftarrow> upd_request p (\<lambda>r. r\<lparr>rq_data := PrepWriteOp op, prep_write := True\<rparr>) w;
           val \<leftarrow> array_slice val 0 (unat len);
           let pdu = put_le16 handle @ put_le16 offset @ val;
           if \<not> gc_alloc G w then do {
             w \<leftarrow> upd_request p (\<lambda>r. r\<lparr>rq_data := PrepWriteOp (op\<lparr>pw_destroy := None\<rparr>)\<rparr>) w;
             w \<leftarrow> request_unref G p w;
             Some (0, w) }
           else do {
             let copy = take (unat (len + 4)) pdu;
             w \<leftarrow> upd_request p (\<lambda>r. r\<lparr>rq_data := PrepWriteOp (op\<lparr>pw_pdu := Some copy\<rparr>)\<rparr>) w;
             (j, w) \<leftarrow> start_op G p BT_ATT_OP_PREP_WRITE_REQ pdu (PrepWriteCb p) w;
             if j = 0 then Some (0, w)
             else do {
               r \<leftarrow> requests (bearer w) p;
               w \<leftarrow> upd_client (\<lambda>c. if reliable_write_session_id c = 0 then c\<lparr>reliable_write_session_id := rq_id r\<rparr> else c) w;
               c \<leftarrow> client (bearer w);
               Some (reliable_write_session_id c, w) } } } } }"

definition exec_write_cb :: "'e gc_host \<Rightarrow> byte \<Rightarrow> bytes option \<Rightarrow> ptr \<Rightarrow> 'e world \<Rightarrow> 'e world option" where
  "exec_write_cb G opcode pdu p w = do {
     r \<leftarrow> requests (bearer w) p;
     case rq_data r of
       WriteOp callback _ \<Rightarrow> do {
         w \<leftarrow> (if opcode = BT_ATT_OP_ERROR_RSP then call_upper G callback (Finished False (process_error pdu)) w
               else call_upper G callback (Finished (opcode = BT_ATT_OP_EXEC_WRITE_RSP \<and> pdu = None) 0) w);
         w \<leftarrow> upd_client (\<lambda>c. c\<lparr>reliable_write_session_id := 0\<rparr>) w;
         start_next_long_write G w }
     | _ \<Rightarrow> None }"

definition bt_gatt_client_write_execute ::
  "'e gc_host \<Rightarrow> u32 \<Rightarrow> nat option \<Rightarrow> nat option \<Rightarrow> 'e world \<Rightarrow> (u32 \<times> 'e world) option" where
  "bt_gatt_client_write_execute G i callback destroy w = do {
     c \<leftarrow> client (bearer w);
     if in_long_write c \<or> reliable_write_session_id c \<noteq> i then Some (0, w)
     else if \<not> gc_alloc G w then Some (0, w)
     else do {
       req \<leftarrow> find_match (\<lambda>p w. map_option (\<lambda>r. rq_id r = i) (requests (bearer w) p)) (pending_requests c) w;
       case req of None \<Rightarrow> Some (0, w)
       | Some p \<Rightarrow> do {
           w \<leftarrow> upd_request p (\<lambda>r. r\<lparr>rq_data := WriteOp callback destroy\<rparr>) w;
           (j, w) \<leftarrow> start_op G p BT_ATT_OP_EXEC_WRITE_REQ [0x01] (ExecWriteCb p) w;
           Some (if j = 0 then 0 else i, w) } } }"

section \<open>Cancelled writes\<close>

definition cancel_long_write_cb :: "'e world \<Rightarrow> 'e world option" where
  "cancel_long_write_cb w =
     upd_client (\<lambda>c. if long_write_queue c = [] then c\<lparr>in_long_write := False\<rparr> else c) w"

definition cancel_prep_write_cb :: "ptr \<Rightarrow> 'e world \<Rightarrow> 'e world option" where
  "cancel_prep_write_cb p w = do {
     _ \<leftarrow> requests (bearer w) p;
     upd_client (\<lambda>c. c\<lparr>reliable_write_session_id := 0\<rparr>) w }"

end
