(* ===== verification/ClientNotify.thy ===== *)
theory ClientNotify
  imports ClientRequests
begin

text \<open>
  \<^verbatim>\<open>bluez/gatt-client.c\<close>, third part: notifications and indications. The first registration for a
  characteristic writes its client configuration; later ones wait for the answer or are complete at
  once. A notified value goes to every registration of its characteristic. The client registers
  itself for \<^verbatim>\<open>Service Changed\<close>. A failed \<^verbatim>\<open>assert\<close> is \<open>None\<close>.
\<close>

definition BT_GATT_CHRC_PROP_NOTIFY :: u16 where "BT_GATT_CHRC_PROP_NOTIFY = 0x10"
definition BT_GATT_CHRC_PROP_INDICATE :: u16 where "BT_GATT_CHRC_PROP_INDICATE = 0x20"

definition check :: "bool \<Rightarrow> unit option" where
  "check b = (if b then Some () else None)"

section \<open>Ends of registrations\<close>

definition service_changed_reregister_cb :: "u16 \<Rightarrow> 'e world \<Rightarrow> 'e world option" where
  "service_changed_reregister_cb att_ecode w =
     (if att_ecode = 0 then upd_client (\<lambda>c. c\<lparr>svc_chngd_registered := True\<rparr>) w
      else upd_client (\<lambda>c. c\<lparr>svc_chngd_ind_id := 0\<rparr>) w)"

text \<open>The error code is passed on as a \<^verbatim>\<open>uint8_t\<close>.\<close>

definition service_changed_register_cb :: "'e gc_host \<Rightarrow> u16 \<Rightarrow> 'e world \<Rightarrow> 'e world option" where
  "service_changed_register_cb G att_ecode w =
     (if att_ecode \<noteq> 0 then do {
        w \<leftarrow> upd_client (\<lambda>c. c\<lparr>svc_chngd_ind_id := 0\<rparr>) w;
        notify_client_ready G False (ucast att_ecode) w }
      else do {
        w \<leftarrow> upd_client (\<lambda>c. c\<lparr>svc_chngd_registered := True, ready := True\<rparr>) w;
        notify_client_ready G True (ucast att_ecode) w })"

definition call_registered :: "'e gc_host \<Rightarrow> ptr \<Rightarrow> u16 \<Rightarrow> 'e world \<Rightarrow> 'e world option" where
  "call_registered G d att_ecode w = do {
     n \<leftarrow> notifies (bearer w) d;
     case nd_callback n of
       UpperRegistered f \<Rightarrow> gc_call G f (Registered att_ecode) w
     | ServiceChangedRegister \<Rightarrow> service_changed_register_cb G att_ecode w
     | ServiceChangedReregister \<Rightarrow> service_changed_reregister_cb att_ecode w }"

definition complete_notify_request :: "'e gc_host \<Rightarrow> ptr \<Rightarrow> 'e world \<Rightarrow> 'e world option" where
  "complete_notify_request G d w = do {
     n \<leftarrow> notifies (bearer w) d;
     w \<leftarrow> upd_chrc (nd_chrc n) (\<lambda>c. c\<lparr>notify_count := notify_count c + 1\<rparr>) w;
     w \<leftarrow> upd_notify d (\<lambda>n. n\<lparr>nd_att_id := 0\<rparr>) w;
     call_registered G d 0 w }"

section \<open>The client configuration\<close>

definition ccc_value :: "u16 \<Rightarrow> byte" where
  "ccc_value props = (if props AND BT_GATT_CHRC_PROP_NOTIFY \<noteq> 0 then 0x01 else 0) OR
     (if props AND BT_GATT_CHRC_PROP_INDICATE \<noteq> 0 then 0x02 else 0)"

definition notify_data_write_ccc :: "'e gc_host \<Rightarrow> ptr \<Rightarrow> bool \<Rightarrow> (ptr \<Rightarrow> gc_op) \<Rightarrow> 'e world \<Rightarrow> (bool \<times> 'e world) option" where
  "notify_data_write_ccc G d enable callback w = do {
     n \<leftarrow> notifies (bearer w) d;
     c \<leftarrow> chrcs (bearer w) (nd_chrc n);
     _ \<leftarrow> check (ccc_handle c \<noteq> 0);
     let v = (if enable then ccc_value (properties c) else 0);
     if enable \<and> v = 0 then Some (False, w)
     else do {
       w \<leftarrow> notify_data_ref d w;
       (i, w) \<leftarrow> att_send G BT_ATT_OP_WRITE_REQ (put_le16 (ccc_handle c) @ [v, 0]) (callback d) w;
       w \<leftarrow> upd_notify d (\<lambda>n. n\<lparr>nd_att_id := i\<rparr>) w;
       w \<leftarrow> upd_chrc (nd_chrc n) (\<lambda>c. c\<lparr>ccc_write_id := i\<rparr>) w;
       Some (i \<noteq> 0, w) } }"

text \<open>The next waiting registration whose write can be sent; each is taken from the queue of the
  characteristic of the one before.\<close>

partial_function (option) enable_next :: "'e gc_host \<Rightarrow> ptr \<Rightarrow> 'e world \<Rightarrow> 'e world option" where
  [code]: "enable_next G d w = do {
     n \<leftarrow> notifies (bearer w) d;
     c \<leftarrow> chrcs (bearer w) (nd_chrc n);
     case reg_notify_queue c of
       [] \<Rightarrow> Some w
     | d' # ds \<Rightarrow> do {
         w \<leftarrow> upd_chrc (nd_chrc n) (\<lambda>c. c\<lparr>reg_notify_queue := ds\<rparr>) w;
         (sent, w) \<leftarrow> notify_data_write_ccc G d' True EnableCccCb w;
         if sent then Some w else enable_next G d' w } }"

definition enable_ccc_callback :: "'e gc_host \<Rightarrow> byte \<Rightarrow> bytes option \<Rightarrow> ptr \<Rightarrow> 'e world \<Rightarrow> 'e world option" where
  "enable_ccc_callback G opcode pdu d w = do {
     n \<leftarrow> notifies (bearer w) d;
     c \<leftarrow> chrcs (bearer w) (nd_chrc n);
     _ \<leftarrow> check (notify_count c = 0);
     _ \<leftarrow> check (ccc_write_id c \<noteq> 0);
     w \<leftarrow> upd_chrc (nd_chrc n) (\<lambda>c. c\<lparr>ccc_write_id := 0\<rparr>) w;
     if opcode = BT_ATT_OP_ERROR_RSP then do {
       w \<leftarrow> upd_client (\<lambda>c. c\<lparr>notify_regs := remove1 d (notify_regs c)\<rparr>) w;
       w \<leftarrow> call_registered G d (ucast (process_error pdu)) w;
       enable_next G d w }
     else do {
       w \<leftarrow> bt_gatt_client_ref w;
       w \<leftarrow> complete_notify_request G d w;
       n \<leftarrow> notifies (bearer w) d;
       c \<leftarrow> chrcs (bearer w) (nd_chrc n);
       w \<leftarrow> upd_chrc (nd_chrc n) (\<lambda>c. c\<lparr>reg_notify_queue := []\<rparr>) w;
       w \<leftarrow> each (complete_notify_request G) (reg_notify_queue c) w;
       _ \<leftarrow> notifies (bearer w) d;
       bt_gatt_client_unref G w } }"

text \<open>Here the registration that was given up is written again for each waiting one, which is taken from
  the queue and forgotten.\<close>

partial_function (option) enable_after :: "'e gc_host \<Rightarrow> ptr \<Rightarrow> 'e world \<Rightarrow> 'e world option" where
  [code]: "enable_after G d w = do {
     n \<leftarrow> notifies (bearer w) d;
     c \<leftarrow> chrcs (bearer w) (nd_chrc n);
     case reg_notify_queue c of
       [] \<Rightarrow> Some w
     | _ # ds \<Rightarrow> do {
         w \<leftarrow> upd_chrc (nd_chrc n) (\<lambda>c. c\<lparr>reg_notify_queue := ds\<rparr>) w;
         (sent, w) \<leftarrow> notify_data_write_ccc G d True EnableCccCb w;
         if sent then Some w else enable_after G d w } }"

definition disable_ccc_callback :: "'e gc_host \<Rightarrow> ptr \<Rightarrow> 'e world \<Rightarrow> 'e world option" where
  "disable_ccc_callback G d w = do {
     n \<leftarrow> notifies (bearer w) d;
     c \<leftarrow> chrcs (bearer w) (nd_chrc n);
     _ \<leftarrow> check (notify_count c = 0);
     _ \<leftarrow> check (ccc_write_id c \<noteq> 0);
     w \<leftarrow> upd_chrc (nd_chrc n) (\<lambda>c. c\<lparr>ccc_write_id := 0\<rparr>) w;
     enable_after G d w }"

definition complete_unregister_notify :: "'e gc_host \<Rightarrow> ptr \<Rightarrow> 'e world \<Rightarrow> 'e world option" where
  "complete_unregister_notify G d w = do {
     n \<leftarrow> notifies (bearer w) d;
     if nd_att_id n \<noteq> 0 then do {
       (_, w) \<leftarrow> att_cancel G (nd_att_id n) w;
       notify_data_unref G d w }
     else do {
       w \<leftarrow> upd_chrc (nd_chrc n) (\<lambda>c. c\<lparr>notify_count := notify_count c - 1\<rparr>) w;
       c \<leftarrow> chrcs (bearer w) (nd_chrc n);
       if notify_count c \<noteq> 0 \<or> ccc_handle c = 0 then notify_data_unref G d w
       else do {
         (sent, w) \<leftarrow> notify_data_write_ccc G d False DisableCccCb w;
         if sent then Some w else notify_data_unref G d w } } }"

section \<open>Registering\<close>

text \<open>The number of a registration is an \<^verbatim>\<open>int\<close>, whose overflow is undefined.\<close>

definition bt_gatt_client_register_notify ::
  "'e gc_host \<Rightarrow> u16 \<Rightarrow> register_callback option \<Rightarrow> notify_callback option \<Rightarrow> nat option \<Rightarrow> 'e world \<Rightarrow> (u32 \<times> 'e world) option" where
  "bt_gatt_client_register_notify G handle callback notify destroy w = do {
     c \<leftarrow> client (bearer w);
     case callback of None \<Rightarrow> Some (0, w)
     | Some callback \<Rightarrow>
         if \<not> cl_db c \<or> handle = 0 then Some (0, w)
         else if \<not> ready c \<or> in_svc_chngd c then Some (0, w)
         else do {
           known \<leftarrow> find_match (\<lambda>p w. map_option (\<lambda>c. value_handle c = handle) (chrcs (bearer w) p)) (notify_chrcs c) w;
           (chrc, w) \<leftarrow> (if known = None then notify_chrc_create G handle w else Some (known, w));
           case chrc of None \<Rightarrow> Some (0, w)
           | Some p \<Rightarrow> do {
               c \<leftarrow> chrcs (bearer w) p;
               if notify_count c = 2 ^ 31 - 1 \<or> \<not> gc_alloc G w then Some (0, w)
               else do {
                 let d = gs_next (bearer w);
                 w \<leftarrow> upd_client (\<lambda>c. c\<lparr>notify_regs := notify_regs c @ [d],
                        next_reg_id := if next_reg_id c < 1 then 1 else next_reg_id c\<rparr>) w;
                 cl \<leftarrow> client (bearer w);
                 let i = word_of_int (next_reg_id cl);
                 _ \<leftarrow> check (next_reg_id cl < 2 ^ 31 - 1);
                 w \<leftarrow> upd_client (\<lambda>c. c\<lparr>next_reg_id := next_reg_id c + 1\<rparr>) w;
                 let n = \<lparr>nd_id = i, nd_att_id = 0, nd_refs = 1, nd_chrc = p, nd_callback = callback,
                          nd_notify = notify, nd_destroy = destroy\<rparr>;
                 let w = upd (\<lambda>s. s\<lparr>gs_next := d + 1, notifies := (notifies s)(d \<mapsto> n)\<rparr>) w;
                 if ccc_write_id c \<noteq> 0 then do {
                   w \<leftarrow> upd_chrc p (\<lambda>c. c\<lparr>reg_notify_queue := reg_notify_queue c @ [d]\<rparr>) w;
                   Some (i, w) }
                 else if notify_count c > 0 \<or> ccc_handle c = 0 then do {
                   w \<leftarrow> complete_notify_request G d w;
                   n \<leftarrow> notifies (bearer w) d;
                   Some (nd_id n, w) }
                 else do {
                   (sent, w) \<leftarrow> notify_data_write_ccc G d True EnableCccCb w;
                   if sent then Some (i, w)
                   else do {
                     w \<leftarrow> upd_client (\<lambda>c. c\<lparr>notify_regs := remove1 d (notify_regs c)\<rparr>) w;
                     Some (0, upd (\<lambda>s. s\<lparr>notifies := (notifies s)(d := None)\<rparr>) w) } } } } } }"

definition bt_gatt_client_unregister_notify :: "'e gc_host \<Rightarrow> u32 \<Rightarrow> 'e world \<Rightarrow> (bool \<times> 'e world) option" where
  "bt_gatt_client_unregister_notify G i w = do {
     c \<leftarrow> client (bearer w);
     if i = 0 then Some (False, w)
     else do {
       found \<leftarrow> find_match (\<lambda>d w. map_option (\<lambda>n. nd_id n = i) (notifies (bearer w) d)) (notify_regs c) w;
       case found of None \<Rightarrow> Some (False, w)
       | Some d \<Rightarrow> do {
           w \<leftarrow> upd_client (\<lambda>c. c\<lparr>notify_regs := remove1 d (notify_regs c)\<rparr>) w;
           n \<leftarrow> notifies (bearer w) d;
           c \<leftarrow> chrcs (bearer w) (nd_chrc n);
           _ \<leftarrow> check (notify_count c > 0);
           _ \<leftarrow> check (ccc_write_id c = 0);
           w \<leftarrow> complete_unregister_notify G d w;
           Some (True, w) } } }"

end
