(* ===== verification/ClientDiscovery.thy ===== *)
theory ClientDiscovery
  imports ClientNotify
begin

text \<open>
  \<^verbatim>\<open>bluez/gatt-client.c\<close>, last part: the state machine that discovers the services of the peer with the
  procedures of \<open>GattHelpers\<close> and enters them into the database, the re-discovery of a range that
  changed, and the dispatch of the bearer's answers. The callback of a procedure is numbered by its
  function and the operation (\<open>token\<close>).
\<close>

section \<open>Starting procedures\<close>

datatype disc_cb = PrimaryCb | SecondaryCb | InclCb | ChrcsCb | DescsCb | MtuExchangeCb

fun token :: "disc_cb \<Rightarrow> ptr \<Rightarrow> nat" where
  "token PrimaryCb p = 6 * p"
| "token SecondaryCb p = 6 * p + 1"
| "token InclCb p = 6 * p + 2"
| "token ChrcsCb p = 6 * p + 3"
| "token DescsCb p = 6 * p + 4"
| "token MtuExchangeCb p = 6 * p + 5"

definition get_op :: "ptr \<Rightarrow> 'e world \<Rightarrow> discovery_op option" where
  "get_op p w = disc_ops (bearer w) p"

text \<open>\<^verbatim>\<open>client->discovery_req = bt_gatt_discover_...(client->att, ..., discovery_op_ref(op), discovery_op_unref)\<close>,
  and whether it was started.\<close>

definition start_procedure ::
  "(bool \<Rightarrow> nat option \<Rightarrow> nat option \<Rightarrow> 'e world \<Rightarrow> (ptr option \<times> 'e world) option) \<Rightarrow> disc_cb \<Rightarrow> ptr \<Rightarrow> 'e world \<Rightarrow>
     (bool \<times> 'e world) option" where
  "start_procedure discover cb p w = do {
     c \<leftarrow> client (bearer w);
     w \<leftarrow> discovery_op_ref p w;
     (req, w) \<leftarrow> discover (cl_att c) (Some (token cb p)) (Some p) w;
     w \<leftarrow> upd_client (\<lambda>c. c\<lparr>discovery_req := req\<rparr>) w;
     Some (req \<noteq> None, w) }"

definition start_primary :: "'e gc_host \<Rightarrow> ptr \<Rightarrow> u16 \<Rightarrow> u16 \<Rightarrow> 'e world \<Rightarrow> (bool \<times> 'e world) option" where
  "start_primary G p s e =
     start_procedure (\<lambda>att. bt_gatt_discover_primary_services (starter G) att None s e) PrimaryCb p"

definition start_secondary :: "'e gc_host \<Rightarrow> ptr \<Rightarrow> u16 \<Rightarrow> u16 \<Rightarrow> 'e world \<Rightarrow> (bool \<times> 'e world) option" where
  "start_secondary G p s e =
     start_procedure (\<lambda>att. bt_gatt_discover_secondary_services (starter G) att None s e) SecondaryCb p"

definition start_included :: "'e gc_host \<Rightarrow> ptr \<Rightarrow> u16 \<Rightarrow> u16 \<Rightarrow> 'e world \<Rightarrow> (bool \<times> 'e world) option" where
  "start_included G p s e =
     start_procedure (\<lambda>att. bt_gatt_discover_included_services (starter G) att s e) InclCb p"

definition start_chrcs :: "'e gc_host \<Rightarrow> ptr \<Rightarrow> u16 \<Rightarrow> u16 \<Rightarrow> 'e world \<Rightarrow> (bool \<times> 'e world) option" where
  "start_chrcs G p s e =
     start_procedure (\<lambda>att. bt_gatt_discover_characteristics (starter G) att s e) ChrcsCb p"

definition start_descs :: "'e gc_host \<Rightarrow> ptr \<Rightarrow> u16 \<Rightarrow> u16 \<Rightarrow> 'e world \<Rightarrow> (bool \<times> 'e world) option" where
  "start_descs G p s e =
     start_procedure (\<lambda>att. bt_gatt_discover_descriptors (starter G) att s e) DescsCb p"

section \<open>A range of services that changed\<close>

definition process_service_changed :: "'e gc_host \<Rightarrow> u16 \<Rightarrow> u16 \<Rightarrow> 'e world \<Rightarrow> 'e world option" where
  "process_service_changed G start end_h w = do {
     w \<leftarrow> gatt_client_remove_all_notify_in_range G start end_h w;
     w \<leftarrow> gatt_client_remove_notify_chrcs_in_range G start end_h w;
     w \<leftarrow> service_changed_failure start end_h w;
     (op, w) \<leftarrow> discovery_op_create G start end_h ServiceChange w;
     case op of None \<Rightarrow> Some w
     | Some p \<Rightarrow> do {
         (started, w) \<leftarrow> start_primary G p start end_h w;
         if started then upd_client (\<lambda>c. c\<lparr>in_svc_chngd := True\<rparr>) w else discovery_op_free p w } }"

definition service_changed_cb :: "'e gc_host \<Rightarrow> bytes option \<Rightarrow> u16 \<Rightarrow> 'e world \<Rightarrow> 'e world option" where
  "service_changed_cb G val len w =
     (if len \<noteq> 4 then Some w
      else do {
        v \<leftarrow> val;
        start \<leftarrow> get_le16 v;
        end_h \<leftarrow> get_le16 (drop 2 v);
        if start > end_h then Some w
        else do {
          c \<leftarrow> client (bearer w);
          if \<not> in_svc_chngd c then process_service_changed G start end_h w
          else if \<not> gc_alloc G w then Some w
          else upd_client (\<lambda>c. c\<lparr>svc_chngd_queue := svc_chngd_queue c @ [(start, end_h)]\<rparr>) w } })"

definition get_first_attribute :: "attr_ref \<Rightarrow> attr_ref option \<Rightarrow> attr_ref option option" where
  "get_first_attribute attrib stored = Some (if stored \<noteq> None then stored else Some attrib)"

definition find_service_changed :: "gatt_db \<Rightarrow> u16 \<Rightarrow> u16 \<Rightarrow> attr_ref option option" where
  "find_service_changed db start end_h =
     map_option snd (gatt_db_find_by_type db start end_h (BT_UUID16 SVC_CHNGD_UUID) get_first_attribute None)"

text \<open>Registering for \<^verbatim>\<open>Service Changed\<close>: the number of the registration is kept.\<close>

definition register_service_changed :: "'e gc_host \<Rightarrow> attr_ref option \<Rightarrow> register_callback \<Rightarrow> 'e world \<Rightarrow> 'e world option" where
  "register_service_changed G attr callback w = do {
     db \<leftarrow> client_db w;
     handle \<leftarrow> gatt_db_attribute_get_handle db attr;
     (i, w) \<leftarrow> bt_gatt_client_register_notify G handle (Some callback) (Some ServiceChangedCb) None w;
     upd_client (\<lambda>c. c\<lparr>svc_chngd_ind_id := i\<rparr>) w }"

definition service_changed_complete :: "'e gc_host \<Rightarrow> ptr \<Rightarrow> bool \<Rightarrow> byte \<Rightarrow> 'e world \<Rightarrow> 'e world option" where
  "service_changed_complete G p success att_ecode w = do {
     op \<leftarrow> get_op p w;
     w \<leftarrow> upd_client (\<lambda>c. c\<lparr>in_svc_chngd := False\<rparr>) w;
     w \<leftarrow> (if \<not> success \<and> att_ecode \<noteq> BT_ATT_ERROR_ATTRIBUTE_NOT_FOUND
           then service_changed_failure (op_start op) (op_end op) w else Some w);
     c \<leftarrow> client (bearer w);
     w \<leftarrow> call_upper G (svc_chngd_callback c) (ServicesChanged (op_start op) (op_end op)) w;
     c \<leftarrow> client (bearer w);
     case svc_chngd_queue c of
       (s, e) # rest \<Rightarrow> do {
         w \<leftarrow> upd_client (\<lambda>c. c\<lparr>svc_chngd_queue := rest\<rparr>) w;
         process_service_changed G s e w }
     | [] \<Rightarrow> do {
         db \<leftarrow> client_db w;
         attr \<leftarrow> find_service_changed db (op_start op) (op_end op);
         if attr = None then Some w
         else do {
           w \<leftarrow> upd_client (\<lambda>c. c\<lparr>svc_chngd_registered := False\<rparr>) w;
           register_service_changed G attr ServiceChangedReregister w } } }"

section \<open>The end of the initial discovery\<close>

definition init_complete :: "'e gc_host \<Rightarrow> ptr \<Rightarrow> bool \<Rightarrow> byte \<Rightarrow> 'e world \<Rightarrow> 'e world option" where
  "init_complete G p success att_ecode w = do {
     w \<leftarrow> upd_client (\<lambda>c. c\<lparr>in_init := False\<rparr>) w;
     let fail = (\<lambda>w. do {
       w \<leftarrow> upd_op p (\<lambda>op. op\<lparr>op_success := False\<rparr>) w;
       notify_client_ready G False att_ecode w });
     if \<not> success then fail w
     else do {
       db \<leftarrow> client_db w;
       attr \<leftarrow> find_service_changed db 0x0001 0xffff;
       w \<leftarrow> upd_client (\<lambda>c. c\<lparr>ready := True\<rparr>) w;
       if attr = None then notify_client_ready G True att_ecode w
       else do {
         w \<leftarrow> register_service_changed G attr ServiceChangedRegister w;
         w \<leftarrow> upd_client (\<lambda>c. if svc_chngd_registered c then c else c\<lparr>ready := False\<rparr>) w;
         c \<leftarrow> client (bearer w);
         if svc_chngd_ind_id c \<noteq> 0 then Some w else fail w } } }"

definition complete_func :: "'e gc_host \<Rightarrow> ptr \<Rightarrow> bool \<Rightarrow> byte \<Rightarrow> 'e world \<Rightarrow> 'e world option" where
  "complete_func G p success att_ecode w = do {
     op \<leftarrow> get_op p w;
     case op_kind op of
       Init \<Rightarrow> init_complete G p success att_ecode w
     | ServiceChange \<Rightarrow> service_changed_complete G p success att_ecode w }"

text \<open>\<^verbatim>\<open>op->success = success; op->complete_func(op, success, att_ecode)\<close>.\<close>

definition finish_op :: "'e gc_host \<Rightarrow> ptr \<Rightarrow> bool \<Rightarrow> byte \<Rightarrow> 'e world \<Rightarrow> 'e world option" where
  "finish_op G p success att_ecode w = do {
     w \<leftarrow> upd_op p (\<lambda>op. op\<lparr>op_success := success\<rparr>) w;
     complete_func G p success att_ecode w }"

section \<open>Characteristics and descriptors\<close>

text \<open>The result is whether to go on and whether a procedure was started.\<close>

partial_function (option) discover_descs :: "'e gc_host \<Rightarrow> ptr \<Rightarrow> 'e world \<Rightarrow> ((bool \<times> bool) \<times> 'e world) option" where
  [code]: "discover_descs G p w = do {
     op \<leftarrow> get_op p w;
     case pending_chrcs op of
       [] \<Rightarrow> Some ((True, False), w)
     | c # cs \<Rightarrow> do {
         w \<leftarrow> upd_op p (\<lambda>op. op\<lparr>pending_chrcs := cs\<rparr>) w;
         db \<leftarrow> client_db w;
         (attr, db) \<leftarrow> gatt_db_service_add_characteristic db (cur_svc op) (ch_uuid c) 0 (ch_props c) False False;
         let w = set_db db w;
         handle \<leftarrow> gatt_db_attribute_get_handle db attr;
         if attr = None \<or> handle \<noteq> ch_value c then Some ((False, False), w)
         else let desc_start = ch_value c + 1 in
           if desc_start > ch_end c then discover_descs G p w
           else do {
             (started, w) \<leftarrow> start_descs G p desc_start (ch_end c) w;
             if started then Some ((True, True), w)
             else do { w \<leftarrow> discovery_op_unref p w; Some ((False, False), w) } } } }"

text \<open>Done with the current service: activate it and go on with the next one that has characteristics.\<close>

partial_function (option) next_service :: "'e gc_host \<Rightarrow> ptr \<Rightarrow> bool \<Rightarrow> byte \<Rightarrow> 'e world \<Rightarrow> 'e world option" where
  [code]: "next_service G p success att_ecode w = do {
     op \<leftarrow> get_op p w;
     db \<leftarrow> client_db w;
     (_, db) \<leftarrow> gatt_db_service_set_active db (cur_svc op) True;
     let w = set_db db w;
     case pending_svcs op of
       [] \<Rightarrow> finish_op G p success att_ecode w
     | attr # rest \<Rightarrow> do {
         w \<leftarrow> upd_op p (\<lambda>op. op\<lparr>pending_svcs := rest\<rparr>) w;
         handles \<leftarrow> gatt_db_attribute_get_service_handles db (Some attr);
         case handles of None \<Rightarrow> finish_op G p False att_ecode w
         | Some (start, end_h) \<Rightarrow>
             if start = end_h then next_service G p success att_ecode w
             else do {
               w \<leftarrow> upd_op p (\<lambda>op. op\<lparr>cur_svc := Some attr\<rparr>) w;
               (started, w) \<leftarrow> start_chrcs G p start end_h w;
               if started then Some w
               else do { w \<leftarrow> discovery_op_unref p w; finish_op G p False att_ecode w } } } }"

text \<open>The end of both callbacks, once the elements are stored.\<close>

definition go_on :: "'e gc_host \<Rightarrow> ptr \<Rightarrow> byte \<Rightarrow> 'e world \<Rightarrow> 'e world option" where
  "go_on G p att_ecode w = do {
     ((ok, discovering), w) \<leftarrow> discover_descs G p w;
     if \<not> ok then finish_op G p False att_ecode w
     else if discovering then Some w
     else next_service G p True att_ecode w }"

text \<open>The array that an iterator writes a UUID to. The procedures let only elements pass whose UUID has two
  or sixteen bytes, so it is always written.\<close>

definition u128_unset :: bytes where "u128_unset = replicate 16 0"

text \<open>Each descriptor goes to the current service and must get the handle that the peer named.\<close>

partial_function (option) store_descs ::
  "ptr \<Rightarrow> bt_gatt_iter \<Rightarrow> bytes \<Rightarrow> 'e world \<Rightarrow> (bool \<times> 'e world) option" where
  [code]: "store_descs p iter u128 w = do {
     elem \<leftarrow> bt_gatt_iter_next_descriptor u128 iter;
     case elem of None \<Rightarrow> Some (True, w)
     | Some ((handle, u128), iter) \<Rightarrow> do {
         op \<leftarrow> get_op p w;
         db \<leftarrow> client_db w;
         (attr, db) \<leftarrow> gatt_db_service_add_descriptor db (cur_svc op) (bt_uuid128_create u128) 0 False False;
         let w = set_db db w;
         h \<leftarrow> gatt_db_attribute_get_handle db attr;
         if attr = None \<or> h \<noteq> handle then Some (False, w) else store_descs p iter u128 w } }"

definition discover_descs_cb ::
  "'e gc_host \<Rightarrow> ptr \<Rightarrow> bool \<Rightarrow> byte \<Rightarrow> bt_gatt_result list \<Rightarrow> 'e world \<Rightarrow> 'e world option" where
  "discover_descs_cb G p success att_ecode result w = do {
     w \<leftarrow> discovery_req_clear G w;
     if \<not> success
     then (if att_ecode = BT_ATT_ERROR_ATTRIBUTE_NOT_FOUND then next_service G p True att_ecode w
           else finish_op G p False att_ecode w)
     else case bt_gatt_iter_init result of
       None \<Rightarrow> finish_op G p False att_ecode w
     | Some iter \<Rightarrow> do {
         count \<leftarrow> bt_gatt_result_descriptor_count result;
         if count = 0 then finish_op G p False att_ecode w
         else do {
           (stored, w) \<leftarrow> store_descs p iter u128_unset w;
           if \<not> stored then finish_op G p False att_ecode w else go_on G p att_ecode w } } }"

text \<open>The characteristics of a service wait until the descriptors of those before are known.\<close>

partial_function (option) store_chrcs ::
  "'e gc_host \<Rightarrow> ptr \<Rightarrow> bt_gatt_iter \<Rightarrow> bytes \<Rightarrow> 'e world \<Rightarrow> (bool \<times> 'e world) option" where
  [code]: "store_chrcs G p iter u128 w = do {
     elem \<leftarrow> bt_gatt_iter_next_characteristic (gh_reqs w) u128 iter;
     case elem of None \<Rightarrow> Some (True, w)
     | Some ((start, end_h, val, props, u128), iter) \<Rightarrow>
         if \<not> gc_alloc G w then Some (False, w)
         else do {
           let c = \<lparr>ch_start = start, ch_end = end_h, ch_value = val, ch_props = props, ch_uuid = bt_uuid128_create u128\<rparr>;
           w \<leftarrow> upd_op p (\<lambda>op. op\<lparr>pending_chrcs := pending_chrcs op @ [c]\<rparr>) w;
           store_chrcs G p iter u128 w } }"

definition discover_chrcs_cb ::
  "'e gc_host \<Rightarrow> ptr \<Rightarrow> bool \<Rightarrow> byte \<Rightarrow> bt_gatt_result list \<Rightarrow> 'e world \<Rightarrow> 'e world option" where
  "discover_chrcs_cb G p success att_ecode result w = do {
     w \<leftarrow> discovery_req_clear G w;
     if \<not> success
     then (if att_ecode = BT_ATT_ERROR_ATTRIBUTE_NOT_FOUND then next_service G p True att_ecode w
           else finish_op G p False att_ecode w)
     else do {
       op \<leftarrow> get_op p w;
       case (cur_svc op, bt_gatt_iter_init result) of
         (Some _, Some iter) \<Rightarrow> do {
           count \<leftarrow> bt_gatt_result_characteristic_count result;
           if count = 0 then finish_op G p False att_ecode w
           else do {
             (stored, w) \<leftarrow> store_chrcs G p iter u128_unset w;
             if \<not> stored then finish_op G p False att_ecode w else go_on G p att_ecode w } }
       | _ \<Rightarrow> finish_op G p False att_ecode w } }"

section \<open>Included services\<close>

text \<open>When every service was asked for its included ones, the queues are swapped and the characteristics
  of the first service are discovered.\<close>

partial_function (option) next_included :: "'e gc_host \<Rightarrow> ptr \<Rightarrow> byte \<Rightarrow> 'e world \<Rightarrow> 'e world option" where
  [code]: "next_included G p att_ecode w = do {
     op \<leftarrow> get_op p w;
     db \<leftarrow> client_db w;
     case pending_svcs op of
       [] \<Rightarrow>
         (case tmp_queue op of
            [] \<Rightarrow> do {
              w \<leftarrow> upd_op p (\<lambda>op. op\<lparr>pending_svcs := [], tmp_queue := []\<rparr>) w;
              finish_op G p False att_ecode w }
          | attr # rest \<Rightarrow> do {
              w \<leftarrow> upd_op p (\<lambda>op. op\<lparr>pending_svcs := rest, tmp_queue := []\<rparr>) w;
              handles \<leftarrow> gatt_db_attribute_get_service_handles db (Some attr);
              case handles of None \<Rightarrow> finish_op G p False att_ecode w
              | Some (start, end_h) \<Rightarrow> do {
                  w \<leftarrow> upd_op p (\<lambda>op. op\<lparr>cur_svc := Some attr\<rparr>) w;
                  (started, w) \<leftarrow> start_chrcs G p start end_h w;
                  if started then Some w
                  else do { w \<leftarrow> discovery_op_unref p w; finish_op G p False att_ecode w } } })
     | attr # rest \<Rightarrow> do {
         w \<leftarrow> upd_op p (\<lambda>op. op\<lparr>pending_svcs := rest, tmp_queue := tmp_queue op @ [attr], cur_svc := Some attr\<rparr>) w;
         handles \<leftarrow> gatt_db_attribute_get_service_handles db (Some attr);
         case handles of None \<Rightarrow> finish_op G p False att_ecode w
         | Some (start, end_h) \<Rightarrow>
             if start = end_h then next_included G p att_ecode w
             else do {
               (started, w) \<leftarrow> start_included G p start end_h w;
               if started then Some w
               else do { w \<leftarrow> discovery_op_unref p w; finish_op G p False att_ecode w } } } }"

primrec store_included :: "nat \<Rightarrow> attr_ref \<Rightarrow> bt_gatt_iter \<Rightarrow> bytes \<Rightarrow> 'e world \<Rightarrow> (bool \<times> 'e world) option" where
  "store_included 0 attr iter u128 w = Some (True, w)"
| "store_included (Suc n) attr iter u128 w = do {
     elem \<leftarrow> bt_gatt_iter_next_included_service (gh_reqs w) u128 iter;
     case elem of None \<Rightarrow> Some (True, w)
     | Some ((handle, start, end_h, u128), iter) \<Rightarrow> do {
         db \<leftarrow> client_db w;
         tmp \<leftarrow> gatt_db_get_attribute db start;
         if tmp = None then Some (False, w)
         else do {
           (tmp, db) \<leftarrow> gatt_db_service_add_included db (Some attr) tmp;
           let w = set_db db w;
           h \<leftarrow> gatt_db_attribute_get_handle db tmp;
           if tmp = None \<or> h \<noteq> handle then Some (False, w) else store_included n attr iter u128 w } } }"

definition discover_incl_cb ::
  "'e gc_host \<Rightarrow> ptr \<Rightarrow> bool \<Rightarrow> byte \<Rightarrow> bt_gatt_result list \<Rightarrow> 'e world \<Rightarrow> 'e world option" where
  "discover_incl_cb G p success att_ecode result w = do {
     w \<leftarrow> discovery_req_clear G w;
     if \<not> success
     then (if att_ecode = BT_ATT_ERROR_ATTRIBUTE_NOT_FOUND then next_included G p att_ecode w
           else finish_op G p False att_ecode w)
     else do {
       op \<leftarrow> get_op p w;
       case (cur_svc op, bt_gatt_iter_init result) of
         (Some attr, Some iter) \<Rightarrow> do {
           count \<leftarrow> bt_gatt_result_included_count result;
           if count = 0 then finish_op G p False att_ecode w
           else do {
             (stored, w) \<leftarrow> store_included count attr iter u128_unset w;
             if \<not> stored then finish_op G p False att_ecode w else next_included G p att_ecode w } }
       | _ \<Rightarrow> finish_op G p False att_ecode w } }"

section \<open>Services\<close>

partial_function (option) store_services ::
  "bool \<Rightarrow> ptr \<Rightarrow> bt_gatt_iter \<Rightarrow> bytes \<Rightarrow> 'e world \<Rightarrow> (bool \<times> 'e world) option" where
  [code]: "store_services primary p iter u128 w = do {
     elem \<leftarrow> bt_gatt_iter_next_service (gh_reqs w) u128 iter;
     case elem of None \<Rightarrow> Some (True, w)
     | Some ((start, end_h, u128), iter) \<Rightarrow> do {
         db \<leftarrow> client_db w;
         (attr, db) \<leftarrow> gatt_db_insert_service db start (bt_uuid128_create u128) primary (end_h - start + 1);
         let w = set_db db w;
         case attr of None \<Rightarrow> Some (False, w)
         | Some a \<Rightarrow> do {
             w \<leftarrow> upd_op p (\<lambda>op. op\<lparr>pending_svcs := pending_svcs op @ [a]\<rparr>) w;
             store_services primary p iter u128 w } } }"

definition BT_ATT_ERROR_UNSUPPORTED_GROUP_TYPE :: byte where "BT_ATT_ERROR_UNSUPPORTED_GROUP_TYPE = 0x10"

text \<open>Without a service nothing is left to do; the result is what the discovery of secondary services gave.\<close>

definition first_included :: "'e gc_host \<Rightarrow> ptr \<Rightarrow> bool \<Rightarrow> byte \<Rightarrow> 'e world \<Rightarrow> 'e world option" where
  "first_included G p success att_ecode w = do {
     op \<leftarrow> get_op p w;
     case pending_svcs op of
       [] \<Rightarrow> finish_op G p success att_ecode w
     | attr # rest \<Rightarrow> do {
         w \<leftarrow> upd_op p (\<lambda>op. op\<lparr>pending_svcs := rest, tmp_queue := tmp_queue op @ [attr], cur_svc := Some attr\<rparr>) w;
         db \<leftarrow> client_db w;
         handles \<leftarrow> gatt_db_attribute_get_service_handles db (Some attr);
         case handles of None \<Rightarrow> finish_op G p False att_ecode w
         | Some (start, end_h) \<Rightarrow> do {
             (started, w) \<leftarrow> start_included G p start end_h w;
             if started then Some w
             else do { w \<leftarrow> discovery_op_unref p w; finish_op G p success att_ecode w } } } }"

definition discover_secondary_cb ::
  "'e gc_host \<Rightarrow> ptr \<Rightarrow> bool \<Rightarrow> byte \<Rightarrow> bt_gatt_result list \<Rightarrow> 'e world \<Rightarrow> 'e world option" where
  "discover_secondary_cb G p success att_ecode result w = do {
     w \<leftarrow> discovery_req_clear G w;
     if \<not> success
     then (if att_ecode = BT_ATT_ERROR_ATTRIBUTE_NOT_FOUND \<or> att_ecode = BT_ATT_ERROR_UNSUPPORTED_GROUP_TYPE
           then first_included G p False att_ecode w
           else finish_op G p False att_ecode w)
     else case bt_gatt_iter_init result of
       None \<Rightarrow> finish_op G p False att_ecode w
     | Some iter \<Rightarrow> do {
         (stored, w) \<leftarrow> store_services False p iter u128_unset w;
         if \<not> stored then finish_op G p False att_ecode w else first_included G p True att_ecode w } }"

definition discover_primary_cb ::
  "'e gc_host \<Rightarrow> ptr \<Rightarrow> bool \<Rightarrow> byte \<Rightarrow> bt_gatt_result list \<Rightarrow> 'e world \<Rightarrow> 'e world option" where
  "discover_primary_cb G p success att_ecode result w = do {
     w \<leftarrow> discovery_req_clear G w;
     let secondary = (\<lambda>w. do {
       op \<leftarrow> get_op p w;
       (started, w) \<leftarrow> start_secondary G p (op_start op) (op_end op) w;
       if started then Some w
       else do { w \<leftarrow> discovery_op_unref p w; finish_op G p False att_ecode w } });
     if \<not> success then secondary w
     else case bt_gatt_iter_init result of
       None \<Rightarrow> finish_op G p False att_ecode w
     | Some iter \<Rightarrow> do {
         (stored, w) \<leftarrow> store_services True p iter u128_unset w;
         if \<not> stored then finish_op G p False att_ecode w else secondary w } }"

section \<open>Starting the client\<close>

definition exchange_mtu_cb :: "'e gc_host \<Rightarrow> ptr \<Rightarrow> bool \<Rightarrow> byte \<Rightarrow> 'e world \<Rightarrow> 'e world option" where
  "exchange_mtu_cb G p success att_ecode w = do {
     w \<leftarrow> upd_op p (\<lambda>op. op\<lparr>op_success := success\<rparr>) w;
     w \<leftarrow> upd_client (\<lambda>c. c\<lparr>mtu_req_id := 0\<rparr>) w;
     if \<not> success then do {
       w \<leftarrow> upd_client (\<lambda>c. c\<lparr>in_init := False\<rparr>) w;
       notify_client_ready G False att_ecode w }
     else do {
       db \<leftarrow> client_db w;
       if \<not> gatt_db_isempty db then complete_func G p True 0 w
       else do {
         (started, w) \<leftarrow> start_primary G p 0x0001 0xffff w;
         if started then Some w
         else do {
           w \<leftarrow> upd_client (\<lambda>c. c\<lparr>in_init := False\<rparr>) w;
           w \<leftarrow> notify_client_ready G False att_ecode w;
           discovery_op_unref p w } } } }"

definition BT_ATT_DEFAULT_LE_MTU :: u16 where "BT_ATT_DEFAULT_LE_MTU = 23"

definition gatt_client_init :: "'e gc_host \<Rightarrow> u16 \<Rightarrow> 'e world \<Rightarrow> (bool \<times> 'e world) option" where
  "gatt_client_init G mtu w = do {
     c \<leftarrow> client (bearer w);
     if in_init c \<or> ready c then Some (False, w)
     else do {
       (op, w) \<leftarrow> discovery_op_create G 0x0001 0xffff Init w;
       case op of None \<Rightarrow> Some (False, w)
       | Some p \<Rightarrow> do {
           w \<leftarrow> discovery_op_ref p w;
           (i, w) \<leftarrow> bt_gatt_exchange_mtu (starter G) (cl_att c) (max BT_ATT_DEFAULT_LE_MTU mtu)
                      (Some (token MtuExchangeCb p)) (Some p) w;
           w \<leftarrow> upd_client (\<lambda>c. c\<lparr>mtu_req_id := i\<rparr>) w;
           if i = 0 then do { w \<leftarrow> discovery_op_free p w; Some (False, w) }
           else do { w \<leftarrow> upd_client (\<lambda>c. c\<lparr>in_init := True\<rparr>) w; Some (True, w) } } } }"

definition new_client :: bt_gatt_client where
  "new_client = \<lparr>cl_att = False, cl_db = False, cl_refs = 0, ready_callback = None, ready_destroy = None,
     svc_chngd_callback = None, svc_chngd_destroy = None, debug_callback = None, debug_destroy = None,
     in_init = False, ready = False, long_write_queue = [], in_long_write = False, reliable_write_session_id = 0,
     notify_regs = [], notify_chrcs = [], next_reg_id = 0, disc_id = 0, notify_id = 0, ind_id = 0,
     svc_chngd_ind_id = 0, svc_chngd_registered = False, svc_chngd_queue = [], in_svc_chngd = False,
     pending_requests = [], next_request_id = 0, discovery_req = None, mtu_req_id = 0\<rparr>"

definition gatt_db_ref :: "'e world \<Rightarrow> 'e world" where
  "gatt_db_ref w = upd (\<lambda>s. s\<lparr>db_refs := db_refs s + 1\<rparr>) w"

text \<open>For the client of this state; \<open>has_db\<close> and \<open>has_att\<close> tell whether there are a database and a bearer.
  The result is whether a client was made.\<close>

definition bt_gatt_client_new :: "'e gc_host \<Rightarrow> bool \<Rightarrow> bool \<Rightarrow> u16 \<Rightarrow> 'e world \<Rightarrow> (bool \<times> 'e world) option" where
  "bt_gatt_client_new G has_db has_att mtu w =
     (let fail = (\<lambda>w. map_option (Pair False) (bt_gatt_client_free G w));
          register = (\<lambda>f g w. case f (att_env (bearer w)) of (i :: u32, e) \<Rightarrow>
            map_option (Pair i) (upd_client (g i) (upd (\<lambda>s. s\<lparr>att_env := e\<rparr>) w))) in
      if \<not> has_att \<or> \<not> has_db then Some (False, w)
      else if \<not> gc_alloc G w then Some (False, w)
      else do {
        let w = upd (\<lambda>s. s\<lparr>client := Some new_client\<rparr>) w;
        (i, w) \<leftarrow> register (gc_register_disconnect G) (\<lambda>i c. c\<lparr>disc_id := i\<rparr>) w;
        if i = 0 then fail w
        else if \<not> gc_alloc G w then fail w
        else do {
          (i, w) \<leftarrow> register (gc_register G BT_ATT_OP_HANDLE_VAL_NOT) (\<lambda>i c. c\<lparr>notify_id := i\<rparr>) w;
          if i = 0 then fail w
          else do {
            (i, w) \<leftarrow> register (gc_register G BT_ATT_OP_HANDLE_VAL_IND) (\<lambda>i c. c\<lparr>ind_id := i\<rparr>) w;
            if i = 0 then fail w
            else do {
              w \<leftarrow> upd_client (\<lambda>c. c\<lparr>cl_att := True, cl_db := True\<rparr>) (gatt_db_ref (upd_att (gc_att_ref G) w));
              (ok, w) \<leftarrow> gatt_client_init G mtu w;
              if \<not> ok then fail w
              else do { w \<leftarrow> bt_gatt_client_ref w; Some (True, w) } } } } })"

section \<open>Notified values\<close>

definition notify_handler :: "'e gc_host \<Rightarrow> bytes \<Rightarrow> ptr \<Rightarrow> 'e world \<Rightarrow> 'e world option" where
  "notify_handler G pdu d w = do {
     n \<leftarrow> notifies (bearer w) d;
     c \<leftarrow> chrcs (bearer w) (nd_chrc n);
     handle \<leftarrow> get_le16 pdu;
     if value_handle c \<noteq> handle then Some w
     else let val = (if length pdu > 2 then Some (drop 2 pdu) else None); len = word_of_nat (length pdu) - 2 in
       case nd_notify n of
         None \<Rightarrow> Some w
       | Some (UpperNotify f) \<Rightarrow> gc_call G f (Notified handle val len) w
       | Some ServiceChangedCb \<Rightarrow> service_changed_cb G val len w }"

text \<open>\<^verbatim>\<open>queue_foreach\<close>: the next entry is read after the call, so registrations made meanwhile are
  visited. An entry that was removed still points to the one behind it; when that one was removed as
  well, the pointer may dangle.\<close>

partial_function (option) foreach_registered :: "'e gc_host \<Rightarrow> bytes \<Rightarrow> ptr list \<Rightarrow> 'e world \<Rightarrow> 'e world option" where
  [code]: "foreach_registered G pdu ds w = (case ds of
     [] \<Rightarrow> Some w
   | d # rest \<Rightarrow> do {
       w \<leftarrow> notify_handler G pdu d w;
       c \<leftarrow> client (bearer w);
       if notify_regs c = [] then Some w
       else if d \<in> set (notify_regs c) then foreach_registered G pdu (tl (dropWhile (\<lambda>x. x \<noteq> d) (notify_regs c))) w
       else case rest of [] \<Rightarrow> Some w
         | d' # _ \<Rightarrow> if d' \<in> set (notify_regs c)
                   then foreach_registered G pdu (dropWhile (\<lambda>x. x \<noteq> d') (notify_regs c)) w else None })"

definition notify_cb :: "'e gc_host \<Rightarrow> byte \<Rightarrow> bytes \<Rightarrow> 'e world \<Rightarrow> 'e world option" where
  "notify_cb G opcode pdu w = do {
     w \<leftarrow> bt_gatt_client_ref w;
     c \<leftarrow> client (bearer w);
     w \<leftarrow> foreach_registered G pdu (notify_regs c) w;
     (_, w) \<leftarrow> (if opcode = BT_ATT_OP_HANDLE_VAL_IND
                then att_send G BT_ATT_OP_HANDLE_VAL_CONF [] Confirmation w else Some (0, w));
     bt_gatt_client_unref G w }"

section \<open>The answers of the bearer\<close>

fun discovery_callback :: "'e gc_host \<Rightarrow> nat \<Rightarrow> bool \<Rightarrow> byte \<Rightarrow> bt_gatt_result list \<Rightarrow> 'e world \<Rightarrow> 'e world option" where
  "discovery_callback G n success ecode rs w =
     (let p = n div 6 in
      if n mod 6 = 0 then discover_primary_cb G p success ecode rs w
      else if n mod 6 = 1 then discover_secondary_cb G p success ecode rs w
      else if n mod 6 = 2 then discover_incl_cb G p success ecode rs w
      else if n mod 6 = 3 then discover_chrcs_cb G p success ecode rs w
      else if n mod 6 = 4 then discover_descs_cb G p success ecode rs w
      else None)"

text \<open>The lower side of the procedures with the callbacks of the client.\<close>

definition helpers :: "'e gc_host \<Rightarrow> 'e gatt_state gh_host" where
  "helpers G = (starter G)\<lparr>gh_call := discovery_callback G,
     gh_mtu_call := (\<lambda>n. exchange_mtu_cb G (n div 6))\<rparr>"

fun gc_callback :: "'e gc_host \<Rightarrow> gc_op \<Rightarrow> byte \<Rightarrow> bytes option \<Rightarrow> 'e world \<Rightarrow> 'e world option" where
  "gc_callback G (ReadCb p) opcode pdu w = read_cb G opcode pdu p w"
| "gc_callback G (ReadMultipleCb p) opcode pdu w = read_multiple_cb G opcode pdu p w"
| "gc_callback G (ReadLongCb p) opcode pdu w = read_long_cb G opcode pdu p w"
| "gc_callback G (WriteCommand p) opcode pdu w = Some w"
| "gc_callback G (WriteCb p) opcode pdu w = write_cb G opcode pdu p w"
| "gc_callback G (PrepareWriteCb p) opcode pdu w = prepare_write_cb G opcode pdu p w"
| "gc_callback G (ExecuteWriteCb p) opcode pdu w = execute_write_cb G opcode pdu p w"
| "gc_callback G (PrepWriteCb p) opcode pdu w = prep_write_cb G opcode pdu p w"
| "gc_callback G (ExecWriteCb p) opcode pdu w = exec_write_cb G opcode pdu p w"
| "gc_callback G CancelLongWriteCb opcode pdu w = cancel_long_write_cb w"
| "gc_callback G (CancelPrepWriteCb p) opcode pdu w = cancel_prep_write_cb p w"
| "gc_callback G (EnableCccCb d) opcode pdu w = enable_ccc_callback G opcode pdu d w"
| "gc_callback G (DisableCccCb d) opcode pdu w = disable_ccc_callback G d w"
| "gc_callback G Confirmation opcode pdu w = Some w"
| "gc_callback G (Helper cb) opcode pdu w = gh_callback (helpers G) cb opcode pdu w"

text \<open>The bearer calls the callback of an operation and then releases its object.\<close>

definition gc_respond :: "'e gc_host \<Rightarrow> gc_op \<Rightarrow> byte \<Rightarrow> bytes option \<Rightarrow> 'e world \<Rightarrow> 'e world option" where
  "gc_respond G op opcode pdu w = do {
     w \<leftarrow> gc_callback G op opcode pdu w;
     release_op G op w }"

end
