(* ===== verification/ClientValues.thy ===== *)
theory ClientValues
  imports ClientDiscovery
begin

text \<open>
  What reading and writing a value does over a bearer that takes operations in order (the locale
  \<open>value_link\<close>) and a server that answers as the specification says: a long value is read whole, a long
  write leaves the server with the bytes written, and a reliable write commits only what was repeated.
\<close>

section \<open>The bearer\<close>

text \<open>The operations that the bearer takes: a request with a callback, and a command without one. Commands are
  sent before requests that wait.\<close>

fun wants_answer :: "gc_op \<Rightarrow> bool" where
  "wants_answer (WriteCommand p) = False"
| "wants_answer Confirmation = False"
| "wants_answer op = True"

definition request_opcodes :: "byte set" where
  "request_opcodes = {0x02, 0x04, 0x06, 0x08, 0x0A, 0x0C, 0x0E, 0x10, 0x12, 0x16, 0x18}"

definition command_opcodes :: "byte set" where
  "command_opcodes = {0x52, 0x1E}"

definition takes :: "byte \<Rightarrow> gc_op \<Rightarrow> (byte \<times> bytes \<times> gc_op) list \<Rightarrow> bool" where
  "takes opcode op ops \<longleftrightarrow>
     (if wants_answer op then opcode \<in> request_opcodes
      else opcode \<in> command_opcodes \<and> (\<forall>x \<in> set ops. \<not> wants_answer (snd (snd x))))"

lemma takes_requests [simp]:
  "takes BT_ATT_OP_READ_BLOB_REQ (ReadLongCb p) ops" "takes BT_ATT_OP_PREP_WRITE_REQ (PrepareWriteCb p) ops"
  "takes BT_ATT_OP_EXEC_WRITE_REQ (ExecuteWriteCb p) ops" "takes BT_ATT_OP_WRITE_REQ (WriteCb p) ops"
  "takes BT_ATT_OP_WRITE_REQ (EnableCccCb p) ops"
  by (simp_all add: takes_def request_opcodes_def BT_ATT_OP_READ_BLOB_REQ_def BT_ATT_OP_PREP_WRITE_REQ_def
      BT_ATT_OP_EXEC_WRITE_REQ_def BT_ATT_OP_WRITE_REQ_def)

lemma takes_command: "takes BT_ATT_OP_WRITE_CMD (WriteCommand p) ops \<longleftrightarrow> (\<forall>x \<in> set ops. \<not> wants_answer (snd (snd x)))"
  by (simp add: takes_def command_opcodes_def BT_ATT_OP_WRITE_CMD_def)

text \<open>
  \<open>sent\<close> is what waits to be sent or answered, in the order in which that happens, and \<open>pop\<close> is the bearer
  without its first operation; \<open>reports\<close> is what the layer above was told. Sending succeeds for what the
  bearer takes, and the functions above only note what they are told. Theory \<open>Bearer\<close> shows that the ATT
  bearer is such a link.
\<close>

locale value_link =
  fixes G :: "'e gc_host"
    and sent :: "'e \<Rightarrow> (byte \<times> bytes \<times> gc_op) list"
    and pop :: "'e \<Rightarrow> 'e"
    and ok :: "'e \<Rightarrow> bool"
    and reports :: "'e \<Rightarrow> (nat \<times> gc_event) list"
    and mtu :: u16
  assumes alloc: "gc_alloc G w"
    and send: "ok e \<Longrightarrow> length pdu < unat mtu \<Longrightarrow> takes opcode op (sent e) \<Longrightarrow>
      \<exists>i e'. gc_send G opcode pdu op e = Some (i, e') \<and> i \<noteq> 0 \<and> ok e' \<and>
        sent e' = sent e @ [(opcode, pdu, op)] \<and> reports e' = reports e"
    and pop: "ok e \<Longrightarrow> ok (pop e) \<and> sent (pop e) = tl (sent e) \<and> reports (pop e) = reports e"
    and mtu: "ok e \<Longrightarrow> gc_mtu G e = mtu"
    and call: "ok (att_env (bearer w)) \<Longrightarrow>
      \<exists>e. gc_call G n ev w = Some (upd_att (\<lambda>_. e) w) \<and> ok e \<and> sent e = sent (att_env (bearer w)) \<and>
        reports e = reports (att_env (bearer w)) @ [(n, ev)]"
    and destroyed: "ok (att_env (bearer w)) \<Longrightarrow>
      \<exists>e. gc_destroyed G n w = Some (upd_att (\<lambda>_. e) w) \<and> ok e \<and> sent e = sent (att_env (bearer w)) \<and>
        reports e = reports (att_env (bearer w))"

text \<open>The bearer with a server: the operation that was sent first is answered.\<close>

partial_function (option) run_server ::
  "'e gc_host \<Rightarrow> ('e \<Rightarrow> (byte \<times> bytes \<times> gc_op) list) \<Rightarrow> ('e \<Rightarrow> 'e) \<Rightarrow>
     ('s \<Rightarrow> byte \<Rightarrow> bytes \<Rightarrow> (byte \<times> bytes option) \<times> 's) \<Rightarrow> 's \<Rightarrow> 'e world \<Rightarrow> ('s \<times> 'e world) option" where
  [code]: "run_server G sent pop server s w = (case sent (att_env (bearer w)) of
     [] \<Rightarrow> Some (s, w)
   | (opcode, pdu, op) # _ \<Rightarrow> (case server s opcode pdu of ((rsp, answer), s') \<Rightarrow> do {
       w \<leftarrow> gc_respond G op rsp answer (upd_att pop w);
       run_server G sent pop server s' w }))"

lemma upd_simps [simp]:
  "bearer (upd f w) = f (bearer w)" "upd f (upd g w) = upd (\<lambda>s. f (g s)) w" "upd (\<lambda>s. s) w = w"
  "upd_att k v = upd (\<lambda>s. s\<lparr>att_env := k (att_env s)\<rparr>) v" "gh_reqs (upd f w) = gh_reqs w"
  by (simp_all add: upd_def upd_att_def)

lemma upd_request_simps [simp]:
  "requests (bearer w) p = Some r \<Longrightarrow> upd_request p f w = Some (upd (\<lambda>s. s\<lparr>requests := (requests s)(p \<mapsto> f r)\<rparr>) w)"
  "client (bearer w) = Some c \<Longrightarrow> upd_client g w = Some (upd (\<lambda>s. s\<lparr>client := Some (g c)\<rparr>) w)"
  by (simp_all add: upd_request_def upd_client_def)

lemma same_refs: "rq_refs r = 1 \<Longrightarrow> r\<lparr>rq_att_id := i, rq_refs := 1\<rparr> = r\<lparr>rq_att_id := i\<rparr>"
  by (cases r) simp

lemma request_order: "r\<lparr>rq_data := d, rq_att_id := i\<rparr> = r\<lparr>rq_att_id := i, rq_data := d\<rparr>"
  by (cases r) simp

text \<open>A pointer to no bytes is a null pointer.\<close>

definition nonempty :: "bytes \<Rightarrow> bytes option" where
  "nonempty d = (if d = [] then None else Some d)"

context value_link
begin

lemma upper_ok:
  assumes "ok (att_env (bearer w))"
  shows "\<exists>e. call_upper G (Some n) ev w = Some (upd (\<lambda>s. s\<lparr>att_env := e\<rparr>) w) \<and> ok e \<and> sent e = sent (att_env (bearer w)) \<and>
    reports e = reports (att_env (bearer w)) @ [(n, ev)]"
  using call [OF assms, of n ev] by (auto simp: call_upper_def)

lemma destroy_ok:
  assumes "ok (att_env (bearer w))" "data \<noteq> FreedData"
  shows "\<exists>e. destroy_data G data w = Some (upd (\<lambda>s. s\<lparr>att_env := e\<rparr>) w) \<and> ok e \<and> sent e = sent (att_env (bearer w)) \<and>
    reports e = reports (att_env (bearer w))"
proof -
  have u: "\<exists>e. destroy_upper G d w = Some (upd (\<lambda>s. s\<lparr>att_env := e\<rparr>) w) \<and> ok e \<and> sent e = sent (att_env (bearer w)) \<and>
    reports e = reports (att_env (bearer w))" for d
  proof (cases d)
    case None
    then show ?thesis using assms(1) by (intro exI [of _ "att_env (bearer w)"]) (simp add: destroy_upper_def upd_def)
  next
    case (Some n)
    then show ?thesis using destroyed [OF assms(1), of n] by (auto simp: destroy_upper_def)
  qed
  show ?thesis
  proof (cases data)
    case NoData
    then show ?thesis using assms(1) by (intro exI [of _ "att_env (bearer w)"]) (simp add: upd_def)
  qed (use assms(2) u in auto)
qed

lemma send_op_ok:
  assumes "ok (att_env (bearer w))" "client (bearer w) = Some c" "cl_att c" "requests (bearer w) p = Some r" "length pdu < unat mtu"
    and "takes opcode op (sent (att_env (bearer w)))"
  shows "\<exists>i e. i \<noteq> 0 \<and> send_op G p opcode pdu op w =
      Some (True, upd (\<lambda>s. s\<lparr>att_env := e, requests := (requests s)(p \<mapsto> r\<lparr>rq_att_id := i\<rparr>)\<rparr>) w) \<and> ok e \<and>
    sent e = sent (att_env (bearer w)) @ [(opcode, pdu, op)] \<and> reports e = reports (att_env (bearer w))"
proof -
  have "unat mtu < 65536" using unsigned_less [of mtu] by simp
  then have pdu: "take (length pdu mod 2 ^ 16) pdu = pdu" using assms(5) by simp
  obtain i e where s: "gc_send G opcode pdu op (att_env (bearer w)) = Some (i, e)" "i \<noteq> 0" "ok e"
      "sent e = sent (att_env (bearer w)) @ [(opcode, pdu, op)]" "reports e = reports (att_env (bearer w))"
    using send [OF assms(1,5,6)] by blast
  have "send_op G p opcode pdu op w =
      Some (True, upd (\<lambda>s. s\<lparr>att_env := e, requests := (requests s)(p \<mapsto> r\<lparr>rq_att_id := i\<rparr>)\<rparr>) w)"
    using s assms(2-4) pdu by (simp add: send_op_def att_send_def)
  then show ?thesis using s by blast
qed

text \<open>The last answer of a request: the caller is told, and the request is freed.\<close>

lemma finish_request:
  assumes "ok (att_env (bearer w))" "client (bearer w) = Some c" "requests (bearer w) p = Some r"
    and "rq_refs r = 1" "\<not> removed r" "rq_data r \<noteq> FreedData"
  shows "\<exists>e. (call_upper G (Some n) ev w \<bind> request_unref G p) =
      Some (upd (\<lambda>s. s\<lparr>att_env := e, client := Some (c\<lparr>pending_requests := remove1 p (pending_requests c)\<rparr>),
        requests := (requests s)(p := None)\<rparr>) w) \<and> ok e \<and> sent e = sent (att_env (bearer w)) \<and>
    reports e = reports (att_env (bearer w)) @ [(n, ev)]"
proof -
  obtain e where e: "call_upper G (Some n) ev w = Some (upd (\<lambda>s. s\<lparr>att_env := e\<rparr>) w)" "ok e"
      "sent e = sent (att_env (bearer w))" "reports e = reports (att_env (bearer w)) @ [(n, ev)]"
    using upper_ok [OF assms(1)] by blast
  let ?w = "upd (\<lambda>s. s\<lparr>att_env := e, requests := (requests s)(p \<mapsto> r\<lparr>rq_refs := 0\<rparr>)\<rparr>) w"
  obtain e' where e': "destroy_data G (rq_data r) ?w = Some (upd (\<lambda>s. s\<lparr>att_env := e'\<rparr>) ?w)" "ok e'" "sent e' = sent e" "reports e' = reports e"
    using destroy_ok [of ?w "rq_data r"] e(2) assms(6) by auto
  show ?thesis
    using e e' assms by (intro exI [of _ e']) (simp add: request_unref_def)
qed

text \<open>An answer after which the next operation of the request is sent.\<close>

lemma continue_request:
  assumes "ok (att_env (bearer w))" "client (bearer w) = Some c" "cl_att c" "requests (bearer w) p = Some r" "rq_refs r = 1"
    and "length pdu < unat mtu" "takes opcode op (sent (att_env (bearer w)))"
  shows "\<exists>i e. i \<noteq> 0 \<and> (do { w \<leftarrow> request_ref p w; (sent, w) \<leftarrow> send_op G p opcode pdu op w; if sent then Some w else f w } \<bind> request_unref G p) =
      Some (upd (\<lambda>s. s\<lparr>att_env := e, requests := (requests s)(p \<mapsto> r\<lparr>rq_att_id := i\<rparr>)\<rparr>) w) \<and> ok e \<and>
    sent e = sent (att_env (bearer w)) @ [(opcode, pdu, op)] \<and> reports e = reports (att_env (bearer w))"
proof -
  let ?w = "upd (\<lambda>s. s\<lparr>requests := (requests s)(p \<mapsto> r\<lparr>rq_refs := 2\<rparr>)\<rparr>) w"
  obtain i e where e: "i \<noteq> 0" "ok e" "sent e = sent (att_env (bearer w)) @ [(opcode, pdu, op)]" "reports e = reports (att_env (bearer w))"
      "send_op G p opcode pdu op ?w = Some (True, upd (\<lambda>s. s\<lparr>att_env := e, requests := (requests s)(p \<mapsto> r\<lparr>rq_refs := 2, rq_att_id := i\<rparr>)\<rparr>) ?w)"
    using send_op_ok [of ?w c p "r\<lparr>rq_refs := 2\<rparr>" pdu opcode op] assms by auto
  then show ?thesis
    using e assms by (intro exI [of _ i] exI [of _ e]) (simp add: request_ref_def request_unref_def same_refs)
qed

end

section \<open>Reading a long value\<close>

text \<open>The specification: the answer to a blob request is as much of the value from the offset on as fits.\<close>

definition serves_blobs ::
  "u16 \<Rightarrow> bytes \<Rightarrow> u16 \<Rightarrow> ('s \<Rightarrow> byte \<Rightarrow> bytes \<Rightarrow> (byte \<times> bytes option) \<times> 's) \<Rightarrow> bool" where
  "serves_blobs handle v mtu server \<longleftrightarrow> (\<forall>s off. unat off \<le> length v \<longrightarrow>
     server s BT_ATT_OP_READ_BLOB_REQ (put_le16 handle @ put_le16 off) =
       ((BT_ATT_OP_READ_BLOB_RSP, nonempty (take (unat mtu - 1) (drop (unat off) v))), s))"

text \<open>A long read that waits for the answer with the bytes from its offset on.\<close>

definition reading :: "('e \<Rightarrow> (byte \<times> bytes \<times> gc_op) list) \<Rightarrow> ptr \<Rightarrow> request \<Rightarrow> read_long_op \<Rightarrow> 'e world \<Rightarrow> bool" where
  "reading sent p r op w \<longleftrightarrow> requests (bearer w) p = Some r \<and> rq_data r = ReadLongOp op \<and> rq_refs r = 1 \<and> \<not> removed r \<and>
     sent (att_env (bearer w)) = [(BT_ATT_OP_READ_BLOB_REQ, put_le16 (rl_handle op) @ put_le16 (rl_offset op), ReadLongCb p)]"

lemma opcodes_differ [simp]:
  "BT_ATT_OP_READ_BLOB_RSP \<noteq> BT_ATT_OP_ERROR_RSP" "BT_ATT_OP_PREP_WRITE_RSP \<noteq> BT_ATT_OP_ERROR_RSP"
  "BT_ATT_OP_EXEC_WRITE_RSP \<noteq> BT_ATT_OP_ERROR_RSP"
  by (simp_all add: BT_ATT_OP_READ_BLOB_RSP_def BT_ATT_OP_ERROR_RSP_def BT_ATT_OP_PREP_WRITE_RSP_def BT_ATT_OP_EXEC_WRITE_RSP_def)

lemma pdu_len_nonempty: "length d < 65536 \<Longrightarrow> pdu_len (nonempty d) = word_of_nat (length d)"
  by (simp add: pdu_len_def nonempty_def pdu_length_def)

lemma u16_zero: "0 < n \<Longrightarrow> n < 65536 \<Longrightarrow> (word_of_nat n :: u16) \<noteq> 0"
  using u16_of_nat [of n] by force

lemma uint_u16_of_nat: "n < 65536 \<Longrightarrow> uint (word_of_nat n :: u16) = int n"
  by (simp add: uint_nat u16_of_nat)

context value_link
begin

text \<open>One answer: the chunk is appended; the read goes on after a full chunk and ends after a shorter one,
  or at the longest length that a value can have.\<close>

lemma append_ok:
  assumes "unat (rl_offset op) + length d \<le> 512"
  shows "append_chunk G op d (word_of_nat (length d)) w =
    Some (Some (op\<lparr>rl_value := rl_value op @ d, rl_offset := rl_offset op + word_of_nat (length d)\<rparr>))"
  using assms by (simp add: append_chunk_def alloc u16_of_nat BT_ATT_MAX_VALUE_LEN_def array_slice_def)

lemma read_long_chunk:
  fixes op :: read_long_op
  defines "op' d \<equiv> op\<lparr>rl_value := rl_value op @ d, rl_offset := rl_offset op + word_of_nat (length d)\<rparr>"
  assumes "ok (att_env (bearer w))" "client (bearer w) = Some c" "cl_att c"
    and "requests (bearer w) p = Some r" "rq_data r = ReadLongOp op" "d \<noteq> []" "unat (rl_offset op) + length d \<le> 512"
  shows "\<exists>f. read_long_cb G BT_ATT_OP_READ_BLOB_RSP (Some d) p w =
    (let w = upd (\<lambda>s. s\<lparr>requests := (requests s)(p \<mapsto> r\<lparr>rq_data := ReadLongOp (op' d)\<rparr>)\<rparr>) w in
     if unat (rl_offset op) + length d = 512 \<or> length d < unat mtu - 1
     then call_upper G (rl_callback op) (ReadFinished True 0 (nonempty (rl_value op @ d)) (word_of_nat (length (rl_value op @ d)))) w
     else do {
       w \<leftarrow> request_ref p w;
       (sent, w) \<leftarrow> send_op G p BT_ATT_OP_READ_BLOB_REQ (put_le16 (rl_handle op) @ put_le16 (rl_offset op + word_of_nat (length d))) (ReadLongCb p) w;
       if sent then Some w else f w })"
proof -
  have len: "pdu_len (Some d) = word_of_nat (length d)" by (simp add: pdu_len_def pdu_length_def)
  have zero: "(word_of_nat (length d) :: u16) \<noteq> 0" using u16_zero [of "length d"] assms(7,8) by simp
  have sum: "unat (rl_offset op + word_of_nat (length d)) = unat (rl_offset op) + length d"
    using assms(8) by (simp add: unat_word_ariths u16_of_nat)
  have long: "uint mtu - 1 \<le> uint (word_of_nat (length d) :: u16) \<longleftrightarrow> \<not> length d < unat mtu - 1"
  proof -
    have "uint (word_of_nat (length d) :: u16) = int (length d)" "0 < length d"
      using uint_u16_of_nat [of "length d"] assms(7,8) by auto
    moreover have "uint mtu = int (unat mtu)" by (rule uint_nat)
    ultimately show ?thesis by linarith
  qed
  have m: "att_mtu G (upd (\<lambda>s. s\<lparr>requests := R s\<rparr>) w) = Some (uint mtu)" for R
    using assms(2-4) mtu by (simp add: att_mtu_def)
  have full: "BT_ATT_MAX_VALUE_LEN \<le> unat (rl_offset op) + length d \<longleftrightarrow> unat (rl_offset op) + length d = 512"
    using assms(8) by (simp add: BT_ATT_MAX_VALUE_LEN_def)
  show ?thesis
    unfolding read_long_cb_def nonempty_def
    by (intro exI [of _ "\<lambda>w. do { w \<leftarrow> request_unref G p w;
        call_upper G (rl_callback op) (ReadFinished False 0 (Some (rl_value op @ d)) (word_of_nat (length (rl_value op @ d)))) w }"])
      (simp add: assms(5,6) len zero append_ok [OF assms(8)] op'_def m sum long full assms(7) cong: if_cong)
qed

lemma read_long_last:
  assumes "ok (att_env (bearer w))" "client (bearer w) = Some c" "cl_att c" "requests (bearer w) p = Some r" "rq_refs r = 1"
    and "\<not> removed r" "rq_data r = ReadLongOp op" "rl_callback op = Some n"
    and len: "unat (rl_offset op) + length d \<le> 512" "length d < unat mtu - 1 \<or> unat (rl_offset op) + length d = 512"
  shows "\<exists>e. gc_respond G (ReadLongCb p) BT_ATT_OP_READ_BLOB_RSP (nonempty d) w =
      Some (upd (\<lambda>s. s\<lparr>att_env := e, client := Some (c\<lparr>pending_requests := remove1 p (pending_requests c)\<rparr>),
        requests := (requests s)(p := None)\<rparr>) w) \<and> ok e \<and> sent e = sent (att_env (bearer w)) \<and>
    reports e = reports (att_env (bearer w)) @
      [(n, ReadFinished True 0 (nonempty (rl_value op @ d)) (word_of_nat (length (rl_value op @ d))))]"
proof (cases "d = []")
  case True
  obtain e where "(call_upper G (Some n) (ReadFinished True 0 (nonempty (rl_value op)) (word_of_nat (length (rl_value op)))) w \<bind> request_unref G p) =
      Some (upd (\<lambda>s. s\<lparr>att_env := e, client := Some (c\<lparr>pending_requests := remove1 p (pending_requests c)\<rparr>),
        requests := (requests s)(p := None)\<rparr>) w)" "ok e" "sent e = sent (att_env (bearer w))"
      "reports e = reports (att_env (bearer w)) @ [(n, ReadFinished True 0 (nonempty (rl_value op)) (word_of_nat (length (rl_value op))))]"
    using finish_request [OF assms(1,2,4-6), of n "ReadFinished True 0 (nonempty (rl_value op)) (word_of_nat (length (rl_value op)))"] assms(7) by auto
  then show ?thesis
    using True assms(4,7,8) by (intro exI [of _ e]) (simp add: gc_respond_def read_long_cb_def pdu_len_def nonempty_def pdu_length_def)
next
  case False
  let ?op = "op\<lparr>rl_value := rl_value op @ d, rl_offset := rl_offset op + word_of_nat (length d)\<rparr>"
  let ?r = "r\<lparr>rq_data := ReadLongOp ?op\<rparr>"
  let ?w = "upd (\<lambda>s. s\<lparr>requests := (requests s)(p \<mapsto> ?r)\<rparr>) w"
  let ?ev = "ReadFinished True 0 (nonempty (rl_value ?op)) (word_of_nat (length (rl_value ?op)))"
  obtain e where e: "(call_upper G (Some n) ?ev ?w \<bind> request_unref G p) =
      Some (upd (\<lambda>s. s\<lparr>att_env := e, client := Some (c\<lparr>pending_requests := remove1 p (pending_requests c)\<rparr>),
        requests := (requests s)(p := None)\<rparr>) ?w)" "ok e" "sent e = sent (att_env (bearer w))"
      "reports e = reports (att_env (bearer w)) @ [(n, ?ev)]"
    using finish_request [of ?w c p ?r n ?ev] assms(1,2,5,6) by auto
  obtain f where "read_long_cb G BT_ATT_OP_READ_BLOB_RSP (Some d) p w = call_upper G (Some n) ?ev ?w"
    using read_long_chunk [OF assms(1-4,7) False len(1)] len(2) assms(8) by (auto simp: Let_def)
  then show ?thesis
    using e False by (intro exI [of _ e]) (simp add: gc_respond_def nonempty_def [of d])
qed

lemma read_long_more:
  assumes "ok (att_env (bearer w))" "client (bearer w) = Some c" "cl_att c" "requests (bearer w) p = Some r" "rq_refs r = 1"
    and "rq_data r = ReadLongOp op" "d \<noteq> []" "4 < unat mtu"
    and len: "unat (rl_offset op) + length d < 512" "length d = unat mtu - 1"
  shows "\<exists>i e. gc_respond G (ReadLongCb p) BT_ATT_OP_READ_BLOB_RSP (nonempty d) w =
      Some (upd (\<lambda>s. s\<lparr>att_env := e, requests := (requests s)(p \<mapsto> r\<lparr>rq_att_id := i, rq_data :=
        ReadLongOp (op\<lparr>rl_value := rl_value op @ d, rl_offset := rl_offset op + word_of_nat (length d)\<rparr>)\<rparr>)\<rparr>) w) \<and>
    ok e \<and> reports e = reports (att_env (bearer w)) \<and> sent e = sent (att_env (bearer w)) @
      [(BT_ATT_OP_READ_BLOB_REQ, put_le16 (rl_handle op) @ put_le16 (rl_offset op + word_of_nat (length d)), ReadLongCb p)]"
proof -
  let ?op = "op\<lparr>rl_value := rl_value op @ d, rl_offset := rl_offset op + word_of_nat (length d)\<rparr>"
  let ?w = "upd (\<lambda>s. s\<lparr>requests := (requests s)(p \<mapsto> r\<lparr>rq_data := ReadLongOp ?op\<rparr>)\<rparr>) w"
  let ?pdu = "put_le16 (rl_handle op) @ put_le16 (rl_offset op + word_of_nat (length d))"
  have "unat (rl_offset op) + length d \<le> 512" using len(1) by simp
  then obtain f where f: "read_long_cb G BT_ATT_OP_READ_BLOB_RSP (Some d) p w =
      do { w \<leftarrow> request_ref p ?w; (sent, w) \<leftarrow> send_op G p BT_ATT_OP_READ_BLOB_REQ ?pdu (ReadLongCb p) w; if sent then Some w else f w }"
    using read_long_chunk [OF assms(1-4,6,7)] len by (auto simp: Let_def)
  have "length ?pdu < unat mtu" using assms(8) by (simp add: le16.put_width)
  then obtain i e where e: "(do { w \<leftarrow> request_ref p ?w; (sent, w) \<leftarrow> send_op G p BT_ATT_OP_READ_BLOB_REQ ?pdu (ReadLongCb p) w;
        if sent then Some w else f w } \<bind> request_unref G p) =
      Some (upd (\<lambda>s. s\<lparr>att_env := e, requests := (requests s)(p \<mapsto> r\<lparr>rq_data := ReadLongOp ?op\<rparr>\<lparr>rq_att_id := i\<rparr>)\<rparr>) ?w)" "ok e"
      "sent e = sent (att_env (bearer w)) @ [(BT_ATT_OP_READ_BLOB_REQ, ?pdu, ReadLongCb p)]" "reports e = reports (att_env (bearer w))"
    using continue_request [of ?w c p "r\<lparr>rq_data := ReadLongOp ?op\<rparr>" ?pdu BT_ATT_OP_READ_BLOB_REQ "ReadLongCb p" f] assms(1-3,5) by auto
  then show ?thesis
    using e f assms(7) by (intro exI [of _ i] exI [of _ e]) (simp add: gc_respond_def nonempty_def request_order)
qed

lemma read_long_loop:
  assumes "ok (att_env (bearer w))" "client (bearer w) = Some c" "cl_att c" "reading sent p r op w" "rl_callback op = Some n"
    and "serves_blobs (rl_handle op) v mtu server" "4 < unat mtu" "length v \<le> 512" "unat (rl_offset op) \<le> length v"
  shows "\<exists>w'. run_server G sent pop server s w = Some (s, w') \<and> ok (att_env (bearer w')) \<and> sent (att_env (bearer w')) = [] \<and>
    client (bearer w') = Some (c\<lparr>pending_requests := remove1 p (pending_requests c)\<rparr>) \<and> requests (bearer w') = (requests (bearer w))(p := None) \<and>
    (let val = rl_value op @ drop (unat (rl_offset op)) v in
     reports (att_env (bearer w')) = reports (att_env (bearer w)) @ [(n, ReadFinished True 0 (nonempty val) (word_of_nat (length val)))])"
  using assms(1-6,9)
proof (induction "length v - unat (rl_offset op)" arbitrary: w r op rule: less_induct)
  case less
  let ?d = "take (unat mtu - 1) (drop (unat (rl_offset op)) v)" and ?w = "upd_att pop w"
  note r = less.prems(4) [unfolded reading_def]
  have w: "ok (att_env (bearer ?w))" "sent (att_env (bearer ?w)) = []" "reports (att_env (bearer ?w)) = reports (att_env (bearer w))"
    using pop [OF less.prems(1)] r by simp_all
  have step: "run_server G sent pop server s w =
      do { w \<leftarrow> gc_respond G (ReadLongCb p) BT_ATT_OP_READ_BLOB_RSP (nonempty ?d) ?w; run_server G sent pop server s w }"
    using r less.prems(6,7) by (subst run_server.simps) (simp add: serves_blobs_def)
  have idle: "run_server G sent pop server s w' = Some (s, w')" if "sent (att_env (bearer w')) = []" for w'
    using that by (subst run_server.simps) simp
  have bound: "unat (rl_offset op) + length ?d \<le> length v" using less.prems(7) by (simp add: min_def) linarith
  show ?case
  proof (cases "length ?d < unat mtu - 1 \<or> unat (rl_offset op) + length ?d = 512")
    case True
    have all: "?d = drop (unat (rl_offset op)) v"
      using True bound assms(8) by (auto simp: min_def split: if_splits)
    obtain e where "gc_respond G (ReadLongCb p) BT_ATT_OP_READ_BLOB_RSP (nonempty ?d) ?w =
      Some (upd (\<lambda>s. s\<lparr>att_env := e, client := Some (c\<lparr>pending_requests := remove1 p (pending_requests c)\<rparr>),
        requests := (requests s)(p := None)\<rparr>) ?w)" "ok e" "sent e = []"
      "reports e = reports (att_env (bearer w)) @
        [(n, ReadFinished True 0 (nonempty (rl_value op @ ?d)) (word_of_nat (length (rl_value op @ ?d))))]"
      using read_long_last [of ?w c p r op n ?d] w less.prems(2,3,5) r True bound assms(8) by auto
    then show ?thesis
      unfolding step all by (simp add: idle Let_def)
  next
    case False
    let ?op = "op\<lparr>rl_value := rl_value op @ ?d, rl_offset := rl_offset op + word_of_nat (length ?d)\<rparr>"
    have len: "length ?d = unat mtu - 1" "unat (rl_offset op) + length ?d < 512" "?d \<noteq> []"
      using False bound assms(7,8) by (auto simp: min_def split: if_splits)
    obtain i e where e: "gc_respond G (ReadLongCb p) BT_ATT_OP_READ_BLOB_RSP (nonempty ?d) ?w =
        Some (upd (\<lambda>s. s\<lparr>att_env := e, requests := (requests s)(p \<mapsto> r\<lparr>rq_att_id := i, rq_data := ReadLongOp ?op\<rparr>)\<rparr>) ?w)"
        "ok e" "reports e = reports (att_env (bearer w))"
        "sent e = [(BT_ATT_OP_READ_BLOB_REQ, put_le16 (rl_handle op) @ put_le16 (rl_offset ?op), ReadLongCb p)]"
      using read_long_more [of ?w c p r op ?d] w less.prems(2,3) r len assms(7) by auto
    let ?w' = "upd (\<lambda>s. s\<lparr>att_env := e, requests := (requests s)(p \<mapsto> r\<lparr>rq_att_id := i, rq_data := ReadLongOp ?op\<rparr>)\<rparr>) ?w"
    have off: "unat (rl_offset ?op) = unat (rl_offset op) + length ?d"
      using len(2) by (simp add: unat_word_ariths u16_of_nat del: length_take)
    have pos: "0 < length ?d" using len(3) by blast
    have bound': "unat (rl_offset ?op) \<le> length v" using off bound by (simp only: off)
    have smaller: "length v - unat (rl_offset ?op) < length v - unat (rl_offset op)" using off pos bound' by linarith
    have again: "reading sent p (r\<lparr>rq_att_id := i, rq_data := ReadLongOp ?op\<rparr>) ?op ?w'"
      using e(4) r by (simp add: reading_def)
    obtain w'' where "run_server G sent pop server s ?w' = Some (s, w'')" "ok (att_env (bearer w''))" "sent (att_env (bearer w'')) = []"
      "client (bearer w'') = Some (c\<lparr>pending_requests := remove1 p (pending_requests c)\<rparr>)"
      "requests (bearer w'') = (requests (bearer ?w'))(p := None)"
      "let val = rl_value ?op @ drop (unat (rl_offset ?op)) v in
       reports (att_env (bearer w'')) = reports (att_env (bearer ?w')) @ [(n, ReadFinished True 0 (nonempty val) (word_of_nat (length val)))]"
      using less.hyps [OF smaller _ _ less.prems(3) again _ _ bound'] e(2) less.prems(2,5,6) by auto
    note rest = this
    have "unat (rl_offset ?op) = unat mtu - 1 + unat (rl_offset op)" using off len(1) by linarith
    then have "drop (unat (rl_offset ?op)) v = drop (unat mtu - 1) (drop (unat (rl_offset op)) v)"
      by (simp only: drop_drop)
    moreover have "rl_value ?op = rl_value op @ ?d" by simp
    ultimately have "rl_value ?op @ drop (unat (rl_offset ?op)) v = rl_value op @ drop (unat (rl_offset op)) v"
      by (simp only: append_assoc append_take_drop_id)
    then show ?thesis
      unfolding step using rest e(1,3) by simp
  qed
qed

text \<open>Making a request and sending its first operation.\<close>

lemma create_ok:
  fixes c :: bt_gatt_client
  defines "i \<equiv> if next_request_id c < 1 then 1 else next_request_id c"
  assumes "client (bearer w) = Some c"
  shows "create_with_data G data w = Some (Some (gs_next (bearer w)), upd (\<lambda>s. s\<lparr>gs_next := gs_next s + 1,
      client := Some (c\<lparr>pending_requests := pending_requests c @ [gs_next s], next_request_id := i + 1\<rparr>),
      requests := (requests s)(gs_next s \<mapsto> \<lparr>long_write = False, prep_write = False, removed = False, rq_refs = 1,
        rq_id = i, rq_att_id = 0, rq_data = data\<rparr>)\<rparr>) w)"
  using assms(2) by (simp add: create_with_data_def request_create_def alloc request_ref_def Let_def i_def upd_def)

lemma start_op_ok:
  assumes "ok (att_env (bearer w))" "client (bearer w) = Some c" "cl_att c" "requests (bearer w) p = Some r" "length pdu < unat mtu"
    and "takes opcode op (sent (att_env (bearer w)))"
  shows "\<exists>i e. i \<noteq> 0 \<and> start_op G p opcode pdu op w =
      Some (rq_id r, upd (\<lambda>s. s\<lparr>att_env := e, requests := (requests s)(p \<mapsto> r\<lparr>rq_att_id := i\<rparr>)\<rparr>) w) \<and> ok e \<and>
    sent e = sent (att_env (bearer w)) @ [(opcode, pdu, op)] \<and> reports e = reports (att_env (bearer w))"
proof -
  obtain i e where e: "i \<noteq> 0" "ok e" "sent e = sent (att_env (bearer w)) @ [(opcode, pdu, op)]" "reports e = reports (att_env (bearer w))"
      "send_op G p opcode pdu op w = Some (True, upd (\<lambda>s. s\<lparr>att_env := e, requests := (requests s)(p \<mapsto> r\<lparr>rq_att_id := i\<rparr>)\<rparr>) w)"
    using send_op_ok [OF assms] by blast
  then show ?thesis by (intro exI [of _ i] exI [of _ e]) (simp add: start_op_def)
qed

lemma long_value_read:
  assumes "ok (att_env (bearer w))" "sent (att_env (bearer w)) = []" "client (bearer w) = Some c" "cl_att c"
    and "serves_blobs handle v mtu server" "4 < unat mtu" "length v \<le> 512" "unat offset \<le> length v"
    and "gs_next (bearer w) \<notin> set (pending_requests c)"
  shows "\<exists>i w1 w2. bt_gatt_client_read_long_value G handle offset (Some n) destroy w = Some (i, w1) \<and> i \<noteq> 0 \<and>
    run_server G sent pop server s w1 = Some (s, w2) \<and> sent (att_env (bearer w2)) = [] \<and>
    reports (att_env (bearer w2)) = reports (att_env (bearer w)) @
      [(n, ReadFinished True 0 (nonempty (drop (unat offset) v)) (word_of_nat (length v - unat offset)))] \<and>
    requests (bearer w2) = (requests (bearer w))(gs_next (bearer w) := None) \<and>
    map_option pending_requests (client (bearer w2)) = Some (pending_requests c)"
proof -
  let ?p = "gs_next (bearer w)" and ?i = "if next_request_id c < 1 then 1 else next_request_id c"
  let ?op = "\<lparr>rl_handle = handle, rl_offset = offset, rl_value = [], rl_callback = Some n, rl_destroy = destroy\<rparr>"
  let ?r = "\<lparr>long_write = False, prep_write = False, removed = False, rq_refs = 1, rq_id = ?i, rq_att_id = 0, rq_data = ReadLongOp ?op\<rparr>"
  let ?c = "c\<lparr>pending_requests := pending_requests c @ [?p], next_request_id := ?i + 1\<rparr>"
  let ?w = "upd (\<lambda>s. s\<lparr>gs_next := gs_next s + 1, client := Some ?c, requests := (requests s)(gs_next s \<mapsto> ?r)\<rparr>) w"
  let ?pdu = "put_le16 handle @ put_le16 offset"
  have create: "create_with_data G (ReadLongOp ?op) w = Some (Some ?p, ?w)"
    using create_ok [OF assms(3), of "ReadLongOp ?op"] by (simp add: upd_def)
  obtain j e where e: "start_op G ?p BT_ATT_OP_READ_BLOB_REQ ?pdu (ReadLongCb ?p) ?w =
      Some (?i, upd (\<lambda>s. s\<lparr>att_env := e, requests := (requests s)(?p \<mapsto> ?r\<lparr>rq_att_id := j\<rparr>)\<rparr>) ?w)" "ok e"
      "sent e = [(BT_ATT_OP_READ_BLOB_REQ, ?pdu, ReadLongCb ?p)]" "reports e = reports (att_env (bearer w))"
    using start_op_ok [of ?w ?c ?p ?r ?pdu BT_ATT_OP_READ_BLOB_REQ "ReadLongCb ?p"] assms(1,2,4,6) by (auto simp: le16.put_width)
  let ?w1 = "upd (\<lambda>s. s\<lparr>att_env := e, requests := (requests s)(?p \<mapsto> ?r\<lparr>rq_att_id := j\<rparr>)\<rparr>) ?w"
  have r: "reading sent ?p (?r\<lparr>rq_att_id := j\<rparr>) ?op ?w1" using e(3) by (simp add: reading_def)
  obtain w2 where "run_server G sent pop server s ?w1 = Some (s, w2)" "sent (att_env (bearer w2)) = []"
      "client (bearer w2) = Some (?c\<lparr>pending_requests := remove1 ?p (pending_requests ?c)\<rparr>)"
      "requests (bearer w2) = (requests (bearer ?w1))(?p := None)"
      "reports (att_env (bearer w2)) = reports (att_env (bearer ?w1)) @
        [(n, ReadFinished True 0 (nonempty (drop (unat offset) v)) (word_of_nat (length (drop (unat offset) v))))]"
    using read_long_loop [of ?w1 ?c ?p "?r\<lparr>rq_att_id := j\<rparr>" ?op n v server s] e(2) r assms(4-8) by (auto simp: Let_def)
  moreover have "?i \<noteq> 0" by (simp add: word_less_1)
  ultimately show ?thesis
    using create e(1,4) assms(9)
    by (intro exI [of _ ?i] exI [of _ ?w1] exI [of _ w2]) (simp add: bt_gatt_client_read_long_value_def remove1_append)
qed

end

section \<open>A bearer\<close>

record demo =
  v_sent :: "(byte \<times> bytes \<times> gc_op) list"
  v_reports :: "(nat \<times> gc_event) list"

definition v_pop :: "demo \<Rightarrow> demo" where
  "v_pop e = e\<lparr>v_sent := tl (v_sent e)\<rparr>"

definition value_host :: "demo gc_host" where
  "value_host = \<lparr>gc_alloc = \<lambda>_. True, gc_send = \<lambda>opcode pdu op e. Some (1, e\<lparr>v_sent := v_sent e @ [(opcode, pdu, op)]\<rparr>),
     gc_cancel = \<lambda>i e. Some (v_sent e \<noteq> [], map_option (\<lambda>(_, _, op). op) (List.find (\<lambda>_. True) (v_sent e)), v_pop e),
     gc_mtu = \<lambda>_. 23, gc_set_mtu = \<lambda>_ e. Some e, gc_sec_level = \<lambda>_. 1, gc_set_sec_level = \<lambda>_ e. (True, e),
     gc_register = \<lambda>_ e. (1, e), gc_unregister = \<lambda>_ e. e, gc_register_disconnect = \<lambda>e. (1, e),
     gc_unregister_disconnect = \<lambda>_ e. e, gc_att_ref = \<lambda>e. e, gc_att_unref = \<lambda>e. e,
     gc_call = \<lambda>n ev w. Some (upd_att (\<lambda>e. e\<lparr>v_reports := v_reports e @ [(n, ev)]\<rparr>) w), gc_destroyed = \<lambda>_ w. Some w\<rparr>"

definition demo_client :: bt_gatt_client where
  "demo_client = new_client\<lparr>cl_att := True, cl_db := True, cl_refs := 1, ready := True\<rparr>"

definition value_world :: "demo world" where
  "value_world = \<lparr>bearer = \<lparr>att_env = \<lparr>v_sent = [], v_reports = []\<rparr>, client = Some demo_client, database = gatt_db_new, db_refs = 2,
       requests = \<lambda>_. None, notifies = \<lambda>_. None, chrcs = \<lambda>_. None, disc_ops = \<lambda>_. None, gs_next = 1\<rparr>,
     gh_reqs = \<lambda>_. None, gh_incls = \<lambda>_. None, gh_mtus = \<lambda>_. None, gh_next = 1\<rparr>"

lemma demo_is_value_link: "value_link value_host v_sent v_pop (\<lambda>_. True) v_reports 23"
proof -
  have "\<exists>e. w = upd (\<lambda>s. s\<lparr>att_env := e\<rparr>) w \<and> v_sent e = v_sent (att_env (bearer w)) \<and> v_reports e = v_reports (att_env (bearer w))"
    for w :: "demo world"
    by (intro exI [of _ "att_env (bearer w)"]) (simp add: upd_def)
  then show ?thesis by unfold_locales (auto simp: value_host_def v_pop_def upd_def)
qed

interpretation demo: value_link value_host v_sent v_pop "\<lambda>_. True" v_reports 23
  by (rule demo_is_value_link)

text \<open>A server that holds one value.\<close>

definition blob_server :: "u16 \<Rightarrow> bytes \<Rightarrow> u16 \<Rightarrow> unit \<Rightarrow> byte \<Rightarrow> bytes \<Rightarrow> (byte \<times> bytes option) \<times> unit" where
  "blob_server handle v mtu s opcode pdu =
     (case (get_le16 pdu, get_le16 (drop 2 pdu)) of
        (Some h, Some off) \<Rightarrow>
          if opcode = BT_ATT_OP_READ_BLOB_REQ \<and> h = handle \<and> unat off \<le> length v
          then ((BT_ATT_OP_READ_BLOB_RSP, nonempty (take (unat mtu - 1) (drop (unat off) v))), s)
          else ((BT_ATT_OP_ERROR_RSP, Some [opcode, 0, 0, 1]), s)
      | _ \<Rightarrow> ((BT_ATT_OP_ERROR_RSP, Some [opcode, 0, 0, 1]), s))"

lemma blob_server_serves: "serves_blobs handle v mtu (blob_server handle v mtu)"
  using le16.get_put [of _ "[]"] by (simp add: serves_blobs_def blob_server_def le16.get_put le16.put_width)

text \<open>C17 A long read returns the whole value: over a bearer that sends operations in order, against a
  server that answers a blob request with as much of the value as fits, reading from any offset inside
  a value of at most 512 bytes ends, tells the caller once, with exactly the bytes from the offset on,
  and frees the request.\<close>

theorem long_value_read_whole:
  assumes "value_link G sent pop ok reports mtu" "ok (att_env (bearer w))" "sent (att_env (bearer w)) = []"
    and "client (bearer w) = Some c" "cl_att c" "gs_next (bearer w) \<notin> set (pending_requests c)"
    and "serves_blobs handle v mtu server" "4 < unat mtu" "length v \<le> 512" "unat offset \<le> length v"
  shows "\<exists>i w1 w2. bt_gatt_client_read_long_value G handle offset (Some n) destroy w = Some (i, w1) \<and> i \<noteq> 0 \<and>
    run_server G sent pop server s w1 = Some (s, w2) \<and> sent (att_env (bearer w2)) = [] \<and>
    reports (att_env (bearer w2)) = reports (att_env (bearer w)) @
      [(n, ReadFinished True 0 (nonempty (drop (unat offset) v)) (word_of_nat (length v - unat offset)))] \<and>
    requests (bearer w2) = (requests (bearer w))(gs_next (bearer w) := None) \<and>
    map_option pending_requests (client (bearer w2)) = Some (pending_requests c)"
  by (rule value_link.long_value_read [OF assms(1-5,7-10,6)])

lemma long_value_read_whole_witness:
  "\<exists>i w1 w2. bt_gatt_client_read_long_value value_host 3 10 (Some 7) None value_world = Some (i, w1) \<and> i \<noteq> 0 \<and>
    run_server value_host v_sent v_pop (blob_server 3 (replicate 100 5) 23) () w1 = Some ((), w2) \<and> v_sent (att_env (bearer w2)) = [] \<and>
    v_reports (att_env (bearer w2)) = [(7, ReadFinished True 0 (Some (replicate 90 5)) 90)] \<and>
    requests (bearer w2) = (\<lambda>_. None) \<and> map_option pending_requests (client (bearer w2)) = Some []"
  using long_value_read_whole [OF demo_is_value_link _ _ _ _ _ blob_server_serves, of value_world demo_client "replicate 100 5" 10 3 7 None "()"]
  by (simp add: value_world_def demo_client_def new_client_def nonempty_def fun_upd_idem)

end
