(* ===== verification/ClientWrites.thy ===== *)
theory ClientWrites
  imports ClientValues
begin

text \<open>
  Long writes over the bearer of \<open>ClientValues\<close>: the value is prepared in chunks that fit and then
  executed. The server keeps what was prepared until it is executed or cancelled.
\<close>

section \<open>The server\<close>

definition write_at :: "nat \<Rightarrow> bytes \<Rightarrow> bytes \<Rightarrow> bytes" where
  "write_at k bs v = take k v @ bs @ drop (k + length bs) v"

fun apply_writes :: "(nat \<times> bytes) list \<Rightarrow> bytes \<Rightarrow> bytes" where
  "apply_writes [] v = v"
| "apply_writes ((k, bs) # q) v = apply_writes q (write_at k bs v)"

lemma apply_writes_append: "apply_writes (q @ [(k, bs)]) v = write_at k bs (apply_writes q v)"
  by (induction q arbitrary: v) auto

text \<open>A write behind another one is one write of both.\<close>

lemma write_at_again:
  "k \<le> length v \<Longrightarrow> write_at (k + length a) b (write_at k a v) = write_at k (a @ b) v"
  by (simp add: write_at_def add.commute add.left_commute)

text \<open>The specification: a prepared write is repeated and kept, executing with 1 makes all of them, with 0 none.\<close>

type_synonym prepared = "bytes \<times> (nat \<times> bytes) list"

definition prepare_body :: "u16 \<Rightarrow> u16 \<Rightarrow> bytes \<Rightarrow> bytes" where
  "prepare_body handle off chunk = put_le16 handle @ put_le16 off @ chunk"

definition serves_prepared :: "u16 \<Rightarrow> (prepared \<Rightarrow> byte \<Rightarrow> bytes \<Rightarrow> (byte \<times> bytes option) \<times> prepared) \<Rightarrow> bool" where
  "serves_prepared handle server \<longleftrightarrow>
     (\<forall>v q off chunk. server (v, q) BT_ATT_OP_PREP_WRITE_REQ (prepare_body handle off chunk) =
        ((BT_ATT_OP_PREP_WRITE_RSP, Some (prepare_body handle off chunk)), (v, q @ [(unat off, chunk)]))) \<and>
     (\<forall>v q. server (v, q) BT_ATT_OP_EXEC_WRITE_REQ [1] = ((BT_ATT_OP_EXEC_WRITE_RSP, None), (apply_writes q v, []))) \<and>
     (\<forall>v q. server (v, q) BT_ATT_OP_EXEC_WRITE_REQ [0] = ((BT_ATT_OP_EXEC_WRITE_RSP, None), (v, [])))"

section \<open>Steps of the client\<close>

text \<open>A long write at an index, with the chunk that fits in one PDU.\<close>

definition chunk_at :: "u16 \<Rightarrow> bytes \<Rightarrow> nat \<Rightarrow> bytes" where
  "chunk_at mtu data idx = take (unat mtu - 5) (drop idx data)"

definition at_index :: "u16 \<Rightarrow> bytes \<Rightarrow> nat \<Rightarrow> long_write_op \<Rightarrow> bool" where
  "at_index mtu data idx op \<longleftrightarrow> lw_value op = data \<and> unat (lw_length op) = length data \<and>
     unat (lw_offset op) + length data \<le> 65535 \<and> unat (lw_index op) = idx \<and> idx < length data \<and>
     unat (cur_length op) = length (chunk_at mtu data idx)"

lemma at_index_slice:
  assumes "at_index mtu data idx op"
  shows "array_slice (lw_value op) (unat (lw_index op)) (unat (cur_length op)) = Some (chunk_at mtu data idx)"
proof -
  have "length (chunk_at mtu data idx) \<le> length data - idx" by (simp add: chunk_at_def)
  moreover have "take (length (chunk_at mtu data idx)) (drop idx data) = chunk_at mtu data idx"
    by (simp add: chunk_at_def min_def)
  ultimately show ?thesis using assms by (auto simp: at_index_def array_slice_def)
qed

lemma at_index_pdu:
  assumes "at_index mtu data idx op"
  shows "prepare_pdu op = Some (prepare_body (lw_handle op) (lw_offset op + lw_index op) (chunk_at mtu data idx))"
    "unat (lw_offset op + lw_index op) = unat (lw_offset op) + idx"
  using assms at_index_slice [OF assms] by (auto simp: prepare_pdu_def prepare_body_def at_index_def unat_word_ariths)

text \<open>What the server repeats is what was sent.\<close>

lemma at_index_echo:
  assumes "at_index mtu data idx op"
  shows "echoes op (Some (prepare_body (lw_handle op) (lw_offset op + lw_index op) (chunk_at mtu data idx))) = Some True"
  using assms at_index_pdu(2) [OF assms] at_index_slice [OF assms]
  by (auto simp: echoes_def prepare_body_def le16.get_put le16.put_width at_index_def)

context value_link
begin

text \<open>The last reference to a request is dropped.\<close>

lemma unref_last:
  assumes "ok (att_env (bearer w))" "client (bearer w) = Some c" "requests (bearer w) p = Some r"
    and "rq_refs r = 1" "\<not> removed r" "rq_data r \<noteq> FreedData"
  shows "\<exists>e. request_unref G p w =
      Some (upd (\<lambda>s. s\<lparr>att_env := e, client := Some (c\<lparr>pending_requests := remove1 p (pending_requests c)\<rparr>),
        requests := (requests s)(p := None)\<rparr>) w) \<and> ok e \<and> sent e = sent (att_env (bearer w)) \<and>
    reports e = reports (att_env (bearer w))"
proof -
  let ?w = "upd (\<lambda>s. s\<lparr>requests := (requests s)(p \<mapsto> r\<lparr>rq_refs := 0\<rparr>)\<rparr>) w"
  obtain e where "destroy_data G (rq_data r) ?w = Some (upd (\<lambda>s. s\<lparr>att_env := e\<rparr>) ?w)" "ok e"
      "sent e = sent (att_env (bearer w))" "reports e = reports (att_env (bearer w))"
    using destroy_ok [of ?w "rq_data r"] assms(1,6) by auto
  then show ?thesis using assms by (intro exI [of _ e]) (simp add: request_unref_def)
qed

lemma next_prepare:
  assumes "ok (att_env (bearer w))" "client (bearer w) = Some c" "cl_att c" "requests (bearer w) p = Some r" "rq_refs r = 1"
    and "rq_data r = LongWriteOp op" "prepare_pdu op = Some pdu" "length pdu < unat mtu"
  shows "\<exists>i e. i \<noteq> 0 \<and> (handle_next_prep_write G p w \<bind> request_unref G p) =
      Some (upd (\<lambda>s. s\<lparr>att_env := e, requests := (requests s)(p \<mapsto> r\<lparr>rq_att_id := i\<rparr>)\<rparr>) w) \<and> ok e \<and>
    sent e = sent (att_env (bearer w)) @ [(BT_ATT_OP_PREP_WRITE_REQ, pdu, PrepareWriteCb p)] \<and>
    reports e = reports (att_env (bearer w))"
proof -
  let ?f = "\<lambda>w. do { w \<leftarrow> request_unref G p w; long_write_step G (CompleteWrite p False 0 False) w }"
  have "handle_next_prep_write G p w = do { w \<leftarrow> request_ref p w;
      (sent, w) \<leftarrow> send_op G p BT_ATT_OP_PREP_WRITE_REQ pdu (PrepareWriteCb p) w; if sent then Some w else ?f w }"
    using assms(4,6,7) unfolding handle_next_prep_write_def
    by (subst long_write_step.simps) (simp add: long_op_def alloc)
  then show ?thesis using continue_request [OF assms(1-5,8) takes_requests(2)] by simp
qed

lemma execute_next:
  fixes op :: long_write_op and success :: bool and ecode :: byte and rel :: bool
  defines "op' \<equiv> op\<lparr>lw_success := success, lw_ecode := ecode, reliable_error := rel\<rparr>"
  assumes "ok (att_env (bearer w))" "client (bearer w) = Some c" "cl_att c" "requests (bearer w) p = Some r" "rq_refs r = 1"
    and "rq_data r = LongWriteOp op" "5 < unat mtu"
  shows "\<exists>i e. i \<noteq> 0 \<and> (complete_write_long_op G p success ecode rel w \<bind> request_unref G p) =
      Some (upd (\<lambda>s. s\<lparr>att_env := e, requests := (requests s)(p \<mapsto> r\<lparr>rq_data := LongWriteOp op', rq_att_id := i\<rparr>)\<rparr>) w) \<and> ok e \<and>
    sent e = sent (att_env (bearer w)) @ [(BT_ATT_OP_EXEC_WRITE_REQ, [if success then 1 else 0], ExecuteWriteCb p)] \<and>
    reports e = reports (att_env (bearer w))"
proof -
  let ?f = "\<lambda>w. do { w \<leftarrow> request_unref G p w; op \<leftarrow> long_op p w;
    w \<leftarrow> call_upper G (lw_callback op) (LongWriteFinished False rel ecode) w; long_write_step G StartNext w }"
  let ?w = "upd (\<lambda>s. s\<lparr>requests := (requests s)(p \<mapsto> r\<lparr>rq_data := LongWriteOp op'\<rparr>)\<rparr>) w"
  let ?pdu = "[if success then 1 else 0 :: byte]"
  have f: "complete_write_long_op G p success ecode rel w = do { w \<leftarrow> request_ref p ?w;
      (sent, w) \<leftarrow> send_op G p BT_ATT_OP_EXEC_WRITE_REQ ?pdu (ExecuteWriteCb p) w; if sent then Some w else ?f w }"
    using assms(5,7) unfolding complete_write_long_op_def
    by (subst long_write_step.simps) (simp add: upd_long_op_def long_op_def op'_def)
  have "length ?pdu < unat mtu" using assms(8) by simp
  then show ?thesis
    using continue_request [of ?w c p "r\<lparr>rq_data := LongWriteOp op'\<rparr>" ?pdu BT_ATT_OP_EXEC_WRITE_REQ "ExecuteWriteCb p" ?f] f assms(2-6)
    by auto
qed

end

text \<open>The answer to a chunk: the next chunk is prepared, or after the last one the write is executed.\<close>

definition next_chunk :: "u16 \<Rightarrow> long_write_op \<Rightarrow> long_write_op" where
  "next_chunk mtu op = (let i = lw_index op + cur_length op in
     op\<lparr>lw_index := i, cur_length := word_of_int (min (uint (lw_length op) - uint i) (uint mtu - 5))\<rparr>)"

lemma at_index_end:
  assumes "at_index mtu data idx op"
  shows "unat (lw_index op + cur_length op) = idx + length (chunk_at mtu data idx)"
    "idx + length (chunk_at mtu data idx) \<le> length data" "length data \<le> 65535"
proof -
  have "length (chunk_at mtu data idx) \<le> length data - idx" by (simp add: chunk_at_def)
  then show le: "idx + length (chunk_at mtu data idx) \<le> length data" "length data \<le> 65535"
    using assms unfolding at_index_def by linarith+
  then show "unat (lw_index op + cur_length op) = idx + length (chunk_at mtu data idx)"
    using assms unfolding at_index_def by (auto simp: unat_word_ariths)
qed

lemma at_index_last:
  assumes "at_index mtu data idx op"
  shows "lw_index op + cur_length op = lw_length op \<longleftrightarrow> idx + length (chunk_at mtu data idx) = length data"
  using assms at_index_end(1) [OF assms] by (auto simp: at_index_def word_unat_eq_iff)

lemma at_index_next:
  assumes "at_index mtu data idx op" "idx + length (chunk_at mtu data idx) < length data" "5 < unat mtu"
  shows "at_index mtu data (idx + length (chunk_at mtu data idx)) (next_chunk mtu op)" "uint (cur_length op) = uint mtu - 5"
proof -
  let ?i = "idx + length (chunk_at mtu data idx)" and ?m = "min (length data - (idx + length (chunk_at mtu data idx))) (unat mtu - 5)"
  have len: "length (chunk_at mtu data idx) = unat mtu - 5"
    using assms(2) by (auto simp: chunk_at_def min_def split: if_splits)
  note i = at_index_end(1) [OF assms(1)]
  have cur: "uint (cur_length op) = int (length (chunk_at mtu data idx))" and total: "uint (lw_length op) = int (length data)"
    and idx: "uint (lw_index op + cur_length op) = int ?i" and mtu: "uint mtu = int (unat mtu)"
    using assms(1) i uint_nat [of "cur_length op"] uint_nat [of "lw_length op"] uint_nat [of "lw_index op + cur_length op"]
      uint_nat [of mtu] unfolding at_index_def by (metis, metis, metis, metis)
  have "min (uint (lw_length op) - uint (lw_index op + cur_length op)) (uint mtu - 5) = int ?m"
    using assms(2,3) unfolding total idx mtu by linarith
  moreover have "unat (word_of_nat ?m :: u16) = ?m"
    using at_index_end(3) [OF assms(1)] by (intro u16_of_nat) linarith
  ultimately have "unat (cur_length (next_chunk mtu op)) = length (chunk_at mtu data ?i)"
    by (simp add: next_chunk_def Let_def chunk_at_def)
  then show "at_index mtu data ?i (next_chunk mtu op)"
    using assms(1,2) i by (simp add: at_index_def next_chunk_def Let_def)
  show "uint (cur_length op) = uint mtu - 5"
    using assms(3) unfolding cur mtu len by linarith
qed

context value_link
begin

lemma prepare_answered:
  assumes "ok (att_env (bearer w))" "client (bearer w) = Some c" "cl_att c" "requests (bearer w) p = Some r"
    and "rq_data r = LongWriteOp op" "at_index mtu data idx op" "5 < unat mtu"
  shows "gc_respond G (PrepareWriteCb p) BT_ATT_OP_PREP_WRITE_RSP
      (Some (prepare_body (lw_handle op) (lw_offset op + lw_index op) (chunk_at mtu data idx))) w =
    ((if idx + length (chunk_at mtu data idx) = length data then complete_write_long_op G p True 0 False w
      else handle_next_prep_write G p (upd (\<lambda>s. s\<lparr>requests := (requests s)(p \<mapsto> r\<lparr>rq_data := LongWriteOp (next_chunk mtu op)\<rparr>)\<rparr>) w))
     \<bind> request_unref G p)"
proof -
  let ?answer = "Some (prepare_body (lw_handle op) (lw_offset op + lw_index op) (chunk_at mtu data idx))"
  have m: "att_mtu G w = Some (uint mtu)" using assms(1-3) mtu by (simp add: att_mtu_def)
  have more: "uint mtu - 5 \<le> uint (cur_length op)" if "idx + length (chunk_at mtu data idx) \<noteq> length data"
    using at_index_next(2) [OF assms(6) _ assms(7)] at_index_end(2) [OF assms(6)] that by simp
  have "prepare_write_cb G BT_ATT_OP_PREP_WRITE_RSP ?answer p w =
    (if idx + length (chunk_at mtu data idx) = length data then complete_write_long_op G p True 0 False w
     else handle_next_prep_write G p (upd (\<lambda>s. s\<lparr>requests := (requests s)(p \<mapsto> r\<lparr>rq_data := LongWriteOp (next_chunk mtu op)\<rparr>)\<rparr>) w))"
    unfolding prepare_write_cb_def
    using assms(4,5) more by (simp add: at_index_echo [OF assms(6)] long_op_def upd_long_op_def m at_index_last [OF assms(6)] next_chunk_def Let_def)
  then show ?thesis by (simp add: gc_respond_def)
qed

lemma prepare_last:
  assumes "ok (att_env (bearer w))" "client (bearer w) = Some c" "cl_att c" "requests (bearer w) p = Some r" "rq_refs r = 1"
    and "rq_data r = LongWriteOp op" "at_index mtu data idx op" "5 < unat mtu" "idx + length (chunk_at mtu data idx) = length data"
  shows "\<exists>i e. gc_respond G (PrepareWriteCb p) BT_ATT_OP_PREP_WRITE_RSP
      (Some (prepare_body (lw_handle op) (lw_offset op + lw_index op) (chunk_at mtu data idx))) w =
    Some (upd (\<lambda>s. s\<lparr>att_env := e, requests := (requests s)(p \<mapsto> r\<lparr>rq_data :=
      LongWriteOp (op\<lparr>lw_success := True, lw_ecode := 0, reliable_error := False\<rparr>), rq_att_id := i\<rparr>)\<rparr>) w) \<and> ok e \<and>
    sent e = sent (att_env (bearer w)) @ [(BT_ATT_OP_EXEC_WRITE_REQ, [1], ExecuteWriteCb p)] \<and>
    reports e = reports (att_env (bearer w))"
  using execute_next [OF assms(1-6,8), of True 0 False] prepare_answered [OF assms(1-4,6-8)] assms(9) by auto

lemma prepare_more:
  assumes "ok (att_env (bearer w))" "client (bearer w) = Some c" "cl_att c" "requests (bearer w) p = Some r" "rq_refs r = 1"
    and "rq_data r = LongWriteOp op" "at_index mtu data idx op" "5 < unat mtu" "idx + length (chunk_at mtu data idx) < length data"
  shows "\<exists>i e. gc_respond G (PrepareWriteCb p) BT_ATT_OP_PREP_WRITE_RSP
      (Some (prepare_body (lw_handle op) (lw_offset op + lw_index op) (chunk_at mtu data idx))) w =
    Some (upd (\<lambda>s. s\<lparr>att_env := e, requests := (requests s)(p \<mapsto> r\<lparr>rq_data := LongWriteOp (next_chunk mtu op), rq_att_id := i\<rparr>)\<rparr>) w) \<and>
    ok e \<and> sent e = sent (att_env (bearer w)) @ [(BT_ATT_OP_PREP_WRITE_REQ, prepare_body (lw_handle op)
      (lw_offset (next_chunk mtu op) + lw_index (next_chunk mtu op)) (chunk_at mtu data (idx + length (chunk_at mtu data idx))), PrepareWriteCb p)] \<and>
    reports e = reports (att_env (bearer w))"
proof -
  let ?op = "next_chunk mtu op" and ?i = "idx + length (chunk_at mtu data idx)"
  let ?w = "upd (\<lambda>s. s\<lparr>requests := (requests s)(p \<mapsto> r\<lparr>rq_data := LongWriteOp ?op\<rparr>)\<rparr>) w"
  have n: "at_index mtu data ?i ?op" using at_index_next(1) [OF assms(7,9,8)] .
  have pdu: "prepare_pdu ?op = Some (prepare_body (lw_handle op) (lw_offset ?op + lw_index ?op) (chunk_at mtu data ?i))"
    using at_index_pdu(1) [OF n] by (simp add: next_chunk_def Let_def)
  have "length (prepare_body (lw_handle op) (lw_offset ?op + lw_index ?op) (chunk_at mtu data ?i)) < unat mtu"
    using assms(8) by (simp add: prepare_body_def chunk_at_def le16.put_width)
  then show ?thesis
    using next_prepare [of ?w c p "r\<lparr>rq_data := LongWriteOp ?op\<rparr>" ?op] prepare_answered [OF assms(1-4,6-8)] assms(1-3,5,9) pdu
    by auto
qed

lemma start_next_idle:
  "client (bearer w) = Some c \<Longrightarrow> long_write_queue c = [] \<Longrightarrow>
    start_next_long_write G w = Some (upd (\<lambda>s. s\<lparr>client := Some (c\<lparr>in_long_write := False\<rparr>)\<rparr>) w)"
  unfolding start_next_long_write_def by (subst long_write_step.simps) simp

lemma executed:
  assumes "ok (att_env (bearer w))" "client (bearer w) = Some c" "requests (bearer w) p = Some r" "rq_refs r = 1" "\<not> removed r"
    and "rq_data r = LongWriteOp op" "lw_callback op = Some n" "lw_success op" "long_write_queue c = []"
  shows "\<exists>e. gc_respond G (ExecuteWriteCb p) BT_ATT_OP_EXEC_WRITE_RSP None w =
      Some (upd (\<lambda>s. s\<lparr>att_env := e, client := Some (c\<lparr>in_long_write := False, pending_requests := remove1 p (pending_requests c)\<rparr>),
        requests := (requests s)(p := None)\<rparr>) w) \<and> ok e \<and> sent e = sent (att_env (bearer w)) \<and>
    reports e = reports (att_env (bearer w)) @ [(n, LongWriteFinished True (reliable_error op) (lw_ecode op))]"
proof -
  obtain e where e: "call_upper G (Some n) (LongWriteFinished True (reliable_error op) (lw_ecode op)) w = Some (upd (\<lambda>s. s\<lparr>att_env := e\<rparr>) w)"
      "ok e" "sent e = sent (att_env (bearer w))"
      "reports e = reports (att_env (bearer w)) @ [(n, LongWriteFinished True (reliable_error op) (lw_ecode op))]"
    using upper_ok [OF assms(1)] by blast
  let ?w = "upd (\<lambda>s. s\<lparr>att_env := e, client := Some (c\<lparr>in_long_write := False\<rparr>)\<rparr>) w"
  have cb: "execute_write_cb G BT_ATT_OP_EXEC_WRITE_RSP None p w = Some ?w"
    using assms(2,3,6-9) e(1) by (simp add: execute_write_cb_def long_op_def Let_def start_next_idle)
  obtain e' where "request_unref G p ?w =
      Some (upd (\<lambda>s. s\<lparr>att_env := e', client := Some (c\<lparr>in_long_write := False, pending_requests := remove1 p (pending_requests c)\<rparr>),
        requests := (requests s)(p := None)\<rparr>) ?w)" "ok e'" "sent e' = sent e" "reports e' = reports e"
    using unref_last [of ?w "c\<lparr>in_long_write := False\<rparr>" p r] e(2) assms(3-6) by auto
  then show ?thesis
    using cb e(3,4) by (intro exI [of _ e']) (simp add: gc_respond_def)
qed

end

text \<open>A long write that waits for the answer to the chunk at an index, of which the server keeps what was prepared.\<close>

definition writing :: "('e \<Rightarrow> (byte \<times> bytes \<times> gc_op) list) \<Rightarrow> u16 \<Rightarrow> bytes \<Rightarrow> nat \<Rightarrow> ptr \<Rightarrow> request \<Rightarrow> long_write_op \<Rightarrow> 'e world \<Rightarrow> bool" where
  "writing sent mtu data idx p r op w \<longleftrightarrow> requests (bearer w) p = Some r \<and> rq_data r = LongWriteOp op \<and> rq_refs r = 1 \<and>
     \<not> removed r \<and> at_index mtu data idx op \<and> sent (att_env (bearer w)) =
       [(BT_ATT_OP_PREP_WRITE_REQ, prepare_body (lw_handle op) (lw_offset op + lw_index op) (chunk_at mtu data idx), PrepareWriteCb p)]"

lemma take_chunk: "take idx data @ chunk_at mtu data idx = take (idx + length (chunk_at mtu data idx)) data"
proof -
  have "chunk_at mtu data idx = take (length (chunk_at mtu data idx)) (drop idx data)" by (simp add: chunk_at_def min_def)
  then show ?thesis by (metis take_add)
qed

lemma next_chunk_keeps:
  "lw_handle (next_chunk mtu op) = lw_handle op" "lw_offset (next_chunk mtu op) = lw_offset op"
  "lw_callback (next_chunk mtu op) = lw_callback op"
  by (simp_all add: next_chunk_def Let_def)

context value_link
begin

lemma idle: "sent (att_env (bearer w)) = [] \<Longrightarrow> run_server G sent pop server s w = Some (s, w)"
  by (subst run_server.simps) simp

lemma run_execute:
  assumes "ok (att_env (bearer w))" "client (bearer w) = Some c" "requests (bearer w) p = Some r" "rq_refs r = 1" "\<not> removed r"
    and "rq_data r = LongWriteOp op" "lw_callback op = Some n" "lw_success op" "long_write_queue c = []"
    and "sent (att_env (bearer w)) = [(BT_ATT_OP_EXEC_WRITE_REQ, [1], ExecuteWriteCb p)]" "serves_prepared handle server"
  shows "\<exists>w'. run_server G sent pop server (v, q) w = Some ((apply_writes q v, []), w') \<and> sent (att_env (bearer w')) = [] \<and>
    client (bearer w') = Some (c\<lparr>in_long_write := False, pending_requests := remove1 p (pending_requests c)\<rparr>) \<and>
    requests (bearer w') = (requests (bearer w))(p := None) \<and>
    reports (att_env (bearer w')) = reports (att_env (bearer w)) @ [(n, LongWriteFinished True (reliable_error op) (lw_ecode op))]"
proof -
  let ?w = "upd_att pop w"
  have w: "ok (att_env (bearer ?w))" "sent (att_env (bearer ?w)) = []" "reports (att_env (bearer ?w)) = reports (att_env (bearer w))"
    using pop [OF assms(1)] assms(10) by simp_all
  obtain e where e: "gc_respond G (ExecuteWriteCb p) BT_ATT_OP_EXEC_WRITE_RSP None ?w =
      Some (upd (\<lambda>s. s\<lparr>att_env := e, client := Some (c\<lparr>in_long_write := False, pending_requests := remove1 p (pending_requests c)\<rparr>),
        requests := (requests s)(p := None)\<rparr>) ?w)" "sent e = []"
      "reports e = reports (att_env (bearer w)) @ [(n, LongWriteFinished True (reliable_error op) (lw_ecode op))]"
    using executed [of ?w c p r op n] w assms(2-9) by auto
  let ?w' = "upd (\<lambda>s. s\<lparr>att_env := e, client := Some (c\<lparr>in_long_write := False, pending_requests := remove1 p (pending_requests c)\<rparr>),
        requests := (requests s)(p := None)\<rparr>) ?w"
  have "run_server G sent pop server (v, q) w = run_server G sent pop server (apply_writes q v, []) ?w'"
    using assms(10,11) e(1) by (subst run_server.simps) (simp add: serves_prepared_def)
  then show ?thesis using e idle [of ?w'] by (intro exI [of _ ?w']) simp
qed

end

context value_link
begin

lemma run_prepares:
  assumes "ok (att_env (bearer w))" "client (bearer w) = Some c" "cl_att c" "long_write_queue c = []" "5 < unat mtu"
    and "writing sent mtu data idx p r op w" "lw_callback op = Some n" "serves_prepared (lw_handle op) server"
    and "unat (lw_offset op) \<le> length v" "apply_writes q v = write_at (unat (lw_offset op)) (take idx data) v"
  shows "\<exists>w'. run_server G sent pop server (v, q) w = Some ((write_at (unat (lw_offset op)) data v, []), w') \<and>
    sent (att_env (bearer w')) = [] \<and>
    client (bearer w') = Some (c\<lparr>in_long_write := False, pending_requests := remove1 p (pending_requests c)\<rparr>) \<and>
    requests (bearer w') = (requests (bearer w))(p := None) \<and>
    reports (att_env (bearer w')) = reports (att_env (bearer w)) @ [(n, LongWriteFinished True False 0)]"
  using assms(1,2,6-10)
proof (induction "length data - idx" arbitrary: idx w r op q rule: less_induct)
  case less
  let ?i = "idx + length (chunk_at mtu data idx)" and ?w = "upd_att pop w"
  let ?q = "q @ [(unat (lw_offset op) + idx, chunk_at mtu data idx)]"
  let ?answer = "Some (prepare_body (lw_handle op) (lw_offset op + lw_index op) (chunk_at mtu data idx))"
  note r = less.prems(3) [unfolded writing_def]
  have ix: "at_index mtu data idx op" using r by blast
  have w: "ok (att_env (bearer ?w))" "sent (att_env (bearer ?w)) = []" "reports (att_env (bearer ?w)) = reports (att_env (bearer w))"
    using pop [OF less.prems(1)] r by simp_all
  have step: "run_server G sent pop server (v, q) w = do {
      w \<leftarrow> gc_respond G (PrepareWriteCb p) BT_ATT_OP_PREP_WRITE_RSP ?answer ?w; run_server G sent pop server (v, ?q) w }"
    using r less.prems(5) at_index_pdu(2) [OF ix] by (subst run_server.simps) (simp add: serves_prepared_def)
  have "length (take idx data) = idx" using ix by (simp add: at_index_def)
  then have "write_at (unat (lw_offset op) + idx) (chunk_at mtu data idx) (write_at (unat (lw_offset op)) (take idx data) v) =
      write_at (unat (lw_offset op)) (take idx data @ chunk_at mtu data idx) v"
    using write_at_again [OF less.prems(6), of "take idx data" "chunk_at mtu data idx"] by simp
  then have q: "apply_writes ?q v = write_at (unat (lw_offset op)) (take ?i data) v"
    unfolding apply_writes_append less.prems(7) take_chunk .
  show ?case
  proof (cases "?i = length data")
    case True
    let ?op = "op\<lparr>lw_success := True, lw_ecode := 0, reliable_error := False\<rparr>"
    obtain i e where e: "gc_respond G (PrepareWriteCb p) BT_ATT_OP_PREP_WRITE_RSP ?answer ?w =
        Some (upd (\<lambda>s. s\<lparr>att_env := e, requests := (requests s)(p \<mapsto> r\<lparr>rq_data := LongWriteOp ?op, rq_att_id := i\<rparr>)\<rparr>) ?w)"
        "ok e" "sent e = [(BT_ATT_OP_EXEC_WRITE_REQ, [1], ExecuteWriteCb p)]" "reports e = reports (att_env (bearer w))"
      using prepare_last [of ?w c p r op data idx] w less.prems(2) r assms(3,5) True by auto
    let ?w' = "upd (\<lambda>s. s\<lparr>att_env := e, requests := (requests s)(p \<mapsto> r\<lparr>rq_data := LongWriteOp ?op, rq_att_id := i\<rparr>)\<rparr>) ?w"
    obtain w'' where "run_server G sent pop server (v, ?q) ?w' = Some ((apply_writes ?q v, []), w'')" "sent (att_env (bearer w'')) = []"
        "client (bearer w'') = Some (c\<lparr>in_long_write := False, pending_requests := remove1 p (pending_requests c)\<rparr>)"
        "requests (bearer w'') = (requests (bearer ?w'))(p := None)"
        "reports (att_env (bearer w'')) = reports e @ [(n, LongWriteFinished True False 0)]"
      using run_execute [of ?w' c p "r\<lparr>rq_data := LongWriteOp ?op, rq_att_id := i\<rparr>" ?op n "lw_handle op" server v ?q]
        e(2,3) less.prems(2,4,5) r assms(4) by auto
    then show ?thesis
      using e(1,4) q True unfolding step by simp
  next
    case False
    then have lt: "?i < length data" using at_index_end(2) [OF ix] by linarith
    let ?op = "next_chunk mtu op"
    obtain i e where e: "gc_respond G (PrepareWriteCb p) BT_ATT_OP_PREP_WRITE_RSP ?answer ?w =
        Some (upd (\<lambda>s. s\<lparr>att_env := e, requests := (requests s)(p \<mapsto> r\<lparr>rq_data := LongWriteOp ?op, rq_att_id := i\<rparr>)\<rparr>) ?w)"
        "ok e" "reports e = reports (att_env (bearer w))"
        "sent e = [(BT_ATT_OP_PREP_WRITE_REQ, prepare_body (lw_handle op) (lw_offset ?op + lw_index ?op) (chunk_at mtu data ?i), PrepareWriteCb p)]"
      using prepare_more [of ?w c p r op data idx] w less.prems(2) r assms(3,5) lt by auto
    let ?r = "r\<lparr>rq_data := LongWriteOp ?op, rq_att_id := i\<rparr>"
    let ?w' = "upd (\<lambda>s. s\<lparr>att_env := e, requests := (requests s)(p \<mapsto> ?r)\<rparr>) ?w"
    have again: "writing sent mtu data ?i p ?r ?op ?w'"
      using e(4) r at_index_next(1) [OF ix lt assms(5)] by (simp add: writing_def next_chunk_keeps)
    have "0 < length (chunk_at mtu data idx)" using ix assms(5) by (simp add: at_index_def chunk_at_def)
    then have smaller: "length data - ?i < length data - idx" using lt by linarith
    obtain w'' where "run_server G sent pop server (v, ?q) ?w' = Some ((write_at (unat (lw_offset op)) data v, []), w'')"
        "sent (att_env (bearer w'')) = []"
        "client (bearer w'') = Some (c\<lparr>in_long_write := False, pending_requests := remove1 p (pending_requests c)\<rparr>)"
        "requests (bearer w'') = (requests (bearer ?w'))(p := None)"
        "reports (att_env (bearer w'')) = reports e @ [(n, LongWriteFinished True False 0)]"
      using less.hyps [OF smaller _ _ again] e(2) q less.prems(2,4-6) by (auto simp: next_chunk_keeps)
    then show ?thesis using e(1,3) unfolding step by simp
  qed
qed

end

text \<open>The first chunk.\<close>

definition first_op :: "u16 \<Rightarrow> bool \<Rightarrow> u16 \<Rightarrow> u16 \<Rightarrow> bytes \<Rightarrow> u16 \<Rightarrow> nat option \<Rightarrow> nat option \<Rightarrow> long_write_op" where
  "first_op mtu rel handle offset data len callback destroy = \<lparr>reliable = rel, lw_success = False, lw_ecode = 0, reliable_error = False,
     lw_handle = handle, lw_value = data, lw_length = len, lw_offset = offset, lw_index = 0,
     cur_length = word_of_int (min (uint len) (uint mtu - 5)), lw_callback = callback, lw_destroy = destroy\<rparr>"

lemma at_index_first:
  assumes "unat len = length data" "unat offset + length data \<le> 65535" "data \<noteq> []" "5 < unat mtu"
  shows "at_index mtu data 0 (first_op mtu rel handle offset data len callback destroy)"
proof -
  let ?m = "min (length data) (unat mtu - 5)"
  have "uint len = int (length data)" "uint mtu = int (unat mtu)" using assms(1) uint_nat [of len] uint_nat [of mtu] by metis+
  then have "min (uint len) (uint mtu - 5) = int ?m" using assms(4) by linarith
  moreover have "unat (word_of_nat ?m :: u16) = ?m" using assms(2) by (intro u16_of_nat) linarith
  ultimately show ?thesis using assms by (simp add: at_index_def first_op_def chunk_at_def)
qed

context value_link
begin

lemma create_any:
  assumes "client (bearer w) = Some c"
  shows "\<exists>i. i \<noteq> 0 \<and> create_with_data G data w = (let p = gs_next (bearer w) in Some (Some p, upd (\<lambda>s. s\<lparr>gs_next := p + 1,
      client := Some (c\<lparr>pending_requests := pending_requests c @ [p], next_request_id := i + 1\<rparr>),
      requests := (requests s)(p \<mapsto> \<lparr>long_write = False, prep_write = False, removed = False, rq_refs = 1,
        rq_id = i, rq_att_id = 0, rq_data = data\<rparr>)\<rparr>) w))"
proof (intro exI conjI)
  show "(if next_request_id c < 1 then 1 else next_request_id c) \<noteq> 0" by (simp add: word_less_1)
qed (unfold create_ok [OF assms] upd_def Let_def, rule refl)

lemma long_value_sent:
  assumes "ok (att_env (bearer w))" "sent (att_env (bearer w)) = []" "client (bearer w) = Some c" "cl_att c"
    and "in_long_write c = False" "reliable_write_session_id c = 0"
    and "5 < unat mtu" "unat len = length data" "unat offset + length data \<le> 65535" "data \<noteq> []"
  shows "\<exists>r w1. let p = gs_next (bearer w) in
    bt_gatt_client_write_long_value G rel handle offset (Some data) len (Some n) destroy w = Some (rq_id r, w1) \<and> rq_id r \<noteq> 0 \<and>
    ok (att_env (bearer w1)) \<and> writing sent mtu data 0 p r (first_op mtu rel handle offset data len (Some n) destroy) w1 \<and>
    client (bearer w1) = Some (c\<lparr>pending_requests := pending_requests c @ [p], next_request_id := rq_id r + 1, in_long_write := True\<rparr>) \<and>
    requests (bearer w1) = (requests (bearer w))(p \<mapsto> r) \<and> reports (att_env (bearer w1)) = reports (att_env (bearer w))"
proof -
  let ?p = "gs_next (bearer w)"
  let ?op = "first_op mtu rel handle offset data len (Some n) destroy"
  obtain i where i: "i \<noteq> 0" "create_with_data G (LongWriteOp ?op) w = Some (Some ?p, upd (\<lambda>s. s\<lparr>gs_next := ?p + 1,
      client := Some (c\<lparr>pending_requests := pending_requests c @ [?p], next_request_id := i + 1\<rparr>),
      requests := (requests s)(?p \<mapsto> \<lparr>long_write = False, prep_write = False, removed = False, rq_refs = 1,
        rq_id = i, rq_att_id = 0, rq_data = LongWriteOp ?op\<rparr>)\<rparr>) w)"
    using create_any [OF assms(3)] unfolding Let_def by blast
  let ?r = "\<lparr>long_write = True, prep_write = False, removed = False, rq_refs = 1, rq_id = i, rq_att_id = 0, rq_data = LongWriteOp ?op\<rparr>"
  let ?c = "c\<lparr>pending_requests := pending_requests c @ [?p], next_request_id := i + 1\<rparr>"
  let ?w = "upd (\<lambda>s. s\<lparr>gs_next := ?p + 1, client := Some ?c, requests := (requests s)(?p \<mapsto> ?r)\<rparr>) w"
  let ?pdu = "prepare_body handle offset (chunk_at mtu data 0)"
  note first = at_index_first [OF assms(8-10,7), of rel handle "Some n" destroy]
  have m: "att_mtu G w = Some (uint mtu)" using assms(1,3,4) mtu by (simp add: att_mtu_def)
  have copy: "array_slice data 0 (length data) = Some data" by (simp add: array_slice_def)
  have pdu: "prepare_pdu ?op = Some ?pdu" using at_index_pdu(1) [OF first] by (simp add: first_op_def)
  have len: "len \<noteq> 0" using assms(8,10) by auto
  have "length ?pdu < unat mtu" using assms(7) by (simp add: prepare_body_def chunk_at_def le16.put_width)
  then obtain j e where e: "start_op G ?p BT_ATT_OP_PREP_WRITE_REQ ?pdu (PrepareWriteCb ?p) ?w =
      Some (i, upd (\<lambda>s. s\<lparr>att_env := e, requests := (requests s)(?p \<mapsto> ?r\<lparr>rq_att_id := j\<rparr>)\<rparr>) ?w)" "ok e"
      "sent e = [(BT_ATT_OP_PREP_WRITE_REQ, ?pdu, PrepareWriteCb ?p)]" "reports e = reports (att_env (bearer w))"
    using start_op_ok [of ?w ?c ?p ?r ?pdu BT_ATT_OP_PREP_WRITE_REQ "PrepareWriteCb ?p"] assms(1,2,4) by auto
  let ?w1 = "upd (\<lambda>s. s\<lparr>att_env := e, requests := (requests s)(?p \<mapsto> ?r\<lparr>rq_att_id := j\<rparr>), client := Some (?c\<lparr>in_long_write := True\<rparr>)\<rparr>) ?w"
  have "bt_gatt_client_write_long_value G rel handle offset (Some data) len (Some n) destroy w = Some (i, ?w1)"
    using i assms(5,6,8,9) len e(1) pdu
    by (simp add: bt_gatt_client_write_long_value_def alloc copy m first_op_def [symmetric] long_op_def add.commute)
  moreover have "writing sent mtu data 0 ?p (?r\<lparr>rq_att_id := j\<rparr>) ?op ?w1"
    using first e(3) by (simp add: writing_def first_op_def)
  ultimately show ?thesis
    using e(2,4) i(1) by (intro exI [of _ "?r\<lparr>rq_att_id := j\<rparr>"] exI [of _ ?w1]) (simp add: Let_def)
qed

end

section \<open>Writing a long value\<close>

text \<open>A server that holds one value and what was prepared for it.\<close>

definition prepared_server :: "u16 \<Rightarrow> prepared \<Rightarrow> byte \<Rightarrow> bytes \<Rightarrow> (byte \<times> bytes option) \<times> prepared" where
  "prepared_server handle s opcode pdu = (let (v, q) = s in
     if opcode = BT_ATT_OP_PREP_WRITE_REQ \<and> get_le16 pdu = Some handle \<and> get_le16 (drop 2 pdu) \<noteq> None
     then ((BT_ATT_OP_PREP_WRITE_RSP, Some pdu), (v, q @ [(unat (the (get_le16 (drop 2 pdu))), drop 4 pdu)]))
     else if opcode = BT_ATT_OP_EXEC_WRITE_REQ
     then ((BT_ATT_OP_EXEC_WRITE_RSP, None), (if pdu = [1] then apply_writes q v else v, []))
     else ((BT_ATT_OP_ERROR_RSP, Some [opcode, 0, 0, 1]), s))"

lemma prepared_server_serves: "serves_prepared handle (prepared_server handle)"
  by (simp add: serves_prepared_def prepared_server_def prepare_body_def le16.get_put le16.put_width
      BT_ATT_OP_PREP_WRITE_REQ_def BT_ATT_OP_EXEC_WRITE_REQ_def)

text \<open>C18 A long write writes the whole value: over a bearer that sends operations in order, against a server
  that keeps prepared writes until they are executed, a write of any length at an offset inside the
  value, reliable or not, ends with the server's value changed exactly there, nothing left prepared,
  one report of success, the request freed and the client ready for the next long write.\<close>

theorem long_value_written:
  assumes "value_link G sent pop ok reports mtu" "ok (att_env (bearer w))" "sent (att_env (bearer w)) = []"
    and "client (bearer w) = Some c" "cl_att c" "\<not> in_long_write c" "reliable_write_session_id c = 0" "long_write_queue c = []"
    and "gs_next (bearer w) \<notin> set (pending_requests c)" "serves_prepared handle server" "5 < unat mtu"
    and "unat len = length data" "unat offset + length data \<le> 65535" "data \<noteq> []" "unat offset \<le> length v"
  shows "\<exists>i w1 w2. bt_gatt_client_write_long_value G rel handle offset (Some data) len (Some n) destroy w = Some (i, w1) \<and> i \<noteq> 0 \<and>
    run_server G sent pop server (v, []) w1 = Some ((write_at (unat offset) data v, []), w2) \<and> sent (att_env (bearer w2)) = [] \<and>
    reports (att_env (bearer w2)) = reports (att_env (bearer w)) @ [(n, LongWriteFinished True False 0)] \<and>
    requests (bearer w2) = (requests (bearer w))(gs_next (bearer w) := None) \<and>
    map_option pending_requests (client (bearer w2)) = Some (pending_requests c) \<and>
    map_option in_long_write (client (bearer w2)) = Some False"
proof -
  let ?p = "gs_next (bearer w)" and ?op = "first_op mtu rel handle offset data len (Some n) destroy"
  obtain r w1 where sent: "bt_gatt_client_write_long_value G rel handle offset (Some data) len (Some n) destroy w = Some (rq_id r, w1)"
      "rq_id r \<noteq> 0" "ok (att_env (bearer w1))" "writing sent mtu data 0 ?p r ?op w1"
      "client (bearer w1) = Some (c\<lparr>pending_requests := pending_requests c @ [?p], next_request_id := rq_id r + 1, in_long_write := True\<rparr>)"
      "requests (bearer w1) = (requests (bearer w))(?p \<mapsto> r)" "reports (att_env (bearer w1)) = reports (att_env (bearer w))"
    using value_link.long_value_sent [OF assms(1-5) _ assms(7,11-14)] assms(6) unfolding Let_def by blast
  have "unat (lw_offset ?op) \<le> length v" "lw_callback ?op = Some n" "lw_handle ?op = handle" "unat (lw_offset ?op) = unat offset"
    and "apply_writes [] v = write_at (unat (lw_offset ?op)) (take 0 data) v"
    using assms(15) by (simp_all add: first_op_def write_at_def)
  then obtain w2 where "run_server G sent pop server (v, []) w1 = Some ((write_at (unat offset) data v, []), w2)"
      "sent (att_env (bearer w2)) = []" "client (bearer w2) = Some (c\<lparr>pending_requests := remove1 ?p (pending_requests c @ [?p]),
        next_request_id := rq_id r + 1, in_long_write := False\<rparr>)"
      "requests (bearer w2) = (requests (bearer w1))(?p := None)"
      "reports (att_env (bearer w2)) = reports (att_env (bearer w1)) @ [(n, LongWriteFinished True False 0)]"
    using value_link.run_prepares [OF assms(1) sent(3,5) _ _ assms(11) sent(4), of n server v "[]"] assms(5,8,10) by auto
  then show ?thesis
    using sent(1,2,6,7) assms(9) by (intro exI [of _ "rq_id r"] exI [of _ w1] exI [of _ w2]) (simp add: remove1_append)
qed

lemma long_value_written_witness:
  "\<exists>i w1 w2. bt_gatt_client_write_long_value value_host True 3 10 (Some (replicate 50 9)) 50 (Some 7) None value_world = Some (i, w1) \<and> i \<noteq> 0 \<and>
    run_server value_host v_sent v_pop (prepared_server 3) (replicate 100 5, []) w1 =
      Some ((replicate 10 5 @ replicate 50 9 @ replicate 40 5, []), w2) \<and> v_sent (att_env (bearer w2)) = [] \<and>
    v_reports (att_env (bearer w2)) = [(7, LongWriteFinished True False 0)] \<and> requests (bearer w2) = (\<lambda>_. None) \<and>
    map_option pending_requests (client (bearer w2)) = Some [] \<and> map_option in_long_write (client (bearer w2)) = Some False"
  using long_value_written [OF demo_is_value_link _ _ _ _ _ _ _ _ prepared_server_serves, of value_world demo_client 50 "replicate 50 9" 10 "replicate 100 5" True 3 7 None]
  by (simp add: value_world_def demo_client_def new_client_def write_at_def fun_upd_idem)

end
