(* ===== verification/ClientNotified.thy ===== *)
theory ClientNotified
  imports ClientValues
begin

text \<open>
  Notifications over the bearer of \<open>ClientValues\<close>: any number of registrations for a characteristic share
  one write of its client configuration, all are told when it was answered, and a notified value then
  reaches each of them, in the order in which they were made.
\<close>

section \<open>Registrations\<close>

text \<open>A registration is the function that is told about it and the function that takes the values.\<close>

fun register_all :: "'e gc_host \<Rightarrow> u16 \<Rightarrow> (nat \<times> nat) list \<Rightarrow> 'e world \<Rightarrow> 'e world option" where
  "register_all G handle [] w = Some w"
| "register_all G handle ((g, f) # rs) w = do {
     (i, w) \<leftarrow> bt_gatt_client_register_notify G handle (Some (UpperRegistered g)) (Some (UpperNotify f)) None w;
     if i = 0 then None else register_all G handle rs w }"

definition entry :: "(ptr \<rightharpoonup> notify_data) \<Rightarrow> ptr \<Rightarrow> ptr \<Rightarrow> nat \<times> nat \<Rightarrow> bool" where
  "entry h p d r \<longleftrightarrow> (\<exists>n. h d = Some n \<and> nd_chrc n = p \<and> nd_callback n = UpperRegistered (fst r) \<and>
     nd_notify n = Some (UpperNotify (snd r)))"

definition entries :: "(ptr \<rightharpoonup> notify_data) \<Rightarrow> ptr \<Rightarrow> ptr list \<Rightarrow> (nat \<times> nat) list \<Rightarrow> bool" where
  "entries h p = list_all2 (entry h p)"

lemma entries_simps [simp]:
  "entries h p [] rs \<longleftrightarrow> rs = []" "entries h p ds [] \<longleftrightarrow> ds = []"
  "entries h p (d # ds) (r # rs) \<longleftrightarrow> entry h p d r \<and> entries h p ds rs"
  by (auto simp: entries_def)

lemma entries_append: "length ds = length rs \<Longrightarrow> entries h p (ds @ [d]) (rs @ [r]) \<longleftrightarrow> entries h p ds rs \<and> entry h p d r"
  by (simp add: entries_def list_all2_append)

text \<open>Only what the registrations say counts, so counters and identifiers may change.\<close>

lemma entries_mono:
  assumes "entries h p ds rs" "\<And>d r. d \<in> set ds \<Longrightarrow> entry h p d r \<Longrightarrow> entry h' p d r"
  shows "entries h' p ds rs"
  using assms unfolding entries_def by (induction ds rs rule: list_all2_induct) auto

lemma entry_upd [simp]:
  "d \<noteq> d' \<Longrightarrow> entry (h(d' := n)) p d r \<longleftrightarrow> entry h p d r"
  by (simp add: entry_def)

text \<open>Registrations that differ in the operation they wait for only.\<close>

definition same_registrations :: "(ptr \<rightharpoonup> notify_data) \<Rightarrow> (ptr \<rightharpoonup> notify_data) \<Rightarrow> bool" where
  "same_registrations h h' \<longleftrightarrow>
     (\<forall>d. map_option (\<lambda>n. n\<lparr>nd_att_id := 0\<rparr>) (h' d) = map_option (\<lambda>n. n\<lparr>nd_att_id := 0\<rparr>) (h d))"

lemma same_registration:
  assumes "same_registrations h h'" "h d = Some n"
  shows "\<exists>n'. h' d = Some n' \<and> n'\<lparr>nd_att_id := 0\<rparr> = n\<lparr>nd_att_id := 0\<rparr>"
  using spec [OF assms(1) [unfolded same_registrations_def], of d] assms(2) by (cases "h' d") simp_all

lemma same_fields:
  assumes "n'\<lparr>nd_att_id := 0\<rparr> = n\<lparr>nd_att_id := 0\<rparr>"
  shows "nd_chrc n' = nd_chrc n" "nd_callback n' = nd_callback n" "nd_notify n' = nd_notify n" "nd_refs n' = nd_refs n"
  using arg_cong [OF assms, of nd_chrc] arg_cong [OF assms, of nd_callback] arg_cong [OF assms, of nd_notify]
    arg_cong [OF assms, of nd_refs] by simp_all

lemma same_entry:
  assumes "same_registrations h h'" "entry h p d r"
  shows "entry h' p d r"
proof -
  obtain n where n: "h d = Some n" "nd_chrc n = p" "nd_callback n = UpperRegistered (fst r)" "nd_notify n = Some (UpperNotify (snd r))"
    using assms(2) unfolding entry_def by blast
  obtain n' where "h' d = Some n'" "n'\<lparr>nd_att_id := 0\<rparr> = n\<lparr>nd_att_id := 0\<rparr>" using same_registration [OF assms(1) n(1)] by blast
  then show ?thesis using n same_fields [of n' n] by (simp add: entry_def)
qed

lemma upd_notify_simps [simp]:
  "notifies (bearer w) d = Some n \<Longrightarrow> upd_notify d f w = Some (upd (\<lambda>s. s\<lparr>notifies := (notifies s)(d \<mapsto> f n)\<rparr>) w)"
  "chrcs (bearer w) p = Some c \<Longrightarrow> upd_chrc p g w = Some (upd (\<lambda>s. s\<lparr>chrcs := (chrcs s)(p \<mapsto> g c)\<rparr>) w)"
  by (simp_all add: upd_notify_def upd_chrc_def)

section \<open>The answer to the write\<close>

context value_link
begin

lemma complete_one:
  assumes "ok (att_env (bearer w))" "chrcs (bearer w) p = Some ch" "entry (notifies (bearer w)) p d r"
  shows "\<exists>n e. notifies (bearer w) d = Some n \<and> complete_notify_request G d w = Some (upd (\<lambda>s. s\<lparr>
      chrcs := (chrcs s)(p \<mapsto> ch\<lparr>notify_count := notify_count ch + 1\<rparr>), notifies := (notifies s)(d \<mapsto> n\<lparr>nd_att_id := 0\<rparr>), att_env := e\<rparr>) w) \<and>
    ok e \<and> sent e = sent (att_env (bearer w)) \<and> reports e = reports (att_env (bearer w)) @ [(fst r, Registered 0)]"
proof -
  obtain n where n: "notifies (bearer w) d = Some n" "nd_chrc n = p" "nd_callback n = UpperRegistered (fst r)"
    using assms(3) unfolding entry_def by blast
  let ?w = "upd (\<lambda>s. s\<lparr>chrcs := (chrcs s)(p \<mapsto> ch\<lparr>notify_count := notify_count ch + 1\<rparr>), notifies := (notifies s)(d \<mapsto> n\<lparr>nd_att_id := 0\<rparr>)\<rparr>) w"
  obtain e where "gc_call G (fst r) (Registered 0) ?w = Some (upd (\<lambda>s. s\<lparr>att_env := e\<rparr>) ?w)" "ok e"
      "sent e = sent (att_env (bearer w))" "reports e = reports (att_env (bearer w)) @ [(fst r, Registered 0)]"
    using call [of ?w "fst r" "Registered 0"] assms(1) by auto
  then show ?thesis
    using n assms(2) by (intro exI [of _ n] exI [of _ e]) (simp add: complete_notify_request_def call_registered_def)
qed

text \<open>What completing a list of registrations leaves: their functions were told, and the characteristic counts them.\<close>

lemma complete_each:
  assumes "ok (att_env (bearer w))" "chrcs (bearer w) p = Some ch" "entries (notifies (bearer w)) p ds rs"
  shows "\<exists>w'. each (complete_notify_request G) ds w = Some w' \<and> ok (att_env (bearer w')) \<and>
    sent (att_env (bearer w')) = sent (att_env (bearer w)) \<and> client (bearer w') = client (bearer w) \<and>
    chrcs (bearer w') p = Some (ch\<lparr>notify_count := notify_count ch + int (length ds)\<rparr>) \<and>
    same_registrations (notifies (bearer w)) (notifies (bearer w')) \<and>
    reports (att_env (bearer w')) = reports (att_env (bearer w)) @ map (\<lambda>r. (fst r, Registered 0)) rs"
  using assms
proof (induction ds arbitrary: rs w ch)
  case (Cons d ds)
  obtain r rs' where rs: "rs = r # rs'" using Cons.prems(3) by (cases rs) auto
  have ent: "entry (notifies (bearer w)) p d r" "entries (notifies (bearer w)) p ds rs'" using Cons.prems(3) rs by simp_all
  obtain n e where c: "notifies (bearer w) d = Some n" "complete_notify_request G d w = Some (upd (\<lambda>s. s\<lparr>
      chrcs := (chrcs s)(p \<mapsto> ch\<lparr>notify_count := notify_count ch + 1\<rparr>), notifies := (notifies s)(d \<mapsto> n\<lparr>nd_att_id := 0\<rparr>), att_env := e\<rparr>) w)"
      "ok e" "sent e = sent (att_env (bearer w))" "reports e = reports (att_env (bearer w)) @ [(fst r, Registered 0)]"
    using complete_one [OF Cons.prems(1,2) ent(1)] by blast
  let ?ch = "ch\<lparr>notify_count := notify_count ch + 1\<rparr>"
  let ?w = "upd (\<lambda>s. s\<lparr>chrcs := (chrcs s)(p \<mapsto> ?ch), notifies := (notifies s)(d \<mapsto> n\<lparr>nd_att_id := 0\<rparr>), att_env := e\<rparr>) w"
  have ent': "entries (notifies (bearer ?w)) p ds rs'"
    by (rule entries_mono [OF ent(2)]) (use c(1) in \<open>auto simp: entry_def\<close>)
  have ch': "chrcs (bearer ?w) p = Some ?ch" by simp
  obtain w' where w': "each (complete_notify_request G) ds ?w = Some w'" "ok (att_env (bearer w'))"
      "sent (att_env (bearer w')) = sent (att_env (bearer ?w))" "client (bearer w') = client (bearer ?w)"
      "chrcs (bearer w') p = Some (?ch\<lparr>notify_count := notify_count ?ch + int (length ds)\<rparr>)"
      "same_registrations (notifies (bearer ?w)) (notifies (bearer w'))"
      "reports (att_env (bearer w')) = reports (att_env (bearer ?w)) @ map (\<lambda>r. (fst r, Registered 0)) rs'"
    using Cons.IH [OF _ ch' ent'] c(3) by (auto simp del: fun_upd_apply)
  have "same_registrations (notifies (bearer w)) (notifies (bearer w'))"
    using w'(6) c(1) by (simp add: same_registrations_def)
  then show ?case
    using c w' rs by (intro exI [of _ w']) (simp add: add.assoc)
qed (auto simp: same_registrations_def)

end

context value_link
begin

lemma unref_first:
  assumes "notifies (bearer w) d = Some n" "nd_refs n = 2"
  shows "notify_data_unref G d w = Some (upd (\<lambda>s. s\<lparr>notifies := (notifies s)(d \<mapsto> n\<lparr>nd_refs := 1\<rparr>)\<rparr>) w)"
  using assms by (simp add: notify_data_unref_def)

lemma enabled:
  assumes "ok (att_env (bearer w))" "client (bearer w) = Some c" "0 < cl_refs c" "chrcs (bearer w) p = Some ch"
    and "notify_count ch = 0" "ccc_write_id ch \<noteq> 0" "reg_notify_queue ch = ds" "opcode \<noteq> BT_ATT_OP_ERROR_RSP"
    and "entries (notifies (bearer w)) p (d # ds) (r # rs)" "\<exists>n. notifies (bearer w) d = Some n \<and> nd_refs n = 2"
  shows "\<exists>w'. gc_respond G (EnableCccCb d) opcode pdu w = Some w' \<and> ok (att_env (bearer w')) \<and>
    sent (att_env (bearer w')) = sent (att_env (bearer w)) \<and> client (bearer w') = Some c \<and>
    chrcs (bearer w') p = Some (ch\<lparr>ccc_write_id := 0, reg_notify_queue := [], notify_count := 1 + int (length ds)\<rparr>) \<and>
    entries (notifies (bearer w')) p (d # ds) (r # rs) \<and>
    reports (att_env (bearer w')) = reports (att_env (bearer w)) @ map (\<lambda>r. (fst r, Registered 0)) (r # rs)"
proof -
  let ?c = "c\<lparr>cl_refs := cl_refs c + 1\<rparr>" and ?ch = "ch\<lparr>ccc_write_id := 0\<rparr>"
  let ?w1 = "upd (\<lambda>s. s\<lparr>chrcs := (chrcs s)(p \<mapsto> ?ch), client := Some ?c\<rparr>) w"
  have e: "entry (notifies (bearer ?w1)) p d r" "entries (notifies (bearer ?w1)) p ds rs" using assms(9) by simp_all
  obtain n where n: "notifies (bearer w) d = Some n" "nd_refs n = 2" "nd_chrc n = p"
    using assms(9,10) by (auto simp: entry_def)
  have ch1: "chrcs (bearer ?w1) p = Some ?ch" "ok (att_env (bearer ?w1))" using assms(1) by simp_all
  obtain f where f: "complete_notify_request G d ?w1 = Some (upd (\<lambda>s. s\<lparr>chrcs := (chrcs s)(p \<mapsto> ?ch\<lparr>notify_count := notify_count ?ch + 1\<rparr>),
      notifies := (notifies s)(d \<mapsto> n\<lparr>nd_att_id := 0\<rparr>), att_env := f\<rparr>) ?w1)"
      "ok f" "sent f = sent (att_env (bearer ?w1))" "reports f = reports (att_env (bearer ?w1)) @ [(fst r, Registered 0)]"
    using complete_one [OF ch1(2,1) e(1)] n(1) by auto
  let ?ch2 = "?ch\<lparr>notify_count := 1, reg_notify_queue := []\<rparr>"
  let ?w2 = "upd (\<lambda>s. s\<lparr>notifies := (notifies s)(d \<mapsto> n\<lparr>nd_att_id := 0\<rparr>), att_env := f, chrcs := (chrcs s)(p \<mapsto> ?ch2)\<rparr>) ?w1"
  have e2: "entries (notifies (bearer ?w2)) p ds rs"
    by (rule entries_mono [OF e(2)]) (use n(1) in \<open>auto simp: entry_def\<close>)
  have ch2: "chrcs (bearer ?w2) p = Some ?ch2" "ok (att_env (bearer ?w2))" using f(2) by simp_all
  obtain w3 where w3: "each (complete_notify_request G) ds ?w2 = Some w3" "ok (att_env (bearer w3))"
      "sent (att_env (bearer w3)) = sent f" "client (bearer w3) = Some ?c"
      "chrcs (bearer w3) p = Some (?ch2\<lparr>notify_count := notify_count ?ch2 + int (length ds)\<rparr>)"
      "same_registrations (notifies (bearer ?w2)) (notifies (bearer w3))"
      "reports (att_env (bearer w3)) = reports f @ map (\<lambda>r. (fst r, Registered 0)) rs"
    using complete_each [OF ch2(2,1) e2] by (auto simp del: fun_upd_apply)
  have "notifies (bearer ?w2) d = Some (n\<lparr>nd_att_id := 0\<rparr>)" by simp
  then obtain n3 where n3: "notifies (bearer w3) d = Some n3" "n3\<lparr>nd_att_id := 0\<rparr> = n\<lparr>nd_att_id := 0\<rparr>\<lparr>nd_att_id := 0\<rparr>"
    using same_registration [OF w3(6)] by blast
  have refs: "nd_refs n3 = 2" using same_fields(4) [OF n3(2)] n(2) by simp
  let ?w4 = "upd (\<lambda>s. s\<lparr>client := Some c, notifies := (notifies s)(d \<mapsto> n3\<lparr>nd_refs := 1\<rparr>)\<rparr>) w3"
  have "entry (notifies (bearer ?w2)) p d r" using assms(9) n by (simp add: entry_def)
  then have "entries (notifies (bearer w3)) p (d # ds) (r # rs)"
    using entries_mono [OF e2 same_entry [OF w3(6)]] same_entry [OF w3(6)] by simp
  then have e4: "entries (notifies (bearer ?w4)) p (d # ds) (r # rs)"
    by (rule entries_mono) (use n3(1) in \<open>auto simp: entry_def\<close>)
  have "gc_respond G (EnableCccCb d) opcode pdu w = Some ?w4"
    using assms(2-8) n(1,3) n3(1) refs f(1) w3(1,4)
    by (simp add: gc_respond_def enable_ccc_callback_def check_def bt_gatt_client_ref_def bt_gatt_client_unref_def unref_first)
  then show ?thesis
    using w3(2,3,5,7) f(3,4) e4 assms(5) by (intro exI [of _ ?w4]) simp
qed

end

section \<open>Notified values\<close>

lemma entry_value:
  "entry h p d r \<Longrightarrow> \<exists>n. h d = Some n \<and> nd_chrc n = p \<and> nd_notify n = Some (UpperNotify (snd r))"
  unfolding entry_def by blast

lemma behind: "x \<notin> set pre \<Longrightarrow> tl (dropWhile (\<lambda>y. y \<noteq> x) (pre @ x # ds)) = ds"
  by (subst dropWhile_append2) auto

text \<open>The value of a notification, its handle and its length.\<close>

definition value_pdu :: "u16 \<Rightarrow> bytes \<Rightarrow> bytes" where
  "value_pdu handle val = put_le16 handle @ val"

context value_link
begin

lemma handled:
  assumes "ok (att_env (bearer w))" "entry (notifies (bearer w)) p d r" "chrcs (bearer w) p = Some ch" "length val < 65534"
  shows "\<exists>e. notify_handler G (value_pdu (value_handle ch) val) d w = Some (upd (\<lambda>s. s\<lparr>att_env := e\<rparr>) w) \<and> ok e \<and>
    sent e = sent (att_env (bearer w)) \<and>
    reports e = reports (att_env (bearer w)) @ [(snd r, Notified (value_handle ch) (nonempty val) (word_of_nat (length val)))]"
proof -
  obtain n where n: "notifies (bearer w) d = Some n" "nd_chrc n = p" "nd_notify n = Some (UpperNotify (snd r))"
    using entry_value [OF assms(2)] by blast
  let ?ev = "Notified (value_handle ch) (nonempty val) (word_of_nat (length val))"
  obtain e where e: "gc_call G (snd r) ?ev w = Some (upd (\<lambda>s. s\<lparr>att_env := e\<rparr>) w)" "ok e"
      "sent e = sent (att_env (bearer w))" "reports e = reports (att_env (bearer w)) @ [(snd r, ?ev)]"
    using call [OF assms(1), of "snd r" ?ev] by auto
  have "(word_of_nat (2 + length val) :: u16) - 2 = word_of_nat (length val)" by simp
  then have "notify_handler G (value_pdu (value_handle ch) val) d w = gc_call G (snd r) ?ev w"
    using n assms(3) by (auto simp: notify_handler_def value_pdu_def le16.get_put le16.put_width nonempty_def Let_def)
  then show ?thesis using e by auto
qed

lemma delivered_each:
  assumes "ok (att_env (bearer w))" "client (bearer w) = Some c" "notify_regs c = pre @ ds" "distinct (pre @ ds)"
    and "entries (notifies (bearer w)) p ds rs" "chrcs (bearer w) p = Some ch" "length val < 65534"
  shows "\<exists>e. foreach_registered G (value_pdu (value_handle ch) val) ds w = Some (upd (\<lambda>s. s\<lparr>att_env := e\<rparr>) w) \<and> ok e \<and>
    sent e = sent (att_env (bearer w)) \<and> reports e = reports (att_env (bearer w)) @
      map (\<lambda>r. (snd r, Notified (value_handle ch) (nonempty val) (word_of_nat (length val)))) rs"
  using assms(1-6)
proof (induction ds arbitrary: rs pre w)
  case Nil
  then show ?case by (intro exI [of _ "att_env (bearer w)"]) (subst foreach_registered.simps, simp add: upd_def)
next
  case (Cons d ds)
  obtain r rs' where rs: "rs = r # rs'" using Cons.prems(5) by (cases rs) auto
  have ent: "entry (notifies (bearer w)) p d r" "entries (notifies (bearer w)) p ds rs'" using Cons.prems(5) rs by simp_all
  obtain e where e: "notify_handler G (value_pdu (value_handle ch) val) d w = Some (upd (\<lambda>s. s\<lparr>att_env := e\<rparr>) w)" "ok e"
      "sent e = sent (att_env (bearer w))"
      "reports e = reports (att_env (bearer w)) @ [(snd r, Notified (value_handle ch) (nonempty val) (word_of_nat (length val)))]"
    using handled [OF Cons.prems(1) ent(1) Cons.prems(6) assms(7)] by blast
  let ?w = "upd (\<lambda>s. s\<lparr>att_env := e\<rparr>) w"
  have "d \<notin> set pre" using Cons.prems(4) by simp
  then have step: "foreach_registered G (value_pdu (value_handle ch) val) (d # ds) w =
      foreach_registered G (value_pdu (value_handle ch) val) ds ?w"
    using e(1) Cons.prems(2,3) behind [of d pre ds] by (subst foreach_registered.simps) simp
  have pre: "notify_regs c = (pre @ [d]) @ ds" "distinct ((pre @ [d]) @ ds)" using Cons.prems(3,4) by simp_all
  have "entries (notifies (bearer ?w)) p ds rs'" using ent(2) by simp
  then obtain e' where "foreach_registered G (value_pdu (value_handle ch) val) ds ?w = Some (upd (\<lambda>s. s\<lparr>att_env := e'\<rparr>) ?w)" "ok e'"
      "sent e' = sent e" "reports e' = reports e @
        map (\<lambda>r. (snd r, Notified (value_handle ch) (nonempty val) (word_of_nat (length val)))) rs'"
    using Cons.IH [OF _ _ pre, of ?w rs'] e(2) Cons.prems(2,6) by auto
  then show ?case using e(3,4) rs step by (intro exI [of _ e']) simp
qed

lemma delivered:
  assumes "ok (att_env (bearer w))" "client (bearer w) = Some c" "0 < cl_refs c" "notify_regs c = ds" "distinct ds"
    and "entries (notifies (bearer w)) p ds rs" "chrcs (bearer w) p = Some ch" "length val < 65534"
  shows "\<exists>e. notify_cb G BT_ATT_OP_HANDLE_VAL_NOT (value_pdu (value_handle ch) val) w = Some (upd (\<lambda>s. s\<lparr>att_env := e\<rparr>) w) \<and> ok e \<and>
    sent e = sent (att_env (bearer w)) \<and> reports e = reports (att_env (bearer w)) @
      map (\<lambda>r. (snd r, Notified (value_handle ch) (nonempty val) (word_of_nat (length val)))) rs"
proof -
  let ?c = "c\<lparr>cl_refs := cl_refs c + 1\<rparr>" and ?w = "upd (\<lambda>s. s\<lparr>client := Some (c\<lparr>cl_refs := cl_refs c + 1\<rparr>)\<rparr>) w"
  obtain e where e: "foreach_registered G (value_pdu (value_handle ch) val) ds ?w = Some (upd (\<lambda>s. s\<lparr>att_env := e\<rparr>) ?w)" "ok e"
      "sent e = sent (att_env (bearer w))" "reports e = reports (att_env (bearer w)) @
      map (\<lambda>r. (snd r, Notified (value_handle ch) (nonempty val) (word_of_nat (length val)))) rs"
    using delivered_each [of ?w ?c "[]" ds p rs ch val] assms by auto
  have "upd (\<lambda>s. s\<lparr>att_env := e, client := Some c\<rparr>) w = upd (\<lambda>s. s\<lparr>att_env := e\<rparr>) w" using assms(2) by (simp add: upd_def)
  then have "notify_cb G BT_ATT_OP_HANDLE_VAL_NOT (value_pdu (value_handle ch) val) w = Some (upd (\<lambda>s. s\<lparr>att_env := e\<rparr>) w)"
    using e(1) assms(2-4)
    by (simp add: notify_cb_def bt_gatt_client_ref_def bt_gatt_client_unref_def BT_ATT_OP_HANDLE_VAL_NOT_def BT_ATT_OP_HANDLE_VAL_IND_def)
  then show ?thesis using e(2-4) by auto
qed

end

section \<open>Registering\<close>

definition accepts :: "ptr \<Rightarrow> bt_gatt_client \<Rightarrow> bool" where
  "accepts p c \<longleftrightarrow> cl_att c \<and> cl_db c \<and> ready c \<and> \<not> in_svc_chngd c \<and> 0 < cl_refs c \<and> notify_chrcs c = [p]"

text \<open>Registrations that wait for the answer to the one write; the first of them holds a reference for it.\<close>

definition waiting :: "('e \<Rightarrow> (byte \<times> bytes \<times> gc_op) list) \<Rightarrow> ptr \<Rightarrow> notify_chrc \<Rightarrow> ptr \<Rightarrow> ptr list \<Rightarrow> (nat \<times> nat) list \<Rightarrow> 'e world \<Rightarrow> bool" where
  "waiting sent p ch d ds rs w \<longleftrightarrow> (\<exists>i c. i \<noteq> 0 \<and> chrcs (bearer w) p = Some (ch\<lparr>ccc_write_id := i, reg_notify_queue := ds\<rparr>) \<and>
     client (bearer w) = Some c \<and> accepts p c \<and> notify_regs c = d # ds) \<and>
     distinct (d # ds) \<and> (\<forall>x\<in>set (d # ds). x < gs_next (bearer w)) \<and> entries (notifies (bearer w)) p (d # ds) rs \<and>
     (\<exists>n. notifies (bearer w) d = Some n \<and> nd_refs n = 2) \<and>
     sent (att_env (bearer w)) = [(BT_ATT_OP_WRITE_REQ, put_le16 (ccc_handle ch) @ [ccc_value (properties ch), 0], EnableCccCb d)]"

text \<open>The numbers of registrations that are still free.\<close>

definition room :: "nat \<Rightarrow> 'e world \<Rightarrow> bool" where
  "room k w \<longleftrightarrow> (\<exists>c. client (bearer w) = Some c \<and> max 1 (next_reg_id c) + int k < 2 ^ 31)"

definition fresh_chrc :: "notify_chrc \<Rightarrow> bool" where
  "fresh_chrc ch \<longleftrightarrow> notify_count ch = 0 \<and> ccc_write_id ch = 0 \<and> reg_notify_queue ch = [] \<and> value_handle ch \<noteq> 0 \<and>
     ccc_handle ch \<noteq> 0 \<and> ccc_value (properties ch) \<noteq> 0"

lemma registration_number:
  assumes "1 \<le> i" "i < 2 ^ 31 - 1"
  shows "(word_of_int i :: u32) \<noteq> 0"
proof -
  have "uint (word_of_int i :: u32) = i" using assms by (simp add: uint_word_of_int)
  then show ?thesis using assms by force
qed

context value_link
begin

lemma register_waiting:
  assumes "ok (att_env (bearer w))" "waiting sent p ch d ds rs w" "fresh_chrc ch" "room (Suc k) w"
  shows "\<exists>i w'. bt_gatt_client_register_notify G (value_handle ch) (Some (UpperRegistered (fst r))) (Some (UpperNotify (snd r))) None w = Some (i, w') \<and>
    i \<noteq> 0 \<and> ok (att_env (bearer w')) \<and> reports (att_env (bearer w')) = reports (att_env (bearer w)) \<and>
    waiting sent p ch d (ds @ [gs_next (bearer w)]) (rs @ [r]) w' \<and> room k w'"
proof -
  obtain i c n where w: "i \<noteq> 0" "chrcs (bearer w) p = Some (ch\<lparr>ccc_write_id := i, reg_notify_queue := ds\<rparr>)"
      "client (bearer w) = Some c" "accepts p c" "notify_regs c = d # ds" "notifies (bearer w) d = Some n" "nd_refs n = 2"
    and rest: "distinct (d # ds)" "\<forall>x\<in>set (d # ds). x < gs_next (bearer w)" "entries (notifies (bearer w)) p (d # ds) rs"
      "sent (att_env (bearer w)) = [(BT_ATT_OP_WRITE_REQ, put_le16 (ccc_handle ch) @ [ccc_value (properties ch), 0], EnableCccCb d)]"
    using assms(2) unfolding waiting_def by blast
  let ?x = "gs_next (bearer w)" and ?j = "max 1 (next_reg_id c)"
  let ?n = "\<lparr>nd_id = word_of_int ?j, nd_att_id = 0, nd_refs = 1, nd_chrc = p, nd_callback = UpperRegistered (fst r),
    nd_notify = Some (UpperNotify (snd r)), nd_destroy = None\<rparr>"
  let ?c = "c\<lparr>notify_regs := d # ds @ [?x], next_reg_id := ?j + 1\<rparr>"
  let ?w = "upd (\<lambda>s. s\<lparr>client := Some ?c, gs_next := ?x + 1, notifies := (notifies s)(?x \<mapsto> ?n),
    chrcs := (chrcs s)(p \<mapsto> ch\<lparr>ccc_write_id := i, reg_notify_queue := ds @ [?x]\<rparr>)\<rparr>) w"
  have j: "1 \<le> ?j" "?j < 2 ^ 31 - 1" using assms(4) w(3) by (auto simp: room_def)
  have max: "(if next_reg_id c < 1 then 1 else next_reg_id c) = ?j" by simp
  have "bt_gatt_client_register_notify G (value_handle ch) (Some (UpperRegistered (fst r))) (Some (UpperNotify (snd r))) None w =
      Some (word_of_int ?j, ?w)"
    using w j assms(3) unfolding bt_gatt_client_register_notify_def
    by (simp add: accepts_def fresh_chrc_def alloc check_def max Let_def)
  moreover have "distinct (d # ds @ [?x])" "\<forall>x\<in>set (d # ds @ [?x]). x < Suc ?x" using rest(1,2) by auto
  moreover have "entries ((notifies (bearer w))(?x \<mapsto> ?n)) p (d # ds @ [?x]) (rs @ [r])"
  proof -
    have "length (d # ds) = length rs" using rest(3) unfolding entries_def by (rule list_all2_lengthD)
    moreover have "entries ((notifies (bearer w))(?x \<mapsto> ?n)) p (d # ds) rs"
      by (rule entries_mono [OF rest(3)]) (use rest(2) in \<open>auto simp: entry_def\<close>)
    ultimately show ?thesis using entries_append [of "d # ds" rs] by (simp add: entry_def)
  qed
  moreover have "d \<noteq> ?x" using rest(2) by auto
  ultimately show ?thesis
    using w assms(1,4) rest(4) registration_number [OF j]
    by (intro exI [of _ "word_of_int ?j"] exI [of _ ?w]) (auto simp: waiting_def accepts_def room_def)
qed

end

context value_link
begin

lemma att_send_ok:
  assumes "ok (att_env (bearer w))" "client (bearer w) = Some c" "cl_att c" "length pdu < unat mtu"
    and "takes opcode op (sent (att_env (bearer w)))"
  shows "\<exists>i e. i \<noteq> 0 \<and> att_send G opcode pdu op w = Some (i, upd (\<lambda>s. s\<lparr>att_env := e\<rparr>) w) \<and> ok e \<and>
    sent e = sent (att_env (bearer w)) @ [(opcode, pdu, op)] \<and> reports e = reports (att_env (bearer w))"
proof -
  have "unat mtu < 65536" using unsigned_less [of mtu] by simp
  then have "take (length pdu mod 2 ^ 16) pdu = pdu" using assms(4) by simp
  then show ?thesis
    using send [OF assms(1,4,5)] assms(2,3) by (auto simp: att_send_def)
qed

lemma register_first:
  assumes "ok (att_env (bearer w))" "sent (att_env (bearer w)) = []" "client (bearer w) = Some c" "accepts p c" "notify_regs c = []"
    and "chrcs (bearer w) p = Some ch" "fresh_chrc ch" "5 < unat mtu" "room (Suc k) w"
  shows "\<exists>i w'. bt_gatt_client_register_notify G (value_handle ch) (Some (UpperRegistered (fst r))) (Some (UpperNotify (snd r))) None w = Some (i, w') \<and>
    i \<noteq> 0 \<and> ok (att_env (bearer w')) \<and> reports (att_env (bearer w')) = reports (att_env (bearer w)) \<and>
    waiting sent p ch (gs_next (bearer w)) [] [r] w' \<and> room k w'"
proof -
  let ?x = "gs_next (bearer w)" and ?j = "max 1 (next_reg_id c)"
  let ?n = "\<lparr>nd_id = word_of_int ?j, nd_att_id = 0, nd_refs = 2, nd_chrc = p, nd_callback = UpperRegistered (fst r),
    nd_notify = Some (UpperNotify (snd r)), nd_destroy = None\<rparr>"
  let ?c = "c\<lparr>notify_regs := [?x], next_reg_id := ?j + 1\<rparr>"
  let ?w = "upd (\<lambda>s. s\<lparr>client := Some ?c, gs_next := ?x + 1, notifies := (notifies s)(?x \<mapsto> ?n)\<rparr>) w"
  let ?pdu = "put_le16 (ccc_handle ch) @ [ccc_value (properties ch), 0]"
  have cl: "client (bearer ?w) = Some ?c" "cl_att ?c" "ok (att_env (bearer ?w))" using assms(1,4) by (simp_all add: accepts_def)
  have "length ?pdu < unat mtu" using assms(8) by (simp add: le16.put_width)
  then obtain i e where e: "i \<noteq> 0" "att_send G BT_ATT_OP_WRITE_REQ ?pdu (EnableCccCb ?x) ?w = Some (i, upd (\<lambda>s. s\<lparr>att_env := e\<rparr>) ?w)"
      "ok e" "sent e = [(BT_ATT_OP_WRITE_REQ, ?pdu, EnableCccCb ?x)]" "reports e = reports (att_env (bearer w))"
    using att_send_ok [OF cl(3,1,2), of ?pdu BT_ATT_OP_WRITE_REQ "EnableCccCb ?x"] assms(2) by auto
  let ?w' = "upd (\<lambda>s. s\<lparr>att_env := e, notifies := (notifies s)(?x \<mapsto> ?n\<lparr>nd_att_id := i\<rparr>),
    chrcs := (chrcs s)(p \<mapsto> ch\<lparr>ccc_write_id := i\<rparr>)\<rparr>) ?w"
  have j: "1 \<le> ?j" "?j < 2 ^ 31 - 1" using assms(3,9) by (auto simp: room_def)
  have max: "(if next_reg_id c < 1 then 1 else next_reg_id c) = ?j" by simp
  have same: "ch\<lparr>ccc_write_id := i, reg_notify_queue := []\<rparr> = ch\<lparr>ccc_write_id := i\<rparr>"
    using assms(7) by (cases ch) (simp add: fresh_chrc_def)
  have "bt_gatt_client_register_notify G (value_handle ch) (Some (UpperRegistered (fst r))) (Some (UpperNotify (snd r))) None w =
      Some (word_of_int ?j, ?w')"
    using e(1,2) assms(3-7) j unfolding bt_gatt_client_register_notify_def
    by (simp add: accepts_def fresh_chrc_def alloc check_def max Let_def notify_data_write_ccc_def notify_data_ref_def)
  then show ?thesis
    using assms(3,4,9) e(1,3-5) same registration_number [OF j]
    by (intro exI [of _ "word_of_int ?j"] exI [of _ ?w']) (auto simp: waiting_def accepts_def room_def entry_def)
qed

lemma register_rest:
  assumes "ok (att_env (bearer w))" "waiting sent p ch d ds rs w" "fresh_chrc ch" "room (length qs) w"
  shows "\<exists>ds' w'. register_all G (value_handle ch) qs w = Some w' \<and> ok (att_env (bearer w')) \<and>
    reports (att_env (bearer w')) = reports (att_env (bearer w)) \<and> waiting sent p ch d ds' (rs @ qs) w'"
  using assms(1,2,4)
proof (induction qs arbitrary: w ds rs)
  case (Cons r qs)
  have "room (Suc (length qs)) w" using Cons.prems(3) by simp
  then obtain i w' where w': "bt_gatt_client_register_notify G (value_handle ch) (Some (UpperRegistered (fst r))) (Some (UpperNotify (snd r))) None w = Some (i, w')"
      "i \<noteq> 0" "ok (att_env (bearer w'))" "reports (att_env (bearer w')) = reports (att_env (bearer w))"
      "waiting sent p ch d (ds @ [gs_next (bearer w)]) (rs @ [r]) w'" "room (length qs) w'"
    using register_waiting [OF Cons.prems(1,2) assms(3), of "length qs" r] by blast
  show ?case
    using Cons.IH [OF w'(3,5,6)] w'(1,2,4) by (cases r) auto
qed auto

end

section \<open>From registering to the values\<close>

lemma write_answer_is_no_error: "BT_ATT_OP_WRITE_RSP \<noteq> BT_ATT_OP_ERROR_RSP"
  by (simp add: BT_ATT_OP_WRITE_RSP_def BT_ATT_OP_ERROR_RSP_def)

text \<open>C19 Registrations for a characteristic share its configuration: however many functions register before
  the answer comes, one write of the client configuration is sent and nobody is told anything; the
  answer tells all of them, in the order of registration, that they are registered; and a value notified
  afterwards is handed to all of them, once each and in that order.\<close>

theorem notifications_shared:
  assumes "value_link G sent pop ok reports mtu" "ok (att_env (bearer w))" "sent (att_env (bearer w)) = []" "5 < unat mtu"
    and "client (bearer w) = Some c" "accepts p c" "notify_regs c = []" "chrcs (bearer w) p = Some ch" "fresh_chrc ch"
    and "max 1 (next_reg_id c) + int (length (r # rs)) < 2 ^ 31" "length val < 65534"
  shows "\<exists>d w1 w2 w3. register_all G (value_handle ch) (r # rs) w = Some w1 \<and>
    sent (att_env (bearer w1)) = [(BT_ATT_OP_WRITE_REQ, put_le16 (ccc_handle ch) @ [ccc_value (properties ch), 0], EnableCccCb d)] \<and>
    reports (att_env (bearer w1)) = reports (att_env (bearer w)) \<and>
    gc_respond G (EnableCccCb d) BT_ATT_OP_WRITE_RSP None (upd_att pop w1) = Some w2 \<and> sent (att_env (bearer w2)) = [] \<and>
    reports (att_env (bearer w2)) = reports (att_env (bearer w)) @ map (\<lambda>r. (fst r, Registered 0)) (r # rs) \<and>
    notify_cb G BT_ATT_OP_HANDLE_VAL_NOT (value_pdu (value_handle ch) val) w2 = Some w3 \<and>
    reports (att_env (bearer w3)) = reports (att_env (bearer w2)) @
      map (\<lambda>r. (snd r, Notified (value_handle ch) (nonempty val) (word_of_nat (length val)))) (r # rs)"
proof -
  have "room (Suc (length rs)) w" using assms(5,10) by (simp add: room_def)
  then obtain i w0 where w0: "bt_gatt_client_register_notify G (value_handle ch) (Some (UpperRegistered (fst r))) (Some (UpperNotify (snd r))) None w = Some (i, w0)"
      "i \<noteq> 0" "ok (att_env (bearer w0))" "reports (att_env (bearer w0)) = reports (att_env (bearer w))"
      "waiting sent p ch (gs_next (bearer w)) [] [r] w0" "room (length rs) w0"
    using value_link.register_first [OF assms(1-3,5-9,4)] by blast
  let ?d = "gs_next (bearer w)"
  obtain ds w1 where w1: "register_all G (value_handle ch) rs w0 = Some w1" "ok (att_env (bearer w1))"
      "reports (att_env (bearer w1)) = reports (att_env (bearer w0))" "waiting sent p ch ?d ds ([r] @ rs) w1"
    using value_link.register_rest [OF assms(1) w0(3,5) assms(9) w0(6)] by blast
  then obtain j c' where s: "j \<noteq> 0" "chrcs (bearer w1) p = Some (ch\<lparr>ccc_write_id := j, reg_notify_queue := ds\<rparr>)"
      "client (bearer w1) = Some c'" "accepts p c'" "notify_regs c' = ?d # ds" "distinct (?d # ds)"
      "entries (notifies (bearer w1)) p (?d # ds) (r # rs)" "\<exists>n. notifies (bearer w1) ?d = Some n \<and> nd_refs n = 2"
      "sent (att_env (bearer w1)) = [(BT_ATT_OP_WRITE_REQ, put_le16 (ccc_handle ch) @ [ccc_value (properties ch), 0], EnableCccCb ?d)]"
    unfolding waiting_def by (auto simp del: entries_simps)
  let ?w = "upd_att pop w1" and ?ch = "ch\<lparr>ccc_write_id := j, reg_notify_queue := ds\<rparr>"
  have w: "ok (att_env (bearer ?w))" "sent (att_env (bearer ?w)) = []" "reports (att_env (bearer ?w)) = reports (att_env (bearer w))"
    using value_link.pop [OF assms(1) w1(2)] s(9) w1(3) w0(4) by simp_all
  have ready: "client (bearer ?w) = Some c'" "0 < cl_refs c'" "chrcs (bearer ?w) p = Some ?ch"
      "notify_count ?ch = 0" "ccc_write_id ?ch \<noteq> 0" "reg_notify_queue ?ch = ds"
      "entries (notifies (bearer ?w)) p (?d # ds) (r # rs)" "\<exists>n. notifies (bearer ?w) ?d = Some n \<and> nd_refs n = 2"
    using s assms(9) by (simp_all add: accepts_def fresh_chrc_def)
  obtain w2 where w2: "gc_respond G (EnableCccCb ?d) BT_ATT_OP_WRITE_RSP None ?w = Some w2" "ok (att_env (bearer w2))"
      "sent (att_env (bearer w2)) = []" "client (bearer w2) = Some c'"
      "chrcs (bearer w2) p = Some (?ch\<lparr>ccc_write_id := 0, reg_notify_queue := [], notify_count := 1 + int (length ds)\<rparr>)"
      "entries (notifies (bearer w2)) p (?d # ds) (r # rs)"
      "reports (att_env (bearer w2)) = reports (att_env (bearer w)) @ map (\<lambda>r. (fst r, Registered 0)) (r # rs)"
    using value_link.enabled [OF assms(1) w(1) ready(1-6) write_answer_is_no_error ready(7,8), of None] unfolding w(2,3) by blast
  obtain e where "notify_cb G BT_ATT_OP_HANDLE_VAL_NOT (value_pdu (value_handle ch) val) w2 = Some (upd (\<lambda>s. s\<lparr>att_env := e\<rparr>) w2)"
      "reports e = reports (att_env (bearer w2)) @
        map (\<lambda>r. (snd r, Notified (value_handle ch) (nonempty val) (word_of_nat (length val)))) (r # rs)"
    using value_link.delivered [OF assms(1) w2(2,4) ready(2) s(5,6) w2(6,5) assms(11)] by auto
  moreover have "register_all G (value_handle ch) (r # rs) w = Some w1" using w0(1,2) w1(1) by (cases r) simp
  ultimately show ?thesis
    using s(9) w0(4) w1(3) w2(1,3,7)
    by (intro exI [of _ ?d] exI [of _ w1] exI [of _ w2] exI [of _ "upd (\<lambda>s. s\<lparr>att_env := e\<rparr>) w2"]) simp
qed

definition notified_world :: "demo world" where
  "notified_world = upd (\<lambda>s. s\<lparr>client := Some (demo_client\<lparr>notify_chrcs := [1]\<rparr>), gs_next := 2,
     chrcs := [1 \<mapsto> \<lparr>value_handle = 10, ccc_handle = 11, properties = 0x10, notify_count = 0, reg_notify_queue = [], ccc_write_id = 0\<rparr>]\<rparr>) value_world"

lemma notifications_shared_witness:
  "\<exists>d w1 w2 w3. register_all value_host 10 [(4, 5), (6, 7)] notified_world = Some w1 \<and>
    v_sent (att_env (bearer w1)) = [(BT_ATT_OP_WRITE_REQ, [11, 0, 1, 0], EnableCccCb d)] \<and> v_reports (att_env (bearer w1)) = [] \<and>
    gc_respond value_host (EnableCccCb d) BT_ATT_OP_WRITE_RSP None (upd_att v_pop w1) = Some w2 \<and> v_sent (att_env (bearer w2)) = [] \<and>
    v_reports (att_env (bearer w2)) = [(4, Registered 0), (6, Registered 0)] \<and>
    notify_cb value_host BT_ATT_OP_HANDLE_VAL_NOT (value_pdu 10 [1, 2]) w2 = Some w3 \<and>
    v_reports (att_env (bearer w3)) = v_reports (att_env (bearer w2)) @ [(5, Notified 10 (Some [1, 2]) 2), (7, Notified 10 (Some [1, 2]) 2)]"
  using notifications_shared [OF demo_is_value_link, of notified_world "demo_client\<lparr>notify_chrcs := [1]\<rparr>" 1
      "\<lparr>value_handle = 10, ccc_handle = 11, properties = 0x10, notify_count = 0, reg_notify_queue = [], ccc_write_id = 0\<rparr>" "(4, 5)" "[(6, 7)]" "[1, 2]"]
  by (simp add: notified_world_def value_world_def demo_client_def new_client_def accepts_def fresh_chrc_def ccc_value_def
      BT_GATT_CHRC_PROP_NOTIFY_def BT_GATT_CHRC_PROP_INDICATE_def nonempty_def put_le16_def)

end
