(* ===== verification/ClientTransport.thy ===== *)
theory ClientTransport
  imports Update ClientNotified
begin

text \<open>
  The GATT client as the connection that the program writes through. \<open>ble.c\<close> was modelled over a
  transport; here that transport is the model of \<^verbatim>\<open>gatt-client.c\<close> with a peripheral behind its bearer.
  What a peripheral answers to single ATT operations is enough for the transfer to work: the requests
  of \<open>ble.c\<close> become write requests, the commands are carried before the next request, and what is
  notified reaches the program through its registration.
\<close>

section \<open>The client with a peripheral\<close>

text \<open>
  A peripheral is given an operation and returns what it notifies before the answer, the answer, and what
  it notifies after it; a command has no answer. \<open>arrivals\<close> is what it sent and the client has not read.
\<close>

datatype arrival = Answered byte "bytes option" | Pushed bytes

type_synonym 's peripheral = "'s \<Rightarrow> byte \<Rightarrow> bytes \<Rightarrow> bytes list \<times> (byte \<times> bytes option) \<times> bytes list \<times> 's"

record ('e, 's) stack =
  cl :: "'e ClientBase.world"
  peer :: 's
  arrivals :: "arrival list"

text \<open>The functions that \<^verbatim>\<open>ble.c\<close> hands to the client, and what they are told there: the end of a write, of a
  registration, a notified value, and readiness.\<close>

definition ble_event_of :: "nat \<times> gc_event \<Rightarrow> ble_event list" where
  "ble_event_of r = (case r of
     (f, Finished success ecode) \<Rightarrow> if f = 0 then [ble_event.WriteCb success ecode] else if f = 3 then [ReadyCb success ecode] else []
   | (f, Registered ecode) \<Rightarrow> if f = 1 then [RegisterNotifyCb ecode] else []
   | (f, Notified h val n) \<Rightarrow> if f = 2 then [NotifyCb h (take (unat n) (case val of None \<Rightarrow> [] | Some v \<Rightarrow> v))] else []
   | _ \<Rightarrow> [])"

definition told :: "('e \<Rightarrow> (nat \<times> gc_event) list) \<Rightarrow> 'e ClientBase.world \<Rightarrow> 'e ClientBase.world \<Rightarrow> ble_event list" where
  "told reports w w' = concat (map ble_event_of (drop (length (reports (att_env (bearer w)))) (reports (att_env (bearer w')))))"

text \<open>One event of the main loop: what arrived first is read; when nothing has arrived, the operation that
  was sent first is handed to the peripheral. The bearer releases a command when it was sent.\<close>

definition gatt_poll :: "'e gc_host \<Rightarrow> ('e \<Rightarrow> (byte \<times> bytes \<times> gc_op) list) \<Rightarrow> ('e \<Rightarrow> 'e) \<Rightarrow> ('e \<Rightarrow> (nat \<times> gc_event) list) \<Rightarrow>
    's peripheral \<Rightarrow> ('e, 's) stack \<Rightarrow> (ble_event list \<times> ('e, 's) stack) option" where
  "gatt_poll G sent pop reports P e = (case arrivals e of
     Pushed pdu # q \<Rightarrow>
       map_option (\<lambda>w. (told reports (cl e) w, e\<lparr>cl := w, arrivals := q\<rparr>)) (ClientDiscovery.notify_cb G BT_ATT_OP_HANDLE_VAL_NOT pdu (cl e))
   | Answered rsp answer # q \<Rightarrow> (case sent (att_env (bearer (cl e))) of
       [] \<Rightarrow> None
     | (_, _, op) # _ \<Rightarrow>
         map_option (\<lambda>w. (told reports (cl e) w, e\<lparr>cl := w, arrivals := q\<rparr>)) (gc_respond G op rsp answer (upd_att pop (cl e))))
   | [] \<Rightarrow> (case sent (att_env (bearer (cl e))) of
       [] \<Rightarrow> None
     | (opcode, pdu, op) # _ \<Rightarrow> (case P (peer e) opcode pdu of (us, (rsp, answer), vs, s) \<Rightarrow>
         if opcode = BT_ATT_OP_WRITE_CMD
         then map_option (\<lambda>w. (told reports (cl e) w, e\<lparr>cl := w, peer := s, arrivals := map Pushed (us @ vs)\<rparr>))
                (release_op G op (upd_att pop (cl e)))
         else Some ([], e\<lparr>peer := s, arrivals := map Pushed us @ [Answered rsp answer] @ map Pushed vs\<rparr>))))"

text \<open>A call of the client; an undefined one counts as a failure, which the results below rule out.\<close>

definition client_call :: "('e \<Rightarrow> (nat \<times> gc_event) list) \<Rightarrow> ('e, 's) stack \<Rightarrow> (u32 \<times> 'e ClientBase.world) option \<Rightarrow>
    u32 \<times> ble_event list \<times> ('e, 's) stack" where
  "client_call reports e r = (case r of None \<Rightarrow> (0, [], e) | Some (i, w) \<Rightarrow> (i, told reports (cl e) w, e\<lparr>cl := w\<rparr>))"

definition client_transport :: "'e gc_host \<Rightarrow> ('e \<Rightarrow> (byte \<times> bytes \<times> gc_op) list) \<Rightarrow> ('e \<Rightarrow> 'e) \<Rightarrow> ('e \<Rightarrow> (nat \<times> gc_event) list) \<Rightarrow>
    's peripheral \<Rightarrow> ('e, 's) stack transport" where
  "client_transport G sent pop reports P =
     \<lparr>is_ready = (\<lambda>e. bt_gatt_client_is_ready (cl e) = Some True),
      write_value = (\<lambda>h v e. client_call reports e (bt_gatt_client_write_value G h v (word_of_nat (length v)) (Some 0) None (cl e))),
      write_without_response = (\<lambda>h v e. case client_call reports e
        (bt_gatt_client_write_without_response G h False v (word_of_nat (length v)) (cl e)) of (i, _, e) \<Rightarrow> (i, e)),
      register_notify = (\<lambda>h e. client_call reports e
        (bt_gatt_client_register_notify G h (Some (UpperRegistered 1)) (Some (UpperNotify 2)) None (cl e))),
      poll_events = gatt_poll G sent pop reports P,
      database = (\<lambda>e. ClientBase.gatt_state.database (bearer (cl e)))\<rparr>"

section \<open>What the peripheral does\<close>

text \<open>The peripheral's part of a request of the transfer: a write request to the control point is answered, and the
  response is notified before or after, among other notifications. Data is taken without a word.\<close>

definition stray_push :: "u16 \<Rightarrow> byte \<Rightarrow> bytes \<Rightarrow> bool" where
  "stray_push cp op pdu \<longleftrightarrow> (\<exists>h v. pdu = value_pdu h v \<and> length v < 65534 \<and> \<not> (h = cp \<and> response_for op v))"

definition att_request :: "'s peripheral \<Rightarrow> u16 \<Rightarrow> byte \<Rightarrow> bytes \<Rightarrow> 's \<Rightarrow> bytes \<Rightarrow> 's \<Rightarrow> bool" where
  "att_request P cp op buf s v s' \<longleftrightarrow> length v < 65534 \<and> (\<exists>us vs xs ys.
     P s BT_ATT_OP_WRITE_REQ (put_le16 cp @ buf) = (us, (BT_ATT_OP_WRITE_RSP, None), vs, s') \<and>
     (us = xs \<and> vs = ys @ [value_pdu cp v] \<or> us = xs @ [value_pdu cp v] @ ys \<and> vs = []) \<and>
     (\<forall>pdu \<in> set xs \<union> set ys. stray_push cp op pdu))"

definition att_write :: "'s peripheral \<Rightarrow> u16 \<Rightarrow> bytes \<Rightarrow> 's \<Rightarrow> 's \<Rightarrow> bool" where
  "att_write P dt c s s' \<longleftrightarrow> (\<exists>answer. P s BT_ATT_OP_WRITE_CMD (put_le16 dt @ c) = ([], answer, [], s'))"

section \<open>The client between two requests\<close>

text \<open>Registered for the control point, and nothing else.\<close>

definition subscribed :: "u16 \<Rightarrow> 'e ClientBase.world \<Rightarrow> bool" where
  "subscribed cp w \<longleftrightarrow> (\<exists>p d c ch. client (bearer w) = Some c \<and> accepts p c \<and> notify_regs c = [d] \<and>
     chrcs (bearer w) p = Some ch \<and> value_handle ch = cp \<and> entry (notifies (bearer w)) p d (1, 2))"

text \<open>An operation that waits: its request is alive and belongs to it alone.\<close>

fun op_ptr :: "gc_op \<Rightarrow> ptr" where
  "op_ptr (WriteCommand p) = p" | "op_ptr (gc_op.WriteCb p) = p" | "op_ptr _ = 0"

definition live :: "'e ClientBase.world \<Rightarrow> byte \<Rightarrow> gc_op \<Rightarrow> bool" where
  "live w opcode op \<longleftrightarrow> (\<exists>r. requests (bearer w) (op_ptr op) = Some r \<and> op_ptr op < gs_next (bearer w) \<and> rq_refs r = 1 \<and> \<not> removed r \<and>
     (opcode = BT_ATT_OP_WRITE_CMD \<and> op = WriteCommand (op_ptr op) \<and> rq_data r = NoData \<or>
      opcode = BT_ATT_OP_WRITE_REQ \<and> op = gc_op.WriteCb (op_ptr op) \<and> rq_data r = WriteOp (Some 0) None))"

definition in_flight :: "'e ClientBase.world \<Rightarrow> (byte \<times> bytes \<times> gc_op) list \<Rightarrow> bool" where
  "in_flight w ops \<longleftrightarrow> (\<forall>x \<in> set ops. live w (fst x) (snd (snd x))) \<and> distinct (map (\<lambda>x. op_ptr (snd (snd x))) ops)"

text \<open>What the operations of a transfer leave alone.\<close>

definition undisturbed :: "'e ClientBase.world \<Rightarrow> 'e ClientBase.world \<Rightarrow> bool" where
  "undisturbed w w' \<longleftrightarrow> notifies (bearer w') = notifies (bearer w) \<and> chrcs (bearer w') = chrcs (bearer w) \<and>
     (\<exists>x y. client (bearer w') = map_option (\<lambda>c. c\<lparr>pending_requests := x, next_request_id := y\<rparr>) (client (bearer w)))"

lemma undisturbed_subscribed:
  assumes "undisturbed w w'" "subscribed cp w"
  shows "subscribed cp w'"
proof -
  from assms(2) obtain p d c ch where *: "client (bearer w) = Some c" "accepts p c" "notify_regs c = [d]"
    "chrcs (bearer w) p = Some ch" "value_handle ch = cp" "entry (notifies (bearer w)) p d (1, 2)"
    unfolding subscribed_def by blast
  from assms(1) * obtain x y where "client (bearer w') = Some (c\<lparr>pending_requests := x, next_request_id := y\<rparr>)"
    unfolding undisturbed_def by auto
  then show ?thesis using * assms(1)
    unfolding subscribed_def undisturbed_def
    by (intro exI [of _ p] exI [of _ d] exI [of _ "c\<lparr>pending_requests := x, next_request_id := y\<rparr>"] exI [of _ ch])
      (simp add: accepts_def)
qed

lemma live_kept:
  assumes "live w opcode op" "requests (bearer w') (op_ptr op) = requests (bearer w) (op_ptr op)" "gs_next (bearer w) \<le> gs_next (bearer w')"
  shows "live w' opcode op"
  using assms unfolding live_def by (metis less_le_trans)

lemma in_flight_simps [simp]:
  "in_flight w []"
  "in_flight w ((opcode, pdu, op) # ops) \<longleftrightarrow>
     live w opcode op \<and> in_flight w ops \<and> (\<forall>x \<in> set ops. op_ptr (snd (snd x)) \<noteq> op_ptr op)"
  by (auto simp: in_flight_def image_iff)

lemma in_flight_kept:
  assumes "in_flight w ops" "gs_next (bearer w) \<le> gs_next (bearer w')"
    and "\<And>x. x \<in> set ops \<Longrightarrow> requests (bearer w') (op_ptr (snd (snd x))) = requests (bearer w) (op_ptr (snd (snd x)))"
  shows "in_flight w' ops"
  using assms live_kept [of w _ _ w'] unfolding in_flight_def by blast

lemma in_flight_append:
  "in_flight w (ops @ [(opcode, pdu, op)]) \<longleftrightarrow>
     in_flight w ops \<and> live w opcode op \<and> (\<forall>x \<in> set ops. op_ptr (snd (snd x)) \<noteq> op_ptr op)"
  by (auto simp: in_flight_def image_iff)

lemma in_flight_old: "in_flight w ops \<Longrightarrow> x \<in> set ops \<Longrightarrow> op_ptr (snd (snd x)) < gs_next (bearer w)"
  by (auto simp: in_flight_def live_def)

section \<open>Calls and answers\<close>

lemma sent_distinct:
  "in_flight w ops \<Longrightarrow> gs_next (bearer w) = q \<Longrightarrow> \<forall>x \<in> set ops. op_ptr (snd (snd x)) \<noteq> q"
  using in_flight_old [of w ops] by force

context value_link
begin

text \<open>A request with one operation, sent behind those that wait.\<close>

lemma op_started:
  assumes "ok (att_env (bearer w))" "subscribed cp w" "in_flight w (sent (att_env (bearer w)))" "length pdu < unat mtu"
    and "opcode = BT_ATT_OP_WRITE_CMD \<and> (\<forall>q. op q = WriteCommand q) \<and> data = NoData \<or>
      opcode = BT_ATT_OP_WRITE_REQ \<and> (\<forall>q. op q = gc_op.WriteCb q) \<and> data = WriteOp (Some 0) None"
    and "create w = create_with_data G data w"
    and "takes opcode (op (gs_next (bearer w))) (sent (att_env (bearer w)))"
  shows "\<exists>i w'. (do { (req, w) \<leftarrow> create w; case req of None \<Rightarrow> Some (0, w) | Some p \<Rightarrow> start_op G p opcode pdu (op p) w }) = Some (i, w') \<and>
    i \<noteq> 0 \<and> ok (att_env (bearer w')) \<and> undisturbed w w' \<and> reports (att_env (bearer w')) = reports (att_env (bearer w)) \<and>
    sent (att_env (bearer w')) = sent (att_env (bearer w)) @ [(opcode, pdu, op (gs_next (bearer w)))] \<and>
    in_flight w' (sent (att_env (bearer w')))"
proof -
  obtain c where c: "client (bearer w) = Some c" "cl_att c" using assms(2) by (auto simp: subscribed_def accepts_def)
  let ?i = "if next_request_id c < 1 then 1 else next_request_id c" and ?q = "gs_next (bearer w)"
  let ?r = "\<lparr>long_write = False, prep_write = False, removed = False, rq_refs = 1, rq_id = ?i, rq_att_id = 0, rq_data = data\<rparr>"
  let ?c = "c\<lparr>pending_requests := pending_requests c @ [?q], next_request_id := ?i + 1\<rparr>"
  let ?w = "upd (\<lambda>s. s\<lparr>gs_next := gs_next s + 1, client := Some (c\<lparr>pending_requests := pending_requests c @ [gs_next s], next_request_id := ?i + 1\<rparr>),
    requests := (requests s)(gs_next s \<mapsto> ?r)\<rparr>) w"
  have "ok (att_env (bearer ?w))" "client (bearer ?w) = Some ?c" "cl_att ?c" "requests (bearer ?w) ?q = Some ?r"
    using assms(1) c(2) by simp_all
  note start = start_op_ok [OF this assms(4), of opcode "op ?q"]
  have "takes opcode (op ?q) (sent (att_env (bearer ?w)))" using assms(7) by simp
  from start [OF this] obtain j e where e: "j \<noteq> 0"
    "start_op G ?q opcode pdu (op ?q) ?w = Some (?i, upd (\<lambda>s. s\<lparr>att_env := e, requests := (requests s)(?q \<mapsto> ?r\<lparr>rq_att_id := j\<rparr>)\<rparr>) ?w)"
    "ok e" "sent e = sent (att_env (bearer w)) @ [(opcode, pdu, op ?q)]" "reports e = reports (att_env (bearer w))"
    by auto
  let ?w' = "upd (\<lambda>s. s\<lparr>att_env := e, requests := (requests s)(?q \<mapsto> ?r\<lparr>rq_att_id := j\<rparr>)\<rparr>) ?w"
  have old: "\<forall>x \<in> set (sent (att_env (bearer w))). op_ptr (snd (snd x)) \<noteq> ?q" by (rule sent_distinct [OF assms(3) refl])
  have "in_flight ?w' (sent (att_env (bearer w)))" by (rule in_flight_kept [OF assms(3)]) (use old in auto)
  moreover have "op_ptr (op ?q) = ?q" using assms(5) by auto
  moreover have "live ?w' opcode (op ?q)" using assms(5) by (auto simp: live_def)
  ultimately have "in_flight ?w' (sent (att_env (bearer ?w')))" using old e(4) by (simp add: in_flight_append)
  moreover have "undisturbed w ?w'" using c(1) by (auto simp: undisturbed_def)
  moreover have "(do { (req, w) \<leftarrow> create w; case req of None \<Rightarrow> Some (0, w) | Some p \<Rightarrow> start_op G p opcode pdu (op p) w }) = Some (?i, ?w')"
    unfolding assms(6) create_ok [OF c(1)] using e(2) by simp
  moreover have "?i \<noteq> 0" by (auto simp: word_less_nat_alt unat_gt_0)
  ultimately show ?thesis using e(3-5) by (intro exI [of _ ?i] exI [of _ ?w']) simp
qed

lemma whole_value: "length v < 65536 \<Longrightarrow> array_slice v 0 (unat (word_of_nat (length v) :: u16)) = Some v"
  by (simp add: u16_of_nat array_slice_def)

lemma room_for_value: "length v + 2 < unat (m :: u16) \<Longrightarrow> length v < 65536"
  using unsigned_less [of m, where ?'a = nat] by simp

lemma request_started:
  assumes "ok (att_env (bearer w))" "subscribed cp w" "in_flight w (sent (att_env (bearer w)))" "length v + 2 < unat mtu"
  shows "\<exists>i w'. bt_gatt_client_write_value G h v (word_of_nat (length v)) (Some 0) None w = Some (i, w') \<and>
    i \<noteq> 0 \<and> ok (att_env (bearer w')) \<and> undisturbed w w' \<and> reports (att_env (bearer w')) = reports (att_env (bearer w)) \<and>
    sent (att_env (bearer w')) = sent (att_env (bearer w)) @ [(BT_ATT_OP_WRITE_REQ, put_le16 h @ v, gc_op.WriteCb (gs_next (bearer w)))] \<and>
    in_flight w' (sent (att_env (bearer w')))"
proof -
  obtain c where c: "client (bearer w) = Some c" using assms(2) by (auto simp: subscribed_def)
  have len: "length (put_le16 h @ v) < unat mtu" using assms(4) by (simp add: le16.put_width)
  have "bt_gatt_client_write_value G h v (word_of_nat (length v)) (Some 0) None w =
      (do { (req, w) \<leftarrow> create_with_data G (WriteOp (Some 0) None) w; case req of None \<Rightarrow> Some (0, w)
        | Some p \<Rightarrow> start_op G p BT_ATT_OP_WRITE_REQ (put_le16 h @ v) (gc_op.WriteCb p) w })"
    unfolding bt_gatt_client_write_value_def create_ok [OF c(1)] by (simp add: whole_value [OF room_for_value [OF assms(4)]])
  then show ?thesis
    using op_started [OF assms(1-3) len, of BT_ATT_OP_WRITE_REQ gc_op.WriteCb "WriteOp (Some 0) None" "create_with_data G (WriteOp (Some 0) None)"] by simp
qed

lemma command_started:
  assumes "ok (att_env (bearer w))" "subscribed cp w" "in_flight w (sent (att_env (bearer w)))" "length v + 2 < unat mtu"
    and "\<forall>x \<in> set (sent (att_env (bearer w))). \<not> wants_answer (snd (snd x))"
  shows "\<exists>i w'. bt_gatt_client_write_without_response G h False v (word_of_nat (length v)) w = Some (i, w') \<and>
    i \<noteq> 0 \<and> ok (att_env (bearer w')) \<and> undisturbed w w' \<and> reports (att_env (bearer w')) = reports (att_env (bearer w)) \<and>
    sent (att_env (bearer w')) = sent (att_env (bearer w)) @ [(BT_ATT_OP_WRITE_CMD, put_le16 h @ v, WriteCommand (gs_next (bearer w)))] \<and>
    in_flight w' (sent (att_env (bearer w')))"
proof -
  obtain c where c: "client (bearer w) = Some c" "cl_att c" using assms(2) by (auto simp: subscribed_def accepts_def)
  have create: "request_create G w = create_with_data G NoData w"
    unfolding create_ok [OF c(1)] using c(1) by (simp add: request_create_def alloc request_ref_def Let_def upd_def)
  have len: "length (put_le16 h @ v) < unat mtu" using assms(4) by (simp add: le16.put_width)
  have "bt_gatt_client_write_without_response G h False v (word_of_nat (length v)) w =
      (do { (req, w) \<leftarrow> create_with_data G NoData w; case req of None \<Rightarrow> Some (0, w)
        | Some p \<Rightarrow> start_op G p BT_ATT_OP_WRITE_CMD (put_le16 h @ v) (WriteCommand p) w })"
    unfolding bt_gatt_client_write_without_response_def create create_ok [OF c(1)]
    by (simp add: bt_gatt_client_get_sec_level_def whole_value [OF room_for_value [OF assms(4)]])
  then show ?thesis
    using op_started [OF assms(1-3) len, of BT_ATT_OP_WRITE_CMD WriteCommand NoData "create_with_data G NoData"] assms(5)
    by (simp add: takes_command)
qed

text \<open>The end of the operation that was sent first: its request is freed.\<close>

lemma first_sent:
  assumes "in_flight w ((opcode, pdu, op) # ops)" "undisturbed w w'"
    and "requests (bearer w') = (requests (bearer w))(op_ptr op := None)" "gs_next (bearer w') = gs_next (bearer w)"
  shows "in_flight w' ops"
  using assms by (intro in_flight_kept [of w ops w']) auto

lemma command_released:
  assumes "ok (att_env (bearer w))" "subscribed cp w" "sent (att_env (bearer w)) = (BT_ATT_OP_WRITE_CMD, pdu, op) # ops"
    and "in_flight w (sent (att_env (bearer w)))"
  shows "\<exists>w'. release_op G op (upd_att pop w) = Some w' \<and> ok (att_env (bearer w')) \<and> undisturbed w w' \<and>
    reports (att_env (bearer w')) = reports (att_env (bearer w)) \<and> sent (att_env (bearer w')) = ops \<and> in_flight w' ops"
proof -
  obtain c where c: "client (bearer w) = Some c" using assms(2) by (auto simp: subscribed_def)
  obtain r where r: "requests (bearer w) (op_ptr op) = Some r" "rq_refs r = 1" "\<not> removed r" "rq_data r = NoData" "op = WriteCommand (op_ptr op)"
    using assms(3,4) by (auto simp: live_def BT_ATT_OP_WRITE_CMD_def BT_ATT_OP_WRITE_REQ_def)
  let ?c = "c\<lparr>pending_requests := remove1 (op_ptr op) (pending_requests c)\<rparr>"
  let ?w' = "upd (\<lambda>s. s\<lparr>att_env := pop (att_env s), client := Some ?c, requests := (requests s)(op_ptr op := None)\<rparr>) w"
  have "undisturbed w ?w'"
    unfolding undisturbed_def using c by (auto intro!: exI [of _ "remove1 (op_ptr op) (pending_requests c)"] exI [of _ "next_request_id c"])
  moreover from this have "in_flight ?w' ops" using first_sent [of w BT_ATT_OP_WRITE_CMD pdu op ops ?w'] assms(3,4) by simp
  moreover have "release_op G op (upd_att pop w) = Some ?w'"
    using r(1-4) c by (subst r(5)) (simp add: request_unref_def)
  moreover have "ok (att_env (bearer ?w'))" "sent (att_env (bearer ?w')) = ops" "reports (att_env (bearer ?w')) = reports (att_env (bearer w))"
    using pop [OF assms(1)] assms(3) by simp_all
  ultimately show ?thesis by blast
qed

lemma request_answered:
  assumes "ok (att_env (bearer w))" "subscribed cp w" "sent (att_env (bearer w)) = (BT_ATT_OP_WRITE_REQ, pdu, op) # ops"
    and "in_flight w (sent (att_env (bearer w)))"
  shows "\<exists>w'. gc_respond G op BT_ATT_OP_WRITE_RSP None (upd_att pop w) = Some w' \<and> ok (att_env (bearer w')) \<and> undisturbed w w' \<and>
    reports (att_env (bearer w')) = reports (att_env (bearer w)) @ [(0, Finished True 0)] \<and> sent (att_env (bearer w')) = ops \<and> in_flight w' ops"
proof -
  obtain c where c: "client (bearer w) = Some c" using assms(2) by (auto simp: subscribed_def)
  let ?p = "op_ptr op" and ?w = "upd_att pop w"
  obtain r where r: "requests (bearer w) ?p = Some r" "rq_refs r = 1" "\<not> removed r" "rq_data r = WriteOp (Some 0) None" "op = gc_op.WriteCb ?p"
    using assms(3,4) by (auto simp: live_def BT_ATT_OP_WRITE_CMD_def BT_ATT_OP_WRITE_REQ_def)
  have w: "ok (att_env (bearer ?w))" "sent (att_env (bearer ?w)) = ops" "reports (att_env (bearer ?w)) = reports (att_env (bearer w))"
    using pop [OF assms(1)] assms(3) by simp_all
  have "client (bearer ?w) = Some c" "requests (bearer ?w) ?p = Some r" "rq_data r \<noteq> FreedData" using c r(1,4) by simp_all
  from finish_request [OF w(1) this(1,2) r(2,3) this(3), of 0 "Finished True 0"] obtain e where
    e: "(call_upper G (Some 0) (Finished True 0) ?w \<bind> request_unref G ?p) =
      Some (upd (\<lambda>s. s\<lparr>att_env := e, client := Some (c\<lparr>pending_requests := remove1 ?p (pending_requests c)\<rparr>),
        requests := (requests s)(?p := None)\<rparr>) ?w)" "ok e" "sent e = ops" "reports e = reports (att_env (bearer w)) @ [(0, Finished True 0)]"
    unfolding w(2,3) by blast
  let ?w' = "upd (\<lambda>s. s\<lparr>att_env := e, client := Some (c\<lparr>pending_requests := remove1 ?p (pending_requests c)\<rparr>), requests := (requests s)(?p := None)\<rparr>) ?w"
  have "undisturbed w ?w'"
    unfolding undisturbed_def using c by (auto intro!: exI [of _ "remove1 ?p (pending_requests c)"] exI [of _ "next_request_id c"])
  moreover from this have "in_flight ?w' ops" using first_sent [of w BT_ATT_OP_WRITE_REQ pdu op ops ?w'] assms(3,4) by simp
  moreover have "gc_respond G op BT_ATT_OP_WRITE_RSP None ?w = Some ?w'"
  proof -
    have "gc_respond G op BT_ATT_OP_WRITE_RSP None ?w = (call_upper G (Some 0) (Finished True 0) ?w \<bind> request_unref G ?p)"
      using r(1,4) by (subst r(5)) (simp add: gc_respond_def ClientRequests.write_cb_def BT_ATT_OP_WRITE_RSP_def BT_ATT_OP_ERROR_RSP_def)
    then show ?thesis using e(1) by simp
  qed
  ultimately show ?thesis using e(2-4) by (intro exI [of _ ?w']) simp
qed

text \<open>A notified value goes to the program when it is one of the control point, and nowhere otherwise.\<close>

lemma push_read:
  assumes "ok (att_env (bearer w))" "subscribed cp w" "in_flight w (sent (att_env (bearer w)))" "length val < 65534"
  shows "\<exists>w'. ClientDiscovery.notify_cb G BT_ATT_OP_HANDLE_VAL_NOT (value_pdu h val) w = Some w' \<and> ok (att_env (bearer w')) \<and> undisturbed w w' \<and>
    reports (att_env (bearer w')) = reports (att_env (bearer w)) @ (if h = cp then [(2, Notified cp (nonempty val) (word_of_nat (length val)))] else []) \<and>
    sent (att_env (bearer w')) = sent (att_env (bearer w)) \<and> in_flight w' (sent (att_env (bearer w')))"
proof -
  obtain p d c ch where s: "client (bearer w) = Some c" "accepts p c" "notify_regs c = [d]"
    "chrcs (bearer w) p = Some ch" "value_handle ch = cp" "entry (notifies (bearer w)) p d (1, 2)"
    using assms(2) unfolding subscribed_def by blast
  have "\<exists>e. ClientDiscovery.notify_cb G BT_ATT_OP_HANDLE_VAL_NOT (value_pdu h val) w = Some (upd (\<lambda>s. s\<lparr>att_env := e\<rparr>) w) \<and> ok e \<and>
    sent e = sent (att_env (bearer w)) \<and>
    reports e = reports (att_env (bearer w)) @ (if h = cp then [(2, Notified cp (nonempty val) (word_of_nat (length val)))] else [])"
  proof (cases "h = cp")
    case True
    then show ?thesis using delivered [OF assms(1) s(1) _ s(3) _ _ s(4) assms(4), of "[(1, 2)]"] s(2,5,6) by (simp add: accepts_def)
  next
    case False
    let ?w = "upd (\<lambda>s. s\<lparr>client := Some (c\<lparr>cl_refs := cl_refs c + 1\<rparr>)\<rparr>) w"
    obtain n where n: "notifies (bearer w) d = Some n" "nd_chrc n = p" using entry_value [OF s(6)] by blast
    have "notify_handler G (value_pdu h val) d ?w = Some ?w"
      using n s(4,5) False by (simp add: notify_handler_def value_pdu_def le16.get_put)
    then have "foreach_registered G (value_pdu h val) [d] ?w = Some ?w"
      using s(3) by (subst foreach_registered.simps) (simp add: foreach_registered.simps [where ds = "[]"])
    then have "ClientDiscovery.notify_cb G BT_ATT_OP_HANDLE_VAL_NOT (value_pdu h val) w = Some (upd (\<lambda>s. s\<lparr>client := Some c\<rparr>) w)"
      using s(1-3) by (simp add: ClientDiscovery.notify_cb_def bt_gatt_client_ref_def bt_gatt_client_unref_def accepts_def
          BT_ATT_OP_HANDLE_VAL_NOT_def BT_ATT_OP_HANDLE_VAL_IND_def)
    moreover have "upd (\<lambda>s. s\<lparr>client := Some c\<rparr>) w = upd (\<lambda>s. s\<lparr>att_env := att_env (bearer w)\<rparr>) w" using s(1) by (simp add: upd_def)
    ultimately show ?thesis using assms(1) False by (intro exI [of _ "att_env (bearer w)"]) simp
  qed
  then obtain e where e: "ClientDiscovery.notify_cb G BT_ATT_OP_HANDLE_VAL_NOT (value_pdu h val) w = Some (upd (\<lambda>s. s\<lparr>att_env := e\<rparr>) w)" "ok e"
    "sent e = sent (att_env (bearer w))"
    "reports e = reports (att_env (bearer w)) @ (if h = cp then [(2, Notified cp (nonempty val) (word_of_nat (length val)))] else [])" by blast
  let ?w' = "upd (\<lambda>s. s\<lparr>att_env := e\<rparr>) w"
  have "in_flight ?w' (sent (att_env (bearer w)))" by (rule in_flight_kept [OF assms(3)]) simp_all
  moreover have "undisturbed w ?w'"
    unfolding undisturbed_def using s(1) by (auto intro!: exI [of _ "pending_requests c"] exI [of _ "next_request_id c"])
  ultimately show ?thesis using e by (intro exI [of _ ?w']) simp
qed

end

section \<open>Polls\<close>

definition attended :: "('e \<Rightarrow> bool) \<Rightarrow> ('e \<Rightarrow> (byte \<times> bytes \<times> gc_op) list) \<Rightarrow> u16 \<Rightarrow> 'e ClientBase.world \<Rightarrow> bool" where
  "attended ok sent cp w \<longleftrightarrow> ok (att_env (bearer w)) \<and> subscribed cp w \<and> in_flight w (sent (att_env (bearer w)))"

text \<open>The peripheral after the operations that wait, which it takes without notifying anything.\<close>

fun drained :: "'s peripheral \<Rightarrow> 's \<Rightarrow> (byte \<times> bytes \<times> gc_op) list \<Rightarrow> 's" where
  "drained P s [] = s"
| "drained P s ((opcode, pdu, op) # ops) = drained P (snd (snd (snd (P s opcode pdu)))) ops"

fun taken_quietly :: "'s peripheral \<Rightarrow> 's \<Rightarrow> (byte \<times> bytes \<times> gc_op) list \<Rightarrow> bool" where
  "taken_quietly P s [] \<longleftrightarrow> True"
| "taken_quietly P s ((opcode, pdu, op) # ops) \<longleftrightarrow> opcode = BT_ATT_OP_WRITE_CMD \<and>
     (\<exists>answer s'. P s opcode pdu = ([], answer, [], s') \<and> taken_quietly P s' ops)"

text \<open>What waits without an answer to come is commands.\<close>

lemma taken_quietly_commands:
  "taken_quietly P s ops \<Longrightarrow> in_flight w ops \<Longrightarrow> \<forall>x \<in> set ops. \<not> wants_answer (snd (snd x))"
proof (induction P s ops rule: taken_quietly.induct)
  case (2 P s opcode pdu op ops)
  then have "live w opcode op" "opcode = BT_ATT_OP_WRITE_CMD" by auto
  then have "op = WriteCommand (op_ptr op)" by (simp add: live_def BT_ATT_OP_WRITE_CMD_def BT_ATT_OP_WRITE_REQ_def) blast
  then have "\<not> wants_answer op" by (metis wants_answer.simps(1))
  then show ?case using 2 by auto
qed simp

lemma drained_append: "drained P s (ops @ ops') = drained P (drained P s ops) ops'"
  by (induction ops arbitrary: s) auto

lemma taken_quietly_append:
  "taken_quietly P s (ops @ ops') \<longleftrightarrow> taken_quietly P s ops \<and> taken_quietly P (drained P s ops) ops'"
  by (induction ops arbitrary: s) auto

lemma told_more: "reports (att_env (bearer w')) = reports (att_env (bearer w)) @ xs \<Longrightarrow> told reports w w' = concat (map ble_event_of xs)"
  by (simp add: told_def)

lemma event_of_value: "length v < 65534 \<Longrightarrow> ble_event_of (2, Notified h (nonempty v) (word_of_nat (length v))) = [NotifyCb h v]"
  by (simp add: ble_event_of_def nonempty_def u16_of_nat)

lemma write_opcodes_differ: "BT_ATT_OP_WRITE_REQ \<noteq> BT_ATT_OP_WRITE_CMD"
  by (simp add: BT_ATT_OP_WRITE_REQ_def BT_ATT_OP_WRITE_CMD_def)

context value_link
begin

lemma commands_polled:
  assumes "attended ok sent cp (cl e)" "arrivals e = []" "sent (att_env (bearer (cl e))) = cs @ ops" "taken_quietly P (peer e) cs"
  shows "\<exists>w. polls (client_transport G sent pop reports P) e (replicate (length cs) []) \<lparr>cl = w, peer = drained P (peer e) cs, arrivals = []\<rparr> \<and>
    attended ok sent cp w \<and> sent (att_env (bearer w)) = ops"
  using assms
proof (induction cs arbitrary: e)
  case (Cons x cs)
  obtain opcode pdu op where x: "x = (opcode, pdu, op)" by (cases x)
  obtain answer s where s: "opcode = BT_ATT_OP_WRITE_CMD" "P (peer e) opcode pdu = ([], answer, [], s)" "taken_quietly P s cs"
    using Cons.prems(4) x by auto
  have "sent (att_env (bearer (cl e))) = (BT_ATT_OP_WRITE_CMD, pdu, op) # cs @ ops" using Cons.prems(3) x s(1) by simp
  from command_released [OF _ _ this, of cp] Cons.prems(1) obtain w where w: "release_op G op (upd_att pop (cl e)) = Some w"
    "ok (att_env (bearer w))" "undisturbed (cl e) w" "reports (att_env (bearer w)) = reports (att_env (bearer (cl e)))"
    "sent (att_env (bearer w)) = cs @ ops" "in_flight w (cs @ ops)" unfolding attended_def by blast
  let ?e = "e\<lparr>cl := w, peer := s, arrivals := []\<rparr>"
  have "attended ok sent cp (cl ?e)"
    using w undisturbed_subscribed [OF w(3)] Cons.prems(1) by (simp add: attended_def)
  from Cons.IH [OF this] w(5) s(3) obtain w' where w': "polls (client_transport G sent pop reports P) ?e (replicate (length cs) [])
      \<lparr>cl = w', peer = drained P s cs, arrivals = []\<rparr>" "attended ok sent cp w'" "sent (att_env (bearer w')) = ops" by auto
  have "gatt_poll G sent pop reports P e = Some ([], ?e)"
    using Cons.prems(2,3) x s(1,2) w(1) told_more [of reports w "cl e" "[]"] w(4) by (simp add: gatt_poll_def)
  then show ?case using w' s(2) x by (auto simp: client_transport_def)
next
  case Nil
  then show ?case by (intro exI [of _ "cl e"]) simp
qed

lemma pushes_polled:
  assumes "attended ok sent cp (cl e)" "arrivals e = map Pushed xs @ q" "\<forall>pdu \<in> set xs. stray_push cp op pdu"
  shows "\<exists>bs w. polls (client_transport G sent pop reports P) e bs (e\<lparr>cl := w, arrivals := q\<rparr>) \<and> attended ok sent cp w \<and>
    sent (att_env (bearer w)) = sent (att_env (bearer (cl e))) \<and> (\<forall>b \<in> set bs. \<forall>ev \<in> set b. irrelevant cp op ev)"
  using assms
proof (induction xs arbitrary: e)
  case (Cons pdu xs)
  obtain h v where v: "pdu = value_pdu h v" "length v < 65534" "\<not> (h = cp \<and> response_for op v)"
    using Cons.prems(3) by (auto simp: stray_push_def)
  obtain w where w: "ClientDiscovery.notify_cb G BT_ATT_OP_HANDLE_VAL_NOT pdu (cl e) = Some w" "ok (att_env (bearer w))" "undisturbed (cl e) w"
    "reports (att_env (bearer w)) = reports (att_env (bearer (cl e))) @ (if h = cp then [(2, Notified cp (nonempty v) (word_of_nat (length v)))] else [])"
    "sent (att_env (bearer w)) = sent (att_env (bearer (cl e)))" "in_flight w (sent (att_env (bearer w)))"
    using push_read [of "cl e" cp v h] Cons.prems(1) v(1,2) unfolding attended_def by auto
  let ?e = "e\<lparr>cl := w, arrivals := map Pushed xs @ q\<rparr>" and ?b = "if h = cp then [NotifyCb cp v] else []"
  have "attended ok sent cp (cl ?e)" using w undisturbed_subscribed [OF w(3)] Cons.prems(1) by (simp add: attended_def)
  from Cons.IH [OF this] Cons.prems(3) obtain bs w' where w': "polls (client_transport G sent pop reports P) ?e bs (?e\<lparr>cl := w', arrivals := q\<rparr>)"
    "attended ok sent cp w'" "sent (att_env (bearer w')) = sent (att_env (bearer w))" "\<forall>b \<in> set bs. \<forall>ev \<in> set b. irrelevant cp op ev" by auto
  have "gatt_poll G sent pop reports P e = Some (?b, ?e)"
    using Cons.prems(2) w(1) told_more [OF w(4)] by (simp add: gatt_poll_def event_of_value [OF v(2)])
  then have "polls (client_transport G sent pop reports P) e (?b # bs) (e\<lparr>cl := w', arrivals := q\<rparr>)"
    using w'(1) by (simp add: client_transport_def)
  moreover have "\<forall>ev \<in> set ?b. irrelevant cp op ev" using v(3) by (auto simp: irrelevant_def)
  ultimately show ?case using w' w(5) by (intro exI [of _ "?b # bs"] exI [of _ w']) simp
next
  case Nil
  then show ?case by (intro exI [of _ "[]"] exI [of _ "cl e"]) simp
qed

lemma response_polled:
  assumes "attended ok sent cp (cl e)" "arrivals e = Pushed (value_pdu cp v) # q" "length v < 65534"
  shows "\<exists>w. polls (client_transport G sent pop reports P) e [[NotifyCb cp v]] (e\<lparr>cl := w, arrivals := q\<rparr>) \<and> attended ok sent cp w \<and>
    sent (att_env (bearer w)) = sent (att_env (bearer (cl e)))"
proof -
  obtain w where w: "ClientDiscovery.notify_cb G BT_ATT_OP_HANDLE_VAL_NOT (value_pdu cp v) (cl e) = Some w" "ok (att_env (bearer w))" "undisturbed (cl e) w"
    "reports (att_env (bearer w)) = reports (att_env (bearer (cl e))) @ [(2, Notified cp (nonempty v) (word_of_nat (length v)))]"
    "sent (att_env (bearer w)) = sent (att_env (bearer (cl e)))" "in_flight w (sent (att_env (bearer w)))"
    using push_read [of "cl e" cp v cp] assms(1,3) unfolding attended_def by auto
  have "gatt_poll G sent pop reports P e = Some ([NotifyCb cp v], e\<lparr>cl := w, arrivals := q\<rparr>)"
    using assms(2) w(1) told_more [OF w(4)] by (simp add: gatt_poll_def event_of_value [OF assms(3)])
  moreover have "attended ok sent cp w" using w undisturbed_subscribed [OF w(3)] assms(1) by (simp add: attended_def)
  ultimately show ?thesis using w(5) by (auto simp: client_transport_def)
qed

lemma answer_polled:
  assumes "attended ok sent cp (cl e)" "arrivals e = Answered BT_ATT_OP_WRITE_RSP None # q"
    and "sent (att_env (bearer (cl e))) = (BT_ATT_OP_WRITE_REQ, pdu, op) # ops"
  shows "\<exists>w. polls (client_transport G sent pop reports P) e [[ble_event.WriteCb True 0]] (e\<lparr>cl := w, arrivals := q\<rparr>) \<and> attended ok sent cp w \<and>
    sent (att_env (bearer w)) = ops"
proof -
  obtain w where w: "gc_respond G op BT_ATT_OP_WRITE_RSP None (upd_att pop (cl e)) = Some w" "ok (att_env (bearer w))" "undisturbed (cl e) w"
    "reports (att_env (bearer w)) = reports (att_env (bearer (cl e))) @ [(0, Finished True 0)]" "sent (att_env (bearer w)) = ops" "in_flight w ops"
    using request_answered [OF _ _ assms(3), of cp] assms(1) unfolding attended_def by blast
  have "gatt_poll G sent pop reports P e = Some ([ble_event.WriteCb True 0], e\<lparr>cl := w, arrivals := q\<rparr>)"
    using assms(2,3) w(1) told_more [OF w(4)] by (simp add: gatt_poll_def ble_event_of_def)
  moreover have "attended ok sent cp w" using w undisturbed_subscribed [OF w(3)] assms(1) by (simp add: attended_def)
  ultimately show ?thesis using w(5) by (auto simp: client_transport_def)
qed

end

section \<open>Requests and data over the client\<close>

text \<open>What is known of the stack: it waits for a request when nothing is left to read and only commands wait to be
  sent; the bootloader is the one that those commands lead to.\<close>

definition over_client :: "('e \<Rightarrow> bool) \<Rightarrow> ('e \<Rightarrow> (byte \<times> bytes \<times> gc_op) list) \<Rightarrow> u16 \<Rightarrow> 's peripheral \<Rightarrow> u16 \<Rightarrow> 's peer_view \<Rightarrow>
    ('e, 's) stack peer_view" where
  "over_client ok sent m P cp V =
     \<lparr>settled = (\<lambda>e. arrivals e = [] \<and> attended ok sent cp (cl e) \<and> taken_quietly P (peer e) (sent (att_env (bearer (cl e)))) \<and>
        settled V (drained P (peer e) (sent (att_env (bearer (cl e)))))),
      chunk_room = min (chunk_room V) (unat m - 3),
      boot = (\<lambda>e. boot V (drained P (peer e) (sent (att_env (bearer (cl e))))))\<rparr>"

text \<open>A way to make requests that does what another one does, on states that stand for those of the other.\<close>

lemma dfu_protocol_refines:
  assumes abs: "dfu_protocol bs V request write"
    and view: "\<And>e. settled V' e \<Longrightarrow> settled V (f e)" "\<And>e. boot V' e = boot V (f e)" "chunk_room V' \<le> chunk_room V"
    and requests: "\<And>op buf e v s. settled V' e \<Longrightarrow> length buf \<le> 6 \<Longrightarrow> request op buf (f e) v s \<Longrightarrow> settled V s \<Longrightarrow>
      \<exists>e'. request' op buf e v e' \<and> settled V' e' \<and> f e' = s"
    and writes: "\<And>c e s. settled V' e \<Longrightarrow> length c \<le> chunk_room V' \<Longrightarrow> write c (f e) s \<Longrightarrow> settled V s \<Longrightarrow>
      \<exists>e'. write' c e e' \<and> settled V' e' \<and> f e' = s"
  shows "dfu_protocol bs V' request' write'"
proof -
  have req: "\<exists>e'. request' op buf e v e' \<and> leads_to V' ty e t e'"
    if e: "settled V' e" "length buf \<le> 6" and r: "\<exists>s. request op buf (f e) v s \<and> leads_to V ty (f e) t s" for op buf e v ty t
  proof -
    obtain s where s: "request op buf (f e) v s" "leads_to V ty (f e) t s" using r by blast
    then have "settled V s" by (simp add: leads_to_def)
    from requests [OF e s(1) this] s(2) show ?thesis by (auto simp: leads_to_def view(2))
  qed
  have wr: "\<exists>e'. write' c e e' \<and> leads_to V' ty e t e'"
    if e: "settled V' e" "length c \<le> chunk_room V'" and r: "\<exists>s. write c (f e) s \<and> leads_to V ty (f e) t s" for c e ty t
  proof -
    obtain s where s: "write c (f e) s" "leads_to V ty (f e) t s" using r by blast
    then have "settled V s" by (simp add: leads_to_def)
    from writes [OF e s(1) this] s(2) show ?thesis by (auto simp: leads_to_def view(2))
  qed
  have "length (create_packet ty n) \<le> 6" for ty n by (simp add: create_packet_def)
  then show ?thesis
    unfolding dfu_protocol_def view(2)
    using protocol_select [OF abs] protocol_create [OF abs] protocol_write [OF abs] protocol_checksum [OF abs] protocol_execute [OF abs]
    by (intro conjI allI impI req wr) (use view in simp_all)
qed

context value_link
begin

lemma stack_exchange:
  fixes e :: "('e, 's) stack"
  defines "ops \<equiv> sent (att_env (bearer (cl e)))"
  assumes idle: "arrivals e = []" "attended ok sent cp (cl e)" "taken_quietly P (peer e) ops"
    and req: "att_request P cp op buf (drained P (peer e) ops) v s" and room: "length buf + 2 < unat mtu"
  shows "\<exists>w. exchange (client_transport G sent pop reports P) cp op buf e v \<lparr>cl = w, peer = s, arrivals = []\<rparr> \<and>
    attended ok sent cp w \<and> sent (att_env (bearer w)) = []"
proof -
  let ?T = "client_transport G sent pop reports P"
  obtain us vs xs ys where p: "length v < 65534"
      "P (drained P (peer e) ops) BT_ATT_OP_WRITE_REQ (put_le16 cp @ buf) = (us, (BT_ATT_OP_WRITE_RSP, None), vs, s)"
    and order: "us = xs \<and> vs = ys @ [value_pdu cp v] \<or> us = xs @ [value_pdu cp v] @ ys \<and> vs = []"
    and stray: "\<forall>pdu \<in> set xs. stray_push cp op pdu" "\<forall>pdu \<in> set ys. stray_push cp op pdu"
    using req unfolding att_request_def by blast
  obtain i w0 where w0: "bt_gatt_client_write_value G cp buf (word_of_nat (length buf)) (Some 0) None (cl e) = Some (i, w0)" "i \<noteq> 0"
      "ok (att_env (bearer w0))" "undisturbed (cl e) w0" "reports (att_env (bearer w0)) = reports (att_env (bearer (cl e)))"
      "sent (att_env (bearer w0)) = ops @ [(BT_ATT_OP_WRITE_REQ, put_le16 cp @ buf, gc_op.WriteCb (gs_next (bearer (cl e))))]"
      "in_flight w0 (sent (att_env (bearer w0)))"
    using request_started [of "cl e" cp buf cp] idle(2) room unfolding attended_def ops_def by blast
  let ?e0 = "e\<lparr>cl := w0\<rparr>" and ?req = "(BT_ATT_OP_WRITE_REQ, put_le16 cp @ buf, gc_op.WriteCb (gs_next (bearer (cl e))))"
  have start: "write_value ?T cp buf e = (i, [], ?e0)"
    using w0(1) told_more [of reports w0 "cl e" "[]"] w0(5) by (simp add: client_transport_def client_call_def)
  have "attended ok sent cp (cl ?e0)" using w0 undisturbed_subscribed [OF w0(4)] idle(2) by (simp add: attended_def)
  from commands_polled [OF this, of ops "[?req]" P] idle(1,3) w0(6) obtain w1 where w1:
    "polls ?T ?e0 (replicate (length ops) []) \<lparr>cl = w1, peer = drained P (peer e) ops, arrivals = []\<rparr>"
    "attended ok sent cp w1" "sent (att_env (bearer w1)) = [?req]" by auto
  let ?e1 = "\<lparr>cl = w1, peer = s, arrivals = map Pushed us @ [Answered BT_ATT_OP_WRITE_RSP None] @ map Pushed vs\<rparr>"
  have "poll_events ?T \<lparr>cl = w1, peer = drained P (peer e) ops, arrivals = []\<rparr> = Some ([], ?e1)"
    using w1(3) p(2) by (simp add: client_transport_def gatt_poll_def write_opcodes_differ)
  then have e1: "polls ?T ?e0 (replicate (length ops) [] @ [[]]) ?e1" using w1(1) by (auto simp: polls_append)
  have at: "attended ok sent cp (cl ?e1)" "sent (att_env (bearer (cl ?e1))) = [?req]" using w1(2,3) by simp_all
  have "\<exists>bs cs w x y. polls ?T ?e1 (bs @ [[x]] @ cs @ [[y]]) \<lparr>cl = w, peer = s, arrivals = []\<rparr> \<and> attended ok sent cp w \<and>
    sent (att_env (bearer w)) = [] \<and>
    (x = ble_event.WriteCb True 0 \<and> y = NotifyCb cp v \<or> x = NotifyCb cp v \<and> y = ble_event.WriteCb True 0) \<and>
    (\<forall>b \<in> set bs \<union> set cs. \<forall>ev \<in> set b. irrelevant cp op ev)"
    using order
  proof (elim disjE conjE)
    assume o: "us = xs" "vs = ys @ [value_pdu cp v]"
    obtain bs w2 where w2: "polls ?T ?e1 bs (?e1\<lparr>cl := w2, arrivals := [Answered BT_ATT_OP_WRITE_RSP None] @ map Pushed vs\<rparr>)"
      "attended ok sent cp w2" "sent (att_env (bearer w2)) = [?req]" "\<forall>b \<in> set bs. \<forall>ev \<in> set b. irrelevant cp op ev"
      using pushes_polled [OF at(1) _ stray(1), of "[Answered BT_ATT_OP_WRITE_RSP None] @ map Pushed vs" P] at(2) o(1) by auto
    let ?e2 = "?e1\<lparr>cl := w2, arrivals := [Answered BT_ATT_OP_WRITE_RSP None] @ map Pushed vs\<rparr>"
    obtain w3 where w3: "polls ?T ?e2 [[ble_event.WriteCb True 0]] (?e2\<lparr>cl := w3, arrivals := map Pushed vs\<rparr>)"
      "attended ok sent cp w3" "sent (att_env (bearer w3)) = []" using answer_polled [of cp ?e2 "map Pushed vs" _ _ "[]" P] w2(2,3) by auto
    let ?e3 = "?e2\<lparr>cl := w3, arrivals := map Pushed vs\<rparr>"
    obtain cs w4 where w4: "polls ?T ?e3 cs (?e3\<lparr>cl := w4, arrivals := [Pushed (value_pdu cp v)]\<rparr>)"
      "attended ok sent cp w4" "sent (att_env (bearer w4)) = []" "\<forall>b \<in> set cs. \<forall>ev \<in> set b. irrelevant cp op ev"
      using pushes_polled [of cp ?e3 ys "[Pushed (value_pdu cp v)]" op P] stray(2) w3(2,3) o(2) by auto
    let ?e4 = "?e3\<lparr>cl := w4, arrivals := [Pushed (value_pdu cp v)]\<rparr>"
    obtain w5 where w5: "polls ?T ?e4 [[NotifyCb cp v]] (?e4\<lparr>cl := w5, arrivals := []\<rparr>)"
      "attended ok sent cp w5" "sent (att_env (bearer w5)) = []" using response_polled [of cp ?e4 v "[]" P] w4(2,3) p(1) by auto
    have "polls ?T ?e1 (bs @ [[ble_event.WriteCb True 0]] @ cs @ [[NotifyCb cp v]]) \<lparr>cl = w5, peer = s, arrivals = []\<rparr>"
      unfolding polls_append using w2(1) w3(1) w4(1) w5(1) by auto
    then show ?thesis using w2(4) w4(4) w5(2,3) by blast
  next
    assume o: "us = xs @ [value_pdu cp v] @ ys" "vs = []"
    let ?q = "map Pushed ys @ [Answered BT_ATT_OP_WRITE_RSP None]"
    obtain bs w2 where w2: "polls ?T ?e1 bs (?e1\<lparr>cl := w2, arrivals := Pushed (value_pdu cp v) # ?q\<rparr>)"
      "attended ok sent cp w2" "sent (att_env (bearer w2)) = [?req]" "\<forall>b \<in> set bs. \<forall>ev \<in> set b. irrelevant cp op ev"
      using pushes_polled [OF at(1) _ stray(1), of "Pushed (value_pdu cp v) # ?q" P] at(2) o by auto
    let ?e2 = "?e1\<lparr>cl := w2, arrivals := Pushed (value_pdu cp v) # ?q\<rparr>"
    obtain w3 where w3: "polls ?T ?e2 [[NotifyCb cp v]] (?e2\<lparr>cl := w3, arrivals := ?q\<rparr>)"
      "attended ok sent cp w3" "sent (att_env (bearer w3)) = [?req]" using response_polled [of cp ?e2 v ?q P] w2(2,3) p(1) by auto
    let ?e3 = "?e2\<lparr>cl := w3, arrivals := ?q\<rparr>"
    obtain cs w4 where w4: "polls ?T ?e3 cs (?e3\<lparr>cl := w4, arrivals := [Answered BT_ATT_OP_WRITE_RSP None]\<rparr>)"
      "attended ok sent cp w4" "sent (att_env (bearer w4)) = [?req]" "\<forall>b \<in> set cs. \<forall>ev \<in> set b. irrelevant cp op ev"
      using pushes_polled [of cp ?e3 ys "[Answered BT_ATT_OP_WRITE_RSP None]" op P] stray(2) w3(2,3) by auto
    let ?e4 = "?e3\<lparr>cl := w4, arrivals := [Answered BT_ATT_OP_WRITE_RSP None]\<rparr>"
    obtain w5 where w5: "polls ?T ?e4 [[ble_event.WriteCb True 0]] (?e4\<lparr>cl := w5, arrivals := []\<rparr>)"
      "attended ok sent cp w5" "sent (att_env (bearer w5)) = []" using answer_polled [of cp ?e4 "[]" _ _ "[]" P] w4(2,3) by auto
    have "polls ?T ?e1 (bs @ [[NotifyCb cp v]] @ cs @ [[ble_event.WriteCb True 0]]) \<lparr>cl = w5, peer = s, arrivals = []\<rparr>"
      unfolding polls_append using w2(1) w3(1) w4(1) w5(1) by auto
    then show ?thesis using w2(4) w4(4) w5(2,3) by blast
  qed
  then obtain bs cs w x y where w: "polls ?T ?e1 (bs @ [[x]] @ cs @ [[y]]) \<lparr>cl = w, peer = s, arrivals = []\<rparr>"
    "attended ok sent cp w" "sent (att_env (bearer w)) = []"
    "x = ble_event.WriteCb True 0 \<and> y = NotifyCb cp v \<or> x = NotifyCb cp v \<and> y = ble_event.WriteCb True 0"
    "\<forall>b \<in> set bs \<union> set cs. \<forall>ev \<in> set b. irrelevant cp op ev" by blast
  have "polls ?T ?e0 ((replicate (length ops) [] @ [[]] @ bs) @ [[x]] @ cs @ [[y]]) \<lparr>cl = w, peer = s, arrivals = []\<rparr>"
    using e1 w(1) unfolding polls_append by auto
  then have "exchange ?T cp op buf e v \<lparr>cl = w, peer = s, arrivals = []\<rparr>"
    unfolding exchange_def using start w0(2) w(4,5)
    by (intro exI [of _ i] exI [of _ ?e0] exI [of _ "replicate (length ops) [] @ [[]] @ bs"] exI [of _ cs] exI [of _ 0]
        exI [of _ x] exI [of _ y]) auto
  then show ?thesis using w(2,3) by blast
qed

lemma stack_write:
  fixes e :: "('e, 's) stack"
  defines "ops \<equiv> sent (att_env (bearer (cl e)))"
  assumes idle: "arrivals e = []" "attended ok sent cp (cl e)" "taken_quietly P (peer e) ops"
    and wr: "att_write P dt c (drained P (peer e) ops) s" and room: "length c + 2 < unat mtu"
  shows "\<exists>w. written (client_transport G sent pop reports P) dt c e (e\<lparr>cl := w\<rparr>) \<and> attended ok sent cp w \<and>
    taken_quietly P (peer e) (sent (att_env (bearer w))) \<and> drained P (peer e) (sent (att_env (bearer w))) = s"
proof -
  obtain i w where w: "bt_gatt_client_write_without_response G dt False c (word_of_nat (length c)) (cl e) = Some (i, w)" "i \<noteq> 0"
      "ok (att_env (bearer w))" "undisturbed (cl e) w"
      "sent (att_env (bearer w)) = ops @ [(BT_ATT_OP_WRITE_CMD, put_le16 dt @ c, WriteCommand (gs_next (bearer (cl e))))]"
      "in_flight w (sent (att_env (bearer w)))"
    using command_started [of "cl e" cp c dt] idle(2) room taken_quietly_commands [OF idle(3)] unfolding attended_def ops_def by blast
  have "written (client_transport G sent pop reports P) dt c e (e\<lparr>cl := w\<rparr>)"
    using w(1,2) by (simp add: written_def client_transport_def client_call_def)
  moreover have "attended ok sent cp w" using w undisturbed_subscribed [OF w(4)] idle(2) by (simp add: attended_def)
  moreover have "taken_quietly P (peer e) (sent (att_env (bearer w)))" "drained P (peer e) (sent (att_env (bearer w))) = s"
    using w(5) idle(3) wr by (auto simp: taken_quietly_append drained_append att_write_def)
  ultimately show ?thesis by blast
qed

lemma client_carries_protocol:
  fixes P :: "'s peripheral"
  assumes "dfu_protocol bs V (att_request P cp) (att_write P dt)" "9 \<le> unat mtu"
  shows "dfu_target (client_transport G sent pop reports P) cp dt bs (over_client ok sent mtu P cp V)"
  unfolding dfu_target_def
proof (rule dfu_protocol_refines [OF assms(1), where f = "\<lambda>e. drained P (peer e) (sent (att_env (bearer (cl e))))"])
  fix op buf v s and e :: "('e, 's) stack"
  assume "settled (over_client ok sent mtu P cp V) e" "length buf \<le> 6" "settled V s"
    and "att_request P cp op buf (drained P (peer e) (sent (att_env (bearer (cl e))))) v s"
  then show "\<exists>e'. exchange (client_transport G sent pop reports P) cp op buf e v e' \<and> settled (over_client ok sent mtu P cp V) e' \<and>
      drained P (peer e') (sent (att_env (bearer (cl e')))) = s"
    using stack_exchange [of e cp P op buf v s] assms(2) by (fastforce simp: over_client_def)
next
  fix c s and e :: "('e, 's) stack"
  assume e: "settled (over_client ok sent mtu P cp V) e" and c: "length c \<le> chunk_room (over_client ok sent mtu P cp V)" and s: "settled V s"
    and wr: "att_write P dt c (drained P (peer e) (sent (att_env (bearer (cl e))))) s"
  have "length c \<le> unat mtu - 3" using c by (simp add: over_client_def)
  then have "length c + 2 < unat mtu" using assms(2) by linarith
  with stack_write [of e cp P dt c s] e wr obtain w where "written (client_transport G sent pop reports P) dt c e (e\<lparr>cl := w\<rparr>)"
    "attended ok sent cp w" "taken_quietly P (peer e) (sent (att_env (bearer w)))" "drained P (peer e) (sent (att_env (bearer w))) = s"
    by (auto simp: over_client_def)
  then show "\<exists>e'. written (client_transport G sent pop reports P) dt c e e' \<and> settled (over_client ok sent mtu P cp V) e' \<and>
      drained P (peer e') (sent (att_env (bearer (cl e')))) = s"
    using s e by (intro exI [of _ "e\<lparr>cl := w\<rparr>"]) (simp add: over_client_def)
qed (simp_all add: over_client_def)

end

section \<open>Registering over the client\<close>

text \<open>A client that knows the control point and has nothing under way.\<close>

definition unregistered :: "('e \<Rightarrow> bool) \<Rightarrow> ('e \<Rightarrow> (byte \<times> bytes \<times> gc_op) list) \<Rightarrow> ptr \<Rightarrow> notify_chrc \<Rightarrow> ('e, 's) stack \<Rightarrow> bool" where
  "unregistered ok sent p ch e \<longleftrightarrow> arrivals e = [] \<and> ok (att_env (bearer (cl e))) \<and> sent (att_env (bearer (cl e))) = [] \<and> fresh_chrc ch \<and>
     chrcs (bearer (cl e)) p = Some ch \<and>
     (\<exists>c. client (bearer (cl e)) = Some c \<and> accepts p c \<and> notify_regs c = [] \<and> max 1 (next_reg_id c) < 2 ^ 31 - 1)"

text \<open>The peripheral takes the client configuration, which does not disturb the bootloader.\<close>

definition att_configure :: "'s peripheral \<Rightarrow> 's peer_view \<Rightarrow> notify_chrc \<Rightarrow> 's \<Rightarrow> bool" where
  "att_configure P V ch s \<longleftrightarrow> (\<exists>s'. P s BT_ATT_OP_WRITE_REQ (put_le16 (ccc_handle ch) @ [ccc_value (properties ch), 0]) =
     ([], (BT_ATT_OP_WRITE_RSP, None), [], s') \<and> settled V s' \<and> boot V s' = boot V s)"

context value_link
begin

lemma client_subscribes:
  fixes e :: "('e, 's) stack"
  assumes un: "unregistered ok sent p ch e" and conf: "att_configure P V ch (peer e)" and mtu: "5 < unat mtu"
  shows "subscribes (client_transport G sent pop reports P) (value_handle ch) (over_client ok sent mtu P (value_handle ch) V) e"
proof -
  let ?T = "client_transport G sent pop reports P" and ?V = "over_client ok sent mtu P (value_handle ch) V"
  obtain c where c: "arrivals e = []" "ok (att_env (bearer (cl e)))" "sent (att_env (bearer (cl e))) = []" "fresh_chrc ch"
      "chrcs (bearer (cl e)) p = Some ch" "client (bearer (cl e)) = Some c" "accepts p c" "notify_regs c = []" "max 1 (next_reg_id c) < 2 ^ 31 - 1"
    using un unfolding unregistered_def by blast
  obtain s where s: "P (peer e) BT_ATT_OP_WRITE_REQ (put_le16 (ccc_handle ch) @ [ccc_value (properties ch), 0]) =
      ([], (BT_ATT_OP_WRITE_RSP, None), [], s)" "settled V s" "boot V s = boot V (peer e)"
    using conf unfolding att_configure_def by blast
  have "room (Suc 0) (cl e)" using c(6,9) by (auto simp: room_def)
  from register_first [OF c(2,3,6,7,8,5,4) mtu this, of "(1, 2)"] obtain i w where w:
    "bt_gatt_client_register_notify G (value_handle ch) (Some (UpperRegistered 1)) (Some (UpperNotify 2)) None (cl e) = Some (i, w)"
    "i \<noteq> 0" "ok (att_env (bearer w))" "reports (att_env (bearer w)) = reports (att_env (bearer (cl e)))"
    "waiting sent p ch (gs_next (bearer (cl e))) [] [(1, 2)] w" by auto
  let ?d = "gs_next (bearer (cl e))" and ?e = "e\<lparr>cl := w\<rparr>"
  let ?e1 = "?e\<lparr>peer := s, arrivals := [Answered BT_ATT_OP_WRITE_RSP None]\<rparr>"
  obtain j c' where t: "j \<noteq> 0" "chrcs (bearer w) p = Some (ch\<lparr>ccc_write_id := j, reg_notify_queue := []\<rparr>)"
      "client (bearer w) = Some c'" "accepts p c'" "notify_regs c' = [?d]"
      "entries (notifies (bearer w)) p [?d] [(1, 2)]" "\<exists>n. notifies (bearer w) ?d = Some n \<and> nd_refs n = 2"
      "sent (att_env (bearer w)) = [(BT_ATT_OP_WRITE_REQ, put_le16 (ccc_handle ch) @ [ccc_value (properties ch), 0], EnableCccCb ?d)]"
    using w(5) unfolding waiting_def by (auto simp del: entries_simps)
  have start: "register_notify ?T (value_handle ch) e = (i, [], ?e)"
    using w(1) told_more [of reports w "cl e" "[]"] w(4) by (simp add: client_transport_def client_call_def)
  have hand: "poll_events ?T ?e = Some ([], ?e1)"
    using t(8) c(1) s(1) by (simp add: client_transport_def gatt_poll_def write_opcodes_differ)
  let ?w = "upd_att pop w" and ?ch = "ch\<lparr>ccc_write_id := j, reg_notify_queue := []\<rparr>"
  have q: "ok (att_env (bearer ?w))" "sent (att_env (bearer ?w)) = []" "reports (att_env (bearer ?w)) = reports (att_env (bearer w))"
    using pop [OF w(3)] t(8) by simp_all
  have ready: "client (bearer ?w) = Some c'" "0 < cl_refs c'" "chrcs (bearer ?w) p = Some ?ch"
      "notify_count ?ch = 0" "ccc_write_id ?ch \<noteq> 0" "reg_notify_queue ?ch = []"
      "entries (notifies (bearer ?w)) p [?d] [(1, 2)]" "\<exists>n. notifies (bearer ?w) ?d = Some n \<and> nd_refs n = 2"
    using t c(4) by (simp_all add: accepts_def fresh_chrc_def)
  obtain w2 where w2: "gc_respond G (EnableCccCb ?d) BT_ATT_OP_WRITE_RSP None ?w = Some w2" "ok (att_env (bearer w2))"
      "sent (att_env (bearer w2)) = []" "client (bearer w2) = Some c'"
      "chrcs (bearer w2) p = Some (?ch\<lparr>ccc_write_id := 0, reg_notify_queue := [], notify_count := 1 + int (length ([] :: ptr list))\<rparr>)"
      "entries (notifies (bearer w2)) p [?d] [(1, 2)]"
      "reports (att_env (bearer w2)) = reports (att_env (bearer w)) @ map (\<lambda>r. (fst r, Registered 0)) [(1 :: nat, 2 :: nat)]"
    using enabled [OF q(1) ready(1-6) write_answer_is_no_error ready(7,8), of None] unfolding q(2,3)
    by (elim exE conjE) (rule that)
  let ?e2 = "?e1\<lparr>cl := w2, arrivals := []\<rparr>"
  have answer: "poll_events ?T ?e1 = Some ([RegisterNotifyCb 0], ?e2)"
    using t(8) w2(1) told_more [OF w2(7)] by (simp add: client_transport_def gatt_poll_def ble_event_of_def)
  have "subscribed (value_handle ch) w2"
    unfolding subscribed_def using w2(4-6) t(4,5) by (intro exI [of _ p] exI [of _ ?d] exI [of _ c']) simp
  then have "attended ok sent (value_handle ch) w2" using w2(2,3) by (simp add: attended_def)
  then have settled: "settled ?V ?e2" "boot ?V ?e2 = boot ?V e" using w2(3) s(2,3) c(3) by (simp_all add: over_client_def)
  have rdy: "is_ready ?T e" using c(6,7) by (simp add: client_transport_def bt_gatt_client_is_ready_def accepts_def)
  have "polls ?T ?e ([[]] @ [[RegisterNotifyCb 0]]) ?e2" using hand answer by simp
  then have later: "\<exists>us. polls ?T ?e (us @ [[RegisterNotifyCb 0]]) ?e2 \<and>
      (\<forall>b \<in> set us. \<forall>ev \<in> set b. \<exists>h v. ev = NotifyCb h v \<and> h \<noteq> value_handle ch)"
    by (intro exI [of _ "[[]]"]) simp
  show ?thesis unfolding subscribes_def using rdy start w(2) settled later by blast
qed

end

section \<open>A concrete peripheral\<close>

text \<open>The bootloader of \<open>DfuTarget\<close> behind a control point with handle \<open>cp\<close>: it answers a write request there and then
  notifies its response, and takes everything else.\<close>

definition sim_peripheral :: "u32 \<Rightarrow> u16 \<Rightarrow> bootloader peripheral" where
  "sim_peripheral bs cp b opcode pdu =
     (if opcode = BT_ATT_OP_WRITE_CMD then ([], (0, None), [], sim_write (drop 2 pdu) b)
      else if get_le16 pdu = Some cp
      then (case sim_answer bs (drop 2 pdu) b of (v, b') \<Rightarrow> ([], (BT_ATT_OP_WRITE_RSP, None), [value_pdu cp v], b'))
      else ([], (BT_ATT_OP_WRITE_RSP, None), [], b))"

definition boot_view :: "bootloader peer_view" where
  "boot_view = \<lparr>settled = \<lambda>_. True, chunk_room = 514, boot = \<lambda>b. b\<rparr>"

lemma sim_answer_short: "sim_answer bs buf b = (v, b') \<Longrightarrow> length v < 65534"
  by (auto simp: sim_answer_def Let_def response_lengths ack_nth split: if_splits)

lemma sim_peripheral_protocol:
  "dfu_protocol bs boot_view (att_request (sim_peripheral bs cp) cp) (att_write (sim_peripheral bs cp) dt)"
proof (rule answers_as_sim)
  fix op buf e v b assume "sim_answer bs buf (boot boot_view e) = (v, b)"
  then have a: "sim_answer bs buf e = (v, b)" by (simp add: boot_view_def)
  have "att_request (sim_peripheral bs cp) cp op buf e v b"
    unfolding att_request_def using sim_answer_short [OF a]
    by (intro conjI exI [of _ "[]"] exI [of _ "[value_pdu cp v]"])
      (simp_all add: sim_peripheral_def write_opcodes_differ le16.get_put le16.put_width a)
  then show "\<exists>e'. att_request (sim_peripheral bs cp) cp op buf e v e' \<and> settled boot_view e' \<and> boot boot_view e' = b"
    by (simp add: boot_view_def)
next
  fix c e
  show "\<exists>e'. att_write (sim_peripheral bs cp) dt c e e' \<and> settled boot_view e' \<and> boot boot_view e' = sim_write c (boot boot_view e)"
    by (simp add: att_write_def sim_peripheral_def boot_view_def le16.put_width)
qed

definition cp_chrc :: notify_chrc where
  "cp_chrc = \<lparr>value_handle = 0x0f, ccc_handle = 0x10, properties = 0x10, notify_count = 0, reg_notify_queue = [], ccc_write_id = 0\<rparr>"

lemma cp_configured: "att_configure (sim_peripheral bs 0x0f) boot_view cp_chrc b"
  by (simp add: att_configure_def sim_peripheral_def write_opcodes_differ le16.get_put cp_chrc_def boot_view_def)

section \<open>An update over the GATT client\<close>

text \<open>C5 The GATT client carries the transfer: for a peripheral that answers single ATT write requests and takes
  write commands as the DFU protocol says, the requests that \<^verbatim>\<open>ble.c\<close> makes through \<^verbatim>\<open>gatt-client.c\<close>
  have the documented responses, data that was written reaches the bootloader before the next request,
  and the client is fit for the next request afterwards.\<close>

theorem gatt_client_carries_protocol:
  assumes "value_link G sent pop ok reports m" "9 \<le> unat m"
    and "dfu_protocol bs V (att_request P cp) (att_write P dt)"
  shows "dfu_target (client_transport G sent pop reports P) cp dt bs (over_client ok sent m P cp V)"
  by (rule value_link.client_carries_protocol [OF assms(1,3,2)])

theorem gatt_client_carries_protocol_witness:
  "dfu_target (client_transport value_host v_sent v_pop v_reports (sim_peripheral 4 0x0f)) 0x0f 0x0d 4
     (over_client (\<lambda>_. True) v_sent 23 (sim_peripheral 4 0x0f) 0x0f boot_view)"
  by (rule gatt_client_carries_protocol [OF demo_is_value_link _ sim_peripheral_protocol]) simp

text \<open>An attempt over any bearer that keeps the order.\<close>

lemma attempt_over_link:
  assumes "value_link G sent pop ok reports m" "9 \<le> unat m"
    and "dfu_protocol bs V (att_request P cp) (att_write P dt)" "att_configure P V ch (peer (env w))"
    and "unregistered ok sent p ch (env w)" "value_handle ch = cp"
    and "connected cp dt w" "Ble.ble.mtu (ble w) = m" "chunk_limit m \<le> chunk_room V"
    and "ready_for bs dat bin (boot V (peer (env w)))" "\<not> dont_resume w"
  shows "\<exists>w'. dfu_attempt (client_transport G sent pop reports P) dat bin w = Some (Some True, w') \<and> connected cp dt w' \<and>
    committed (target_at (over_client ok sent m P cp V) BLE_OBJ_TYPE_COMMAND w') = dat \<and>
    committed (target_at (over_client ok sent m P cp V) BLE_OBJ_TYPE_DATA w') = bin"
proof (rule dfu_attempt_completes)
  show "dfu_target (client_transport G sent pop reports P) cp dt bs (over_client ok sent m P cp V)"
    by (rule value_link.client_carries_protocol [OF assms(1,3,2)])
  show "subscribes (client_transport G sent pop reports P) cp (over_client ok sent m P cp V) (env w)"
    using value_link.client_subscribes [OF assms(1,5,4)] assms(2,6) by simp
  show "ready_for bs dat bin (boot (over_client ok sent m P cp V) (env w))"
    using assms(5,10) by (simp add: over_client_def unregistered_def)
  show "chunk_limit (Ble.ble.mtu (ble w)) \<le> chunk_room (over_client ok sent m P cp V)"
    using assms(8,9) by (simp add: over_client_def chunk_limit_def)
qed (use assms(7,11) in simp_all)

end
