(* ===== verification/AttLink.thy ===== *)
theory AttLink
  imports AttProtocol
begin

text \<open>
  The ATT bearer as a link that carries operations in order, for the layers above that need no more of it:
  what waits to be sent or answered, in the order in which the bearer gets to it, a send that joins the
  end, and the end of the first operation, made of the functions that the events of the socket run.
  The theories \<open>Bearer\<close> and \<open>Discovery\<close> state what they need of a bearer as locales.
\<close>

section \<open>The order of the operations\<close>

text \<open>Commands go first; a pending request is before those that wait.\<close>

definition in_order :: "('c, 'e) bt_att \<Rightarrow> 'c att_send_op list" where
  "in_order a = write_queue a @ (case pending_req a of None \<Rightarrow> [] | Some op \<Rightarrow> [op]) @ req_queue a"

text \<open>A bearer with a connection of the given MTU, without signatures and indications.\<close>

definition plain_link :: "u16 \<Rightarrow> ('c, 'e) bt_att \<Rightarrow> bool" where
  "plain_link m a \<longleftrightarrow> att_ok a \<and> att_io a \<and> ind_queue a = [] \<and> pending_ind a = None \<and> att_mtu a = m \<and> local_sign a = None"

lemma plain_link_env [simp]:
  "plain_link m (a\<lparr>att_env := e\<rparr>) = plain_link m a" "plain_link m (upd_env f a) = plain_link m a"
  "plain_link m (remove_timeout H t a) = plain_link m a"
  "plain_link m (a\<lparr>in_req := b\<rparr>) = plain_link m a" "in_order (a\<lparr>in_req := b\<rparr>) = in_order a"
  "in_order (a\<lparr>att_env := e\<rparr>) = in_order a" "in_order (upd_env f a) = in_order a" "in_order (remove_timeout H t a) = in_order a"
  by (simp_all add: plain_link_def in_order_def upd_env_def remove_timeout_def att_ok_def)

lemma plain_link_wakeup [simp]:
  "plain_link m (wakeup_writer H a) = plain_link m a" "in_order (wakeup_writer H a) = in_order a"
  by (auto simp: wakeup_writer_def plain_link_def in_order_def att_ok_def split: prod.splits)

section \<open>Sending\<close>

text \<open>A send joins the end: a request always, a command when only commands wait.\<close>

lemma send_in_order:
  fixes a :: "('c, 'e) bt_att"
  assumes "plain_link m a" "length pdu < unat m"
    and "elicits_response (get_op_type opcode) \<longleftrightarrow> cb \<noteq> None" "get_op_type opcode \<notin> {ATT_OP_TYPE_UNKNOWN, ATT_OP_TYPE_IND}"
    and "cb = None \<longrightarrow> (\<forall>op \<in> set (in_order a). \<not> elicits_response (op_type op))"
  shows "\<exists>i b op. att_send H opcode (Some pdu) (word_of_nat (length pdu)) cb (Some c) a = Some (i, b) \<and> i \<noteq> 0 \<and> plain_link m b \<and>
    in_order b = in_order a @ [op] \<and> op_pdu op = opcode # pdu \<and> op_destroy op = Some c \<and> op_type op = get_op_type opcode"
proof -
  let ?len = "word_of_nat (length pdu) :: u16"
  have small: "length pdu < 65535" using assms(2) unat_u16_lt [of m] by simp
  have len: "unat ?len = length pdu" using small by (simp add: unat_of_nat take_bit_nat_eq_self)
  have n: "unat (pdu_length False (Some pdu) ?len) = 1 + length pdu" using small len by (simp add: unat_pdu_length)
  have m: "att_mtu a = m" "local_sign a = None" "att_io a" "att_ok a" "ind_queue a = []" "pending_ind a = None"
    using assms(1) by (simp_all add: plain_link_def)
  have fits: "\<not> pdu_length False (Some pdu) ?len > m" "pdu_length False (Some pdu) ?len \<noteq> 0"
    "1 < pdu_length False (Some pdu) ?len \<longleftrightarrow> pdu \<noteq> []"
    using n assms(2) by (auto simp: word_less_nat_alt simp flip: unat_eq_0)
  have same: "ucast (ucast opcode :: u16) = opcode" by (auto intro!: bit_word_eqI simp: bit_simps)
  let ?op = "\<lparr>op_id = 0, op_timeout_id = 0, op_type = get_op_type opcode, op_opcode = ucast opcode, op_pdu = opcode # pdu,
    op_len = pdu_length False (Some pdu) ?len, op_callback = cb, op_destroy = Some c\<rparr>"
  have create: "create_att_send_op H opcode (Some pdu) ?len cb (Some c) a = Some (Some ?op, a)"
    using assms(3,4) fits n len m(1,2)
    by (auto simp: create_att_send_op_def encode_pdu_def Let_def pdu_body_def array_slice_def same)
  let ?i = "fresh_id (next_send_id a)"
  let ?b = "queue_op (?op\<lparr>op_id := ?i\<rparr>) (a\<lparr>next_send_id := ?i + 1\<rparr>)"
  have "att_send H opcode (Some pdu) ?len cb (Some c) a = Some (?i, wakeup_writer H ?b)"
    using create m(3) by (simp add: att_send_def Let_def)
  moreover have "?i \<noteq> 0" by (auto simp: fresh_id_def word_less_nat_alt unat_gt_0)
  moreover have wf: "op_wf (?op\<lparr>op_id := ?i\<rparr>)" using n same by (simp add: op_wf_def)
  moreover have "in_order ?b = in_order a @ [?op\<lparr>op_id := ?i\<rparr>]" "plain_link m ?b"
  proof -
    have "pending_req a = None" "req_queue a = []" if "cb = None"
    proof -
      have all: "\<forall>op \<in> set (in_order a). \<not> elicits_response (op_type op)" using assms(5) that by blast
      show "pending_req a = None"
      proof (rule ccontr)
        assume "pending_req a \<noteq> None"
        then obtain op where "pending_req a = Some op" by blast
        then show False using all m(4) by (auto simp: in_order_def att_ok_def elicits_response_def)
      qed
      show "req_queue a = []"
      proof (rule ccontr)
        assume "req_queue a \<noteq> []"
        then show False using all m(4) by (cases "req_queue a") (auto simp: in_order_def att_ok_def elicits_response_def)
      qed
    qed
    then show "in_order ?b = in_order a @ [?op\<lparr>op_id := ?i\<rparr>]"
      using assms(3,4) by (cases "get_op_type opcode") (auto simp: queue_op_def in_order_def elicits_response_def)
    have "att_ok (a\<lparr>next_send_id := ?i + 1\<rparr>)" using m(4) by (simp add: att_ok_def)
    then have "att_ok ?b" using queue_op_evolves [OF wf, of "a\<lparr>next_send_id := ?i + 1\<rparr>"] by (simp add: evolves_def)
    then show "plain_link m ?b"
      using m assms(4) by (cases "get_op_type opcode") (auto simp: plain_link_def queue_op_def)
  qed
  ultimately show ?thesis by (intro exI [of _ ?i] exI [of _ "wakeup_writer H ?b"] exI [of _ "?op\<lparr>op_id := ?i\<rparr>"]) simp
qed

section \<open>The end of the first operation\<close>

text \<open>The bearer writes the first operation next, unless that is a request whose response is awaited.\<close>

lemma next_is_first:
  assumes "plain_link m a" "write_queue a \<noteq> [] \<or> pending_req a = None"
  shows "fst (pick_next_send_op a) = (case in_order a of [] \<Rightarrow> None | op # _ \<Rightarrow> Some op)"
  using assms by (auto simp: pick_next_send_op_def in_order_def plain_link_def split: list.splits)

text \<open>A command ends when it is written; a request is written, if it was not, and ends with the response to it.
  The callbacks of the operation are left to the layer above (\<open>quiet_host\<close>).\<close>

definition written_next :: "('c, 'e) att_host \<Rightarrow> ('c, 'e) bt_att \<Rightarrow> ('c, 'e) bt_att" where
  "written_next H a = (case can_write_data (quiet_host H) a of Some (_, b) \<Rightarrow> b | None \<Rightarrow> a)"

definition response_read :: "('c, 'e) att_host \<Rightarrow> ('c, 'e) bt_att \<Rightarrow> ('c, 'e) bt_att" where
  "response_read H a = (case pending_req a of None \<Rightarrow> a
     | Some op \<Rightarrow> (case handle_rsp (quiet_host H) (ucast (op_opcode op) + 1) [] a of Some b \<Rightarrow> b | None \<Rightarrow> a))"

definition first_done :: "('c, 'e) att_host \<Rightarrow> ('c, 'e) bt_att \<Rightarrow> ('c, 'e) bt_att" where
  "first_done H a =
     (if write_queue a \<noteq> [] then written_next H a
      else response_read H (if pending_req a = None then written_next H a else a))"

lemma quiet_calls [simp]:
  "call_up (quiet_host H) ev cb a = Some a" "destroy_att_send_op (quiet_host H) op a = Some (remove_timeout (quiet_host H) (op_timeout_id op) a)"
  by (simp_all add: call_up_def quiet_host_def destroy_att_send_op_def split: option.split)

lemma command_written:
  assumes "plain_link m a" "write_queue a = op # q"
  shows "plain_link m (written_next H a) \<and> in_order (written_next H a) = tl (in_order a)"
proof -
  have ty: "op_type op \<noteq> ATT_OP_TYPE_REQ" "op_type op \<noteq> ATT_OP_TYPE_IND"
    using assms by (auto simp: plain_link_def att_ok_def elicits_response_def)
  let ?a = "a\<lparr>write_queue := q\<rparr>"
  have a: "plain_link m ?a" "in_order ?a = tl (in_order a)"
    using assms by (auto simp: plain_link_def in_order_def att_ok_def)
  obtain ret e where e: "host_send (quiet_host H) (op_pdu op) (att_env a) = (ret, e)" by (rule prod.exhaust)
  have "written_next H a \<in> {remove_timeout (quiet_host H) (op_timeout_id op) (?a\<lparr>att_env := e\<rparr>),
      remove_timeout (quiet_host H) (op_timeout_id op) (?a\<lparr>att_env := e, in_req := False\<rparr>)}"
    using assms(2) e ty by (cases "op_type op"; cases "ret < 0") (auto simp: written_next_def can_write_data_def pick_next_send_op_def sent_op_def Let_def)
  then show ?thesis using a by (elim insertE emptyE) simp_all
qed

text \<open>A request that was taken from the queue is pending, or it is gone when it could not be written.\<close>

lemma request_written:
  assumes "plain_link m a" "write_queue a = []" "pending_req a = None"
  shows "plain_link m (written_next H a) \<and>
    (in_order (written_next H a) = tl (in_order a) \<and> pending_req (written_next H a) = None \<or>
     (\<exists>op. pending_req (written_next H a) = Some op) \<and> tl (in_order (written_next H a)) = tl (in_order a)) \<and>
    write_queue (written_next H a) = []"
proof (cases "req_queue a")
  case Nil
  then have "written_next H a = a"
    using assms by (simp add: written_next_def can_write_data_def pick_next_send_op_def plain_link_def)
  then show ?thesis using assms Nil by (simp add: in_order_def)
next
  case (Cons op q)
  have op: "op_type op = ATT_OP_TYPE_REQ" "op_wf op" using assms(1) Cons by (auto simp: plain_link_def att_ok_def)
  let ?a = "a\<lparr>req_queue := q\<rparr>"
  obtain ret e where e: "host_send (quiet_host H) (op_pdu op) (att_env a) = (ret, e)" by (rule prod.exhaust)
  obtain t e' where t: "host_timeout_add (quiet_host H) ATT_TIMEOUT_INTERVAL (op_id op) e = (t, e')" by (rule prod.exhaust)
  have a: "plain_link m ?a" "in_order ?a = tl (in_order a)" using assms Cons by (auto simp: plain_link_def in_order_def att_ok_def)
  show ?thesis
  proof (cases "ret < 0")
    case True
    then have "written_next H a = remove_timeout (quiet_host H) (op_timeout_id op) (?a\<lparr>att_env := e\<rparr>)"
      using assms(2,3) Cons e by (simp add: written_next_def can_write_data_def pick_next_send_op_def Let_def)
    moreover have "pending_req (remove_timeout (quiet_host H) (op_timeout_id op) (?a\<lparr>att_env := e\<rparr>)) = None"
      "write_queue (remove_timeout (quiet_host H) (op_timeout_id op) (?a\<lparr>att_env := e\<rparr>)) = []"
      using assms(2,3) by (simp_all add: remove_timeout_def upd_env_def)
    ultimately show ?thesis using a by simp
  next
    case False
    then have w: "written_next H a = ?a\<lparr>att_env := e', pending_req := Some (op\<lparr>op_timeout_id := t\<rparr>)\<rparr>"
      using assms(2,3) Cons e t op
      by (simp add: written_next_def can_write_data_def pick_next_send_op_def sent_op_def start_timer_def Let_def)
    have "plain_link m (?a\<lparr>att_env := e', pending_req := Some (op\<lparr>op_timeout_id := t\<rparr>)\<rparr>)"
      using a(1) op by (auto simp: plain_link_def att_ok_def op_wf_def)
    then show ?thesis unfolding w using assms(2) Cons by (simp add: in_order_def assms(3))
  qed
qed

lemma pending_answered:
  assumes "plain_link m a" "write_queue a = []" "pending_req a = Some op"
  shows "plain_link m (response_read H a) \<and> in_order (response_read H a) = tl (in_order a)"
proof -
  let ?b = "(remove_timeout (quiet_host H) (op_timeout_id op) a)\<lparr>pending_req := None\<rparr>"
  have "response_read H a = wakeup_writer (quiet_host H) ?b"
    using assms(3) by (simp add: response_read_def handle_rsp_def complete_req_def)
  moreover have "plain_link m ?b" "in_order ?b = tl (in_order a)"
    using assms by (auto simp: plain_link_def in_order_def att_ok_def remove_timeout_def upd_env_def)
  ultimately show ?thesis by simp
qed

lemma first_done_in_order:
  assumes "plain_link m a"
  shows "plain_link m (first_done H a)" "in_order (first_done H a) = tl (in_order a)"
proof -
  have "plain_link m (first_done H a) \<and> in_order (first_done H a) = tl (in_order a)"
  proof (cases "write_queue a")
    case (Cons op q)
    then show ?thesis using command_written [OF assms Cons] by (simp add: first_done_def)
  next
    case Nil
    show ?thesis
    proof (cases "pending_req a")
      case None
      let ?b = "written_next H a"
      from request_written [OF assms Nil None] have b: "plain_link m ?b" "write_queue ?b = []"
        "in_order ?b = tl (in_order a) \<and> pending_req ?b = None \<or> (\<exists>op. pending_req ?b = Some op) \<and> tl (in_order ?b) = tl (in_order a)"
        by blast+
      from b(3) show ?thesis
      proof
        assume "in_order ?b = tl (in_order a) \<and> pending_req ?b = None"
        then show ?thesis using Nil None b(1) by (simp add: first_done_def response_read_def)
      next
        assume "(\<exists>op. pending_req ?b = Some op) \<and> tl (in_order ?b) = tl (in_order a)"
        then show ?thesis using pending_answered [OF b(1,2)] Nil None by (auto simp: first_done_def)
      qed
    next
      case (Some op)
      then show ?thesis using pending_answered [OF assms Nil Some] Nil by (simp add: first_done_def)
    qed
  qed
  then show "plain_link m (first_done H a)" "in_order (first_done H a) = tl (in_order a)" by simp_all
qed

section \<open>A bearer and what the layer above was told\<close>

record ('c, 'x, 'n) carrier =
  under :: "('c, 'x) bt_att"
  noted :: "'n list"

definition carried :: "('c, 'x, 'n) carrier \<Rightarrow> (byte \<times> bytes \<times> 'c) list" where
  "carried e = map (\<lambda>op. (hd (op_pdu op), tl (op_pdu op), the (op_destroy op))) (in_order (under e))"

definition carry :: "('c, 'x) att_host \<Rightarrow> byte \<Rightarrow> bytes \<Rightarrow> bool \<Rightarrow> 'c \<Rightarrow> ('c, 'x, 'n) carrier \<Rightarrow> (u32 \<times> ('c, 'x, 'n) carrier) option" where
  "carry H opcode pdu answered c e =
     map_option (\<lambda>(i, a). (i, e\<lparr>under := a\<rparr>))
       (att_send H opcode (Some pdu) (word_of_nat (length pdu)) (if answered then Some c else None) (Some c) (under e))"

definition carried_first :: "('c, 'x) att_host \<Rightarrow> ('c, 'x, 'n) carrier \<Rightarrow> ('c, 'x, 'n) carrier" where
  "carried_first H e = e\<lparr>under := first_done H (under e)\<rparr>"

text \<open>What is known of the operations that wait: those with a callback are requests.\<close>

definition carrier_ok :: "u16 \<Rightarrow> ('c \<Rightarrow> bool) \<Rightarrow> ('c, 'x, 'n) carrier \<Rightarrow> bool" where
  "carrier_ok m answered e \<longleftrightarrow> plain_link m (under e) \<and>
     (\<forall>op \<in> set (in_order (under e)). answered (the (op_destroy op)) \<longleftrightarrow> elicits_response (op_type op))"

lemma carrier_notes [simp]:
  "carried (e\<lparr>noted := ns\<rparr>) = carried e" "carrier_ok m answered (e\<lparr>noted := ns\<rparr>) = carrier_ok m answered e"
  by (simp_all add: carried_def carrier_ok_def)

lemma carry_ok:
  assumes "carrier_ok m answered e" "length pdu < unat m"
    and "answered c \<longleftrightarrow> elicits_response (get_op_type opcode)" "get_op_type opcode \<notin> {ATT_OP_TYPE_UNKNOWN, ATT_OP_TYPE_IND}"
    and "\<not> answered c \<longrightarrow> (\<forall>x \<in> set (carried e). \<not> answered (snd (snd x)))"
  shows "\<exists>i e'. carry H opcode pdu (answered c) c e = Some (i, e') \<and> i \<noteq> 0 \<and> carrier_ok m answered e' \<and>
    carried e' = carried e @ [(opcode, pdu, c)] \<and> noted e' = noted e"
proof -
  have link: "plain_link m (under e)" using assms(1) by (simp add: carrier_ok_def)
  let ?cb = "if answered c then Some c else None"
  have "\<not> answered c \<Longrightarrow> \<forall>op \<in> set (in_order (under e)). \<not> elicits_response (op_type op)"
    using assms(1,5) by (auto simp: carrier_ok_def carried_def)
  then obtain i b op where b: "att_send H opcode (Some pdu) (word_of_nat (length pdu)) ?cb (Some c) (under e) = Some (i, b)" "i \<noteq> 0"
      "plain_link m b" "in_order b = in_order (under e) @ [op]" "op_pdu op = opcode # pdu" "op_destroy op = Some c" "op_type op = get_op_type opcode"
    using send_in_order [OF link assms(2), of opcode ?cb H c] assms(3,4) by (auto split: if_splits)
  then show ?thesis
    using assms(1,3) by (intro exI [of _ i] exI [of _ "e\<lparr>under := b\<rparr>"]) (auto simp: carry_def carried_def carrier_ok_def)
qed

lemma carried_first_ok:
  assumes "carrier_ok m answered e"
  shows "carrier_ok m answered (carried_first H e)" "carried (carried_first H e) = tl (carried e)" "noted (carried_first H e) = noted e"
proof -
  have link: "plain_link m (under e)" using assms by (simp add: carrier_ok_def)
  note f = first_done_in_order [OF link, of H]
  show "carrier_ok m answered (carried_first H e)"
    using assms f list.set_sel(2) [of "in_order (under e)"]
    by (cases "in_order (under e)") (auto simp: carrier_ok_def carried_first_def)
  show "carried (carried_first H e) = tl (carried e)" "noted (carried_first H e) = noted e"
    using f by (simp_all add: carried_def carried_first_def map_tl)
qed

end
