(* ===== verification/Bearer.thy ===== *)
theory Bearer
  imports AttLink Discovery ClientValues
begin

text \<open>
  The ATT bearer of \<^verbatim>\<open>bluez/att.c\<close> below the GATT client and below the discovery procedures: the model of
  \<^verbatim>\<open>att.c\<close> provides what \<open>value_link\<close> and \<open>att_link\<close> ask of a bearer, for every socket, timer and
  cipher below it. What the client hands to the bearer is a token: an operation, or one of the functions
  that it registers. The callbacks of an operation are made by the client's side, after the bearer has
  taken the operation off; a function above that is told something notes it.
\<close>

section \<open>The bearer of the GATT client\<close>

datatype token = Operation gc_op | NotifyHandler | DisconnectHandler

fun token_op :: "token \<Rightarrow> gc_op" where
  "token_op (Operation op) = op"
| "token_op NotifyHandler = Confirmation"
| "token_op DisconnectHandler = Confirmation"

abbreviation answered :: "token \<Rightarrow> bool" where
  "answered c \<equiv> wants_answer (token_op c)"

type_synonym 'x client_bearer = "(token, 'x, nat \<times> gc_event) carrier"

text \<open>The operation whose object is released when operation \<open>i\<close> is cancelled.\<close>

definition released :: "u32 \<Rightarrow> (token, 'x) bt_att \<Rightarrow> gc_op option" where
  "released i a = map_option token_op
     (if is_pending i (pending_req a) then Option.bind (pending_req a) op_destroy
      else if is_pending i (pending_ind a) then Option.bind (pending_ind a) op_destroy
      else Option.bind (fst (take_queued i a)) op_destroy)"

definition on_bearer :: "((token, 'x) bt_att \<Rightarrow> ('r \<times> (token, 'x) bt_att) option) \<Rightarrow> 'r \<Rightarrow> 'x client_bearer \<Rightarrow> 'r \<times> 'x client_bearer" where
  "on_bearer f r e = (case f (under e) of None \<Rightarrow> (r, e) | Some (x, a) \<Rightarrow> (x, e\<lparr>under := a\<rparr>))"

definition bearer_host :: "(token, 'x) att_host \<Rightarrow> 'x client_bearer gc_host" where
  "bearer_host H =
     \<lparr>gc_alloc = (\<lambda>_. True),
      gc_send = (\<lambda>opcode pdu op. carry H opcode pdu (wants_answer op) (Operation op)),
      gc_cancel = (\<lambda>i e. map_option (\<lambda>(found, a). (found, released i (under e), e\<lparr>under := a\<rparr>)) (Att.att_cancel (quiet_host H) i (under e))),
      gc_mtu = (\<lambda>e. bt_att_get_mtu (Some (under e))),
      gc_set_mtu = (\<lambda>mtu e. map_option (\<lambda>(_, a). case a of None \<Rightarrow> e | Some a \<Rightarrow> e\<lparr>under := a\<rparr>) (bt_att_set_mtu mtu (Some (under e)))),
      gc_sec_level = (\<lambda>e. bt_att_get_sec_level H (Some (under e))),
      gc_set_sec_level = (\<lambda>level e. case bt_att_set_sec_level H level (Some (under e)) of
          Some (ok, Some a) \<Rightarrow> (ok, e\<lparr>under := a\<rparr>) | _ \<Rightarrow> (False, e)),
      gc_register = (\<lambda>opcode. on_bearer (att_register opcode (Some NotifyHandler) None) 0),
      gc_unregister = (\<lambda>i. snd \<circ> on_bearer (att_unregister (quiet_host H) i) False),
      gc_register_disconnect = on_bearer (att_register_disconnect (Some DisconnectHandler) None) 0,
      gc_unregister_disconnect = (\<lambda>i. snd \<circ> on_bearer (att_unregister_disconnect (quiet_host H) i) False),
      gc_att_ref = (\<lambda>e. e\<lparr>under := att_ref (under e)\<rparr>),
      gc_att_unref = (\<lambda>e. case att_unref (quiet_host H) (under e) of None \<Rightarrow> e | Some a \<Rightarrow> e\<lparr>under := a\<rparr>),
      gc_call = (\<lambda>n ev w. Some (upd_att (\<lambda>e. e\<lparr>noted := noted e @ [(n, ev)]\<rparr>) w)),
      gc_destroyed = (\<lambda>_ w. Some w)\<rparr>"

definition bearer_sent :: "'x client_bearer \<Rightarrow> (byte \<times> bytes \<times> gc_op) list" where
  "bearer_sent e = map (\<lambda>(opcode, pdu, c). (opcode, pdu, token_op c)) (carried e)"

lemma opcode_types:
  "opcode \<in> request_opcodes \<Longrightarrow> get_op_type opcode = ATT_OP_TYPE_REQ"
  "opcode \<in> command_opcodes \<Longrightarrow> get_op_type opcode \<in> {ATT_OP_TYPE_CMD, ATT_OP_TYPE_CONF}"
  by (auto simp: request_opcodes_def command_opcodes_def get_op_type_def att_opcode_type_table_def)

lemma bearer_sends:
  assumes "carrier_ok m answered e" "length pdu < unat m" "takes opcode op (bearer_sent e)"
  shows "\<exists>i e'. gc_send (bearer_host H) opcode pdu op e = Some (i, e') \<and> i \<noteq> 0 \<and> carrier_ok m answered e' \<and>
    bearer_sent e' = bearer_sent e @ [(opcode, pdu, op)] \<and> noted e' = noted e"
proof -
  have ty: "answered (Operation op) \<longleftrightarrow> elicits_response (get_op_type opcode)" "get_op_type opcode \<notin> {ATT_OP_TYPE_UNKNOWN, ATT_OP_TYPE_IND}"
    using assms(3) opcode_types [of opcode] by (auto simp: takes_def elicits_response_def split: if_splits)
  have "\<not> answered (Operation op) \<longrightarrow> (\<forall>x \<in> set (carried e). \<not> answered (snd (snd x)))"
    using assms(3) by (fastforce simp: takes_def bearer_sent_def)
  from carry_ok [OF assms(1,2) ty this] obtain i e' where "carry H opcode pdu (answered (Operation op)) (Operation op) e = Some (i, e')"
    "i \<noteq> 0" "carrier_ok m answered e'" "carried e' = carried e @ [(opcode, pdu, Operation op)]" "noted e' = noted e" by blast
  then show ?thesis by (simp add: bearer_host_def bearer_sent_def)
qed

text \<open>The ATT bearer is a link for the client.\<close>

lemma bearer_is_value_link:
  "value_link (bearer_host H) bearer_sent (carried_first H) (carrier_ok m answered) noted m"
proof
  show "gc_alloc (bearer_host H) w" for w by (simp add: bearer_host_def)
  show "\<exists>i e'. gc_send (bearer_host H) opcode pdu op e = Some (i, e') \<and> i \<noteq> 0 \<and> carrier_ok m answered e' \<and>
      bearer_sent e' = bearer_sent e @ [(opcode, pdu, op)] \<and> noted e' = noted e"
    if "carrier_ok m answered e" "length pdu < unat m" "takes opcode op (bearer_sent e)" for e pdu opcode op
    using bearer_sends [OF that] .
  show "carrier_ok m answered (carried_first H e) \<and> bearer_sent (carried_first H e) = tl (bearer_sent e) \<and>
      noted (carried_first H e) = noted e" if "carrier_ok m answered e" for e
    using carried_first_ok [OF that, of H] by (simp add: bearer_sent_def map_tl)
  show "gc_mtu (bearer_host H) e = m" if "carrier_ok m answered e" for e
    using that by (simp add: bearer_host_def bt_att_get_mtu_def carrier_ok_def plain_link_def)
  show "\<exists>e. gc_call (bearer_host H) n ev w = Some (upd_att (\<lambda>_. e) w) \<and> carrier_ok m answered e \<and>
      bearer_sent e = bearer_sent (gatt_state.att_env (bearer w)) \<and> noted e = noted (gatt_state.att_env (bearer w)) @ [(n, ev)]"
    if "carrier_ok m answered (gatt_state.att_env (bearer w))" for w n ev
    using that by (intro exI [of _ "(gatt_state.att_env (bearer w))\<lparr>noted := noted (gatt_state.att_env (bearer w)) @ [(n, ev)]\<rparr>"])
      (simp add: bearer_host_def bearer_sent_def upd_def)
  show "\<exists>e. gc_destroyed (bearer_host H) n w = Some (upd_att (\<lambda>_. e) w) \<and> carrier_ok m answered e \<and>
      bearer_sent e = bearer_sent (gatt_state.att_env (bearer w)) \<and> noted e = noted (gatt_state.att_env (bearer w))"
    if "carrier_ok m answered (gatt_state.att_env (bearer w))" for w n
    using that by (intro exI [of _ "gatt_state.att_env (bearer w)"]) (simp add: bearer_host_def upd_def)
qed

interpretation att_bearer: value_link "bearer_host H" bearer_sent "carried_first H" "carrier_ok m answered" noted m
  for H :: "(token, 'x) att_host" and m :: u16
  by (rule bearer_is_value_link)

section \<open>The bearer of the discovery procedures\<close>

type_synonym 'x discovery_bearer = "(gh_cb, 'x, report) carrier"

definition discovery_host :: "(gh_cb, 'x) att_host \<Rightarrow> 'x discovery_bearer gh_host" where
  "discovery_host H =
     \<lparr>gh_alloc = (\<lambda>_. True),
      gh_send = (\<lambda>opcode pdu cb. carry H opcode pdu True cb),
      gh_cancel = (\<lambda>i e. map_option (\<lambda>(found, a).
          (if is_pending i (pending_req (under e)) then Option.bind (pending_req (under e)) op_destroy
           else Option.bind (fst (take_queued i (under e))) op_destroy, e\<lparr>under := a\<rparr>)) (Att.att_cancel (quiet_host H) i (under e))),
      gh_set_mtu = (\<lambda>mtu e. map_option (\<lambda>(_, a). case a of None \<Rightarrow> e | Some a \<Rightarrow> e\<lparr>under := a\<rparr>) (bt_att_set_mtu mtu (Some (under e)))),
      gh_call = (\<lambda>c s ec rs w. Some (w\<lparr>bearer := (bearer w)\<lparr>noted := noted (bearer w) @ [(c, s, ec, rs)]\<rparr>\<rparr>)),
      gh_mtu_call = (\<lambda>_ _ _ w. Some w), gh_destroyed = (\<lambda>_ w. Some w)\<rparr>"

lemma discovery_opcode_type: "opcode \<in> {0x04, 0x06, 0x08, 0x0A, 0x10} \<Longrightarrow> get_op_type opcode = ATT_OP_TYPE_REQ"
  by (auto simp: get_op_type_def att_opcode_type_table_def)

lemma bearer_is_att_link:
  assumes "22 < unat m"
  shows "att_link (discovery_host H) carried (carried_first H) (carrier_ok m (\<lambda>_. True)) noted"
proof
  show "gh_alloc (discovery_host H) w" for w by (simp add: discovery_host_def)
  show "\<exists>i e'. gh_send (discovery_host H) opcode pdu cb e = Some (i, e') \<and> i \<noteq> 0 \<and> carrier_ok m (\<lambda>_. True) e' \<and>
      carried e' = carried e @ [(opcode, pdu, cb)] \<and> noted e' = noted e"
    if "carrier_ok m (\<lambda>_. True) e" "length pdu \<le> 22" "opcode \<in> {0x04, 0x06, 0x08, 0x0A, 0x10}" for e pdu opcode cb
    using carry_ok [OF that(1), where pdu = pdu and c = cb and opcode = opcode and H = H] that(2) assms discovery_opcode_type [OF that(3)]
    by (simp add: discovery_host_def elicits_response_def)
  show "carrier_ok m (\<lambda>_. True) (carried_first H e) \<and> carried (carried_first H e) = tl (carried e) \<and>
      noted (carried_first H e) = noted e" if "carrier_ok m (\<lambda>_. True) e" for e
    using carried_first_ok [OF that, of H] by simp
  show "\<exists>e. gh_call (discovery_host H) c s ec rs w = Some (w\<lparr>bearer := e\<rparr>) \<and> carrier_ok m (\<lambda>_. True) e \<and>
      carried e = carried (bearer w) \<and> noted e = noted (bearer w) @ [(c, s, ec, rs)]"
    if "carrier_ok m (\<lambda>_. True) (bearer w)" for w c s ec rs
    using that by (intro exI [of _ "(bearer w)\<lparr>noted := noted (bearer w) @ [(c, s, ec, rs)]\<rparr>"]) (simp add: discovery_host_def)
qed

interpretation att_discovery: att_link "discovery_host H" carried "carried_first H" "carrier_ok ATT_DEFAULT_LE_MTU (\<lambda>_. True)" noted
  for H :: "(gh_cb, 'x) att_host"
  by (rule bearer_is_att_link) (simp add: ATT_DEFAULT_LE_MTU_def)

section \<open>A bearer\<close>

text \<open>A host that takes every write, with nothing but its timers to remember, and a new bearer on it.\<close>

definition taking_host :: "('c, nat) att_host" where
  "taking_host =
     \<lparr>upper = (\<lambda>_ a. Some a), host_send = (\<lambda>pdu e. (int (length pdu), e)), host_set_write_handler = (\<lambda>e. (True, e)),
      host_shutdown = (\<lambda>e. e), host_io_destroy = (\<lambda>e. e), host_io_close_on_destroy = (\<lambda>_ e. (True, e)),
      host_timeout_add = (\<lambda>_ _ e. (word_of_nat (e + 1), e + 1)), host_timeout_remove = (\<lambda>_ e. e),
      host_counter = (\<lambda>_ _ e. (None, e)), host_sign = (\<lambda>_ _ _ e. (None, e)), host_read = (\<lambda>_ e. (None, e)),
      host_so_error = (\<lambda>_. None), host_get_sec_level = (\<lambda>_. Some 1), host_set_sec_level = (\<lambda>_ e. (True, e)),
      host_is_l2cap = (\<lambda>_. True), host_io_new = (\<lambda>e. (True, e)), host_crypto_new = (\<lambda>e. (False, e)),
      host_set_handlers = (\<lambda>e. (True, e))\<rparr>"

definition client_link :: "(token, nat, nat \<times> gc_event) carrier" where
  "client_link = \<lparr>under = att_ref (new_bt_att 3 0), noted = []\<rparr>"

lemma client_link_ok: "carrier_ok 23 answered client_link" "bearer_sent client_link = []" "noted client_link = []"
  by (simp_all add: client_link_def carrier_ok_def plain_link_def att_ok_def new_bt_att_def att_ref_def in_order_def
      bearer_sent_def carried_def ATT_DEFAULT_LE_MTU_def)

end
