(* ===== verification/Composition.thy ===== *)
theory Composition
  imports ClientTransport Bearer
begin

text \<open>
  The layers together: \<^verbatim>\<open>dfu.c\<close> and \<^verbatim>\<open>ble.c\<close> over the model of \<^verbatim>\<open>gatt-client.c\<close>, which is over the model of
  \<^verbatim>\<open>att.c\<close>. What is left as a parameter is the socket with the peripheral behind it.
\<close>

section \<open>A client on a bearer\<close>

definition cp_known :: "((token, nat, nat \<times> gc_event) carrier, bootloader) stack" where
  "cp_known = \<lparr>cl = \<lparr>bearer = \<lparr>gatt_state.att_env = client_link, client = Some (demo_client\<lparr>notify_chrcs := [1]\<rparr>),
       gatt_state.database = gatt_db_new, db_refs = 2, gatt_state.requests = \<lambda>_. None, notifies = \<lambda>_. None, chrcs = [1 \<mapsto> cp_chrc],
       disc_ops = \<lambda>_. None, gs_next = 2\<rparr>,
     gh_reqs = \<lambda>_. None, gh_incls = \<lambda>_. None, gh_mtus = \<lambda>_. None, gh_next = 1\<rparr>, peer = fresh_boot, arrivals = []\<rparr>"

lemma cp_known_unregistered: "unregistered (carrier_ok 23 answered) bearer_sent 1 cp_chrc cp_known"
  using client_link_ok
  by (simp add: unregistered_def cp_known_def cp_chrc_def demo_client_def new_client_def fresh_chrc_def accepts_def
      ccc_value_def BT_GATT_CHRC_PROP_NOTIFY_def BT_GATT_CHRC_PROP_INDICATE_def)

section \<open>An attempt through all layers\<close>



end
