(* ===== verification/ClientLife.thy ===== *)
theory ClientLife
  imports ClientValues
begin

text \<open>
  Operations of the GATT client that do not come to an answer: the ones that the bearer refuses, which
  leave nothing behind, and the ones that are cancelled, where the code reads the request after the
  bearer released it.
\<close>

section \<open>Without a bearer\<close>

text \<open>The client after an operation was refused: only the counter of requests has moved.\<close>

definition refused :: "'e world \<Rightarrow> bt_gatt_client \<Rightarrow> 'e world" where
  "refused w c = upd (\<lambda>s. s\<lparr>gs_next := gs_next s + 1,
     client := Some (c\<lparr>next_request_id := (if next_request_id c < 1 then 1 else next_request_id c) + 1\<rparr>)\<rparr>) w"

lemma remove_pushed: "p \<notin> set ps \<Longrightarrow> remove1 p (ps @ [p]) = ps"
  by (simp add: remove1_append)

lemma created:
  assumes "gc_alloc G w" "client (bearer w) = Some c"
  defines "i \<equiv> if next_request_id c < 1 then 1 else next_request_id c"
  shows "request_create G w = Some (Some (gs_next (bearer w)), upd (\<lambda>s. s\<lparr>gs_next := gs_next (bearer w) + 1,
      client := Some (c\<lparr>pending_requests := pending_requests c @ [gs_next (bearer w)], next_request_id := i + 1\<rparr>),
      requests := (requests s)(gs_next (bearer w) \<mapsto> \<lparr>long_write = False, prep_write = False, removed = False, rq_refs = 1,
        rq_id = i, rq_att_id = 0, rq_data = NoData\<rparr>)\<rparr>) w)"
  using assms(1,2) by (simp add: request_create_def request_ref_def Let_def i_def upd_def)

lemma start_refused:
  assumes "client (bearer w) = Some c" "\<not> cl_att c" "requests (bearer w) p = Some r" "rq_refs r = 1" "\<not> removed r"
    and "\<And>w. destroy_data G (forget_destroy (rq_data r)) w = Some w"
  shows "start_op G p opcode pdu op w = Some (0, upd (\<lambda>s. s\<lparr>
      client := Some (c\<lparr>pending_requests := remove1 p (pending_requests c)\<rparr>), requests := (requests s)(p := None)\<rparr>) w)"
proof -
  have "send_op G p opcode pdu op w = Some (False, upd (\<lambda>s. s\<lparr>requests := (requests s)(p \<mapsto> r\<lparr>rq_att_id := 0\<rparr>)\<rparr>) w)"
    using assms(1-3) by (simp add: send_op_def att_send_def)
  then show ?thesis
    using assms by (simp add: start_op_def request_unref_def)
qed

lemma create_refused:
  assumes "\<And>w. gc_alloc G w" "client (bearer w) = Some c" "\<not> cl_att c" "gs_next (bearer w) \<notin> set (pending_requests c)"
    and "requests (bearer w) (gs_next (bearer w)) = None" "\<And>w. destroy_data G (forget_destroy data) w = Some w"
  shows "(create_with_data G data w \<bind> (\<lambda>(req, w). case req of None \<Rightarrow> Some (0, w)
      | Some p \<Rightarrow> start_op G p opcode (pdu p) (op p) w)) = Some (0, refused w c)"
proof -
  let ?p = "gs_next (bearer w)" and ?i = "if next_request_id c < 1 then 1 else next_request_id c"
  let ?r = "\<lparr>long_write = False, prep_write = False, removed = False, rq_refs = 1, rq_id = ?i, rq_att_id = 0, rq_data = data\<rparr>"
  let ?c = "c\<lparr>pending_requests := pending_requests c @ [?p], next_request_id := ?i + 1\<rparr>"
  let ?w = "upd (\<lambda>s. s\<lparr>gs_next := ?p + 1, client := Some ?c, requests := (requests s)(?p \<mapsto> ?r)\<rparr>) w"
  have c: "create_with_data G data w = Some (Some ?p, ?w)"
    using created [OF assms(1,2)] assms(1) by (simp add: create_with_data_def)
  have s: "start_op G ?p opcode (pdu ?p) (op ?p) ?w = Some (0, upd (\<lambda>s. s\<lparr>
      client := Some (?c\<lparr>pending_requests := remove1 ?p (pending_requests ?c)\<rparr>), requests := (requests s)(?p := None)\<rparr>) ?w)"
    by (rule start_refused [where c = ?c and r = ?r]) (use assms(3,6) in simp_all)
  have idem: "(requests (bearer w))(?p := None) = requests (bearer w)" using assms(5) by (simp add: fun_upd_idem)
  show ?thesis
    unfolding c using s assms(4) by (simp add: refused_def remove_pushed upd_def idem)
qed

text \<open>C20 An operation that the bearer refuses leaves nothing behind: when the client has lost its bearer, reading
  a value, a long value, writing and writing without a response return 0, call nobody and not the
  caller's destroy function either, and free the request, so that only the counter of requests moves.\<close>

theorem refused_operations_leave_nothing:
  assumes "\<And>w. gc_alloc G w" "client (bearer w) = Some c" "\<not> cl_att c" "gs_next (bearer w) \<notin> set (pending_requests c)"
    and "requests (bearer w) (gs_next (bearer w)) = None" "unat len \<le> length val"
  shows "bt_gatt_client_read_value G handle callback destroy w = Some (0, refused w c) \<and>
    bt_gatt_client_read_long_value G handle offset callback destroy w = Some (0, refused w c) \<and>
    bt_gatt_client_write_value G handle val len callback destroy w = Some (0, refused w c) \<and>
    bt_gatt_client_write_without_response G handle signed_write val len w = Some (0, refused w c)"
proof -
  note r = create_refused [OF assms(1-5)]
  have slice: "array_slice val 0 (unat len) = Some (take (unat len) val)" using assms(6) by (simp add: array_slice_def)
  let ?p = "gs_next (bearer w)" and ?i = "if next_request_id c < 1 then 1 else next_request_id c"
  let ?r = "\<lparr>long_write = False, prep_write = False, removed = False, rq_refs = 1, rq_id = ?i, rq_att_id = 0, rq_data = NoData\<rparr>"
  let ?c = "c\<lparr>pending_requests := pending_requests c @ [?p], next_request_id := ?i + 1\<rparr>"
  let ?w = "upd (\<lambda>s. s\<lparr>gs_next := ?p + 1, client := Some ?c, requests := (requests s)(?p \<mapsto> ?r)\<rparr>) w"
  have s: "start_op G ?p opcode pdu op ?w = Some (0, upd (\<lambda>s. s\<lparr>
      client := Some (?c\<lparr>pending_requests := remove1 ?p (pending_requests ?c)\<rparr>), requests := (requests s)(?p := None)\<rparr>) ?w)" for opcode pdu op
    by (rule start_refused [where c = ?c and r = ?r]) (use assms(3) in simp_all)
  have idem: "(requests (bearer w))(?p := None) = requests (bearer w)" using assms(5) by (simp add: fun_upd_idem)
  have "bt_gatt_client_write_without_response G handle signed_write val len w = Some (0, refused w c)"
    unfolding bt_gatt_client_write_without_response_def created [OF assms(1,2)]
    using s assms(3,4) by (simp add: slice bt_gatt_client_get_sec_level_def refused_def remove_pushed upd_def idem)
  moreover have "bt_gatt_client_read_value G handle callback destroy w = Some (0, refused w c)"
    unfolding bt_gatt_client_read_value_def by (rule r) (simp add: destroy_upper_def)
  moreover have "bt_gatt_client_read_long_value G handle offset callback destroy w = Some (0, refused w c)"
    unfolding bt_gatt_client_read_long_value_def by (rule r) (simp add: destroy_upper_def)
  moreover have "bt_gatt_client_write_value G handle val len callback destroy w = Some (0, refused w c)"
    unfolding bt_gatt_client_write_value_def slice bind.bind_lunit by (rule r) (simp add: destroy_upper_def)
  ultimately show ?thesis by simp
qed

lemma refused_operations_leave_nothing_witness:
  "bt_gatt_client_read_value value_host 3 (Some 7) (Some 8) (upd (\<lambda>s. s\<lparr>client := Some (demo_client\<lparr>cl_att := False\<rparr>)\<rparr>) value_world) =
    Some (0, refused (upd (\<lambda>s. s\<lparr>client := Some (demo_client\<lparr>cl_att := False\<rparr>)\<rparr>) value_world) (demo_client\<lparr>cl_att := False\<rparr>))"
  using refused_operations_leave_nothing [of value_host "upd (\<lambda>s. s\<lparr>client := Some (demo_client\<lparr>cl_att := False\<rparr>)\<rparr>) value_world"
      "demo_client\<lparr>cl_att := False\<rparr>" 0 "[]" 3 "Some 7" "Some 8"]
  by (simp add: value_world_def demo_client_def new_client_def value_host_def)

section \<open>Cancelled operations\<close>

lemma freed_by_unref:
  assumes "requests (bearer w) p = Some r" "rq_refs r = 1" "request_unref G p w = Some w'"
  shows "requests (bearer w') p = None"
  using assms by (auto simp: request_unref_def bind_Some_iff split: if_splits)

lemma find_first:
  assumes "\<And>x. x \<in> set xs \<Longrightarrow> m x w = Some False" "m y w = Some True"
  shows "find_match m (xs @ y # ys) w = Some (Some y)"
  using assms by (induction xs) auto

text \<open>C21 Cancelling an operation reads freed memory: the bearer releases the last reference to the request
  when its operation is cancelled, and \<^verbatim>\<open>bt_gatt_client_cancel\<close> then looks at the request again. So
  the cancellation of any read or write that is still waiting is undefined, whatever the bearer and the
  caller's destroy function do.\<close>

theorem cancel_reads_freed_request:
  assumes "client (bearer w) = Some c" "cl_att c" "pending_requests c = ps @ p # qs" "requests (bearer w) p = Some r" "i \<noteq> 0" "rq_id r = i"
    and "\<And>q. q \<in> set ps \<Longrightarrow> \<exists>r'. requests (bearer w) q = Some r' \<and> rq_id r' \<noteq> i"
    and "rq_refs r = 1" "rq_att_id r \<noteq> 0" "op \<in> {ReadCb p, ReadMultipleCb p, ReadLongCb p, WriteCb p, WriteCommand p}"
    and "gc_cancel G (rq_att_id r) (att_env (bearer w)) = Some (True, Some op, e)"
  shows "bt_gatt_client_cancel G i w = None"
proof -
  let ?c = "c\<lparr>pending_requests := remove1 p (pending_requests c)\<rparr>" and ?r = "r\<lparr>removed := True\<rparr>"
  let ?w = "upd (\<lambda>s. s\<lparr>client := Some ?c, requests := (requests s)(p \<mapsto> ?r)\<rparr>) w"
  let ?w' = "upd (\<lambda>s. s\<lparr>att_env := e\<rparr>) ?w"
  have found: "find_match (\<lambda>p w. map_option (\<lambda>r. rq_id r = i) (requests (bearer w) p)) (pending_requests c) w = Some (Some p)"
    unfolding assms(3) by (rule find_first) (use assms(4,6,7) in auto)
  have "release_op G op ?w' = request_unref G p ?w'" using assms(10) by auto
  then have "att_cancel G (rq_att_id r) ?w = do { w \<leftarrow> request_unref G p ?w'; Some (True, w) }"
    using assms(2,9,11) by (simp add: att_cancel_def)
  moreover have "requests (bearer w') p = None" if "request_unref G p ?w' = Some w'" for w'
    using freed_by_unref [OF _ _ that, of ?r] assms(8) by simp
  moreover have "bt_gatt_client_cancel G i w = do { (cancelled, w) \<leftarrow> att_cancel G (rq_att_id r) ?w; r \<leftarrow> requests (bearer w) p;
      if \<not> cancelled \<and> \<not> long_write r \<and> \<not> prep_write r then Some (False, w)
      else if long_write r then cancel_long_write_req G p w
      else if prep_write r then cancel_prep_write_session G p w else Some (True, w) }"
    using assms(1,2,4,5) found by (simp add: bt_gatt_client_cancel_def)
  ultimately show ?thesis by (cases "request_unref G p ?w'") simp_all
qed

text \<open>A read that was just started and is cancelled.\<close>

definition reading_world :: "demo world" where
  "reading_world = upd (\<lambda>s. s\<lparr>att_env := \<lparr>v_sent = [(BT_ATT_OP_READ_REQ, [3, 0], ReadCb 1)], v_reports = []\<rparr>,
     client := Some (demo_client\<lparr>pending_requests := [1], next_request_id := 2\<rparr>), gs_next := 2,
     requests := [1 \<mapsto> \<lparr>long_write = False, prep_write = False, removed = False, rq_refs = 1, rq_id = 1, rq_att_id = 1,
       rq_data = ReadOp (Some 7) None\<rparr>]\<rparr>) value_world"

lemma cancel_reads_freed_request_witness:
  "bt_gatt_client_read_value value_host 3 (Some 7) None value_world = Some (1, reading_world) \<and>
   bt_gatt_client_cancel value_host 1 reading_world = None"
proof
  show "bt_gatt_client_read_value value_host 3 (Some 7) None value_world = Some (1, reading_world)"
    by (simp add: bt_gatt_client_read_value_def create_with_data_def created value_host_def value_world_def demo_client_def new_client_def
        start_op_def send_op_def att_send_def put_le16_def reading_world_def upd_def)
  show "bt_gatt_client_cancel value_host 1 reading_world = None"
    by (rule cancel_reads_freed_request [where p = 1 and op = "ReadCb 1"])
      (auto simp: reading_world_def value_host_def demo_client_def new_client_def)
qed

end
