(* ===== verification/Spec2Isabelle.thy ===== *)
theory Spec2Isabelle
  imports Queue Update Util EventLoop Signals Io AttProtocol Crypto Discovery ClientWrites Composition ClientLife
begin

text \<open>
  Verification of nrfdfu, a program that updates the firmware of a Nordic nRF5 device over Bluetooth
  Low Energy, with the part of BlueZ it carries in \<^verbatim>\<open>bluez/\<close>.

  \<^bold>\<open>The program.\<close> \<^verbatim>\<open>nrfdfu.c\<close> (or a caller of \<^verbatim>\<open>libnrfdfu.c\<close>) reads the options, opens the package
  (\<^verbatim>\<open>zip.c\<close>), reads its manifest (\<^verbatim>\<open>manifest.c\<close>) and calls \<^verbatim>\<open>dfu()\<close> of \<^verbatim>\<open>dfu.c\<close> for each announced image.
  \<^verbatim>\<open>dfu()\<close> connects (\<^verbatim>\<open>ble.c\<close>), sends the device into its bootloader when it has only the buttonless
  service, and transfers the init packet and the firmware. \<^verbatim>\<open>ble.c\<close> finds the handles of the DFU
  service in the attribute database (\<^verbatim>\<open>bluez/gatt-db.c\<close>, \<^verbatim>\<open>bluez/uuid.c\<close>), sends writes through the
  GATT client and waits for answers in the main loop (\<^verbatim>\<open>bluez/mainloop.c\<close>). Below the GATT client is
  the ATT bearer (\<^verbatim>\<open>bluez/att.c\<close>) with its queues (\<^verbatim>\<open>bluez/queue.c\<close>), timers
  (\<^verbatim>\<open>bluez/timeout-mainloop.c\<close>) and signatures (\<^verbatim>\<open>bluez/crypto.c\<close>).

  \<^bold>\<open>Conventions.\<close> A C function is a function of the state it works on. \<open>None\<close> stands for undefined
  behaviour (a dangling or null pointer, an access out of bounds, a division by zero) and for a wait
  that never ends; \<open>Some\<close> is a normal return, so \<open>f x = Some y\<close> says that the call is safe and
  returns. Integers have their C width (\<^verbatim>\<open>Nrf_Prelude\<close>). Loops of the C code that may not end are
  \<open>partial_function (option)\<close>; there is no fuel. What the code calls and is not in the repository
  (system calls, libzip, getopt, the peripheral) is an argument of the definitions that use it.

  \<^bold>\<open>Theories.\<close>

  \<^item> \<open>Nrf_Prelude\<close>: integer types, checked arrays, \<^verbatim>\<open>get_le16\<close> and its kin as instances of the locale
    \<open>field_codec\<close>, and the rules \<open>holds\<close> for what a call guarantees if it returns.
  \<^item> \<open>Crc32\<close> (\<^verbatim>\<open>crc32.c\<close>): the checksum; block-wise computation and detection of burst errors.
  \<^item> \<open>Queue\<close> (\<^verbatim>\<open>bluez/queue.c\<close>): the linked list over an explicit heap with reference counts. \<open>queue_rep\<close>
    relates a heap to the list it stores; the lemmas give the list operation of each function, also
    for callbacks that remove entries while the list is traversed.
  \<^item> \<open>Mainloop\<close>, \<open>EventLoop\<close>, \<open>Signals\<close> (\<^verbatim>\<open>bluez/mainloop.c\<close>, \<^verbatim>\<open>bluez/timeout-mainloop.c\<close>): the flags and the
    loop, then the descriptor table with its timers over the epoll set of the kernel, then signals, which
    the program does not use. \<open>loop_ok\<close> keeps the table and the kernel in step.
  \<^item> \<open>Io\<close> (\<^verbatim>\<open>bluez/io-mainloop.c\<close>): descriptors with handlers, reference counted, on that table; the
    handlers of the layer above may call any function of the interface.
  \<^item> \<open>Uuid\<close> (\<^verbatim>\<open>bluez/uuid.c\<close>), \<open>GattDb\<close> (\<^verbatim>\<open>bluez/gatt-db.c\<close>): identifiers and the attribute database.
    \<open>db_ok\<close> says that services are sorted and disjoint; lookups are exact on such a database.
  \<^item> \<open>Ble\<close>, \<open>Connection\<close> (\<^verbatim>\<open>ble.c\<close>): the connection, its callbacks and its waits over a \<open>transport\<close>, the
    record of what the GATT client below answers; then opening and closing over system calls.
  \<^item> \<open>Dfu\<close>, \<open>DfuTarget\<close>, \<open>Update\<close> (\<^verbatim>\<open>dfu.c\<close>, \<^verbatim>\<open>nrfdfu.c\<close>, \<^verbatim>\<open>libnrfdfu.c\<close>): the transfer of one package, the
    bootloader at the other end, and the update with its retries. \<open>dfu_protocol\<close> is the protocol as it is
    documented, for any way to make a request and to write data; a \<open>peer_view\<close> tells which bootloader a
    state stands for; \<open>dfu_target\<close> is the protocol over a transport, a hypothesis about the peripheral
    with \<open>sim\<close> as an instance. Safety holds for every transport; liveness against a documented bootloader.
  \<^item> \<open>Manifest\<close> (\<^verbatim>\<open>manifest.c\<close>), \<open>Zip\<close> (\<^verbatim>\<open>zip.c\<close>, \<^verbatim>\<open>util.c\<close>), \<open>Util\<close> (\<^verbatim>\<open>bluez/util.c\<close>, \<^verbatim>\<open>hexdump.c\<close>): reading the
    package, and the helpers.
  \<^item> \<open>Att\<close>, \<open>AttProtocol\<close> (\<^verbatim>\<open>bluez/att.c\<close>): the bearer with all its functions over a \<open>host\<close> whose
    callbacks may call any function of the interface. \<open>att_ok\<close> is the invariant, \<open>evolves\<close> the
    contract of a callback, the locale \<open>upper_layer\<close> the proofs for every such upper layer.
  \<^item> \<open>Crypto\<close> (\<^verbatim>\<open>bluez/crypto.c\<close>): the pairing and signing functions over the AES sockets of the kernel,
    compared with the functions of the Bluetooth specification.
  \<^item> \<open>GattHelpers\<close>, \<open>Discovery\<close> (\<^verbatim>\<open>bluez/gatt-helpers.c\<close>): the discovery procedures with their reference
    counted requests over a bearer (\<open>gh_host\<close>), and the iterators over their results. The locale
    \<open>att_link\<close> is a bearer that sends one request at a time, \<open>procedure\<close> the loop that the four
    procedures share and \<open>element_reader\<close> the iterators; a server is \<open>compliant\<close> if it answers a range
    with some of its first elements.

  \<^item> \<open>ClientBase\<close>, \<open>ClientRequests\<close>, \<open>ClientNotify\<close>, \<open>ClientDiscovery\<close> (\<^verbatim>\<open>bluez/gatt-client.c\<close>): the GATT
    client with its requests, registrations and discovery operations on heaps, over a bearer and a layer
    above (\<open>gc_host\<close>). \<open>ClientValues\<close>, \<open>ClientWrites\<close> and \<open>ClientNotified\<close> prove what reading, writing and
    notifying do over a bearer that keeps the order (locale \<open>value_link\<close>); \<open>ClientLife\<close> is about
    operations that are refused or cancelled.
  \<^item> \<open>AttLink\<close>, \<open>Bearer\<close>: the model of \<^verbatim>\<open>att.c\<close> is such a bearer, and one for the discovery procedures.
  \<^item> \<open>ClientTransport\<close>, \<open>Composition\<close>: the GATT client as the \<open>transport\<close> of \<open>Ble\<close>, and all layers together.

  \<^bold>\<open>How the parts meet.\<close> \<open>DfuTarget\<close> carries a transfer through \<open>Dfu\<close>, \<open>Ble\<close> and \<open>Mainloop\<close>; \<open>Update\<close>
  composes it with discovery in a \<open>GattDb\<close> database, \<open>Connection\<close>, \<open>Manifest\<close> and \<open>Zip\<close>.
  \<open>ClientTransport\<close> replaces the \<open>transport\<close> by the GATT client, where a peripheral only answers single
  ATT operations, and \<open>Composition\<close> puts \<^verbatim>\<open>att.c\<close> below it. There the bearer ends an operation before the
  client's callback of it runs, while \<^verbatim>\<open>att.c\<close> runs the callback first; the callbacks of a transfer only
  queue operations, for which the order is the same. The discovery procedures run on the state of the
  client; their result for a whole server is proved in \<open>Discovery\<close> with a caller that takes it. The ATT
  bearer is proved on its own against any upper layer and any host (\<open>AttProtocol\<close>).

  \<^bold>\<open>Not modelled.\<close> Messages to the terminal and debug messages where they do not decide anything; the
  options of \<^verbatim>\<open>getopt\<close> and the formatting of the C library; headers that only declare. Callbacks of a
  \<^verbatim>\<open>gatt_db\<close> are recorded and do not call back into it.
\<close>

end
